(* ===== verification/Prelude.thy ===== *)
theory Prelude
  imports Complex_Main "HOL-Library.Word"
begin

text \<open>
  The prelude of the development: the theorem collections, the error type of the model,
  short-circuit iteration over fallible predicates, the insertion-ordered map that stands for
  JavaScript's \<open>Map\<close>, decimal rendering of numbers and string splitting.

  An operation of the source that can throw returns \<open>js_error + 'a\<close>; \<open>rbind\<close> sequences such
  operations and stops at the first error, as an exception does.
\<close>

named_theorems jmap_simps "laws of the insertion-ordered map"
named_theorems res_simps "evaluation of fallible computations"

section \<open>Errors as values\<close>

datatype js_error = TypeError string | Error string

type_synonym 'a res = "js_error + 'a"

fun rbind :: "js_error + 'a \<Rightarrow> ('a \<Rightarrow> js_error + 'b) \<Rightarrow> js_error + 'b" where
  "rbind (Inl e) f = Inl e"
| "rbind (Inr x) f = f x"

fun is_ok :: "js_error + 'a \<Rightarrow> bool" where
  "is_ok (Inl e) = False"
| "is_ok (Inr x) = True"

lemma rbind_cong [fundef_cong]:
  "m = m' \<Longrightarrow> (\<And>x. m' = Inr x \<Longrightarrow> f x = g x) \<Longrightarrow> rbind m f = rbind m' g"
  by (cases m') auto

lemma rbind_Inr_conv [res_simps]: "(rbind m f = Inr y) = (\<exists>x. m = Inr x \<and> f x = Inr y)"
  by (cases m) auto

lemma is_ok_conv: "is_ok m = (\<exists>x. m = Inr x)"
  by (cases m) auto

lemma not_is_ok_conv: "(\<not> is_ok m) = (\<exists>e. m = Inl e)"
  by (cases m) auto

text \<open>\<open>Array.prototype.every\<close> and \<open>some\<close> with a predicate that may throw: elements are
  visited from the left and the visit stops at the first decisive element.\<close>

fun every_r :: "('a \<Rightarrow> js_error + bool) \<Rightarrow> 'a list \<Rightarrow> js_error + bool" where
  "every_r p [] = Inr True"
| "every_r p (x # xs) = rbind (p x) (\<lambda>b. if b then every_r p xs else Inr False)"

fun some_r :: "('a \<Rightarrow> js_error + bool) \<Rightarrow> 'a list \<Rightarrow> js_error + bool" where
  "some_r p [] = Inr False"
| "some_r p (x # xs) = rbind (p x) (\<lambda>b. if b then Inr True else some_r p xs)"

lemma every_r_cong [fundef_cong]:
  "xs = ys \<Longrightarrow> (\<And>x. x \<in> set ys \<Longrightarrow> p x = q x) \<Longrightarrow> every_r p xs = every_r q ys"
  by (induction ys arbitrary: xs) (auto intro: rbind_cong)

lemma some_r_cong [fundef_cong]:
  "xs = ys \<Longrightarrow> (\<And>x. x \<in> set ys \<Longrightarrow> p x = q x) \<Longrightarrow> some_r p xs = some_r q ys"
  by (induction ys arbitrary: xs) (auto intro: rbind_cong)

lemma every_r_pure [simp]: "every_r (\<lambda>x. Inr (p x)) xs = Inr (list_all p xs)"
  by (induction xs) auto

lemma some_r_pure [simp]: "some_r (\<lambda>x. Inr (p x)) xs = Inr (list_ex p xs)"
  by (induction xs) auto

lemma every_r_ok:
  "(\<And>x. x \<in> set xs \<Longrightarrow> p x = Inr (q x)) \<Longrightarrow> every_r p xs = Inr (\<forall>x \<in> set xs. q x)"
  by (induction xs) auto

lemma some_r_ok:
  "(\<And>x. x \<in> set xs \<Longrightarrow> p x = Inr (q x)) \<Longrightarrow> some_r p xs = Inr (\<exists>x \<in> set xs. q x)"
  by (induction xs) auto

section \<open>The insertion-ordered map\<close>

text \<open>
  A JavaScript \<open>Map\<close> is the list of its entries in insertion order. \<open>jset\<close> overwrites in place
  when the key exists and appends otherwise; \<open>jdel\<close> removes the entry; \<open>map_of\<close> looks up;
  \<open>jwf\<close> says that keys are distinct.
\<close>

type_synonym ('k, 'v) jmap = "('k \<times> 'v) list"

abbreviation jget :: "('k, 'v) jmap \<Rightarrow> 'k \<Rightarrow> 'v option" where
  "jget m k \<equiv> map_of m k"

fun jset :: "'k \<Rightarrow> 'v \<Rightarrow> ('k, 'v) jmap \<Rightarrow> ('k, 'v) jmap" where
  "jset k v [] = [(k, v)]"
| "jset k v ((k', v') # m) = (if k' = k then (k, v) # m else (k', v') # jset k v m)"

definition jdel :: "'k \<Rightarrow> ('k, 'v) jmap \<Rightarrow> ('k, 'v) jmap" where
  "jdel k m = filter (\<lambda>e. fst e \<noteq> k) m"

definition jhas :: "('k, 'v) jmap \<Rightarrow> 'k \<Rightarrow> bool" where
  "jhas m k = (map_of m k \<noteq> None)"

abbreviation jkeys :: "('k, 'v) jmap \<Rightarrow> 'k list" where
  "jkeys m \<equiv> map fst m"

abbreviation jvals :: "('k, 'v) jmap \<Rightarrow> 'v list" where
  "jvals m \<equiv> map snd m"

abbreviation jwf :: "('k, 'v) jmap \<Rightarrow> bool" where
  "jwf m \<equiv> distinct (map fst m)"

lemma jget_jset [simp, jmap_simps]: "map_of (jset k v m) = (map_of m)(k \<mapsto> v)"
  by (induction m) (auto simp: fun_eq_iff)

lemma jget_jdel [simp, jmap_simps]: "map_of (jdel k m) = (map_of m)(k := None)"
  by (induction m) (auto simp: jdel_def fun_eq_iff)

lemma set_jkeys_jset [simp]: "fst ` set (jset k v m) = insert k (fst ` set m)"
proof (induction m)
  case (Cons e m)
  then show ?case by (cases e) (simp add: insert_commute)
qed simp

lemma set_jkeys_jdel [simp]: "fst ` set (jdel k m) = fst ` set m - {k}"
  by (auto simp: jdel_def)

lemma jwf_jset [simp]: "jwf m \<Longrightarrow> jwf (jset k v m)"
  by (induction m) auto

lemma jwf_jdel [simp]: "jwf m \<Longrightarrow> jwf (jdel k m)"
  by (simp add: jdel_def distinct_map_filter)

lemma set_jset: "jwf m \<Longrightarrow> set (jset k v m) = insert (k, v) {e \<in> set m. fst e \<noteq> k}"
proof (induction m)
  case (Cons e m)
  obtain k' v' where e: "e = (k', v')" by (cases e)
  then have "\<forall>e' \<in> set m. fst e' \<noteq> k'" using Cons.prems by (auto simp: image_iff)
  then show ?case using Cons e by auto
qed simp

lemma jhas_iff: "jhas m k = (k \<in> fst ` set m)"
  by (auto simp: jhas_def dom_map_of_conv_image_fst [symmetric])

lemma jset_fresh: "map_of m k = None \<Longrightarrow> jset k v m = m @ [(k, v)]"
  by (induction m) (auto split: if_splits)

lemma jkeys_jset_present: "k \<in> fst ` set m \<Longrightarrow> jkeys (jset k v m) = jkeys m"
proof (induction m)
  case (Cons e m)
  then show ?case by (cases e) (auto simp: image_iff)
qed simp

lemma jdel_absent: "map_of m k = None \<Longrightarrow> jdel k m = m"
  by (auto simp: jdel_def filter_id_conv map_of_eq_None_iff)

lemma length_jdel_present:
  "jwf m \<Longrightarrow> map_of m k \<noteq> None \<Longrightarrow> length (jdel k m) = length m - 1"
proof (induction m)
  case Nil
  then show ?case by simp
next
  case (Cons e m)
  show ?case
  proof (cases "fst e = k")
    case True
    with Cons.prems have "map_of m k = None" by (auto simp: map_of_eq_None_iff)
    with True show ?thesis by (simp add: jdel_def jdel_absent [unfolded jdel_def])
  next
    case False
    with Cons.prems have "map_of m k \<noteq> None" by (auto split: if_splits)
    then have "m \<noteq> []" by auto
    with False Cons show ?thesis by (cases m) (auto simp: jdel_def split: if_splits)
  qed
qed

lemma jwf_in_set_iff: "jwf m \<Longrightarrow> ((k, v) \<in> set m) = (map_of m k = Some v)"
  by (auto dest: map_of_SomeD)

text \<open>The contract of a map that the clients of the model rely on, and its implementation.\<close>

locale js_map =
  fixes emp :: "'m"
    and lookup :: "'m \<Rightarrow> 'k \<Rightarrow> 'v option"
    and put :: "'k \<Rightarrow> 'v \<Rightarrow> 'm \<Rightarrow> 'm"
    and remove :: "'k \<Rightarrow> 'm \<Rightarrow> 'm"
    and inv :: "'m \<Rightarrow> bool"
  assumes lookup_emp: "lookup emp k = None"
    and lookup_put: "inv m \<Longrightarrow> lookup (put k v m) = (lookup m)(k \<mapsto> v)"
    and lookup_remove: "inv m \<Longrightarrow> lookup (remove k m) = (lookup m)(k := None)"
    and inv_emp: "inv emp"
    and inv_put: "inv m \<Longrightarrow> inv (put k v m)"
    and inv_remove: "inv m \<Longrightarrow> inv (remove k m)"
begin

lemma lookup_remove_put: "inv m \<Longrightarrow> lookup (remove k (put k v m)) = (lookup m)(k := None)"
  by (simp add: lookup_remove lookup_put inv_put)

lemma lookup_put_put:
  "inv m \<Longrightarrow> lookup (put k w (put k v m)) = lookup (put k w m)"
  by (simp add: lookup_put inv_put)

lemma put_all:
  "inv m \<Longrightarrow> inv (fold (\<lambda>(k, v). put k v) kvs m) \<and>
    lookup (fold (\<lambda>(k, v). put k v) kvs m) = lookup m ++ map_of (rev kvs)"
proof (induction kvs arbitrary: m)
  case Nil
  then show ?case by simp
next
  case (Cons e kvs)
  obtain k v where e: "e = (k, v)" by (cases e)
  from Cons.prems have "inv (put k v m)" by (rule inv_put)
  from Cons.IH [OF this] Cons.prems show ?case
    by (simp add: e lookup_put map_add_assoc [symmetric] map_add_upd_left)
       (simp add: map_add_def fun_eq_iff split: option.splits)
qed

end

interpretation jm: js_map "[]" map_of jset jdel jwf
  by unfold_locales simp_all

lemma jset_all_lookup:
  "jwf m \<Longrightarrow> map_of (fold (\<lambda>(k, v). jset k v) kvs m) = map_of m ++ map_of (rev kvs)"
  using jm.put_all by blast

section \<open>Decimal numerals\<close>

definition digit_char :: "nat \<Rightarrow> char" where
  "digit_char d = char_of (48 + d)"

fun show_nat :: "nat \<Rightarrow> string" where
  "show_nat n = (if n < 10 then [digit_char n] else show_nat (n div 10) @ [digit_char (n mod 10)])"

declare show_nat.simps [simp del]

definition digit_val :: "char \<Rightarrow> nat option" where
  "digit_val c = (let v = of_char c in if 48 \<le> v \<and> v < (58 :: nat) then Some (v - 48) else None)"

fun digits_val :: "nat \<Rightarrow> string \<Rightarrow> nat" where
  "digits_val acc [] = acc"
| "digits_val acc (c # cs) = (case digit_val c of None \<Rightarrow> acc | Some d \<Rightarrow> digits_val (10 * acc + d) cs)"

lemma digit_val_digit_char [simp]: "d < 10 \<Longrightarrow> digit_val (digit_char d) = Some d"
  by (simp add: digit_val_def digit_char_def Let_def)

lemma digits_val_append_digit:
  "\<forall>c \<in> set cs. digit_val c \<noteq> None \<Longrightarrow> d < 10 \<Longrightarrow>
    digits_val acc (cs @ [digit_char d]) = 10 * digits_val acc cs + d"
  by (induction acc cs rule: digits_val.induct) (auto split: option.splits)

lemma show_nat_digits: "\<forall>c \<in> set (show_nat n). digit_val c \<noteq> None"
proof (induction n rule: show_nat.induct)
  case (1 n)
  then show ?case
    by (subst show_nat.simps) (auto simp: Let_def)
qed

lemma digits_val_show_nat [simp]: "digits_val 0 (show_nat n) = n"
proof (induction n rule: show_nat.induct)
  case (1 n)
  show ?case
  proof (cases "n < 10")
    case True
    then show ?thesis by (subst show_nat.simps) simp
  next
    case False
    then show ?thesis
      using 1 show_nat_digits [of "n div 10"]
      by (subst show_nat.simps) (simp add: digits_val_append_digit)
  qed
qed

lemma show_nat_inj: "show_nat m = show_nat n \<Longrightarrow> m = n"
  by (metis digits_val_show_nat)

lemma show_nat_not_Nil [simp]: "show_nat n \<noteq> []"
  by (subst show_nat.simps) simp

section \<open>Splitting strings\<close>

text \<open>\<open>String.prototype.split\<close> with a one-character separator: never the empty list.\<close>

fun split_on :: "char \<Rightarrow> string \<Rightarrow> string list" where
  "split_on c [] = [[]]"
| "split_on c (x # xs) =
     (if x = c then [] # split_on c xs
      else (case split_on c xs of [] \<Rightarrow> [[x]] | p # ps \<Rightarrow> (x # p) # ps))"

fun join_with :: "char \<Rightarrow> string list \<Rightarrow> string" where
  "join_with c [] = []"
| "join_with c [p] = p"
| "join_with c (p # q # ps) = p @ c # join_with c (q # ps)"

lemma split_on_not_Nil [simp]: "split_on c s \<noteq> []"
  by (induction s) (auto split: list.splits)

lemma split_on_no_sep: "c \<notin> set p \<Longrightarrow> split_on c p = [p]"
  by (induction p) auto

lemma split_on_append_sep:
  "c \<notin> set p \<Longrightarrow> split_on c (p @ c # s) = p # split_on c s"
  by (induction p) auto

lemma split_on_join:
  "ps \<noteq> [] \<Longrightarrow> \<forall>p \<in> set ps. c \<notin> set p \<Longrightarrow> split_on c (join_with c ps) = ps"
  by (induction c ps rule: join_with.induct) (auto simp: split_on_no_sep split_on_append_sep)

lemma join_split_on: "join_with c (split_on c s) = s"
proof (induction s)
  case Nil
  then show ?case by simp
next
  case (Cons x s)
  then obtain p ps where "split_on c s = p # ps" "join_with c (p # ps) = s"
    by (cases "split_on c s") auto
  then show ?case by (cases ps) auto
qed

lemma split_on_parts_no_sep: "p \<in> set (split_on c s) \<Longrightarrow> c \<notin> set p"
  by (induction s arbitrary: p) (auto split: if_splits list.splits)

lemma length_split_on: "length (split_on c s) = Suc (count_list s c)"
  by (induction s) (auto split: list.splits)

definition starts_with :: "string \<Rightarrow> string \<Rightarrow> bool" where
  "starts_with s p = (take (length p) s = p)"

lemma starts_with_append [simp]: "starts_with (p @ s) p"
  by (simp add: starts_with_def)

lemma starts_with_iff: "starts_with s p = (\<exists>t. s = p @ t)"
  by (metis append_take_drop_id starts_with_append starts_with_def)

fun index_of :: "char \<Rightarrow> string \<Rightarrow> nat option" where
  "index_of c [] = None"
| "index_of c (x # xs) = (if x = c then Some 0 else map_option Suc (index_of c xs))"

lemma index_of_None: "(index_of c s = None) = (c \<notin> set s)"
  by (induction s) auto

lemma index_of_append: "c \<notin> set p \<Longrightarrow> index_of c (p @ c # s) = Some (length p)"
  by (induction p) auto

end
