(* ===== verification/JsValue.thy ===== *)
theory JsValue
  imports Prelude
begin

text \<open>
  The JavaScript values the framework handles: what JSON transports, \<open>undefined\<close>, \<open>Date\<close> and
  \<open>RegExp\<close> objects, instances of classes, and the functions that a property lookup finds on the
  prototype of an object. Objects are pure values: an object is its own enumerable properties in
  insertion order together with the kind of its prototype, so two occurrences of an object stand
  for two references. Numbers are IEEE doubles without rounding: the code modelled here compares
  numbers and never computes with those that can round.

  \<open>get_prop\<close> is the property access \<open>o[k]\<close> on an object: own properties first, then the members
  of \<open>Object.prototype\<close> and \<open>Array.prototype\<close>. Members of other prototypes are not modelled.
\<close>

section \<open>Numbers\<close>

datatype jsnum = NaN | NegInf | Fin rat | PosInf

fun num_eq :: "jsnum \<Rightarrow> jsnum \<Rightarrow> bool" where
  "num_eq NaN _ = False"
| "num_eq _ NaN = False"
| "num_eq x y = (x = y)"

fun num_less :: "jsnum \<Rightarrow> jsnum \<Rightarrow> bool" where
  "num_less NaN _ = False"
| "num_less _ NaN = False"
| "num_less NegInf y = (y \<noteq> NegInf)"
| "num_less (Fin a) (Fin b) = (a < b)"
| "num_less (Fin a) PosInf = True"
| "num_less (Fin a) NegInf = False"
| "num_less PosInf _ = False"

definition num_le :: "jsnum \<Rightarrow> jsnum \<Rightarrow> bool" where
  "num_le x y = (num_less x y \<or> num_eq x y)"

lemma num_eq_iff: "num_eq x y = (x = y \<and> x \<noteq> NaN)"
  by (cases x; cases y) auto

lemma num_less_trans: "num_less x y \<Longrightarrow> num_less y z \<Longrightarrow> num_less x z"
  by (cases x; cases y; cases z) auto

lemma num_le_linear: "x \<noteq> NaN \<Longrightarrow> y \<noteq> NaN \<Longrightarrow> num_le x y \<or> num_less y x"
  by (cases x; cases y) (auto simp: num_le_def)

lemma num_less_irrefl [simp]: "\<not> num_less x x"
  by (cases x) auto

lemma num_less_asym: "num_less x y \<Longrightarrow> \<not> num_le y x"
  by (cases x; cases y) (auto simp: num_le_def)

lemma num_le_NaN [simp]: "\<not> num_le NaN y" "\<not> num_le x NaN" "\<not> num_less x NaN"
  by (cases x; cases y; simp add: num_le_def)+

lemma num_le_trans: "num_le x y \<Longrightarrow> num_le y z \<Longrightarrow> num_le x z"
  by (cases x; cases y; cases z) (auto simp: num_le_def)

text \<open>\<open>Math.max\<close> and \<open>Math.min\<close>.\<close>

definition num_max :: "jsnum \<Rightarrow> jsnum \<Rightarrow> jsnum" where
  "num_max a b = (if a = NaN \<or> b = NaN then NaN else if num_less a b then b else a)"

definition num_min :: "jsnum \<Rightarrow> jsnum \<Rightarrow> jsnum" where
  "num_min a b = (if a = NaN \<or> b = NaN then NaN else if num_less b a then b else a)"

section \<open>Values\<close>

datatype jsproto = ObjectProto | NullProto | ClassProto string

datatype jsv =
    JUndef
  | JNull
  | JBool bool
  | JNum jsnum
  | JStr string
  | JArr "jsv list"
  | JObj jsproto "(string \<times> jsv) list"
  | JDate jsnum
  | JRegExp string
  | JFun string

abbreviation jint :: "int \<Rightarrow> jsv" where
  "jint i \<equiv> JNum (Fin (of_int i))"

abbreviation jobj :: "(string \<times> jsv) list \<Rightarrow> jsv" where
  "jobj ps \<equiv> JObj ObjectProto ps"

datatype jstype = TUndefined | TBoolean | TNumber | TString | TObject | TFunction

fun typeof :: "jsv \<Rightarrow> jstype" where
  "typeof JUndef = TUndefined"
| "typeof (JBool _) = TBoolean"
| "typeof (JNum _) = TNumber"
| "typeof (JStr _) = TString"
| "typeof (JFun _) = TFunction"
| "typeof _ = TObject"

fun truthy :: "jsv \<Rightarrow> bool" where
  "truthy JUndef = False"
| "truthy JNull = False"
| "truthy (JBool b) = b"
| "truthy (JNum n) = (n \<noteq> NaN \<and> n \<noteq> Fin 0)"
| "truthy (JStr s) = (s \<noteq> [])"
| "truthy _ = True"

text \<open>\<open>a === b\<close>: objects are equal only as references, and two values of the model are two
  references.\<close>

fun strict_eq :: "jsv \<Rightarrow> jsv \<Rightarrow> bool" where
  "strict_eq JUndef JUndef = True"
| "strict_eq JNull JNull = True"
| "strict_eq (JBool a) (JBool b) = (a = b)"
| "strict_eq (JNum a) (JNum b) = num_eq a b"
| "strict_eq (JStr a) (JStr b) = (a = b)"
| "strict_eq (JFun a) (JFun b) = (a = b)"
| "strict_eq _ _ = False"

fun is_array :: "jsv \<Rightarrow> bool" where
  "is_array (JArr _) = True"
| "is_array _ = False"

fun is_str :: "jsv \<Rightarrow> bool" where
  "is_str (JStr _) = True"
| "is_str _ = False"

fun is_num :: "jsv \<Rightarrow> bool" where
  "is_num (JNum _) = True"
| "is_num _ = False"

fun is_bool :: "jsv \<Rightarrow> bool" where
  "is_bool (JBool _) = True"
| "is_bool _ = False"

definition nonempty_str :: "jsv \<Rightarrow> bool" where
  "nonempty_str v = (is_str v \<and> v \<noteq> JStr [])"

lemma nonempty_str_iff: "nonempty_str v = (\<exists>c s. v = JStr (c # s))"
  by (cases v) (auto simp: nonempty_str_def neq_Nil_conv)

lemma nonempty_str_simps [simp]:
  "nonempty_str (JStr s) = (s \<noteq> [])" "\<not> nonempty_str JUndef" "\<not> nonempty_str JNull"
  "\<not> nonempty_str (JArr xs)" "\<not> nonempty_str (JObj p ps)" "\<not> nonempty_str (JNum n)"
  "\<not> nonempty_str (JBool b)" "\<not> nonempty_str (JFun f)"
  by (simp_all add: nonempty_str_def)

fun is_prim :: "jsv \<Rightarrow> bool" where
  "is_prim (JArr _) = False"
| "is_prim (JObj _ _) = False"
| "is_prim (JDate _) = False"
| "is_prim (JRegExp _) = False"
| "is_prim _ = True"

lemma typeof_object: "typeof v = TObject \<longleftrightarrow> v = JNull \<or> \<not> is_prim v"
  by (cases v) auto

lemma strict_eq_prim: "is_prim a \<Longrightarrow> a \<noteq> JNum NaN \<Longrightarrow> strict_eq a b = (a = b)"
  by (cases a; cases b) (auto simp: num_eq_iff)

lemma strict_eq_imp: "strict_eq a b \<Longrightarrow> a = b \<and> is_prim a"
  by (cases a; cases b) (auto simp: num_eq_iff)

section \<open>Properties\<close>

definition object_proto_names :: "string list" where
  "object_proto_names =
    [''constructor'', ''toString'', ''toLocaleString'', ''valueOf'', ''hasOwnProperty'',
     ''isPrototypeOf'', ''propertyIsEnumerable'', ''__defineGetter__'', ''__defineSetter__'',
     ''__lookupGetter__'', ''__lookupSetter__'']"

definition array_proto_names :: "string list" where
  "array_proto_names =
    [''concat'', ''copyWithin'', ''entries'', ''every'', ''fill'', ''filter'', ''find'',
     ''findIndex'', ''flat'', ''flatMap'', ''forEach'', ''includes'', ''indexOf'', ''join'',
     ''keys'', ''lastIndexOf'', ''map'', ''pop'', ''push'', ''reduce'', ''reduceRight'',
     ''reverse'', ''shift'', ''slice'', ''some'', ''sort'', ''splice'', ''unshift'', ''values'']"

definition proto_prop :: "string \<Rightarrow> jsv" where
  "proto_prop k =
    (if k \<in> set object_proto_names then JFun k
     else if k = ''__proto__'' then JObj NullProto [] else JUndef)"

definition arr_index :: "string \<Rightarrow> nat option" where
  "arr_index k = (let i = digits_val 0 k in if show_nat i = k then Some i else None)"

lemma arr_index_show_nat [simp]: "arr_index (show_nat i) = Some i"
  by (simp add: arr_index_def Let_def)

fun get_prop :: "jsv \<Rightarrow> string \<Rightarrow> jsv" where
  "get_prop (JObj p ps) k =
    (case map_of ps k of Some v \<Rightarrow> v
     | None \<Rightarrow> (if p = NullProto then JUndef else proto_prop k))"
| "get_prop (JArr xs) k =
    (if k = ''length'' then JNum (Fin (of_nat (length xs)))
     else case arr_index k of
       Some i \<Rightarrow> (if i < length xs then xs ! i else JUndef)
     | None \<Rightarrow> (if k \<in> set array_proto_names then JFun k else proto_prop k))"
| "get_prop (JRegExp r) k = (if k = ''lastIndex'' then JNum (Fin 0) else proto_prop k)"
| "get_prop _ k = proto_prop k"

text \<open>\<open>Object.keys\<close> and the own enumerable properties.\<close>

fun own_props :: "jsv \<Rightarrow> (string \<times> jsv) list" where
  "own_props (JObj p ps) = ps"
| "own_props (JArr xs) = zip (map show_nat [0..<length xs]) xs"
| "own_props (JStr s) = zip (map show_nat [0..<length s]) (map (\<lambda>c. JStr [c]) s)"
| "own_props _ = []"

definition own_keys :: "jsv \<Rightarrow> string list" where
  "own_keys v = map fst (own_props v)"

lemma own_keys_obj [simp]: "own_keys (JObj p ps) = map fst ps"
  by (simp add: own_keys_def)

lemma own_props_no_obj: "(\<And>p ps. v \<noteq> JObj p ps) \<Longrightarrow> (\<And>xs. v \<noteq> JArr xs) \<Longrightarrow> (\<And>s. v \<noteq> JStr s)
    \<Longrightarrow> own_props v = []"
  by (cases v) auto

lemma size_own_props:
  "typeof v = TObject \<Longrightarrow> (k, w) \<in> set (own_props v) \<Longrightarrow> size w < size v"
proof (cases v)
  case (JObj p ps)
  moreover assume "(k, w) \<in> set (own_props v)"
  ultimately have "(k, w) \<in> set ps" by simp
  then have "size_prod (\<lambda>_. 0) size (k, w) \<le> size_list (size_prod (\<lambda>_. 0) size) ps"
    by (rule size_list_estimation' [where f = "size_prod (\<lambda>_. 0) size"]) simp
  then show ?thesis using JObj by simp
next
  case (JArr xs)
  moreover assume "(k, w) \<in> set (own_props v)"
  ultimately have "w \<in> set xs" by (auto dest: set_zip_rightD)
  then have "size w \<le> size_list size xs" by (rule size_list_estimation') simp
  then show ?thesis using JArr by simp
qed auto

text \<open>The call \<open>b.hasOwnProperty(k)\<close> finds the method on the prototype; an object without a
  prototype, or with an own property of that name that is no function, throws a TypeError.\<close>

fun has_own :: "jsv \<Rightarrow> string \<Rightarrow> js_error + bool" where
  "has_own (JObj p ps) k =
    (case map_of ps ''hasOwnProperty'' of
       Some v \<Rightarrow> (if v = JFun ''hasOwnProperty'' then Inr (k \<in> set (map fst ps))
                  else Inl (TypeError ''hasOwnProperty is not a function''))
     | None \<Rightarrow> (if p = NullProto then Inl (TypeError ''hasOwnProperty is not a function'')
               else Inr (k \<in> set (map fst ps))))"
| "has_own (JArr xs) k =
    Inr (k = ''length'' \<or> (case arr_index k of Some i \<Rightarrow> i < length xs | None \<Rightarrow> False))"
| "has_own (JRegExp r) k = Inr (k = ''lastIndex'')"
| "has_own JUndef k = Inl (TypeError ''cannot read property of undefined'')"
| "has_own JNull k = Inl (TypeError ''cannot read property of null'')"
| "has_own _ k = Inr False"

fun is_plain_object :: "jsv \<Rightarrow> bool" where
  "is_plain_object (JObj ObjectProto _) = True"
| "is_plain_object (JObj NullProto _) = True"
| "is_plain_object _ = False"

lemma is_plain_object_iff:
  "is_plain_object v = (\<exists>p ps. v = JObj p ps \<and> (p = ObjectProto \<or> p = NullProto))"
  by (cases v rule: is_plain_object.cases) auto

text \<open>Assignment and \<open>delete\<close> of an own property.\<close>

fun set_prop :: "string \<Rightarrow> jsv \<Rightarrow> jsv \<Rightarrow> jsv" where
  "set_prop k v (JObj p ps) = JObj p (jset k v ps)"
| "set_prop k v w = w"

fun del_prop :: "string \<Rightarrow> jsv \<Rightarrow> jsv" where
  "del_prop k (JObj p ps) = JObj p (jdel k ps)"
| "del_prop k w = w"

lemma get_prop_set_same [simp]: "get_prop (set_prop k v (JObj p ps)) k = v"
  by simp

lemma get_prop_set_other [simp]: "k' \<noteq> k \<Longrightarrow> get_prop (set_prop k v o1) k' = get_prop o1 k'"
  by (cases o1) auto

lemma get_prop_del_other [simp]: "k' \<noteq> k \<Longrightarrow> get_prop (del_prop k o1) k' = get_prop o1 k'"
  by (cases o1) auto

section \<open>Well-formed and safe values\<close>

text \<open>\<open>wf_jsv\<close>: keys of an object are distinct at every level. \<open>safe_jsv\<close>: moreover every object
  inherits \<open>hasOwnProperty\<close> and does not shadow it, as for parsed JSON without a member of that
  name. \<open>no_nan\<close>: no number in it is NaN (JSON has none).\<close>

fun wf_jsv :: "jsv \<Rightarrow> bool" where
  "wf_jsv (JArr xs) = (\<forall>x \<in> set xs. wf_jsv x)"
| "wf_jsv (JObj p ps) = (distinct (map fst ps) \<and> (\<forall>e \<in> set ps. wf_jsv (snd e)))"
| "wf_jsv _ = True"

fun safe_jsv :: "jsv \<Rightarrow> bool" where
  "safe_jsv (JArr xs) = (\<forall>x \<in> set xs. safe_jsv x)"
| "safe_jsv (JObj p ps) =
    (distinct (map fst ps) \<and> p \<noteq> NullProto \<and> ''hasOwnProperty'' \<notin> set (map fst ps) \<and>
     (\<forall>e \<in> set ps. safe_jsv (snd e)))"
| "safe_jsv _ = True"

fun no_nan :: "jsv \<Rightarrow> bool" where
  "no_nan (JArr xs) = (\<forall>x \<in> set xs. no_nan x)"
| "no_nan (JObj p ps) = (\<forall>e \<in> set ps. no_nan (snd e))"
| "no_nan (JNum n) = (n \<noteq> NaN)"
| "no_nan (JDate n) = (n \<noteq> NaN)"
| "no_nan _ = True"

lemma safe_imp_wf: "safe_jsv v \<Longrightarrow> wf_jsv v"
  by (induction v rule: wf_jsv.induct) auto

lemma has_own_safe [simp]:
  "safe_jsv (JObj p ps) \<Longrightarrow> has_own (JObj p ps) k = Inr (k \<in> fst ` set ps)"
  by (auto split: option.splits simp: map_of_eq_None_iff dest!: map_of_SomeD)
     (force simp: image_iff)+

end
