(* ===== verification/Dates.thy ===== *)
theory Dates
  imports JsValue
begin

text \<open>
  Dates and time intervals, \<open>src/src/util/date.ts\<close>, with the calendar arithmetic behind the
  getters of \<open>Date\<close>. A \<open>Date\<close> is its time value, the milliseconds since the epoch. An invalid date is
  \<open>None\<close>. The time zone of the host is the parameter \<open>tz\<close>: \<open>tz t\<close> is what \<open>getTimezoneOffset\<close> returns for the time
  value \<open>t\<close>, in minutes. \<open>num_str\<close> is the conversion of a number to a string; what the code relies
  on is that it renders a natural number in decimal (\<open>decimal_nats\<close>).
\<close>

section \<open>Calendar arithmetic\<close>

definition ms_per_day :: int where
  "ms_per_day = 86400000"

text \<open>Year, month and day of a day number (days since 1970-01-01) in the Gregorian calendar.\<close>

definition civil_from_days :: "int \<Rightarrow> int \<times> int \<times> int" where
  "civil_from_days d =
    (let z = d + 719468; era = z div 146097; doe = z mod 146097;
         yoe = (doe - doe div 1460 + doe div 36524 - doe div 146096) div 365;
         doy = doe - (365 * yoe + yoe div 4 - yoe div 100);
         mp = (5 * doy + 2) div 153;
         m = (if mp < 10 then mp + 3 else mp - 9)
     in (yoe + era * 400 + (if m \<le> 2 then 1 else 0), m, doy - (153 * mp + 2) div 5 + 1))"

record date_fields =
  dyear :: int
  dmonth :: int
  dday :: int
  dhours :: int
  dminutes :: int
  dseconds :: int
  dmillis :: int

definition fields_of :: "int \<Rightarrow> date_fields" where
  "fields_of t =
    (let (y, m, d) = civil_from_days (t div ms_per_day); r = t mod ms_per_day
     in \<lparr>dyear = y, dmonth = m, dday = d, dhours = r div 3600000,
         dminutes = r div 60000 mod 60, dseconds = r div 1000 mod 60, dmillis = r mod 1000\<rparr>)"

lemma fields_of_ranges:
  "0 \<le> dhours (fields_of t) \<and> dhours (fields_of t) < 24"
  "0 \<le> dminutes (fields_of t) \<and> dminutes (fields_of t) < 60"
  "0 \<le> dseconds (fields_of t) \<and> dseconds (fields_of t) < 60"
  "0 \<le> dmillis (fields_of t) \<and> dmillis (fields_of t) < 1000"
proof -
  have "0 \<le> t mod ms_per_day" "t mod ms_per_day < 86400000" by (simp_all add: ms_per_day_def)
  then have "0 \<le> t mod ms_per_day div 3600000 \<and> t mod ms_per_day div 3600000 < 24" by linarith
  then show "0 \<le> dhours (fields_of t) \<and> dhours (fields_of t) < 24"
    by (simp add: fields_of_def Let_def split: prod.splits)
qed (simp_all add: fields_of_def Let_def split: prod.splits)

definition show_int :: "int \<Rightarrow> string" where
  "show_int i = (if i < 0 then CHR ''-'' # show_nat (nat (- i)) else show_nat (nat i))"

section \<open>pad\<close>

text \<open>The loop of \<open>pad\<close>: prepend the pad character while the string is too short.\<close>

function pad_loop :: "nat \<Rightarrow> char \<Rightarrow> string \<Rightarrow> string" where
  "pad_loop len c s = (if length s < len then pad_loop len c (c # s) else s)"
  by pat_completeness auto
termination
  by (relation "measure (\<lambda>(len, c, s). len - length s)") auto

declare pad_loop.simps [simp del]

lemma pad_loop_eq: "pad_loop len c s = replicate (len - length s) c @ s"
proof (induction len c s rule: pad_loop.induct)
  case (1 len c s)
  show ?case
  proof (cases "length s < len")
    case True
    then have "len - length s = Suc (len - Suc (length s))" by simp
    then have "replicate (len - length s) c = replicate (len - Suc (length s)) c @ [c]"
      by (metis replicate_Suc replicate_append_same)
    with True 1 show ?thesis by (simp add: pad_loop.simps [of len c s])
  next
    case False
    then show ?thesis by (simp add: pad_loop.simps [of len c s])
  qed
qed

lemma length_pad_loop: "length (pad_loop len c s) = max len (length s)"
  by (simp add: pad_loop_eq)

definition pad :: "nat \<Rightarrow> nat \<Rightarrow> string" where
  "pad len n = pad_loop len (CHR ''0'') (show_nat n)"

lemma length_pad2: "n < 100 \<Longrightarrow> length (pad 2 n) = 2"
proof -
  assume "n < 100"
  then have "length (show_nat n) \<le> 2"
    by (auto simp: show_nat.simps [of n] show_nat.simps [of "n div 10"])
  then show ?thesis by (simp add: pad_def length_pad_loop)
qed

section \<open>toLocalIsoString\<close>

definition decimal_nats :: "(jsnum \<Rightarrow> string) \<Rightarrow> bool" where
  "decimal_nats num_str = (\<forall>n. num_str (Fin (of_nat n)) = show_nat n)"

text \<open>The offset part: \<open>pad(Math.abs(offset / 60), 2)\<close> divides without truncating.\<close>

definition offset_suffix :: "(jsnum \<Rightarrow> string) \<Rightarrow> int \<Rightarrow> string" where
  "offset_suffix num_str offset =
    (if offset = 0 then ''Z''
     else (if offset < 0 then ''+'' else ''-'')
       @ pad_loop 2 (CHR ''0'') (num_str (Fin \<bar>of_int offset / 60\<bar>)) @ '':''
       @ pad_loop 2 (CHR ''0'') (show_nat (nat \<bar>offset\<bar> mod 60)))"

definition to_local_iso_string ::
  "(int \<Rightarrow> int) \<Rightarrow> (jsnum \<Rightarrow> string) \<Rightarrow> int option \<Rightarrow> bool \<Rightarrow> string" where
  "to_local_iso_string tz num_str date include_millis =
    (case date of
       None \<Rightarrow> ''NaN-NaN-NaNTNaN:NaN:NaN'' @ (if include_millis then ''.NaN'' else []) @ ''-NaN:NaN''
     | Some t \<Rightarrow>
    (let f = fields_of (t - tz t * 60000) in
     show_int (dyear f) @ ''-''
     @ pad 2 (nat (dmonth f)) @ ''-''
     @ pad 2 (nat (dday f)) @ ''T''
     @ pad 2 (nat (dhours f)) @ '':''
     @ pad 2 (nat (dminutes f)) @ '':''
     @ pad 2 (nat (dseconds f))
     @ (if include_millis then ''.'' @ pad 3 (nat (dmillis f)) else [])
     @ offset_suffix num_str (tz t)))"

text \<open>\<open>Date.prototype.toISOString\<close>, which \<open>toJSON\<close> calls on a valid date: UTC, with
  milliseconds; years outside 0 to 9999 have a sign and six digits.\<close>

definition iso_year :: "int \<Rightarrow> string" where
  "iso_year y =
    (if 0 \<le> y \<and> y \<le> 9999 then pad 4 (nat y)
     else (if y < 0 then ''-'' else ''+'') @ pad 6 (nat \<bar>y\<bar>))"

definition to_iso_string :: "int \<Rightarrow> string" where
  "to_iso_string t =
    (let f = fields_of t in
     iso_year (dyear f) @ ''-'' @ pad 2 (nat (dmonth f)) @ ''-'' @ pad 2 (nat (dday f)) @ ''T''
     @ pad 2 (nat (dhours f)) @ '':'' @ pad 2 (nat (dminutes f)) @ '':''
     @ pad 2 (nat (dseconds f)) @ ''.'' @ pad 3 (nat (dmillis f)) @ ''Z'')"

lemma offset_suffix_whole_hours:
  assumes "decimal_nats num_str" "h \<noteq> 0"
  shows "offset_suffix num_str (60 * h) =
    (if h < 0 then ''+'' else ''-'') @ pad 2 (nat \<bar>h\<bar>) @ '':00''"
proof -
  have "\<bar>of_int (60 * h) / 60 :: rat\<bar> = of_nat (nat \<bar>h\<bar>)" by simp
  moreover have "nat \<bar>60 * h\<bar> mod 60 = 0" by (simp add: abs_mult nat_mult_distrib)
  moreover have "pad_loop 2 (CHR ''0'') (show_nat 0) = ''00''" by code_simp
  ultimately show ?thesis
    using assms by (simp add: offset_suffix_def decimal_nats_def pad_def del: of_nat_nat)
qed

section \<open>Durations and intervals\<close>

fun num_scale :: "rat \<Rightarrow> jsnum \<Rightarrow> jsnum" where
  "num_scale k (Fin r) = Fin (k * r)"
| "num_scale k n = n"

definition to_duration_iso_string :: "(jsnum \<Rightarrow> string) \<Rightarrow> jsnum \<Rightarrow> js_error + string" where
  "to_duration_iso_string num_str duration =
    (if num_less duration (Fin 0) then Inl (Error ''Duration cannot be negative.'')
     else Inr (''PT'' @ num_str (num_scale (1 / 1000) duration) @ ''S''))"

definition is_valid_number :: "jsv \<Rightarrow> bool" where
  "is_valid_number v = (case v of JNum n \<Rightarrow> num_le (Fin 0) n | _ \<Rightarrow> False)"

definition is_valid_time_interval :: "jsv \<Rightarrow> bool" where
  "is_valid_time_interval interval =
    (let duration = get_prop interval ''duration'';
         start = get_prop interval ''start'';
         fin = get_prop interval ''end''
     in if \<not> truthy interval then False
        else if duration \<noteq> JUndef then
          (if \<not> is_valid_number duration then False
           else if start = JUndef then fin = JUndef \<or> is_valid_number fin
           else fin = JUndef \<and> is_valid_number start)
        else start \<noteq> JUndef \<and> is_valid_number start \<and> fin \<noteq> JUndef \<and> is_valid_number fin)"

definition is_time_interval :: "jsv \<Rightarrow> bool" where
  "is_time_interval v =
    (if v = JUndef \<or> typeof v \<noteq> TObject then False else is_valid_time_interval v)"

text \<open>The four formats of the interface \<open>TimeInterval\<close>.\<close>

datatype time_interval =
    StartEnd jsnum jsnum
  | StartDuration jsnum jsnum
  | DurationEnd jsnum jsnum
  | DurationOnly jsnum

fun interval_props :: "time_interval \<Rightarrow> (string \<rightharpoonup> jsnum)" where
  "interval_props (StartEnd s e) = [''start'' \<mapsto> s, ''end'' \<mapsto> e]"
| "interval_props (StartDuration s d) = [''start'' \<mapsto> s, ''duration'' \<mapsto> d]"
| "interval_props (DurationEnd d e) = [''duration'' \<mapsto> d, ''end'' \<mapsto> e]"
| "interval_props (DurationOnly d) = [''duration'' \<mapsto> d]"

definition reads_as :: "jsv \<Rightarrow> time_interval \<Rightarrow> bool" where
  "reads_as v i =
    (\<forall>k \<in> {''start'', ''end'', ''duration''}.
       case interval_props i k of
         Some n \<Rightarrow> get_prop v k = JNum n \<and> num_le (Fin 0) n
       | None \<Rightarrow> get_prop v k = JUndef)"

lemma is_valid_number_iff: "is_valid_number v = (\<exists>n. v = JNum n \<and> num_le (Fin 0) n)"
  by (cases v) (auto simp: is_valid_number_def)

lemma is_valid_time_interval_iff:
  "truthy v \<Longrightarrow> is_valid_time_interval v = (\<exists>i. reads_as v i)"
proof -
  assume t: "truthy v"
  have ex: "(\<exists>i. reads_as v i) =
      ((\<exists>s e. reads_as v (StartEnd s e)) \<or> (\<exists>s d. reads_as v (StartDuration s d)) \<or>
       (\<exists>d e. reads_as v (DurationEnd d e)) \<or> (\<exists>d. reads_as v (DurationOnly d)))"
    by (metis time_interval.exhaust)
  show ?thesis
    using t by (subst ex) (auto simp: is_valid_time_interval_def Let_def reads_as_def is_valid_number_iff)
qed

text \<open>\<open>new Date(n)\<close> of a number truncates it to an integer time value; a number that is not
  finite or lies outside the range of dates gives an invalid date, \<open>None\<close>.\<close>

definition date_of_num :: "jsnum \<Rightarrow> int option" where
  "date_of_num n =
    (case n of
       Fin r \<Rightarrow> (if \<bar>r\<bar> > 8640000000000000 then None
                else Some (if r < 0 then - \<lfloor>- r\<rfloor> else \<lfloor>r\<rfloor>))
     | _ \<Rightarrow> None)"

definition num_of :: "jsv \<Rightarrow> jsnum" where
  "num_of v = (case v of JNum n \<Rightarrow> n | _ \<Rightarrow> NaN)"

definition to_local_interval_iso_string ::
  "(int \<Rightarrow> int) \<Rightarrow> (jsnum \<Rightarrow> string) \<Rightarrow> jsv \<Rightarrow> bool \<Rightarrow> js_error + string" where
  "to_local_interval_iso_string tz num_str interval include_millis =
    (let duration = get_prop interval ''duration'';
         start = get_prop interval ''start'';
         fin = get_prop interval ''end'';
         iso = (\<lambda>v. to_local_iso_string tz num_str (date_of_num (num_of v)) include_millis)
     in if \<not> is_valid_time_interval interval then Inl (Error ''Time interval is not valid'')
        else if duration \<noteq> JUndef then
          rbind (to_duration_iso_string num_str (num_of duration)) (\<lambda>d.
            if start \<noteq> JUndef then Inr (iso start @ ''/'' @ d)
            else Inr (d @ ''/'' @ iso fin))
        else Inr (iso start @ ''/'' @ iso fin))"

end
