(* ===== verification/Deep.thy ===== *)
theory Deep
  imports Dates
begin

text \<open>
  Structural comparison of values, \<open>src/src/util/deep.ts\<close>: \<open>js_equals\<close> is \<open>equals\<close>,
  \<open>contains_internal\<close> and \<open>js_contains\<close> are \<open>contains\<close>, \<open>js_includes\<close> is \<open>includes\<close> and
  \<open>js_clone\<close> is \<open>clone\<close> on a value without shared references. The first three can throw: the code
  calls \<open>hasOwnProperty\<close> on the compared object and \<open>Object.keys\<close> on a value that may be
  \<open>null\<close>.
\<close>

lemma size_mem_lt: "x \<in> set xs \<Longrightarrow> size x < Suc (size_list size xs)"
  by (induction xs) auto

section \<open>equals\<close>

function js_equals :: "jsv \<Rightarrow> jsv \<Rightarrow> js_error + bool" where
  "js_equals a b =
    (if strict_eq a b then Inr True
     else if is_array a \<and> is_array b then
       (if length (own_props a) \<noteq> length (own_props b) then Inr False
        else every_r (\<lambda>(x, y). js_equals (snd x) (snd y)) (zip (own_props a) (own_props b)))
     else if is_array a \<noteq> is_array b then Inr False
     else if truthy a \<and> truthy b \<and> typeof a = TObject \<and> typeof b = TObject then
       (if length (own_keys a) \<noteq> length (own_keys b) then Inr False
        else case (a, b) of
          (JDate s, JDate t) \<Rightarrow> Inr (num_eq s t)
        | (JDate s, _) \<Rightarrow> Inr False
        | (_, JDate t) \<Rightarrow> Inr False
        | (JRegExp s, JRegExp t) \<Rightarrow> Inr (s = t)
        | (JRegExp s, _) \<Rightarrow> Inr False
        | (_, JRegExp t) \<Rightarrow> Inr False
        | _ \<Rightarrow>
            rbind (every_r (\<lambda>k. has_own b k) (own_keys a)) (\<lambda>ok.
              if ok then every_r (\<lambda>(k, v). js_equals v (get_prop b k)) (own_props a)
              else Inr False))
     else Inr False)"
  by pat_completeness auto
termination
proof (relation "measure (\<lambda>(a, b). size a)", goal_cases)
  case (2 a b z x y)
  then have "(fst x, snd x) \<in> set (own_props a)"
    by (auto dest: set_zip_leftD)
  moreover from 2 have "typeof a = TObject" by (cases a) auto
  ultimately show ?case using size_own_props by fastforce
qed (auto intro: size_own_props)

declare js_equals.simps [simp del]

lemma js_equals_prim_left:
  "is_prim a \<Longrightarrow> js_equals a b = Inr (strict_eq a b)"
  by (subst js_equals.simps) (cases a; cases b; auto)

lemma js_equals_prim_right:
  "is_prim b \<Longrightarrow> js_equals a b = Inr (strict_eq a b)"
  by (subst js_equals.simps) (cases a; cases b; auto)

lemma every_r_zip_snd:
  "every_r (\<lambda>(x, y). f (snd x) (snd y)) (zip us vs)
     = every_r (\<lambda>(x, y). f x y) (zip (map snd us) (map snd vs))"
proof (induction us arbitrary: vs)
  case (Cons u us)
  then show ?case by (cases vs) (auto cong: if_cong)
qed simp

lemma js_equals_arr:
  "js_equals (JArr xs) (JArr ys) =
     (if length xs \<noteq> length ys then Inr False
      else every_r (\<lambda>(x, y). js_equals x y) (zip xs ys))"
  by (subst js_equals.simps) (auto simp: every_r_zip_snd)

lemma js_equals_arr_no [simp]:
  "\<not> is_array b \<Longrightarrow> js_equals (JArr xs) b = Inr False"
  "\<not> is_array a \<Longrightarrow> js_equals a (JArr xs) = Inr False"
  by (subst js_equals.simps, cases a; cases b; simp)+

lemma js_equals_obj:
  "js_equals (JObj p ps) (JObj q qs) =
     (if length ps \<noteq> length qs then Inr False
      else rbind (every_r (\<lambda>k. has_own (JObj q qs) k) (map fst ps)) (\<lambda>ok.
        if ok then every_r (\<lambda>(k, v). js_equals v (get_prop (JObj q qs) k)) ps else Inr False))"
  by (subst js_equals.simps) (simp del: has_own.simps get_prop.simps cong: if_cong)

lemma js_equals_date [simp]:
  "js_equals (JDate s) (JDate t) = Inr (num_eq s t)"
  "js_equals (JDate s) (JRegExp u) = Inr False"
  "js_equals (JRegExp u) (JDate s) = Inr False"
  "js_equals (JRegExp u) (JRegExp v) = Inr (u = v)"
  "js_equals (JDate s) (JObj p ps) = Inr False"
  "js_equals (JObj p ps) (JDate s) = Inr False"
  "js_equals (JRegExp u) (JObj p ps) = Inr False"
  "js_equals (JObj p ps) (JRegExp u) = Inr False"
  by (subst js_equals.simps, simp add: own_keys_def)+

subsection \<open>The relation it decides\<close>

text \<open>Deep equality as a relation: equal primitives, arrays equal element by element, objects with
  the same keys whose values are related key by key, equal instants and equal patterns.\<close>

inductive deep_eq :: "jsv \<Rightarrow> jsv \<Rightarrow> bool" where
  prim: "strict_eq a b \<Longrightarrow> deep_eq a b"
| arr: "list_all2 deep_eq xs ys \<Longrightarrow> deep_eq (JArr xs) (JArr ys)"
| obj: "dom (map_of ps) = dom (map_of qs) \<Longrightarrow>
    (\<And>k v w. map_of ps k = Some v \<Longrightarrow> map_of qs k = Some w \<Longrightarrow> deep_eq v w) \<Longrightarrow>
    deep_eq (JObj p ps) (JObj q qs)"
| date: "num_eq s t \<Longrightarrow> deep_eq (JDate s) (JDate t)"
| regexp: "deep_eq (JRegExp r) (JRegExp r)"
monos list_all2_mono

inductive_simps deep_eq_arr [simp]: "deep_eq (JArr xs) (JArr ys)"
inductive_simps deep_eq_obj: "deep_eq (JObj p ps) (JObj q qs)"
inductive_simps deep_eq_date [simp]: "deep_eq (JDate s) (JDate t)"

lemma deep_eq_regexp [simp]: "deep_eq (JRegExp s) (JRegExp t) = (s = t)"
  by (auto elim: deep_eq.cases intro: deep_eq.regexp)

inductive_cases deep_eq_arrE: "deep_eq (JArr xs) b"
inductive_cases deep_eq_objE: "deep_eq (JObj p ps) b"
inductive_cases deep_eq_elim: "deep_eq a b"

lemma deep_eq_prim: "is_prim a \<Longrightarrow> deep_eq a b = strict_eq a b"
  by (cases a) (auto elim: deep_eq_elim intro: deep_eq.prim)

lemma deep_eq_prim2: "is_prim b \<Longrightarrow> deep_eq a b = strict_eq a b"
  by (cases b) (auto elim: deep_eq_elim intro: deep_eq.prim)

lemma deep_eq_mixed [simp]:
  "\<not> deep_eq (JArr xs) (JObj q qs)" "\<not> deep_eq (JObj q qs) (JArr xs)"
  "\<not> deep_eq (JArr xs) (JDate t)" "\<not> deep_eq (JDate t) (JArr xs)"
  "\<not> deep_eq (JArr xs) (JRegExp r)" "\<not> deep_eq (JRegExp r) (JArr xs)"
  "\<not> deep_eq (JObj q qs) (JDate t)" "\<not> deep_eq (JDate t) (JObj q qs)"
  "\<not> deep_eq (JObj q qs) (JRegExp r)" "\<not> deep_eq (JRegExp r) (JObj q qs)"
  "\<not> deep_eq (JDate t) (JRegExp r)" "\<not> deep_eq (JRegExp r) (JDate t)"
  by (auto elim: deep_eq_elim)

lemma jwf_same_keys:
  assumes "jwf ps" "jwf qs" "length ps = length qs"
  shows "(\<forall>k \<in> fst ` set ps. k \<in> fst ` set qs) \<longleftrightarrow> dom (map_of ps) = dom (map_of qs)"
proof -
  have "card (fst ` set ps) = length ps" "card (fst ` set qs) = length qs"
    using assms(1,2) by (metis distinct_card length_map list.set_map)+
  then have "fst ` set ps \<subseteq> fst ` set qs \<longleftrightarrow> fst ` set ps = fst ` set qs"
    using assms(3) by (metis List.finite_set card_subset_eq finite_imageI subset_refl)
  then show ?thesis by (auto simp: dom_map_of_conv_image_fst)
qed

lemma dom_eq_length:
  assumes "jwf ps" "jwf qs" "dom (map_of ps) = dom (map_of qs)"
  shows "length ps = length qs"
  using assms by (metis distinct_card dom_map_of_conv_image_fst length_map list.set_map)

lemma get_prop_own: "map_of qs k = Some w \<Longrightarrow> get_prop (JObj q qs) k = w"
  by simp

lemma js_equals_deep_eq:
  "safe_jsv a \<Longrightarrow> safe_jsv b \<Longrightarrow> js_equals a b = Inr (deep_eq a b)"
proof (induction a arbitrary: b)
  case (JArr xs)
  show ?case
  proof (cases b)
    case (JArr ys)
    have "js_equals x y = Inr (deep_eq x y)" if "(x, y) \<in> set (zip xs ys)" for x y
      using set_zip_leftD [OF that] set_zip_rightD [OF that] JArr.IH JArr.prems \<open>b = JArr ys\<close>
      by simp
    then have "every_r (\<lambda>(x, y). js_equals x y) (zip xs ys)
        = Inr (\<forall>z \<in> set (zip xs ys). deep_eq (fst z) (snd z))"
      by (intro every_r_ok) auto
    then show ?thesis
      using JArr by (auto simp: js_equals_arr list_all2_iff)
  qed (simp_all add: deep_eq_prim2 js_equals_prim_right)
next
  case (JObj p ps)
  show ?case
  proof (cases b)
    case (JObj q qs)
    have wf: "jwf ps" "jwf qs" using JObj.prems \<open>b = JObj q qs\<close> by simp_all
    have keys: "every_r (\<lambda>k. has_own (JObj q qs) k) (map fst ps)
        = Inr (\<forall>k \<in> fst ` set ps. k \<in> fst ` set qs)"
      using has_own_safe JObj.prems \<open>b = JObj q qs\<close>
      by (subst every_r_ok [where q = "\<lambda>k. k \<in> fst ` set qs"]) (auto simp del: has_own.simps)
    have vals: "every_r (\<lambda>(k, v). js_equals v (get_prop (JObj q qs) k)) ps
        = Inr (\<forall>z \<in> set ps. deep_eq (snd z) (get_prop (JObj q qs) (fst z)))"
      if "\<forall>k \<in> fst ` set ps. k \<in> fst ` set qs"
    proof (rule every_r_ok)
      fix z assume z: "z \<in> set ps"
      then have "fst z \<in> fst ` set qs" using that by simp
      then have "map_of qs (fst z) \<noteq> None" by (simp add: map_of_eq_None_iff)
      then obtain w where w: "map_of qs (fst z) = Some w" by blast
      then have "(fst z, w) \<in> set qs" by (rule map_of_SomeD)
      then have "safe_jsv w" using JObj.prems(2) \<open>b = JObj q qs\<close> by auto
      moreover have "safe_jsv (snd z)" using JObj.prems(1) z by simp
      moreover have "snd z \<in> Basic_BNFs.snds z" by (cases z) (simp add: snds.simps)
      ultimately have "js_equals (snd z) w = Inr (deep_eq (snd z) w)"
        by (intro JObj.IH [OF z]) auto
      then show "(case z of (k, v) \<Rightarrow> js_equals v (get_prop (JObj q qs) k))
          = Inr (deep_eq (snd z) (get_prop (JObj q qs) (fst z)))"
        by (simp only: get_prop_own [OF w] case_prod_beta)
    qed
    have all: "(\<forall>z \<in> set ps. deep_eq (snd z) (get_prop (JObj q qs) (fst z)))
        \<longleftrightarrow> (\<forall>k v w. map_of ps k = Some v \<longrightarrow> map_of qs k = Some w \<longrightarrow> deep_eq v w)"
      if "dom (map_of ps) = dom (map_of qs)"
    proof -
      have w: "\<exists>w. map_of qs k = Some w" if "map_of ps k = Some v" for k v
        using that \<open>dom (map_of ps) = dom (map_of qs)\<close> by blast
      have "(\<forall>z \<in> set ps. deep_eq (snd z) (get_prop (JObj q qs) (fst z)))
          \<longleftrightarrow> (\<forall>k v. map_of ps k = Some v \<longrightarrow> deep_eq v (get_prop (JObj q qs) k))"
        by (simp only: jwf_in_set_iff [OF wf(1), symmetric]) (auto simp del: get_prop.simps)
      also have "\<dots> \<longleftrightarrow>
          (\<forall>k v w. map_of ps k = Some v \<longrightarrow> map_of qs k = Some w \<longrightarrow> deep_eq v w)"
        using w get_prop_own by metis
      finally show ?thesis .
    qed
    show ?thesis
      using keys vals all jwf_same_keys [OF wf] dom_eq_length [OF wf] \<open>b = JObj q qs\<close>
      by (auto simp: js_equals_obj deep_eq_obj simp del: has_own.simps get_prop.simps)
  qed (simp_all add: deep_eq_prim2 js_equals_prim_right)
next
  case (JDate t)
  then show ?case by (cases b) (simp_all add: deep_eq_prim2 js_equals_prim_right)
next
  case (JRegExp r)
  then show ?case by (cases b) (simp_all add: deep_eq_prim2 js_equals_prim_right)
qed (simp_all add: js_equals_prim_left deep_eq_prim)


subsection \<open>Deep equality is an equivalence relation\<close>

lemma deep_eq_refl: "wf_jsv a \<Longrightarrow> no_nan a \<Longrightarrow> deep_eq a a"
proof (induction a)
  case (JArr xs)
  then show ?case by (auto simp: list_all2_same)
next
  case (JObj p ps)
  have "deep_eq v w" if "map_of ps k = Some v" "map_of ps k = Some w" for k v w
  proof -
    from that have "v = w" by simp
    moreover from that have e: "(k, v) \<in> set ps" by (auto dest: map_of_SomeD)
    moreover have "v \<in> Basic_BNFs.snds (k, v)" by (simp add: snds.simps)
    ultimately show ?thesis using JObj.IH [OF e] JObj.prems by force
  qed
  then show ?case by (auto simp: deep_eq_obj)
qed (auto simp: deep_eq_prim num_eq_iff intro: deep_eq.intros)

lemma strict_eq_sym: "strict_eq a b \<Longrightarrow> strict_eq b a"
  by (cases a; cases b) (auto simp: num_eq_iff)

lemma deep_eq_sym: "deep_eq a b \<Longrightarrow> deep_eq b a"
proof (induction rule: deep_eq.induct)
  case (prim a b)
  then show ?case by (rule deep_eq.prim [OF strict_eq_sym])
next
  case (arr xs ys)
  then show ?case by (auto simp: list_all2_conv_all_nth)
next
  case (obj ps qs p q)
  then show ?case by (auto simp: deep_eq_obj)
qed (auto simp: num_eq_iff intro: deep_eq.intros)

lemma deep_eq_trans: "deep_eq a b \<Longrightarrow> deep_eq b c \<Longrightarrow> deep_eq a c"
proof (induction arbitrary: c rule: deep_eq.induct)
  case (prim a b)
  then have "a = b" by (auto dest: strict_eq_imp)
  with prim show ?case by simp
next
  case (arr xs ys)
  from arr.prems obtain zs where c: "c = JArr zs" and "list_all2 deep_eq ys zs"
    by (auto elim: deep_eq_arrE)
  with arr.IH show ?case by (auto simp: list_all2_conv_all_nth)
next
  case (obj ps qs p q)
  from obj.prems obtain r rs where c: "c = JObj r rs"
    by (auto elim: deep_eq_objE)
  have qr: "\<And>k v w. map_of qs k = Some v \<Longrightarrow> map_of rs k = Some w \<Longrightarrow> deep_eq v w"
    using obj.prems unfolding c deep_eq_obj by blast
  have "deep_eq v w" if "map_of ps k = Some v" "map_of rs k = Some w" for k v w
  proof -
    from that(1) obj.hyps(1) obtain u where u: "map_of qs k = Some u" by blast
    show ?thesis by (rule obj.IH [OF that(1) u qr [OF u that(2)]])
  qed
  moreover have "dom (map_of ps) = dom (map_of rs)"
    using obj.hyps(1) obj.prems unfolding c deep_eq_obj by simp
  ultimately show ?case unfolding c by (intro deep_eq.obj)
next
  case (date s t)
  then show ?case by (cases c) (auto simp: num_eq_iff deep_eq_prim2)
next
  case (regexp r)
  then show ?case by simp
qed

section \<open>contains\<close>

text \<open>\<open>Object.keys(y)\<close> on \<open>null\<close> throws: \<open>typeof null\<close> is \<open>object\<close>, so the guard lets it through.\<close>

definition own_props_r :: "jsv \<Rightarrow> js_error + (string \<times> jsv) list" where
  "own_props_r y =
    (if y = JUndef \<or> y = JNull then Inl (TypeError ''cannot convert undefined or null to object'')
     else Inr (own_props y))"

function contains_internal :: "jsv \<Rightarrow> jsv \<Rightarrow> bool \<Rightarrow> js_error + bool" where
  "contains_internal x y toplevel =
    (case x of
       JArr xs \<Rightarrow>
         (case y of
            JArr ys \<Rightarrow> every_r (\<lambda>yv. some_r (\<lambda>xv. contains_internal xv yv False) xs) ys
          | _ \<Rightarrow>
            (if toplevel \<and> (y = JNull \<or> typeof y \<noteq> TObject)
             then Inr (list_ex (\<lambda>xv. strict_eq xv y) xs) else Inr False))
     | _ \<Rightarrow>
         if truthy x \<and> typeof x = TObject then
           (if typeof y \<noteq> TObject then Inr False
            else case own_props_r y of
              Inl e \<Rightarrow> Inl e
            | Inr kvs \<Rightarrow>
                every_r (\<lambda>(k, yv).
                  rbind (has_own x k) (\<lambda>h.
                    if h then contains_internal (get_prop x k) yv False else Inr False)) kvs)
         else Inr (strict_eq x y))"
  by pat_completeness auto
termination
  by (relation "measure (\<lambda>(x, y, t). size y)")
     (auto simp: own_props_r_def typeof_object size_mem_lt split: if_splits
       dest!: size_own_props [rotated])

declare contains_internal.simps [simp del]

definition js_contains :: "jsv \<Rightarrow> jsv \<Rightarrow> js_error + bool" where
  "js_contains a b = contains_internal a b True"

section \<open>includes\<close>

definition js_includes :: "jsv \<Rightarrow> jsv \<Rightarrow> js_error + bool" where
  "js_includes a b =
    (case a of
       JArr xs \<Rightarrow> some_r (\<lambda>av. js_equals av b) xs
     | _ \<Rightarrow> Inl (TypeError ''first argument must be an array''))"


section \<open>What contains and includes decide\<close>

text \<open>JSON values: what \<open>JSON.parse\<close> returns, without a member named \<open>hasOwnProperty\<close>.\<close>

fun json :: "jsv \<Rightarrow> bool" where
  "json JNull = True"
| "json (JBool b) = True"
| "json (JNum n) = (\<exists>r. n = Fin r)"
| "json (JStr s) = True"
| "json (JArr xs) = (\<forall>x \<in> set xs. json x)"
| "json (JObj p ps) =
    (p = ObjectProto \<and> distinct (map fst ps) \<and> ''hasOwnProperty'' \<notin> set (map fst ps) \<and>
     (\<forall>e \<in> set ps. json (snd e)))"
| "json _ = False"

fun no_null :: "jsv \<Rightarrow> bool" where
  "no_null JNull = False"
| "no_null (JArr xs) = (\<forall>x \<in> set xs. no_null x)"
| "no_null (JObj p ps) = (\<forall>e \<in> set ps. no_null (snd e))"
| "no_null _ = True"

lemma json_safe: "json v \<Longrightarrow> safe_jsv v \<and> no_nan v"
  by (induction v rule: json.induct) auto

text \<open>Containment below the top level: equal primitives, every element of the contained array
  contained in some element, every property of the contained object (or, by index, of a contained
  array) contained in the property of that name.\<close>

inductive holds_in :: "jsv \<Rightarrow> jsv \<Rightarrow> bool" where
  prim: "strict_eq x y \<Longrightarrow> holds_in x y"
| arr: "(\<And>y. y \<in> set ys \<Longrightarrow> \<exists>x \<in> set xs. holds_in x y) \<Longrightarrow> holds_in (JArr xs) (JArr ys)"
| obj: "\<not> is_prim y \<Longrightarrow>
    (\<And>k w. (k, w) \<in> set (own_props y) \<Longrightarrow> \<exists>v. map_of ps k = Some v \<and> holds_in v w) \<Longrightarrow>
    holds_in (JObj p ps) y"

inductive_cases holds_in_arrE: "holds_in (JArr xs) y"
inductive_cases holds_in_objE: "holds_in (JObj p ps) y"
inductive_cases holds_in_elim: "holds_in x y"

lemma holds_in_arr: "holds_in (JArr xs) (JArr ys) = (\<forall>y \<in> set ys. \<exists>x \<in> set xs. holds_in x y)"
  by (auto elim: holds_in_arrE intro: holds_in.arr)

lemma holds_in_arr_no: "\<not> is_array y \<Longrightarrow> \<not> holds_in (JArr xs) y"
  by (auto elim: holds_in_arrE)

lemma holds_in_obj:
  "holds_in (JObj p ps) y =
    (\<not> is_prim y \<and> (\<forall>(k, w) \<in> set (own_props y). \<exists>v. map_of ps k = Some v \<and> holds_in v w))"
  by (cases y) (auto elim!: holds_in_objE intro!: holds_in.obj)

lemma holds_in_prim: "is_prim x \<Longrightarrow> holds_in x y = strict_eq x y"
  by (cases x) (auto elim: holds_in_elim intro: holds_in.prim)

lemma json_own_props: "json y \<Longrightarrow> \<not> is_prim y \<Longrightarrow> (k, w) \<in> set (own_props y) \<Longrightarrow> json w"
  by (cases y) (auto dest: set_zip_rightD)

lemma no_null_own_props:
  "no_null y \<Longrightarrow> \<not> is_prim y \<Longrightarrow> (k, w) \<in> set (own_props y) \<Longrightarrow> no_null w"
  by (cases y) (auto dest: set_zip_rightD)

lemma contains_internal_prim:
  "is_prim x \<Longrightarrow> contains_internal x y t = Inr (strict_eq x y)"
  by (subst contains_internal.simps) (cases x; auto simp: typeof_object)

lemma contains_internal_obj:
  "contains_internal (JObj p ps) y t =
    (if typeof y \<noteq> TObject then Inr False
     else case own_props_r y of
       Inl e \<Rightarrow> Inl e
     | Inr kvs \<Rightarrow> every_r (\<lambda>(k, yv). rbind (has_own (JObj p ps) k)
         (\<lambda>h. if h then contains_internal (get_prop (JObj p ps) k) yv False else Inr False)) kvs)"
  by (subst contains_internal.simps) (simp del: has_own.simps get_prop.simps cong: if_cong)

lemma contains_internal_arr:
  "contains_internal (JArr xs) (JArr ys) t =
    every_r (\<lambda>yv. some_r (\<lambda>xv. contains_internal xv yv False) xs) ys"
  by (subst contains_internal.simps) simp

lemma contains_internal_arr_no:
  "\<not> is_array y \<Longrightarrow> contains_internal (JArr xs) y False = Inr False"
  by (subst contains_internal.simps) (cases y; simp)

lemma contains_obj_null:
  "contains_internal (JObj p ps) JNull t
    = Inl (TypeError ''cannot convert undefined or null to object'')"
  by (simp add: contains_internal_obj own_props_r_def)

lemma contains_internal_holds_in:
  "json x \<Longrightarrow> json y \<Longrightarrow> no_null y \<Longrightarrow> contains_internal x y False = Inr (holds_in x y)"
proof (induction y arbitrary: x rule: measure_induct_rule [where f = size])
  case (less y)
  show ?case
  proof (cases x)
    case (JArr xs)
    show ?thesis
    proof (cases y)
      case (JArr ys)
      have "some_r (\<lambda>xv. contains_internal xv yv False) xs = Inr (\<exists>xv \<in> set xs. holds_in xv yv)"
        if yv: "yv \<in> set ys" for yv
        using less.prems \<open>x = JArr xs\<close> \<open>y = JArr ys\<close> yv size_mem_lt [OF yv]
        by (intro some_r_ok less.IH) auto
      then have "contains_internal x y False = Inr (\<forall>yv \<in> set ys. \<exists>xv \<in> set xs. holds_in xv yv)"
        unfolding \<open>x = JArr xs\<close> \<open>y = JArr ys\<close> contains_internal_arr by (rule every_r_ok)
      then show ?thesis by (simp add: \<open>x = JArr xs\<close> \<open>y = JArr ys\<close> holds_in_arr)
    qed (simp_all add: \<open>x = JArr xs\<close> contains_internal_arr_no holds_in_arr_no)
  next
    case (JObj p ps)
    show ?thesis
    proof (cases "is_prim y")
      case True
      then have "typeof y \<noteq> TObject" using less.prems by (auto simp: typeof_object)
      with True show ?thesis by (simp add: JObj contains_internal_obj holds_in_obj)
    next
      case False
      then have t: "typeof y = TObject" "own_props_r y = Inr (own_props y)"
        by (auto simp: typeof_object own_props_r_def)
      have "(case z of (k, yv) \<Rightarrow> rbind (has_own (JObj p ps) k)
          (\<lambda>h. if h then contains_internal (get_prop (JObj p ps) k) yv False else Inr False))
          = Inr (\<exists>v. map_of ps (fst z) = Some v \<and> holds_in v (snd z))"
        if z: "z \<in> set (own_props y)" for z
      proof -
        obtain k w where kw: "z = (k, w)" by (cases z)
        have ok: "has_own (JObj p ps) k = Inr (k \<in> fst ` set ps)"
          using less.prems(1) JObj json_safe by (intro has_own_safe) blast
        have sz: "size w < size y" using size_own_props t(1) z kw by simp
        have w: "json w" "no_null w"
          using json_own_props no_null_own_props less.prems False z kw by blast+
        show ?thesis
        proof (cases "map_of ps k")
          case None
          then have "k \<notin> fst ` set ps" by (simp add: map_of_eq_None_iff)
          with None ok show ?thesis by (simp add: kw del: has_own.simps)
        next
          case (Some v)
          then have mem: "(k, v) \<in> set ps" by (rule map_of_SomeD)
          then have "json v" using less.prems(1) JObj by auto
          then have "contains_internal v w False = Inr (holds_in v w)"
            using less.IH sz w by blast
          moreover have "k \<in> fst ` set ps" using mem by force
          moreover have "get_prop (JObj p ps) k = v" using Some by simp
          ultimately show ?thesis using Some ok by (simp add: kw del: has_own.simps get_prop.simps)
        qed
      qed
      then have "contains_internal x y False =
          Inr (\<forall>z \<in> set (own_props y). \<exists>v. map_of ps (fst z) = Some v \<and> holds_in v (snd z))"
        unfolding JObj contains_internal_obj using t
        by (simp del: has_own.simps get_prop.simps) (rule every_r_ok, blast)
      then show ?thesis using False by (auto simp: JObj holds_in_obj)
    qed
  qed (use less.prems in \<open>simp_all add: contains_internal_prim holds_in_prim\<close>)
qed

lemma holds_in_refl: "json v \<Longrightarrow> holds_in v v"
proof (induction v)
  case (JArr xs)
  then show ?case by (auto simp: holds_in_arr)
next
  case (JObj p ps)
  have "\<exists>v. map_of ps k = Some v \<and> holds_in v w" if kw: "(k, w) \<in> set ps" for k w
  proof -
    have "map_of ps k = Some w" using JObj.prems kw by simp
    moreover have "holds_in w w"
      using JObj.IH [OF kw, of w] JObj.prems kw by (force simp: snds.simps)
    ultimately show ?thesis by blast
  qed
  then show ?case by (auto simp: holds_in_obj)
qed (auto simp: holds_in_prim)

lemma contains_internal_top:
  "is_array x \<longrightarrow> is_array y \<Longrightarrow> contains_internal x y True = contains_internal x y False"
  by (subst (1 2) contains_internal.simps) (cases x; cases y; simp)

lemma js_includes_deep_eq:
  "\<forall>x \<in> set xs. safe_jsv x \<Longrightarrow> safe_jsv b \<Longrightarrow>
    js_includes (JArr xs) b = Inr (\<exists>x \<in> set xs. deep_eq x b)"
  by (simp add: js_includes_def some_r_ok js_equals_deep_eq)

section \<open>clone on values without shared references\<close>

fun date_to_json :: "jsnum \<Rightarrow> jsv" where
  "date_to_json (Fin r) = JStr (to_iso_string \<lfloor>r\<rfloor>)"
| "date_to_json _ = JNull"

fun js_clone :: "jsv \<Rightarrow> jsv" where
  "js_clone (JArr xs) =
    JArr (map (\<lambda>o1. let value = js_clone o1 in if value = JUndef then JNull else value) xs)"
| "js_clone (JDate n) = date_to_json n"
| "js_clone (JObj p ps) =
    JObj ObjectProto (filter (\<lambda>kv. snd kv \<noteq> JUndef) (map (\<lambda>(k, v). (k, js_clone v)) ps))"
| "js_clone (JRegExp r) = JObj ObjectProto []"
| "js_clone (JFun f) = JUndef"
| "js_clone v = v"

lemma js_clone_json: "json v \<Longrightarrow> js_clone v = v"
proof (induction v)
  case (JArr xs)
  have "map (\<lambda>o1. let value = js_clone o1 in if value = JUndef then JNull else value) xs = xs"
    using JArr by (intro map_idI) (auto simp: Let_def)
  then show ?case by simp
next
  case (JObj p ps)
  have e: "js_clone (snd e) = snd e" if "e \<in> set ps" for e
    using JObj that by (auto simp: snds.simps)
  then have "map (\<lambda>(k, v). (k, js_clone v)) ps = ps"
    by (intro map_idI) (auto split: prod.splits)
  moreover have "filter (\<lambda>kv. snd kv \<noteq> JUndef) ps = ps"
    using JObj.prems by (auto intro!: filter_True)
  ultimately show ?case using JObj.prems by simp
qed auto

text \<open>The result holds no \<open>undefined\<close> below the top, no date, no class instance.\<close>

fun plain_data :: "jsv \<Rightarrow> bool" where
  "plain_data (JArr xs) = (\<forall>x \<in> set xs. plain_data x \<and> x \<noteq> JUndef)"
| "plain_data (JObj p ps) =
    (p = ObjectProto \<and> (\<forall>e \<in> set ps. plain_data (snd e) \<and> snd e \<noteq> JUndef))"
| "plain_data (JDate n) = False"
| "plain_data (JRegExp r) = False"
| "plain_data (JFun f) = False"
| "plain_data v = True"

lemma plain_data_clone: "plain_data (js_clone v)"
proof (induction v)
  case (JArr xs)
  then show ?case by (auto simp: Let_def)
next
  case (JObj p ps)
  then show ?case by (fastforce simp: snds.simps)
next
  case (JDate n)
  then show ?case by (cases n) auto
qed auto

lemma js_clone_plain_data: "plain_data v \<Longrightarrow> js_clone v = v"
proof (induction v)
  case (JArr xs)
  have "map (\<lambda>o1. let value = js_clone o1 in if value = JUndef then JNull else value) xs = xs"
    using JArr by (intro map_idI) (auto simp: Let_def)
  then show ?case by simp
next
  case (JObj p ps)
  have e: "js_clone (snd e) = snd e" if "e \<in> set ps" for e
    using JObj that by (auto simp: snds.simps)
  then have "map (\<lambda>(k, v). (k, js_clone v)) ps = ps"
    by (intro map_idI) (auto split: prod.splits)
  moreover have "filter (\<lambda>kv. snd kv \<noteq> JUndef) ps = ps"
    using JObj.prems by (auto intro!: filter_True)
  ultimately show ?case using JObj.prems by simp
qed auto

end
