(* ===== verification/BinSearch.thy ===== *)
theory BinSearch
  imports Prelude
begin

text \<open>
  Search and insertion in a sorted array, \<open>src/src/util/binary-search.ts\<close>. Indices are numbers of
  the code, here \<open>int\<close>; \<open>>>> 1\<close> converts its operand to an unsigned 32-bit integer and \<open>~\<close> to a
  signed one, which \<open>shift_right_1\<close> and \<open>bnot32\<close> write out. The compare function returns a
  number; the locale \<open>comparator\<close> states the contract the documentation asks of it.
\<close>

section \<open>The loop\<close>

definition shift_right_1 :: "int \<Rightarrow> int" where
  "shift_right_1 x = (x mod 2 ^ 32) div 2"

definition bnot32 :: "int \<Rightarrow> int" where
  "bnot32 x = - ((x + 2 ^ 31) mod 2 ^ 32 - 2 ^ 31) - 1"

lemma shift_right_1_bounds: "0 \<le> x \<Longrightarrow> 0 \<le> shift_right_1 x \<and> shift_right_1 x \<le> x"
proof -
  assume "0 \<le> x"
  then have "x mod 2 ^ 32 \<le> x" by (intro zmod_le_nonneg_dividend)
  moreover have "0 \<le> x mod 2 ^ 32" by simp
  ultimately show ?thesis by (simp add: shift_right_1_def)
qed

lemma bnot32_small: "0 \<le> x \<Longrightarrow> x < 2 ^ 31 \<Longrightarrow> bnot32 x = - x - 1"
  by (simp add: bnot32_def)

lemma bnot32_neg: "0 \<le> x \<Longrightarrow> x < 2 ^ 31 \<Longrightarrow> bnot32 (bnot32 x) = x"
  by (simp add: bnot32_def)

function bs_loop :: "'a list \<Rightarrow> 'a \<Rightarrow> ('a \<Rightarrow> 'a \<Rightarrow> rat) \<Rightarrow> int \<Rightarrow> int \<Rightarrow> int" where
  "bs_loop source v cmp low high =
    (if low \<le> high then
       (let i = low + shift_right_1 (high - low); cp = cmp (source ! nat i) v in
        if cp = 0 then i
        else if cp < 0 then bs_loop source v cmp (i + 1) high
        else bs_loop source v cmp low (i - 1))
     else bnot32 low)"
  by pat_completeness auto
termination
proof (relation "measure (\<lambda>(source, v, cmp, low, high). nat (high - low + 1))", goal_cases)
  case (2 source v cmp low high i cp)
  then show ?case using shift_right_1_bounds [of "high - low"] by simp
next
  case (3 source v cmp low high i cp)
  then show ?case using shift_right_1_bounds [of "high - low"] by simp
qed simp

declare bs_loop.simps [simp del]

definition binary_search ::
  "'a list \<Rightarrow> 'a \<Rightarrow> ('a \<Rightarrow> 'a \<Rightarrow> rat) \<Rightarrow> int \<Rightarrow> int \<Rightarrow> js_error + int" where
  "binary_search source v cmp startIndex endIndex =
    (if startIndex < 0 then Inl (TypeError ''startIndex is out of range'')
     else if endIndex \<ge> int (length source) then Inl (TypeError ''endIndex is out of range'')
     else
       (let len = endIndex + 1 - startIndex; low = startIndex; high = (startIndex + len) - 1
        in Inr (bs_loop source v cmp low high)))"

text \<open>The default arguments: the whole array.\<close>

definition binary_search_all :: "'a list \<Rightarrow> 'a \<Rightarrow> ('a \<Rightarrow> 'a \<Rightarrow> rat) \<Rightarrow> js_error + int" where
  "binary_search_all source v cmp = binary_search source v cmp 0 (int (length source) - 1)"

text \<open>\<open>splice(pos, 0, item)\<close>.\<close>

definition splice_insert :: "int \<Rightarrow> 'a \<Rightarrow> 'a list \<Rightarrow> 'a list" where
  "splice_insert pos x xs = take (nat pos) xs @ x # drop (nat pos) xs"

definition binary_insert :: "'a list \<Rightarrow> 'a \<Rightarrow> ('a \<Rightarrow> 'a \<Rightarrow> rat) \<Rightarrow> js_error + 'a list" where
  "binary_insert source x cmp =
    rbind (binary_search_all source x cmp) (\<lambda>pos.
      if pos \<ge> 0 then Inr (splice_insert pos x source)
      else Inr (splice_insert (bnot32 pos) x source))"

section \<open>What the loop finds\<close>

text \<open>The range is split by the value: what compares less comes first, what compares greater
  last. A sorted array is split by every value.\<close>

definition split_by :: "('a \<Rightarrow> 'a \<Rightarrow> rat) \<Rightarrow> 'a \<Rightarrow> 'a list \<Rightarrow> bool" where
  "split_by cmp v xs =
    (\<forall>j < length xs. \<forall>i < j.
       (cmp (xs ! j) v \<le> 0 \<longrightarrow> cmp (xs ! i) v \<le> 0) \<and> (cmp (xs ! j) v < 0 \<longrightarrow> cmp (xs ! i) v < 0) \<and>
       (0 < cmp (xs ! i) v \<longrightarrow> 0 < cmp (xs ! j) v))"

definition search_result ::
  "('a \<Rightarrow> 'a \<Rightarrow> rat) \<Rightarrow> 'a list \<Rightarrow> 'a \<Rightarrow> int \<Rightarrow> int \<Rightarrow> int \<Rightarrow> bool" where
  "search_result cmp xs v lo hi r =
    (if 0 \<le> r then lo \<le> r \<and> r \<le> hi \<and> cmp (xs ! nat r) v = 0
     else (let p = bnot32 r in lo \<le> p \<and> p \<le> hi + 1 \<and>
       (\<forall>i. lo \<le> i \<and> i < p \<longrightarrow> cmp (xs ! nat i) v < 0) \<and>
       (\<forall>i. p \<le> i \<and> i \<le> hi \<longrightarrow> 0 < cmp (xs ! nat i) v)))"

lemma split_by_less:
  assumes "split_by cmp v xs" "cmp (xs ! nat i) v < 0" "0 \<le> k" "k \<le> i" "i < int (length xs)"
  shows "cmp (xs ! nat k) v < 0"
proof (cases "k = i")
  case False
  then have "nat k < nat i" "nat i < length xs" using assms(3-5) by linarith+
  then show ?thesis using assms(1,2) unfolding split_by_def by blast
qed (use assms in simp)

lemma split_by_greater:
  assumes "split_by cmp v xs" "0 < cmp (xs ! nat i) v" "0 \<le> i" "i \<le> k" "k < int (length xs)"
  shows "0 < cmp (xs ! nat k) v"
proof (cases "k = i")
  case False
  then have "nat i < nat k" "nat k < length xs" using assms(3-5) by linarith+
  then show ?thesis using assms(1,2) unfolding split_by_def by blast
qed (use assms in simp)

lemma bs_loop_correct:
  assumes "split_by cmp v xs" "int (length xs) < 2 ^ 31" "0 \<le> lo" "hi < int (length xs)"
    and "lo \<le> low" "low \<le> hi + 1" "low \<le> high + 1" "high \<le> hi"
    and "\<And>i. lo \<le> i \<Longrightarrow> i < low \<Longrightarrow> cmp (xs ! nat i) v < 0"
    and "\<And>i. high < i \<Longrightarrow> i \<le> hi \<Longrightarrow> 0 < cmp (xs ! nat i) v"
  shows "search_result cmp xs v lo hi (bs_loop xs v cmp low high)"
  using assms
proof (induction xs v cmp low high rule: bs_loop.induct)
  case (1 xs v cmp low high)
  note IH = "1.IH" and prems = "1.prems"
  define i where "i = low + shift_right_1 (high - low)"
  show ?case
  proof (cases "low \<le> high")
    case False
    then have "bs_loop xs v cmp low high = bnot32 low" by (simp add: bs_loop.simps [of xs v cmp low])
    moreover have "low < 2 ^ 31" "0 \<le> low" using prems(2-6) by linarith+
    moreover have "high = low - 1" using False prems(7) by simp
    ultimately show ?thesis
      using prems bnot32_small [of low] bnot32_neg [of low] by (auto simp: search_result_def)
  next
    case True
    have i: "low \<le> i" "i \<le> high"
      using shift_right_1_bounds [of "high - low"] True by (auto simp: i_def)
    have unf: "bs_loop xs v cmp low high =
        (if cmp (xs ! nat i) v = 0 then i
         else if cmp (xs ! nat i) v < 0 then bs_loop xs v cmp (i + 1) high
         else bs_loop xs v cmp low (i - 1))"
      using True by (simp add: bs_loop.simps [of xs v cmp low] i_def Let_def)
    consider "cmp (xs ! nat i) v = 0" | "cmp (xs ! nat i) v < 0" | "0 < cmp (xs ! nat i) v"
      by linarith
    then show ?thesis
    proof cases
      case 1
      then show ?thesis using unf i prems by (auto simp: search_result_def)
    next
      case 2
      have "search_result cmp xs v lo hi (bs_loop xs v cmp (i + 1) high)"
      proof (rule IH(1) [OF True i_def refl])
        fix k assume "lo \<le> k" "k < i + 1"
        then show "cmp (xs ! nat k) v < 0"
          using split_by_less [OF prems(1) 2, of k] prems(3,4,8) i by simp
      qed (use 2 i prems in auto)
      with unf 2 show ?thesis by simp
    next
      case 3
      have "search_result cmp xs v lo hi (bs_loop xs v cmp low (i - 1))"
      proof (rule IH(2) [OF True i_def refl])
        fix k assume "i - 1 < k" "k \<le> hi"
        then show "0 < cmp (xs ! nat k) v"
          using split_by_greater [OF prems(1) 3, of k] prems(3,4,5) i by simp
      qed (use 3 i prems in auto)
      with unf 3 show ?thesis by simp
    qed
  qed
qed

lemma binary_search_all_correct:
  assumes "split_by cmp v xs" "int (length xs) < 2 ^ 31"
  obtains r where "binary_search_all xs v cmp = Inr r"
    and "search_result cmp xs v 0 (int (length xs) - 1) r"
proof
  show "binary_search_all xs v cmp = Inr (bs_loop xs v cmp 0 (int (length xs) - 1))"
    by (simp add: binary_search_all_def binary_search_def)
  show "search_result cmp xs v 0 (int (length xs) - 1) (bs_loop xs v cmp 0 (int (length xs) - 1))"
    by (rule bs_loop_correct [OF assms]) auto
qed

lemma search_result_insert_pos:
  assumes "search_result cmp xs v 0 (int (length xs) - 1) r" "split_by cmp v xs"
  defines "p \<equiv> (if 0 \<le> r then r else bnot32 r)"
  shows "0 \<le> p \<and> p \<le> int (length xs)"
    and "\<And>i. i < nat p \<Longrightarrow> i < length xs \<Longrightarrow> cmp (xs ! i) v \<le> 0"
    and "\<And>i. nat p \<le> i \<Longrightarrow> i < length xs \<Longrightarrow> 0 \<le> cmp (xs ! i) v"
proof -
  show bounds: "0 \<le> p \<and> p \<le> int (length xs)"
    using assms(1) by (auto simp: search_result_def p_def Let_def split: if_splits)
  fix i assume i: "i < length xs"
  show "cmp (xs ! i) v \<le> 0" if "i < nat p"
  proof (cases "0 \<le> r")
    case True
    then have "cmp (xs ! nat r) v = 0" "i < nat r" "nat r < length xs"
      using assms(1) that by (auto simp: search_result_def p_def)
    then show ?thesis using assms(2) by (auto simp: split_by_def)
  next
    case False
    then have "\<forall>k. 0 \<le> k \<and> k < p \<longrightarrow> cmp (xs ! nat k) v < 0"
      using assms(1) by (simp add: search_result_def p_def Let_def)
    moreover have "int i < p" using that bounds by linarith
    ultimately have "cmp (xs ! nat (int i)) v < 0" using of_nat_0_le_iff by blast
    then show ?thesis by simp
  qed
  show "0 \<le> cmp (xs ! i) v" if "nat p \<le> i"
  proof (cases "0 \<le> r")
    case True
    then have r: "cmp (xs ! nat r) v = 0" "nat r \<le> i"
      using assms(1) that by (auto simp: search_result_def p_def)
    show ?thesis
    proof (cases "nat r = i")
      case True
      then show ?thesis using r by simp
    next
      case False
      then have "nat r < i" using r(2) by simp
      then have "cmp (xs ! i) v < 0 \<longrightarrow> cmp (xs ! nat r) v < 0"
        using assms(2) i unfolding split_by_def by blast
      then have "\<not> cmp (xs ! i) v < 0" using r(1) by simp
      then show ?thesis by simp
    qed
  next
    case False
    then have "\<forall>k. p \<le> k \<and> k \<le> int (length xs) - 1 \<longrightarrow> 0 < cmp (xs ! nat k) v"
      using assms(1) by (simp add: search_result_def p_def Let_def)
    moreover have "p \<le> int i" "int i \<le> int (length xs) - 1" using that bounds i by linarith+
    ultimately have "0 < cmp (xs ! nat (int i)) v" by blast
    then show ?thesis by simp
  qed
qed

section \<open>Sorted arrays\<close>

locale comparator =
  fixes comparable :: "'a \<Rightarrow> bool" and cmp :: "'a \<Rightarrow> 'a \<Rightarrow> rat"
  assumes cmp_flip: "comparable a \<Longrightarrow> comparable b \<Longrightarrow> cmp a b < 0 \<longleftrightarrow> 0 < cmp b a"
    and cmp_trans: "comparable a \<Longrightarrow> comparable b \<Longrightarrow> comparable c \<Longrightarrow>
      cmp a b \<le> 0 \<Longrightarrow> cmp b c \<le> 0 \<Longrightarrow> cmp a c \<le> 0"
begin

abbreviation ascending :: "'a list \<Rightarrow> bool" where
  "ascending \<equiv> sorted_wrt (\<lambda>a b. cmp a b \<le> 0)"

lemma cmp_le_flip: "comparable a \<Longrightarrow> comparable b \<Longrightarrow> cmp a b \<le> 0 \<longleftrightarrow> 0 \<le> cmp b a"
  using cmp_flip [of b a] by (auto simp: not_less [symmetric])

lemma cmp_total: "comparable a \<Longrightarrow> comparable b \<Longrightarrow> cmp a b \<le> 0 \<or> cmp b a \<le> 0"
  using cmp_flip [of b a] by (auto simp: not_less [symmetric])

lemma cmp_le_less:
  "comparable a \<Longrightarrow> comparable b \<Longrightarrow> comparable c \<Longrightarrow> cmp a b \<le> 0 \<Longrightarrow> cmp b c < 0 \<Longrightarrow> cmp a c < 0"
  by (metis cmp_flip cmp_le_flip cmp_trans not_less)

lemma cmp_less_le:
  "comparable a \<Longrightarrow> comparable b \<Longrightarrow> comparable c \<Longrightarrow> cmp a b < 0 \<Longrightarrow> cmp b c \<le> 0 \<Longrightarrow> cmp a c < 0"
  by (metis cmp_flip cmp_le_flip cmp_trans not_less)

lemma sorted_split_by:
  assumes "ascending xs" "\<forall>x \<in> set xs. comparable x" "comparable v"
  shows "split_by cmp v xs"
  unfolding split_by_def
proof (intro allI impI)
  fix j i assume ji: "j < length xs" "i < j"
  then have le: "cmp (xs ! i) (xs ! j) \<le> 0" using assms(1) by (simp add: sorted_wrt_iff_nth_less)
  have c: "comparable (xs ! i)" "comparable (xs ! j)" using assms(2) ji by simp_all
  have "0 < cmp (xs ! j) v" if "0 < cmp (xs ! i) v"
  proof -
    have "cmp v (xs ! i) < 0" using that cmp_flip c assms(3) by blast
    then have "cmp v (xs ! j) < 0" using cmp_less_le [OF assms(3) c] le by blast
    then show ?thesis using cmp_flip c assms(3) by blast
  qed
  then show "(cmp (xs ! j) v \<le> 0 \<longrightarrow> cmp (xs ! i) v \<le> 0) \<and> (cmp (xs ! j) v < 0 \<longrightarrow> cmp (xs ! i) v < 0) \<and>
      (0 < cmp (xs ! i) v \<longrightarrow> 0 < cmp (xs ! j) v)"
    using cmp_trans [OF c assms(3) le] cmp_le_less [OF c assms(3) le] by blast
qed

lemma binary_insert_sorted:
  assumes "ascending xs" "\<forall>y \<in> set xs. comparable y" "comparable x" "int (length xs) < 2 ^ 31"
  obtains ys zs where "xs = ys @ zs" and "binary_insert xs x cmp = Inr (ys @ x # zs)"
    and "ascending (ys @ x # zs)"
proof -
  have sp: "split_by cmp x xs" using assms(1-3) by (rule sorted_split_by)
  obtain r where r: "binary_search_all xs x cmp = Inr r"
    and sr: "search_result cmp xs x 0 (int (length xs) - 1) r"
    using binary_search_all_correct [OF sp assms(4)] .
  define p where "p = (if 0 \<le> r then r else bnot32 r)"
  note pos = search_result_insert_pos [OF sr sp, folded p_def]
  show ?thesis
  proof
    show "xs = take (nat p) xs @ drop (nat p) xs" by simp
    show "binary_insert xs x cmp = Inr (take (nat p) xs @ x # drop (nat p) xs)"
      by (simp add: binary_insert_def r splice_insert_def p_def)
    have "ascending (take (nat p) xs @ drop (nat p) xs)"
      using assms(1) by simp
    then have "\<forall>a \<in> set (take (nat p) xs). \<forall>b \<in> set (drop (nat p) xs). cmp a b \<le> 0"
      "ascending (take (nat p) xs)" "ascending (drop (nat p) xs)"
      unfolding sorted_wrt_append by blast+
    moreover have "cmp a x \<le> 0" if "a \<in> set (take (nat p) xs)" for a
      using that pos(2) by (auto simp: in_set_conv_nth)
    moreover have "cmp x a \<le> 0" if "a \<in> set (drop (nat p) xs)" for a
    proof -
      from that obtain i where "i < length xs - nat p" "a = xs ! (nat p + i)"
        by (auto simp: in_set_conv_nth)
      then have "0 \<le> cmp a x" using pos(3) [of "nat p + i"] by simp
      moreover have "comparable a" using that assms(2) by (auto dest: in_set_dropD)
      ultimately show ?thesis using assms(3) by (simp add: cmp_le_flip)
    qed
    ultimately show "ascending (take (nat p) xs @ x # drop (nat p) xs)"
      by (auto simp: sorted_wrt_append)
  qed
qed

end

end
