(* ===== verification/EventTypes.thy ===== *)
theory EventTypes
  imports JsValue
begin

text \<open>
  The vocabulary that the communication manager and its binding share,
  \<open>src/src/com/communication-binding.ts\<close> and \<open>src/src/com/communication-event.ts\<close>: event
  types with their numeric order, the event like, the states of a binding, and the validity of an
  event filter.
\<close>

datatype event_type =
    External | Raw
  | OneWay | Advertise | Deadvertise | Channel | Associate | IoValue
  | TwoWay | Discover | Resolve | Query | Retrieve | Update | Complete | Call | Return

text \<open>The numeric values of the enumeration, which the code compares.\<close>

fun event_code :: "event_type \<Rightarrow> nat" where
  "event_code External = 0" | "event_code Raw = 1" | "event_code OneWay = 2"
| "event_code Advertise = 3" | "event_code Deadvertise = 4" | "event_code Channel = 5"
| "event_code Associate = 6" | "event_code IoValue = 7" | "event_code TwoWay = 8"
| "event_code Discover = 9" | "event_code Resolve = 10" | "event_code Query = 11"
| "event_code Retrieve = 12" | "event_code Update = 13" | "event_code Complete = 14"
| "event_code Call = 15" | "event_code Return = 16"

lemma event_code_inj: "event_code a = event_code b \<Longrightarrow> a = b"
  by (cases a; cases b) simp_all

instantiation event_type :: linorder
begin

definition less_eq_event_type :: "event_type \<Rightarrow> event_type \<Rightarrow> bool" where
  "less_eq_event_type a b = (event_code a \<le> event_code b)"

definition less_event_type :: "event_type \<Rightarrow> event_type \<Rightarrow> bool" where
  "less_event_type a b = (event_code a < event_code b)"

instance
  by standard (auto simp: less_eq_event_type_def less_event_type_def intro: event_code_inj)

end

text \<open>The reverse mapping \<open>CommunicationEventType[eventType]\<close>.\<close>

fun event_name :: "event_type \<Rightarrow> string" where
  "event_name External = ''External''" | "event_name Raw = ''Raw''"
| "event_name OneWay = ''OneWay''" | "event_name Advertise = ''Advertise''"
| "event_name Deadvertise = ''Deadvertise''" | "event_name Channel = ''Channel''"
| "event_name Associate = ''Associate''" | "event_name IoValue = ''IoValue''"
| "event_name TwoWay = ''TwoWay''" | "event_name Discover = ''Discover''"
| "event_name Resolve = ''Resolve''" | "event_name Query = ''Query''"
| "event_name Retrieve = ''Retrieve''" | "event_name Update = ''Update''"
| "event_name Complete = ''Complete''" | "event_name Call = ''Call''"
| "event_name Return = ''Return''"

text \<open>Event data of an event like: absent, a JSON-compatible value, raw bytes, or an object with a
  cyclic reference, which \<open>JSON.stringify\<close> rejects and the value type cannot hold.\<close>

datatype ev_data = NoData | JsonData jsv | RawData string | CyclicData

record event_like =
  el_type :: event_type
  el_filter :: "string option"
  el_source :: "string option"
  el_corr :: "string option"
  el_data :: ev_data
  el_raw :: bool
  el_external :: bool
  el_retain :: bool

datatype comm_state = Offline | Online

datatype binding_state = Initialized | Joined | Unjoined

record join_options =
  jo_agent :: string
  jo_join_events :: "event_like list"
  jo_unjoin_event :: event_like

definition is_one_way_event :: "event_type \<Rightarrow> bool" where
  "is_one_way_event t = (t > OneWay \<and> t < TwoWay)"

lemma is_one_way_event_simps [simp]:
  "is_one_way_event Advertise" "is_one_way_event Deadvertise" "is_one_way_event Channel"
  "is_one_way_event Associate" "is_one_way_event IoValue"
  "\<not> is_one_way_event Discover" "\<not> is_one_way_event Resolve" "\<not> is_one_way_event Query"
  "\<not> is_one_way_event Retrieve" "\<not> is_one_way_event Update" "\<not> is_one_way_event Complete"
  "\<not> is_one_way_event Call" "\<not> is_one_way_event Return" "\<not> is_one_way_event Raw"
  by (simp_all add: is_one_way_event_def less_event_type_def)

text \<open>The regular expression \<open>^[^\u0000+#/]+$\<close>.\<close>

definition illegal_filter_chars :: "char set" where
  "illegal_filter_chars = {CHR 0x00, CHR ''+'', CHR ''#'', CHR ''/''}"

definition is_valid_event_filter :: "jsv \<Rightarrow> bool" where
  "is_valid_event_filter name =
    (case name of
       JStr s \<Rightarrow> s \<noteq> [] \<and> list_all (\<lambda>c. c \<notin> illegal_filter_chars) s
     | _ \<Rightarrow> False)"

lemma is_valid_event_filter_iff:
  "is_valid_event_filter v = (\<exists>s. v = JStr s \<and> s \<noteq> [] \<and> set s \<inter> illegal_filter_chars = {})"
  by (cases v) (auto simp: is_valid_event_filter_def list_all_iff)

end
