(* ===== verification/MqttTopic.thy ===== *)
theory MqttTopic
  imports EventTypes
begin

text \<open>
  MQTT topics of communication events, \<open>src/src/com/mqtt/mqtt-topic.ts\<close>: composing topic names
  and subscription filters, parsing topic names, matching and validity. A part that the code may
  leave \<open>undefined\<close> is an \<open>option\<close>; a template literal renders \<open>undefined\<close> as that word
  (\<open>template\<close>). The topic-level table is looked up by its own keys only. Strings are the code
  units 0 to 255; the byte counter is modelled on arbitrary 16-bit code units.
\<close>

section \<open>Event levels\<close>

definition event_type_topic_levels :: "(string \<times> event_type) list" where
  "event_type_topic_levels =
    [(''ADV'', Advertise), (''DAD'', Deadvertise), (''CHN'', Channel), (''ASC'', Associate),
     (''IOV'', IoValue), (''DSC'', Discover), (''RSV'', Resolve), (''QRY'', Query),
     (''RTV'', Retrieve), (''UPD'', Update), (''CPL'', Complete), (''CLL'', Call), (''RTN'', Return)]"

definition topic_levels_by_event_type :: "event_type \<rightharpoonup> string" where
  "topic_levels_by_event_type =
    fold (\<lambda>(key, t) m. m(t \<mapsto> key)) event_type_topic_levels Map.empty"

definition get_event_type :: "string \<Rightarrow> event_type option" where
  "get_event_type level = map_of event_type_topic_levels level"

definition get_event_topic_level_prefix :: "event_type \<Rightarrow> string option" where
  "get_event_topic_level_prefix t = topic_levels_by_event_type t"

definition template :: "string option \<Rightarrow> string" where
  "template s = (case s of None \<Rightarrow> ''undefined'' | Some x \<Rightarrow> x)"

lemma template_simps [simp]: "template (Some x) = x" "template None = ''undefined''"
  by (simp_all add: template_def)

text \<open>The event types that have a topic level: all but Raw and the markers of the enumeration.\<close>

definition has_level :: "event_type \<Rightarrow> bool" where
  "has_level t = (t \<notin> {External, Raw, OneWay, TwoWay})"

lemma get_event_topic_level_prefix_simps [simp]:
  "get_event_topic_level_prefix Advertise = Some ''ADV''"
  "get_event_topic_level_prefix Deadvertise = Some ''DAD''"
  "get_event_topic_level_prefix Channel = Some ''CHN''"
  "get_event_topic_level_prefix Associate = Some ''ASC''"
  "get_event_topic_level_prefix IoValue = Some ''IOV''"
  "get_event_topic_level_prefix Discover = Some ''DSC''"
  "get_event_topic_level_prefix Resolve = Some ''RSV''"
  "get_event_topic_level_prefix Query = Some ''QRY''"
  "get_event_topic_level_prefix Retrieve = Some ''RTV''"
  "get_event_topic_level_prefix Update = Some ''UPD''"
  "get_event_topic_level_prefix Complete = Some ''CPL''"
  "get_event_topic_level_prefix Call = Some ''CLL''"
  "get_event_topic_level_prefix Return = Some ''RTN''"
  "get_event_topic_level_prefix Raw = None"
  by (simp_all add: get_event_topic_level_prefix_def topic_levels_by_event_type_def
      event_type_topic_levels_def)

lemma level_prefix:
  assumes "has_level t"
  obtains p where "get_event_topic_level_prefix t = Some p" "get_event_type p = Some t"
    "length p = 3" "CHR '':'' \<notin> set p" "CHR ''/'' \<notin> set p" "CHR ''+'' \<notin> set p"
    "CHR ''#'' \<notin> set p"
  using assms
  by (cases t) (simp_all add: has_level_def get_event_type_def event_type_topic_levels_def)

lemma level_prefix_inj:
  "has_level t \<Longrightarrow> has_level u \<Longrightarrow>
    get_event_topic_level_prefix t = get_event_topic_level_prefix u \<Longrightarrow> t = u"
  by (metis level_prefix option.inject)

text \<open>\<open>if (eventTypeFilter)\<close>: neither \<open>undefined\<close> nor the empty string.\<close>

definition event_level :: "event_type \<Rightarrow> string option \<Rightarrow> string" where
  "event_level t eventTypeFilter =
    template (get_event_topic_level_prefix t) @
      (case eventTypeFilter of
         None \<Rightarrow> [] | Some f \<Rightarrow> (if f = [] then [] else '':'' @ f))"

section \<open>Topic names and topic filters\<close>

definition protocol_name :: string where
  "protocol_name = ''coaty''"

definition get_topic_name ::
  "nat \<Rightarrow> string \<Rightarrow> event_type \<Rightarrow> string option \<Rightarrow> string option \<Rightarrow> string option \<Rightarrow> string" where
  "get_topic_name version namespace eventType eventTypeFilter sourceId correlationId =
    (let topic = protocol_name @ ''/'' @ show_nat version @ ''/'' @ namespace @ ''/''
           @ event_level eventType eventTypeFilter @ ''/'' @ template sourceId
     in if \<not> is_one_way_event eventType then topic @ ''/'' @ template correlationId else topic)"

definition get_topic_filter ::
  "nat \<Rightarrow> string option \<Rightarrow> event_type \<Rightarrow> string option \<Rightarrow> string option \<Rightarrow> string" where
  "get_topic_filter version namespace eventType eventTypeFilter correlationId =
    (let ns = (case namespace of None \<Rightarrow> ''+'' | Some n \<Rightarrow> (if n = [] then ''+'' else n));
         levels = protocol_name @ ''/'' @ show_nat version @ ''/'' @ ns @ ''/''
           @ event_level eventType eventTypeFilter @ ''/+''
     in if \<not> is_one_way_event eventType then
          levels @ (case correlationId of
             None \<Rightarrow> ''/+'' | Some c \<Rightarrow> (if c = [] then ''/+'' else ''/'' @ c))
        else levels)"

definition is_coaty_topic_like :: "string \<Rightarrow> bool" where
  "is_coaty_topic_like topicName = starts_with topicName (protocol_name @ ''/'')"

section \<open>Parsing\<close>

record mqtt_topic =
  mt_version :: "int option"
  mt_namespace :: "string option"
  mt_type :: "event_type option"
  mt_filter :: "string option"
  mt_source :: "string option"
  mt_corr :: "string option"

text \<open>\<open>parseInt(s, 10)\<close>; \<open>None\<close> is NaN.\<close>

definition is_js_space :: "char \<Rightarrow> bool" where
  "is_js_space c = (of_char c \<in> {9, 10, 11, 12, 13, 32, 160 :: nat})"

definition parse_digits :: "string \<Rightarrow> int option" where
  "parse_digits s =
    (let ds = takeWhile (\<lambda>c. digit_val c \<noteq> None) s
     in if ds = [] then None else Some (int (digits_val 0 ds)))"

definition parse_int :: "string \<Rightarrow> int option" where
  "parse_int s =
    (case dropWhile is_js_space s of
       [] \<Rightarrow> None
     | c # cs \<Rightarrow>
         if c = CHR ''-'' then map_option uminus (parse_digits cs)
         else if c = CHR ''+'' then parse_digits cs
         else parse_digits (c # cs))"

definition parse_event :: "string \<Rightarrow> event_type option \<times> string option" where
  "parse_event event =
    (case index_of (CHR '':'') event of
       None \<Rightarrow> (get_event_type event, None)
     | Some i \<Rightarrow> (get_event_type (take i event), Some (drop (i + 1) event)))"

definition nth_level :: "string list \<Rightarrow> nat \<Rightarrow> string option" where
  "nth_level ls i = (if i < length ls then Some (ls ! i) else None)"

definition create_by_name :: "string \<Rightarrow> js_error + mqtt_topic option" where
  "create_by_name topicName =
    (if \<not> is_coaty_topic_like topicName then Inr None
     else
       (let levels = split_on (CHR ''/'') topicName;
            v = parse_int (template (nth_level levels 1))
        in case nth_level levels 3 of
             None \<Rightarrow> Inl (TypeError ''cannot read property indexOf of undefined'')
           | Some event \<Rightarrow>
               (let (eventType, eventTypeFilter) = parse_event event in
                Inr (Some
                  \<lparr>mt_version = v, mt_namespace = nth_level levels 2, mt_type = eventType,
                   mt_filter = eventTypeFilter, mt_source = nth_level levels 4,
                   mt_corr = (if nth_level levels 5 = Some [] then None else nth_level levels 5)\<rparr>))))"

section \<open>Validity\<close>

text \<open>The UTF-8 size of a string of UTF-16 code units, as the code counts it.\<close>

fun get_utf8_bytes_count :: "16 word list \<Rightarrow> nat" where
  "get_utf8_bytes_count [] = 0"
| "get_utf8_bytes_count (code # str) =
    (if code \<le> 0x7F then 1
     else if code \<le> 0x7FF then 2
     else if 0xD800 \<le> code \<and> code \<le> 0xDFFF then 4
     else 3) + get_utf8_bytes_count str"

definition code_units :: "string \<Rightarrow> 16 word list" where
  "code_units s = map (\<lambda>c. of_nat (of_char c)) s"

definition is_valid_topic_units :: "16 word list \<Rightarrow> bool \<Rightarrow> bool" where
  "is_valid_topic_units topic forSubscription =
    (if topic = [] then False
     else if length topic * 4 > 65535 \<and> get_utf8_bytes_count topic > 65535 then False
     else if forSubscription then 0 \<notin> set topic
     else \<not> list_ex (\<lambda>u. u = 0 \<or> u = 0x2B \<or> u = 0x23) topic)"

definition is_valid_topic :: "string \<Rightarrow> bool \<Rightarrow> bool" where
  "is_valid_topic topic forSubscription = is_valid_topic_units (code_units topic) forSubscription"

section \<open>Matching\<close>

text \<open>The loop over the levels of the filter; \<open>!currentLevel\<close> holds past the end of the topic and
  for an empty level.\<close>

definition falsy_level :: "string option \<Rightarrow> bool" where
  "falsy_level l = (l = None \<or> l = Some [])"

function match_from :: "string list \<Rightarrow> string list \<Rightarrow> nat \<Rightarrow> bool" where
  "match_from patternLevels topicLevels i =
    (if i < length patternLevels then
       (let currentPatternLevel = patternLevels ! i; currentLevel = nth_level topicLevels i in
        if falsy_level currentLevel \<and> currentPatternLevel = [] then
          match_from patternLevels topicLevels (i + 1)
        else if falsy_level currentLevel \<and> currentPatternLevel = ''+'' then
          match_from patternLevels topicLevels (i + 1)
        else if falsy_level currentLevel \<and> currentPatternLevel \<noteq> ''#'' then False
        else if currentPatternLevel = ''#'' then i = length patternLevels - 1
        else if currentPatternLevel \<noteq> ''+'' \<and> Some currentPatternLevel \<noteq> currentLevel then False
        else match_from patternLevels topicLevels (i + 1))
     else length patternLevels = length topicLevels)"
  by pat_completeness auto
termination
  by (relation "measure (\<lambda>(p, t, i). length p - i)") auto

declare match_from.simps [simp del]

definition topic_matches :: "string \<Rightarrow> string \<Rightarrow> bool" where
  "topic_matches topic topic_filter =
    (if topic = [] \<or> topic_filter = [] then False
     else match_from (split_on (CHR ''/'') topic_filter) (split_on (CHR ''/'') topic) 0)"


section \<open>Topic names parse back\<close>

lemma digit_val_punct [simp]:
  "digit_val (CHR ''/'') = None" "digit_val (CHR ''+'') = None" "digit_val (CHR ''-'') = None"
  "digit_val (CHR ''#'') = None" "digit_val (CHR '':'') = None"
  by (simp_all add: digit_val_def)

lemma digit_not_space: "digit_val c \<noteq> None \<Longrightarrow> \<not> is_js_space c"
  by (auto simp: digit_val_def is_js_space_def Let_def split: if_splits)

lemma show_nat_no_char: "digit_val c = None \<Longrightarrow> c \<notin> set (show_nat n)"
  using show_nat_digits by fastforce

lemma parse_int_show_nat: "parse_int (show_nat v) = Some (int v)"
proof -
  obtain c cs where s: "show_nat v = c # cs" by (cases "show_nat v") auto
  with show_nat_digits [of v] have d: "\<forall>x \<in> set (c # cs). digit_val x \<noteq> None" by simp
  then have "takeWhile (\<lambda>x. digit_val x \<noteq> None) (c # cs) = c # cs"
    by (simp only: takeWhile_eq_all_conv)
  moreover have "dropWhile is_js_space (c # cs) = c # cs"
    using d digit_not_space by simp
  moreover have "c \<noteq> CHR ''-''" "c \<noteq> CHR ''+''" using d by auto
  moreover have "digits_val 0 (c # cs) = v" using digits_val_show_nat [of v] s by simp
  ultimately show ?thesis unfolding s parse_int_def
    by (simp add: parse_digits_def Let_def)
qed

text \<open>The levels of a topic name, when no part holds the level separator.\<close>

definition topic_parts ::
  "nat \<Rightarrow> string \<Rightarrow> event_type \<Rightarrow> string option \<Rightarrow> string option \<Rightarrow> string option \<Rightarrow> string list" where
  "topic_parts v ns t f src corr =
    [protocol_name, show_nat v, ns, event_level t f, template src]
      @ (if is_one_way_event t then [] else [template corr])"

definition no_sep :: "string option \<Rightarrow> bool" where
  "no_sep s = (case s of None \<Rightarrow> True | Some x \<Rightarrow> CHR ''/'' \<notin> set x)"

lemma no_sep_simps [simp]: "no_sep None" "no_sep (Some x) = (CHR ''/'' \<notin> set x)"
  by (simp_all add: no_sep_def)

lemma template_no_sep: "no_sep s \<Longrightarrow> CHR ''/'' \<notin> set (template s)"
  by (cases s) auto

lemma event_level_no_sep:
  assumes "has_level t" "no_sep f"
  shows "CHR ''/'' \<notin> set (event_level t f)"
proof -
  from assms(1) obtain p where "get_event_topic_level_prefix t = Some p" "CHR ''/'' \<notin> set p"
    by (rule level_prefix) blast
  with assms(2) show ?thesis by (cases f) (auto simp: event_level_def)
qed

lemma get_topic_name_parts:
  "get_topic_name v ns t f src corr = join_with (CHR ''/'') (topic_parts v ns t f src corr)"
  by (simp add: get_topic_name_def topic_parts_def Let_def)

lemma split_topic_name:
  assumes "has_level t" "CHR ''/'' \<notin> set ns" "no_sep f" "no_sep src" "no_sep corr"
  shows "split_on (CHR ''/'') (get_topic_name v ns t f src corr) = topic_parts v ns t f src corr"
proof -
  have "\<forall>p \<in> set (topic_parts v ns t f src corr). CHR ''/'' \<notin> set p"
    using assms template_no_sep event_level_no_sep show_nat_no_char [of "CHR ''/''"]
    by (auto simp: topic_parts_def protocol_name_def)
  then show ?thesis
    unfolding get_topic_name_parts by (intro split_on_join) (simp_all add: topic_parts_def)
qed

lemma parse_event_level:
  assumes "has_level t" "f \<noteq> Some []"
  shows "parse_event (event_level t f) = (Some t, f)"
proof -
  from assms(1) obtain p where p: "get_event_topic_level_prefix t = Some p"
    "get_event_type p = Some t" "CHR '':'' \<notin> set p"
    by (rule level_prefix) blast
  show ?thesis
  proof (cases f)
    case None
    then show ?thesis using p by (simp add: event_level_def parse_event_def index_of_None [THEN iffD2])
  next
    case (Some g)
    then have "event_level t f = p @ CHR '':'' # g" using p assms(2) by (simp add: event_level_def)
    then show ?thesis using p Some by (simp add: parse_event_def index_of_append)
  qed
qed

lemma is_coaty_topic_name: "is_coaty_topic_like (get_topic_name v ns t f src corr)"
proof -
  have "\<exists>r. get_topic_name v ns t f src corr = (protocol_name @ ''/'') @ r"
    by (simp add: get_topic_name_def Let_def)
  then show ?thesis by (simp add: is_coaty_topic_like_def starts_with_iff)
qed

lemma create_by_name_topic_name:
  assumes "has_level t" "CHR ''/'' \<notin> set ns" "no_sep f" "f \<noteq> Some []"
    "CHR ''/'' \<notin> set src" "no_sep corr" "corr \<noteq> Some []"
  shows "create_by_name (get_topic_name v ns t f (Some src) corr) = Inr (Some
    \<lparr>mt_version = Some (int v), mt_namespace = Some ns, mt_type = Some t, mt_filter = f,
     mt_source = Some src,
     mt_corr = (if is_one_way_event t then None else Some (template corr))\<rparr>)"
proof -
  have "split_on (CHR ''/'') (get_topic_name v ns t f (Some src) corr)
      = topic_parts v ns t f (Some src) corr"
    using assms by (intro split_topic_name) auto
  moreover have "template corr \<noteq> []" using assms(7) by (cases corr) auto
  ultimately show ?thesis
    using parse_event_level [OF assms(1,4)]
    by (auto simp: create_by_name_def is_coaty_topic_name topic_parts_def nth_level_def
        parse_int_show_nat Let_def)
qed

section \<open>Matching against the MQTT rules\<close>

text \<open>Matching of MQTT 3.1.1, section 4.7: \<open>+\<close> stands for one level, a final \<open>#\<close> for any number
  of levels including none.\<close>

fun mqtt_match :: "string list \<Rightarrow> string list \<Rightarrow> bool" where
  "mqtt_match [] ts = (ts = [])"
| "mqtt_match (p # ps) ts =
    (if p = ''#'' \<and> ps = [] then True
     else case ts of
       [] \<Rightarrow> False
     | t # ts' \<Rightarrow> p \<noteq> ''#'' \<and> (p = ''+'' \<or> p = t) \<and> mqtt_match ps ts')"

lemma mqtt_match_length:
  "mqtt_match ps ts \<Longrightarrow> length ps \<le> Suc (length ts)"
  by (induction ps ts rule: mqtt_match.induct) (auto split: if_splits list.splits)

lemma match_from_complete:
  "mqtt_match (drop i ps) (drop i ts) \<Longrightarrow> match_from ps ts i \<or> length ps < i \<or> length ts < i"
proof (induction ps ts i rule: match_from.induct)
  case (1 ps ts i)
  show ?case
  proof (cases "i < length ps")
    case False
    then show ?thesis using "1.prems" by (auto simp: match_from.simps [of ps ts i])
  next
    case True
    then have dp: "drop i ps = ps ! i # drop (i + 1) ps" by (simp add: Cons_nth_drop_Suc)
    show ?thesis
    proof (cases "ps ! i = ''#'' \<and> drop (i + 1) ps = []")
      case True
      then show ?thesis
        using \<open>i < length ps\<close> by (auto simp: match_from.simps [of ps ts i] Let_def)
    next
      case False
      have it: "i < length ts"
        using "1.prems" False unfolding dp by (cases "i < length ts") auto
      then have dt: "drop i ts = ts ! i # drop (i + 1) ts" by (simp add: Cons_nth_drop_Suc)
      have step: "ps ! i \<noteq> ''#''" "ps ! i = ''+'' \<or> ps ! i = ts ! i"
        "mqtt_match (drop (i + 1) ps) (drop (i + 1) ts)"
        using "1.prems" False unfolding dp dt by auto
      have "match_from ps ts i = match_from ps ts (i + 1)"
        using step \<open>i < length ps\<close> it
        by (auto simp: match_from.simps [of ps ts i] nth_level_def falsy_level_def Let_def)
      moreover have "match_from ps ts (i + 1)"
        using "1.IH" step it \<open>i < length ps\<close>
        by (fastforce simp: nth_level_def falsy_level_def)
      ultimately show ?thesis by simp
    qed
  qed
qed

lemma match_from_sound:
  "match_from ps ts i \<Longrightarrow> length ps \<le> Suc (length ts) \<Longrightarrow> i \<le> length ps \<Longrightarrow> i \<le> length ts
    \<Longrightarrow> mqtt_match (drop i ps) (drop i ts)"
proof (induction ps ts i rule: match_from.induct)
  case (1 ps ts i)
  show ?case
  proof (cases "i < length ps")
    case False
    then have "match_from ps ts i = (length ps = length ts)" by (subst match_from.simps) simp
    with False show ?thesis using "1.prems" by simp
  next
    case True
    then have dp: "drop i ps = ps ! i # drop (i + 1) ps" by (simp add: Cons_nth_drop_Suc)
    show ?thesis
    proof (cases "i < length ts")
      case False
      then have "i = length ps - 1" "i = length ts" using True "1.prems"(2,4) by linarith+
      moreover have "match_from ps ts i =
          (if ps ! i = [] \<or> ps ! i = ''+'' then match_from ps ts (i + 1)
           else ps ! i = ''#'' \<and> i = length ps - 1)"
        using True False
        by (subst match_from.simps) (simp add: nth_level_def falsy_level_def Let_def)
      moreover have "\<not> match_from ps ts (i + 1)"
        using calculation(1,2) True by (subst match_from.simps) (simp del: One_nat_def)
      ultimately have "ps ! i = ''#''" "drop (i + 1) ps = []"
        using "1.prems"(1) by (auto split: if_splits)
      then show ?thesis unfolding dp by simp
    next
      case it: True
      then have dt: "drop i ts = ts ! i # drop (i + 1) ts" by (simp add: Cons_nth_drop_Suc)
      show ?thesis
      proof (cases "ps ! i = ''#''")
        case h: True
        then have "i = length ps - 1"
          using "1.prems"(1) True it
          by (auto simp: match_from.simps [of ps ts i] nth_level_def falsy_level_def Let_def
              split: if_splits)
        then show ?thesis using h True unfolding dp by simp
      next
        case False
        then have "match_from ps ts (i + 1) \<and> (ps ! i = ''+'' \<or> ps ! i = ts ! i)"
          using "1.prems"(1) True it
          by (auto simp: match_from.simps [of ps ts i] nth_level_def falsy_level_def Let_def
              split: if_splits)
        moreover have "mqtt_match (drop (i + 1) ps) (drop (i + 1) ts)"
          using calculation "1.IH" "1.prems"(2) False True it
          by (fastforce simp: nth_level_def falsy_level_def)
        ultimately show ?thesis using False unfolding dp dt by simp
      qed
    qed
  qed
qed

section \<open>Byte counts\<close>

text \<open>The UTF-8 size of a string of UTF-16 code units: a surrogate pair is one code point of
  four bytes.\<close>

fun utf8_size :: "16 word list \<Rightarrow> nat" where
  "utf8_size [] = 0"
| "utf8_size [u] = (if u \<le> 0x7F then 1 else if u \<le> 0x7FF then 2 else 3)"
| "utf8_size (u # w # us) =
    (if 0xD800 \<le> u \<and> u \<le> 0xDBFF \<and> 0xDC00 \<le> w \<and> w \<le> 0xDFFF then 4 + utf8_size us
     else (if u \<le> 0x7F then 1 else if u \<le> 0x7FF then 2 else 3) + utf8_size (w # us))"

definition unit_count :: "16 word \<Rightarrow> nat" where
  "unit_count u =
    (if u \<le> 0x7F then 1 else if u \<le> 0x7FF then 2
     else if 0xD800 \<le> u \<and> u \<le> 0xDFFF then 4 else 3)"

definition unit_size :: "16 word \<Rightarrow> nat" where
  "unit_size u = (if u \<le> 0x7F then 1 else if u \<le> 0x7FF then 2 else 3)"

lemma get_utf8_bytes_count_Cons:
  "get_utf8_bytes_count (u # us) = unit_count u + get_utf8_bytes_count us"
  by (simp only: get_utf8_bytes_count.simps unit_count_def)

lemma utf8_size_Cons2:
  "utf8_size (u # w # us) =
    (if 0xD800 \<le> u \<and> u \<le> 0xDBFF \<and> 0xDC00 \<le> w \<and> w \<le> 0xDFFF then 4 + utf8_size us
     else unit_size u + utf8_size (w # us))"
  by (simp only: utf8_size.simps unit_size_def)

lemma unit_size_le: "unit_size u \<le> unit_count u" "unit_size u \<le> 3" "unit_count u \<le> 4"
  by (simp_all add: unit_size_def unit_count_def)

lemma unit_count_eq: "\<not> (0xD800 \<le> u \<and> u \<le> 0xDFFF) \<Longrightarrow> unit_count u = unit_size u"
  by (simp only: unit_size_def unit_count_def if_False)

lemma unit_count_surrogate: "0xD800 \<le> u \<Longrightarrow> u \<le> 0xDFFF \<Longrightarrow> unit_count u = 4"
  by (simp add: unit_count_def word_le_nat_alt)

lemma utf8_size_single: "utf8_size [u] = unit_size u"
  by (simp only: utf8_size.simps unit_size_def)

lemma high_surrogate: "(u :: 16 word) \<le> 0xDBFF \<Longrightarrow> u \<le> 0xDFFF"
  by (simp add: word_le_nat_alt)

lemma utf8_size_le_count: "utf8_size us \<le> get_utf8_bytes_count us"
proof (induction us rule: utf8_size.induct)
  case (2 u)
  show ?case
    unfolding utf8_size_single get_utf8_bytes_count_Cons using unit_size_le(1) [of u] by simp
next
  case (3 u w us)
  show ?case
  proof (cases "0xD800 \<le> u \<and> u \<le> 0xDBFF \<and> 0xDC00 \<le> w \<and> w \<le> 0xDFFF")
    case True
    then have "unit_count u = 4" using unit_count_surrogate high_surrogate by blast
    then show ?thesis
      unfolding utf8_size_Cons2 if_P [OF True] get_utf8_bytes_count_Cons
      using 3(1) [OF True] by linarith
  next
    case False
    then show ?thesis
      unfolding utf8_size_Cons2 if_not_P [OF False] get_utf8_bytes_count_Cons [of u]
      using unit_size_le(1) [of u] 3(2) [OF False] by linarith
  qed
qed simp

lemma utf8_size_le_length: "utf8_size us \<le> 3 * length us"
proof (induction us rule: utf8_size.induct)
  case (2 u)
  show ?case unfolding utf8_size_single using unit_size_le(2) [of u] by simp
next
  case (3 u w us)
  show ?case
  proof (cases "0xD800 \<le> u \<and> u \<le> 0xDBFF \<and> 0xDC00 \<le> w \<and> w \<le> 0xDFFF")
    case True
    show ?thesis unfolding utf8_size_Cons2 if_P [OF True] using 3(1) [OF True] by simp
  next
    case False
    show ?thesis
      unfolding utf8_size_Cons2 if_not_P [OF False]
      using unit_size_le(2) [of u] 3(2) [OF False] by simp
  qed
qed simp

lemma count_no_surrogates:
  "\<forall>u \<in> set us. \<not> (0xD800 \<le> u \<and> u \<le> 0xDFFF) \<Longrightarrow> get_utf8_bytes_count us = utf8_size us"
proof (induction us rule: utf8_size.induct)
  case (2 u)
  then have "\<not> (0xD800 \<le> u \<and> u \<le> 0xDFFF)" by (meson list.set_intros(1))
  then show ?case
    unfolding utf8_size_single get_utf8_bytes_count_Cons by (simp add: unit_count_eq)
next
  case (3 u w us)
  have u: "\<not> (0xD800 \<le> u \<and> u \<le> 0xDFFF)" using 3(3) by (meson list.set_intros(1))
  with high_surrogate [of u]
  have np: "\<not> (0xD800 \<le> u \<and> u \<le> 0xDBFF \<and> 0xDC00 \<le> w \<and> w \<le> 0xDFFF)" by blast
  have "get_utf8_bytes_count (w # us) = utf8_size (w # us)"
    using 3(2) [OF np] 3(3) by (meson list.set_intros(2))
  then show ?case
    unfolding utf8_size_Cons2 if_not_P [OF np] get_utf8_bytes_count_Cons [of u]
    using unit_count_eq [OF u] by simp
qed simp


section \<open>Which publications a subscription receives\<close>

definition filter_parts ::
  "nat \<Rightarrow> string option \<Rightarrow> event_type \<Rightarrow> string option \<Rightarrow> string option \<Rightarrow> string list" where
  "filter_parts v ns t f corr =
    [protocol_name, show_nat v, (case ns of None \<Rightarrow> ''+'' | Some n \<Rightarrow> n), event_level t f, ''+'']
      @ (if is_one_way_event t then [] else [case corr of None \<Rightarrow> ''+'' | Some c \<Rightarrow> c])"

text \<open>A part of a topic: not empty, no separator, no wildcard.\<close>

definition topic_part :: "string \<Rightarrow> bool" where
  "topic_part s = (s \<noteq> [] \<and> CHR ''/'' \<notin> set s \<and> CHR ''+'' \<notin> set s \<and> CHR ''#'' \<notin> set s)"

definition opt_part :: "string option \<Rightarrow> bool" where
  "opt_part s = (case s of None \<Rightarrow> True | Some x \<Rightarrow> topic_part x)"

lemma opt_part_simps [simp]: "opt_part None" "opt_part (Some x) = topic_part x"
  by (simp_all add: opt_part_def)

lemma topic_part_no_wild: "topic_part s \<Longrightarrow> s \<noteq> ''+'' \<and> s \<noteq> ''#'' \<and> s \<noteq> [] \<and> CHR ''/'' \<notin> set s"
  by (auto simp: topic_part_def)

lemma opt_part_no_sep: "opt_part s \<Longrightarrow> no_sep s \<and> s \<noteq> Some []"
  by (cases s) (auto simp: topic_part_def)

lemma split_topic_filter:
  assumes "has_level t" "opt_part ns" "opt_part f" "opt_part corr"
  shows "split_on (CHR ''/'') (get_topic_filter v ns t f corr) = filter_parts v ns t f corr"
proof -
  have "get_topic_filter v ns t f corr = join_with (CHR ''/'') (filter_parts v ns t f corr)"
    using assms(2,4)
    by (cases ns; cases corr)
       (auto simp: get_topic_filter_def filter_parts_def Let_def topic_part_def)
  moreover have "\<forall>p \<in> set (filter_parts v ns t f corr). CHR ''/'' \<notin> set p"
    using assms event_level_no_sep [OF assms(1), of f] opt_part_no_sep
      show_nat_no_char [of "CHR ''/''"]
    by (auto simp: filter_parts_def protocol_name_def topic_part_def split: option.splits)
  moreover have "filter_parts v ns t f corr \<noteq> []" by (simp add: filter_parts_def)
  ultimately show ?thesis using split_on_join by metis
qed

lemma event_level_inj:
  assumes "has_level t" "has_level u" "f \<noteq> Some []" "g \<noteq> Some []"
  shows "event_level t f = event_level u g \<longleftrightarrow> t = u \<and> f = g"
  by (metis assms option.inject parse_event_level prod.inject)

lemma event_level_no_wild: "has_level t \<Longrightarrow> event_level t f \<noteq> ''+'' \<and> event_level t f \<noteq> ''#''"
proof -
  assume "has_level t"
  then obtain p where "get_event_topic_level_prefix t = Some p" "length p = 3"
    by (rule level_prefix) blast
  then have "3 \<le> length (event_level t f)" by (simp add: event_level_def)
  then show ?thesis by (auto simp: numeral_3_eq_3)
qed

lemma show_nat_no_wild: "show_nat v \<noteq> ''+'' \<and> show_nat v \<noteq> ''#''"
  using show_nat_no_char [of "CHR ''+''" v] show_nat_no_char [of "CHR ''#''" v] by auto

lemma topic_matches_iff_mqtt_match:
  assumes "topic \<noteq> []" "topic_filter \<noteq> []"
    "length (split_on (CHR ''/'') topic_filter) \<le> Suc (length (split_on (CHR ''/'') topic))"
  shows "topic_matches topic topic_filter =
    mqtt_match (split_on (CHR ''/'') topic_filter) (split_on (CHR ''/'') topic)"
  using assms match_from_sound [of "split_on (CHR ''/'') topic_filter" _ 0]
    match_from_complete [of 0 "split_on (CHR ''/'') topic_filter"]
  by (auto simp: topic_matches_def)

lemma topic_matches_name_filter:
  assumes "has_level t" "has_level t'" "topic_part ns" "opt_part ns'" "opt_part f" "opt_part f'"
    "CHR ''/'' \<notin> set src" "no_sep corr" "opt_part corr'"
  shows "topic_matches (get_topic_name v ns t f (Some src) corr) (get_topic_filter v' ns' t' f' corr')
    \<longleftrightarrow> v = v' \<and> (ns' = None \<or> ns' = Some ns) \<and> t = t' \<and> f = f' \<and>
       (is_one_way_event t \<or> corr' = None \<or> corr' = Some (template corr))"
proof -
  let ?n = "get_topic_name v ns t f (Some src) corr" and ?f = "get_topic_filter v' ns' t' f' corr'"
  have n: "split_on (CHR ''/'') ?n = topic_parts v ns t f (Some src) corr"
    using assms opt_part_no_sep topic_part_no_wild by (intro split_topic_name) auto
  have f: "split_on (CHR ''/'') ?f = filter_parts v' ns' t' f' corr'"
    using assms by (intro split_topic_filter)
  have "?n \<noteq> []" "?f \<noteq> []"
    by (auto simp: get_topic_name_def get_topic_filter_def protocol_name_def Let_def)
  then have m: "topic_matches ?n ?f =
      mqtt_match (filter_parts v' ns' t' f' corr') (topic_parts v ns t f (Some src) corr)"
    by (subst topic_matches_iff_mqtt_match) (auto simp: n f topic_parts_def filter_parts_def)
  have ev: "event_level t' f' = event_level t f \<longleftrightarrow> t = t' \<and> f = f'"
    using event_level_inj [OF assms(2,1), of f' f] opt_part_no_sep assms(5,6) by blast
  have sh: "show_nat v' = show_nat v \<longleftrightarrow> v = v'" using show_nat_inj by blast
  have "mqtt_match (filter_parts v' ns' t' f' corr') (topic_parts v ns t f (Some src) corr)
    \<longleftrightarrow> v = v' \<and> (ns' = None \<or> ns' = Some ns) \<and> t = t' \<and> f = f' \<and>
       (is_one_way_event t \<or> corr' = None \<or> corr' = Some (template corr))"
    using ev sh event_level_no_wild [OF assms(2), of f'] show_nat_no_wild [of v'] assms(4,9)
    by (cases ns'; cases corr')
       (auto simp: topic_parts_def filter_parts_def protocol_name_def dest!: topic_part_no_wild)
  with m show ?thesis by simp
qed

end
