(* ===== verification/MqttBinding.thy ===== *)
theory MqttBinding
  imports MqttTopic Deep
begin

text \<open>
  The MQTT communication binding, \<open>src/src/com/mqtt/mqtt-binding.ts\<close>, together with the state
  guards of its base class in \<open>src/src/com/communication-binding.ts\<close>, as a state machine. The
  MQTT client is a third-party package: what the binding does with it is an output of the model
  (\<open>bind_out\<close>), and what the client reports, in any order, is an input (the handlers \<open>ev_...\<close> and
  the completion callbacks \<open>publish_callback\<close> and \<open>end_callback\<close>). A call of a publication
  item's callback belongs to the unjoin event, the only item that has one.

  Encoding: \<open>PJson v\<close> stands for the JSON text of \<open>v\<close>; \<open>json_parse\<close> is \<open>JSON.parse\<close> on bytes that
  no agent of this framework has encoded.
\<close>

section \<open>State\<close>

datatype payload = PNone | PBytes string | PJson jsv

record pub_item =
  pi_id :: nat
  pi_topic :: string
  pi_payload :: payload
  pi_retain :: bool
  pi_callback :: bool

record sub_item =
  si_type :: event_type
  si_filter :: string
  si_decode :: bool

datatype bind_out =
    OConnect string "(string \<times> payload) option"
  | OConnack
  | OPublish pub_item
  | OSubscribe "string list"
  | OUnsubscribe "string list"
  | OEnd bool
  | OState comm_state
  | OInbound event_like
  | OUnjoinDone

record mqtt_binding =
  mb_namespace :: string
  mb_cross :: bool
  mb_state :: binding_state
  mb_join :: "join_options option"
  mb_client :: "bool option" \<comment> \<open>the client's \<open>connected\<close>, if there is a client\<close>
  mb_registered :: bool
  mb_draining :: bool
  mb_pending :: "pub_item list"
  mb_inflight :: "pub_item list"
  mb_next :: nat
  mb_issued :: "sub_item list"
  mb_out :: "bind_out list"

definition api_version :: nat where
  "api_version = 3"

definition emit :: "bind_out list \<Rightarrow> mqtt_binding \<Rightarrow> mqtt_binding" where
  "emit os b = b\<lparr>mb_out := mb_out b @ os\<rparr>"

definition reset :: "mqtt_binding \<Rightarrow> mqtt_binding" where
  "reset b =
    emit [OState Offline]
      (b\<lparr>mb_client := None, mb_join := None, mb_draining := False, mb_pending := [],
         mb_issued := []\<rparr>)"

section \<open>Topics and payloads\<close>

definition create_io_route :: "mqtt_binding \<Rightarrow> string \<Rightarrow> string" where
  "create_io_route b ioSourceId =
    get_topic_name api_version (mb_namespace b) IoValue None (Some ioSourceId) None"

definition get_topic_for :: "mqtt_binding \<Rightarrow> event_like \<Rightarrow> string option" where
  "get_topic_for b e =
    (if el_type e = Raw then el_filter e
     else if el_type e = IoValue then el_filter e
     else Some (get_topic_name api_version (mb_namespace b) (el_type e) (el_filter e)
            (el_source e) (el_corr e)))"

definition get_topic_filter_for :: "mqtt_binding \<Rightarrow> event_like \<Rightarrow> string option" where
  "get_topic_filter_for b e =
    (if el_type e = Raw then el_filter e
     else if el_type e = IoValue then el_filter e
     else Some (get_topic_filter api_version (if mb_cross b then None else Some (mb_namespace b))
            (el_type e) (el_filter e) (el_corr e)))"

text \<open>What remains of a value after \<open>JSON.stringify\<close> and \<open>JSON.parse\<close>: \<open>clone\<close>, and a number
  that is not finite becomes \<open>null\<close>.\<close>

fun finite_nums :: "jsv \<Rightarrow> jsv" where
  "finite_nums (JNum n) = (case n of Fin r \<Rightarrow> JNum n | _ \<Rightarrow> JNull)"
| "finite_nums (JArr xs) = JArr (map finite_nums xs)"
| "finite_nums (JObj p ps) = JObj p (map (\<lambda>(k, v). (k, finite_nums v)) ps)"
| "finite_nums v = v"

definition jsonify :: "jsv \<Rightarrow> jsv" where
  "jsonify v = finite_nums (js_clone v)"

lemma finite_nums_json: "json v \<Longrightarrow> finite_nums v = v"
proof (induction v)
  case (JObj p ps)
  have "finite_nums (snd e) = snd e" if "e \<in> set ps" for e
    using JObj that by (auto simp: snds.simps)
  then have "map (\<lambda>(k, v). (k, finite_nums v)) ps = ps"
    by (intro map_idI) (auto split: prod.splits)
  then show ?case by simp
qed (auto intro: map_idI)

lemma jsonify_json: "json v \<Longrightarrow> jsonify v = v"
  by (simp add: jsonify_def js_clone_json finite_nums_json)

definition encode_payload :: "event_like \<Rightarrow> js_error + payload" where
  "encode_payload e =
    (if el_raw e then
       Inr (case el_data e of RawData s \<Rightarrow> PBytes s | JsonData v \<Rightarrow> PJson v | _ \<Rightarrow> PNone)
     else (case el_data e of
         JsonData v \<Rightarrow> Inr (PJson (jsonify v))
       | CyclicData \<Rightarrow> Inl (TypeError ''converting circular structure to JSON'')
       | RawData s \<Rightarrow> Inr (PJson (JStr s))
       | NoData \<Rightarrow> Inr PNone))"

definition decode_payload :: "(string \<Rightarrow> js_error + jsv) \<Rightarrow> payload \<Rightarrow> js_error + jsv" where
  "decode_payload json_parse p =
    (case p of
       PJson v \<Rightarrow> Inr v
     | PBytes s \<Rightarrow> json_parse s
     | PNone \<Rightarrow> json_parse [])"

definition broker_client_id :: "string \<Rightarrow> string" where
  "broker_client_id agentId = ''Coaty'' @ take 18 (filter (\<lambda>c. c \<noteq> CHR ''-'') agentId)"

section \<open>Publication management\<close>

text \<open>The callback of the unjoin event's publication item ends the client.\<close>

definition unjoin_callback :: "bool \<Rightarrow> mqtt_binding \<Rightarrow> mqtt_binding" where
  "unjoin_callback publishFailed b = emit [OEnd publishFailed] b"

definition add_publication_item ::
  "event_like \<Rightarrow> bool \<Rightarrow> bool \<Rightarrow> bool \<Rightarrow> mqtt_binding \<Rightarrow> mqtt_binding" where
  "add_publication_item e has_callback shouldAddFirst once b =
    (case (get_topic_for b e, encode_payload e) of
       (topic, Inr payload) \<Rightarrow>
         (if once \<and> (\<exists>i \<in> set (mb_pending b). pi_topic i = template topic) then
            (if has_callback then unjoin_callback True b else b)
          else
            (let item = \<lparr>pi_id = mb_next b, pi_topic = template topic, pi_payload = payload,
                         pi_retain = el_retain e, pi_callback = has_callback\<rparr>;
                 b' = b\<lparr>mb_next := Suc (mb_next b)\<rparr>
             in if shouldAddFirst then b'\<lparr>mb_pending := item # mb_pending b'\<rparr>
                else b'\<lparr>mb_pending := mb_pending b' @ [item]\<rparr>))
     | (topic, Inl error) \<Rightarrow> (if has_callback then unjoin_callback True b else b))"

definition do_drain_publications :: "mqtt_binding \<Rightarrow> mqtt_binding" where
  "do_drain_publications b =
    (if mb_client b = None \<or> mb_pending b = [] then b\<lparr>mb_draining := False\<rparr>
     else
       (let pendingItem = hd (mb_pending b)
        in emit [OPublish pendingItem] (b\<lparr>mb_inflight := mb_inflight b @ [pendingItem]\<rparr>)))"

definition drain_publications :: "mqtt_binding \<Rightarrow> mqtt_binding" where
  "drain_publications b =
    (if mb_draining b then b else do_drain_publications (b\<lparr>mb_draining := True\<rparr>))"

text \<open>The completion callback of \<open>client.publish\<close> for one item in flight.\<close>

definition publish_callback :: "pub_item \<Rightarrow> bool \<Rightarrow> mqtt_binding \<Rightarrow> mqtt_binding" where
  "publish_callback item err b0 =
    (let b = b0\<lparr>mb_inflight := remove1 item (mb_inflight b0)\<rparr> in
     if err then
       fold (\<lambda>i s. if pi_callback i then unjoin_callback True s else s) (mb_pending b)
         (b\<lparr>mb_draining := False\<rparr>)
     else
       (if item \<in> set (mb_pending b) then
          (let b' = b\<lparr>mb_pending := remove1 item (mb_pending b)\<rparr> in
           do_drain_publications (if pi_callback item then unjoin_callback False b' else b'))
        else do_drain_publications b))"

section \<open>Subscription management\<close>

definition subscribe_items :: "string list \<Rightarrow> mqtt_binding \<Rightarrow> mqtt_binding" where
  "subscribe_items filters b =
    (if mb_client b = Some True then emit [OSubscribe filters] b else b)"

definition unsubscribe_items :: "string list \<Rightarrow> mqtt_binding \<Rightarrow> mqtt_binding" where
  "unsubscribe_items filters b =
    (if mb_client b = Some True then emit [OUnsubscribe filters] b else b)"

definition same_item :: "event_type \<Rightarrow> string \<Rightarrow> sub_item \<Rightarrow> bool" where
  "same_item t f i = (si_type i = t \<and> si_filter i = f)"

definition has_item :: "event_type \<Rightarrow> string \<Rightarrow> sub_item list \<Rightarrow> bool" where
  "has_item t f is = list_ex (same_item t f) is"

text \<open>\<open>findIndex\<close> and assignment at the index found, or \<open>push\<close>.\<close>

fun put_item :: "sub_item \<Rightarrow> sub_item list \<Rightarrow> sub_item list" where
  "put_item item [] = [item]"
| "put_item item (i # is) =
    (if same_item (si_type item) (si_filter item) i then item # is else i # put_item item is)"

text \<open>\<open>findIndex\<close> and \<open>splice(index, 1)\<close>.\<close>

fun drop_item :: "event_type \<Rightarrow> string \<Rightarrow> sub_item list \<Rightarrow> sub_item list" where
  "drop_item t f [] = []"
| "drop_item t f (i # is) = (if same_item t f i then is else i # drop_item t f is)"

definition add_subscription_item :: "event_like \<Rightarrow> mqtt_binding \<Rightarrow> mqtt_binding" where
  "add_subscription_item e b =
    (let topicFilter = template (get_topic_filter_for b e);
         item = \<lparr>si_type = el_type e, si_filter = topicFilter, si_decode = \<not> el_raw e\<rparr>
     in subscribe_items [topicFilter] (b\<lparr>mb_issued := put_item item (mb_issued b)\<rparr>))"

definition other_event_type :: "event_type \<Rightarrow> event_type option" where
  "other_event_type t =
    (if t = Raw then Some IoValue else if t = IoValue then Some Raw else None)"

definition remove_subscription_item :: "event_like \<Rightarrow> mqtt_binding \<Rightarrow> mqtt_binding" where
  "remove_subscription_item e b =
    (let topicFilter = template (get_topic_filter_for b e) in
     if \<not> has_item (el_type e) topicFilter (mb_issued b) then b
     else
       (let b' = b\<lparr>mb_issued := drop_item (el_type e) topicFilter (mb_issued b)\<rparr> in
        if (case other_event_type (el_type e) of
              None \<Rightarrow> False
            | Some t \<Rightarrow> has_item t topicFilter (mb_issued b'))
        then b' else unsubscribe_items [topicFilter] b'))"

section \<open>Handlers of the binding protocol\<close>

definition on_join :: "join_options \<Rightarrow> mqtt_binding \<Rightarrow> mqtt_binding" where
  "on_join joinOptions b =
    (let b' = b\<lparr>mb_join := Some joinOptions\<rparr>;
         will = (case encode_payload (jo_unjoin_event joinOptions) of
                   Inl e \<Rightarrow> None
                 | Inr p \<Rightarrow> Some (template (get_topic_for b' (jo_unjoin_event joinOptions)), p))
     in emit [OConnect (broker_client_id (jo_agent joinOptions)) will]
          (b'\<lparr>mb_client := Some False, mb_registered := True\<rparr>))"

definition on_unjoin :: "mqtt_binding \<Rightarrow> mqtt_binding" where
  "on_unjoin b =
    (if mb_client b = None then emit [OUnjoinDone] (reset b)
     else
       (case mb_join b of
          Some jo \<Rightarrow> drain_publications (add_publication_item (jo_unjoin_event jo) True False False b)
        | None \<Rightarrow> b))"

definition end_callback :: "mqtt_binding \<Rightarrow> mqtt_binding" where
  "end_callback b = emit [OUnjoinDone] (reset (b\<lparr>mb_registered := False\<rparr>))"

definition raw_topic_ok :: "event_like \<Rightarrow> bool \<Rightarrow> bool" where
  "raw_topic_ok e forSubscription =
    (let f = (case el_filter e of None \<Rightarrow> [] | Some x \<Rightarrow> x)
     in \<not> (is_coaty_topic_like f \<or> \<not> is_valid_topic f forSubscription))"

definition io_route_ok :: "event_like \<Rightarrow> bool" where
  "io_route_ok e =
    (let f = (case el_filter e of None \<Rightarrow> [] | Some x \<Rightarrow> x)
     in \<not> ((el_external e \<and> is_coaty_topic_like f) \<or> \<not> is_valid_topic f False))"

definition on_publish :: "event_like \<Rightarrow> mqtt_binding \<Rightarrow> mqtt_binding" where
  "on_publish e b =
    (if el_type e = Raw \<and> \<not> raw_topic_ok e False then b
     else drain_publications (add_publication_item e False False False b))"

definition on_subscribe :: "event_like \<Rightarrow> mqtt_binding \<Rightarrow> mqtt_binding" where
  "on_subscribe e b =
    (if el_type e = Raw \<and> \<not> raw_topic_ok e True then b
     else if el_type e = IoValue \<and> \<not> io_route_ok e then b
     else add_subscription_item e b)"

definition on_unsubscribe :: "event_like \<Rightarrow> mqtt_binding \<Rightarrow> mqtt_binding" where
  "on_unsubscribe e b = remove_subscription_item e b"

section \<open>The base class\<close>

definition new_binding :: "string option \<Rightarrow> bool \<Rightarrow> mqtt_binding" where
  "new_binding namespace cross =
    reset \<lparr>mb_namespace = (case namespace of None \<Rightarrow> ''-'' | Some n \<Rightarrow> n), mb_cross = cross,
      mb_state = Initialized, mb_join = None, mb_client = None, mb_registered = False,
      mb_draining = False, mb_pending = [], mb_inflight = [], mb_next = 0, mb_issued = [],
      mb_out = []\<rparr>"

definition join :: "join_options \<Rightarrow> mqtt_binding \<Rightarrow> mqtt_binding" where
  "join joinOptions b =
    (if mb_state b = Joined then b
     else if mb_state b = Unjoined then b
     else on_join joinOptions (b\<lparr>mb_state := Joined\<rparr>))"

definition unjoin :: "mqtt_binding \<Rightarrow> mqtt_binding" where
  "unjoin b = (if mb_state b = Unjoined then b else on_unjoin (b\<lparr>mb_state := Unjoined\<rparr>))"

definition publish :: "event_like \<Rightarrow> mqtt_binding \<Rightarrow> mqtt_binding" where
  "publish e b = (if mb_state b = Unjoined then b else on_publish e b)"

definition subscribe :: "event_like \<Rightarrow> mqtt_binding \<Rightarrow> mqtt_binding" where
  "subscribe e b = (if mb_state b = Unjoined then b else on_subscribe e b)"

definition unsubscribe :: "event_like \<Rightarrow> mqtt_binding \<Rightarrow> mqtt_binding" where
  "unsubscribe e b = (if mb_state b = Unjoined then b else on_unsubscribe e b)"

section \<open>Client events\<close>

definition add_join_event :: "event_like \<Rightarrow> mqtt_binding \<Rightarrow> mqtt_binding" where
  "add_join_event e b = add_publication_item e False True True b"

definition ev_connect :: "mqtt_binding \<Rightarrow> mqtt_binding" where
  "ev_connect b0 =
    (let b = emit [OConnack, OState Online] (b0\<lparr>mb_client := Some True\<rparr>);
         b1 = subscribe_items (map si_filter (mb_issued b)) b;
         b2 = fold add_join_event
                (rev (case mb_join b1 of None \<Rightarrow> [] | Some jo \<Rightarrow> jo_join_events jo)) b1
     in drain_publications (b2\<lparr>mb_draining := False\<rparr>))"

definition ev_close :: "mqtt_binding \<Rightarrow> mqtt_binding" where
  "ev_close b = emit [OState Offline] (b\<lparr>mb_client := Some False, mb_draining := True\<rparr>)"

definition ev_offline :: "mqtt_binding \<Rightarrow> mqtt_binding" where
  "ev_offline b = emit [OState Offline] (b\<lparr>mb_client := Some False, mb_draining := True\<rparr>)"

definition ev_error :: "mqtt_binding \<Rightarrow> mqtt_binding" where
  "ev_error b = emit [OState Offline] b"

definition inbound :: "event_type \<Rightarrow> string option \<Rightarrow> string option \<Rightarrow> string option \<Rightarrow> ev_data \<Rightarrow> event_like"
  where
  "inbound t f src corr d =
    \<lparr>el_type = t, el_filter = f, el_source = src, el_corr = corr, el_data = d, el_raw = False,
     el_external = False, el_retain = False\<rparr>"

text \<open>The visit of the issued items for a Raw or IoValue message; a payload that does not decode
  ends the visit.\<close>

definition item_matches :: "string \<Rightarrow> sub_item \<Rightarrow> bool" where
  "item_matches topicName i =
    ((si_type i = Raw \<and> topic_matches topicName (si_filter i)) \<or>
     (si_type i = IoValue \<and> topicName = si_filter i))"

definition raw_payload :: "payload \<Rightarrow> ev_data" where
  "raw_payload p = (case p of PBytes s \<Rightarrow> RawData s | PJson v \<Rightarrow> JsonData v | PNone \<Rightarrow> NoData)"

fun dispatch_items ::
  "(string \<Rightarrow> js_error + jsv) \<Rightarrow> string \<Rightarrow> string option \<Rightarrow> payload \<Rightarrow> sub_item list \<Rightarrow> event_like list"
  where
  "dispatch_items json_parse topicName src payload [] = []"
| "dispatch_items json_parse topicName src payload (i # is) =
    (if item_matches topicName i then
       (if si_decode i then
          (case decode_payload json_parse payload of
             Inl e \<Rightarrow> []
           | Inr v \<Rightarrow>
               inbound (si_type i) (Some topicName) src (Some (si_filter i)) (JsonData v)
                 # dispatch_items json_parse topicName src payload is)
        else
          inbound (si_type i) (Some topicName) src (Some (si_filter i)) (raw_payload payload)
            # dispatch_items json_parse topicName src payload is)
     else dispatch_items json_parse topicName src payload is)"

definition dispatch_message ::
  "(string \<Rightarrow> js_error + jsv) \<Rightarrow> string \<Rightarrow> payload \<Rightarrow> mqtt_binding \<Rightarrow> event_like list" where
  "dispatch_message json_parse topicName payload b =
    (case create_by_name topicName of
       Inl e \<Rightarrow> []
     | Inr None \<Rightarrow> dispatch_items json_parse topicName None payload (mb_issued b)
     | Inr (Some topic) \<Rightarrow>
         (if mt_type topic = Some IoValue then
            dispatch_items json_parse topicName (mt_source topic) payload (mb_issued b)
          else
            (case decode_payload json_parse payload of
               Inl e \<Rightarrow> []
             | Inr v \<Rightarrow>
                 (case mt_type topic of
                    None \<Rightarrow> []
                  | Some t \<Rightarrow> [inbound t (mt_filter topic) (mt_source topic) (mt_corr topic) (JsonData v)]))))"

definition ev_message ::
  "(string \<Rightarrow> js_error + jsv) \<Rightarrow> string \<Rightarrow> payload \<Rightarrow> mqtt_binding \<Rightarrow> mqtt_binding" where
  "ev_message json_parse topicName payload b =
    emit (map OInbound (dispatch_message json_parse topicName payload b)) b"

section \<open>Steps\<close>

text \<open>What may happen to a binding: a call by the communication manager, an event of the client
  while its handlers are registered, the completion of a publication in flight, and the completion
  of \<open>client.end\<close>. The manager subscribes to events that have a topic, and to Raw and IoValue
  events.\<close>

datatype bind_in =
    CJoin join_options
  | CUnjoin
  | CPublish event_like
  | CSubscribe event_like
  | CUnsubscribe event_like
  | EConnect
  | EClose
  | EOffline
  | EError
  | EMessage string payload
  | EPublished pub_item bool
  | EEnded

definition subscribable :: "event_like \<Rightarrow> bool" where
  "subscribable e = (has_level (el_type e) \<or> el_type e = Raw)"

inductive bind_step ::
  "(string \<Rightarrow> js_error + jsv) \<Rightarrow> mqtt_binding \<Rightarrow> bind_in \<Rightarrow> mqtt_binding \<Rightarrow> bool"
  for json_parse where
  step_join: "bind_step json_parse b (CJoin jo) (join jo b)"
| step_unjoin: "bind_step json_parse b CUnjoin (unjoin b)"
| step_publish: "bind_step json_parse b (CPublish e) (publish e b)"
| step_subscribe: "subscribable e \<Longrightarrow> bind_step json_parse b (CSubscribe e) (subscribe e b)"
| step_unsubscribe: "subscribable e \<Longrightarrow> bind_step json_parse b (CUnsubscribe e) (unsubscribe e b)"
| step_connect: "mb_registered b \<Longrightarrow> bind_step json_parse b EConnect (ev_connect b)"
| step_close: "mb_registered b \<Longrightarrow> bind_step json_parse b EClose (ev_close b)"
| step_offline: "mb_registered b \<Longrightarrow> bind_step json_parse b EOffline (ev_offline b)"
| step_error: "mb_registered b \<Longrightarrow> bind_step json_parse b EError (ev_error b)"
| step_message: "mb_registered b \<Longrightarrow>
    bind_step json_parse b (EMessage topic payload) (ev_message json_parse topic payload b)"
| step_published: "item \<in> set (mb_inflight b) \<Longrightarrow>
    bind_step json_parse b (EPublished item err) (publish_callback item err b)"
| step_ended: "mb_registered b \<Longrightarrow> OEnd failed \<in> set (mb_out b) \<Longrightarrow>
    bind_step json_parse b EEnded (end_callback b)"

inductive bind_reach :: "(string \<Rightarrow> js_error + jsv) \<Rightarrow> mqtt_binding \<Rightarrow> bool" for json_parse where
  reach_new: "bind_reach json_parse (new_binding namespace cross)"
| reach_step: "bind_reach json_parse b \<Longrightarrow> bind_step json_parse b l b' \<Longrightarrow> bind_reach json_parse b'"

section \<open>What the operations change\<close>

lemma emit_sel [simp]:
  "mb_namespace (emit os b) = mb_namespace b" "mb_cross (emit os b) = mb_cross b"
  "mb_state (emit os b) = mb_state b" "mb_join (emit os b) = mb_join b"
  "mb_client (emit os b) = mb_client b" "mb_registered (emit os b) = mb_registered b"
  "mb_draining (emit os b) = mb_draining b" "mb_pending (emit os b) = mb_pending b"
  "mb_inflight (emit os b) = mb_inflight b" "mb_next (emit os b) = mb_next b"
  "mb_issued (emit os b) = mb_issued b" "mb_out (emit os b) = mb_out b @ os"
  by (simp_all add: emit_def)

lemma reset_sel [simp]:
  "mb_namespace (reset b) = mb_namespace b" "mb_cross (reset b) = mb_cross b"
  "mb_state (reset b) = mb_state b" "mb_join (reset b) = None"
  "mb_client (reset b) = None" "mb_registered (reset b) = mb_registered b"
  "mb_draining (reset b) = False" "mb_pending (reset b) = []" "mb_issued (reset b) = []"
  "mb_out (reset b) = mb_out b @ [OState Offline]"
  "mb_inflight (reset b) = mb_inflight b" "mb_next (reset b) = mb_next b"
  by (simp_all add: reset_def)

lemma unjoin_callback_sel [simp]:
  "mb_namespace (unjoin_callback x b) = mb_namespace b" "mb_cross (unjoin_callback x b) = mb_cross b"
  "mb_state (unjoin_callback x b) = mb_state b" "mb_join (unjoin_callback x b) = mb_join b"
  "mb_client (unjoin_callback x b) = mb_client b"
  "mb_registered (unjoin_callback x b) = mb_registered b"
  "mb_issued (unjoin_callback x b) = mb_issued b" "mb_pending (unjoin_callback x b) = mb_pending b"
  "mb_out (unjoin_callback x b) = mb_out b @ [OEnd x]"
  by (simp_all add: unjoin_callback_def)

text \<open>The subscriptions that the broker holds for the client: a clean session on every connection,
  then what the client asked for.\<close>

fun broker_step :: "bind_out \<Rightarrow> string set \<Rightarrow> string set" where
  "broker_step OConnack subs = {}"
| "broker_step (OSubscribe fs) subs = subs \<union> set fs"
| "broker_step (OUnsubscribe fs) subs = subs - set fs"
| "broker_step _ subs = subs"

definition broker_subs :: "bind_out list \<Rightarrow> string set" where
  "broker_subs os = fold broker_step os {}"

lemma broker_subs_append [simp]: "broker_subs (xs @ ys) = fold broker_step ys (broker_subs xs)"
  by (simp add: broker_subs_def)

text \<open>Operations of publication management leave the subscription state alone.\<close>

definition same_subs :: "mqtt_binding \<Rightarrow> mqtt_binding \<Rightarrow> bool" where
  "same_subs b b' =
    (mb_namespace b' = mb_namespace b \<and> mb_cross b' = mb_cross b \<and> mb_state b' = mb_state b \<and>
     mb_join b' = mb_join b \<and> mb_client b' = mb_client b \<and> mb_registered b' = mb_registered b \<and>
     mb_issued b' = mb_issued b \<and> broker_subs (mb_out b') = broker_subs (mb_out b))"

lemma same_subs_refl [simp]: "same_subs b b"
  by (simp add: same_subs_def)

lemma same_subs_trans [trans]: "same_subs a b \<Longrightarrow> same_subs b c \<Longrightarrow> same_subs a c"
  by (simp add: same_subs_def)

lemma same_subs_upd [simp]:
  "same_subs b (b\<lparr>mb_draining := d\<rparr>)" "same_subs b (b\<lparr>mb_pending := p\<rparr>)"
  "same_subs b (b\<lparr>mb_inflight := p\<rparr>)" "same_subs b (b\<lparr>mb_next := n\<rparr>)"
  "same_subs b (unjoin_callback x b)" "same_subs b (emit [OPublish i] b)"
  by (simp_all add: same_subs_def)

lemma same_subs_drain: "same_subs b (drain_publications b)" "same_subs b (do_drain_publications b)"
  by (simp_all add: drain_publications_def do_drain_publications_def same_subs_def Let_def)

lemma same_subs_add_publication: "same_subs b (add_publication_item e cb first once b)"
  by (auto simp: add_publication_item_def Let_def same_subs_def split: sum.splits)

lemma same_subs_callbacks:
  "same_subs b (fold (\<lambda>i s. if pi_callback i then unjoin_callback True s else s) is b)"
proof (induction "is" arbitrary: b)
  case (Cons i "is")
  have "same_subs b (if pi_callback i then unjoin_callback True b else b)" by simp
  also note Cons.IH
  finally show ?case by simp
qed simp

lemma same_subs_publish_callback: "same_subs b (publish_callback item err b)"
proof (cases err)
  case True
  have "same_subs b (b\<lparr>mb_inflight := remove1 item (mb_inflight b), mb_draining := False\<rparr>)"
    by (simp add: same_subs_def)
  also note same_subs_callbacks
  finally show ?thesis using True by (simp add: publish_callback_def Let_def)
next
  case False
  then show ?thesis
    by (auto simp: publish_callback_def Let_def do_drain_publications_def same_subs_def)
qed

lemma same_subs_add_join_events: "same_subs b (fold add_join_event es b)"
proof (induction es arbitrary: b)
  case (Cons e es)
  have "same_subs b (add_join_event e b)"
    by (simp add: add_join_event_def same_subs_add_publication)
  also note Cons.IH
  finally show ?case by simp
qed simp

lemma same_subs_publish: "same_subs b (publish e b)"
  by (auto simp: publish_def on_publish_def intro: same_subs_trans same_subs_drain
      same_subs_add_publication)

section \<open>Issued subscriptions\<close>

abbreviation item_key :: "sub_item \<Rightarrow> event_type \<times> string" where
  "item_key i \<equiv> (si_type i, si_filter i)"

lemma keys_put_item: "item_key ` set (put_item item is) = insert (item_key item) (item_key ` set is)"
  by (induction "is") (auto simp: same_item_def)

lemma set_put_item: "set (put_item item is) \<subseteq> insert item (set is)"
  by (induction "is") auto

lemma distinct_put_item:
  "distinct (map item_key is) \<Longrightarrow> distinct (map item_key (put_item item is))"
proof (induction "is")
  case (Cons i "is")
  then show ?case
    using keys_put_item [of item "is"] by (auto simp: same_item_def)
qed simp

lemma set_drop_item: "set (drop_item t f is) \<subseteq> set is"
  by (induction "is") auto

lemma distinct_drop_item:
  "distinct (map item_key is) \<Longrightarrow>
    distinct (map item_key (drop_item t f is)) \<and>
    set (drop_item t f is) = {i \<in> set is. \<not> same_item t f i}"
proof (induction "is")
  case (Cons i "is")
  then show ?case
    by (auto simp: same_item_def image_iff)
qed simp

text \<open>An issued item is a Raw filter that no topic of the framework starts with, an IO route
  without wildcards, or the filter of an event type.\<close>

abbreviation filter_namespace :: "mqtt_binding \<Rightarrow> string option" where
  "filter_namespace b \<equiv> (if mb_cross b then None else Some (mb_namespace b))"

definition item_ok :: "mqtt_binding \<Rightarrow> sub_item \<Rightarrow> bool" where
  "item_ok b i =
    (if si_type i = Raw then \<not> is_coaty_topic_like (si_filter i)
     else if si_type i = IoValue then CHR ''+'' \<notin> set (si_filter i)
     else has_level (si_type i) \<and>
       (\<exists>f c. si_filter i = get_topic_filter api_version (filter_namespace b) (si_type i) f c))"

text \<open>The namespace level of a filter.\<close>

definition filter_ns :: "string option \<Rightarrow> string" where
  "filter_ns n = (case n of None \<Rightarrow> ''+'' | Some n \<Rightarrow> (if n = [] then ''+'' else n))"

lemma get_topic_filter_shape:
  assumes "has_level t"
  obtains p rest where
    "get_topic_filter v n t f c = ''coaty/'' @ show_nat v @ ''/'' @ filter_ns n @ ''/'' @ p @ rest"
    "get_event_topic_level_prefix t = Some p" "length p = 3" "CHR ''+'' \<in> set rest"
proof -
  obtain p where p: "get_event_topic_level_prefix t = Some p" "length p = 3"
    using level_prefix [OF assms] by metis
  define rest where "rest = (case f of None \<Rightarrow> [] | Some f \<Rightarrow> (if f = [] then [] else '':'' @ f)) @ ''/+'' @
      (if is_one_way_event t then []
       else (case c of None \<Rightarrow> ''/+'' | Some c \<Rightarrow> (if c = [] then ''/+'' else ''/'' @ c)))"
  have "get_topic_filter v n t f c = ''coaty/'' @ show_nat v @ ''/'' @ filter_ns n @ ''/'' @ p @ rest"
    using p(1) by (simp add: get_topic_filter_def protocol_name_def event_level_def Let_def
        filter_ns_def rest_def)
  moreover have "CHR ''+'' \<in> set rest" by (simp add: rest_def)
  ultimately show ?thesis using p that by blast
qed

lemma get_topic_filter_type:
  assumes "has_level t" "has_level u"
    and eq: "get_topic_filter v n t f c = get_topic_filter v n u f' c'"
  shows "t = u"
proof -
  obtain p rest where 1:
    "get_topic_filter v n t f c = ''coaty/'' @ show_nat v @ ''/'' @ filter_ns n @ ''/'' @ p @ rest"
    "get_event_topic_level_prefix t = Some p" "length p = 3"
    using get_topic_filter_shape [OF assms(1)] by blast
  obtain p' rest' where 2:
    "get_topic_filter v n u f' c' = ''coaty/'' @ show_nat v @ ''/'' @ filter_ns n @ ''/'' @ p' @ rest'"
    "get_event_topic_level_prefix u = Some p'" "length p' = 3"
    using get_topic_filter_shape [OF assms(2)] by blast
  have "p @ rest = p' @ rest'" using eq unfolding 1(1) 2(1) by simp
  then have "p = p'" using 1(3) 2(3) by simp
  then show ?thesis using level_prefix_inj [OF assms(1,2)] 1(2) 2(2) by simp
qed

lemma event_item_shape:
  assumes "item_ok b k" "si_type k \<noteq> Raw" "si_type k \<noteq> IoValue"
  shows "is_coaty_topic_like (si_filter k)" "CHR ''+'' \<in> set (si_filter k)"
proof -
  obtain f c where k: "has_level (si_type k)"
    "si_filter k = get_topic_filter api_version (filter_namespace b) (si_type k) f c"
    using assms by (auto simp: item_ok_def)
  obtain p rest where "si_filter k = ''coaty/'' @ show_nat api_version @ ''/'' @
      filter_ns (filter_namespace b) @ ''/'' @ p @ rest" "CHR ''+'' \<in> set rest"
    using get_topic_filter_shape [OF k(1), of api_version "filter_namespace b" f c]
    unfolding k(2) by metis
  then show "is_coaty_topic_like (si_filter k)" "CHR ''+'' \<in> set (si_filter k)"
    by (simp_all add: is_coaty_topic_like_def protocol_name_def starts_with_iff)
qed

lemma same_filter_types:
  assumes i: "item_ok b i" and j: "item_ok b j"
    and eq: "si_filter i = si_filter j" and ne: "si_type i \<noteq> si_type j"
  shows "other_event_type (si_type i) = Some (si_type j)"
proof -
  have plain: "si_type k = Raw \<or> si_type k = IoValue"
    if k: "item_ok b k" and l: "item_ok b l" and e: "si_filter k = si_filter l"
      and n: "si_type k \<noteq> si_type l" for k l
  proof (rule ccontr)
    assume "\<not> ?thesis"
    then have k': "si_type k \<noteq> Raw" "si_type k \<noteq> IoValue" by simp_all
    note shape = event_item_shape [OF k k']
    have l': "si_type l \<noteq> Raw" "si_type l \<noteq> IoValue"
      using l e shape by (auto simp: item_ok_def)
    obtain f c where fk: "si_filter k = get_topic_filter api_version (filter_namespace b) (si_type k) f c"
      using k k' by (auto simp: item_ok_def)
    obtain f' c' where fl: "si_filter l = get_topic_filter api_version (filter_namespace b) (si_type l) f' c'"
      using l l' by (auto simp: item_ok_def)
    have "get_topic_filter api_version (filter_namespace b) (si_type k) f c =
        get_topic_filter api_version (filter_namespace b) (si_type l) f' c'"
      using fk fl e by simp
    then show False
      using k l k' l' n get_topic_filter_type [of "si_type k" "si_type l"]
      by (simp add: item_ok_def)
  qed
  show ?thesis
    using plain [OF i j eq ne] plain [OF j i] eq ne by (auto simp: other_event_type_def)
qed

section \<open>The subscription invariant\<close>

definition subs_inv :: "mqtt_binding \<Rightarrow> bool" where
  "subs_inv b =
    ((mb_registered b \<longrightarrow> mb_client b \<noteq> None) \<and>
     (mb_state b = Initialized \<longrightarrow> mb_client b = None) \<and>
     distinct (map item_key (mb_issued b)) \<and>
     (\<forall>i \<in> set (mb_issued b). item_ok b i) \<and>
     (mb_client b = Some True \<longrightarrow> broker_subs (mb_out b) = set (map si_filter (mb_issued b))))"

lemma item_ok_cong:
  "mb_namespace b' = mb_namespace b \<Longrightarrow> mb_cross b' = mb_cross b \<Longrightarrow> item_ok b' i = item_ok b i"
  by (simp add: item_ok_def)

lemma subs_inv_same: "subs_inv b \<Longrightarrow> same_subs b b' \<Longrightarrow> subs_inv b'"
  by (auto simp: subs_inv_def same_subs_def item_ok_def)

lemma subs_inv_reset: "mb_registered b \<longrightarrow> mb_client b \<noteq> None \<Longrightarrow> \<not> mb_registered b \<Longrightarrow> subs_inv (reset b)"
  by (simp add: subs_inv_def)

lemma subs_inv_new: "subs_inv (new_binding namespace cross)"
  by (simp add: new_binding_def subs_inv_def)

lemma subs_inv_join: "subs_inv b \<Longrightarrow> subs_inv (join jo b)"
  by (auto simp: join_def on_join_def subs_inv_def Let_def item_ok_def
      split: binding_state.splits)

lemma subs_inv_unjoin:
  assumes "subs_inv b"
  shows "subs_inv (unjoin b)"
proof -
  let ?b = "b\<lparr>mb_state := Unjoined\<rparr>"
  have b: "subs_inv ?b"
    using assms by (auto simp: subs_inv_def item_ok_def)
  have "subs_inv (on_unjoin ?b)"
  proof (cases "mb_client b")
    case None
    then show ?thesis using assms by (auto simp: on_unjoin_def subs_inv_def)
  next
    case (Some c)
    have "same_subs ?b (on_unjoin ?b)"
      using Some by (auto simp: on_unjoin_def split: option.splits
          intro: same_subs_trans same_subs_drain same_subs_add_publication)
    then show ?thesis by (rule subs_inv_same [OF b])
  qed
  then show ?thesis using assms by (simp add: unjoin_def)
qed

lemma io_route_no_wild:
  assumes "io_route_ok e"
  shows "CHR ''+'' \<notin> set (template (el_filter e))"
proof
  assume in_filter: "CHR ''+'' \<in> set (template (el_filter e))"
  then obtain f where f: "el_filter e = Some f" "CHR ''+'' \<in> set f"
    by (cases "el_filter e") auto
  have "0x2B \<in> set (code_units f)"
    using f(2) by (force simp: code_units_def)
  then have "\<not> is_valid_topic f False"
    by (auto simp: is_valid_topic_def is_valid_topic_units_def list_ex_iff)
  then show False using assms f(1) by (simp add: io_route_ok_def)
qed

lemma raw_topic_not_coaty:
  "raw_topic_ok e s \<Longrightarrow> el_filter e \<noteq> None \<and> \<not> is_coaty_topic_like (template (el_filter e))"
  by (cases "el_filter e")
    (auto simp: raw_topic_ok_def is_valid_topic_def is_valid_topic_units_def code_units_def)

lemma new_item_ok:
  assumes "subscribable e" "el_type e = Raw \<longrightarrow> raw_topic_ok e True"
    "el_type e = IoValue \<longrightarrow> io_route_ok e"
  shows "item_ok b \<lparr>si_type = el_type e, si_filter = template (get_topic_filter_for b e),
    si_decode = d\<rparr>"
  using assms raw_topic_not_coaty io_route_no_wild
  by (auto simp: item_ok_def get_topic_filter_for_def subscribable_def)

lemma set_subscribe_items:
  "mb_issued (subscribe_items fs b) = mb_issued b" "mb_client (subscribe_items fs b) = mb_client b"
  "mb_state (subscribe_items fs b) = mb_state b" "mb_namespace (subscribe_items fs b) = mb_namespace b"
  "mb_cross (subscribe_items fs b) = mb_cross b" "mb_registered (subscribe_items fs b) = mb_registered b"
  "mb_issued (unsubscribe_items fs b) = mb_issued b"
  "mb_client (unsubscribe_items fs b) = mb_client b" "mb_state (unsubscribe_items fs b) = mb_state b"
  "mb_namespace (unsubscribe_items fs b) = mb_namespace b"
  "mb_cross (unsubscribe_items fs b) = mb_cross b"
  "mb_registered (unsubscribe_items fs b) = mb_registered b"
  by (simp_all add: subscribe_items_def unsubscribe_items_def)

lemma filters_put_item:
  "si_filter ` set (put_item item is) = insert (si_filter item) (si_filter ` set is)"
proof -
  have "si_filter ` S = snd ` item_key ` S" for S by (simp add: image_image)
  then show ?thesis using keys_put_item [of item "is"] by simp
qed

lemma subs_inv_add:
  assumes inv: "subs_inv b" and "subscribable e" "el_type e = Raw \<longrightarrow> raw_topic_ok e True"
    "el_type e = IoValue \<longrightarrow> io_route_ok e"
  shows "subs_inv (add_subscription_item e b)"
proof -
  let ?f = "template (get_topic_filter_for b e)"
  let ?i = "\<lparr>si_type = el_type e, si_filter = ?f, si_decode = \<not> el_raw e\<rparr>"
  let ?b = "add_subscription_item e b"
  have issued: "mb_issued ?b = put_item ?i (mb_issued b)"
    by (simp add: add_subscription_item_def Let_def set_subscribe_items)
  have same: "mb_client ?b = mb_client b" "mb_state ?b = mb_state b"
    "mb_namespace ?b = mb_namespace b" "mb_cross ?b = mb_cross b" "mb_registered ?b = mb_registered b"
    by (simp_all add: add_subscription_item_def Let_def set_subscribe_items)
  have "item_ok b ?i" using assms(2-4) by (rule new_item_ok)
  then have ok: "\<forall>i \<in> set (mb_issued ?b). item_ok ?b i"
    using inv set_put_item [of ?i "mb_issued b"] item_ok_cong [OF same(3,4)]
    unfolding issued subs_inv_def by blast
  have d: "distinct (map item_key (mb_issued ?b))"
    using inv distinct_put_item unfolding issued subs_inv_def by blast
  have broker: "broker_subs (mb_out ?b) = si_filter ` set (mb_issued ?b)" if c: "mb_client b = Some True"
    using inv c unfolding issued filters_put_item
    by (simp add: add_subscription_item_def Let_def subscribe_items_def subs_inv_def)
  show ?thesis
    using inv ok d broker same unfolding subs_inv_def by simp
qed

lemma subs_inv_subscribe: "subs_inv b \<Longrightarrow> subscribable e \<Longrightarrow> subs_inv (subscribe e b)"
  by (auto simp: subscribe_def on_subscribe_def intro!: subs_inv_add)

lemma subs_inv_remove:
  assumes inv: "subs_inv b"
  shows "subs_inv (remove_subscription_item e b)"
proof -
  let ?f = "template (get_topic_filter_for b e)"
  let ?t = "el_type e"
  let ?is = "drop_item ?t ?f (mb_issued b)"
  let ?b = "b\<lparr>mb_issued := ?is\<rparr>"
  have dist: "distinct (map item_key ?is)" and is_set: "set ?is = {i \<in> set (mb_issued b). \<not> same_item ?t ?f i}"
    using inv distinct_drop_item unfolding subs_inv_def by blast+
  have ok: "\<forall>i \<in> set ?is. item_ok b i" using inv is_set unfolding subs_inv_def by blast
  show ?thesis
  proof (cases "has_item ?t ?f (mb_issued b)")
    case False
    then show ?thesis using inv by (simp add: remove_subscription_item_def Let_def)
  next
    case True
    then obtain i where i: "i \<in> set (mb_issued b)" "same_item ?t ?f i"
      by (auto simp: has_item_def list_ex_iff)
    define other where "other = (case other_event_type ?t of None \<Rightarrow> False
      | Some t \<Rightarrow> has_item t ?f ?is)"
    have other_iff: "other \<longleftrightarrow> ?f \<in> si_filter ` set ?is"
    proof
      assume "?f \<in> si_filter ` set ?is"
      then obtain j where j: "j \<in> set (mb_issued b)" "\<not> same_item ?t ?f j" "si_filter j = ?f" "j \<in> set ?is"
        using is_set by auto
      then have "other_event_type (si_type i) = Some (si_type j)"
        using inv i by (intro same_filter_types [of b]) (auto simp: subs_inv_def same_item_def)
      then show other using i j by (auto simp: other_def same_item_def has_item_def list_ex_iff)
    next
      assume other
      then show "?f \<in> si_filter ` set ?is"
        by (force simp: other_def same_item_def has_item_def list_ex_iff split: option.splits)
    qed
    have filters: "insert ?f (si_filter ` set ?is) = si_filter ` set (mb_issued b)"
      using i is_set by (force simp: same_item_def)
    have r: "remove_subscription_item e b = (if other then ?b else unsubscribe_items [?f] ?b)"
      using True by (simp add: remove_subscription_item_def Let_def other_def cong: option.case_cong)
    have broker: "broker_subs (mb_out (remove_subscription_item e b)) = si_filter ` set ?is"
      if c: "mb_client b = Some True"
    proof -
      have "broker_subs (mb_out b) = insert ?f (si_filter ` set ?is)"
        using inv filters c by (simp add: subs_inv_def)
      then show ?thesis
        using other_iff c unfolding r by (cases other) (simp_all add: unsubscribe_items_def insert_absorb)
    qed
    have sel: "mb_issued (remove_subscription_item e b) = ?is"
      "mb_client (remove_subscription_item e b) = mb_client b"
      "mb_state (remove_subscription_item e b) = mb_state b"
      "mb_registered (remove_subscription_item e b) = mb_registered b"
      "mb_namespace (remove_subscription_item e b) = mb_namespace b"
      "mb_cross (remove_subscription_item e b) = mb_cross b"
      unfolding r by (simp_all add: set_subscribe_items)
    show ?thesis
      using inv dist ok broker sel item_ok_cong [OF sel(5,6)] unfolding subs_inv_def by simp
  qed
qed

lemma subs_inv_connect:
  assumes inv: "subs_inv b" and reg: "mb_registered b"
  shows "subs_inv (ev_connect b)"
proof -
  let ?b0 = "emit [OConnack, OState Online] (b\<lparr>mb_client := Some True\<rparr>)"
  let ?b1 = "subscribe_items (map si_filter (mb_issued b)) ?b0"
  have joined: "mb_state b \<noteq> Initialized" using inv reg by (auto simp: subs_inv_def)
  have 1: "subs_inv ?b1"
    using inv joined by (auto simp: subs_inv_def subscribe_items_def item_ok_def)
  let ?es = "rev (case mb_join ?b1 of None \<Rightarrow> [] | Some jo \<Rightarrow> jo_join_events jo)"
  have "same_subs ?b1 (fold add_join_event ?es ?b1)" by (rule same_subs_add_join_events)
  also have "same_subs \<dots> ((fold add_join_event ?es ?b1)\<lparr>mb_draining := False\<rparr>)" by simp
  also note same_subs_drain(1)
  finally show ?thesis
    unfolding ev_connect_def Let_def using subs_inv_same [OF 1] by simp
qed

lemma fold_inbound [simp]: "fold broker_step (map OInbound es) subs = subs"
  by (induction es) simp_all

lemma subs_inv_events:
  assumes "subs_inv b" "mb_registered b"
  shows "subs_inv (ev_close b)" "subs_inv (ev_offline b)" "subs_inv (ev_error b)"
    "subs_inv (ev_message json_parse topic payload b)" "subs_inv (end_callback b)"
  using assms
  by (auto simp: ev_close_def ev_offline_def ev_error_def ev_message_def end_callback_def
      subs_inv_def item_ok_def)

lemma subs_inv_step: "bind_step json_parse b l b' \<Longrightarrow> subs_inv b \<Longrightarrow> subs_inv b'"
proof (induction rule: bind_step.induct)
  case (step_join b jo) then show ?case by (rule subs_inv_join)
next
  case (step_unjoin b) then show ?case by (rule subs_inv_unjoin)
next
  case (step_publish b e) then show ?case using same_subs_publish by (rule subs_inv_same)
next
  case (step_subscribe e b) then show ?case by (intro subs_inv_subscribe)
next
  case (step_unsubscribe e b)
  then show ?case by (simp add: unsubscribe_def on_unsubscribe_def subs_inv_remove)
next
  case (step_connect b) then show ?case by (intro subs_inv_connect)
next
  case (step_published item b err)
  from this(2) same_subs_publish_callback show ?case by (rule subs_inv_same)
qed (simp_all add: subs_inv_events)

lemma subs_inv_reach: "bind_reach json_parse b \<Longrightarrow> subs_inv b"
  by (induction rule: bind_reach.induct) (auto intro: subs_inv_new subs_inv_step)

text \<open>C7: whatever the manager calls and the client reports, in any order, a binding whose
  client is connected has at the broker exactly the subscriptions that its issued items name: none
  is missing after a reconnect, and none is left behind when one of two items on the same filter is
  removed.\<close>

theorem connected_subscriptions:
  assumes "bind_reach json_parse b" "mb_client b = Some True"
  shows "broker_subs (mb_out b) = set (map si_filter (mb_issued b)) \<and>
    distinct (map (\<lambda>i. (si_type i, si_filter i)) (mb_issued b))"
  using subs_inv_reach [OF assms(1)] assms(2) by (simp add: subs_inv_def)

text \<open>An agent that observes Advertise events and has connected.\<close>

definition sample_event :: "event_type \<Rightarrow> string option \<Rightarrow> jsv \<Rightarrow> event_like" where
  "sample_event t f v =
    \<lparr>el_type = t, el_filter = f, el_source = Some ''a1'', el_corr = None, el_data = JsonData v,
     el_raw = False, el_external = False, el_retain = False\<rparr>"

definition sample_join :: join_options where
  "sample_join = \<lparr>jo_agent = ''a1'', jo_join_events = [sample_event Advertise (Some ''I'') (JBool True)],
     jo_unjoin_event = sample_event Deadvertise None (JBool True)\<rparr>"

definition sample_binding :: mqtt_binding where
  "sample_binding =
    ev_connect (subscribe (sample_event Advertise (Some ''T'') JUndef)
      (join sample_join (new_binding (Some ''n'') False)))"

lemma sample_binding_reach: "bind_reach json_parse sample_binding"
  unfolding sample_binding_def
proof (intro reach_step [OF _ step_connect] reach_step [OF _ step_subscribe]
    reach_step [OF _ step_join] reach_new)
  show "mb_registered (subscribe (sample_event Advertise (Some ''T'') JUndef)
      (join sample_join (new_binding (Some ''n'') False)))"
    by (simp add: subscribe_def on_subscribe_def add_subscription_item_def Let_def
        set_subscribe_items join_def on_join_def new_binding_def sample_event_def)
qed (simp add: subscribable_def has_level_def sample_event_def)

lemma sample_binding_client: "mb_client sample_binding = Some True" "mb_issued sample_binding \<noteq> []"
  by code_simp+

theorem connected_subscriptions_witness:
  "broker_subs (mb_out sample_binding) = set (map si_filter (mb_issued sample_binding)) \<and>
   distinct (map (\<lambda>i. (si_type i, si_filter i)) (mb_issued sample_binding)) \<and>
   mb_issued sample_binding \<noteq> []"
  using connected_subscriptions [OF sample_binding_reach sample_binding_client(1)]
    sample_binding_client(2) by simp

end
