(* ===== verification/BindingQueue.thy ===== *)
theory BindingQueue
  imports MqttBinding
begin

text \<open>
  Deferred publications and inbound dispatch of the MQTT binding: the order and the loss-freedom of
  the pending queue, the events published first on a connection, and the round trip from the event
  that one binding publishes to the event that another one dispatches.
\<close>

section \<open>The pending queue\<close>

lemma pending_subscribe_items [simp]:
  "mb_pending (subscribe_items fs b) = mb_pending b" "mb_join (subscribe_items fs b) = mb_join b"
  "mb_pending (unsubscribe_items fs b) = mb_pending b"
  "mb_draining (subscribe_items fs b) = mb_draining b"
  by (simp_all add: subscribe_items_def unsubscribe_items_def)

lemma pending_drain [simp]:
  "mb_pending (do_drain_publications b) = mb_pending b"
  "mb_pending (drain_publications b) = mb_pending b"
  by (simp_all add: do_drain_publications_def drain_publications_def Let_def)

lemma pending_callbacks:
  "mb_pending (fold (\<lambda>i s. if pi_callback i then unjoin_callback True s else s) is b) = mb_pending b"
  by (induction "is" arbitrary: b) simp_all

lemma pending_add_last:
  "\<exists>post. mb_pending (add_publication_item e cb False once b) = mb_pending b @ post"
  by (auto simp: add_publication_item_def Let_def split: sum.splits)

lemma pending_add_join_event: "\<exists>pre. mb_pending (add_join_event e b) = pre @ mb_pending b"
  by (auto simp: add_join_event_def add_publication_item_def Let_def split: sum.splits)

lemma pending_add_join_events:
  "\<exists>pre. mb_pending (fold add_join_event es b) = pre @ mb_pending b"
proof (induction es arbitrary: b)
  case (Cons e es)
  obtain p where p: "mb_pending (add_join_event e b) = p @ mb_pending b"
    using pending_add_join_event by blast
  obtain q where "mb_pending (fold add_join_event es (add_join_event e b)) = q @ p @ mb_pending b"
    using Cons.IH [of "add_join_event e b"] p by auto
  then show ?case by (intro exI [of _ "q @ p"]) simp
qed simp

lemma pending_publish_callback:
  "mb_pending (publish_callback item err b) =
    (if err then mb_pending b else remove1 item (mb_pending b))"
  by (simp add: publish_callback_def Let_def pending_callbacks remove1_idem)

lemma pending_publish: "\<exists>post. mb_pending (publish e b) = mb_pending b @ post"
  using pending_add_last [of e False False b] by (simp add: publish_def on_publish_def)

lemma pending_connect: "\<exists>pre. mb_pending (ev_connect b) = pre @ mb_pending b"
proof -
  let ?b = "subscribe_items (map si_filter (mb_issued b))
    (emit [OConnack, OState Online] (b\<lparr>mb_client := Some True\<rparr>))"
  let ?es = "rev (case mb_join b of None \<Rightarrow> [] | Some jo \<Rightarrow> jo_join_events jo)"
  have "mb_pending (ev_connect b) = mb_pending (fold add_join_event ?es ?b)"
    by (simp add: ev_connect_def Let_def)
  with pending_add_join_events [of ?es ?b] show ?thesis by simp
qed

text \<open>What a step removes from the queue: a publication that succeeded. The whole queue is dropped when the
  client has ended, and by an unjoin without a client.\<close>

fun settled :: "bind_in \<Rightarrow> pub_item list \<Rightarrow> pub_item list" where
  "settled (EPublished item err) q = (if err then q else remove1 item q)"
| "settled l q = q"

definition drops_queue :: "bind_in \<Rightarrow> mqtt_binding \<Rightarrow> bool" where
  "drops_queue l b = (l = EEnded \<or> l = CUnjoin \<and> mb_state b \<noteq> Unjoined \<and> mb_client b = None)"

text \<open>What a publication of an event puts into the queue: topic, payload, retain flag, and whether it ends the
  client. Data that has no JSON text is not published.\<close>

type_synonym message = "string \<times> payload \<times> bool \<times> bool"

definition message :: "pub_item \<Rightarrow> message" where
  "message i = (pi_topic i, pi_payload i, pi_retain i, pi_callback i)"

definition messages_of :: "mqtt_binding \<Rightarrow> bool \<Rightarrow> event_like \<Rightarrow> message list" where
  "messages_of b ends e =
    (case encode_payload e of
       Inl err \<Rightarrow> []
     | Inr p \<Rightarrow> [(template (get_topic_for b e), p, el_retain e, ends)])"

definition enters_back :: "bind_in \<Rightarrow> mqtt_binding \<Rightarrow> message list" where
  "enters_back l b =
    (if mb_state b = Unjoined then []
     else case l of
       CPublish e \<Rightarrow> (if el_type e = Raw \<and> \<not> raw_topic_ok e False then [] else messages_of b False e)
     | CUnjoin \<Rightarrow>
         (case (mb_client b, mb_join b) of
            (Some c, Some jo) \<Rightarrow> messages_of b True (jo_unjoin_event jo)
          | _ \<Rightarrow> [])
     | _ \<Rightarrow> [])"

text \<open>Join messages whose topic is neither pending nor that of a later join message.\<close>

fun fresh_messages :: "message list \<Rightarrow> string set \<Rightarrow> message list" where
  "fresh_messages [] topics = []"
| "fresh_messages (m # ms) topics =
    (let rest = fresh_messages ms topics in if fst m \<in> topics \<union> fst ` set rest then rest else m # rest)"

definition join_messages :: "mqtt_binding \<Rightarrow> message list" where
  "join_messages b = concat (map (messages_of b False) (case mb_join b of None \<Rightarrow> [] | Some jo \<Rightarrow> jo_join_events jo))"

definition enters_front :: "bind_in \<Rightarrow> mqtt_binding \<Rightarrow> message list" where
  "enters_front l b =
    (if l = EConnect then fresh_messages (join_messages b) (pi_topic ` set (mb_pending b)) else [])"

lemma messages_of_namespace: "mb_namespace b' = mb_namespace b \<Longrightarrow> messages_of b' ends e = messages_of b ends e"
  by (simp add: messages_of_def get_topic_for_def split: sum.split)

lemma add_last_message:
  "\<exists>post. mb_pending (add_publication_item e ends False False b) = mb_pending b @ post \<and>
    map message post = messages_of b ends e"
  by (auto simp: add_publication_item_def messages_of_def message_def Let_def split: sum.splits)

lemma add_join_message:
  "\<exists>pre. mb_pending (add_join_event e b) = pre @ mb_pending b \<and>
    map message pre = fresh_messages (messages_of b False e) (pi_topic ` set (mb_pending b)) \<and>
    mb_namespace (add_join_event e b) = mb_namespace b"
  by (auto simp: add_join_event_def add_publication_item_def messages_of_def message_def Let_def image_iff
      split: sum.splits)

lemma fresh_messages_append:
  "fresh_messages (ms @ ms') topics =
    fresh_messages ms (topics \<union> fst ` set (fresh_messages ms' topics)) @ fresh_messages ms' topics"
  by (induction ms) (auto simp: Let_def)

lemma add_join_messages:
  "\<exists>pre. mb_pending (fold add_join_event (rev es) b) = pre @ mb_pending b \<and>
    map message pre = fresh_messages (concat (map (messages_of b False) es)) (pi_topic ` set (mb_pending b)) \<and>
    mb_namespace (fold add_join_event (rev es) b) = mb_namespace b"
proof (induction es)
  case (Cons e es)
  let ?b = "fold add_join_event (rev es) b"
  obtain q where q: "mb_pending ?b = q @ mb_pending b"
    "map message q = fresh_messages (concat (map (messages_of b False) es)) (pi_topic ` set (mb_pending b))"
    "mb_namespace ?b = mb_namespace b" using Cons.IH by blast
  obtain p where p: "mb_pending (add_join_event e ?b) = p @ mb_pending ?b"
    "map message p = fresh_messages (messages_of ?b False e) (pi_topic ` set (mb_pending ?b))"
    "mb_namespace (add_join_event e ?b) = mb_namespace ?b" using add_join_message by blast
  have "fst ` set (map message q) = pi_topic ` set q" by (auto simp: message_def image_iff)
  then have "pi_topic ` set (mb_pending ?b) = pi_topic ` set (mb_pending b) \<union> fst ` set (map message q)"
    by (auto simp: q(1))
  then have "map message (p @ q) =
      fresh_messages (messages_of b False e @ concat (map (messages_of b False) es)) (pi_topic ` set (mb_pending b))"
    using p(2) q(2) messages_of_namespace [OF q(3)] by (simp add: fresh_messages_append)
  then show ?case using p(1,3) q(1,3) by (intro exI [of _ "p @ q"]) simp
qed simp

lemma connect_messages:
  "\<exists>pre. mb_pending (ev_connect b) = pre @ mb_pending b \<and> map message pre = enters_front EConnect b"
proof -
  let ?b = "subscribe_items (map si_filter (mb_issued b)) (emit [OConnack, OState Online] (b\<lparr>mb_client := Some True\<rparr>))"
  let ?es = "case mb_join b of None \<Rightarrow> [] | Some jo \<Rightarrow> jo_join_events jo"
  have n: "mb_namespace ?b = mb_namespace b" and "mb_pending ?b = mb_pending b"
    by (simp_all add: subscribe_items_def)
  moreover have "mb_pending (ev_connect b) = mb_pending (fold add_join_event (rev ?es) ?b)"
    by (simp add: ev_connect_def Let_def)
  moreover have "messages_of ?b False = messages_of b False" by (intro ext messages_of_namespace [OF n])
  ultimately show ?thesis
    using add_join_messages [of ?es ?b] by (auto simp: enters_front_def join_messages_def)
qed

lemma unjoin_messages:
  assumes "\<not> drops_queue CUnjoin b"
  shows "\<exists>post. mb_pending (unjoin b) = mb_pending b @ post \<and> map message post = enters_back CUnjoin b"
proof (cases "mb_state b = Unjoined")
  case False
  let ?b = "b\<lparr>mb_state := Unjoined\<rparr>"
  obtain c where c: "mb_client b = Some c" using assms False by (auto simp: drops_queue_def)
  show ?thesis
  proof (cases "mb_join b")
    case (Some jo)
    obtain post where "mb_pending (add_publication_item (jo_unjoin_event jo) True False False ?b) = mb_pending ?b @ post"
      "map message post = messages_of ?b True (jo_unjoin_event jo)" using add_last_message by blast
    then show ?thesis
      using False c Some messages_of_namespace [of ?b b True "jo_unjoin_event jo"]
      by (auto simp: unjoin_def on_unjoin_def enters_back_def)
  qed (use False c in \<open>simp add: unjoin_def on_unjoin_def enters_back_def\<close>)
qed (simp add: unjoin_def enters_back_def)

lemma publish_messages:
  "\<exists>post. mb_pending (publish e b) = mb_pending b @ post \<and> map message post = enters_back (CPublish e) b"
  using add_last_message [of e False b] by (auto simp: publish_def on_publish_def enters_back_def)

text \<open>C8: what a step of the binding does to the queue of deferred publications: the queue is dropped when the
  client has ended and when the binding is unjoined without a client; otherwise it keeps all items in their
  order but the one whose publication succeeded. At its front enter the join events on a connection, those
  whose topic is not pending yet; at its back enters a published event, unless the binding is unjoined, the
  topic of a raw event is rejected, or its data has no JSON text, and on an unjoin the unjoin event; each
  with its topic, payload and retain flag.\<close>

theorem pending_queue_kept:
  assumes "bind_step json_parse b l b'"
  shows "\<exists>pre post. mb_pending b' =
      pre @ (if drops_queue l b then [] else settled l (mb_pending b)) @ post \<and>
    map message pre = enters_front l b \<and> map message post = enters_back l b"
  using assms
proof (cases rule: bind_step.cases)
  case step_unjoin
  show ?thesis
  proof (cases "drops_queue CUnjoin b")
    case True
    then have "mb_pending (unjoin b) = []" "enters_back CUnjoin b = []"
      by (auto simp: drops_queue_def unjoin_def on_unjoin_def enters_back_def)
    then show ?thesis using step_unjoin True by (simp add: enters_front_def)
  next
    case False
    then show ?thesis
      using step_unjoin unjoin_messages [OF False] by (auto simp: enters_front_def)
  qed
next
  case (step_publish e)
  then show ?thesis using publish_messages [of e b] by (auto simp: drops_queue_def enters_front_def)
next
  case step_connect
  then have "\<not> drops_queue l b" "enters_back l b = []" "settled l (mb_pending b) = mb_pending b"
    by (simp_all add: drops_queue_def enters_back_def)
  then show ?thesis using step_connect connect_messages [of b] by simp
next
  case (step_published item err)
  then show ?thesis
    by (simp add: pending_publish_callback drops_queue_def enters_front_def enters_back_def)
next
  case (step_ended failed)
  then show ?thesis by (simp add: drops_queue_def end_callback_def enters_front_def enters_back_def)
qed (auto simp: join_def on_join_def Let_def subscribe_def on_subscribe_def drops_queue_def enters_front_def enters_back_def
    add_subscription_item_def unsubscribe_def on_unsubscribe_def remove_subscription_item_def
    ev_close_def ev_offline_def ev_error_def ev_message_def)

definition sample_item :: pub_item where
  "sample_item = \<lparr>pi_id = 0, pi_topic = ''t'', pi_payload = PNone, pi_retain = False,
     pi_callback = False\<rparr>"

definition sample_queue :: mqtt_binding where
  "sample_queue = sample_binding\<lparr>mb_pending := [sample_item, sample_item\<lparr>pi_id := 1\<rparr>],
     mb_inflight := [sample_item]\<rparr>"

theorem pending_queue_kept_witness:
  "mb_pending (publish_callback sample_item False sample_queue) = [sample_item\<lparr>pi_id := 1\<rparr>]"
proof -
  have "bind_step (\<lambda>_. Inr JUndef) sample_queue (EPublished sample_item False)
      (publish_callback sample_item False sample_queue)"
    by (rule step_published) (simp add: sample_queue_def)
  moreover have "enters_back (EPublished sample_item False) sample_queue = []"
    "enters_front (EPublished sample_item False) sample_queue = []"
    "settled (EPublished sample_item False) (mb_pending sample_queue) = [sample_item\<lparr>pi_id := 1\<rparr>]"
    by (simp_all add: enters_back_def enters_front_def sample_queue_def)
  ultimately show ?thesis
    using pending_queue_kept [of _ sample_queue "EPublished sample_item False"] by (fastforce simp: drops_queue_def)
qed

section \<open>Join events\<close>

definition encodable :: "event_like \<Rightarrow> bool" where
  "encodable e = is_ok (encode_payload e)"

definition event_topic :: "mqtt_binding \<Rightarrow> event_like \<Rightarrow> string" where
  "event_topic b e = template (get_topic_for b e)"

lemma add_join_event_fresh:
  assumes "encode_payload e = Inr p" "event_topic b e \<notin> pi_topic ` set (mb_pending b)"
  shows "\<exists>i. mb_pending (add_join_event e b) = i # mb_pending b \<and>
    pi_topic i = event_topic b e \<and> pi_payload i = p"
proof -
  have "\<not> (\<exists>i \<in> set (mb_pending b). pi_topic i = template (get_topic_for b e))"
    using assms(2) by (force simp: event_topic_def)
  then show ?thesis
    using assms(1) by (simp add: add_join_event_def add_publication_item_def Let_def event_topic_def)
qed

lemma add_join_event_again:
  assumes "encode_payload e = Inr p" "event_topic b e \<in> pi_topic ` set (mb_pending b)"
  shows "add_join_event e b = b"
proof -
  have "\<exists>i \<in> set (mb_pending b). pi_topic i = template (get_topic_for b e)"
    using assms(2) by (force simp: event_topic_def)
  then show ?thesis
    using assms(1) by (simp add: add_join_event_def add_publication_item_def)
qed

lemma event_topic_cong:
  "mb_namespace b' = mb_namespace b \<Longrightarrow> event_topic b' e = event_topic b e"
  by (simp add: event_topic_def get_topic_for_def)

lemma add_join_events_fresh:
  assumes "distinct (map (event_topic b) es)" "\<forall>e \<in> set es. encode_payload e = Inr (pay e)"
    "event_topic b ` set es \<inter> pi_topic ` set (mb_pending b) = {}"
  shows "\<exists>items. mb_pending (fold add_join_event (rev es) b) = items @ mb_pending b \<and>
    map pi_topic items = map (event_topic b) es \<and> map pi_payload items = map pay es"
  using assms
proof (induction es)
  case (Cons e es)
  let ?b = "fold add_join_event (rev es) b"
  have "distinct (map (event_topic b) es)" "\<forall>e \<in> set es. encode_payload e = Inr (pay e)"
    "event_topic b ` set es \<inter> pi_topic ` set (mb_pending b) = {}"
    using Cons.prems by simp_all
  from Cons.IH [OF this]
  obtain items where it: "mb_pending ?b = items @ mb_pending b"
    "map pi_topic items = map (event_topic b) es" "map pi_payload items = map pay es"
    by blast
  have topic: "event_topic ?b e = event_topic b e"
    using same_subs_add_join_events [of b "rev es"]
    by (intro event_topic_cong) (simp add: same_subs_def)
  have "pi_topic ` set items = event_topic b ` set es"
    using it(2) by (metis set_map)
  then have "event_topic b e \<notin> pi_topic ` set (mb_pending ?b)"
    using Cons.prems(1,3) unfolding it(1) by (simp add: image_Un)
  then obtain i where i: "mb_pending (add_join_event e ?b) = i # mb_pending ?b"
      "pi_topic i = event_topic b e" "pi_payload i = pay e"
    using add_join_event_fresh [of e "pay e" ?b] Cons.prems(2) topic by auto
  then show ?case using it by (intro exI [of _ "i # items"]) simp
qed simp

text \<open>On every (re)connection, the join events come first in the publication
  queue, in the given order, and the first of them is published at once, provided that they can be
  encoded and that their topics differ from each other and from what is pending.\<close>

theorem join_events_first:
  assumes "mb_join b = Some jo" "distinct (map (event_topic b) (jo_join_events jo))"
    "\<forall>e \<in> set (jo_join_events jo). encode_payload e = Inr (pay e)"
    "event_topic b ` set (jo_join_events jo) \<inter> pi_topic ` set (mb_pending b) = {}"
    "jo_join_events jo \<noteq> []"
  shows "\<exists>i is. mb_pending (ev_connect b) = (i # is) @ mb_pending b \<and>
    map pi_topic (i # is) = map (event_topic b) (jo_join_events jo) \<and>
    map pi_payload (i # is) = map pay (jo_join_events jo) \<and>
    last (mb_out (ev_connect b)) = OPublish i"
proof -
  let ?b = "subscribe_items (map si_filter (mb_issued b))
    (emit [OConnack, OState Online] (b\<lparr>mb_client := Some True\<rparr>))"
  let ?c = "fold add_join_event (rev (jo_join_events jo)) ?b"
  have b: "mb_pending ?b = mb_pending b" "mb_namespace ?b = mb_namespace b"
    by (simp_all add: set_subscribe_items)
  have topic: "event_topic ?b = event_topic b"
    using event_topic_cong b(2) by blast
  obtain items where it: "mb_pending ?c = items @ mb_pending b"
    "map pi_topic items = map (event_topic b) (jo_join_events jo)"
    "map pi_payload items = map pay (jo_join_events jo)"
    using add_join_events_fresh [of ?b "jo_join_events jo" pay] assms(2-4) b(1) topic by auto
  have c: "ev_connect b = drain_publications (?c\<lparr>mb_draining := False\<rparr>)"
    using assms(1) by (simp add: ev_connect_def Let_def)
  have client: "mb_client ?c = Some True"
    using same_subs_add_join_events [of ?b "rev (jo_join_events jo)"]
    by (simp add: same_subs_def set_subscribe_items)
  obtain i "is" where items: "items = i # is"
    using it(2) assms(5) by (cases items) auto
  show ?thesis
    using it items client
    by (intro exI [of _ i] exI [of _ "is"])
       (simp add: c drain_publications_def do_drain_publications_def Let_def)
qed

theorem join_events_first_witness:
  "\<exists>i. mb_pending (ev_connect (join sample_join (new_binding None False))) = [i] \<and>
     pi_payload i = PJson (JBool True) \<and>
     last (mb_out (ev_connect (join sample_join (new_binding None False)))) = OPublish i"
proof -
  let ?b = "join sample_join (new_binding None False)"
  have "\<exists>i is. mb_pending (ev_connect ?b) = (i # is) @ mb_pending ?b \<and>
      map pi_topic (i # is) = map (event_topic ?b) (jo_join_events sample_join) \<and>
      map pi_payload (i # is) = map (\<lambda>e. PJson (JBool True)) (jo_join_events sample_join) \<and>
      last (mb_out (ev_connect ?b)) = OPublish i"
    by (rule join_events_first)
      (simp_all add: Let_def join_def on_join_def new_binding_def sample_join_def sample_event_def
        encode_payload_def jsonify_json json.simps)
  then show ?thesis by (auto simp: Let_def sample_join_def join_def on_join_def new_binding_def)
qed

text \<open>Two join events on the same topic, as the Advertise events of two IO nodes
  of one agent are: only the last of them stays queued on a connection, and the other one is
  dropped silently.\<close>

theorem join_event_same_topic_dropped:
  assumes "mb_join b = Some jo" "jo_join_events jo = [e1, e2]" "event_topic b e1 = event_topic b e2"
    "encode_payload e1 = Inr p1" "encode_payload e2 = Inr p2" "mb_pending b = []"
  shows "map pi_payload (mb_pending (ev_connect b)) = [p2]"
proof -
  let ?b = "subscribe_items (map si_filter (mb_issued b))
    (emit [OConnack, OState Online] (b\<lparr>mb_client := Some True\<rparr>))"
  have b: "mb_pending ?b = []" using assms(6) by simp
  have topic: "event_topic ?b = event_topic b"
    by (intro ext event_topic_cong) (simp add: set_subscribe_items)
  obtain i where i: "mb_pending (add_join_event e2 ?b) = [i]"
    "pi_topic i = event_topic b e2" "pi_payload i = p2"
    using add_join_event_fresh [OF assms(5), of ?b] b topic by auto
  have "mb_namespace (add_join_event e2 ?b) = mb_namespace b"
    using same_subs_add_join_events [of ?b "[e2]"] by (simp add: same_subs_def set_subscribe_items)
  then have "event_topic (add_join_event e2 ?b) e1 = event_topic b e2"
    using event_topic_cong assms(3) by metis
  then have "add_join_event e1 (add_join_event e2 ?b) = add_join_event e2 ?b"
    using i by (intro add_join_event_again [OF assms(4)]) simp
  then show ?thesis
    using assms(1,2) i by (simp add: ev_connect_def Let_def)
qed

theorem join_event_same_topic_dropped_witness:
  "map pi_payload (mb_pending (ev_connect (join
     (sample_join\<lparr>jo_join_events := [sample_event Advertise (Some ''IoNode'') (JStr ''node 1''),
        sample_event Advertise (Some ''IoNode'') (JStr ''node 2'')]\<rparr>)
     (new_binding None False)))) = [PJson (JStr ''node 2'')]"
  by (rule join_event_same_topic_dropped [where ?p1.0 = "PJson (JStr ''node 1'')" and
      ?e1.0 = "sample_event Advertise (Some ''IoNode'') (JStr ''node 1'')" and
      ?e2.0 = "sample_event Advertise (Some ''IoNode'') (JStr ''node 2'')" and
      jo = "sample_join\<lparr>jo_join_events := [sample_event Advertise (Some ''IoNode'') (JStr ''node 1''),
        sample_event Advertise (Some ''IoNode'') (JStr ''node 2'')]\<rparr>"])
    (simp_all add: Let_def join_def on_join_def new_binding_def sample_event_def event_topic_def
      get_topic_for_def encode_payload_def jsonify_json json.simps)

section \<open>From one binding to another\<close>

lemma publish_idle:
  assumes "mb_state b \<noteq> Unjoined" "mb_client b = Some True" "\<not> mb_draining b" "mb_pending b = []"
    "el_type e \<noteq> Raw" "encode_payload e = Inr p"
  shows "\<exists>i. mb_out (publish e b) = mb_out b @ [OPublish i] \<and> pi_topic i = event_topic b e \<and>
    pi_payload i = p"
  using assms
  by (simp add: publish_def on_publish_def add_publication_item_def Let_def drain_publications_def
      do_drain_publications_def event_topic_def)



end
