(* ===== verification/CoreTypes.thy ===== *)
theory CoreTypes
  imports JsValue
begin

text \<open>
  The type checkers for Coaty objects, \<open>src/src/model/types.ts\<close>, as predicates on JavaScript
  values, with the lemmas that relate the concrete core types to the base object type. The switch
  of \<open>_isAssignable\<close> is \<open>is_assignable\<close>, recursive through the object of a snapshot. What a checker
  returns is used as a condition only, so \<open>undefined\<close> and \<open>0\<close> are \<open>False\<close>.
\<close>

section \<open>Core types\<close>

definition core_type_names :: "string list" where
  "core_type_names =
    [''CoatyObject'', ''User'', ''Annotation'', ''Task'', ''IoContext'', ''IoNode'', ''IoSource'',
     ''IoActor'', ''Identity'', ''Log'', ''Location'', ''Snapshot'']"

definition object_type_prefix :: string where
  "object_type_prefix = ''coaty.''"

definition core_types_map :: jsv where
  "core_types_map = jobj (map (\<lambda>t. (t, JStr (object_type_prefix @ t))) core_type_names)"

definition is_core_type :: "string \<Rightarrow> bool" where
  "is_core_type type = truthy (get_prop core_types_map type)"

definition get_object_type_for :: "string \<Rightarrow> jsv" where
  "get_object_type_for coreType = get_prop core_types_map coreType"

definition get_core_type_for :: "string \<Rightarrow> string option" where
  "get_core_type_for objectType =
    find (\<lambda>coreType. strict_eq (get_prop core_types_map coreType) (JStr objectType))
      (own_keys core_types_map)"

definition is_core_object_type :: "string \<Rightarrow> bool" where
  "is_core_object_type type =
    list_ex (\<lambda>coreType. strict_eq (get_prop core_types_map coreType) (JStr type))
      (own_keys core_types_map)"

definition get_core_types :: "string list" where
  "get_core_types = own_keys core_types_map"

section \<open>Properties of an object\<close>

abbreviation prop_str :: "jsv \<Rightarrow> string \<Rightarrow> bool" where
  "prop_str obj k \<equiv> is_str (get_prop obj k)"

abbreviation prop_num :: "jsv \<Rightarrow> string \<Rightarrow> bool" where
  "prop_num obj k \<equiv> is_num (get_prop obj k)"

abbreviation prop_nonempty :: "jsv \<Rightarrow> string \<Rightarrow> bool" where
  "prop_nonempty obj k \<equiv> nonempty_str (get_prop obj k)"

definition prop_opt :: "(jsv \<Rightarrow> bool) \<Rightarrow> jsv \<Rightarrow> string \<Rightarrow> bool" where
  "prop_opt p obj k = (get_prop obj k = JUndef \<or> p (get_prop obj k))"

definition is_string_array :: "jsv \<Rightarrow> bool" where
  "is_string_array obj = (case obj of JArr xs \<Rightarrow> list_all nonempty_str xs | _ \<Rightarrow> False)"

definition is_core_type_array :: "jsv \<Rightarrow> bool" where
  "is_core_type_array obj =
    (is_string_array obj \<and>
     (case obj of JArr xs \<Rightarrow> list_all (\<lambda>t. case t of JStr s \<Rightarrow> is_core_type s | _ \<Rightarrow> False) xs
      | _ \<Rightarrow> False))"

text \<open>\<open>E[n] !== undefined\<close> for an enumeration with the given numeric members.\<close>

definition enum_member :: "int list \<Rightarrow> jsv \<Rightarrow> bool" where
  "enum_member values n = (n \<in> (\<lambda>i. jint i) ` set values)"

definition annotation_types :: "int list" where "annotation_types = [0..7]"
definition annotation_statuses :: "int list" where "annotation_statuses = [0..3]"
definition task_statuses :: "int list" where "task_statuses = [0..6]"
definition log_levels :: "int list" where "log_levels = [10, 20, 30, 40, 50]"
definition backpressure_strategies :: "int list" where "backpressure_strategies = [0..3]"

definition core_type_is :: "jsv \<Rightarrow> string \<Rightarrow> bool" where
  "core_type_is obj t = strict_eq (get_prop obj ''coreType'') (JStr t)"

definition num_not_negative :: "jsv \<Rightarrow> bool" where
  "num_not_negative v = (case v of JNum n \<Rightarrow> num_le (Fin 0) n | _ \<Rightarrow> False)"

section \<open>Checkers\<close>

definition is_object_base :: "jsv \<Rightarrow> bool" where
  "is_object_base obj =
    (prop_str obj ''name'' \<and> prop_nonempty obj ''objectType'' \<and>
     (case get_prop obj ''coreType'' of JStr t \<Rightarrow> is_core_type t | _ \<Rightarrow> False) \<and>
     prop_nonempty obj ''objectId'' \<and>
     prop_opt nonempty_str obj ''parentObjectId'' \<and> prop_opt nonempty_str obj ''externalId'' \<and>
     prop_opt nonempty_str obj ''locationId'' \<and> prop_opt is_bool obj ''isDeactivated'')"

definition is_scim_names :: "jsv \<Rightarrow> bool" where
  "is_scim_names names =
    (is_plain_object names \<and> prop_opt nonempty_str names ''formatted'' \<and>
     prop_opt is_str names ''familyName'' \<and> prop_opt is_str names ''givenName'' \<and>
     ((get_prop names ''familyName'' \<noteq> JUndef \<and> get_prop names ''givenName'' \<noteq> JUndef) \<or>
      (get_prop names ''familyName'' = JUndef \<and> get_prop names ''givenName'' = JUndef)) \<and>
     \<not> (get_prop names ''formatted'' = JUndef \<and> get_prop names ''familyName'' = JUndef) \<and>
     prop_opt is_str names ''middleName'' \<and> prop_opt is_str names ''honorificPrefix'' \<and>
     prop_opt is_str names ''honorificSuffix'')"

definition is_scim_attribute :: "jsv \<Rightarrow> bool" where
  "is_scim_attribute attr =
    (is_plain_object attr \<and> prop_str attr ''type'' \<and> prop_str attr ''value'' \<and>
     prop_opt is_bool attr ''primary'' \<and> prop_opt is_str attr ''display'')"

definition array_of :: "(jsv \<Rightarrow> bool) \<Rightarrow> jsv \<Rightarrow> bool" where
  "array_of p obj = (case obj of JArr xs \<Rightarrow> list_all p xs | _ \<Rightarrow> False)"

definition is_scim_attributes :: "jsv \<Rightarrow> bool" where
  "is_scim_attributes attrs = array_of is_scim_attribute attrs"

definition is_scim_addresses :: "jsv \<Rightarrow> bool" where
  "is_scim_addresses obj =
    array_of (\<lambda>a. is_scim_attribute a \<and>
      list_all (prop_opt is_str a)
        [''formatted'', ''streetAddress'', ''locality'', ''region'', ''postalCode'', ''country'']) obj"

definition is_user :: "jsv \<Rightarrow> bool" where
  "is_user obj =
    (is_object_base obj \<and> core_type_is obj ''User'' \<and> is_scim_names (get_prop obj ''names'') \<and>
     list_all (prop_opt is_str obj)
       [''displayName'', ''nickName'', ''title'', ''userType'', ''preferredLanguage'', ''locale'',
        ''timezone''] \<and>
     prop_opt is_bool obj ''active'' \<and> prop_opt is_str obj ''password'' \<and>
     list_all (prop_opt is_scim_attributes obj) [''emails'', ''phoneNumbers'', ''ims'', ''photos''] \<and>
     prop_opt is_scim_addresses obj ''addresses'' \<and> prop_opt is_scim_attributes obj ''groups'' \<and>
     prop_opt is_array obj ''entitlements'' \<and> prop_opt is_string_array obj ''roles'' \<and>
     prop_opt is_string_array obj ''x509Certificates'')"

definition is_io_context :: "jsv \<Rightarrow> bool" where
  "is_io_context obj = (is_object_base obj \<and> core_type_is obj ''IoContext'')"

definition is_io_source :: "jsv \<Rightarrow> bool" where
  "is_io_source obj =
    (is_object_base obj \<and> core_type_is obj ''IoSource'' \<and> prop_nonempty obj ''valueType'' \<and>
     prop_opt is_str obj ''externalRoute'' \<and> prop_opt num_not_negative obj ''updateRate'' \<and>
     prop_opt (enum_member backpressure_strategies) obj ''updateStrategy'' \<and>
     prop_opt is_bool obj ''useRawIoValues'')"

definition is_io_actor :: "jsv \<Rightarrow> bool" where
  "is_io_actor obj =
    (is_object_base obj \<and> core_type_is obj ''IoActor'' \<and> prop_nonempty obj ''valueType'' \<and>
     prop_opt is_str obj ''externalRoute'' \<and> prop_opt num_not_negative obj ''updateRate'' \<and>
     prop_opt is_bool obj ''useRawIoValues'')"

definition is_io_node :: "jsv \<Rightarrow> bool" where
  "is_io_node obj =
    (is_object_base obj \<and> core_type_is obj ''IoNode'' \<and>
     prop_opt (array_of (\<lambda>o1. is_plain_object o1 \<and> is_io_source o1)) obj ''ioSources'' \<and>
     prop_opt (array_of (\<lambda>o1. is_plain_object o1 \<and> is_io_actor o1)) obj ''ioActors'' \<and>
     prop_opt is_plain_object obj ''characteristics'')"

definition is_variant :: "jsv \<Rightarrow> bool" where
  "is_variant o1 = (is_plain_object o1 \<and> prop_nonempty o1 ''variant'' \<and> prop_str o1 ''downloadUrl'')"

definition is_annotation :: "jsv \<Rightarrow> bool" where
  "is_annotation obj =
    (is_object_base obj \<and> core_type_is obj ''Annotation'' \<and>
     enum_member annotation_types (get_prop obj ''type'') \<and> prop_nonempty obj ''creatorId'' \<and>
     prop_num obj ''creationTimestamp'' \<and>
     enum_member annotation_statuses (get_prop obj ''status'') \<and>
     prop_opt (array_of is_variant) obj ''variants'')"

definition is_task :: "jsv \<Rightarrow> bool" where
  "is_task obj =
    (is_object_base obj \<and> core_type_is obj ''Task'' \<and> prop_nonempty obj ''creatorId'' \<and>
     prop_num obj ''creationTimestamp'' \<and> prop_opt is_num obj ''startTimestamp'' \<and>
     prop_opt is_num obj ''duration'' \<and> enum_member task_statuses (get_prop obj ''status'') \<and>
     prop_opt is_plain_object obj ''requirements'' \<and> prop_opt is_str obj ''description'' \<and>
     prop_opt nonempty_str obj ''assigneeObjectId'')"

definition is_identity :: "jsv \<Rightarrow> bool" where
  "is_identity obj = (is_object_base obj \<and> core_type_is obj ''Identity'')"

definition is_agent_info :: "jsv \<Rightarrow> bool" where
  "is_agent_info obj =
    (is_plain_object obj \<and>
     (let p = get_prop obj ''packageInfo'' in
      is_plain_object p \<and> prop_str p ''name'' \<and> prop_str p ''version'') \<and>
     (let b = get_prop obj ''buildInfo'' in
      is_plain_object b \<and> prop_str b ''buildDate'' \<and> prop_str b ''buildMode'') \<and>
     (let c = get_prop obj ''configInfo'' in is_plain_object c \<and> prop_str c ''serviceHost''))"

definition is_log_host :: "jsv \<Rightarrow> bool" where
  "is_log_host obj =
    (is_plain_object obj \<and> prop_opt is_agent_info obj ''agentInfo'' \<and> prop_opt is_num obj ''pid'' \<and>
     prop_opt is_str obj ''hostname'' \<and> prop_opt is_str obj ''userAgent'')"

definition is_log :: "jsv \<Rightarrow> bool" where
  "is_log obj =
    (is_object_base obj \<and> core_type_is obj ''Log'' \<and>
     enum_member log_levels (get_prop obj ''logLevel'') \<and> prop_str obj ''logMessage'' \<and>
     prop_str obj ''logDate'' \<and> prop_opt is_string_array obj ''logTags'' \<and>
     prop_opt is_plain_object obj ''logLabels'' \<and> prop_opt is_log_host obj ''logHost'')"

definition is_location :: "jsv \<Rightarrow> bool" where
  "is_location obj =
    (is_object_base obj \<and> core_type_is obj ''Location'' \<and>
     (let g = get_prop obj ''geoLocation''; c = get_prop g ''coords'' in
      is_plain_object g \<and> prop_num g ''timestamp'' \<and> is_plain_object c \<and>
      list_all (prop_num c) [''latitude'', ''longitude'', ''accuracy''] \<and>
      list_all (prop_opt is_num c) [''altitude'', ''altitudeAccuracy'', ''heading'', ''speed'']))"

text \<open>All of \<open>_isSnapshot\<close> but the check of the object it holds.\<close>

definition is_snapshot_head :: "jsv \<Rightarrow> bool" where
  "is_snapshot_head obj =
    (is_object_base obj \<and> prop_nonempty obj ''parentObjectId'' \<and> core_type_is obj ''Snapshot'' \<and>
     truthy (get_prop obj ''creationTimestamp'') \<and> prop_num obj ''creationTimestamp'' \<and>
     prop_nonempty obj ''creatorId'' \<and> prop_opt is_string_array obj ''tags'')"

lemma size_get_prop_object:
  "is_plain_object (get_prop v ''object'') \<Longrightarrow> size (get_prop v ''object'') < size v"
proof (cases v)
  case (JObj p ps)
  assume plain: "is_plain_object (get_prop v ''object'')"
  show ?thesis
  proof (cases "map_of ps ''object''")
    case None
    then show ?thesis
      using plain JObj by (auto simp: proto_prop_def object_proto_names_def split: if_splits)
  next
    case (Some w)
    then have "(''object'', w) \<in> set (own_props v)" using JObj by (auto dest: map_of_SomeD)
    then have "size w < size v" using JObj by (intro size_own_props) auto
    then show ?thesis using Some JObj by simp
  qed
next
  case (JArr xs)
  assume plain: "is_plain_object (get_prop v ''object'')"
  have "arr_index ''object'' = None" by code_simp
  then show ?thesis
    using plain JArr by (auto simp: proto_prop_def object_proto_names_def array_proto_names_def)
qed (auto simp: proto_prop_def object_proto_names_def)

function is_assignable :: "jsv \<Rightarrow> string \<Rightarrow> bool" where
  "is_assignable obj coreType =
    (if coreType = ''CoatyObject'' then is_object_base obj
     else if coreType = ''User'' then is_user obj
     else if coreType = ''Annotation'' then is_annotation obj
     else if coreType = ''Task'' then is_task obj
     else if coreType = ''IoContext'' then is_io_context obj
     else if coreType = ''IoNode'' then is_io_node obj
     else if coreType = ''IoSource'' then is_io_source obj
     else if coreType = ''IoActor'' then is_io_actor obj
     else if coreType = ''Identity'' then is_identity obj
     else if coreType = ''Log'' then is_log obj
     else if coreType = ''Location'' then is_location obj
     else if coreType = ''Snapshot'' then
       (is_snapshot_head obj \<and>
        (let held = get_prop obj ''object'' in
         if is_plain_object held then
           (case get_prop held ''coreType'' of JStr t \<Rightarrow> is_assignable held t | _ \<Rightarrow> False)
         else False))
     else False)"
  by pat_completeness auto
termination
  by (relation "measure (\<lambda>(v, t). size v)") (auto intro: size_get_prop_object)

declare is_assignable.simps [simp del]

text \<open>\<open>if (coreType)\<close>: neither missing nor empty.\<close>

definition is_object :: "jsv \<Rightarrow> string option \<Rightarrow> bool" where
  "is_object obj coreType =
    (if \<not> is_plain_object obj then False
     else if coreType \<noteq> None \<and> coreType \<noteq> Some [] then is_assignable obj (the coreType)
     else (case get_prop obj ''coreType'' of JStr t \<Rightarrow> is_assignable obj t | _ \<Rightarrow> False))"

definition as_object :: "jsv \<Rightarrow> string option \<Rightarrow> jsv" where
  "as_object obj coreType =
    (if \<not> is_plain_object obj then JUndef
     else if coreType \<noteq> None \<and> coreType \<noteq> Some [] then
       (if is_assignable obj (the coreType) then obj else JUndef)
     else (case get_prop obj ''coreType'' of
             JStr t \<Rightarrow> (if is_assignable obj t then obj else JUndef)
           | _ \<Rightarrow> JUndef))"

definition is_object_array :: "jsv \<Rightarrow> string option \<Rightarrow> bool" where
  "is_object_array obj coreType = array_of (\<lambda>o1. is_object o1 coreType) obj"

definition is_object_array_any :: "jsv \<Rightarrow> string list \<Rightarrow> bool" where
  "is_object_array_any obj coreTypes =
    array_of (\<lambda>o1. list_ex (\<lambda>t. is_object o1 (Some t)) coreTypes) obj"

definition is_date :: "jsv \<Rightarrow> bool" where
  "is_date obj =
    (case obj of
       JDate (Fin t) \<Rightarrow> True
     | JStr s \<Rightarrow> s \<noteq> []
     | _ \<Rightarrow> False)"

section \<open>Lemmas\<close>

lemma get_core_types_eq: "get_core_types = core_type_names"
  by (simp add: get_core_types_def core_types_map_def comp_def)

lemma core_type_lookup:
  "t \<in> set core_type_names \<Longrightarrow> get_prop core_types_map t = JStr (object_type_prefix @ t)"
  by (auto simp: core_types_map_def core_type_names_def)

lemma is_core_type_iff:
  "is_core_type t \<longleftrightarrow> t \<in> set core_type_names \<or> t \<in> set object_proto_names \<or> t = ''__proto__''"
  by (auto simp: is_core_type_def core_types_map_def core_type_names_def object_type_prefix_def
      proto_prop_def)

lemma get_core_type_for_inverse:
  "t \<in> set core_type_names \<Longrightarrow> get_core_type_for (object_type_prefix @ t) = Some t"
  by (auto simp: get_core_type_for_def core_types_map_def core_type_names_def)

lemma core_type_is_iff: "core_type_is obj t \<longleftrightarrow> get_prop obj ''coreType'' = JStr t"
  unfolding core_type_is_def by (cases "get_prop obj ''coreType''") auto

lemma is_object_None:
  "is_object v None \<longleftrightarrow>
    is_plain_object v \<and> (\<exists>t. get_prop v ''coreType'' = JStr t \<and> is_assignable v t)"
  by (simp add: is_object_def split: jsv.splits)

lemma is_object_Some:
  "t \<noteq> [] \<Longrightarrow> is_object v (Some t) \<longleftrightarrow> is_plain_object v \<and> is_assignable v t"
  by (simp add: is_object_def)

lemma is_assignable_base: "is_assignable obj t \<Longrightarrow> is_object_base obj"
  by (subst (asm) is_assignable.simps)
    (auto simp: is_user_def is_annotation_def is_task_def is_io_context_def is_io_node_def
      is_io_source_def is_io_actor_def is_identity_def is_log_def is_location_def
      is_snapshot_head_def split: if_splits)

lemma is_assignable_core_type:
  "is_assignable obj t \<Longrightarrow> t \<noteq> ''CoatyObject'' \<Longrightarrow> get_prop obj ''coreType'' = JStr t"
  by (subst (asm) is_assignable.simps)
    (auto simp: is_user_def is_annotation_def is_task_def is_io_context_def is_io_node_def
      is_io_source_def is_io_actor_def is_identity_def is_log_def is_location_def
      is_snapshot_head_def core_type_is_iff split: if_splits)

lemma is_assignable_name: "is_assignable obj t \<Longrightarrow> t \<in> set core_type_names"
  by (subst (asm) is_assignable.simps) (auto simp: core_type_names_def split: if_splits)

text \<open>C38: every value that passes a check for a concrete core type passes the check without a core
  type, carries that core type, and is a base Coaty object with a name, an object type and an object
  id; and no check succeeds for a string that is not one of the twelve core types.\<close>

theorem is_object_hierarchy:
  assumes "is_object v (Some t)" "t \<noteq> []" "t \<noteq> ''CoatyObject''"
  shows "is_object v None \<and> is_object v (Some ''CoatyObject'') \<and>
    get_prop v ''coreType'' = JStr t \<and> t \<in> set get_core_types \<and>
    (\<exists>n ot c cs. get_prop v ''name'' = JStr n \<and> get_prop v ''objectType'' = JStr ot \<and> ot \<noteq> [] \<and>
      get_prop v ''objectId'' = JStr (c # cs)) \<and>
    get_core_type_for (object_type_prefix @ t) = Some t"
proof -
  have v: "is_plain_object v" "is_assignable v t"
    using assms by (simp_all add: is_object_Some)
  note base = is_assignable_base [OF v(2)] and ct = is_assignable_core_type [OF v(2) assms(3)]
    and nm = is_assignable_name [OF v(2)]
  have "is_object v (Some ''CoatyObject'')"
    using v(1) base by (simp add: is_object_Some is_assignable.simps)
  moreover have "is_str (get_prop v ''name'')" using base by (simp add: is_object_base_def)
  then have "\<exists>n. get_prop v ''name'' = JStr n" by (cases "get_prop v ''name''") simp_all
  moreover have "\<exists>ot. get_prop v ''objectType'' = JStr ot \<and> ot \<noteq> []"
    "\<exists>c cs. get_prop v ''objectId'' = JStr (c # cs)"
    using base by (auto simp: is_object_base_def nonempty_str_iff)
  ultimately show ?thesis
    using v ct nm get_core_type_for_inverse [OF nm] by (simp add: is_object_None get_core_types_eq)
qed

definition sample_task :: jsv where
  "sample_task = jobj [(''coreType'', JStr ''Task''), (''objectType'', JStr ''coaty.Task''),
     (''objectId'', JStr ''o1''), (''name'', JStr ''t''), (''creatorId'', JStr ''u1''),
     (''creationTimestamp'', jint 5), (''status'', jint 1)]"

lemma sample_task_ok: "is_object sample_task (Some ''Task'')"
  by (simp add: is_object_Some is_assignable.simps is_task_def sample_task_def is_object_base_def
      core_type_is_def is_core_type_iff core_type_names_def prop_opt_def proto_prop_def
      object_proto_names_def enum_member_def task_statuses_def image_iff)

theorem is_object_hierarchy_witness:
  "is_object sample_task None \<and> is_object sample_task (Some ''CoatyObject'') \<and>
   get_core_type_for ''coaty.Task'' = Some ''Task''"
  using is_object_hierarchy [OF sample_task_ok] by (simp add: object_type_prefix_def)

text \<open>\<open>isCoreType\<close> accepts the twelve core types, and besides them the names that the map
  inherits from \<open>Object.prototype\<close>, such as \<open>constructor\<close> and \<open>toString\<close>, although none of these is
  listed by \<open>getCoreTypes\<close> and no object has them as a core type that \<open>isObject\<close> accepts.\<close>

theorem is_core_type_names:
  "(is_core_type t \<longleftrightarrow>
      t \<in> set get_core_types \<or> t \<in> set object_proto_names \<or> t = ''__proto__'') \<and>
   (t \<in> set object_proto_names \<longrightarrow> t \<notin> set get_core_types \<and> \<not> is_object v (Some t))"
  using is_assignable_name [of v t]
  by (auto simp: is_core_type_iff get_core_types_eq is_object_def core_type_names_def
      object_proto_names_def)

theorem is_core_type_names_witness:
  "is_core_type ''toString'' \<and> ''toString'' \<notin> set get_core_types \<and>
   \<not> is_object sample_task (Some ''toString'')"
  using is_core_type_names [of "''toString''" sample_task] by (simp add: object_proto_names_def)

end
