(* ===== verification/LikePattern.thy ===== *)
theory LikePattern
  imports Prelude
begin

text \<open>
  The LIKE operator of \<open>src/src/model/object-matcher.ts\<close>: the regular expression that
  \<open>_createLikeRegexp\<close> builds from a pattern, as the string that the code builds, a parser and a
  matcher for the part of JavaScript's regular expressions that such strings use (an anchored
  sequence of characters, escaped characters, \<open>.\<close> and \<open>.*\<close>), and its equivalence with the LIKE
  patterns of the documentation. As in JavaScript, \<open>.\<close> does not match a line terminator.
\<close>

section \<open>The translation\<close>

definition regex_special :: string where
  "regex_special = ''.*+?^${}()|[]''"

fun like_regex_loop :: "string \<Rightarrow> bool \<Rightarrow> string" where
  "like_regex_loop [] isEscaped = []"
| "like_regex_loop (c # cs) isEscaped =
    (if c = CHR 0x5C then
       (if isEscaped then [CHR 0x5C, CHR 0x5C] @ like_regex_loop cs False
        else like_regex_loop cs True)
     else if c \<in> set regex_special then [CHR 0x5C, c] @ like_regex_loop cs False
     else if c = CHR ''_'' \<and> \<not> isEscaped then [CHR ''.''] @ like_regex_loop cs isEscaped
     else if c = CHR ''%'' \<and> \<not> isEscaped then [CHR ''.'', CHR ''*''] @ like_regex_loop cs isEscaped
     else [c] @ like_regex_loop cs False)"

definition create_like_regexp :: "string \<Rightarrow> string" where
  "create_like_regexp pattern = ''^'' @ like_regex_loop pattern False @ ''$''"

section \<open>Regular expressions\<close>

datatype re_item = RChar char | RAny | RAnyStar

fun parse_re :: "string \<Rightarrow> re_item list option" where
  "parse_re [] = Some []"
| "parse_re (c # cs) =
    (if c = CHR 0x5C then
       (case cs of [] \<Rightarrow> None | d # ds \<Rightarrow> map_option ((#) (RChar d)) (parse_re ds))
     else if c = CHR ''.'' then
       (case cs of
          d # ds \<Rightarrow> (if d = CHR ''*'' then map_option ((#) RAnyStar) (parse_re ds)
                    else map_option ((#) RAny) (parse_re cs))
        | [] \<Rightarrow> Some [RAny])
     else if c \<in> set regex_special then None
     else map_option ((#) (RChar c)) (parse_re cs))"

text \<open>Line terminators among the characters of the model, which have eight bits: of JavaScript's,
  U+2028 and U+2029 are no characters here.\<close>

definition line_terminator :: "char \<Rightarrow> bool" where
  "line_terminator c = (c = CHR 0x0A \<or> c = CHR 0x0D)"

fun match_re :: "re_item list \<Rightarrow> string \<Rightarrow> bool" where
  "match_re [] s = (s = [])"
| "match_re (RChar c # rs) s = (case s of [] \<Rightarrow> False | d # ds \<Rightarrow> c = d \<and> match_re rs ds)"
| "match_re (RAny # rs) s =
    (case s of [] \<Rightarrow> False | d # ds \<Rightarrow> \<not> line_terminator d \<and> match_re rs ds)"
| "match_re (RAnyStar # rs) s =
    (match_re rs s \<or>
     (case s of [] \<Rightarrow> False | d # ds \<Rightarrow> \<not> line_terminator d \<and> match_re (RAnyStar # rs) ds))"

text \<open>\<open>new RegExp(r).test(s)\<close> for an anchored expression; \<open>None\<close> outside the modelled part.\<close>

definition regexp_test :: "string \<Rightarrow> string \<Rightarrow> bool option" where
  "regexp_test r s =
    (case r of
       c # cs \<Rightarrow>
         (if c = CHR ''^'' \<and> cs \<noteq> [] \<and> last cs = CHR ''$'' then
            map_option (\<lambda>re. match_re re s) (parse_re (butlast cs))
          else None)
     | [] \<Rightarrow> None)"

section \<open>LIKE patterns as documented\<close>

datatype like_item = LChar char | LOne | LMany

fun like_items :: "string \<Rightarrow> like_item list" where
  "like_items [] = []"
| "like_items [c] =
    (if c = CHR 0x5C then [] else if c = CHR ''_'' then [LOne]
     else if c = CHR ''%'' then [LMany] else [LChar c])"
| "like_items (c # d # cs) =
    (if c = CHR 0x5C then LChar d # like_items cs
     else if c = CHR ''_'' then LOne # like_items (d # cs)
     else if c = CHR ''%'' then LMany # like_items (d # cs)
     else LChar c # like_items (d # cs))"

text \<open>A string matches when it is a concatenation of what the items stand for.\<close>

fun like_item_ok :: "like_item \<Rightarrow> string \<Rightarrow> bool" where
  "like_item_ok (LChar c) s = (s = [c])"
| "like_item_ok LOne s = (length s = 1)"
| "like_item_ok LMany s = True"

definition like_matches :: "like_item list \<Rightarrow> string \<Rightarrow> bool" where
  "like_matches ls s = (\<exists>parts. list_all2 like_item_ok ls parts \<and> concat parts = s)"

section \<open>Equivalence\<close>

fun re_of_like :: "like_item \<Rightarrow> re_item" where
  "re_of_like (LChar c) = RChar c"
| "re_of_like LOne = RAny"
| "re_of_like LMany = RAnyStar"

lemma loop_escaped:
  "like_regex_loop (d # cs) True =
    (if d = CHR 0x5C \<or> d \<in> set regex_special then [CHR 0x5C, d] else [d]) @ like_regex_loop cs False"
  by auto

lemma loop_no_star: "like_regex_loop cs b = [] \<or> hd (like_regex_loop cs b) \<noteq> CHR ''*''"
  by (induction cs b rule: like_regex_loop.induct) (auto simp: regex_special_def)

lemma parse_dot:
  "parse_re (CHR ''.'' # like_regex_loop cs b) = map_option ((#) RAny) (parse_re (like_regex_loop cs b))"
proof (cases "like_regex_loop cs b")
  case (Cons d ds)
  then have "d \<noteq> CHR ''*''" using loop_no_star [of cs b] by simp
  then show ?thesis using Cons by simp
qed simp

lemma parse_char:
  "c \<noteq> CHR 0x5C \<Longrightarrow> c \<notin> set regex_special \<Longrightarrow>
    parse_re (c # cs) = map_option ((#) (RChar c)) (parse_re cs)"
  by (auto simp: regex_special_def)

lemma special_chars [simp]:
  "CHR ''_'' \<notin> set regex_special" "CHR ''%'' \<notin> set regex_special" "CHR 0x5C \<notin> set regex_special"
  "CHR ''.'' \<in> set regex_special" "CHR ''*'' \<in> set regex_special"
  by (simp_all add: regex_special_def)

lemma parse_loop: "parse_re (like_regex_loop p False) = Some (map re_of_like (like_items p))"
proof (induction p rule: like_items.induct)
  case (2 c)
  then show ?case by (auto simp: parse_char)
next
  case (3 c d cs)
  consider "c = CHR 0x5C" | "c = CHR ''_''" | "c = CHR ''%''" |
    "c \<noteq> CHR 0x5C" "c \<noteq> CHR ''_''" "c \<noteq> CHR ''%''" by blast
  then show ?case
  proof cases
    case 1
    then have "like_regex_loop (c # d # cs) False =
        (if d = CHR 0x5C \<or> d \<in> set regex_special then [CHR 0x5C, d] else [d]) @ like_regex_loop cs False"
      using loop_escaped by simp
    then show ?thesis using 1 3(1) by (auto simp: parse_char)
  next
    case 2
    have "like_regex_loop (c # d # cs) False = CHR ''.'' # like_regex_loop (d # cs) False"
      using 2 by simp
    then show ?thesis
      using 2 3(2) parse_dot [of "d # cs" False] by (simp del: parse_re.simps like_regex_loop.simps)
  next
    case 3
    have "like_regex_loop (c # d # cs) False = CHR ''.'' # CHR ''*'' # like_regex_loop (d # cs) False"
      using 3 by simp
    then show ?thesis using 3 "3.IH"(3) by simp
  next
    case 4
    show ?thesis
    proof (cases "c \<in> set regex_special")
      case True
      then have "like_regex_loop (c # d # cs) False = CHR 0x5C # c # like_regex_loop (d # cs) False"
        using 4 by simp
      then show ?thesis using 4 "3.IH"(4) by simp
    next
      case False
      then have "like_regex_loop (c # d # cs) False = c # like_regex_loop (d # cs) False"
        using 4 by simp
      then show ?thesis
        using 4 False "3.IH"(4) by (simp add: parse_char del: parse_re.simps like_regex_loop.simps)
    qed
  qed
qed simp

lemma like_matches_Nil: "like_matches [] s = (s = [])"
  by (auto simp: like_matches_def)

lemma like_matches_Cons:
  "like_matches (l # ls) s = (\<exists>u v. s = u @ v \<and> like_item_ok l u \<and> like_matches ls v)"
proof
  assume "like_matches (l # ls) s"
  then obtain u parts where "s = u @ concat parts" "like_item_ok l u" "list_all2 like_item_ok ls parts"
    by (auto simp: like_matches_def list_all2_Cons1)
  then show "\<exists>u v. s = u @ v \<and> like_item_ok l u \<and> like_matches ls v"
    unfolding like_matches_def by blast
next
  assume "\<exists>u v. s = u @ v \<and> like_item_ok l u \<and> like_matches ls v"
  then obtain u parts where "s = u @ concat parts" "like_item_ok l u" "list_all2 like_item_ok ls parts"
    by (auto simp: like_matches_def)
  then show "like_matches (l # ls) s"
    unfolding like_matches_def by (intro exI [of _ "u # parts"]) simp
qed

lemma suffix_split:
  "(\<exists>u v. s = u @ v \<and> P v) = (P s \<or> (case s of [] \<Rightarrow> False | d # ds \<Rightarrow> \<exists>u v. ds = u @ v \<and> P v))"
  by (cases s) (auto simp: Cons_eq_append_conv)

lemma like_matches_many:
  "like_matches (LMany # ls) s =
    (like_matches ls s \<or> (case s of [] \<Rightarrow> False | d # ds \<Rightarrow> like_matches (LMany # ls) ds))"
  using suffix_split [of s "like_matches ls"] by (simp add: like_matches_Cons cong: list.case_cong)

lemma head_split:
  "(\<exists>u v. s = u @ v \<and> (\<exists>c. u = [c] \<and> Q c) \<and> P v) = (case s of [] \<Rightarrow> False | d # ds \<Rightarrow> Q d \<and> P ds)"
proof (cases s)
  case (Cons d ds)
  have "Q d \<and> P ds \<Longrightarrow> \<exists>u v. s = u @ v \<and> (\<exists>c. u = [c] \<and> Q c) \<and> P v"
    using Cons by (intro exI [of _ "[d]"] exI [of _ ds]) simp
  then show ?thesis using Cons by auto
qed auto

lemma like_matches_one:
  "like_matches (LOne # ls) s = (case s of [] \<Rightarrow> False | d # ds \<Rightarrow> like_matches ls ds)"
  "like_matches (LChar c # ls) s = (case s of [] \<Rightarrow> False | d # ds \<Rightarrow> c = d \<and> like_matches ls ds)"
proof -
  have 1: "like_item_ok LOne u = (\<exists>c. u = [c] \<and> True)" for u
    by (cases u) auto
  have 2: "like_item_ok (LChar c) u = (\<exists>d. u = [d] \<and> c = d)" for u
    by auto
  show "like_matches (LOne # ls) s = (case s of [] \<Rightarrow> False | d # ds \<Rightarrow> like_matches ls ds)"
    unfolding like_matches_Cons 1 head_split [of s "\<lambda>_. True"] by (cases s) simp_all
  show "like_matches (LChar c # ls) s = (case s of [] \<Rightarrow> False | d # ds \<Rightarrow> c = d \<and> like_matches ls ds)"
    unfolding like_matches_Cons 2 head_split [of s "\<lambda>d. c = d"] ..
qed

lemma match_re_like:
  "\<forall>c \<in> set s. \<not> line_terminator c \<Longrightarrow> match_re (map re_of_like ls) s = like_matches ls s"
proof (induction ls arbitrary: s)
  case Nil
  then show ?case by (simp add: like_matches_Nil)
next
  case (Cons l ls)
  show ?case
  proof (cases l)
    case LMany
    note ls = Cons.IH
    have "match_re (RAnyStar # map re_of_like ls) t = like_matches (LMany # ls) t"
      if "\<forall>c \<in> set t. \<not> line_terminator c" for t
      using that
    proof (induction t)
      case Nil
      then show ?case using ls [of "[]"] by (subst like_matches_many) simp
    next
      case (Cons d ds)
      then show ?case using ls [of "d # ds"] by (subst like_matches_many) simp
    qed
    then show ?thesis using Cons.prems LMany by simp
  qed (use Cons in \<open>auto simp: like_matches_one split: list.splits\<close>)
qed

lemma regexp_test_like:
  "regexp_test (create_like_regexp p) s = Some (match_re (map re_of_like (like_items p)) s)"
  by (simp add: regexp_test_def create_like_regexp_def parse_loop)

end
