(* ===== verification/ObjectFilter.thy ===== *)
theory ObjectFilter
  imports Deep LikePattern
begin

text \<open>
  Object filters, \<open>src/src/model/object-filter.ts\<close>, object join conditions,
  \<open>src/src/model/object-join.ts\<close>, and the evaluation of filters on objects,
  \<open>src/src/model/object-matcher.ts\<close>. Filters are JavaScript values, since they arrive in event data;
  the validators say which of them are filters.

  What the platform decides is a parameter (\<open>conv\<close>): the language-sensitive string comparison of
  \<open>Intl.Collator\<close>, the conversion of a string to a number, and the primitive value of an object.
\<close>

section \<open>Operators\<close>

datatype filter_op =
    LessThan | LessThanOrEqual | GreaterThan | GreaterThanOrEqual | Between | NotBetween | Like
  | Equals | NotEquals | Exists | NotExists | Contains | NotContains | In | NotIn

definition filter_ops :: "filter_op list" where
  "filter_ops =
    [LessThan, LessThanOrEqual, GreaterThan, GreaterThanOrEqual, Between, NotBetween, Like, Equals,
     NotEquals, Exists, NotExists, Contains, NotContains, In, NotIn]"

text \<open>\<open>ObjectFilterOperator[n]\<close>: the operator with the number \<open>n\<close>.\<close>

definition filter_op_of :: "jsv \<Rightarrow> filter_op option" where
  "filter_op_of n = map_of (map (\<lambda>i. (jint (int i), filter_ops ! i)) [0..<length filter_ops]) n"

definition op_code :: "filter_op \<Rightarrow> jsv" where
  "op_code op = jint (int (length (takeWhile (\<lambda>x. x \<noteq> op) filter_ops)))"

lemma filter_op_of_code [simp]: "filter_op_of (op_code op) = Some op"
  by (cases op) (simp_all add: filter_op_of_def op_code_def filter_ops_def upt_rec)

lemma is_num_op_code [simp]: "is_num (op_code op)"
  by (simp add: op_code_def)

text \<open>The typesafe functions \<open>filterOp\<close>.\<close>

definition op_expr :: "filter_op \<Rightarrow> jsv list \<Rightarrow> jsv" where
  "op_expr op operands = JArr (op_code op # operands)"

section \<open>Validation\<close>

definition arr_el :: "jsv \<Rightarrow> nat \<Rightarrow> jsv" where
  "arr_el v i = get_prop v (show_nat i)"

lemma arr_el_JArr [simp]: "arr_el (JArr xs) i = (if i < length xs then xs ! i else JUndef)"
proof -
  have "show_nat i \<noteq> ''length''"
    using show_nat_digits [of i] by (auto simp: digit_val_def)
  moreover have "show_nat i \<notin> set array_proto_names" "proto_prop (show_nat i) = JUndef"
    using show_nat_digits [of i]
    by (auto simp: digit_val_def array_proto_names_def proto_prop_def object_proto_names_def)
  ultimately show ?thesis by (simp add: arr_el_def)
qed

definition all_strings :: "jsv \<Rightarrow> bool" where
  "all_strings v = (case v of JArr xs \<Rightarrow> list_all is_str xs | _ \<Rightarrow> False)"

definition is_filter_condition_valid :: "jsv \<Rightarrow> bool" where
  "is_filter_condition_valid cond =
    (case cond of
       JArr [props, expr] \<Rightarrow>
         truthy props \<and> (is_str props \<or> all_strings props) \<and>
         (case expr of JArr (op # operands) \<Rightarrow> is_num op \<and> filter_op_of op \<noteq> None | _ \<Rightarrow> False)
     | _ \<Rightarrow> False)"

definition is_filter_condition_array_valid :: "jsv \<Rightarrow> bool" where
  "is_filter_condition_array_valid acond =
    (case acond of JArr cs \<Rightarrow> list_all is_filter_condition_valid cs | _ \<Rightarrow> False)"

definition are_filter_conditions_valid :: "jsv \<Rightarrow> bool" where
  "are_filter_conditions_valid conds =
    (if conds = JUndef then True
     else (conds \<noteq> JNull \<and> is_filter_condition_valid conds) \<or>
       (is_plain_object conds \<and>
        \<not> (truthy (get_prop conds ''and'') \<and> truthy (get_prop conds ''or'')) \<and>
        (get_prop conds ''and'' = JUndef \<or> is_filter_condition_array_valid (get_prop conds ''and'')) \<and>
        (get_prop conds ''or'' = JUndef \<or> is_filter_condition_array_valid (get_prop conds ''or''))))"

definition is_context_filter_valid :: "jsv \<Rightarrow> bool" where
  "is_context_filter_valid flt =
    (if flt = JUndef then True
     else is_plain_object flt \<and> are_filter_conditions_valid (get_prop flt ''conditions''))"

definition is_order_property_valid :: "jsv \<Rightarrow> bool" where
  "is_order_property_valid o1 =
    (case o1 of
       JArr [props, order] \<Rightarrow>
         (is_str props \<or> all_strings props) \<and> (order = JStr ''Asc'' \<or> order = JStr ''Desc'')
     | _ \<Rightarrow> False)"

definition are_order_by_properties_valid :: "jsv \<Rightarrow> bool" where
  "are_order_by_properties_valid orderProps =
    (case orderProps of JArr os \<Rightarrow> list_all is_order_property_valid os | _ \<Rightarrow> False)"

text \<open>Reading \<open>filter.skip\<close> of an undefined filter throws.\<close>

definition is_object_filter_valid :: "jsv \<Rightarrow> js_error + bool" where
  "is_object_filter_valid flt =
    (if \<not> is_context_filter_valid flt then Inr False
     else if flt = JUndef then Inl (TypeError ''cannot read property skip of undefined'')
     else Inr
       ((get_prop flt ''skip'' = JUndef \<or> is_num (get_prop flt ''skip'')) \<and>
        (get_prop flt ''take'' = JUndef \<or> is_num (get_prop flt ''take'')) \<and>
        (get_prop flt ''orderByProperties'' = JUndef \<or>
         are_order_by_properties_valid (get_prop flt ''orderByProperties''))))"

definition is_join_condition_valid :: "jsv \<Rightarrow> bool" where
  "is_join_condition_valid joinCond =
    (is_plain_object joinCond \<and> is_str (get_prop joinCond ''localProperty'') \<and>
     is_str (get_prop joinCond ''asProperty'') \<and>
     (get_prop joinCond ''isLocalPropertyArray'' = JUndef \<or>
      is_bool (get_prop joinCond ''isLocalPropertyArray'')) \<and>
     (get_prop joinCond ''isOneToOneRelation'' = JUndef \<or>
      is_bool (get_prop joinCond ''isOneToOneRelation'')))"

definition are_object_join_conditions_valid :: "jsv \<Rightarrow> bool" where
  "are_object_join_conditions_valid joinConds =
    (if joinConds = JUndef then True
     else case joinConds of
       JArr js \<Rightarrow> list_all is_join_condition_valid js
     | _ \<Rightarrow> is_join_condition_valid joinConds)"

section \<open>Comparison of values\<close>

record conv =
  cv_collate :: "string \<Rightarrow> string \<Rightarrow> int"
  cv_num :: "string \<Rightarrow> jsnum"
  cv_prim :: "jsv \<Rightarrow> js_error + jsv"

definition to_prim :: "conv \<Rightarrow> jsv \<Rightarrow> js_error + jsv" where
  "to_prim cv v = (if is_prim v then Inr v else cv_prim cv v)"

fun to_num :: "conv \<Rightarrow> jsv \<Rightarrow> jsnum" where
  "to_num cv JNull = Fin 0"
| "to_num cv (JBool b) = (if b then Fin 1 else Fin 0)"
| "to_num cv (JNum n) = n"
| "to_num cv (JStr s) = cv_num cv s"
| "to_num cv _ = NaN"

text \<open>Lexicographic comparison of code units.\<close>

fun str_less :: "string \<Rightarrow> string \<Rightarrow> bool" where
  "str_less _ [] = False"
| "str_less [] (d # ds) = True"
| "str_less (c # cs) (d # ds) =
    ((of_char c :: nat) < of_char d \<or> (c = d \<and> str_less cs ds))"

text \<open>The relational operators \<open><\<close> and \<open><=\<close> on primitive values.\<close>

definition prim_less :: "conv \<Rightarrow> jsv \<Rightarrow> jsv \<Rightarrow> bool" where
  "prim_less cv a b =
    (case (a, b) of
       (JStr s, JStr t) \<Rightarrow> str_less s t
     | _ \<Rightarrow> num_less (to_num cv a) (to_num cv b))"

definition prim_le :: "conv \<Rightarrow> jsv \<Rightarrow> jsv \<Rightarrow> bool" where
  "prim_le cv a b =
    (case (a, b) of
       (JStr s, JStr t) \<Rightarrow> \<not> str_less t s
     | _ \<Rightarrow> num_le (to_num cv a) (to_num cv b))"

definition js_less :: "conv \<Rightarrow> jsv \<Rightarrow> jsv \<Rightarrow> js_error + bool" where
  "js_less cv a b = rbind (to_prim cv a) (\<lambda>x. rbind (to_prim cv b) (\<lambda>y. Inr (prim_less cv x y)))"

definition js_le :: "conv \<Rightarrow> jsv \<Rightarrow> jsv \<Rightarrow> js_error + bool" where
  "js_le cv a b = rbind (to_prim cv a) (\<lambda>x. rbind (to_prim cv b) (\<lambda>y. Inr (prim_le cv x y)))"

definition js_greater :: "conv \<Rightarrow> jsv \<Rightarrow> jsv \<Rightarrow> js_error + bool" where
  "js_greater cv a b = rbind (to_prim cv a) (\<lambda>x. rbind (to_prim cv b) (\<lambda>y. Inr (prim_less cv y x)))"

definition js_ge :: "conv \<Rightarrow> jsv \<Rightarrow> jsv \<Rightarrow> js_error + bool" where
  "js_ge cv a b = rbind (to_prim cv a) (\<lambda>x. rbind (to_prim cv b) (\<lambda>y. Inr (prim_le cv y x)))"

definition r_and :: "js_error + bool \<Rightarrow> js_error + bool \<Rightarrow> js_error + bool" where
  "r_and a b = rbind a (\<lambda>x. if x then b else Inr False)"

definition r_or :: "js_error + bool \<Rightarrow> js_error + bool \<Rightarrow> js_error + bool" where
  "r_or a b = rbind a (\<lambda>x. if x then Inr True else b)"

definition r_not :: "js_error + bool \<Rightarrow> js_error + bool" where
  "r_not a = rbind a (\<lambda>x. Inr (\<not> x))"

lemma r_simps [simp]:
  "r_and (Inr a) b = (if a then b else Inr False)" "r_or (Inr a) b = (if a then Inr True else b)"
  "r_not (Inr a) = Inr (\<not> a)" "r_and (Inl e) b = Inl e" "r_or (Inl e) b = Inl e"
  "r_not (Inl e) = Inl e"
  by (simp_all add: r_and_def r_or_def r_not_def)

section \<open>Matching\<close>

definition get_filter_properties :: "jsv \<Rightarrow> jsv list" where
  "get_filter_properties propNames =
    (case propNames of
       JStr s \<Rightarrow> map JStr (split_on (CHR ''.'') s)
     | JArr xs \<Rightarrow> xs
     | _ \<Rightarrow> [])"

text \<open>Property names of a valid filter are strings.\<close>

definition prop_step :: "jsv \<Rightarrow> jsv \<Rightarrow> jsv" where
  "prop_step p c =
    (if p \<noteq> JNull \<and> typeof p = TObject then (case c of JStr k \<Rightarrow> get_prop p k | _ \<Rightarrow> JUndef)
     else JUndef)"

definition get_filter_property_value :: "jsv \<Rightarrow> jsv \<Rightarrow> jsv" where
  "get_filter_property_value propNames obj = foldl prop_step obj (get_filter_properties propNames)"

definition like_test :: "string \<Rightarrow> string \<Rightarrow> js_error + bool" where
  "like_test pattern value =
    (case regexp_test (create_like_regexp pattern) value of
       None \<Rightarrow> Inl (Error ''invalid regular expression'')
     | Some b \<Rightarrow> Inr b)"

definition match_op :: "conv \<Rightarrow> filter_op \<Rightarrow> jsv \<Rightarrow> jsv \<Rightarrow> jsv \<Rightarrow> js_error + bool" where
  "match_op cv op value value1 value2 =
    (case op of
       LessThan \<Rightarrow>
         (case (value, value1) of
            (JStr s, JStr s1) \<Rightarrow> Inr (cv_collate cv s s1 < 0) | _ \<Rightarrow> js_less cv value value1)
     | LessThanOrEqual \<Rightarrow>
         (case (value, value1) of
            (JStr s, JStr s1) \<Rightarrow> Inr (cv_collate cv s s1 \<le> 0) | _ \<Rightarrow> js_le cv value value1)
     | GreaterThan \<Rightarrow>
         (case (value, value1) of
            (JStr s, JStr s1) \<Rightarrow> Inr (cv_collate cv s s1 > 0) | _ \<Rightarrow> js_greater cv value value1)
     | GreaterThanOrEqual \<Rightarrow>
         (case (value, value1) of
            (JStr s, JStr s1) \<Rightarrow> Inr (cv_collate cv s s1 \<ge> 0) | _ \<Rightarrow> js_ge cv value value1)
     | Between \<Rightarrow>
         (case (value, value1, value2) of
            (JStr s, JStr s1, JStr s2) \<Rightarrow>
              Inr (if cv_collate cv s1 s2 > 0 then cv_collate cv s s2 \<ge> 0 \<and> cv_collate cv s s1 \<le> 0
                   else cv_collate cv s s1 \<ge> 0 \<and> cv_collate cv s s2 \<le> 0)
          | _ \<Rightarrow>
              rbind (js_greater cv value1 value2) (\<lambda>swap.
                if swap then r_and (js_ge cv value value2) (js_le cv value value1)
                else r_and (js_ge cv value value1) (js_le cv value value2)))
     | NotBetween \<Rightarrow>
         (case (value, value1, value2) of
            (JStr s, JStr s1, JStr s2) \<Rightarrow>
              Inr (if cv_collate cv s1 s2 > 0 then cv_collate cv s s2 < 0 \<or> cv_collate cv s s1 > 0
                   else cv_collate cv s s1 < 0 \<or> cv_collate cv s s2 > 0)
          | _ \<Rightarrow>
              rbind (js_greater cv value1 value2) (\<lambda>swap.
                if swap then r_or (js_less cv value value2) (js_greater cv value value1)
                else r_or (js_less cv value value1) (js_greater cv value value2)))
     | Like \<Rightarrow>
         (case (value, value1) of
            (JStr s, JStr s1) \<Rightarrow> like_test s1 s
          | _ \<Rightarrow> Inr False)
     | Equals \<Rightarrow> js_equals value value1
     | NotEquals \<Rightarrow> r_not (js_equals value value1)
     | Exists \<Rightarrow> Inr True
     | NotExists \<Rightarrow> Inr False
     | Contains \<Rightarrow> js_contains value value1
     | NotContains \<Rightarrow> r_not (js_contains value value1)
     | In \<Rightarrow> js_includes value1 value
     | NotIn \<Rightarrow> r_not (js_includes value1 value))"

text \<open>The destructuring of a condition that is no array (no valid filter has one) throws.\<close>

definition matches_condition :: "conv \<Rightarrow> jsv \<Rightarrow> jsv \<Rightarrow> js_error + bool" where
  "matches_condition cv obj condition =
    (if \<not> is_array condition \<or> \<not> is_array (arr_el condition 1)
     then Inl (TypeError ''object is not iterable'')
     else
       (let value = get_filter_property_value (arr_el condition 0) obj;
            expr = arr_el condition 1
        in case filter_op_of (arr_el expr 0) of
             Some NotExists \<Rightarrow> Inr (value = JUndef)
           | Some op \<Rightarrow>
               (if value = JUndef then Inr False
                else match_op cv op value (arr_el expr 1) (arr_el expr 2))
           | None \<Rightarrow> Inr False))"

definition call_array :: "jsv \<Rightarrow> (jsv list \<Rightarrow> js_error + bool) \<Rightarrow> js_error + bool" where
  "call_array v f = (case v of JArr xs \<Rightarrow> f xs | _ \<Rightarrow> Inl (TypeError ''not a function''))"

definition matches_filter :: "conv \<Rightarrow> jsv \<Rightarrow> jsv \<Rightarrow> js_error + bool" where
  "matches_filter cv obj flt =
    (if obj = JUndef then Inr False
     else if flt = JUndef then Inr True
     else if flt = JNull then Inl (TypeError ''cannot read property conditions of null'')
     else
       (let conds = get_prop flt ''conditions'' in
        if conds = JUndef then Inr True
        else if is_array conds then matches_condition cv obj conds
        else if conds = JNull then Inl (TypeError ''cannot read property and of null'')
        else if truthy (get_prop conds ''and'') then
          call_array (get_prop conds ''and'') (every_r (matches_condition cv obj))
        else if truthy (get_prop conds ''or'') then
          call_array (get_prop conds ''or'') (some_r (matches_condition cv obj))
        else Inr True))"

end
