(* ===== verification/FilterSpec.thy ===== *)
theory FilterSpec
  imports ObjectFilter
begin

text \<open>
  What object filters mean: a declarative semantics of filter conditions on values of the
  documented operand types, and the proof that the evaluation in \<open>ObjectMatcher\<close> decides it.
\<close>

section \<open>Specification\<close>

text \<open>The collator orders strings totally, as \<open>Intl.Collator.compare\<close> does.\<close>

definition collates :: "(string \<Rightarrow> string \<Rightarrow> int) \<Rightarrow> bool" where
  "collates c =
    ((\<forall>s t. c s t \<le> 0 \<longleftrightarrow> c t s \<ge> 0) \<and> (\<forall>s t u. c s t \<le> 0 \<longrightarrow> c t u \<le> 0 \<longrightarrow> c s u \<le> 0))"

text \<open>Numbers are compared with numbers and strings with strings.\<close>

fun comparable :: "jsv \<Rightarrow> jsv \<Rightarrow> bool" where
  "comparable (JNum m) (JNum n) = (m \<noteq> NaN \<and> n \<noteq> NaN)"
| "comparable (JStr s) (JStr t) = True"
| "comparable _ _ = False"

fun below :: "conv \<Rightarrow> jsv \<Rightarrow> jsv \<Rightarrow> bool" where
  "below cv (JNum m) (JNum n) = num_le m n"
| "below cv (JStr s) (JStr t) = (cv_collate cv s t \<le> 0)"
| "below cv _ _ = False"

definition within_bounds :: "conv \<Rightarrow> jsv \<Rightarrow> jsv \<Rightarrow> jsv \<Rightarrow> bool" where
  "within_bounds cv v a b = ((below cv a v \<and> below cv v b) \<or> (below cv b v \<and> below cv v a))"

definition contains_spec :: "jsv \<Rightarrow> jsv \<Rightarrow> bool" where
  "contains_spec v a =
    (case v of
       JArr xs \<Rightarrow> (if is_prim a then a \<in> set xs else is_array a \<and> holds_in v a)
     | _ \<Rightarrow> holds_in v a)"

definition str_of :: "jsv \<Rightarrow> string" where
  "str_of v = (case v of JStr s \<Rightarrow> s | _ \<Rightarrow> [])"

definition elems :: "jsv \<Rightarrow> jsv set" where
  "elems v = (case v of JArr xs \<Rightarrow> set xs | _ \<Rightarrow> {})"

fun op_holds :: "conv \<Rightarrow> filter_op \<Rightarrow> jsv \<Rightarrow> jsv \<Rightarrow> jsv \<Rightarrow> bool" where
  "op_holds cv LessThan v a b = (\<not> below cv a v)"
| "op_holds cv LessThanOrEqual v a b = below cv v a"
| "op_holds cv GreaterThan v a b = (\<not> below cv v a)"
| "op_holds cv GreaterThanOrEqual v a b = below cv a v"
| "op_holds cv Between v a b = within_bounds cv v a b"
| "op_holds cv NotBetween v a b = (\<not> within_bounds cv v a b)"
| "op_holds cv Like v a b = (is_str v \<and> like_matches (like_items (str_of a)) (str_of v))"
| "op_holds cv Equals v a b = deep_eq v a"
| "op_holds cv NotEquals v a b = (\<not> deep_eq v a)"
| "op_holds cv Exists v a b = True"
| "op_holds cv NotExists v a b = False"
| "op_holds cv Contains v a b = contains_spec v a"
| "op_holds cv NotContains v a b = (\<not> contains_spec v a)"
| "op_holds cv In v a b = (\<exists>x \<in> elems a. deep_eq x v)"
| "op_holds cv NotIn v a b = (\<not> (\<exists>x \<in> elems a. deep_eq x v))"

text \<open>Operands of the documented types. A null in the operand of the containment operators must not
  meet an object, on which the code throws, as \<open>contains_null_throws\<close> shows; so it has no null or
  the value has no object.\<close>

fun no_object :: "jsv \<Rightarrow> bool" where
  "no_object (JArr xs) = (\<forall>x \<in> set xs. no_object x)"
| "no_object (JObj p ps) = False"
| "no_object _ = True"

fun operands_ok :: "filter_op \<Rightarrow> jsv \<Rightarrow> jsv \<Rightarrow> jsv \<Rightarrow> bool" where
  "operands_ok LessThan v a b = comparable v a"
| "operands_ok LessThanOrEqual v a b = comparable v a"
| "operands_ok GreaterThan v a b = comparable v a"
| "operands_ok GreaterThanOrEqual v a b = comparable v a"
| "operands_ok Between v a b = (comparable v a \<and> comparable v b)"
| "operands_ok NotBetween v a b = (comparable v a \<and> comparable v b)"
| "operands_ok Like v a b = (is_str a \<and> (\<forall>c \<in> set (str_of v). \<not> line_terminator c))"
| "operands_ok Equals v a b = (safe_jsv v \<and> safe_jsv a)"
| "operands_ok NotEquals v a b = (safe_jsv v \<and> safe_jsv a)"
| "operands_ok Exists v a b = True"
| "operands_ok NotExists v a b = True"
| "operands_ok Contains v a b = (json v \<and> json a \<and> (no_null a \<or> no_object v))"
| "operands_ok NotContains v a b = (json v \<and> json a \<and> (no_null a \<or> no_object v))"
| "operands_ok In v a b = (is_array a \<and> safe_jsv a \<and> safe_jsv v)"
| "operands_ok NotIn v a b = (is_array a \<and> safe_jsv a \<and> safe_jsv v)"

text \<open>The parts of a condition.\<close>

definition cond_value :: "jsv \<Rightarrow> jsv \<Rightarrow> jsv" where
  "cond_value obj cond = get_filter_property_value (arr_el cond 0) obj"

definition cond_op :: "jsv \<Rightarrow> filter_op option" where
  "cond_op cond = filter_op_of (arr_el (arr_el cond 1) 0)"

definition cond_operand :: "nat \<Rightarrow> jsv \<Rightarrow> jsv" where
  "cond_operand i cond = arr_el (arr_el cond 1) i"

definition condition_holds :: "conv \<Rightarrow> jsv \<Rightarrow> jsv \<Rightarrow> bool" where
  "condition_holds cv obj cond =
    (if cond_op cond = Some NotExists then cond_value obj cond = JUndef
     else cond_value obj cond \<noteq> JUndef \<and>
       op_holds cv (the (cond_op cond)) (cond_value obj cond) (cond_operand 1 cond) (cond_operand 2 cond))"

definition condition_ok :: "jsv \<Rightarrow> jsv \<Rightarrow> bool" where
  "condition_ok obj cond =
    (cond_value obj cond \<noteq> JUndef \<longrightarrow>
      operands_ok (the (cond_op cond)) (cond_value obj cond) (cond_operand 1 cond) (cond_operand 2 cond))"

text \<open>The conditions of a filter, and whether one of them suffices.\<close>

definition filter_conditions :: "jsv \<Rightarrow> jsv list \<times> bool" where
  "filter_conditions flt =
    (let conds = get_prop flt ''conditions'' in
     if conds = JUndef then ([], False)
     else if is_array conds then ([conds], False)
     else case get_prop conds ''and'' of
       JArr cs \<Rightarrow> (cs, False)
     | _ \<Rightarrow> (case get_prop conds ''or'' of JArr cs \<Rightarrow> (cs, True) | _ \<Rightarrow> ([], False)))"

definition filter_holds :: "conv \<Rightarrow> jsv \<Rightarrow> jsv \<Rightarrow> bool" where
  "filter_holds cv obj flt =
    (let (cs, any) = filter_conditions flt in
     if any then \<exists>c \<in> set cs. condition_holds cv obj c else \<forall>c \<in> set cs. condition_holds cv obj c)"

section \<open>Refinement\<close>

lemma js_cmp_num [simp]:
  "js_less cv (JNum m) (JNum n) = Inr (num_less m n)" "js_le cv (JNum m) (JNum n) = Inr (num_le m n)"
  "js_greater cv (JNum m) (JNum n) = Inr (num_less n m)" "js_ge cv (JNum m) (JNum n) = Inr (num_le n m)"
  by (simp_all add: js_less_def js_le_def js_greater_def js_ge_def to_prim_def prim_less_def prim_le_def)

lemma num_not_le: "m \<noteq> NaN \<Longrightarrow> n \<noteq> NaN \<Longrightarrow> num_less m n \<longleftrightarrow> \<not> num_le n m"
  by (cases m; cases n) (auto simp: num_le_def)

lemma comparable_cases:
  assumes "comparable v a"
  obtains (num) m n where "v = JNum m" "a = JNum n" "m \<noteq> NaN" "n \<noteq> NaN"
    | (str) s t where "v = JStr s" "a = JStr t"
  using assms by (cases v; cases a) auto

lemma collate_ge: "collates c \<Longrightarrow> c s t \<ge> 0 \<longleftrightarrow> c t s \<le> 0"
  unfolding collates_def by blast

lemma collate_less: "collates c \<Longrightarrow> c s t < 0 \<longleftrightarrow> \<not> c t s \<le> 0"
  using collate_ge [of c s t] by linarith

lemma collate_trans: "collates c \<Longrightarrow> c s t \<le> 0 \<Longrightarrow> c t u \<le> 0 \<Longrightarrow> c s u \<le> 0"
  unfolding collates_def by blast

lemma collate_greater: "c s t > 0 \<longleftrightarrow> \<not> c s t \<le> (0 :: int)"
  by linarith

lemma collate_total: "collates c \<Longrightarrow> c s t \<le> 0 \<or> c t s \<le> 0"
  using collate_ge [of c s t] by linarith

lemma match_between:
  assumes cv: "collates (cv_collate cv)" and ok: "comparable v a" "comparable v b"
  shows "match_op cv Between v a b = Inr (within_bounds cv v a b) \<and>
    match_op cv NotBetween v a b = Inr (\<not> within_bounds cv v a b)"
  using ok(1)
proof (cases rule: comparable_cases)
  case (num m n)
  obtain k where k: "b = JNum k" "k \<noteq> NaN" using ok(2) num by (cases b) auto
  show ?thesis
    using num k num_le_trans num_le_linear
    by (auto simp: match_op_def within_bounds_def num_not_le)
next
  case (str s t)
  obtain u where u: "b = JStr u" using ok(2) str by (cases b) auto
  have less: "cv_collate cv x y < 0 \<longleftrightarrow> \<not> cv_collate cv y x \<le> 0" for x y
    using collate_less [OF cv] .
  have tot: "cv_collate cv t u \<le> 0 \<or> cv_collate cv u t \<le> 0" using collate_total [OF cv] .
  have tr: "cv_collate cv x y \<le> 0 \<Longrightarrow> cv_collate cv y z \<le> 0 \<Longrightarrow> cv_collate cv x z \<le> 0" for x y z
    using collate_trans [OF cv] .
  have "(if cv_collate cv t u > 0 then cv_collate cv s u \<ge> 0 \<and> cv_collate cv s t \<le> 0
      else cv_collate cv s t \<ge> 0 \<and> cv_collate cv s u \<le> 0) = within_bounds cv v a b"
    using str u tr [of t u s] tr [of s t u] tr [of u t s] tr [of s u t] tot
    by (auto simp: within_bounds_def collate_ge [OF cv] collate_greater)
  moreover have "(if cv_collate cv t u > 0 then cv_collate cv s u < 0 \<or> cv_collate cv s t > 0
      else cv_collate cv s t < 0 \<or> cv_collate cv s u > 0) = (\<not> within_bounds cv v a b)"
    using calculation less by (auto simp: collate_ge [OF cv] collate_greater split: if_splits)
  ultimately show ?thesis
    using str u by (simp_all add: match_op_def)
qed

lemma contains_internal_flat:
  "json x \<Longrightarrow> no_object x \<Longrightarrow> contains_internal x y False = Inr (holds_in x y)"
proof (induction x arbitrary: y)
  case (JArr xs)
  show ?case
  proof (cases y)
    case (JArr ys)
    have "some_r (\<lambda>xv. contains_internal xv yv False) xs = Inr (\<exists>xv \<in> set xs. holds_in xv yv)" for yv
      using JArr.IH JArr.prems by (intro some_r_ok) auto
    then have "contains_internal (JArr xs) y False = Inr (\<forall>yv \<in> set ys. \<exists>xv \<in> set xs. holds_in xv yv)"
      unfolding \<open>y = JArr ys\<close> contains_internal_arr by (intro every_r_ok)
    then show ?thesis by (simp add: \<open>y = JArr ys\<close> holds_in_arr)
  qed (simp_all add: contains_internal_arr_no holds_in_arr_no)
qed (simp_all add: contains_internal_prim holds_in_prim)

lemma match_contains:
  assumes "json v" "json a" "no_null a \<or> no_object v"
  shows "js_contains v a = Inr (contains_spec v a)"
proof (cases "is_array v \<longrightarrow> is_array a")
  case True
  then have "js_contains v a = Inr (holds_in v a)"
    using assms contains_internal_holds_in [OF assms(1,2)] contains_internal_flat [OF assms(1)]
    by (auto simp: js_contains_def contains_internal_top)
  then show ?thesis using True assms by (cases v; cases a) (auto simp: contains_spec_def)
next
  case False
  then obtain xs where v: "v = JArr xs" and a: "\<not> is_array a" by (cases v) auto
  have "list_ex (\<lambda>xv. strict_eq xv a) xs = (a \<in> set xs)" if "is_prim a"
  proof -
    have "strict_eq x a \<longleftrightarrow> x = a" if "x \<in> set xs" for x
      using \<open>is_prim a\<close> assms(2) strict_eq_imp [of x a] by (cases a; cases x) (auto simp: num_eq_iff)
    then show ?thesis by (auto simp: list_ex_iff)
  qed
  then show ?thesis
    using v a assms(2)
    by (cases a) (auto simp: js_contains_def contains_internal.simps contains_spec_def)
qed

lemma match_op_holds:
  assumes "collates (cv_collate cv)" "operands_ok op v a b" "op \<noteq> NotExists"
  shows "match_op cv op v a b = Inr (op_holds cv op v a b)"
proof (cases op)
  case Like
  obtain p where p: "a = JStr p" using assms(2) Like by (cases a) auto
  show ?thesis
  proof (cases v)
    case (JStr s)
    have "like_test p s = Inr (like_matches (like_items p) s)"
      using assms(2) Like JStr
      by (simp add: like_test_def regexp_test_like match_re_like str_of_def)
    then show ?thesis using Like JStr p by (simp add: match_op_def str_of_def)
  qed (simp_all add: Like match_op_def)
next
  case In
  then show ?thesis
    using assms(2) by (cases a) (auto simp: match_op_def elems_def js_includes_deep_eq)
next
  case NotIn
  then show ?thesis
    using assms(2) by (cases a) (auto simp: match_op_def elems_def js_includes_deep_eq)
next
  case LessThan
  then show ?thesis
    using assms(1,2) by (auto simp: match_op_def num_not_le collate_less elim: comparable_cases)
next
  case GreaterThan
  then show ?thesis
    using assms(1,2) by (auto simp: match_op_def num_not_le collate_greater elim: comparable_cases)
next
  case LessThanOrEqual
  then show ?thesis using assms(2) by (auto simp: match_op_def elim: comparable_cases)
next
  case GreaterThanOrEqual
  then show ?thesis
    using assms(1,2) by (auto simp: match_op_def collate_ge elim: comparable_cases)
qed (use assms match_between match_contains in \<open>auto simp: match_op_def js_equals_deep_eq\<close>)

lemma valid_condition:
  assumes "is_filter_condition_valid cond"
  obtains props op operands where "cond = JArr [props, JArr (op # operands)]" "filter_op_of op \<noteq> None"
  using assms by (auto simp: is_filter_condition_valid_def split: jsv.splits list.splits)

lemma matches_condition_holds:
  assumes "collates (cv_collate cv)" "is_filter_condition_valid cond" "condition_ok obj cond"
  shows "matches_condition cv obj cond = Inr (condition_holds cv obj cond)"
proof -
  obtain props op operands where c: "cond = JArr [props, JArr (op # operands)]" "filter_op_of op \<noteq> None"
    using valid_condition [OF assms(2)] .
  then obtain p where p: "filter_op_of op = Some p" by blast
  have parts: "arr_el cond 1 = JArr (op # operands)" "cond_op cond = Some p"
    using c p by (simp_all add: cond_op_def)
  then show ?thesis
    using match_op_holds [OF assms(1)] assms(3) c p
    by (auto simp: matches_condition_def condition_holds_def condition_ok_def cond_value_def
        cond_operand_def Let_def split: filter_op.splits)
qed


definition sample_conv :: conv where
  "sample_conv = \<lparr>cv_collate = \<lambda>s t. int (length s) - int (length t), cv_num = \<lambda>s. NaN,
     cv_prim = Inr\<rparr>"

definition sample_filter :: jsv where
  "sample_filter = jobj [(''conditions'', jobj [(''and'', JArr
     [JArr [JStr ''n'', op_expr Between [jint 9, jint 3]],
      JArr [JStr ''s'', op_expr NotExists []]])])]"

lemma sample_filter_ok:
  "is_context_filter_valid sample_filter"
  "fst (filter_conditions sample_filter) = [JArr [JStr ''n'', op_expr Between [jint 9, jint 3]],
     JArr [JStr ''s'', op_expr NotExists []]]"
  by (simp_all add: sample_filter_def is_context_filter_valid_def are_filter_conditions_valid_def
      is_filter_condition_array_valid_def is_filter_condition_valid_def op_expr_def Let_def
      filter_conditions_def proto_prop_def object_proto_names_def)


text \<open>Null is a documented operand of the containment operators, and the filter is valid, but matching
  it against an object throws.\<close>

definition null_filter :: jsv where
  "null_filter = jobj [(''conditions'', JArr [JStr ''o'', op_expr Contains [JNull]])]"

theorem contains_null_throws:
  "is_context_filter_valid null_filter \<and>
   matches_filter cv (jobj [(''o'', jobj [])]) null_filter =
     Inl (TypeError ''cannot convert undefined or null to object'')"
proof
  show "is_context_filter_valid null_filter"
    by (simp add: null_filter_def is_context_filter_valid_def are_filter_conditions_valid_def
        is_filter_condition_valid_def op_expr_def Let_def proto_prop_def object_proto_names_def)
  show "matches_filter cv (jobj [(''o'', jobj [])]) null_filter =
     Inl (TypeError ''cannot convert undefined or null to object'')"
    by (simp add: null_filter_def matches_filter_def matches_condition_def Let_def op_expr_def
        get_filter_property_value_def get_filter_properties_def prop_step_def match_op_def
        js_contains_def contains_obj_null proto_prop_def object_proto_names_def)
qed

text \<open>C36: the pattern operator decides the documented pattern language on values without line
  terminators: the regular expression built from any pattern, escapes and special characters
  included, matches such a string exactly when the string is a concatenation of what the pattern's
  items stand for. On a value with a line terminator it does not, as \<open>like_line_terminator\<close> shows.
  Characters have eight bits, so the terminators U+2028 and U+2029 do not occur in the model.\<close>

theorem like_test_like_matches:
  assumes "\<forall>c \<in> set s. \<not> line_terminator c"
  shows "like_test p s = Inr (like_matches (like_items p) s)"
  using assms by (simp add: like_test_def regexp_test_like match_re_like)

theorem like_test_like_matches_witness:
  "like_test ''a.%_'' ''a.bc'' = Inr (like_matches (like_items ''a.%_'') ''a.bc'')"
  by (rule like_test_like_matches) (simp add: line_terminator_def)

text \<open>A percent sign does not match a sequence with a line terminator, although
  the documentation lets it match any sequence of characters.\<close>

theorem like_line_terminator:
  "like_test ''%'' [CHR ''a'', CHR 0x0A, CHR ''b''] = Inr False \<and>
   like_matches (like_items ''%'') [CHR ''a'', CHR 0x0A, CHR ''b'']"
proof
  show "like_test ''%'' [CHR ''a'', CHR 0x0A, CHR ''b''] = Inr False"
    by (simp add: like_test_def regexp_test_like line_terminator_def)
  show "like_matches (like_items ''%'') [CHR ''a'', CHR 0x0A, CHR ''b'']"
    by (simp add: like_matches_Cons like_matches_Nil)
qed

end
