(* ===== verification/EventData.thy ===== *)
theory EventData
  imports CoreTypes ObjectFilter EventTypes MqttBinding
begin

text \<open>
  The communication events and their data, the classes of \<open>src/src/com\<close>: a record per data class
  with the class's private fields, a constructor that validates (\<open>new_...\<close>), \<open>create_..._from\<close>
  for the data of an inbound event and \<open>..._to_json\<close> for the outbound direction, and the checks of
  a response against its request. \<open>com_event\<close> is the union of the event classes.
\<close>

section \<open>Reading event data\<close>

text \<open>\<open>eventData.k\<close> throws on \<open>undefined\<close> and \<open>null\<close>.\<close>

definition read_prop :: "jsv \<Rightarrow> string \<Rightarrow> js_error + jsv" where
  "read_prop v k =
    (if v = JUndef \<or> v = JNull then Inl (TypeError ''cannot read property of undefined or null'')
     else Inr (get_prop v k))"

definition is_valid_private_data :: "jsv \<Rightarrow> bool" where
  "is_valid_private_data p = (p = JUndef \<or> is_plain_object p)"

definition some_eq :: "jsv \<Rightarrow> jsv \<Rightarrow> bool" where
  "some_eq types t = (case types of JArr xs \<Rightarrow> list_ex (\<lambda>x. strict_eq x t) xs | _ \<Rightarrow> False)"

definition object_type_filter_ok :: "jsv \<Rightarrow> bool" where
  "object_type_filter_ok obj = is_valid_event_filter (get_prop obj ''objectType'')"

section \<open>One-way events\<close>

record advertise_data =
  ad_object :: jsv
  ad_private :: jsv

definition new_advertise_data :: "jsv \<Rightarrow> jsv \<Rightarrow> js_error + advertise_data" where
  "new_advertise_data obj privateData =
    (if is_object obj None \<and> is_valid_private_data privateData
     then Inr \<lparr>ad_object = obj, ad_private = privateData\<rparr>
     else Inl (TypeError ''in AdvertiseEventData: arguments not valid''))"

definition create_advertise_data_from :: "jsv \<Rightarrow> js_error + advertise_data" where
  "create_advertise_data_from d =
    rbind (read_prop d ''object'') (\<lambda>obj. new_advertise_data obj (get_prop d ''privateData''))"

definition advertise_data_to_json :: "advertise_data \<Rightarrow> jsv" where
  "advertise_data_to_json d = jobj [(''object'', ad_object d), (''privateData'', ad_private d)]"

record deadvertise_data =
  dd_object_ids :: jsv

definition new_deadvertise_data :: "jsv \<Rightarrow> js_error + deadvertise_data" where
  "new_deadvertise_data objectIds =
    (if is_string_array objectIds then Inr \<lparr>dd_object_ids = objectIds\<rparr>
     else Inl (TypeError ''in DeadvertiseEventData: arguments not valid''))"

definition create_deadvertise_data_from :: "jsv \<Rightarrow> js_error + deadvertise_data" where
  "create_deadvertise_data_from d = rbind (read_prop d ''objectIds'') new_deadvertise_data"

definition deadvertise_data_to_json :: "deadvertise_data \<Rightarrow> jsv" where
  "deadvertise_data_to_json d = jobj [(''objectIds'', dd_object_ids d)]"

record channel_data =
  cd_object :: jsv
  cd_objects :: jsv
  cd_private :: jsv

definition new_channel_data :: "jsv \<Rightarrow> jsv \<Rightarrow> jsv \<Rightarrow> js_error + channel_data" where
  "new_channel_data obj objects privateData =
    (if is_valid_private_data privateData \<and>
       ((objects = JUndef \<and> is_object obj None) \<or> (obj = JUndef \<and> is_object_array objects None))
     then Inr \<lparr>cd_object = obj, cd_objects = objects, cd_private = privateData\<rparr>
     else Inl (TypeError ''in ChannelEventData: arguments not valid''))"

definition create_channel_data_from :: "jsv \<Rightarrow> js_error + channel_data" where
  "create_channel_data_from d =
    rbind (read_prop d ''object'') (\<lambda>obj.
      new_channel_data obj (get_prop d ''objects'') (get_prop d ''privateData''))"

definition channel_data_to_json :: "channel_data \<Rightarrow> jsv" where
  "channel_data_to_json d =
    jobj [(''object'', cd_object d), (''objects'', cd_objects d), (''privateData'', cd_private d)]"

record associate_data =
  as_source :: jsv
  as_actor :: jsv
  as_route :: jsv
  as_external :: jsv
  as_rate :: jsv

definition new_associate_data ::
  "jsv \<Rightarrow> jsv \<Rightarrow> jsv \<Rightarrow> jsv \<Rightarrow> jsv \<Rightarrow> js_error + associate_data" where
  "new_associate_data ioSourceId ioActorId associatingRoute isExternalRoute updateRate =
    (if nonempty_str ioSourceId \<and> nonempty_str ioActorId \<and>
       (associatingRoute = JUndef \<or> nonempty_str associatingRoute) \<and>
       (updateRate = JUndef \<or> is_num updateRate)
     then Inr \<lparr>as_source = ioSourceId, as_actor = ioActorId, as_route = associatingRoute,
       as_external = isExternalRoute, as_rate = updateRate\<rparr>
     else Inl (TypeError ''in AssociateEventData: arguments not valid''))"

definition create_associate_data_from :: "jsv \<Rightarrow> js_error + associate_data" where
  "create_associate_data_from d =
    rbind (read_prop d ''ioSourceId'') (\<lambda>src.
      new_associate_data src (get_prop d ''ioActorId'') (get_prop d ''associatingRoute'')
        (get_prop d ''isExternalRoute'') (get_prop d ''updateRate''))"

definition associate_data_to_json :: "associate_data \<Rightarrow> jsv" where
  "associate_data_to_json d =
    jobj [(''ioSourceId'', as_source d), (''ioActorId'', as_actor d),
      (''associatingRoute'', as_route d), (''updateRate'', as_rate d)]"

section \<open>Discover and Resolve\<close>

record discover_data =
  ds_external_id :: jsv
  ds_object_id :: jsv
  ds_object_types :: jsv
  ds_core_types :: jsv

definition is_valid_discover_data :: "discover_data \<Rightarrow> bool" where
  "is_valid_discover_data d =
    ((is_str (ds_object_id d) \<and> ds_external_id d = JUndef \<and> ds_object_types d = JUndef \<and>
      ds_core_types d = JUndef) \<or>
     (is_str (ds_external_id d) \<and> ds_object_id d = JUndef \<and>
      (ds_object_types d = JUndef \<or> is_string_array (ds_object_types d)) \<and>
      (ds_core_types d = JUndef \<or> is_core_type_array (ds_core_types d))) \<or>
     (is_str (ds_object_id d) \<and> is_str (ds_external_id d) \<and> ds_object_types d = JUndef \<and>
      ds_core_types d = JUndef) \<or>
     (ds_object_id d = JUndef \<and> ds_external_id d = JUndef \<and>
      ((ds_object_types d = JUndef \<and> is_core_type_array (ds_core_types d)) \<or>
       (ds_core_types d = JUndef \<and> is_string_array (ds_object_types d)))))"

definition new_discover_data :: "jsv \<Rightarrow> jsv \<Rightarrow> jsv \<Rightarrow> jsv \<Rightarrow> js_error + discover_data" where
  "new_discover_data externalId objectId objectTypes coreTypes =
    (let d = \<lparr>ds_external_id = externalId, ds_object_id = objectId, ds_object_types = objectTypes,
              ds_core_types = coreTypes\<rparr>
     in if is_valid_discover_data d then Inr d
        else Inl (TypeError ''in DiscoverEventData: arguments not valid''))"

definition create_discover_data_from :: "jsv \<Rightarrow> js_error + discover_data" where
  "create_discover_data_from d =
    rbind (read_prop d ''externalId'') (\<lambda>x.
      new_discover_data x (get_prop d ''objectId'') (get_prop d ''objectTypes'')
        (get_prop d ''coreTypes''))"

definition discover_data_to_json :: "discover_data \<Rightarrow> jsv" where
  "discover_data_to_json d =
    jobj [(''externalId'', ds_external_id d), (''objectId'', ds_object_id d),
      (''objectTypes'', ds_object_types d), (''coreTypes'', ds_core_types d)]"

definition is_discovering_types :: "discover_data \<Rightarrow> bool" where
  "is_discovering_types d = (ds_external_id d = JUndef \<and> ds_object_id d = JUndef)"

definition is_discovering_object_id :: "discover_data \<Rightarrow> bool" where
  "is_discovering_object_id d = (ds_external_id d = JUndef \<and> ds_object_id d \<noteq> JUndef)"

definition is_core_type_compatible :: "jsv \<Rightarrow> string \<Rightarrow> bool" where
  "is_core_type_compatible coreTypes coreType =
    (truthy coreTypes \<and> some_eq coreTypes (JStr coreType))"

definition discover_matches_object :: "discover_data \<Rightarrow> jsv \<Rightarrow> bool" where
  "discover_matches_object d obj =
    (truthy obj \<and>
     (ds_object_id d = JUndef \<or> strict_eq (get_prop obj ''objectId'') (ds_object_id d)) \<and>
     (ds_external_id d = JUndef \<or> strict_eq (get_prop obj ''externalId'') (ds_external_id d)) \<and>
     (ds_core_types d = JUndef \<or> some_eq (ds_core_types d) (get_prop obj ''coreType'')) \<and>
     (ds_object_types d = JUndef \<or> some_eq (ds_object_types d) (get_prop obj ''objectType'')))"

record resolve_data =
  rs_object :: jsv
  rs_related :: jsv
  rs_private :: jsv

definition new_resolve_data :: "jsv \<Rightarrow> jsv \<Rightarrow> jsv \<Rightarrow> js_error + resolve_data" where
  "new_resolve_data obj relatedObjects privateData =
    (if is_valid_private_data privateData \<and>
       ((relatedObjects = JUndef \<and> is_object obj None) \<or>
        (obj = JUndef \<and> is_object_array relatedObjects None) \<or>
        (is_object obj None \<and> is_object_array relatedObjects None))
     then Inr \<lparr>rs_object = obj, rs_related = relatedObjects, rs_private = privateData\<rparr>
     else Inl (TypeError ''in ResolveEventData: arguments not valid''))"

definition create_resolve_data_from :: "jsv \<Rightarrow> js_error + resolve_data" where
  "create_resolve_data_from d =
    rbind (read_prop d ''object'') (\<lambda>obj.
      new_resolve_data obj (get_prop d ''relatedObjects'') (get_prop d ''privateData''))"

definition resolve_data_to_json :: "resolve_data \<Rightarrow> jsv" where
  "resolve_data_to_json d =
    jobj [(''object'', rs_object d), (''relatedObjects'', rs_related d), (''privateData'', rs_private d)]"

definition ensure_valid_resolve :: "discover_data \<Rightarrow> resolve_data \<Rightarrow> js_error + unit" where
  "ensure_valid_resolve d r =
    (let obj = rs_object r in
     if ds_core_types d \<noteq> JUndef \<and> truthy obj \<and>
       \<not> some_eq (ds_core_types d) (get_prop obj ''coreType'')
     then Inl (TypeError ''resolved coreType not contained in Discover coreTypes'')
     else if ds_object_types d \<noteq> JUndef \<and> truthy obj \<and>
       \<not> some_eq (ds_object_types d) (get_prop obj ''objectType'')
     then Inl (TypeError ''resolved objectType not contained in Discover objectTypes'')
     else if truthy (ds_object_id d) \<and> truthy obj \<and>
       \<not> strict_eq (ds_object_id d) (get_prop obj ''objectId'')
     then Inl (TypeError ''object UUID does not match Discover objectId'')
     else if truthy (ds_external_id d) \<and> truthy obj \<and>
       \<not> strict_eq (ds_external_id d) (get_prop obj ''externalId'')
     then Inl (TypeError ''external ID does not match Discover externalId'')
     else Inr ())"

section \<open>Query and Retrieve\<close>

record query_data =
  qd_object_types :: jsv
  qd_core_types :: jsv
  qd_filter :: jsv
  qd_joins :: jsv

text \<open>The validation of the object filter may throw itself.\<close>

definition is_valid_query_data :: "query_data \<Rightarrow> js_error + bool" where
  "is_valid_query_data d =
    rbind (is_object_filter_valid (qd_filter d)) (\<lambda>ok. Inr
      (ok \<and> are_object_join_conditions_valid (qd_joins d) \<and>
       ((qd_object_types d = JUndef \<and> is_core_type_array (qd_core_types d)) \<or>
        (qd_core_types d = JUndef \<and> is_string_array (qd_object_types d)))))"

definition new_query_data :: "jsv \<Rightarrow> jsv \<Rightarrow> jsv \<Rightarrow> jsv \<Rightarrow> js_error + query_data" where
  "new_query_data objectTypes coreTypes objectFilter objectJoinConditions =
    (let d = \<lparr>qd_object_types = objectTypes, qd_core_types = coreTypes, qd_filter = objectFilter,
              qd_joins = objectJoinConditions\<rparr>
     in rbind (is_valid_query_data d) (\<lambda>ok.
       if ok then Inr d else Inl (TypeError ''in QueryEventData: arguments not valid'')))"

definition create_query_data_from :: "jsv \<Rightarrow> js_error + query_data" where
  "create_query_data_from d =
    rbind (read_prop d ''objectTypes'') (\<lambda>ts.
      new_query_data ts (get_prop d ''coreTypes'') (get_prop d ''objectFilter'')
        (get_prop d ''objectJoinConditions''))"

definition query_data_to_json :: "query_data \<Rightarrow> jsv" where
  "query_data_to_json d =
    jobj [(''objectTypes'', qd_object_types d), (''coreTypes'', qd_core_types d),
      (''objectFilter'', qd_filter d), (''objectJoinConditions'', qd_joins d)]"

definition query_matches_object :: "conv \<Rightarrow> query_data \<Rightarrow> jsv \<Rightarrow> js_error + bool" where
  "query_matches_object cv d obj =
    (if \<not> truthy obj then Inr False
     else if qd_core_types d = JUndef \<or> some_eq (qd_core_types d) (get_prop obj ''coreType'')
     then Inr True
     else if qd_object_types d = JUndef \<or> some_eq (qd_object_types d) (get_prop obj ''objectType'')
     then Inr True
     else if qd_filter d = JUndef then Inr True
     else matches_filter cv obj (qd_filter d))"

record retrieve_data =
  rt_objects :: jsv
  rt_private :: jsv

definition new_retrieve_data :: "jsv \<Rightarrow> jsv \<Rightarrow> js_error + retrieve_data" where
  "new_retrieve_data objects privateData =
    (if is_valid_private_data privateData \<and> is_object_array objects None
     then Inr \<lparr>rt_objects = objects, rt_private = privateData\<rparr>
     else Inl (TypeError ''in RetrieveEventData: arguments not valid''))"

definition create_retrieve_data_from :: "jsv \<Rightarrow> js_error + retrieve_data" where
  "create_retrieve_data_from d =
    rbind (read_prop d ''objects'') (\<lambda>objs. new_retrieve_data objs (get_prop d ''privateData''))"

definition retrieve_data_to_json :: "retrieve_data \<Rightarrow> jsv" where
  "retrieve_data_to_json d = jobj [(''objects'', rt_objects d), (''privateData'', rt_private d)]"

text \<open>The loop over the retrieved objects; the first one that does not fit throws.\<close>

fun ensure_valid_retrieve :: "query_data \<Rightarrow> jsv list \<Rightarrow> js_error + unit" where
  "ensure_valid_retrieve q [] = Inr ()"
| "ensure_valid_retrieve q (obj # objs) =
    (if qd_core_types q \<noteq> JUndef \<and> \<not> some_eq (qd_core_types q) (get_prop obj ''coreType'')
     then Inl (TypeError ''retrieved coreType not contained in Query coreTypes'')
     else if qd_object_types q \<noteq> JUndef \<and> \<not> some_eq (qd_object_types q) (get_prop obj ''objectType'')
     then Inl (TypeError ''retrieved objectType not contained in Query objectTypes'')
     else ensure_valid_retrieve q objs)"

section \<open>Update and Complete\<close>

record update_data =
  ud_object :: jsv

definition new_update_data :: "jsv \<Rightarrow> js_error + update_data" where
  "new_update_data obj =
    (if is_object obj None then Inr \<lparr>ud_object = obj\<rparr>
     else Inl (TypeError ''in UpdateEventData: arguments not valid''))"

definition create_update_data_from :: "jsv \<Rightarrow> js_error + update_data" where
  "create_update_data_from d = rbind (read_prop d ''object'') new_update_data"

definition update_data_to_json :: "update_data \<Rightarrow> jsv" where
  "update_data_to_json d = jobj [(''object'', ud_object d)]"

record complete_data =
  co_object :: jsv
  co_private :: jsv

definition new_complete_data :: "jsv \<Rightarrow> jsv \<Rightarrow> js_error + complete_data" where
  "new_complete_data obj privateData =
    (if is_object obj None \<and> is_valid_private_data privateData
     then Inr \<lparr>co_object = obj, co_private = privateData\<rparr>
     else Inl (TypeError ''in CompleteEventData: arguments not valid''))"

definition create_complete_data_from :: "jsv \<Rightarrow> js_error + complete_data" where
  "create_complete_data_from d =
    rbind (read_prop d ''object'') (\<lambda>obj. new_complete_data obj (get_prop d ''privateData''))"

definition complete_data_to_json :: "complete_data \<Rightarrow> jsv" where
  "complete_data_to_json d = jobj [(''object'', co_object d), (''privateData'', co_private d)]"

definition ensure_valid_complete :: "update_data \<Rightarrow> complete_data \<Rightarrow> js_error + unit" where
  "ensure_valid_complete u c =
    (if \<not> strict_eq (get_prop (ud_object u) ''objectId'') (get_prop (co_object c) ''objectId'')
     then Inl (TypeError ''object ID of Complete event does not match object ID of Update event'')
     else Inr ())"

section \<open>Call and Return\<close>

record call_data =
  cl_parameters :: jsv
  cl_filter :: jsv

definition new_call_data :: "jsv \<Rightarrow> jsv \<Rightarrow> js_error + call_data" where
  "new_call_data parameters flt =
    (if (parameters = JUndef \<or> is_array parameters \<or> is_plain_object parameters) \<and>
       is_context_filter_valid flt
     then Inr \<lparr>cl_parameters = parameters, cl_filter = flt\<rparr>
     else Inl (TypeError ''in CallEventData: arguments not valid''))"

definition create_call_data_from :: "jsv \<Rightarrow> js_error + call_data" where
  "create_call_data_from d =
    rbind (read_prop d ''parameters'') (\<lambda>ps. new_call_data ps (get_prop d ''filter''))"

definition call_data_to_json :: "call_data \<Rightarrow> jsv" where
  "call_data_to_json d = jobj [(''parameters'', cl_parameters d), (''filter'', cl_filter d)]"

definition get_parameter_by_index :: "call_data \<Rightarrow> nat \<Rightarrow> jsv" where
  "get_parameter_by_index d i =
    (if \<not> is_array (cl_parameters d) then JUndef else arr_el (cl_parameters d) i)"

definition get_parameter_by_name :: "call_data \<Rightarrow> string \<Rightarrow> jsv" where
  "get_parameter_by_name d name =
    (if \<not> is_plain_object (cl_parameters d) then JUndef else get_prop (cl_parameters d) name)"

definition call_matches_filter :: "conv \<Rightarrow> call_data \<Rightarrow> jsv \<Rightarrow> js_error + bool" where
  "call_matches_filter cv d context1 =
    (if cl_filter d \<noteq> JUndef \<and> context1 \<noteq> JUndef then matches_filter cv context1 (cl_filter d)
     else if cl_filter d = JUndef \<and> context1 \<noteq> JUndef then Inr False
     else Inr True)"

record return_data =
  re_result :: jsv
  re_error :: jsv
  re_info :: jsv

definition new_return_data :: "jsv \<Rightarrow> jsv \<Rightarrow> jsv \<Rightarrow> js_error + return_data" where
  "new_return_data res err executionInfo =
    (if (res = JUndef \<and> err = JUndef) \<or> (res \<noteq> JUndef \<and> err \<noteq> JUndef) \<or>
       (err \<noteq> JUndef \<and> (\<not> is_plain_object err \<or> get_prop err ''code'' = JUndef \<or>
         get_prop err ''message'' = JUndef))
     then Inl (TypeError ''in ReturnEventData: arguments not valid'')
     else Inr \<lparr>re_result = res, re_error = err, re_info = executionInfo\<rparr>)"

definition create_return_data_from :: "jsv \<Rightarrow> js_error + return_data" where
  "create_return_data_from d =
    rbind (read_prop d ''result'') (\<lambda>res.
      new_return_data res (get_prop d ''error'') (get_prop d ''executionInfo''))"

definition return_data_to_json :: "return_data \<Rightarrow> jsv" where
  "return_data_to_json d =
    jobj [(''result'', re_result d), (''error'', re_error d), (''executionInfo'', re_info d)]"

end
