(* ===== verification/Events.thy ===== *)
theory Events
  imports EventData
begin

text \<open>
  The event classes as one type, the conversion between events and event likes that the
  communication manager performs (\<open>_createEventInstance\<close> and \<open>_createEventLike\<close> of
  \<open>src/src/com/communication-manager.ts\<close>), and the round trip through JSON.
\<close>

section \<open>Events\<close>

datatype com_event =
    AdvertiseEv advertise_data
  | DeadvertiseEv deadvertise_data
  | ChannelEv string channel_data
  | AssociateEv "string option" associate_data
  | DiscoverEv discover_data
  | ResolveEv resolve_data
  | QueryEv query_data
  | RetrieveEv retrieve_data
  | UpdateEv update_data
  | CompleteEv complete_data
  | CallEv string call_data
  | ReturnEv return_data
  | RawEv "string option" ev_data bool
  | IoValueEv ev_data bool

fun event_type_of :: "com_event \<Rightarrow> event_type" where
  "event_type_of (AdvertiseEv d) = Advertise"
| "event_type_of (DeadvertiseEv d) = Deadvertise"
| "event_type_of (ChannelEv c d) = Channel"
| "event_type_of (AssociateEv c d) = Associate"
| "event_type_of (DiscoverEv d) = Discover"
| "event_type_of (ResolveEv d) = Resolve"
| "event_type_of (QueryEv d) = Query"
| "event_type_of (RetrieveEv d) = Retrieve"
| "event_type_of (UpdateEv d) = Update"
| "event_type_of (CompleteEv d) = Complete"
| "event_type_of (CallEv c d) = Call"
| "event_type_of (ReturnEv d) = Return"
| "event_type_of (RawEv t d r) = Raw"
| "event_type_of (IoValueEv d r) = IoValue"

fun response_event_type :: "com_event \<Rightarrow> event_type option" where
  "response_event_type (DiscoverEv d) = Some Resolve"
| "response_event_type (QueryEv d) = Some Retrieve"
| "response_event_type (UpdateEv d) = Some Complete"
| "response_event_type (CallEv c d) = Some Return"
| "response_event_type e = None"

fun event_filter_of :: "com_event \<Rightarrow> string option" where
  "event_filter_of (ChannelEv c d) = Some c"
| "event_filter_of (AssociateEv c d) = c"
| "event_filter_of (CallEv c d) = Some c"
| "event_filter_of (RawEv t d r) = t"
| "event_filter_of e = None"

text \<open>The \<open>toJsonObject\<close> methods; \<open>None\<close> is \<open>undefined\<close>, for raw data.\<close>

fun to_json_object :: "com_event \<Rightarrow> jsv option" where
  "to_json_object (AdvertiseEv d) = Some (advertise_data_to_json d)"
| "to_json_object (DeadvertiseEv d) = Some (deadvertise_data_to_json d)"
| "to_json_object (ChannelEv c d) = Some (channel_data_to_json d)"
| "to_json_object (AssociateEv c d) = Some (associate_data_to_json d)"
| "to_json_object (DiscoverEv d) = Some (discover_data_to_json d)"
| "to_json_object (ResolveEv d) = Some (resolve_data_to_json d)"
| "to_json_object (QueryEv d) = Some (query_data_to_json d)"
| "to_json_object (RetrieveEv d) = Some (retrieve_data_to_json d)"
| "to_json_object (UpdateEv d) = Some (update_data_to_json d)"
| "to_json_object (CompleteEv d) = Some (complete_data_to_json d)"
| "to_json_object (CallEv c d) = Some (call_data_to_json d)"
| "to_json_object (ReturnEv d) = Some (return_data_to_json d)"
| "to_json_object (RawEv t d r) = None"
| "to_json_object (IoValueEv d r) =
    (case d of JsonData v \<Rightarrow> (if v = JUndef then None else Some v) | _ \<Rightarrow> None)"

fun payload_of :: "com_event \<Rightarrow> ev_data" where
  "payload_of (RawEv t d r) = d"
| "payload_of (IoValueEv d r) = d"
| "payload_of e = NoData"

fun retain_of :: "com_event \<Rightarrow> bool" where
  "retain_of (RawEv t d r) = r"
| "retain_of (IoValueEv d r) = r"
| "retain_of e = False"

section \<open>Constructors\<close>

definition new_advertise_event :: "advertise_data \<Rightarrow> js_error + com_event" where
  "new_advertise_event d =
    (if object_type_filter_ok (ad_object d) then Inr (AdvertiseEv d)
     else Inl (TypeError ''in AdvertiseEvent: invalid objectType''))"

definition new_update_event :: "update_data \<Rightarrow> js_error + com_event" where
  "new_update_event d =
    (if object_type_filter_ok (ud_object d) then Inr (UpdateEv d)
     else Inl (TypeError ''in UpdateEvent: invalid objectType''))"

definition filter_name_ok :: "string option \<Rightarrow> bool" where
  "filter_name_ok f = (case f of None \<Rightarrow> False | Some s \<Rightarrow> is_valid_event_filter (JStr s))"

definition new_channel_event :: "string option \<Rightarrow> channel_data \<Rightarrow> js_error + com_event" where
  "new_channel_event channelId d =
    (if filter_name_ok channelId then Inr (ChannelEv (the channelId) d)
     else Inl (TypeError ''in ChannelEvent: argument channelId is not a valid channel identifier''))"

definition new_call_event :: "string option \<Rightarrow> call_data \<Rightarrow> js_error + com_event" where
  "new_call_event operation d =
    (if filter_name_ok operation then Inr (CallEv (the operation) d)
     else Inl (TypeError ''in CallEvent: argument operation is not a valid operation name''))"

section \<open>Event likes\<close>

definition data_value :: "ev_data \<Rightarrow> jsv" where
  "data_value d = (case d of JsonData v \<Rightarrow> v | RawData s \<Rightarrow> JStr s | _ \<Rightarrow> JUndef)"

definition create_event_instance :: "event_like \<Rightarrow> js_error + com_event" where
  "create_event_instance el =
    (let v = data_value (el_data el) in
     case el_type el of
       Advertise \<Rightarrow> rbind (create_advertise_data_from v) new_advertise_event
     | Associate \<Rightarrow>
         rbind (create_associate_data_from v) (\<lambda>d. Inr (AssociateEv (el_filter el) d))
     | Deadvertise \<Rightarrow> rbind (create_deadvertise_data_from v) (\<lambda>d. Inr (DeadvertiseEv d))
     | Channel \<Rightarrow> rbind (create_channel_data_from v) (new_channel_event (el_filter el))
     | Discover \<Rightarrow> rbind (create_discover_data_from v) (\<lambda>d. Inr (DiscoverEv d))
     | Resolve \<Rightarrow> rbind (create_resolve_data_from v) (\<lambda>d. Inr (ResolveEv d))
     | Query \<Rightarrow> rbind (create_query_data_from v) (\<lambda>d. Inr (QueryEv d))
     | Retrieve \<Rightarrow> rbind (create_retrieve_data_from v) (\<lambda>d. Inr (RetrieveEv d))
     | Update \<Rightarrow> rbind (create_update_data_from v) new_update_event
     | Complete \<Rightarrow> rbind (create_complete_data_from v) (\<lambda>d. Inr (CompleteEv d))
     | Call \<Rightarrow> rbind (create_call_data_from v) (new_call_event (el_filter el))
     | Return \<Rightarrow> rbind (create_return_data_from v) (\<lambda>d. Inr (ReturnEv d))
     | Raw \<Rightarrow> Inr (RawEv (el_filter el) (el_data el) False)
     | _ \<Rightarrow> Inl (TypeError ''could not create event instance''))"

definition create_event_like ::
  "string \<Rightarrow> com_event \<Rightarrow> string option \<Rightarrow> string option \<Rightarrow> event_like" where
  "create_event_like identityId event eventTypeFilter correlationId =
    (let jsonData = to_json_object event in
     \<lparr>el_type = event_type_of event, el_filter = eventTypeFilter, el_source = Some identityId,
      el_corr = correlationId,
      el_data = (case jsonData of None \<Rightarrow> payload_of event | Some v \<Rightarrow> JsonData v),
      el_raw = (jsonData = None), el_external = False, el_retain = retain_of event\<rparr>)"

section \<open>Valid events\<close>

text \<open>What the constructors accept.\<close>

fun valid_event :: "com_event \<Rightarrow> bool" where
  "valid_event (AdvertiseEv d) =
    (new_advertise_data (ad_object d) (ad_private d) = Inr d \<and> object_type_filter_ok (ad_object d))"
| "valid_event (DeadvertiseEv d) = (new_deadvertise_data (dd_object_ids d) = Inr d)"
| "valid_event (ChannelEv c d) =
    (new_channel_data (cd_object d) (cd_objects d) (cd_private d) = Inr d \<and> filter_name_ok (Some c))"
| "valid_event (AssociateEv c d) =
    (new_associate_data (as_source d) (as_actor d) (as_route d) (as_external d) (as_rate d) = Inr d)"
| "valid_event (DiscoverEv d) =
    (new_discover_data (ds_external_id d) (ds_object_id d) (ds_object_types d) (ds_core_types d) = Inr d)"
| "valid_event (ResolveEv d) = (new_resolve_data (rs_object d) (rs_related d) (rs_private d) = Inr d)"
| "valid_event (QueryEv d) =
    (new_query_data (qd_object_types d) (qd_core_types d) (qd_filter d) (qd_joins d) = Inr d)"
| "valid_event (RetrieveEv d) = (new_retrieve_data (rt_objects d) (rt_private d) = Inr d)"
| "valid_event (UpdateEv d) =
    (new_update_data (ud_object d) = Inr d \<and> object_type_filter_ok (ud_object d))"
| "valid_event (CompleteEv d) = (new_complete_data (co_object d) (co_private d) = Inr d)"
| "valid_event (CallEv c d) =
    (new_call_data (cl_parameters d) (cl_filter d) = Inr d \<and> filter_name_ok (Some c))"
| "valid_event (ReturnEv d) = (new_return_data (re_result d) (re_error d) (re_info d) = Inr d)"
| "valid_event (RawEv t d r) = True"
| "valid_event (IoValueEv d r) = True"

lemmas new_data_defs =
  new_advertise_data_def new_deadvertise_data_def new_channel_data_def new_associate_data_def
  new_discover_data_def new_resolve_data_def new_query_data_def new_retrieve_data_def
  new_update_data_def new_complete_data_def new_call_data_def new_return_data_def

lemmas create_data_defs =
  create_advertise_data_from_def create_deadvertise_data_from_def create_channel_data_from_def
  create_associate_data_from_def create_discover_data_from_def create_resolve_data_from_def
  create_query_data_from_def create_retrieve_data_from_def create_update_data_from_def
  create_complete_data_from_def create_call_data_from_def create_return_data_from_def

lemmas to_json_defs =
  advertise_data_to_json_def deadvertise_data_to_json_def channel_data_to_json_def
  associate_data_to_json_def discover_data_to_json_def resolve_data_to_json_def
  query_data_to_json_def retrieve_data_to_json_def update_data_to_json_def
  complete_data_to_json_def call_data_to_json_def return_data_to_json_def

lemma rbind_Inr [simp]: "rbind m Inr = m"
  by (cases m) simp_all

text \<open>A data constructor returns the record of its arguments.\<close>

lemma new_data_fields:
  "new_advertise_data a b = Inr d \<Longrightarrow> ad_object d = a \<and> ad_private d = b"
  "new_deadvertise_data a = Inr e \<Longrightarrow> dd_object_ids e = a"
  "new_channel_data a b c = Inr f \<Longrightarrow> cd_object f = a \<and> cd_objects f = b \<and> cd_private f = c"
  "new_associate_data a b c x y = Inr g \<Longrightarrow>
    as_source g = a \<and> as_actor g = b \<and> as_route g = c \<and> as_external g = x \<and> as_rate g = y"
  "new_discover_data a b c x = Inr h \<Longrightarrow>
    ds_external_id h = a \<and> ds_object_id h = b \<and> ds_object_types h = c \<and> ds_core_types h = x"
  "new_resolve_data a b c = Inr i \<Longrightarrow> rs_object i = a \<and> rs_related i = b \<and> rs_private i = c"
  "new_query_data a b c x = Inr j \<Longrightarrow>
    qd_object_types j = a \<and> qd_core_types j = b \<and> qd_filter j = c \<and> qd_joins j = x"
  "new_retrieve_data a b = Inr k \<Longrightarrow> rt_objects k = a \<and> rt_private k = b"
  "new_update_data a = Inr l \<Longrightarrow> ud_object l = a"
  "new_complete_data a b = Inr m \<Longrightarrow> co_object m = a \<and> co_private m = b"
  "new_call_data a b = Inr n \<Longrightarrow> cl_parameters n = a \<and> cl_filter n = b"
  "new_return_data a b c = Inr p \<Longrightarrow> re_result p = a \<and> re_error p = b \<and> re_info p = c"
  by (auto simp: new_data_defs Let_def rbind_Inr_conv split: if_splits)

lemma new_data_again:
  "new_advertise_data a b = Inr d \<Longrightarrow> new_advertise_data (ad_object d) (ad_private d) = Inr d"
  "new_deadvertise_data a = Inr e \<Longrightarrow> new_deadvertise_data (dd_object_ids e) = Inr e"
  "new_channel_data a b c = Inr f \<Longrightarrow> new_channel_data (cd_object f) (cd_objects f) (cd_private f) = Inr f"
  "new_associate_data a b c x y = Inr g \<Longrightarrow> new_associate_data (as_source g) (as_actor g) (as_route g) (as_external g) (as_rate g) = Inr g"
  "new_discover_data a b c x = Inr h \<Longrightarrow> new_discover_data (ds_external_id h) (ds_object_id h) (ds_object_types h) (ds_core_types h) = Inr h"
  "new_resolve_data a b c = Inr i \<Longrightarrow> new_resolve_data (rs_object i) (rs_related i) (rs_private i) = Inr i"
  "new_query_data a b c x = Inr j \<Longrightarrow> new_query_data (qd_object_types j) (qd_core_types j) (qd_filter j) (qd_joins j) = Inr j"
  "new_retrieve_data a b = Inr k \<Longrightarrow> new_retrieve_data (rt_objects k) (rt_private k) = Inr k"
  "new_update_data a = Inr l \<Longrightarrow> new_update_data (ud_object l) = Inr l"
  "new_complete_data a b = Inr m \<Longrightarrow> new_complete_data (co_object m) (co_private m) = Inr m"
  "new_call_data a b = Inr n \<Longrightarrow> new_call_data (cl_parameters n) (cl_filter n) = Inr n"
  "new_return_data a b c = Inr p \<Longrightarrow> new_return_data (re_result p) (re_error p) (re_info p) = Inr p"
  by (frule new_data_fields, simp)+

lemma create_event_instance_valid:
  "create_event_instance el = Inr e \<Longrightarrow> valid_event e \<and> event_type_of e = el_type el"
  by (cases "el_type el")
    (auto simp: create_event_instance_def Let_def rbind_Inr_conv create_data_defs
      new_advertise_event_def new_update_event_def new_channel_event_def new_call_event_def
      filter_name_ok_def
      split: if_splits option.splits dest: new_data_again)

section \<open>Round trip\<close>

text \<open>A part of event data is absent or a JSON value.\<close>

definition json_part :: "jsv \<Rightarrow> bool" where
  "json_part v = (v = JUndef \<or> json v)"

fun json_event :: "com_event \<Rightarrow> bool" where
  "json_event (AdvertiseEv d) = (json_part (ad_object d) \<and> json_part (ad_private d))"
| "json_event (DeadvertiseEv d) = json_part (dd_object_ids d)"
| "json_event (ChannelEv c d) =
    (json_part (cd_object d) \<and> json_part (cd_objects d) \<and> json_part (cd_private d))"
| "json_event (AssociateEv c d) =
    (json_part (as_source d) \<and> json_part (as_actor d) \<and> json_part (as_route d) \<and>
     as_external d = JUndef \<and> json_part (as_rate d))"
| "json_event (DiscoverEv d) =
    (json_part (ds_external_id d) \<and> json_part (ds_object_id d) \<and> json_part (ds_object_types d) \<and>
     json_part (ds_core_types d))"
| "json_event (ResolveEv d) =
    (json_part (rs_object d) \<and> json_part (rs_related d) \<and> json_part (rs_private d))"
| "json_event (QueryEv d) =
    (json_part (qd_object_types d) \<and> json_part (qd_core_types d) \<and> json_part (qd_filter d) \<and>
     json_part (qd_joins d))"
| "json_event (RetrieveEv d) = (json_part (rt_objects d) \<and> json_part (rt_private d))"
| "json_event (UpdateEv d) = json_part (ud_object d)"
| "json_event (CompleteEv d) = (json_part (co_object d) \<and> json_part (co_private d))"
| "json_event (CallEv c d) = (json_part (cl_parameters d) \<and> json_part (cl_filter d))"
| "json_event (ReturnEv d) = (json_part (re_result d) \<and> json_part (re_error d) \<and> json_part (re_info d))"
| "json_event (RawEv t d r) = False"
| "json_event (IoValueEv d r) = False"

lemma json_not_undef: "json v \<Longrightarrow> v \<noteq> JUndef"
  by auto

lemma jsonify_parts:
  assumes "\<forall>e \<in> set kvs. json_part (snd e)"
  shows "jsonify (jobj kvs) = jobj (filter (\<lambda>kv. snd kv \<noteq> JUndef) kvs)"
proof -
  have clone: "js_clone v = v \<and> finite_nums v = v" if "json_part v" for v
    using that by (auto simp: json_part_def js_clone_json finite_nums_json)
  have 1: "map (\<lambda>(k, v). (k, js_clone v)) kvs = kvs"
    using assms clone by (intro map_idI) (auto split: prod.splits)
  have 2: "map (\<lambda>(k, v). (k, finite_nums v)) (filter (\<lambda>kv. snd kv \<noteq> JUndef) kvs) =
      filter (\<lambda>kv. snd kv \<noteq> JUndef) kvs"
    using assms clone by (intro map_idI) (auto split: prod.splits)
  show ?thesis unfolding jsonify_def js_clone.simps 1 by (simp add: 2)
qed

lemma get_prop_part:
  assumes "distinct (map fst kvs)" "(k, v) \<in> set kvs" "proto_prop k = JUndef"
  shows "get_prop (jobj (filter (\<lambda>kv. snd kv \<noteq> JUndef) kvs)) k = v"
proof -
  have d: "distinct (map fst (filter (\<lambda>kv. snd kv \<noteq> JUndef) kvs))"
    using assms(1) by (rule distinct_map_filter)
  show ?thesis
  proof (cases "v = JUndef")
    case True
    have "(k, w) \<notin> set (filter (\<lambda>kv. snd kv \<noteq> JUndef) kvs)" for w
      using assms(1,2) True by (auto dest: eq_key_imp_eq_value)
    then have "map_of (filter (\<lambda>kv. snd kv \<noteq> JUndef) kvs) k = None"
      by (auto simp: map_of_eq_None_iff)
    then show ?thesis using True assms(3) by simp
  next
    case False
    then have "map_of (filter (\<lambda>kv. snd kv \<noteq> JUndef) kvs) k = Some v"
      using assms(2) d by (simp add: map_of_is_SomeI)
    then show ?thesis by simp
  qed
qed

lemma read_back:
  assumes "\<forall>e \<in> set kvs. json_part (snd e)" "distinct (map fst kvs)" "(k, v) \<in> set kvs"
    "proto_prop k = JUndef"
  shows "get_prop (jsonify (jobj kvs)) k = v" "read_prop (jsonify (jobj kvs)) k = Inr v"
  using jsonify_parts [OF assms(1)] get_prop_part [OF assms(2-4)] by (simp_all add: read_prop_def)

lemma absent_back:
  assumes "\<forall>e \<in> set kvs. json_part (snd e)" "k \<notin> fst ` set kvs" "proto_prop k = JUndef"
  shows "get_prop (jsonify (jobj kvs)) k = JUndef"
proof -
  have "map_of (filter (\<lambda>kv. snd kv \<noteq> JUndef) kvs) k = None"
    using assms(2) by (force simp: map_of_eq_None_iff)
  then show ?thesis using jsonify_parts [OF assms(1)] assms(3) by simp
qed

lemma create_data_back:
  "json_event (AdvertiseEv d1) \<Longrightarrow> create_advertise_data_from (jsonify (advertise_data_to_json d1)) =
     new_advertise_data (ad_object d1) (ad_private d1)"
  "json_event (DeadvertiseEv d2) \<Longrightarrow>
     create_deadvertise_data_from (jsonify (deadvertise_data_to_json d2)) =
     new_deadvertise_data (dd_object_ids d2)"
  "json_event (ChannelEv c d3) \<Longrightarrow> create_channel_data_from (jsonify (channel_data_to_json d3)) =
     new_channel_data (cd_object d3) (cd_objects d3) (cd_private d3)"
  "json_event (AssociateEv f d4) \<Longrightarrow>
     create_associate_data_from (jsonify (associate_data_to_json d4)) =
     new_associate_data (as_source d4) (as_actor d4) (as_route d4) (as_external d4) (as_rate d4)"
  "json_event (DiscoverEv d5) \<Longrightarrow> create_discover_data_from (jsonify (discover_data_to_json d5)) =
     new_discover_data (ds_external_id d5) (ds_object_id d5) (ds_object_types d5) (ds_core_types d5)"
  "json_event (ResolveEv d6) \<Longrightarrow> create_resolve_data_from (jsonify (resolve_data_to_json d6)) =
     new_resolve_data (rs_object d6) (rs_related d6) (rs_private d6)"
  "json_event (QueryEv d7) \<Longrightarrow> create_query_data_from (jsonify (query_data_to_json d7)) =
     new_query_data (qd_object_types d7) (qd_core_types d7) (qd_filter d7) (qd_joins d7)"
  "json_event (RetrieveEv d8) \<Longrightarrow> create_retrieve_data_from (jsonify (retrieve_data_to_json d8)) =
     new_retrieve_data (rt_objects d8) (rt_private d8)"
  "json_event (UpdateEv d9) \<Longrightarrow> create_update_data_from (jsonify (update_data_to_json d9)) =
     new_update_data (ud_object d9)"
  "json_event (CompleteEv d10) \<Longrightarrow> create_complete_data_from (jsonify (complete_data_to_json d10)) =
     new_complete_data (co_object d10) (co_private d10)"
  "json_event (CallEv c d11) \<Longrightarrow> create_call_data_from (jsonify (call_data_to_json d11)) =
     new_call_data (cl_parameters d11) (cl_filter d11)"
  "json_event (ReturnEv d12) \<Longrightarrow> create_return_data_from (jsonify (return_data_to_json d12)) =
     new_return_data (re_result d12) (re_error d12) (re_info d12)"
  unfolding create_data_defs to_json_defs
  by (subst read_back(2) absent_back, simp_all add: proto_prop_def object_proto_names_def,
      ((subst read_back(1) absent_back, simp_all add: proto_prop_def object_proto_names_def)+)?)+

lemma create_event_instance_back:
  assumes "valid_event e" "json_event e" "event_filter_of e \<noteq> None \<longrightarrow> f = event_filter_of e"
    "\<forall>d. e \<noteq> AssociateEv None d"
  shows "create_event_instance (inbound (event_type_of e) f src corr
      (JsonData (jsonify (the (to_json_object e))))) = Inr e"
  using assms create_data_back
  by (cases e)
    (auto simp: create_event_instance_def inbound_def data_value_def new_advertise_event_def
      new_update_event_def new_channel_event_def new_call_event_def)

text \<open>The flag of an external route is not part of an Associate event's JSON text.\<close>

definition without_external :: "com_event \<Rightarrow> com_event" where
  "without_external e =
    (case e of AssociateEv f d \<Rightarrow> AssociateEv f (d\<lparr>as_external := JUndef\<rparr>) | _ \<Rightarrow> e)"

lemma without_external_keeps [simp]:
  "event_type_of (without_external e) = event_type_of e"
  "event_filter_of (without_external e) = event_filter_of e"
  "to_json_object (without_external e) = to_json_object e"
  "without_external e = AssociateEv None d' \<Longrightarrow> \<exists>d. e = AssociateEv None d"
  by (cases e; simp add: without_external_def associate_data_to_json_def)+

lemma without_external_valid: "valid_event e \<Longrightarrow> valid_event (without_external e)"
  by (cases e) (auto simp: without_external_def new_associate_data_def split: if_splits)

text \<open>C34: the JSON data of every valid event of the one-way, request and response types that are
  transported as JSON text survives transport, whatever optional parts are absent, up to the
  external-route flag of an Associate event, which is lost. When a peer creates an event instance
  from the JSON text of the event's data and the event's filter, it gets the same event back. Raw
  events and IO values are transported otherwise, and an Associate event needs an IO context. Every
  event instance created from inbound data, whatever it holds, has the type of the event like and
  passes the checks of its constructors.\<close>

theorem event_round_trip:
  assumes "valid_event e" "json_event (without_external e)"
    "event_filter_of e \<noteq> None \<longrightarrow> f = event_filter_of e" "\<forall>d. e \<noteq> AssociateEv None d"
  shows "create_event_instance (inbound (event_type_of e) f src corr
      (JsonData (jsonify (the (to_json_object e))))) = Inr (without_external e) \<and>
    (\<forall>el e'. create_event_instance el = Inr e' \<longrightarrow> valid_event e' \<and> event_type_of e' = el_type el)"
proof -
  have "\<forall>d. without_external e \<noteq> AssociateEv None d" using assms(4) without_external_keeps(4) by blast
  then show ?thesis
    using create_event_instance_back [OF without_external_valid [OF assms(1)] assms(2), of f src corr]
      assms(3) create_event_instance_valid by simp
qed

definition sample_complete :: complete_data where
  "sample_complete = \<lparr>co_object = sample_task, co_private = JUndef\<rparr>"

lemma json_sample_task: "json sample_task" "is_object sample_task None"
  using is_object_None [of sample_task] is_assignable_core_type [of sample_task "''Task''"] sample_task_ok
  by (auto simp: sample_task_def is_object_Some)

theorem event_round_trip_witness:
  "create_event_instance (inbound Complete None (Some ''a1'') (Some ''c1'')
     (JsonData (jsonify (complete_data_to_json sample_complete)))) = Inr (CompleteEv sample_complete)"
  using event_round_trip [of "CompleteEv sample_complete" None "Some ''a1''" "Some ''c1''"]
  by (simp add: without_external_def sample_complete_def new_complete_data_def json_sample_task is_valid_private_data_def
      json_part_def)

text \<open>The external-route flag of an Associate event is lost in transit: the
  associated actor's agent reads it as undefined, whatever the router set.\<close>

theorem associate_external_lost:
  assumes "valid_event (AssociateEv f d)" "json_part (as_rate d)" "json (as_source d)"
    "json (as_actor d)" "json_part (as_route d)"
  shows "create_event_instance (inbound Associate f src corr
      (JsonData (jsonify (the (to_json_object (AssociateEv f d)))))) =
    Inr (AssociateEv f (d\<lparr>as_external := JUndef\<rparr>))"
proof -
  let ?d = "d\<lparr>as_external := JUndef\<rparr>"
  have "json_event (AssociateEv f ?d)" using assms(2-5) by (simp add: json_part_def)
  then have "create_associate_data_from (jsonify (associate_data_to_json ?d)) =
      new_associate_data (as_source ?d) (as_actor ?d) (as_route ?d) (as_external ?d) (as_rate ?d)"
    by (rule create_data_back(4))
  moreover have "new_associate_data (as_source ?d) (as_actor ?d) (as_route ?d) JUndef (as_rate ?d) = Inr ?d"
    using assms(1) by (auto simp: new_associate_data_def split: if_splits)
  ultimately show ?thesis
    by (simp add: create_event_instance_def inbound_def data_value_def associate_data_to_json_def)
qed

theorem associate_external_lost_witness:
  "create_event_instance (inbound Associate (Some ''ctx'') None None
      (JsonData (jsonify (the (to_json_object (AssociateEv (Some ''ctx'')
        \<lparr>as_source = JStr ''s'', as_actor = JStr ''a'', as_route = JStr ''r'',
         as_external = JBool True, as_rate = JUndef\<rparr>)))))) =
    Inr (AssociateEv (Some ''ctx'')
      \<lparr>as_source = JStr ''s'', as_actor = JStr ''a'', as_route = JStr ''r'',
       as_external = JUndef, as_rate = JUndef\<rparr>)"
  using associate_external_lost [of "Some ''ctx''" "\<lparr>as_source = JStr ''s'', as_actor = JStr ''a'',
    as_route = JStr ''r'', as_external = JBool True, as_rate = JUndef\<rparr>" None None]
  by (simp add: new_associate_data_def json_part_def)

section \<open>Responses fit their requests\<close>

lemma some_eq_iff: "some_eq (JArr xs) t = (\<exists>x \<in> set xs. strict_eq x t)"
  by (simp add: some_eq_def list_ex_iff)

text \<open>A Resolve event passes the check against its Discover event exactly when the
  object it resolves, if there is one, matches the Discover event's criteria, as long as these are
  not empty strings.\<close>

theorem ensure_valid_resolve_iff:
  assumes "valid_event (DiscoverEv d)" "valid_event (ResolveEv r)" "ds_object_id d \<noteq> JStr []"
    "ds_external_id d \<noteq> JStr []"
  shows "ensure_valid_resolve d r = Inr () \<longleftrightarrow>
    rs_object r = JUndef \<or> discover_matches_object d (rs_object r)"
proof -
  have eq: "strict_eq v w = strict_eq w v" for v w
    by (cases v; cases w) (auto simp: num_eq_iff)
  have r: "rs_object r = JUndef \<or> truthy (rs_object r)"
    using assms(2) by (auto simp: new_resolve_data_def is_object_def is_plain_object_iff split: if_splits)
  have d: "is_valid_discover_data d" using assms(1)
    by (cases d) (auto simp: new_discover_data_def Let_def split: if_splits)
  have ids: "ds_object_id d = JUndef \<or> truthy (ds_object_id d)"
    "ds_external_id d = JUndef \<or> truthy (ds_external_id d)"
    using d assms(3,4) by (auto simp: is_valid_discover_data_def elim: is_str.elims)
  show ?thesis
    using r ids
    by (auto simp: ensure_valid_resolve_def discover_matches_object_def Let_def eq)
qed

definition sample_discover :: discover_data where
  "sample_discover = \<lparr>ds_external_id = JUndef, ds_object_id = JUndef, ds_object_types = JUndef,
     ds_core_types = JArr [JStr ''Task'']\<rparr>"

theorem ensure_valid_resolve_iff_witness:
  "ensure_valid_resolve sample_discover
     \<lparr>rs_object = sample_task, rs_related = JUndef, rs_private = JUndef\<rparr> = Inr ()"
proof -
  have "valid_event (DiscoverEv sample_discover)"
    by (simp add: sample_discover_def new_discover_data_def Let_def is_valid_discover_data_def
        is_core_type_array_def is_string_array_def is_core_type_iff core_type_names_def)
  moreover have "valid_event (ResolveEv \<lparr>rs_object = sample_task, rs_related = JUndef, rs_private = JUndef\<rparr>)"
    by (simp add: new_resolve_data_def json_sample_task is_valid_private_data_def)
  ultimately show ?thesis
    by (subst ensure_valid_resolve_iff)
      (simp_all add: sample_discover_def discover_matches_object_def some_eq_def sample_task_def)
qed

text \<open>A Query event without an object filter cannot be constructed although the
  filter is optional: its validation reads a property of the missing filter and throws. And a valid
  Query event accepts every object, since its match is a disjunction in which the kind of types
  that is not given counts as a match.\<close>

theorem query_filter_and_match:
  "new_query_data ts cs JUndef js = Inl (TypeError ''cannot read property skip of undefined'') \<and>
   (valid_event (QueryEv q) \<and> truthy obj \<longrightarrow> query_matches_object cv q obj = Inr True)"
proof -
  have "new_query_data ts cs JUndef js = Inl (TypeError ''cannot read property skip of undefined'')"
    by (simp add: new_query_data_def is_valid_query_data_def is_object_filter_valid_def
        is_context_filter_valid_def Let_def)
  moreover have "qd_object_types q = JUndef \<or> qd_core_types q = JUndef" if "valid_event (QueryEv q)"
    using that by (auto simp: new_query_data_def is_valid_query_data_def Let_def rbind_Inr_conv split: if_splits)
  ultimately show ?thesis by (auto simp: query_matches_object_def)
qed

definition sample_conv0 :: conv where
  "sample_conv0 = \<lparr>cv_collate = \<lambda>s t. 0, cv_num = \<lambda>s. NaN, cv_prim = Inr\<rparr>"

definition sample_query :: query_data where
  "sample_query = \<lparr>qd_object_types = JUndef, qd_core_types = JArr [JStr ''User''],
     qd_filter = jobj [], qd_joins = JUndef\<rparr>"

theorem query_filter_and_match_witness:
  "query_matches_object sample_conv0 sample_query sample_task = Inr True"
proof -
  have "valid_event (QueryEv sample_query)"
    by (simp add: sample_query_def new_query_data_def is_valid_query_data_def Let_def
        is_core_type_array_def is_string_array_def is_core_type_iff core_type_names_def
        is_object_filter_valid_def is_context_filter_valid_def are_filter_conditions_valid_def
        are_object_join_conditions_valid_def proto_prop_def object_proto_names_def)
  then show ?thesis
    using query_filter_and_match [of JUndef JUndef JUndef sample_query sample_task sample_conv0]
    by (simp add: sample_task_def)
qed

end
