(* ===== verification/CommIo.thy ===== *)
theory CommIo
  imports Events
begin

text \<open>
  IO routing in the communication manager, \<open>src/src/com/communication-manager.ts\<close> from
  \<open>_findIoPointById\<close> to \<open>_observeIoValue\<close>: which of the agent's IO sources and actors are associated
  over which route, the binding's subscriptions on the routes of its actors, and the IO state and IO
  value observables. The state is the first part of the manager's state; what observables emit is
  appended to \<open>ia_out\<close>. A JavaScript \<open>Map\<close> is an insertion-ordered association list.
\<close>

section \<open>State\<close>

datatype delivery =
    NextEvent nat com_event "string option"
  | ErrorEvent nat
  | CompleteEvent nat
  | IoStateNext string bool jsv
  | IoStateComplete string
  | IoValueNext string ev_data
  | IoValueComplete string
  | Operating bool

record io_node =
  in_name :: string
  in_id :: string
  in_sources :: "jsv list"
  in_actors :: "jsv list"
  in_characteristics :: jsv

type_synonym source_item = "string \<times> string list \<times> jsv"
type_synonym actor_items = "(string, string list) jmap"

record io_assoc =
  ia_nodes :: "io_node list"
  ia_sources :: "(string, source_item) jmap"
  ia_actors :: "(string, actor_items) jmap"
  ia_states :: "(string, bool \<times> jsv) jmap"
  ia_values :: "string list"
  ia_binding :: mqtt_binding
  ia_out :: "delivery list"

definition out :: "delivery list \<Rightarrow> 'a io_assoc_scheme \<Rightarrow> 'a io_assoc_scheme" where
  "out ds s = s\<lparr>ia_out := ia_out s @ ds\<rparr>"

definition has_id :: "string \<Rightarrow> jsv \<Rightarrow> bool" where
  "has_id objectId point = strict_eq (get_prop point ''objectId'') (JStr objectId)"

fun find_io_point_by_id :: "io_node list \<Rightarrow> string \<Rightarrow> jsv option" where
  "find_io_point_by_id [] objectId = None"
| "find_io_point_by_id (node # nodes) objectId =
    (case find (has_id objectId) (in_sources node) of
       Some source \<Rightarrow> Some source
     | None \<Rightarrow>
         (case find (has_id objectId) (in_actors node) of
            Some actor \<Rightarrow> Some actor
          | None \<Rightarrow> find_io_point_by_id nodes objectId))"

definition route_like :: "string \<Rightarrow> bool \<Rightarrow> bool \<Rightarrow> event_like" where
  "route_like route raw external =
    \<lparr>el_type = IoValue, el_filter = Some route, el_source = None, el_corr = None, el_data = NoData,
     el_raw = raw, el_external = external, el_retain = False\<rparr>"

section \<open>Associations of IO actors\<close>

text \<open>\<open>splice(indexOf(x), 1)\<close>, if there is an occurrence.\<close>

definition splice_out :: "'a \<Rightarrow> 'a list \<Rightarrow> 'a list" where
  "splice_out x xs = remove1 x xs"

text \<open>The handler applied to the items of one route: the new items, and whether the route is left
  without actors.\<close>

definition drop_source :: "string \<Rightarrow> string \<Rightarrow> actor_items \<Rightarrow> actor_items \<times> bool" where
  "drop_source ioSourceId ioActorId items =
    (case jget items ioActorId of
       None \<Rightarrow> (items, False)
     | Some sourceIds \<Rightarrow>
         (let sourceIds' = splice_out ioSourceId sourceIds;
              items' = (if sourceIds' = [] then jdel ioActorId items
                        else jset ioActorId sourceIds' items)
          in (items', items' = [])))"

definition disassociate_io_actor_items ::
  "string \<Rightarrow> string \<Rightarrow> string option \<Rightarrow> string option \<Rightarrow> 'a io_assoc_scheme \<Rightarrow> 'a io_assoc_scheme" where
  "disassociate_io_actor_items ioSourceId ioActorId currentIoRoute newIoRoute s =
    (let affected = (\<lambda>route. newIoRoute \<noteq> Some route \<and>
           (case currentIoRoute of None \<Rightarrow> True | Some c \<Rightarrow> c = [] \<or> c = route));
         handled = map (\<lambda>(route, items).
           (route, if affected route then drop_source ioSourceId ioActorId items else (items, False)))
           (ia_actors s);
         ioRoutesToUnsubscribe = map fst (filter (\<lambda>(route, items, dead). dead) handled)
     in fold (\<lambda>route s'.
          s'\<lparr>ia_actors := jdel route (ia_actors s'),
             ia_binding := unsubscribe (route_like route False False) (ia_binding s')\<rparr>)
          ioRoutesToUnsubscribe
          (s\<lparr>ia_actors := map (\<lambda>(route, items, dead). (route, items)) handled\<rparr>))"

definition add_source :: "string \<Rightarrow> string \<Rightarrow> actor_items \<Rightarrow> actor_items" where
  "add_source ioSourceId ioActorId items =
    (case jget items ioActorId of
       None \<Rightarrow> jset ioActorId [ioSourceId] items
     | Some sourceIds \<Rightarrow>
         (if ioSourceId \<in> set sourceIds then items
          else jset ioActorId (sourceIds @ [ioSourceId]) items))"

definition associate_io_actor_items ::
  "string \<Rightarrow> jsv \<Rightarrow> string \<Rightarrow> string \<Rightarrow> bool \<Rightarrow> 'a io_assoc_scheme \<Rightarrow> 'a io_assoc_scheme" where
  "associate_io_actor_items ioSourceId ioActor ioActorId ioRoute isExternalRoute s0 =
    (let s = disassociate_io_actor_items ioSourceId ioActorId None (Some ioRoute) s0 in
     case jget (ia_actors s) ioRoute of
       None \<Rightarrow>
         s\<lparr>ia_actors := jset ioRoute [(ioActorId, [ioSourceId])] (ia_actors s),
           ia_binding := subscribe
             (route_like ioRoute (truthy (get_prop ioActor ''useRawIoValues'')) isExternalRoute)
             (ia_binding s)\<rparr>
     | Some items \<Rightarrow>
         s\<lparr>ia_actors := jset ioRoute (add_source ioSourceId ioActorId items) (ia_actors s)\<rparr>)"

section \<open>Associations of IO sources\<close>

definition update_io_source_items ::
  "string \<Rightarrow> string \<Rightarrow> string option \<Rightarrow> jsv \<Rightarrow> 'a io_assoc_scheme \<Rightarrow> 'a io_assoc_scheme" where
  "update_io_source_items ioSourceId ioActorId ioRoute updateRate s =
    (case ioRoute of
       Some route \<Rightarrow>
         (case jget (ia_sources s) ioSourceId of
            None \<Rightarrow>
              s\<lparr>ia_sources := jset ioSourceId (route, [ioActorId], updateRate) (ia_sources s)\<rparr>
          | Some (current, actorIds, rate) \<Rightarrow>
              (if current = route then
                 s\<lparr>ia_sources := jset ioSourceId
                   (route, if ioActorId \<in> set actorIds then actorIds else actorIds @ [ioActorId],
                    updateRate) (ia_sources s)\<rparr>
               else
                 (let s' = fold (\<lambda>actorId.
                        disassociate_io_actor_items ioSourceId actorId (Some current) None) actorIds s
                  in s'\<lparr>ia_sources := jset ioSourceId (route, [ioActorId], updateRate) (ia_sources s')\<rparr>)))
     | None \<Rightarrow>
         (case jget (ia_sources s) ioSourceId of
            None \<Rightarrow> s
          | Some (current, actorIds, rate) \<Rightarrow>
              (let actorIds' = splice_out ioActorId actorIds in
               if actorIds' = [] then s\<lparr>ia_sources := jdel ioSourceId (ia_sources s)\<rparr>
               else s\<lparr>ia_sources := jset ioSourceId (current, actorIds', updateRate) (ia_sources s)\<rparr>)))"

section \<open>Associate events\<close>

definition io_state_next :: "string \<Rightarrow> bool \<Rightarrow> jsv \<Rightarrow> 'a io_assoc_scheme \<Rightarrow> 'a io_assoc_scheme" where
  "io_state_next pointId hasAssociations updateRate s =
    (if jhas (ia_states s) pointId then
       out [IoStateNext pointId hasAssociations updateRate]
         (s\<lparr>ia_states := jset pointId (hasAssociations, updateRate) (ia_states s)\<rparr>)
     else s)"

definition actor_has_sources :: "string \<Rightarrow> string option \<Rightarrow> 'a io_assoc_scheme \<Rightarrow> bool" where
  "actor_has_sources ioActorId ioRoute s =
    (case ioRoute of
       None \<Rightarrow> False
     | Some route \<Rightarrow>
         (case jget (ia_actors s) route of
            None \<Rightarrow> False
          | Some items \<Rightarrow>
              (case jget items ioActorId of None \<Rightarrow> False | Some sourceIds \<Rightarrow> sourceIds \<noteq> [])))"

text \<open>Valid data of an Associate event holds strings for the ids and, unless absent, the route.\<close>

definition opt_str :: "jsv \<Rightarrow> string option" where
  "opt_str v = (case v of JStr s \<Rightarrow> Some s | _ \<Rightarrow> None)"

definition handle_associate :: "associate_data \<Rightarrow> 'a io_assoc_scheme \<Rightarrow> 'a io_assoc_scheme" where
  "handle_associate d s =
    (let ioSourceId = template (opt_str (as_source d));
         ioActorId = template (opt_str (as_actor d));
         ioActor = find_io_point_by_id (ia_nodes s) ioActorId;
         isIoSourceAssociated = (find_io_point_by_id (ia_nodes s) ioSourceId \<noteq> None)
     in if \<not> isIoSourceAssociated \<and> ioActor = None then s
        else
          (let ioRoute = opt_str (as_route d);
               s1 = (if isIoSourceAssociated
                     then update_io_source_items ioSourceId ioActorId ioRoute (as_rate d) s else s);
               s2 = (case ioActor of
                       None \<Rightarrow> s1
                     | Some actor \<Rightarrow>
                         (case ioRoute of
                            Some route \<Rightarrow>
                              associate_io_actor_items ioSourceId actor ioActorId route
                                (truthy (as_external d)) s1
                          | None \<Rightarrow> disassociate_io_actor_items ioSourceId ioActorId None None s1));
               s3 = (if isIoSourceAssociated then
                       (case jget (ia_sources s2) ioSourceId of
                          None \<Rightarrow> io_state_next ioSourceId False JUndef s2
                        | Some (route, actorIds, rate) \<Rightarrow> io_state_next ioSourceId True rate s2)
                     else s2)
           in (case ioActor of
                 None \<Rightarrow> s3
               | Some actor \<Rightarrow>
                   io_state_next ioActorId (actor_has_sources ioActorId ioRoute s3) JUndef s3)))"

section \<open>IO values and IO states\<close>

definition dispatch_io_value :: "event_like \<Rightarrow> 'a io_assoc_scheme \<Rightarrow> 'a io_assoc_scheme" where
  "dispatch_io_value el s =
    (case (case el_corr el of None \<Rightarrow> None | Some route \<Rightarrow> jget (ia_actors s) route) of
       None \<Rightarrow> s
     | Some items \<Rightarrow>
         out (map (\<lambda>actorId. IoValueNext actorId (el_data el))
           (filter (\<lambda>actorId. actorId \<in> set (ia_values s)) (jkeys items))) s)"

definition observe_io_state :: "string \<Rightarrow> 'a io_assoc_scheme \<Rightarrow> (bool \<times> jsv) \<times> 'a io_assoc_scheme" where
  "observe_io_state ioPointId s =
    (case jget (ia_states s) ioPointId of
       Some item \<Rightarrow> (item, s)
     | None \<Rightarrow>
         (let item = (case jget (ia_sources s) ioPointId of
                Some (route, actorIds, rate) \<Rightarrow> (True, rate)
              | None \<Rightarrow>
                  (list_ex (\<lambda>(route, items). jhas items ioPointId) (ia_actors s), JUndef))
          in (item, s\<lparr>ia_states := jset ioPointId item (ia_states s)\<rparr>)))"

definition observe_io_value :: "string \<Rightarrow> 'a io_assoc_scheme \<Rightarrow> 'a io_assoc_scheme" where
  "observe_io_value ioActorId s =
    (if ioActorId \<in> set (ia_values s) then s else s\<lparr>ia_values := ia_values s @ [ioActorId]\<rparr>)"

definition unobserve_io_state_and_value :: "'a io_assoc_scheme \<Rightarrow> 'a io_assoc_scheme" where
  "unobserve_io_state_and_value s =
    (let s1 = out (concat (map (\<lambda>pointId. [IoStateNext pointId False JUndef, IoStateComplete pointId])
                (jkeys (ia_states s)))) s;
         s2 = fold (\<lambda>ioRoute s'.
                s'\<lparr>ia_binding := unsubscribe (route_like ioRoute False False) (ia_binding s')\<rparr>)
              (jkeys (ia_actors s1)) s1
     in out (map IoValueComplete (ia_values s2)) s2)"

end
