(* ===== verification/CommIoProps.thy ===== *)
theory CommIoProps
  imports CommIo
begin

text \<open>
  Correctness of the association bookkeeping: a well-formedness invariant of the actor items, what
  each operation does to the relation \<open>actor_assoc\<close> between actors, routes and sources, and the
  effect of an Associate event.
\<close>

section \<open>The association relation and its invariant\<close>

text \<open>The sources associated with an actor over a route.\<close>

definition actor_assoc :: "'a io_assoc_scheme \<Rightarrow> string \<Rightarrow> string \<Rightarrow> string set" where
  "actor_assoc s actorId route =
    (case jget (ia_actors s) route of
       None \<Rightarrow> {}
     | Some items \<Rightarrow> (case jget items actorId of None \<Rightarrow> {} | Some ids \<Rightarrow> set ids))"

definition items_ok :: "actor_items \<Rightarrow> bool" where
  "items_ok items = (items \<noteq> [] \<and> jwf items \<and> (\<forall>(a, ids) \<in> set items. ids \<noteq> [] \<and> distinct ids))"

definition actors_ok :: "(string, actor_items) jmap \<Rightarrow> bool" where
  "actors_ok actors = (jwf actors \<and> (\<forall>(r, items) \<in> set actors. items_ok items))"

abbreviation ia_ok :: "'a io_assoc_scheme \<Rightarrow> bool" where
  "ia_ok s \<equiv> actors_ok (ia_actors s)"

definition assoc_of :: "actor_items \<Rightarrow> string \<Rightarrow> string set" where
  "assoc_of items a = (case jget items a of None \<Rightarrow> {} | Some ids \<Rightarrow> set ids)"

lemma actor_assoc_alt:
  "actor_assoc s a r = (case jget (ia_actors s) r of None \<Rightarrow> {} | Some items \<Rightarrow> assoc_of items a)"
  by (simp add: actor_assoc_def assoc_of_def cong: option.case_cong)

lemma items_ok_get: "items_ok items \<Longrightarrow> jget items a = Some ids \<Longrightarrow> ids \<noteq> [] \<and> distinct ids"
  by (auto simp: items_ok_def dest: map_of_SomeD)

lemma in_jset: "e \<in> set (jset k v m) \<Longrightarrow> e = (k, v) \<or> e \<in> set m"
  by (induction m) (auto split: if_splits)

lemma jset_not_Nil [simp]: "jset k v m \<noteq> []"
  by (induction m) (auto split: if_splits)

section \<open>Disassociation\<close>

lemma drop_source_spec:
  assumes "items_ok items" "drop_source src act items = (items', dead)"
  shows "dead = (items' = [])" "\<not> dead \<Longrightarrow> items_ok items'"
    "assoc_of items' a = (if a = act then assoc_of items a - {src} else assoc_of items a)"
proof -
  have wf: "jwf items" "items \<noteq> []" using assms(1) by (auto simp: items_ok_def)
  show dead_iff: "dead = (items' = [])"
    using assms(2) wf by (auto simp: drop_source_def Let_def split: option.splits)
  show "items_ok items'" if "\<not> dead"
  proof (cases "jget items act")
    case None
    then show ?thesis using assms by (simp add: drop_source_def)
  next
    case (Some ids)
    have d: "distinct ids" using items_ok_get [OF assms(1) Some] by simp
    have el: "\<forall>(a, ids) \<in> set items. ids \<noteq> [] \<and> distinct ids" using assms(1) by (simp add: items_ok_def)
    show ?thesis
    proof (cases "splice_out src ids = []")
      case True
      then have i: "items' = jdel act items" using assms(2) Some by (simp add: drop_source_def Let_def)
      have "jwf items'" unfolding i using wf(1) by (rule jwf_jdel)
      moreover have "\<forall>(a, ids) \<in> set items'. ids \<noteq> [] \<and> distinct ids"
        unfolding i jdel_def using el by auto
      moreover have "items' \<noteq> []" using that dead_iff by blast
      ultimately show ?thesis unfolding items_ok_def by blast
    next
      case False
      then have i: "items' = jset act (splice_out src ids) items"
        using assms(2) Some by (simp add: drop_source_def Let_def)
      have "b \<noteq> [] \<and> distinct b" if "(a, b) \<in> set items'" for a b
        using in_jset [OF that [unfolded i]] el False d by (auto simp: splice_out_def)
      then show ?thesis using wf by (auto simp: items_ok_def i)
    qed
  qed
  show "assoc_of items' a = (if a = act then assoc_of items a - {src} else assoc_of items a)"
  proof (cases "jget items act")
    case None
    then show ?thesis using assms(2) by (auto simp: drop_source_def assoc_of_def)
  next
    case (Some ids)
    have d: "distinct ids" using items_ok_get [OF assms(1) Some] by simp
    have rest: "set (splice_out src ids) = set ids - {src}" using d by (simp add: splice_out_def)
    show ?thesis
    proof (cases "splice_out src ids = []")
      case True
      then have i: "items' = jdel act items" using assms(2) Some by (simp add: drop_source_def Let_def)
      have "set ids - {src} = {}" using rest True by simp
      then show ?thesis using Some by (cases "a = act") (simp_all add: i assoc_of_def)
    next
      case False
      then have i: "items' = jset act (splice_out src ids) items"
        using assms(2) Some by (simp add: drop_source_def Let_def)
      then show ?thesis using Some rest by (cases "a = act") (simp_all add: i assoc_of_def)
    qed
  qed
qed

lemma fold_drop_routes:
  "ia_actors (fold (\<lambda>route s'. s'\<lparr>ia_actors := jdel route (ia_actors s'),
      ia_binding := unsubscribe (route_like route False False) (ia_binding s')\<rparr>) rs s) =
    filter (\<lambda>e. fst e \<notin> set rs) (ia_actors s)"
  "ia_sources (fold (\<lambda>route s'. s'\<lparr>ia_actors := jdel route (ia_actors s'),
      ia_binding := unsubscribe (route_like route False False) (ia_binding s')\<rparr>) rs s) = ia_sources s"
  "ia_binding (fold (\<lambda>route s'. s'\<lparr>ia_actors := jdel route (ia_actors s'),
      ia_binding := unsubscribe (route_like route False False) (ia_binding s')\<rparr>) rs s) =
    fold (\<lambda>r. unsubscribe (route_like r False False)) rs (ia_binding s)"
  by (induction rs arbitrary: s) (auto simp: jdel_def intro: filter_cong)

definition affected :: "string option \<Rightarrow> string option \<Rightarrow> string \<Rightarrow> bool" where
  "affected currentIoRoute newIoRoute route =
    (newIoRoute \<noteq> Some route \<and> (case currentIoRoute of None \<Rightarrow> True | Some c \<Rightarrow> c = [] \<or> c = route))"

definition handled_items ::
  "string \<Rightarrow> string \<Rightarrow> (string \<Rightarrow> bool) \<Rightarrow> (string, actor_items) jmap \<Rightarrow>
    (string \<times> actor_items \<times> bool) list" where
  "handled_items src act p actors =
    map (\<lambda>(route, items). (route, if p route then drop_source src act items else (items, False))) actors"

lemma keys_handled: "map fst (handled_items src act p actors) = jkeys actors"
  by (simp add: handled_items_def comp_def split_beta)

lemma remove_empties:
  "distinct (map fst h) \<Longrightarrow>
    filter (\<lambda>e. fst e \<notin> fst ` set (filter (\<lambda>(r, i, dead). dead) h)) (map (\<lambda>(r, i, dead). (r, i)) h) =
    map (\<lambda>(r, i, dead). (r, i)) (filter (\<lambda>(r, i, dead). \<not> dead) h)"
proof (induction h)
  case (Cons x h)
  obtain r i e where x: "x = (r, i, e)" by (cases x) auto
  have r: "r \<notin> fst ` set h" using Cons.prems x by simp
  have "filter (\<lambda>y. fst y \<noteq> r \<and> fst y \<notin> fst ` set (filter (\<lambda>(r, i, dead). dead) h))
      (map (\<lambda>(r, i, dead). (r, i)) h) =
    filter (\<lambda>y. fst y \<notin> fst ` set (filter (\<lambda>(r, i, dead). dead) h))
      (map (\<lambda>(r, i, dead). (r, i)) h)"
    using r by (intro filter_cong) (auto simp: image_iff)
  moreover have "r \<notin> fst ` set (filter (\<lambda>(r, i, dead). dead) h)" using r by auto
  ultimately show ?case using Cons x by simp
qed simp

lemma disassociate_state:
  fixes s :: "'a io_assoc_scheme" and src act c n
  defines "h \<equiv> handled_items src act (affected c n) (ia_actors s)"
  assumes "jwf (ia_actors s)"
  shows "ia_actors (disassociate_io_actor_items src act c n s) =
      map (\<lambda>(r, i, dead). (r, i)) (filter (\<lambda>(r, i, dead). \<not> dead) h)"
    "ia_sources (disassociate_io_actor_items src act c n s) = ia_sources s"
    "ia_binding (disassociate_io_actor_items src act c n s) =
      fold (\<lambda>r. unsubscribe (route_like r False False))
        (map fst (filter (\<lambda>(r, i, dead). dead) h)) (ia_binding s)"
proof -
  have d: "distinct (map fst h)" using assms by (simp add: keys_handled h_def)
  have e: "disassociate_io_actor_items src act c n s =
      fold (\<lambda>route s'. s'\<lparr>ia_actors := jdel route (ia_actors s'),
          ia_binding := unsubscribe (route_like route False False) (ia_binding s')\<rparr>)
        (map fst (filter (\<lambda>(r, i, dead). dead) h))
        (s\<lparr>ia_actors := map (\<lambda>(r, i, dead). (r, i)) h\<rparr>)"
    by (simp add: disassociate_io_actor_items_def Let_def h_def handled_items_def affected_def)
  show "ia_actors (disassociate_io_actor_items src act c n s) =
      map (\<lambda>(r, i, dead). (r, i)) (filter (\<lambda>(r, i, dead). \<not> dead) h)"
    unfolding e fold_drop_routes using remove_empties [OF d] by simp
  show "ia_sources (disassociate_io_actor_items src act c n s) = ia_sources s"
    "ia_binding (disassociate_io_actor_items src act c n s) =
      fold (\<lambda>r. unsubscribe (route_like r False False))
        (map fst (filter (\<lambda>(r, i, dead). dead) h)) (ia_binding s)"
    unfolding e fold_drop_routes by simp_all
qed

lemma jget_handled:
  "distinct (map fst h) \<Longrightarrow>
    jget (map (\<lambda>(r, i, dead). (r, i)) (filter (\<lambda>(r, i, dead). \<not> dead) h)) r =
    (case map_of h r of None \<Rightarrow> None | Some (i, dead) \<Rightarrow> if dead then None else Some i)"
proof (induction h)
  case (Cons x h)
  obtain r' i e where x: "x = (r', i, e)" by (cases x) auto
  have "map_of h r = None" if "r = r'"
    using Cons.prems x that by (simp add: map_of_eq_None_iff)
  then show ?case using Cons x by auto
qed simp

lemma map_of_handled:
  "map_of (handled_items src act p actors) r =
    (case jget actors r of
       None \<Rightarrow> None
     | Some items \<Rightarrow> Some (if p r then drop_source src act items else (items, False)))"
  by (induction actors) (auto simp: handled_items_def)

lemma jget_disassociate:
  assumes "actors_ok (ia_actors s)"
  shows "jget (ia_actors (disassociate_io_actor_items src act c n s)) r =
    (case jget (ia_actors s) r of
       None \<Rightarrow> None
     | Some items \<Rightarrow>
         (if affected c n r then
            (let items' = fst (drop_source src act items) in if items' = [] then None else Some items')
          else Some items))"
proof -
  have wf: "jwf (ia_actors s)" using assms by (simp add: actors_ok_def)
  have d: "distinct (map fst (handled_items src act (affected c n) (ia_actors s)))"
    using wf by (simp add: keys_handled)
  have ok: "items_ok items" if "jget (ia_actors s) r = Some items" for items
    using that assms by (auto simp: actors_ok_def dest: map_of_SomeD)
  show ?thesis
  proof (cases "jget (ia_actors s) r")
    case None
    then show ?thesis by (simp add: disassociate_state(1) [OF wf] jget_handled [OF d] map_of_handled)
  next
    case (Some items)
    obtain items' dead where ds: "drop_source src act items = (items', dead)" by fastforce
    show ?thesis
      using Some drop_source_spec(1) [OF ok [OF Some] ds]
      by (simp add: disassociate_state(1) [OF wf] jget_handled [OF d] map_of_handled ds)
  qed
qed

lemma actors_ok_disassociate:
  assumes "actors_ok (ia_actors s)"
  shows "actors_ok (ia_actors (disassociate_io_actor_items src act c n s))"
proof -
  let ?s = "disassociate_io_actor_items src act c n s"
  have wf: "jwf (ia_actors s)" using assms by (simp add: actors_ok_def)
  have "distinct (map fst (handled_items src act (affected c n) (ia_actors s)))"
    using wf by (simp add: keys_handled)
  then have "jwf (ia_actors ?s)"
    unfolding disassociate_state(1) [OF wf]
    by (simp add: comp_def split_beta distinct_map_filter)
  moreover have "items_ok items'" if "(r, items') \<in> set (ia_actors ?s)" for r items'
  proof -
    have "jget (ia_actors ?s) r = Some items'" using that calculation by simp
    moreover have "items_ok items" if "jget (ia_actors s) r = Some items" for items
      using that assms by (auto simp: actors_ok_def dest: map_of_SomeD)
    ultimately show ?thesis
      using drop_source_spec(1,2) [of _ src act items']
      by (auto simp: jget_disassociate [OF assms] Let_def split: option.splits if_splits)
        (metis prod.collapse drop_source_spec(1,2))
  qed
  ultimately show ?thesis by (auto simp: actors_ok_def)
qed

lemma actor_assoc_disassociate:
  assumes "actors_ok (ia_actors s)"
  shows "actor_assoc (disassociate_io_actor_items src act c n s) a r =
    (if a = act \<and> affected c n r then actor_assoc s a r - {src} else actor_assoc s a r)"
proof (cases "jget (ia_actors s) r")
  case None
  then show ?thesis by (simp add: actor_assoc_alt jget_disassociate [OF assms])
next
  case (Some items)
  then have ok: "items_ok items" using assms by (auto simp: actors_ok_def dest: map_of_SomeD)
  obtain items' e where d: "drop_source src act items = (items', e)" by fastforce
  have "assoc_of [] a = {}" by (simp add: assoc_of_def)
  then show ?thesis
    using Some d drop_source_spec(3) [OF ok d, of a]
    by (auto simp: actor_assoc_alt jget_disassociate [OF assms] Let_def)
qed

section \<open>Association\<close>

lemma add_source_spec:
  assumes "items_ok items"
  shows "items_ok (add_source src act items)"
    "assoc_of (add_source src act items) a =
      (if a = act then insert src (assoc_of items a) else assoc_of items a)"
proof -
  have wf: "jwf items" "items \<noteq> []" "\<forall>(a, ids) \<in> set items. ids \<noteq> [] \<and> distinct ids"
    using assms by (auto simp: items_ok_def)
  have ok: "items_ok (jset act ids items)" if "ids \<noteq> []" "distinct ids" for ids
  proof -
    have "b \<noteq> [] \<and> distinct b" if "(a, b) \<in> set (jset act ids items)" for a b
      using in_jset [OF that] wf(3) \<open>ids \<noteq> []\<close> \<open>distinct ids\<close> by auto
    then show ?thesis using wf(1) by (auto simp: items_ok_def)
  qed
  show "items_ok (add_source src act items)"
  proof (cases "jget items act")
    case None
    then show ?thesis using ok [of "[src]"] by (simp add: add_source_def)
  next
    case (Some ids)
    then show ?thesis
      using ok [of "ids @ [src]"] items_ok_get [OF assms Some] assms by (simp add: add_source_def)
  qed
  show "assoc_of (add_source src act items) a =
      (if a = act then insert src (assoc_of items a) else assoc_of items a)"
    by (auto simp: add_source_def assoc_of_def split: option.splits)
qed

lemma actors_ok_jset:
  assumes "actors_ok actors" "items_ok items"
  shows "actors_ok (jset r items actors)"
proof -
  have "items_ok b" if "(a, b) \<in> set (jset r items actors)" for a b
    using in_jset [OF that] assms by (auto simp: actors_ok_def)
  then show ?thesis using assms(1) by (auto simp: actors_ok_def)
qed

lemma actor_assoc_jset:
  "actor_assoc (s\<lparr>ia_actors := jset r0 items (ia_actors s)\<rparr>) a r =
    (if r = r0 then assoc_of items a else actor_assoc s a r)"
  "actor_assoc (s\<lparr>ia_actors := jset r0 items (ia_actors s), ia_binding := b\<rparr>) a r =
    (if r = r0 then assoc_of items a else actor_assoc s a r)"
  by (simp_all add: actor_assoc_alt)

lemma associate_spec:
  assumes "actors_ok (ia_actors s)"
  shows "actors_ok (ia_actors (associate_io_actor_items src actor act route ext s))"
    "actor_assoc (associate_io_actor_items src actor act route ext s) a r =
      (if a = act then if r = route then insert src (actor_assoc s a r) else actor_assoc s a r - {src}
       else actor_assoc s a r)"
    "ia_sources (associate_io_actor_items src actor act route ext s) = ia_sources s"
proof -
  let ?d = "disassociate_io_actor_items src act None (Some route) s"
  have d: "actors_ok (ia_actors ?d)" using assms by (rule actors_ok_disassociate)
  have sources: "ia_sources ?d = ia_sources s"
    using assms by (intro disassociate_state(2)) (simp add: actors_ok_def)
  have assoc: "actor_assoc ?d a r = (if a = act \<and> r \<noteq> route then actor_assoc s a r - {src}
      else actor_assoc s a r)" for a r
    using actor_assoc_disassociate [OF assms, of src act None "Some route" a r]
    by (auto simp: affected_def)
  have one: "items_ok [(act, [src])]" by (simp add: items_ok_def)
  show "actors_ok (ia_actors (associate_io_actor_items src actor act route ext s))"
  proof (cases "jget (ia_actors ?d) route")
    case None
    then show ?thesis
      using actors_ok_jset [OF d one] by (simp add: associate_io_actor_items_def Let_def)
  next
    case (Some items)
    then have "items_ok items" using d by (auto simp: actors_ok_def dest: map_of_SomeD)
    then show ?thesis
      using Some actors_ok_jset [OF d add_source_spec(1)]
      by (simp add: associate_io_actor_items_def Let_def)
  qed
  show "actor_assoc (associate_io_actor_items src actor act route ext s) a r =
      (if a = act then if r = route then insert src (actor_assoc s a r) else actor_assoc s a r - {src}
       else actor_assoc s a r)"
  proof (cases "jget (ia_actors ?d) route")
    case None
    then have d0: "actor_assoc ?d a route = {}" by (simp add: actor_assoc_def)
    have e: "associate_io_actor_items src actor act route ext s =
        ?d\<lparr>ia_actors := jset route [(act, [src])] (ia_actors ?d), ia_binding := subscribe
          (route_like route (truthy (get_prop actor ''useRawIoValues'')) ext) (ia_binding ?d)\<rparr>"
      using None by (simp add: associate_io_actor_items_def Let_def)
    have "assoc_of [(act, [src])] a = (if a = act then {src} else {})"
      by (simp add: assoc_of_def)
    then show ?thesis
      unfolding e actor_assoc_jset using assoc [of a r] assoc [of a route] d0 by auto
  next
    case (Some items)
    then have ok: "items_ok items" using d by (auto simp: actors_ok_def dest: map_of_SomeD)
    have items: "assoc_of items a = actor_assoc ?d a route" using Some by (simp add: actor_assoc_alt)
    have e: "associate_io_actor_items src actor act route ext s =
        ?d\<lparr>ia_actors := jset route (add_source src act items) (ia_actors ?d)\<rparr>"
      using Some by (simp add: associate_io_actor_items_def Let_def)
    show ?thesis
      unfolding e actor_assoc_jset add_source_spec(2) [OF ok] items
      using assoc [of a r] assoc [of a route] by auto
  qed
  show "ia_sources (associate_io_actor_items src actor act route ext s) = ia_sources s"
    using sources by (simp add: associate_io_actor_items_def Let_def split: option.splits)
qed

section \<open>Source items\<close>

lemma fold_disassociate:
  assumes "actors_ok (ia_actors s)"
  shows "actors_ok (ia_actors (fold (\<lambda>x. disassociate_io_actor_items src x (Some c) None) xs s)) \<and>
    (\<forall>a r. actor_assoc (fold (\<lambda>x. disassociate_io_actor_items src x (Some c) None) xs s) a r =
      (if a \<in> set xs \<and> affected (Some c) None r then actor_assoc s a r - {src} else actor_assoc s a r))"
  using assms
proof (induction xs arbitrary: s)
  case (Cons x xs)
  let ?s = "disassociate_io_actor_items src x (Some c) None s"
  have "actors_ok (ia_actors ?s)" using Cons.prems by (rule actors_ok_disassociate)
  from Cons.IH [OF this] show ?case
    by (auto simp: actor_assoc_disassociate [OF Cons.prems])
qed simp

lemma update_sources_spec:
  assumes "actors_ok (ia_actors s)"
  shows "actors_ok (ia_actors (update_io_source_items src act route rate s))"
    "actor_assoc (update_io_source_items src act route rate s) a r - {src} = actor_assoc s a r - {src}"
    "src \<in> actor_assoc (update_io_source_items src act route rate s) a r \<Longrightarrow> src \<in> actor_assoc s a r"
proof -
  have same: "actor_assoc (s\<lparr>ia_sources := x\<rparr>) a r = actor_assoc s a r" for s :: "'a io_assoc_scheme" and x
    by (simp add: actor_assoc_def)
  let ?u = "update_io_source_items src act route rate s"
  have "actors_ok (ia_actors ?u) \<and>
      (actor_assoc ?u a r = actor_assoc s a r \<or> actor_assoc ?u a r = actor_assoc s a r - {src})"
  proof (cases route)
    case None
    then show ?thesis
      using assms
      by (auto simp: update_io_source_items_def Let_def same split: option.splits)
  next
    case (Some rt)
    show ?thesis
    proof (cases "jget (ia_sources s) src")
      case None
      then show ?thesis using Some assms by (simp add: update_io_source_items_def same)
    next
      case (Some item)
      obtain current ids rt' where item: "item = (current, ids, rt')" by (cases item) auto
      show ?thesis
        using fold_disassociate [OF assms, of src current ids] assms Some item \<open>route = Some rt\<close>
        by (auto simp: update_io_source_items_def Let_def same)
    qed
  qed
  then show "actors_ok (ia_actors ?u)" "actor_assoc ?u a r - {src} = actor_assoc s a r - {src}"
    "src \<in> actor_assoc ?u a r \<Longrightarrow> src \<in> actor_assoc s a r"
    by auto
qed

section \<open>Associate events\<close>

lemma io_state_next_sel [simp]:
  "ia_actors (io_state_next p b v s) = ia_actors s" "ia_sources (io_state_next p b v s) = ia_sources s"
  "ia_nodes (io_state_next p b v s) = ia_nodes s"
  "ia_binding (io_state_next p b v s) = ia_binding s" "ia_values (io_state_next p b v s) = ia_values s"
  "jget (ia_states (io_state_next p b v s)) q =
    (if p = q \<and> jget (ia_states s) p \<noteq> None then Some (b, v) else jget (ia_states s) q)"
  by (auto simp: io_state_next_def out_def jhas_def)

lemma actor_assoc_cong: "ia_actors t = ia_actors s \<Longrightarrow> actor_assoc t = actor_assoc s"
  by (simp add: actor_assoc_def fun_eq_iff)

lemma fold_keeps:
  "(\<And>x t. x \<in> set xs \<Longrightarrow> g (f x t) = g t) \<Longrightarrow> g (fold f xs s) = g s"
  by (induction xs arbitrary: s) simp_all

lemma disassociate_keeps [simp]:
  "ia_states (disassociate_io_actor_items src act c n s) = ia_states s"
  "ia_nodes (disassociate_io_actor_items src act c n s) = ia_nodes s"
  by (simp_all add: disassociate_io_actor_items_def Let_def fold_keeps [where g = ia_states]
      fold_keeps [where g = ia_nodes])

lemma associate_keeps [simp]:
  "ia_states (associate_io_actor_items src actor act route ext s) = ia_states s"
  "ia_nodes (associate_io_actor_items src actor act route ext s) = ia_nodes s"
  by (simp_all add: associate_io_actor_items_def Let_def split: option.splits)

lemma update_keeps [simp]:
  "ia_states (update_io_source_items src act route rate s) = ia_states s"
  "ia_nodes (update_io_source_items src act route rate s) = ia_nodes s"
  by (auto simp: update_io_source_items_def Let_def fold_keeps [where g = ia_states]
      fold_keeps [where g = ia_nodes] split: option.splits)

lemma opt_str_JStr [simp]: "opt_str (JStr x) = Some x"
  by (simp add: opt_str_def)

lemma handle_associate_actor:
  assumes "actors_ok (ia_actors s)" "as_source d = JStr src" "as_actor d = JStr act"
    "find_io_point_by_id (ia_nodes s) act = Some actor"
  defines "s' \<equiv> handle_associate d s"
  shows "actors_ok (ia_actors s') \<and>
    (\<forall>r. src \<in> actor_assoc s' act r \<longleftrightarrow> opt_str (as_route d) = Some r) \<and>
    (\<forall>a r. actor_assoc s' a r - {src} = actor_assoc s a r - {src}) \<and>
    (\<forall>a r. a \<noteq> act \<longrightarrow> src \<in> actor_assoc s' a r \<longrightarrow> src \<in> actor_assoc s a r) \<and>
    (jget (ia_states s) act \<noteq> None \<longrightarrow>
      jget (ia_states s') act = Some (opt_str (as_route d) \<noteq> None, JUndef))"
proof -
  define own where "own = (find_io_point_by_id (ia_nodes s) src \<noteq> None)"
  define s1 where "s1 = (if own then update_io_source_items src act (opt_str (as_route d)) (as_rate d) s
      else s)"
  define s2 where "s2 = (case opt_str (as_route d) of
      Some route \<Rightarrow> associate_io_actor_items src actor act route (truthy (as_external d)) s1
    | None \<Rightarrow> disassociate_io_actor_items src act None None s1)"
  define s3 where "s3 = (if own then (case jget (ia_sources s2) src of
        None \<Rightarrow> io_state_next src False JUndef s2
      | Some (route, actorIds, rate) \<Rightarrow> io_state_next src True rate s2)
    else s2)"
  have s': "s' = io_state_next act (actor_has_sources act (opt_str (as_route d)) s3) JUndef s3"
    unfolding s'_def handle_associate_def Let_def s3_def s2_def s1_def own_def assms(2-4) opt_str_JStr
      template_simps
    by (cases "find_io_point_by_id (ia_nodes s) src")
      (simp_all add: assms(4) cong: if_cong option.case_cong)
  have ok1: "actors_ok (ia_actors s1)"
    using assms(1) update_sources_spec(1) [OF assms(1)] by (simp add: s1_def)
  have a1: "actor_assoc s1 a r - {src} = actor_assoc s a r - {src}"
    "src \<in> actor_assoc s1 a r \<Longrightarrow> src \<in> actor_assoc s a r" for a r
    using update_sources_spec(2,3) [OF assms(1)] by (auto simp: s1_def split: if_splits)
  have ok2: "actors_ok (ia_actors s2)"
    by (simp add: s2_def associate_spec(1) [OF ok1] actors_ok_disassociate [OF ok1] split: option.splits)
  have a2: "actor_assoc s2 a r = (if a = act then
        (if opt_str (as_route d) = Some r then insert src (actor_assoc s1 a r)
         else actor_assoc s1 a r - {src})
      else actor_assoc s1 a r)" for a r
    using associate_spec(2) [OF ok1] actor_assoc_disassociate [OF ok1, of src act None None a r]
    by (auto simp: s2_def affected_def split: option.splits)
  have act3: "ia_actors s3 = ia_actors s2" by (simp add: s3_def split: option.splits prod.splits)
  have fin: "ia_actors s' = ia_actors s2" "actor_assoc s' = actor_assoc s2"
    using act3 by (auto simp: s' intro: actor_assoc_cong)
  have has: "actor_has_sources act (opt_str (as_route d)) s3 = (opt_str (as_route d) \<noteq> None)"
  proof (cases "opt_str (as_route d)")
    case (Some r)
    then have "src \<in> actor_assoc s2 act r" using a2 [of act r] by simp
    then show ?thesis
      using Some act3 by (auto simp: actor_has_sources_def actor_assoc_def split: option.splits)
  qed (simp add: actor_has_sources_def)
  have st: "jget (ia_states s3) act \<noteq> None" if "jget (ia_states s) act \<noteq> None"
    using that by (auto simp: s3_def s2_def s1_def split: option.splits)
  have pair: "src \<in> actor_assoc s2 act r \<longleftrightarrow> opt_str (as_route d) = Some r" for r
    using a2 [of act r] by (cases "opt_str (as_route d) = Some r") simp_all
  have others: "actor_assoc s2 a r - {src} = actor_assoc s a r - {src}" for a r
    using a2 [of a r] a1(1) [of a r] by (auto split: if_splits)
  have grow: "a \<noteq> act \<Longrightarrow> src \<in> actor_assoc s2 a r \<Longrightarrow> src \<in> actor_assoc s a r" for a r
    using a2 [of a r] a1(2) [of a r] by simp
  have "jget (ia_states s') act = Some (opt_str (as_route d) \<noteq> None, JUndef)"
    if "jget (ia_states s) act \<noteq> None"
    using st [OF that] has by (simp add: s')
  then show ?thesis
    using ok2 pair others grow fin by simp
qed

text \<open>C37: an Associate event for one of the agent's own actors, in a state with a well-formed table of
  actors, which it preserves, makes its source and actor associated over exactly the event's route:
  previous routes of the pair are given up, an event without a route ends the association, and the
  associations of every other source are untouched. If the actor's state is observed, its observable
  then reports associations exactly when this event has a route, so after a disassociation it reports
  none even if other sources stay associated with the actor, which \<open>disassociation_reports_none\<close>
  shows.\<close>

theorem associate_event_effect:
  assumes "actors_ok (ia_actors s)" "as_source d = JStr src" "as_actor d = JStr act"
    "find_io_point_by_id (ia_nodes s) act = Some actor"
  shows "actors_ok (ia_actors (handle_associate d s)) \<and>
    (\<forall>r. src \<in> actor_assoc (handle_associate d s) act r \<longleftrightarrow> opt_str (as_route d) = Some r) \<and>
    (\<forall>a r. actor_assoc (handle_associate d s) a r - {src} = actor_assoc s a r - {src}) \<and>
    (jget (ia_states s) act \<noteq> None \<longrightarrow>
      jget (ia_states (handle_associate d s)) act = Some (opt_str (as_route d) \<noteq> None, JUndef))"
  using handle_associate_actor [OF assms] by blast

definition sample_actor :: jsv where
  "sample_actor = jobj [(''objectId'', JStr ''act'')]"

definition sample_assoc :: io_assoc where
  "sample_assoc = \<lparr>ia_nodes = [\<lparr>in_name = ''ctx'', in_id = ''n1'', in_sources = [],
     in_actors = [sample_actor], in_characteristics = JUndef\<rparr>], ia_sources = [],
     ia_actors = [(''r'', [(''act'', [''s1'', ''s2''])])], ia_states = [(''act'', (True, JUndef))],
     ia_values = [], ia_binding = new_binding None False, ia_out = []\<rparr>"

definition sample_disassociation :: associate_data where
  "sample_disassociation = \<lparr>as_source = JStr ''s1'', as_actor = JStr ''act'', as_route = JUndef,
     as_external = JUndef, as_rate = JUndef\<rparr>"

lemma sample_assoc_ok:
  "actors_ok (ia_actors sample_assoc)" "as_source sample_disassociation = JStr ''s1''"
  "as_actor sample_disassociation = JStr ''act''"
  "find_io_point_by_id (ia_nodes sample_assoc) ''act'' = Some sample_actor"
  "''s2'' \<in> actor_assoc sample_assoc ''act'' ''r''" "jget (ia_states sample_assoc) ''act'' \<noteq> None"
  "opt_str (as_route sample_disassociation) = None"
  by (simp_all add: sample_assoc_def sample_disassociation_def actors_ok_def items_ok_def has_id_def
      sample_actor_def actor_assoc_def opt_str_def)

theorem associate_event_effect_witness:
  "''s1'' \<notin> actor_assoc (handle_associate sample_disassociation sample_assoc) ''act'' ''r'' \<and>
   ''s2'' \<in> actor_assoc (handle_associate sample_disassociation sample_assoc) ''act'' ''r''"
  using associate_event_effect [OF sample_assoc_ok(1-4)] sample_assoc_ok(5,7) by auto

text \<open>When one of several sources of an actor is disassociated, the actor's state
  observable reports that it has no associations, although another source is still associated with
  it over the same route.\<close>

theorem disassociation_reports_none:
  assumes "actors_ok (ia_actors s)" "as_source d = JStr src" "as_actor d = JStr act"
    "find_io_point_by_id (ia_nodes s) act = Some actor" "opt_str (as_route d) = None"
    "jget (ia_states s) act \<noteq> None" "other \<in> actor_assoc s act r" "other \<noteq> src"
  shows "jget (ia_states (handle_associate d s)) act = Some (False, JUndef) \<and>
    other \<in> actor_assoc (handle_associate d s) act r"
  using handle_associate_actor [OF assms(1-4)] assms(5-8) by auto

theorem disassociation_reports_none_witness:
  "jget (ia_states (handle_associate sample_disassociation sample_assoc)) ''act'' = Some (False, JUndef) \<and>
   ''s2'' \<in> actor_assoc (handle_associate sample_disassociation sample_assoc) ''act'' ''r''"
  using disassociation_reports_none [OF sample_assoc_ok(1-4,7,6,5)] by simp

text \<open>An IO value that arrives over a route reaches, once each, exactly the observed actors that
  are associated over that route, and no other state changes.\<close>

theorem io_value_reaches_actors:
  assumes "actors_ok (ia_actors s)" "el_corr el = Some route"
  shows "\<exists>as. dispatch_io_value el s = s\<lparr>ia_out := ia_out s @ map (\<lambda>a. IoValueNext a (el_data el)) as\<rparr> \<and>
    distinct as \<and> set as = {a. a \<in> set (ia_values s) \<and> actor_assoc s a route \<noteq> {}}"
proof (cases "jget (ia_actors s) route")
  case None
  then show ?thesis
    using assms(2)
    by (intro exI [of _ "[]"]) (simp add: dispatch_io_value_def actor_assoc_def)
next
  case (Some items)
  then have ok: "items_ok items" using assms(1) by (auto simp: actors_ok_def dest: map_of_SomeD)
  have "a \<in> fst ` set items \<longleftrightarrow> actor_assoc s a route \<noteq> {}" for a
  proof
    assume "a \<in> fst ` set items"
    then have "jget items a \<noteq> None" by (simp add: map_of_eq_None_iff)
    then obtain ids where ids: "jget items a = Some ids" by blast
    then have "ids \<noteq> []" using items_ok_get [OF ok] by blast
    then show "actor_assoc s a route \<noteq> {}" using ids Some by (simp add: actor_assoc_def)
  next
    assume "actor_assoc s a route \<noteq> {}"
    then have "jget items a \<noteq> None" using Some by (cases "jget items a") (simp_all add: actor_assoc_def)
    then show "a \<in> fst ` set items" by (simp add: map_of_eq_None_iff)
  qed
  moreover have "jwf items" using ok by (simp add: items_ok_def)
  ultimately show ?thesis
    using assms(2) Some
    by (intro exI [of _ "filter (\<lambda>a. a \<in> set (ia_values s)) (jkeys items)"])
      (auto simp: dispatch_io_value_def out_def)
qed

theorem io_value_reaches_actors_witness:
  "\<exists>as. dispatch_io_value ((route_like ''r'' False False)\<lparr>el_corr := Some ''r''\<rparr>)
      (sample_assoc\<lparr>ia_values := [''act'']\<rparr>) =
    sample_assoc\<lparr>ia_values := [''act''], ia_out := map (\<lambda>a. IoValueNext a NoData) as\<rparr> \<and>
    set as = {''act''}"
proof -
  let ?s = "sample_assoc\<lparr>ia_values := [''act'']\<rparr>"
  have "{a. a \<in> set (ia_values ?s) \<and> actor_assoc ?s a ''r'' \<noteq> {}} = {''act''}"
    by (auto simp: actor_assoc_def sample_assoc_def)
  moreover have "ia_out ?s = []" by (simp add: sample_assoc_def)
  moreover have "actors_ok (ia_actors ?s)" using sample_assoc_ok(1) by simp
  ultimately show ?thesis
    using io_value_reaches_actors [of ?s "(route_like ''r'' False False)\<lparr>el_corr := Some ''r''\<rparr>" "''r''"]
    by (auto simp: route_like_def)
qed

end
