(* ===== verification/CommManager.thy ===== *)
theory CommManager
  imports CommIo
begin

text \<open>
  The communication manager, \<open>src/src/com/communication-manager.ts\<close>: observation of events with one
  shared subscription per event type and filter, publication of events, two-way events with their
  responses, dispatching of inbound events, and starting, stopping and disposing the manager.

  Observables are RxJS observables. What they do is written out where the code creates them: the
  items keep their subscribers, an observer whose predicate or callback throws is unsubscribed.
  Callbacks of the application are represented by what they are given, appended to \<open>ia_out\<close>; what the
  application does then is a later operation. Observables refer to their items, so items live in a
  heap and are never removed from it. The identifiers of \<open>newUuid\<close> are a parameter.
\<close>

section \<open>State\<close>

datatype event_test = AnyEvent | ObjectTypeIs string | ContextMatches jsv

datatype observer = App nat event_test | HandleAssociate | ResolveIoNodes | ResolveIdentity

record request_item =
  rq_id :: string
  rq_like :: event_like
  rq_subscribers :: "observer list"
  rq_cleanup :: bool \<comment> \<open>\<open>cleanup\<close> is still defined\<close>

record response_item =
  rp_request :: com_event
  rp_corr :: string
  rp_filter :: "string option" \<comment> \<open>the filter the request is published with\<close>
  rp_like :: event_like
  rp_subscribers :: "observer list"
  rp_cleanup :: bool \<comment> \<open>\<open>_cleanup\<close>, \<open>publisher\<close> and \<open>request\<close> are still defined\<close>
  rp_finished :: bool \<comment> \<open>\<open>_hasLastObserverUnsubscribed\<close>\<close>

text \<open>The configuration of a container that the manager reads: the identity and the IO nodes of the
  common options, and the communication options.\<close>

record io_node_config =
  ic_sources :: "jsv list"
  ic_actors :: "jsv list"
  ic_characteristics :: jsv

record comm_options =
  op_namespace :: "string option"
  op_cross :: "bool option"

record comm_config =
  cf_identity :: jsv
  cf_io_nodes :: "(string, io_node_config) jmap"
  cf_options :: comm_options

record comm_manager = io_assoc +
  cm_config :: comm_config
  cm_uuids :: nat
  cm_request_heap :: "request_item list"
  cm_response_heap :: "response_item list"
  cm_requests :: "(string, nat) jmap"
  cm_responses :: "(string, nat) jmap"
  cm_started :: bool
  cm_disposed :: bool
  cm_unjoined :: "mqtt_binding list" \<comment> \<open>bindings of the past\<close>

definition identity_id :: "comm_manager \<Rightarrow> string" where
  "identity_id s = (case get_prop (cf_identity (cm_config s)) ''objectId'' of JStr i \<Rightarrow> i | _ \<Rightarrow> [])"

definition on_binding :: "(mqtt_binding \<Rightarrow> mqtt_binding) \<Rightarrow> comm_manager \<Rightarrow> comm_manager" where
  "on_binding f s = s\<lparr>ia_binding := f (ia_binding s)\<rparr>"

section \<open>Observing one-way and two-way events\<close>

definition get_request_id :: "event_type \<Rightarrow> string option \<Rightarrow> string" where
  "get_request_id eventType requestFilter =
    event_name eventType @ (case requestFilter of None \<Rightarrow> [] | Some f \<Rightarrow> f)"

definition request_like :: "event_type \<Rightarrow> string option \<Rightarrow> event_like" where
  "request_like eventType eventTypeFilter =
    \<lparr>el_type = eventType, el_filter = eventTypeFilter, el_source = None, el_corr = None,
     el_data = NoData, el_raw = (eventType = Raw), el_external = False, el_retain = False\<rparr>"

definition observe_request :: "event_type \<Rightarrow> string option \<Rightarrow> comm_manager \<Rightarrow> nat \<times> comm_manager" where
  "observe_request eventType eventTypeFilter s =
    (let requestId = get_request_id eventType eventTypeFilter in
     case jget (cm_requests s) requestId of
       Some i \<Rightarrow> (i, s)
     | None \<Rightarrow>
         (let el = request_like eventType eventTypeFilter; i = length (cm_request_heap s) in
          (i, on_binding (subscribe el)
            (s\<lparr>cm_request_heap := cm_request_heap s @
                  [\<lparr>rq_id = requestId, rq_like = el, rq_subscribers = [], rq_cleanup = True\<rparr>],
               cm_requests := jset requestId i (cm_requests s)\<rparr>))))"

definition set_request_item :: "nat \<Rightarrow> request_item \<Rightarrow> comm_manager \<Rightarrow> comm_manager" where
  "set_request_item i item s = s\<lparr>cm_request_heap := (cm_request_heap s)[i := item]\<rparr>"

definition subscribe_request :: "nat \<Rightarrow> observer \<Rightarrow> comm_manager \<Rightarrow> comm_manager" where
  "subscribe_request i obs s =
    (let item = cm_request_heap s ! i in
     set_request_item i (item\<lparr>rq_subscribers := rq_subscribers item @ [obs]\<rparr>) s)"

definition unsubscribe_request :: "nat \<Rightarrow> observer \<Rightarrow> comm_manager \<Rightarrow> comm_manager" where
  "unsubscribe_request i obs s =
    (let item = cm_request_heap s ! i;
         rest = splice_out obs (rq_subscribers item)
     in if rest \<noteq> [] then set_request_item i (item\<lparr>rq_subscribers := rest\<rparr>) s
        else
          (let s' = set_request_item i (item\<lparr>rq_subscribers := [], rq_cleanup := False\<rparr>) s in
           if rq_cleanup item
           then on_binding (unsubscribe (rq_like item))
             (s'\<lparr>cm_requests := jdel (rq_id item) (cm_requests s')\<rparr>)
           else s'))"

text \<open>The observe operations return the item and what the observable filters by.\<close>

definition observe_typed ::
  "event_type \<Rightarrow> string option \<Rightarrow> string option \<Rightarrow> comm_manager
    \<Rightarrow> js_error + ((nat \<times> event_test) \<times> comm_manager)" where
  "observe_typed eventType coreType objectType s =
    (let given = (\<lambda>x. x \<noteq> None \<and> x \<noteq> Some []) in
     if given coreType \<and> \<not> is_core_type (the coreType)
     then Inl (TypeError ''not a CoreType'')
     else if given objectType \<and> \<not> is_valid_event_filter (JStr (the objectType))
     then Inl (TypeError ''not a valid object type'')
     else
       (case (if given objectType then get_core_type_for (the objectType) else None) of
          Some objectCoreType \<Rightarrow>
            (let (i, s') = observe_request eventType (Some objectCoreType) s
             in Inr ((i, ObjectTypeIs (the objectType)), s'))
        | None \<Rightarrow>
            (let (i, s') = observe_request eventType
               (Some (if given coreType then the coreType else '':'' @ template objectType)) s
             in Inr ((i, AnyEvent), s'))))"

definition observe_advertise ::
  "string option \<Rightarrow> string option \<Rightarrow> comm_manager \<Rightarrow> js_error + ((nat \<times> event_test) \<times> comm_manager)"
  where
  "observe_advertise = observe_typed Advertise"

definition observe_update ::
  "string option \<Rightarrow> string option \<Rightarrow> comm_manager \<Rightarrow> js_error + ((nat \<times> event_test) \<times> comm_manager)"
  where
  "observe_update = observe_typed Update"

definition observe_call ::
  "string \<Rightarrow> jsv \<Rightarrow> comm_manager \<Rightarrow> js_error + ((nat \<times> event_test) \<times> comm_manager)" where
  "observe_call operation context1 s =
    (if \<not> is_valid_event_filter (JStr operation) then Inl (TypeError ''not a valid operation name'')
     else (let (i, s') = observe_request Call (Some operation) s
           in Inr ((i, ContextMatches context1), s')))"

definition observe_channel ::
  "string \<Rightarrow> comm_manager \<Rightarrow> js_error + ((nat \<times> event_test) \<times> comm_manager)" where
  "observe_channel channelId s =
    (if \<not> is_valid_event_filter (JStr channelId) then Inl (TypeError ''not a valid channel identifier'')
     else (let (i, s') = observe_request Channel (Some channelId) s in Inr ((i, AnyEvent), s')))"

definition observe_discover :: "comm_manager \<Rightarrow> nat \<times> comm_manager" where
  "observe_discover = observe_request Discover None"

definition observe_query :: "comm_manager \<Rightarrow> nat \<times> comm_manager" where
  "observe_query = observe_request Query None"

definition observe_deadvertise :: "comm_manager \<Rightarrow> nat \<times> comm_manager" where
  "observe_deadvertise = observe_request Deadvertise None"

definition observe_raw :: "string \<Rightarrow> comm_manager \<Rightarrow> nat \<times> comm_manager" where
  "observe_raw topic = observe_request Raw (Some topic)"

section \<open>Publishing events\<close>

definition publish_like :: "com_event \<Rightarrow> string option \<Rightarrow> string option \<Rightarrow> comm_manager \<Rightarrow> comm_manager" where
  "publish_like event eventTypeFilter correlationId s =
    on_binding (publish (create_event_like (identity_id s) event eventTypeFilter correlationId)) s"

definition observe_response ::
  "com_event \<Rightarrow> event_type \<Rightarrow> string option \<Rightarrow> string \<Rightarrow> comm_manager \<Rightarrow> nat \<times> comm_manager" where
  "observe_response request responseType eventTypeFilter correlationId s =
    (let el = \<lparr>el_type = responseType, el_filter = None, el_source = None,
           el_corr = Some correlationId, el_data = NoData, el_raw = False, el_external = False,
           el_retain = False\<rparr>;
         i = length (cm_response_heap s)
     in (i, on_binding (subscribe el)
          (s\<lparr>cm_response_heap := cm_response_heap s @
                [\<lparr>rp_request = request, rp_corr = correlationId, rp_filter = eventTypeFilter,
                  rp_like = el, rp_subscribers = [], rp_cleanup = True, rp_finished = False\<rparr>],
             cm_responses := jset correlationId i (cm_responses s)\<rparr>)))"

text \<open>The result is the item of the response observable, for a two-way request.\<close>

definition publish_event ::
  "(nat \<Rightarrow> string) \<Rightarrow> com_event \<Rightarrow> string option \<Rightarrow> string option \<Rightarrow> comm_manager
    \<Rightarrow> nat option \<times> comm_manager" where
  "publish_event uuid event eventTypeFilter correlationId s =
    (if correlationId \<noteq> None \<and> correlationId \<noteq> Some []
     then (None, publish_like event eventTypeFilter correlationId s)
     else
       (case response_event_type event of
          Some responseType \<Rightarrow>
            (let (i, s') = observe_response event responseType eventTypeFilter (uuid (cm_uuids s))
               (s\<lparr>cm_uuids := Suc (cm_uuids s)\<rparr>)
             in (Some i, s'))
        | None \<Rightarrow> (None, publish_like event eventTypeFilter None s)))"

definition prop_string :: "jsv \<Rightarrow> string \<Rightarrow> string" where
  "prop_string obj k = (case get_prop obj k of JStr x \<Rightarrow> x | _ \<Rightarrow> [])"

text \<open>The two filters an Advertise or Update event is published with.\<close>

definition object_filters :: "jsv \<Rightarrow> string list" where
  "object_filters obj =
    (let coreType = prop_string obj ''coreType''; objectType = prop_string obj ''objectType'' in
     if get_object_type_for coreType \<noteq> JStr objectType then [coreType, '':'' @ objectType]
     else [coreType])"

definition publish_advertise :: "(nat \<Rightarrow> string) \<Rightarrow> advertise_data \<Rightarrow> comm_manager \<Rightarrow> comm_manager" where
  "publish_advertise uuid d s =
    fold (\<lambda>f s'. snd (publish_event uuid (AdvertiseEv d) (Some f) None s'))
      (object_filters (ad_object d)) s"

text \<open>The items whose observables are merged.\<close>

definition publish_update ::
  "(nat \<Rightarrow> string) \<Rightarrow> update_data \<Rightarrow> comm_manager \<Rightarrow> nat option list \<times> comm_manager" where
  "publish_update uuid d s =
    fold (\<lambda>f (items, s'). (let (i, s'') = publish_event uuid (UpdateEv d) (Some f) None s'
       in (i # items, s''))) (object_filters (ud_object d)) ([], s)"

definition publish_discover ::
  "(nat \<Rightarrow> string) \<Rightarrow> discover_data \<Rightarrow> comm_manager \<Rightarrow> nat option \<times> comm_manager" where
  "publish_discover uuid d = publish_event uuid (DiscoverEv d) None None"

definition publish_query ::
  "(nat \<Rightarrow> string) \<Rightarrow> query_data \<Rightarrow> comm_manager \<Rightarrow> nat option \<times> comm_manager" where
  "publish_query uuid d = publish_event uuid (QueryEv d) None None"

definition publish_call ::
  "(nat \<Rightarrow> string) \<Rightarrow> string \<Rightarrow> call_data \<Rightarrow> comm_manager \<Rightarrow> nat option \<times> comm_manager" where
  "publish_call uuid operation d = publish_event uuid (CallEv operation d) (Some operation) None"

definition publish_deadvertise ::
  "(nat \<Rightarrow> string) \<Rightarrow> deadvertise_data \<Rightarrow> comm_manager \<Rightarrow> comm_manager" where
  "publish_deadvertise uuid d s = snd (publish_event uuid (DeadvertiseEv d) None None s)"

definition publish_channel ::
  "(nat \<Rightarrow> string) \<Rightarrow> string \<Rightarrow> channel_data \<Rightarrow> comm_manager \<Rightarrow> comm_manager" where
  "publish_channel uuid channelId d s =
    snd (publish_event uuid (ChannelEv channelId d) (Some channelId) None s)"

definition publish_associate ::
  "(nat \<Rightarrow> string) \<Rightarrow> string option \<Rightarrow> associate_data \<Rightarrow> comm_manager \<Rightarrow> comm_manager" where
  "publish_associate uuid ioContextName d s =
    (if \<not> filter_name_ok ioContextName then s
     else snd (publish_event uuid (AssociateEv ioContextName d) ioContextName None s))"

definition publish_raw :: "string \<Rightarrow> ev_data \<Rightarrow> bool \<Rightarrow> comm_manager \<Rightarrow> comm_manager" where
  "publish_raw topic value retain s = publish_like (RawEv (Some topic) value retain) (Some topic) None s"

text \<open>An IO value is raw exactly when the source uses raw values.\<close>

definition new_io_value_event :: "jsv \<Rightarrow> ev_data \<Rightarrow> bool \<Rightarrow> js_error + com_event" where
  "new_io_value_event ioSource value retain =
    (let isValueRaw = (case value of RawData b \<Rightarrow> True | _ \<Rightarrow> False) in
     if isValueRaw \<noteq> truthy (get_prop ioSource ''useRawIoValues'')
     then Inl (Error ''IO value data format not compatible'')
     else Inr (IoValueEv value retain))"

definition publish_io_value :: "jsv \<Rightarrow> ev_data \<Rightarrow> bool \<Rightarrow> comm_manager \<Rightarrow> js_error + comm_manager" where
  "publish_io_value ioSource value retain s =
    rbind (new_io_value_event ioSource value retain) (\<lambda>event.
      (case jget (ia_sources s) (prop_string ioSource ''objectId'') of
         None \<Rightarrow> Inr s
       | Some (route, actorIds, rate) \<Rightarrow> Inr (publish_like event (Some route) None s)))"

definition create_associating_route :: "jsv \<Rightarrow> comm_manager \<Rightarrow> string" where
  "create_associating_route ioSource s =
    create_io_route (ia_binding s) (prop_string ioSource ''objectId'')"

section \<open>Response observables\<close>

definition set_response_item :: "nat \<Rightarrow> response_item \<Rightarrow> comm_manager \<Rightarrow> comm_manager" where
  "set_response_item i item s = s\<lparr>cm_response_heap := (cm_response_heap s)[i := item]\<rparr>"

definition subscribe_response :: "nat \<Rightarrow> observer \<Rightarrow> comm_manager \<Rightarrow> js_error + comm_manager" where
  "subscribe_response i obs s =
    (let item = cm_response_heap s ! i in
     if rp_finished item then Inl (Error ''resubscribing to a response event is not supported'')
     else
       (let s' = set_response_item i (item\<lparr>rp_subscribers := rp_subscribers item @ [obs]\<rparr>) s in
        if length (rp_subscribers item) = 0 \<and> rp_cleanup item
        then Inr (publish_like (rp_request item) (rp_filter item) (Some (rp_corr item)) s')
        else Inr s'))"

definition unsubscribe_response :: "nat \<Rightarrow> observer \<Rightarrow> comm_manager \<Rightarrow> comm_manager" where
  "unsubscribe_response i obs s =
    (let item = cm_response_heap s ! i;
         rest = splice_out obs (rp_subscribers item)
     in if rest \<noteq> [] then set_response_item i (item\<lparr>rp_subscribers := rest\<rparr>) s
        else
          (let s' = set_response_item i
                (item\<lparr>rp_subscribers := [], rp_cleanup := False, rp_finished := True\<rparr>) s in
           if rp_cleanup item
           then on_binding (unsubscribe (rp_like item))
             (s'\<lparr>cm_responses := jdel (rp_corr item) (cm_responses s')\<rparr>)
           else s'))"

text \<open>An application answers a request event through the function that dispatching put on it.\<close>

definition ensure_valid_response :: "com_event \<Rightarrow> com_event \<Rightarrow> js_error + unit" where
  "ensure_valid_response request response =
    (case (request, response) of
       (DiscoverEv d, ResolveEv r) \<Rightarrow> ensure_valid_resolve d r
     | (QueryEv q, RetrieveEv r) \<Rightarrow>
         ensure_valid_retrieve q (case rt_objects r of JArr xs \<Rightarrow> xs | _ \<Rightarrow> [])
     | (UpdateEv u, CompleteEv c) \<Rightarrow> ensure_valid_complete u c
     | _ \<Rightarrow> Inr ())"

definition respond ::
  "(nat \<Rightarrow> string) \<Rightarrow> com_event \<Rightarrow> string option \<Rightarrow> com_event \<Rightarrow> comm_manager \<Rightarrow> js_error + comm_manager"
  where
  "respond uuid request correlationId response s =
    rbind (ensure_valid_response request response)
      (\<lambda>_. Inr (snd (publish_event uuid response None correlationId s)))"

section \<open>Dispatching inbound events\<close>

definition event_passes :: "conv \<Rightarrow> event_test \<Rightarrow> com_event \<Rightarrow> js_error + bool" where
  "event_passes cv test event =
    (case test of
       AnyEvent \<Rightarrow> Inr True
     | ObjectTypeIs objectType \<Rightarrow>
         Inr (case event of
            AdvertiseEv d \<Rightarrow> strict_eq (get_prop (ad_object d) ''objectType'') (JStr objectType)
          | UpdateEv d \<Rightarrow> strict_eq (get_prop (ud_object d) ''objectType'') (JStr objectType)
          | _ \<Rightarrow> False)
     | ContextMatches context1 \<Rightarrow>
         (case event of CallEv c d \<Rightarrow> call_matches_filter cv d context1 | _ \<Rightarrow> Inr False))"

text \<open>\<open>event.resolve(ResolveEvent.withObject(obj))\<close>, which may throw.\<close>

definition resolve_object ::
  "(nat \<Rightarrow> string) \<Rightarrow> com_event \<Rightarrow> string option \<Rightarrow> jsv \<Rightarrow> comm_manager \<Rightarrow> js_error + comm_manager" where
  "resolve_object uuid event correlationId obj s =
    rbind (new_resolve_data obj JUndef JUndef) (\<lambda>r. respond uuid event correlationId (ResolveEv r) s)"

text \<open>The state at the throw is kept: what was resolved before it is published.\<close>

fun resolve_objects ::
  "(nat \<Rightarrow> string) \<Rightarrow> com_event \<Rightarrow> string option \<Rightarrow> jsv list \<Rightarrow> comm_manager \<Rightarrow> bool \<times> comm_manager" where
  "resolve_objects uuid event correlationId [] s = (True, s)"
| "resolve_objects uuid event correlationId (obj # objs) s =
    (case resolve_object uuid event correlationId obj s of
       Inl e \<Rightarrow> (False, s)
     | Inr s' \<Rightarrow> resolve_objects uuid event correlationId objs s')"

definition io_node_object :: "string \<Rightarrow> io_node \<Rightarrow> jsv" where
  "io_node_object identityId n =
    jobj [(''name'', JStr (in_name n)), (''coreType'', JStr ''IoNode''),
      (''objectType'', JStr ''coaty.IoNode''), (''objectId'', JStr (in_id n)),
      (''parentObjectId'', JStr identityId), (''ioSources'', JArr (in_sources n)),
      (''ioActors'', JArr (in_actors n)), (''characteristics'', in_characteristics n)]"

text \<open>\<open>next\<close> on one observer: the state, and whether the observer stays subscribed.\<close>

definition observer_next ::
  "conv \<Rightarrow> (nat \<Rightarrow> string) \<Rightarrow> com_event \<Rightarrow> string option \<Rightarrow> observer \<Rightarrow> comm_manager \<Rightarrow> bool \<times> comm_manager"
  where
  "observer_next cv uuid event correlationId obs s =
    (case obs of
       App n test \<Rightarrow>
         (case event_passes cv test event of
            Inl e \<Rightarrow> (False, out [ErrorEvent n] s)
          | Inr passes \<Rightarrow> (True, if passes then out [NextEvent n event correlationId] s else s))
     | HandleAssociate \<Rightarrow>
         (True, case event of AssociateEv f d \<Rightarrow> handle_associate d s | _ \<Rightarrow> s)
     | ResolveIoNodes \<Rightarrow>
         (case event of
            DiscoverEv d \<Rightarrow>
              (if is_discovering_types d \<and> is_core_type_compatible (ds_core_types d) ''IoNode''
               then resolve_objects uuid event correlationId
                 (map (io_node_object (identity_id s)) (ia_nodes s)) s
               else (True, s))
          | _ \<Rightarrow> (True, s))
     | ResolveIdentity \<Rightarrow>
         (case event of
            DiscoverEv d \<Rightarrow>
              (if (is_discovering_types d \<and> is_core_type_compatible (ds_core_types d) ''Identity'') \<or>
                  (is_discovering_object_id d \<and>
                   strict_eq (ds_object_id d) (get_prop (cf_identity (cm_config s)) ''objectId''))
               then resolve_objects uuid event correlationId [cf_identity (cm_config s)] s
               else (True, s))
          | _ \<Rightarrow> (True, s)))"

definition dispatch_next_request ::
  "conv \<Rightarrow> (nat \<Rightarrow> string) \<Rightarrow> com_event \<Rightarrow> string option \<Rightarrow> nat \<Rightarrow> comm_manager \<Rightarrow> comm_manager" where
  "dispatch_next_request cv uuid event correlationId i s =
    fold (\<lambda>obs s'.
      (let (stays, s'') = observer_next cv uuid event correlationId obs s' in
       if stays then s'' else unsubscribe_request i obs s''))
      (rev (rq_subscribers (cm_request_heap s ! i))) s"

definition dispatch_next_response ::
  "conv \<Rightarrow> (nat \<Rightarrow> string) \<Rightarrow> com_event \<Rightarrow> nat \<Rightarrow> comm_manager \<Rightarrow> comm_manager" where
  "dispatch_next_response cv uuid event i s =
    fold (\<lambda>obs s'.
      (let (stays, s'') = observer_next cv uuid event None obs s' in
       if stays then s'' else unsubscribe_response i obs s''))
      (rev (rp_subscribers (cm_response_heap s ! i))) s"

text \<open>The response type that a pending request expects.\<close>

definition response_expected :: "com_event \<Rightarrow> event_type \<Rightarrow> bool" where
  "response_expected request t =
    (case request of
       UpdateEv d \<Rightarrow> t = Complete
     | DiscoverEv d \<Rightarrow> t = Resolve
     | QueryEv d \<Rightarrow> t = Retrieve
     | CallEv c d \<Rightarrow> t = Return
     | _ \<Rightarrow> True)"

definition dispatch_response ::
  "conv \<Rightarrow> (nat \<Rightarrow> string) \<Rightarrow> event_like \<Rightarrow> comm_manager \<Rightarrow> comm_manager" where
  "dispatch_response cv uuid el s =
    (case (case el_corr el of None \<Rightarrow> None | Some c \<Rightarrow> jget (cm_responses s) c) of
       None \<Rightarrow> s
     | Some i \<Rightarrow>
         (let request = rp_request (cm_response_heap s ! i) in
          if \<not> response_expected request (el_type el) then s
          else
            (case create_event_instance el of
               Inl e \<Rightarrow> s
             | Inr event \<Rightarrow>
                 (case ensure_valid_response request event of
                    Inl e \<Rightarrow> s
                  | Inr _ \<Rightarrow> dispatch_next_response cv uuid event i s))))"

definition dispatch_request ::
  "conv \<Rightarrow> (nat \<Rightarrow> string) \<Rightarrow> event_like \<Rightarrow> comm_manager \<Rightarrow> comm_manager" where
  "dispatch_request cv uuid el s =
    (case jget (cm_requests s)
        (get_request_id (el_type el) (if el_type el = Raw then el_corr el else el_filter el)) of
       None \<Rightarrow> s
     | Some i \<Rightarrow>
         (case create_event_instance el of
            Inl e \<Rightarrow> s
          | Inr event \<Rightarrow> dispatch_next_request cv uuid event (el_corr el) i s))"

definition dispatch_event ::
  "conv \<Rightarrow> (nat \<Rightarrow> string) \<Rightarrow> event_like \<Rightarrow> comm_manager \<Rightarrow> comm_manager" where
  "dispatch_event cv uuid el s =
    (if el_type el = IoValue then dispatch_io_value el s
     else if el_type el \<in> {Complete, Resolve, Retrieve, Return} then dispatch_response cv uuid el s
     else dispatch_request cv uuid el s)"

section \<open>Joining and unjoining\<close>

definition merge_options :: "comm_options \<Rightarrow> comm_options \<Rightarrow> comm_options" where
  "merge_options c p =
    \<lparr>op_namespace = (if op_namespace p = None then op_namespace c else op_namespace p),
     op_cross = (if op_cross p = None then op_cross c else op_cross p)\<rparr>"

definition no_options :: comm_options where
  "no_options = \<lparr>op_namespace = None, op_cross = None\<rparr>"

fun configured_io_nodes ::
  "(nat \<Rightarrow> string) \<Rightarrow> nat \<Rightarrow> (string, io_node_config) jmap \<Rightarrow> io_node list" where
  "configured_io_nodes uuid k [] = []"
| "configured_io_nodes uuid k ((contextName, c) # cs) =
    (if is_valid_event_filter (JStr contextName) then
       \<lparr>in_name = contextName, in_id = uuid k, in_sources = ic_sources c, in_actors = ic_actors c,
        in_characteristics = ic_characteristics c\<rparr> # configured_io_nodes uuid (Suc k) cs
     else configured_io_nodes uuid k cs)"

definition init_options :: "(nat \<Rightarrow> string) \<Rightarrow> comm_options \<Rightarrow> comm_manager \<Rightarrow> comm_manager" where
  "init_options uuid options s =
    (let opts = merge_options (cf_options (cm_config s)) options;
         nodes = configured_io_nodes uuid (cm_uuids s) (cf_io_nodes (cm_config s))
     in s\<lparr>ia_nodes := filter (\<lambda>n. in_sources n \<noteq> [] \<or> in_actors n \<noteq> []) nodes,
          cm_uuids := cm_uuids s + length nodes,
          ia_binding := new_binding (op_namespace opts) (op_cross opts = Some True)\<rparr>)"

definition init_observed_items :: "comm_manager \<Rightarrow> comm_manager" where
  "init_observed_items s =
    s\<lparr>cm_requests := [], cm_responses := [], ia_states := [], ia_values := [], ia_sources := [],
      ia_actors := []\<rparr>"

definition new_comm_manager :: "(nat \<Rightarrow> string) \<Rightarrow> comm_config \<Rightarrow> comm_manager" where
  "new_comm_manager uuid config =
    init_options uuid no_options
      \<lparr>ia_nodes = [], ia_sources = [], ia_actors = [], ia_states = [], ia_values = [],
       ia_binding = new_binding None False, ia_out = [], cm_config = config, cm_uuids = 0,
       cm_request_heap = [], cm_response_heap = [], cm_requests = [], cm_responses = [],
       cm_started = False, cm_disposed = False, cm_unjoined = []\<rparr>"

definition update_operating_state :: "bool \<Rightarrow> comm_manager \<Rightarrow> comm_manager" where
  "update_operating_state newState s =
    (if cm_started s \<noteq> newState then out [Operating newState] (s\<lparr>cm_started := newState\<rparr>) else s)"

fun advertise_events :: "jsv list \<Rightarrow> js_error + advertise_data list" where
  "advertise_events [] = Inr []"
| "advertise_events (obj # objs) =
    rbind (new_advertise_data obj JUndef) (\<lambda>d. rbind (new_advertise_event d)
      (\<lambda>_. rbind (advertise_events objs) (\<lambda>ds. Inr (d # ds))))"

definition observe_associate :: "comm_manager \<Rightarrow> comm_manager" where
  "observe_associate s =
    fold (\<lambda>node s'. (let (i, s'') = observe_request Associate (Some (in_name node)) s'
        in subscribe_request i HandleAssociate s''))
      (ia_nodes s) s"

definition observe_discover_io_nodes :: "comm_manager \<Rightarrow> comm_manager" where
  "observe_discover_io_nodes s =
    (if ia_nodes s = [] then s
     else (let (i, s') = observe_request Discover None s in subscribe_request i ResolveIoNodes s'))"

definition observe_discover_identity :: "comm_manager \<Rightarrow> comm_manager" where
  "observe_discover_identity s =
    (let (i, s') = observe_request Discover None s in subscribe_request i ResolveIdentity s')"

definition join_binding :: "comm_manager \<Rightarrow> js_error + comm_manager" where
  "join_binding s =
    rbind (advertise_events
        (cf_identity (cm_config s) # map (io_node_object (identity_id s)) (ia_nodes s))) (\<lambda>joinEvents.
      rbind (new_deadvertise_data (JArr (map (\<lambda>d. get_prop (ad_object d) ''objectId'') joinEvents)))
        (\<lambda>unjoinEvent.
          (let opts = \<lparr>jo_agent = identity_id s,
                 jo_join_events = map (\<lambda>d. create_event_like (identity_id s) (AdvertiseEv d)
                   (Some (prop_string (ad_object d) ''coreType'')) None) joinEvents,
                 jo_unjoin_event = create_event_like (identity_id s) (DeadvertiseEv unjoinEvent) None None\<rparr>
           in Inr (update_operating_state True
                (observe_discover_identity (observe_discover_io_nodes (observe_associate
                  (on_binding (join opts) s))))))))"

definition complete_request :: "nat \<Rightarrow> comm_manager \<Rightarrow> comm_manager" where
  "complete_request i s =
    fold (\<lambda>obs s'. unsubscribe_request i obs
        (case obs of App n test \<Rightarrow> out [CompleteEvent n] s' | _ \<Rightarrow> s'))
      (rev (rq_subscribers (cm_request_heap s ! i))) s"

definition complete_response :: "nat \<Rightarrow> comm_manager \<Rightarrow> comm_manager" where
  "complete_response i s =
    fold (\<lambda>obs s'. unsubscribe_response i obs
        (case obs of App n test \<Rightarrow> out [CompleteEvent n] s' | _ \<Rightarrow> s'))
      (rev (rp_subscribers (cm_response_heap s ! i))) s"

definition unobserve_observed_items :: "comm_manager \<Rightarrow> comm_manager" where
  "unobserve_observed_items s =
    (let s1 = unobserve_io_state_and_value s;
         s2 = fold complete_request (jvals (cm_requests s1)) s1;
         s3 = fold complete_response (jvals (cm_responses s2)) s2
     in init_observed_items s3)"

definition unjoin_binding :: "(nat \<Rightarrow> string) \<Rightarrow> comm_options \<Rightarrow> comm_manager \<Rightarrow> comm_manager" where
  "unjoin_binding uuid options s =
    (let s1 = unobserve_observed_items (update_operating_state False s);
         binding = ia_binding s1
     in if cm_disposed s1 then on_binding unjoin s1
        else (init_options uuid options s1)\<lparr>cm_unjoined := cm_unjoined s1 @ [unjoin binding]\<rparr>)"

text \<open>\<open>start\<close> without options, or \<open>None\<close> when the manager is restarted: the binding is unjoined now
  and the new one joined when the old one has left, by a later \<open>join_binding\<close>.\<close>

definition start_manager :: "comm_manager \<Rightarrow> js_error + comm_manager" where
  "start_manager s = (if mb_state (ia_binding s) = Initialized then join_binding s else Inr s)"

definition restart_manager :: "(nat \<Rightarrow> string) \<Rightarrow> comm_options \<Rightarrow> comm_manager \<Rightarrow> comm_manager" where
  "restart_manager uuid options s = unjoin_binding uuid options s"

definition stop_manager :: "(nat \<Rightarrow> string) \<Rightarrow> comm_manager \<Rightarrow> comm_manager" where
  "stop_manager uuid s = unjoin_binding uuid no_options s"

definition on_dispose :: "(nat \<Rightarrow> string) \<Rightarrow> comm_manager \<Rightarrow> comm_manager" where
  "on_dispose uuid s =
    (if cm_disposed s then s else unjoin_binding uuid no_options (s\<lparr>cm_disposed := True\<rparr>))"

end
