(* ===== verification/CommManagerProps.thy ===== *)
theory CommManagerProps
  imports CommManager CommIoProps
begin

text \<open>
  Properties of the communication manager: the identity of observed requests, what dispatching an
  inbound event delivers and to whom, the two publications of Advertise and Update events, the
  checks of responses, and the end of all deliveries when the manager is stopped.
\<close>

section \<open>Request ids\<close>

lemma event_name_prefix_free:
  "event_name t @ x = event_name u @ y \<Longrightarrow> t = u"
  by (cases t; cases u; simp)

lemma get_request_id_inj:
  "get_request_id t f = get_request_id u g \<longleftrightarrow>
    t = u \<and> (case f of None \<Rightarrow> [] | Some x \<Rightarrow> x) = (case g of None \<Rightarrow> [] | Some x \<Rightarrow> x)"
  using event_name_prefix_free [of t _ u _] by (auto simp: get_request_id_def)

section \<open>Deliveries to the observers of an item\<close>

definition deliveries :: "conv \<Rightarrow> com_event \<Rightarrow> string option \<Rightarrow> observer \<Rightarrow> delivery list" where
  "deliveries cv event correlationId obs =
    (case obs of
       App n test \<Rightarrow> (if event_passes cv test event = Inr True then [NextEvent n event correlationId] else [])
     | _ \<Rightarrow> [])"

text \<open>Observers that an event does not make act on the manager, and whose test does not throw.\<close>

definition plain_observer :: "conv \<Rightarrow> com_event \<Rightarrow> observer \<Rightarrow> bool" where
  "plain_observer cv event obs =
    (case obs of
       App n test \<Rightarrow> is_ok (event_passes cv test event)
     | HandleAssociate \<Rightarrow> event_type_of event \<noteq> Associate
     | _ \<Rightarrow> event_type_of event \<noteq> Discover)"

lemma out_Nil [simp]: "out [] s = s"
  by (simp add: out_def)

lemma out_out [simp]: "out b (out a s) = out (a @ b) s"
  by (simp add: out_def)

lemma observer_next_plain:
  "plain_observer cv event obs \<Longrightarrow>
    observer_next cv uuid event c obs s = (True, out (deliveries cv event c obs) s)"
  by (cases obs; cases event)
    (auto simp: plain_observer_def observer_next_def deliveries_def is_ok_conv)

lemma fold_plain:
  assumes "\<forall>obs \<in> set observers. plain_observer cv event obs"
  shows "fold (\<lambda>obs s'. (let (stays, s'') = observer_next cv uuid event c obs s' in
      if stays then s'' else gone obs s'')) observers s =
    out (concat (map (deliveries cv event c) observers)) s"
  using assms by (induction observers arbitrary: s) (simp_all add: observer_next_plain)

definition observers_of :: "comm_manager \<Rightarrow> event_type \<Rightarrow> string option \<Rightarrow> observer list" where
  "observers_of s eventType eventTypeFilter =
    (case jget (cm_requests s) (get_request_id eventType eventTypeFilter) of
       None \<Rightarrow> []
     | Some i \<Rightarrow> rq_subscribers (cm_request_heap s ! i))"

definition is_response_type :: "event_type \<Rightarrow> bool" where
  "is_response_type t = (t \<in> {Complete, Resolve, Retrieve, Return})"

lemma dispatch_request_plain:
  assumes "create_event_instance el = Inr event" "el_type el \<noteq> Raw"
    "\<forall>obs \<in> set (observers_of s (el_type el) (el_filter el)). plain_observer cv event obs"
  shows "dispatch_request cv uuid el s =
    out (concat (map (deliveries cv event (el_corr el))
      (rev (observers_of s (el_type el) (el_filter el))))) s"
  using assms fold_plain [of _ cv event]
  by (auto simp: dispatch_request_def observers_of_def dispatch_next_request_def split: option.splits)

section \<open>Observing\<close>

definition requests_ok :: "comm_manager \<Rightarrow> bool" where
  "requests_ok s =
    (\<forall>k i. jget (cm_requests s) k = Some i \<longrightarrow>
      i < length (cm_request_heap s) \<and> rq_id (cm_request_heap s ! i) = k)"

lemma on_binding_sel [simp]:
  "cm_requests (on_binding f s) = cm_requests s" "cm_request_heap (on_binding f s) = cm_request_heap s"
  "cm_responses (on_binding f s) = cm_responses s" "cm_response_heap (on_binding f s) = cm_response_heap s"
  "ia_out (on_binding f s) = ia_out s" "cm_config (on_binding f s) = cm_config s"
  "ia_binding (on_binding f s) = f (ia_binding s)" "ia_nodes (on_binding f s) = ia_nodes s"
  "ia_actors (on_binding f s) = ia_actors s" "ia_values (on_binding f s) = ia_values s"
  "cm_disposed (on_binding f s) = cm_disposed s" "cm_started (on_binding f s) = cm_started s"
  "ia_sources (on_binding f s) = ia_sources s" "ia_states (on_binding f s) = ia_states s"
  "cm_uuids (on_binding f s) = cm_uuids s" "cm_unjoined (on_binding f s) = cm_unjoined s"
  by (simp_all add: on_binding_def)

lemma observe_request_spec:
  assumes "requests_ok s" "observe_request t f s = (i, s')"
  shows "requests_ok s'" "jget (cm_requests s') (get_request_id t f) = Some i"
    "observers_of s' = observers_of s" "ia_out s' = ia_out s"
proof -
  have "requests_ok s' \<and> jget (cm_requests s') (get_request_id t f) = Some i \<and>
      observers_of s' = observers_of s \<and> ia_out s' = ia_out s"
  proof (cases "jget (cm_requests s) (get_request_id t f)")
    case None
    then have s': "i = length (cm_request_heap s)"
      "cm_requests s' = jset (get_request_id t f) i (cm_requests s)"
      "cm_request_heap s' = cm_request_heap s @ [\<lparr>rq_id = get_request_id t f,
         rq_like = request_like t f, rq_subscribers = [], rq_cleanup = True\<rparr>]" "ia_out s' = ia_out s"
      using assms(2) by (auto simp: observe_request_def Let_def)
    have bound: "j < length (cm_request_heap s) \<and> rq_id (cm_request_heap s ! j) = k"
      if "jget (cm_requests s) k = Some j" for j k
      using assms(1) that by (simp add: requests_ok_def)
    have "observers_of s' u g = observers_of s u g" for u g
      using assms(1) None s'
      by (auto simp: observers_of_def requests_ok_def nth_append split: option.splits)
    moreover have "requests_ok s'"
      using s' by (auto simp: requests_ok_def nth_append less_Suc_eq dest: bound)
    ultimately show ?thesis using s' by (auto simp: fun_eq_iff)
  qed (use assms in \<open>simp add: observe_request_def\<close>)
  then show "requests_ok s'" "jget (cm_requests s') (get_request_id t f) = Some i"
    "observers_of s' = observers_of s" "ia_out s' = ia_out s" by blast+
qed

lemma observers_of_subscribe:
  assumes "requests_ok s" "jget (cm_requests s) (get_request_id t f) = Some i"
  shows "observers_of (subscribe_request i obs s) u g =
    observers_of s u g @ (if get_request_id u g = get_request_id t f then [obs] else [])"
proof (cases "jget (cm_requests s) (get_request_id u g)")
  case None
  then show ?thesis
    using assms(2) by (auto simp: observers_of_def subscribe_request_def set_request_item_def Let_def)
next
  case (Some j)
  then have "j = i \<longleftrightarrow> get_request_id u g = get_request_id t f"
    using assms unfolding requests_ok_def by (metis option.inject)
  then show ?thesis
    using Some assms
    by (auto simp: observers_of_def subscribe_request_def set_request_item_def Let_def requests_ok_def)
qed

lemma out_sel [simp]:
  "cm_requests (out ds s) = cm_requests s" "cm_request_heap (out ds s) = cm_request_heap s"
  "cm_responses (out ds s) = cm_responses s" "cm_response_heap (out ds s) = cm_response_heap s"
  "ia_out (out ds s) = ia_out s @ ds" "ia_binding (out ds s) = ia_binding s"
  "cm_config (out ds s) = cm_config s" "ia_nodes (out ds s) = ia_nodes s"
  "ia_actors (out ds s) = ia_actors s" "cm_disposed (out ds s) = cm_disposed s"
  by (simp_all add: out_def)

lemma observers_of_out [simp]: "observers_of (out ds s) = observers_of s"
  by (simp add: observers_of_def fun_eq_iff cong: option.case_cong)

section \<open>Advertise events reach their observers once\<close>

definition received :: "nat \<Rightarrow> delivery list \<Rightarrow> com_event list" where
  "received n ds =
    concat (map (\<lambda>d. case d of NextEvent m e c \<Rightarrow> if m = n then [e] else [] | _ \<Rightarrow> []) ds)"

lemma received_append [simp]: "received n (xs @ ys) = received n xs @ received n ys"
  by (simp add: received_def)

lemma received_Nil [simp]: "received n [] = []"
  by (simp add: received_def)

lemma received_none:
  "\<forall>test. App n test \<notin> set observers \<Longrightarrow>
    received n (concat (map (deliveries cv event c) observers)) = []"
proof (induction observers)
  case (Cons obs observers)
  then have "received n (deliveries cv event c obs) = []"
    by (cases obs) (auto simp: deliveries_def received_def)
  then show ?case using Cons by auto
qed simp

lemma own_keys_core_types: "own_keys core_types_map = core_type_names"
  by (simp add: core_types_map_def comp_def)

lemma get_core_type_for_iff:
  "get_core_type_for objectType = Some k \<longleftrightarrow> k \<in> set core_type_names \<and> objectType = object_type_prefix @ k"
proof
  assume "get_core_type_for objectType = Some k"
  then have "k \<in> set core_type_names" "strict_eq (get_prop core_types_map k) (JStr objectType)"
    by (auto simp: get_core_type_for_def find_Some_iff own_keys_core_types in_set_conv_nth
        simp del: get_prop.simps)
  then show "k \<in> set core_type_names \<and> objectType = object_type_prefix @ k"
    by (simp add: core_type_lookup)
qed (auto intro: get_core_type_for_inverse)

lemma core_type_no_colon: "is_core_type t \<Longrightarrow> t \<noteq> CHR '':'' # rest"
  by (auto simp: is_core_type_iff core_type_names_def object_proto_names_def)

lemma object_filters_eq:
  assumes "is_object obj None"
  obtains coreType objectType where "get_prop obj ''coreType'' = JStr coreType"
    "get_prop obj ''objectType'' = JStr objectType" "coreType \<in> set core_type_names"
    "object_filters obj = (if object_type_prefix @ coreType \<noteq> objectType
       then [coreType, CHR '':'' # objectType] else [coreType])"
proof -
  obtain c where c: "get_prop obj ''coreType'' = JStr c" "is_assignable obj c"
    using assms by (auto simp: is_object_None)
  moreover have "is_object_base obj" using c(2) by (rule is_assignable_base)
  then obtain t where "get_prop obj ''objectType'' = JStr t"
    by (auto simp: is_object_base_def nonempty_str_iff)
  moreover have "c \<in> set core_type_names" using c(2) by (rule is_assignable_name)
  ultimately show ?thesis
    using that by (simp add: object_filters_def prop_string_def get_object_type_for_def core_type_lookup)
qed

lemma fold_dispatch_plain:
  assumes "\<forall>el \<in> set els. create_event_instance el = Inr event \<and> el_type el = Advertise"
    "event_type_of event = Advertise"
  shows "fold (dispatch_event cv uuid) els s =
    out (concat (map (\<lambda>el. concat (map (deliveries cv event (el_corr el))
      (rev (observers_of s Advertise (el_filter el))))) els)) s"
  using assms
proof (induction els arbitrary: s)
  case (Cons el els)
  have "plain_observer cv event obs" for obs
    using assms(2) by (cases obs; cases event)
      (auto simp: plain_observer_def event_passes_def is_ok_conv split: event_test.splits)
  then have "dispatch_event cv uuid el s =
      out (concat (map (deliveries cv event (el_corr el)) (rev (observers_of s Advertise (el_filter el))))) s"
    using Cons.prems dispatch_request_plain [of el event s cv uuid] by (simp add: dispatch_event_def)
  then show ?case using Cons by simp
qed simp

lemma filter_one_of:
  "k \<noteq> b \<Longrightarrow> filter (\<lambda>g. g = k \<and> P) (if q then [a, b] else [a]) = (if a = k \<and> P then [k] else [])"
  "k \<noteq> a \<Longrightarrow> filter (\<lambda>g. g = k \<and> P) (if q then [a, b] else [a]) = (if b = k \<and> q \<and> P then [k] else [])"
  by auto

definition wanted :: "string option \<Rightarrow> string option \<Rightarrow> jsv \<Rightarrow> bool" where
  "wanted coreType objectType obj =
    (case objectType of
       None \<Rightarrow> get_prop obj ''coreType'' = JStr (the coreType)
     | Some t \<Rightarrow> get_prop obj ''objectType'' = JStr t \<and>
         (\<forall>k \<in> set core_type_names. t = object_type_prefix @ k \<longrightarrow> get_prop obj ''coreType'' = JStr k))"

lemma advertise_filter_matches:
  assumes "is_object (ad_object d) None"
    "observe_typed Advertise coreType objectType s0 = Inr ((i, test), s1)"
    "(\<exists>c. coreType = Some c \<and> c \<noteq> [] \<and> objectType = None) \<or>
     (\<exists>t. coreType = None \<and> objectType = Some t \<and> t \<noteq> [])"
  obtains f where "observe_request Advertise (Some f) s0 = (i, s1)"
    "filter (\<lambda>g. g = f \<and> event_passes cv test (AdvertiseEv d) = Inr True) (object_filters (ad_object d)) =
      (if wanted coreType objectType (ad_object d) then [f] else [])"
proof -
  obtain c t where ct: "get_prop (ad_object d) ''coreType'' = JStr c"
    "get_prop (ad_object d) ''objectType'' = JStr t" "c \<in> set core_type_names"
    and fs: "object_filters (ad_object d) =
      (if object_type_prefix @ c \<noteq> t then [c, CHR '':'' # t] else [c])"
    using object_filters_eq [OF assms(1)] by blast
  have c: "is_core_type c" using ct(3) by (simp add: is_core_type_iff)
  show ?thesis
  proof (cases objectType)
    case None
    then obtain k where k: "coreType = Some k" "is_core_type k"
      "observe_request Advertise (Some k) s0 = (i, s1)" "test = AnyEvent"
      using assms(2,3) by (auto simp: observe_typed_def split: if_splits prod.splits)
    have ne: "k \<noteq> CHR '':'' # t" using k(2) core_type_no_colon by blast
    have "event_passes cv test (AdvertiseEv d) = Inr True" using k(4) by (simp add: event_passes_def)
    moreover have "wanted coreType objectType (ad_object d) = (c = k)"
      using None k(1) ct(1) by (simp add: wanted_def del: get_prop.simps)
    ultimately show ?thesis
      using filter_one_of(1) [OF ne, of True] by (intro that [OF k(3)]) (simp add: fs)
  next
    case (Some u)
    then have u: "u \<noteq> []" "coreType = None" using assms(3) by auto
    show ?thesis
    proof (cases "get_core_type_for u")
      case None
      then have o: "observe_request Advertise (Some (CHR '':'' # u)) s0 = (i, s1)" "test = AnyEvent"
        using assms(2) u Some by (auto simp: observe_typed_def split: if_splits prod.splits)
      have no: "u \<noteq> object_type_prefix @ k" if "k \<in> set core_type_names" for k
        using None that get_core_type_for_iff [of u k] by auto
      have ne: "CHR '':'' # u \<noteq> c" using c core_type_no_colon by blast
      have "event_passes cv test (AdvertiseEv d) = Inr True" using o(2) by (simp add: event_passes_def)
      moreover have "wanted coreType objectType (ad_object d) = (t = u)"
        using Some ct(2) no by (simp add: wanted_def del: get_prop.simps)
      ultimately show ?thesis
        using filter_one_of(2) [OF ne, of True] no [OF ct(3)]
        by (intro that [OF o(1)]) (auto simp: fs)
    next
      case (Some k)
      then have o: "observe_request Advertise (Some k) s0 = (i, s1)" "test = ObjectTypeIs u"
        using assms(2) u \<open>objectType = Some u\<close>
        by (auto simp: observe_typed_def split: if_splits prod.splits)
      have k: "k \<in> set core_type_names" "u = object_type_prefix @ k"
        using Some by (simp_all add: get_core_type_for_iff)
      then have ne: "k \<noteq> CHR '':'' # t" using core_type_no_colon by (auto simp: is_core_type_iff)
      have "event_passes cv test (AdvertiseEv d) = Inr (t = u)"
        using o(2) ct(2) by (simp add: event_passes_def del: get_prop.simps)
      moreover have "wanted coreType objectType (ad_object d) = (t = u \<and> c = k)"
        using \<open>objectType = Some u\<close> ct k by (auto simp add: wanted_def simp del: get_prop.simps)
      ultimately show ?thesis
        using filter_one_of(1) [OF ne, of "t = u"] by (intro that [OF o(1)]) (auto simp: fs)
    qed
  qed
qed

text \<open>What another agent's binding dispatches for a published event like (see
  \<open>published_event_dispatched\<close>).\<close>

definition transported :: "event_like \<Rightarrow> event_like" where
  "transported el =
    inbound (el_type el) (el_filter el) (el_source el)
      (if is_one_way_event (el_type el) then None else Some (template (el_corr el)))
      (case el_data el of JsonData v \<Rightarrow> JsonData (jsonify v) | d \<Rightarrow> d)"

lemma concat_map_if: "concat (map (\<lambda>x. if P x then [y] else []) xs) = map (\<lambda>x. y) (filter P xs)"
  by (induction xs) simp_all

lemma received_concat: "received n (concat xss) = concat (map (received n) xss)"
  by (induction xss) simp_all

lemma subscribe_request_out [simp]: "ia_out (subscribe_request i obs s) = ia_out s"
  by (simp add: subscribe_request_def set_request_item_def Let_def)

text \<open>C2: an application that observes Advertise events by core type or by object type gets every
  advertised object of that type exactly once, and no other: the agent that advertises publishes
  the event with the core type and, unless the object type is the core type's own, with the object
  type, and of these events one and only one reaches the observer and passes its test. An object
  whose object type is that of a core type it does not have is missed by the observers of that
  object type.\<close>

theorem advertise_observed_once:
  assumes "requests_ok s0" "\<forall>t f test. App n test \<notin> set (observers_of s0 t f)"
    "valid_event (AdvertiseEv d)" "json_event (AdvertiseEv d)"
    "observe_advertise coreType objectType s0 = Inr ((i, test), s1)"
    "(\<exists>c. coreType = Some c \<and> c \<noteq> [] \<and> objectType = None) \<or>
     (\<exists>t. coreType = None \<and> objectType = Some t \<and> t \<noteq> [])"
  shows "received n (ia_out (fold (dispatch_event cv uuid)
      (map (\<lambda>f. transported (create_event_like src (AdvertiseEv d) (Some f) None))
        (object_filters (ad_object d)))
      (subscribe_request i (App n test) s1))) =
    received n (ia_out s0) @ (if wanted coreType objectType (ad_object d) then [AdvertiseEv d] else [])"
proof -
  let ?s = "subscribe_request i (App n test) s1"
  let ?el = "\<lambda>f. transported (create_event_like src (AdvertiseEv d) (Some f) None)"
  let ?fs = "object_filters (ad_object d)"
  have el: "el_type (?el f) = Advertise" "el_filter (?el f) = Some f" "el_corr (?el f) = None" for f
    by (simp_all add: transported_def create_event_like_def inbound_def)
  have inst: "create_event_instance (?el f) = Inr (AdvertiseEv d)" for f
    using create_event_instance_back [of "AdvertiseEv d" "Some f" "Some src" None] assms(3,4)
    by (simp add: transported_def create_event_like_def)
  have obj: "is_object (ad_object d) None"
    using assms(3) by (auto simp: new_advertise_data_def split: if_splits)
  obtain f0 where f0: "observe_request Advertise (Some f0) s0 = (i, s1)"
    "filter (\<lambda>g. g = f0 \<and> event_passes cv test (AdvertiseEv d) = Inr True) ?fs =
      (if wanted coreType objectType (ad_object d) then [f0] else [])"
    using advertise_filter_matches [OF obj assms(5) [unfolded observe_advertise_def] assms(6)] by metis
  note spec = observe_request_spec [OF assms(1) f0(1)]
  have obs: "observers_of ?s Advertise (Some f) =
      observers_of s0 Advertise (Some f) @ (if f = f0 then [App n test] else [])" for f
    using observers_of_subscribe [OF spec(1,2)] spec(3) by (simp add: get_request_id_inj)
  have one: "received n (concat (map (deliveries cv (AdvertiseEv d) None)
        (rev (observers_of ?s Advertise (Some f))))) =
      (if f = f0 \<and> event_passes cv test (AdvertiseEv d) = Inr True then [AdvertiseEv d] else [])" for f
    using received_none [of n "rev (observers_of s0 Advertise (Some f))"] assms(2)
    by (simp add: obs) (simp add: deliveries_def received_def)
  have "fold (dispatch_event cv uuid) (map ?el ?fs) ?s =
      out (concat (map (\<lambda>el. concat (map (deliveries cv (AdvertiseEv d) (el_corr el))
        (rev (observers_of ?s Advertise (el_filter el))))) (map ?el ?fs))) ?s"
    using inst el(1) by (intro fold_dispatch_plain) auto
  then have "received n (ia_out (fold (dispatch_event cv uuid) (map ?el ?fs) ?s)) =
      received n (ia_out s0) @ concat (map (\<lambda>f. received n (concat (map (deliveries cv (AdvertiseEv d) None)
        (rev (observers_of ?s Advertise (Some f)))))) ?fs)"
    using spec(4) by (simp add: received_concat comp_def el)
  also have "\<dots> = received n (ia_out s0) @
      (if wanted coreType objectType (ad_object d) then [AdvertiseEv d] else [])"
    unfolding one concat_map_if f0(2) by simp
  finally show ?thesis .
qed

definition sample_identity :: jsv where
  "sample_identity = jobj [(''coreType'', JStr ''Identity''), (''objectType'', JStr ''coaty.Identity''),
     (''objectId'', JStr ''a1''), (''name'', JStr ''agent'')]"

definition sample_manager :: comm_manager where
  "sample_manager = new_comm_manager show_nat \<lparr>cf_identity = sample_identity, cf_io_nodes = [],
     cf_options = no_options\<rparr>"

lemma sample_manager_sel [simp]:
  "cm_requests sample_manager = []" "cm_responses sample_manager = []" "ia_out sample_manager = []"
  "cm_request_heap sample_manager = []" "cm_response_heap sample_manager = []"
  "ia_nodes sample_manager = []" "cm_disposed sample_manager = False" "cm_started sample_manager = False"
  "ia_actors sample_manager = []" "ia_binding sample_manager = new_binding None False"
  "cm_uuids sample_manager = 0" "ia_values sample_manager = []" "ia_states sample_manager = []"
  "cf_identity (cm_config sample_manager) = sample_identity"
  by (simp_all add: sample_manager_def new_comm_manager_def init_options_def no_options_def
      merge_options_def Let_def)

definition sample_advertise :: advertise_data where
  "sample_advertise = \<lparr>ad_object = sample_task, ad_private = JUndef\<rparr>"

lemma sample_advertise_valid:
  "valid_event (AdvertiseEv sample_advertise)" "json_event (AdvertiseEv sample_advertise)"
  by (simp_all add: sample_advertise_def new_advertise_data_def json_sample_task json_part_def
      is_valid_private_data_def object_type_filter_ok_def)
    (simp_all add: sample_task_def proto_prop_def is_valid_event_filter_def illegal_filter_chars_def)

theorem advertise_observed_once_witness:
  "\<exists>s1. observe_advertise (Some ''Task'') None sample_manager = Inr ((0, AnyEvent), s1) \<and>
    received 7 (ia_out (fold (dispatch_event sample_conv0 show_nat)
      (map (\<lambda>f. transported (create_event_like ''a2'' (AdvertiseEv sample_advertise) (Some f) None))
        (object_filters sample_task))
      (subscribe_request 0 (App 7 AnyEvent) s1))) = [AdvertiseEv sample_advertise]"
proof -
  obtain s1 where s1: "observe_advertise (Some ''Task'') None sample_manager = Inr ((0, AnyEvent), s1)"
    by (simp add: observe_advertise_def observe_typed_def is_core_type_iff core_type_names_def
        observe_request_def Let_def)
  have o: "ad_object sample_advertise = sample_task" by (simp add: sample_advertise_def)
  have w: "wanted (Some ''Task'') None sample_task" by (simp add: wanted_def sample_task_def)
  show ?thesis
    using advertise_observed_once [OF _ _ sample_advertise_valid s1, of 7 sample_conv0 show_nat "''a2''"] s1 o w
    by (simp add: requests_ok_def observers_of_def)
qed

section \<open>Responses\<close>

definition pending_request :: "comm_manager \<Rightarrow> event_like \<Rightarrow> nat option" where
  "pending_request s el =
    (case el_corr el of None \<Rightarrow> None | Some c \<Rightarrow> jget (cm_responses s) c)"

text \<open>Pending items hold two-way requests, and only applications subscribe to responses.\<close>

definition responses_ok :: "comm_manager \<Rightarrow> bool" where
  "responses_ok s =
    (\<forall>k i. jget (cm_responses s) k = Some i \<longrightarrow>
      i < length (cm_response_heap s) \<and> rp_corr (cm_response_heap s ! i) = k \<and>
      response_event_type (rp_request (cm_response_heap s ! i)) \<noteq> None \<and>
      (\<forall>obs \<in> set (rp_subscribers (cm_response_heap s ! i)). \<exists>n. obs = App n AnyEvent))"

definition valid_response :: "com_event \<Rightarrow> com_event \<Rightarrow> bool" where
  "valid_response request response =
    (response_event_type request = Some (event_type_of response) \<and>
     ensure_valid_response request response = Inr ())"

lemma response_expected_iff:
  "response_event_type request \<noteq> None \<Longrightarrow>
    response_expected request t \<longleftrightarrow> response_event_type request = Some t"
  by (cases request) (auto simp: response_expected_def)

text \<open>C3: a response is delivered to the subscribers of the request that carries its correlation id,
  and to nobody else, exactly when such a request is pending, the response's data is valid, it is
  of the response type that belongs to the request, and it passes the request's check; any other
  response leaves the manager as it is.\<close>

theorem response_delivered:
  assumes "responses_ok s" "is_response_type (el_type el)"
  shows "dispatch_event cv uuid el s =
    (case pending_request s el of
       None \<Rightarrow> s
     | Some i \<Rightarrow>
         (case create_event_instance el of
            Inl e \<Rightarrow> s
          | Inr event \<Rightarrow>
              (if valid_response (rp_request (cm_response_heap s ! i)) event
               then out (concat (map (deliveries cv event None) (rev (rp_subscribers (cm_response_heap s ! i))))) s
               else s)))"
proof -
  have d: "dispatch_event cv uuid el s = dispatch_response cv uuid el s"
    using assms(2) by (auto simp: dispatch_event_def is_response_type_def)
  show ?thesis
  proof (cases "pending_request s el")
    case None
    then show ?thesis unfolding d by (simp add: dispatch_response_def pending_request_def)
  next
    case (Some i)
    let ?item = "cm_response_heap s ! i"
    have ok: "response_event_type (rp_request ?item) \<noteq> None"
      "\<forall>obs \<in> set (rp_subscribers ?item). \<exists>n. obs = App n AnyEvent"
      using assms(1) Some by (auto simp: responses_ok_def pending_request_def split: option.splits)
    have "\<forall>obs \<in> set (rev (rp_subscribers ?item)). plain_observer cv event obs" for event
      using ok(2) by (auto simp: plain_observer_def event_passes_def)
    then have n: "dispatch_next_response cv uuid event i s =
        out (concat (map (deliveries cv event None) (rev (rp_subscribers ?item)))) s" for event
      unfolding dispatch_next_response_def by (rule fold_plain)
    have e: "response_expected (rp_request ?item) (el_type el) \<longleftrightarrow>
        response_event_type (rp_request ?item) = Some (el_type el)"
      using ok(1) by (rule response_expected_iff)
    show ?thesis
    proof (cases "create_event_instance el")
      case (Inl x)
      then show ?thesis using Some unfolding d
        by (simp add: dispatch_response_def pending_request_def Let_def)
    next
      case (Inr event)
      then have "event_type_of event = el_type el" using create_event_instance_valid by blast
      then show ?thesis
        using Some Inr e n unfolding d
        by (auto simp: dispatch_response_def pending_request_def valid_response_def Let_def
            split: sum.splits)
    qed
  qed
qed

definition sample_pending :: comm_manager where
  "sample_pending = sample_manager\<lparr>cm_response_heap :=
     [\<lparr>rp_request = UpdateEv \<lparr>ud_object = sample_task\<rparr>, rp_corr = ''c1'', rp_filter = Some ''Task'',
       rp_like = request_like Complete None, rp_subscribers = [App 3 AnyEvent], rp_cleanup = True,
       rp_finished = False\<rparr>],
     cm_responses := [(''c1'', 0)]\<rparr>"

definition sample_response :: "string \<Rightarrow> event_like" where
  "sample_response c = inbound Complete None (Some ''a2'') (Some c)
     (JsonData (jsonify (complete_data_to_json sample_complete)))"

lemma sample_response_instance: "create_event_instance (sample_response c) = Inr (CompleteEv sample_complete)"
  using create_event_instance_back [of "CompleteEv sample_complete" None "Some ''a2''" "Some c"]
  by (simp add: sample_response_def sample_complete_def new_complete_data_def json_sample_task
      is_valid_private_data_def json_part_def)

theorem response_delivered_witness:
  "dispatch_event sample_conv0 show_nat (sample_response ''c1'') sample_pending =
     out [NextEvent 3 (CompleteEv sample_complete) None] sample_pending \<and>
   dispatch_event sample_conv0 show_nat (sample_response ''c2'') sample_pending = sample_pending"
proof -
  have ok: "responses_ok sample_pending" by (simp add: responses_ok_def sample_pending_def)
  have r: "is_response_type (el_type (sample_response c))" for c
    by (simp add: sample_response_def inbound_def is_response_type_def)
  have p: "pending_request sample_pending (sample_response c) = (if c = ''c1'' then Some 0 else None)" for c
    by (simp add: pending_request_def sample_pending_def sample_response_def inbound_def)
  have h: "cm_response_heap sample_pending ! 0 =
      \<lparr>rp_request = UpdateEv \<lparr>ud_object = sample_task\<rparr>, rp_corr = ''c1'', rp_filter = Some ''Task'',
       rp_like = request_like Complete None, rp_subscribers = [App 3 AnyEvent], rp_cleanup = True,
       rp_finished = False\<rparr>" by (simp add: sample_pending_def)
  have v: "valid_response (UpdateEv \<lparr>ud_object = sample_task\<rparr>) (CompleteEv sample_complete)"
    by (simp add: valid_response_def ensure_valid_response_def ensure_valid_complete_def
        sample_complete_def sample_task_def)
  show ?thesis
    using response_delivered [OF ok r, of sample_conv0 show_nat] v
    by (simp add: p sample_response_instance h deliveries_def event_passes_def)
qed

section \<open>Stopping\<close>

definition completes :: "observer \<Rightarrow> delivery list" where
  "completes obs = (case obs of App n test \<Rightarrow> [CompleteEvent n] | _ \<Rightarrow> [])"

definition io_completes :: "comm_manager \<Rightarrow> delivery list" where
  "io_completes s =
    concat (map (\<lambda>p. [IoStateNext p False JUndef, IoStateComplete p]) (jkeys (ia_states s))) @
    map IoValueComplete (ia_values s)"

lemma unsubscribe_request_keeps:
  "ia_out (unsubscribe_request i obs s) = ia_out s"
  "j \<noteq> i \<Longrightarrow> cm_request_heap (unsubscribe_request i obs s) ! j = cm_request_heap s ! j"
  "cm_responses (unsubscribe_request i obs s) = cm_responses s"
  "cm_response_heap (unsubscribe_request i obs s) = cm_response_heap s"
  "cm_disposed (unsubscribe_request i obs s) = cm_disposed s"
  "cm_started (unsubscribe_request i obs s) = cm_started s"
  by (simp_all add: unsubscribe_request_def set_request_item_def Let_def)

lemma unsubscribe_response_keeps:
  "ia_out (unsubscribe_response i obs s) = ia_out s"
  "j \<noteq> i \<Longrightarrow> cm_response_heap (unsubscribe_response i obs s) ! j = cm_response_heap s ! j"
  "cm_disposed (unsubscribe_response i obs s) = cm_disposed s"
  "cm_started (unsubscribe_response i obs s) = cm_started s"
  by (simp_all add: unsubscribe_response_def set_response_item_def Let_def)

lemma complete_fold:
  fixes s :: comm_manager
  assumes "\<And>obs t. ia_out (gone obs t) = ia_out t"
    "\<And>obs t. keep (gone obs t) = keep t" "\<And>ds t. keep (out ds t) = keep t"
  shows "ia_out (fold (\<lambda>obs t. gone obs (case obs of App n test \<Rightarrow> out [CompleteEvent n] t | _ \<Rightarrow> t))
      observers s) = ia_out s @ concat (map completes observers) \<and>
    keep (fold (\<lambda>obs t. gone obs (case obs of App n test \<Rightarrow> out [CompleteEvent n] t | _ \<Rightarrow> t))
      observers s) = keep s"
proof (induction observers arbitrary: s)
  case (Cons obs observers)
  let ?t = "gone obs (case obs of App n test \<Rightarrow> out [CompleteEvent n] s | _ \<Rightarrow> s)"
  have "ia_out ?t = ia_out s @ completes obs \<and> keep ?t = keep s"
    using assms by (cases obs) (simp_all add: completes_def)
  then show ?case using Cons.IH [of ?t] by simp
qed simp

lemma complete_request_out:
  "ia_out (complete_request i s) =
    ia_out s @ concat (map completes (rev (rq_subscribers (cm_request_heap s ! i))))"
  unfolding complete_request_def
  by (rule conjunct1 [OF complete_fold [where keep = "\<lambda>t. ()"]]) (simp_all add: unsubscribe_request_keeps)

lemma complete_request_keeps:
  assumes "\<And>obs t. keep (unsubscribe_request i obs t) = keep t" "\<And>ds t. keep (out ds t) = keep t"
  shows "keep (complete_request i s) = keep s"
  unfolding complete_request_def using assms
  by (rule conjunct2 [OF complete_fold [OF unsubscribe_request_keeps(1)]])

lemma complete_response_out:
  "ia_out (complete_response i s) =
    ia_out s @ concat (map completes (rev (rp_subscribers (cm_response_heap s ! i))))"
  unfolding complete_response_def
  by (rule conjunct1 [OF complete_fold [where keep = "\<lambda>t. ()"]]) (simp_all add: unsubscribe_response_keeps)

lemma complete_response_keeps:
  assumes "\<And>obs t. keep (unsubscribe_response i obs t) = keep t" "\<And>ds t. keep (out ds t) = keep t"
  shows "keep (complete_response i s) = keep s"
  unfolding complete_response_def using assms
  by (rule conjunct2 [OF complete_fold [OF unsubscribe_response_keeps(1)]])

lemma complete_requests_out:
  assumes "distinct is"
  shows "ia_out (fold complete_request is s) = ia_out s @
      concat (map (\<lambda>i. concat (map completes (rev (rq_subscribers (cm_request_heap s ! i))))) is)"
  using assms
proof (induction "is" arbitrary: s)
  case (Cons i "is")
  have "cm_request_heap (complete_request i s) ! j = cm_request_heap s ! j" if "j \<in> set is" for j
  proof -
    have "j \<noteq> i" using Cons.prems that by auto
    then show ?thesis by (intro complete_request_keeps) (simp_all add: unsubscribe_request_keeps)
  qed
  then have "concat (map (\<lambda>j. concat (map completes (rev (rq_subscribers
        (cm_request_heap (complete_request i s) ! j))))) is) =
      concat (map (\<lambda>j. concat (map completes (rev (rq_subscribers (cm_request_heap s ! j))))) is)"
    by (intro arg_cong [where f = concat] map_cong) auto
  then show ?case using Cons by (simp add: complete_request_out)
qed simp

lemma complete_responses_out:
  assumes "distinct is"
  shows "ia_out (fold complete_response is s) = ia_out s @
      concat (map (\<lambda>i. concat (map completes (rev (rp_subscribers (cm_response_heap s ! i))))) is)"
  using assms
proof (induction "is" arbitrary: s)
  case (Cons i "is")
  have "cm_response_heap (complete_response i s) ! j = cm_response_heap s ! j" if "j \<in> set is" for j
  proof -
    have "j \<noteq> i" using Cons.prems that by auto
    then show ?thesis by (intro complete_response_keeps) (simp_all add: unsubscribe_response_keeps)
  qed
  then have "concat (map (\<lambda>j. concat (map completes (rev (rp_subscribers
        (cm_response_heap (complete_response i s) ! j))))) is) =
      concat (map (\<lambda>j. concat (map completes (rev (rp_subscribers (cm_response_heap s ! j))))) is)"
    by (intro arg_cong [where f = concat] map_cong) auto
  then show ?case using Cons by (simp add: complete_response_out)
qed simp

lemma fold_complete_keeps:
  assumes "\<And>i obs t. keep (unsubscribe_request i obs t) = keep t" "\<And>ds t. keep (out ds t) = keep t"
  shows "keep (fold complete_request is s) = keep s"
  using assms by (induction "is" arbitrary: s) (simp_all add: complete_request_keeps)

lemma fold_complete_response_keeps:
  assumes "\<And>i obs t. keep (unsubscribe_response i obs t) = keep t" "\<And>ds t. keep (out ds t) = keep t"
  shows "keep (fold complete_response is s) = keep s"
  using assms by (induction "is" arbitrary: s) (simp_all add: complete_response_keeps)

lemma fold_unsubscribe_routes:
  fixes s :: comm_manager
  assumes "\<And>b t. keep (t\<lparr>ia_binding := b\<rparr>) = keep t"
  shows "keep (fold (\<lambda>r t. t\<lparr>ia_binding := unsubscribe (route_like r False False) (ia_binding t)\<rparr>) rs s) = keep s"
  using assms by (induction rs arbitrary: s) simp_all

lemma unobserve_io_keeps:
  fixes s :: comm_manager
  assumes "\<And>b t. keep (t\<lparr>ia_binding := b\<rparr>) = keep t" "\<And>ds t. keep (out ds t) = keep t"
  shows "keep (unobserve_io_state_and_value s) = keep s"
  unfolding unobserve_io_state_and_value_def Let_def assms(2) fold_unsubscribe_routes [of keep, OF assms(1)] ..

lemma unobserve_io_out:
  fixes s :: comm_manager
  shows "ia_out (unobserve_io_state_and_value s) = ia_out s @ io_completes s"
  unfolding unobserve_io_state_and_value_def Let_def
  by (simp add: fold_unsubscribe_routes [where keep = ia_out] io_completes_def
      fold_unsubscribe_routes [where keep = ia_values] out_def)

definition live_completes :: "comm_manager \<Rightarrow> delivery list" where
  "live_completes s =
    concat (map (\<lambda>i. concat (map completes (rev (rq_subscribers (cm_request_heap s ! i)))))
      (jvals (cm_requests s))) @
    concat (map (\<lambda>i. concat (map completes (rev (rp_subscribers (cm_response_heap s ! i)))))
      (jvals (cm_responses s)))"

lemma distinct_jvals:
  assumes "jwf m" "\<And>k i. jget m k = Some i \<Longrightarrow> g i = k"
  shows "distinct (jvals m)"
proof -
  have e: "g (snd e) = fst e" if "e \<in> set m" for e
    using assms(2) [of "fst e" "snd e"] that jwf_in_set_iff [OF assms(1), of "fst e" "snd e"] by simp
  have "map g (jvals m) = jkeys m"
    unfolding map_map comp_def by (rule map_cong [OF refl e])
  then have "distinct (map g (jvals m))" using assms(1) by argo
  then show ?thesis unfolding distinct_map by blast
qed

lemma unobserve_observed_items_out:
  assumes "requests_ok s" "responses_ok s" "jwf (cm_requests s)" "jwf (cm_responses s)"
  shows "ia_out (unobserve_observed_items s) = ia_out s @ io_completes s @ live_completes s"
proof -
  let ?s1 = "unobserve_io_state_and_value s"
  let ?s2 = "fold complete_request (jvals (cm_requests ?s1)) ?s1"
  have keep1: "cm_requests ?s1 = cm_requests s" "cm_request_heap ?s1 = cm_request_heap s"
    "cm_responses ?s1 = cm_responses s" "cm_response_heap ?s1 = cm_response_heap s"
    by (intro unobserve_io_keeps; simp)+
  have keep2: "cm_responses ?s2 = cm_responses s" "cm_response_heap ?s2 = cm_response_heap s"
    using keep1 fold_complete_keeps [where keep = cm_responses]
      fold_complete_keeps [where keep = cm_response_heap]
    by (simp_all add: unsubscribe_request_keeps)
  have "distinct (jvals (cm_requests s))"
    using assms(1,3) by (intro distinct_jvals [where g = "\<lambda>i. rq_id (cm_request_heap s ! i)"])
      (simp_all add: requests_ok_def)
  moreover have "distinct (jvals (cm_responses s))"
    using assms(2,4) by (intro distinct_jvals [where g = "\<lambda>i. rp_corr (cm_response_heap s ! i)"])
      (simp_all add: responses_ok_def)
  ultimately show ?thesis
    using complete_requests_out [of "jvals (cm_requests ?s1)" ?s1]
      complete_responses_out [of "jvals (cm_responses ?s2)" ?s2] keep1 keep2 unobserve_io_out [of s]
    by (simp add: unobserve_observed_items_def Let_def init_observed_items_def live_completes_def)
qed

lemma dispatch_nothing_observed:
  assumes "cm_requests s = []" "cm_responses s = []" "ia_actors s = []"
  shows "dispatch_event cv uuid el s = s"
  using assms by (simp add: dispatch_event_def dispatch_response_def dispatch_request_def
      dispatch_io_value_def split: option.splits)

text \<open>C4: when the manager is stopped, restarted or disposed, every observer of an event, a response,
  an IO state or an IO value that its tables hold is completed exactly once, after the operating state has been reported
  as stopped; nothing observes any more, so no inbound event is delivered to anybody; and the
  manager is left with a new binding that holds no subscription, or, if it is disposed, with an
  unjoined one.\<close>

theorem stop_ends_observation:
  assumes "requests_ok s" "responses_ok s" "jwf (cm_requests s)" "jwf (cm_responses s)"
  shows "let t = unjoin_binding uuid options s in
    ia_out t = ia_out s @ (if cm_started s then [Operating False] else []) @ io_completes s @
      live_completes s \<and>
    \<not> cm_started t \<and> (\<forall>cv el. dispatch_event cv uuid el t = t) \<and>
    (if cm_disposed s then mb_state (ia_binding t) = Unjoined
     else mb_state (ia_binding t) = Initialized \<and> mb_issued (ia_binding t) = [])"
proof -
  define s0 where "s0 = update_operating_state False s"
  have s0: "requests_ok s0" "responses_ok s0" "jwf (cm_requests s0)" "jwf (cm_responses s0)"
    "io_completes s0 = io_completes s" "live_completes s0 = live_completes s" "\<not> cm_started s0"
    "cm_disposed s0 = cm_disposed s"
    "ia_out s0 = ia_out s @ (if cm_started s then [Operating False] else [])"
    using assms by (auto simp: s0_def update_operating_state_def requests_ok_def responses_ok_def
        io_completes_def live_completes_def out_def)
  define s1 where "s1 = unobserve_observed_items s0"
  have o: "ia_out s1 = ia_out s0 @ io_completes s0 @ live_completes s0"
    unfolding s1_def using s0(1-4) by (rule unobserve_observed_items_out)
  have keep: "keep s1 = keep s0"
    if k: "\<And>b t. keep (t\<lparr>ia_binding := b\<rparr>) = keep t" "\<And>ds t. keep (out ds t) = keep t"
      "\<And>i obs t. keep (unsubscribe_request i obs t) = keep t"
      "\<And>i obs t. keep (unsubscribe_response i obs t) = keep t"
      "\<And>t. keep (init_observed_items t) = keep t" for keep :: "comm_manager \<Rightarrow> bool"
    unfolding s1_def unobserve_observed_items_def Let_def k(5)
      fold_complete_response_keeps [of keep, OF k(4,2)] fold_complete_keeps [of keep, OF k(3,2)]
      unobserve_io_keeps [of keep, OF k(1,2)] ..
  have st: "\<not> cm_started s1" "cm_disposed s1 = cm_disposed s"
    using keep [of cm_started] keep [of cm_disposed] s0(7,8)
    by (simp_all add: unsubscribe_request_keeps unsubscribe_response_keeps init_observed_items_def out_def)
  have none: "cm_requests s1 = []" "cm_responses s1 = []" "ia_actors s1 = []"
    by (simp_all add: s1_def unobserve_observed_items_def Let_def init_observed_items_def)
  let ?t = "unjoin_binding uuid options s"
  have t: "?t = (if cm_disposed s then on_binding unjoin s1
      else (init_options uuid options s1)\<lparr>cm_unjoined := cm_unjoined s1 @ [unjoin (ia_binding s1)]\<rparr>)"
    by (simp add: unjoin_binding_def Let_def s0_def [symmetric] s1_def [symmetric] st(2))
  have sel: "ia_out ?t = ia_out s1" "\<not> cm_started ?t" "cm_requests ?t = []" "cm_responses ?t = []"
    "ia_actors ?t = []"
    using st none by (simp_all add: t init_options_def Let_def)
  have "mb_state (unjoin b) = Unjoined" for b
    using same_subs_drain(1) same_subs_add_publication
    by (simp add: unjoin_def on_unjoin_def same_subs_def split: option.splits)
  then have b: "if cm_disposed s then mb_state (ia_binding ?t) = Unjoined
      else mb_state (ia_binding ?t) = Initialized \<and> mb_issued (ia_binding ?t) = []"
    by (simp add: t init_options_def Let_def new_binding_def)
  show ?thesis
    using sel b o s0(5,6,9) dispatch_nothing_observed [OF sel(3-5)] by (simp add: Let_def)
qed

theorem stop_ends_observation_witness:
  "ia_out (unjoin_binding show_nat no_options (sample_pending\<lparr>cm_started := True\<rparr>)) =
    [Operating False, CompleteEvent 3]"
proof -
  let ?s = "sample_pending\<lparr>cm_started := True\<rparr>"
  have ok: "requests_ok ?s" "responses_ok ?s" "jwf (cm_requests ?s)" "jwf (cm_responses ?s)"
    by (simp_all add: requests_ok_def responses_ok_def sample_pending_def)
  have c: "io_completes ?s = []" "live_completes ?s = [CompleteEvent 3]" "ia_out ?s = []"
    by (simp_all add: io_completes_def live_completes_def sample_pending_def completes_def)
  show ?thesis
    using stop_ends_observation [OF ok, of show_nat no_options] c by (simp add: Let_def)
qed

end
