(* ===== verification/CommManagerInv.thy ===== *)
theory CommManagerInv
  imports CommManagerProps BindingQueue
begin

text \<open>
  The manager and its binding together: a step relation for what applications, inbound events and
  the MQTT client make the manager do, and the invariant of its reachable states. Every observed
  request has its subscription at the binding and, while the client is connected, at the broker.
\<close>

section \<open>What a binding keeps\<close>

definition request_type :: "event_type \<Rightarrow> bool" where
  "request_type t = ((has_level t \<or> t = Raw) \<and> \<not> is_response_type t \<and> t \<noteq> IoValue)"

definition same_binding :: "mqtt_binding \<Rightarrow> mqtt_binding \<Rightarrow> bool" where
  "same_binding b b' =
    ((subs_inv b \<longrightarrow> subs_inv b') \<and> mb_namespace b' = mb_namespace b \<and> mb_cross b' = mb_cross b \<and>
     mb_state b' = mb_state b)"

definition bind_keeps :: "mqtt_binding \<Rightarrow> mqtt_binding \<Rightarrow> bool" where
  "bind_keeps b b' =
    (same_binding b b' \<and>
     (\<forall>t f. request_type t \<longrightarrow> has_item t f (mb_issued b) \<longrightarrow> has_item t f (mb_issued b')))"

lemma bind_keeps_refl [simp]: "bind_keeps b b"
  by (simp add: bind_keeps_def same_binding_def)

lemma bind_keeps_trans: "bind_keeps a b \<Longrightarrow> bind_keeps b c \<Longrightarrow> bind_keeps a c"
  by (auto simp: bind_keeps_def same_binding_def)

lemma has_item_iff: "has_item t f is \<longleftrightarrow> (\<exists>i \<in> set is. si_type i = t \<and> si_filter i = f)"
  by (auto simp: has_item_def list_ex_iff same_item_def)

lemma has_item_put: "has_item t f (put_item item is) \<longleftrightarrow>
    has_item t f is \<or> (t = si_type item \<and> f = si_filter item)"
  by (induction "is") (auto simp: has_item_def same_item_def)

lemma has_item_drop: "has_item t f is \<Longrightarrow> (t, f) \<noteq> (u, g) \<Longrightarrow> has_item t f (drop_item u g is)"
  by (induction "is") (auto simp: has_item_def same_item_def)

lemma bind_keeps_publish: "bind_keeps b (publish e b)"
  using same_subs_publish [of b e] subs_inv_same
  by (auto simp: bind_keeps_def same_binding_def same_subs_def)

lemma add_subscription_item_sel [simp]:
  "mb_state (add_subscription_item e b) = mb_state b" "mb_cross (add_subscription_item e b) = mb_cross b"
  "mb_namespace (add_subscription_item e b) = mb_namespace b"
  "mb_issued (add_subscription_item e b) =
    put_item \<lparr>si_type = el_type e, si_filter = template (get_topic_filter_for b e),
      si_decode = \<not> el_raw e\<rparr> (mb_issued b)"
  by (simp_all add: add_subscription_item_def Let_def set_subscribe_items)

lemma bind_keeps_subscribe: "subscribable e \<Longrightarrow> bind_keeps b (subscribe e b)"
  using subs_inv_subscribe [of b e]
  by (auto simp: bind_keeps_def same_binding_def subscribe_def on_subscribe_def has_item_put)

lemma remove_subscription_item_sel [simp]:
  "mb_state (remove_subscription_item e b) = mb_state b"
  "mb_cross (remove_subscription_item e b) = mb_cross b"
  "mb_namespace (remove_subscription_item e b) = mb_namespace b"
  by (simp_all add: remove_subscription_item_def Let_def set_subscribe_items)

lemma issued_remove:
  "mb_issued (remove_subscription_item e b) =
    drop_item (el_type e) (template (get_topic_filter_for b e)) (mb_issued b) \<or>
   mb_issued (remove_subscription_item e b) = mb_issued b"
  by (simp add: remove_subscription_item_def Let_def set_subscribe_items)

lemma same_binding_unsubscribe: "same_binding b (unsubscribe e b)"
  using subs_inv_remove [of b e] by (simp add: same_binding_def unsubscribe_def on_unsubscribe_def)

lemma has_item_unsubscribe:
  assumes "has_item t f (mb_issued b)" "(t, f) \<noteq> (el_type e, template (get_topic_filter_for b e))"
  shows "has_item t f (mb_issued (unsubscribe e b))"
  using assms has_item_drop issued_remove [of e b]
  by (auto simp: unsubscribe_def on_unsubscribe_def)

lemma bind_keeps_unsubscribe: "\<not> request_type (el_type e) \<Longrightarrow> bind_keeps b (unsubscribe e b)"
  unfolding bind_keeps_def
  by (intro conjI same_binding_unsubscribe allI impI has_item_unsubscribe) auto

section \<open>Operations that leave the observed items alone\<close>

definition frame :: "comm_manager \<Rightarrow> comm_manager \<Rightarrow> bool" where
  "frame s s' =
    (cm_requests s' = cm_requests s \<and> cm_request_heap s' = cm_request_heap s \<and>
     cm_responses s' = cm_responses s \<and> cm_response_heap s' = cm_response_heap s \<and>
     bind_keeps (ia_binding s) (ia_binding s'))"

lemma frame_refl [simp]: "frame s s"
  by (simp add: frame_def)

lemma frame_trans [trans]: "frame a b \<Longrightarrow> frame b c \<Longrightarrow> frame a c"
  by (auto simp: frame_def intro: bind_keeps_trans)

lemma frame_fold: "(\<And>x t. frame t (f x t)) \<Longrightarrow> frame s (fold f xs s)"
proof (induction xs arbitrary: s)
  case (Cons x xs)
  then show ?case using frame_trans [of s "f x s" "fold f xs (f x s)"] by simp
qed simp

lemma frame_update [simp]:
  "frame s (s\<lparr>ia_actors := x\<rparr>)" "frame s (s\<lparr>ia_sources := y\<rparr>)" "frame s (s\<lparr>ia_states := z\<rparr>)"
  "frame s (s\<lparr>ia_values := w\<rparr>)" "frame s (out ds s)" "frame s (s\<lparr>cm_uuids := n\<rparr>)"
  "frame s (s\<lparr>cm_started := v\<rparr>)"
  by (simp_all add: frame_def)

lemma frame_binding:
  "bind_keeps (ia_binding s) b \<Longrightarrow> frame s (s\<lparr>ia_actors := x, ia_binding := b\<rparr>)"
  "bind_keeps (ia_binding s) b \<Longrightarrow> frame s (s\<lparr>ia_binding := b\<rparr>)"
  by (simp_all add: frame_def)

lemma route_like_type [simp]:
  "subscribable (route_like r raw external)" "el_type (route_like r raw external) = IoValue"
  by (simp_all add: route_like_def subscribable_def has_level_def)

lemma not_request_types [simp]:
  "\<not> request_type IoValue" "is_response_type t \<Longrightarrow> \<not> request_type t"
  by (simp_all add: request_type_def)

lemma frame_disassociate: "frame s (disassociate_io_actor_items src act c n (s :: comm_manager))"
  unfolding disassociate_io_actor_items_def Let_def
  by (rule frame_trans [OF _ frame_fold])
    (auto intro!: frame_binding bind_keeps_unsubscribe)

lemma frame_associate: "frame s (associate_io_actor_items src actor act route ext (s :: comm_manager))"
proof -
  let ?s = "disassociate_io_actor_items src act None (Some route) s"
  have "frame ?s (associate_io_actor_items src actor act route ext s)"
    unfolding associate_io_actor_items_def Let_def
    by (cases "jget (ia_actors ?s) route") (simp_all add: frame_binding bind_keeps_subscribe)
  then show ?thesis by (rule frame_trans [OF frame_disassociate])
qed

lemma frame_update_sources: "frame s (update_io_source_items src act route rate (s :: comm_manager))"
proof -
  have f: "frame s ((fold (\<lambda>a. disassociate_io_actor_items src a r None) as s)\<lparr>ia_sources := m\<rparr>)" for r as m
    by (rule frame_trans [OF frame_fold frame_update(2)]) (rule frame_disassociate)
  show ?thesis
    using f by (auto simp: update_io_source_items_def Let_def split: option.splits prod.splits)
qed

lemma frame_io_state_next: "frame s (io_state_next p b v (s :: comm_manager))"
  unfolding io_state_next_def using frame_trans [OF frame_update(3) frame_update(5)] by simp

lemma frame_handle_associate: "frame s (handle_associate d (s :: comm_manager))"
proof -
  note trans = frame_trans [OF _ frame_io_state_next]
  have 1: "frame s (if own then update_io_source_items src act r rate s else s)" for own src act r rate
    by (simp add: frame_update_sources)
  have 2: "frame t (case actor of None \<Rightarrow> t | Some a \<Rightarrow> (case r of
      Some route \<Rightarrow> associate_io_actor_items src a act route ext t
    | None \<Rightarrow> disassociate_io_actor_items src act None None t))"
    for t :: comm_manager and actor r src act ext
    by (auto simp: frame_associate frame_disassociate split: option.splits)
  have 3: "frame t (if own then (case jget (ia_sources t) src of
      None \<Rightarrow> io_state_next src False JUndef t
    | Some (route, actorIds, rate) \<Rightarrow> io_state_next src True rate t) else t)"
    for t :: comm_manager and own src
    by (auto simp: frame_io_state_next split: option.splits)
  have 4: "frame t (case actor of None \<Rightarrow> t | Some a \<Rightarrow> io_state_next act b JUndef t)"
    for t :: comm_manager and actor :: "jsv option" and act b
    by (auto simp: frame_io_state_next split: option.splits)
  show ?thesis
    unfolding handle_associate_def Let_def
    by (split if_split, intro conjI impI frame_refl)
      (rule frame_trans [OF frame_trans [OF frame_trans [OF 1 2] 3] 4])
qed

lemma frame_publish_like: "frame s (publish_like e f c s)"
  by (simp add: publish_like_def on_binding_def frame_binding bind_keeps_publish)

lemma frame_io_value: "frame s (dispatch_io_value el (s :: comm_manager))"
  by (auto simp: dispatch_io_value_def split: option.splits)

lemma frame_observe_io:
  "frame s (snd (observe_io_state p (s :: comm_manager)))" "frame s (observe_io_value p s)"
  by (auto simp: observe_io_state_def observe_io_value_def Let_def split: option.splits)

lemma frame_unobserve_io: "frame s (unobserve_io_state_and_value (s :: comm_manager))"
  unfolding unobserve_io_state_and_value_def Let_def
  by (intro frame_trans [OF frame_trans [OF frame_update(5) frame_fold] frame_update(5)]
      frame_binding bind_keeps_unsubscribe) simp

section \<open>The invariant\<close>

definition request_item_ok :: "request_item \<Rightarrow> bool" where
  "request_item_ok item =
    (\<exists>t f. request_type t \<and> (t = Raw \<longrightarrow> f \<noteq> None) \<and> rq_like item = request_like t f \<and> rq_id item = get_request_id t f)"

definition response_item_ok :: "response_item \<Rightarrow> bool" where
  "response_item_ok item =
    (is_response_type (el_type (rp_like item)) \<and>
     response_event_type (rp_request item) = Some (el_type (rp_like item)) \<and>
     (\<forall>obs \<in> set (rp_subscribers item). \<exists>n. obs = App n AnyEvent))"

text \<open>The binding takes every subscription but those on raw topics that are not valid.\<close>

definition accepted :: "event_like \<Rightarrow> bool" where
  "accepted el = (el_type el = Raw \<longrightarrow> raw_topic_ok el True)"

definition has_subscription :: "mqtt_binding \<Rightarrow> event_like \<Rightarrow> bool" where
  "has_subscription b el = has_item (el_type el) (template (get_topic_filter_for b el)) (mb_issued b)"

definition synced :: "comm_manager \<Rightarrow> bool" where
  "synced s =
    (mb_state (ia_binding s) \<noteq> Unjoined \<longrightarrow>
      (\<forall>k i. jget (cm_requests s) k = Some i \<longrightarrow> accepted (rq_like (cm_request_heap s ! i)) \<longrightarrow>
        has_subscription (ia_binding s) (rq_like (cm_request_heap s ! i))))"

definition cm_inv :: "comm_manager \<Rightarrow> bool" where
  "cm_inv s =
    (requests_ok s \<and> jwf (cm_requests s) \<and> jwf (cm_responses s) \<and>
     (\<forall>item \<in> set (cm_request_heap s). request_item_ok item) \<and>
     (\<forall>item \<in> set (cm_response_heap s). response_item_ok item) \<and>
     (\<forall>k i. jget (cm_responses s) k = Some i \<longrightarrow>
       i < length (cm_response_heap s) \<and> rp_corr (cm_response_heap s ! i) = k) \<and>
     subs_inv (ia_binding s) \<and> synced s)"

lemma cm_inv_responses_ok: "cm_inv s \<Longrightarrow> responses_ok s"
  by (fastforce simp: cm_inv_def responses_ok_def response_item_ok_def)

lemma bind_keeps_filter:
  "same_binding b b' \<Longrightarrow> get_topic_filter_for b' el = get_topic_filter_for b el"
  by (simp add: same_binding_def get_topic_filter_for_def)

lemma synced_keeps:
  assumes "synced s" "bind_keeps (ia_binding s) (ia_binding s')"
    "cm_requests s' = cm_requests s" "cm_request_heap s' = cm_request_heap s"
    "\<forall>item \<in> set (cm_request_heap s). request_item_ok item" "requests_ok s"
  shows "synced s'"
  unfolding synced_def
proof (intro impI allI)
  fix k i
  assume a: "mb_state (ia_binding s') \<noteq> Unjoined" "jget (cm_requests s') k = Some i"
    "accepted (rq_like (cm_request_heap s' ! i))"
  let ?el = "rq_like (cm_request_heap s ! i)"
  have b: "same_binding (ia_binding s) (ia_binding s')" using assms(2) by (simp add: bind_keeps_def)
  have "cm_request_heap s ! i \<in> set (cm_request_heap s)"
    using a(2) assms(3,6) by (auto simp: requests_ok_def)
  then have "request_type (el_type ?el)"
    using assms(5) by (auto simp: request_item_ok_def request_like_def)
  moreover have "has_subscription (ia_binding s) ?el"
    using assms(1,3,4) a b by (auto simp: synced_def same_binding_def)
  ultimately show "has_subscription (ia_binding s') (rq_like (cm_request_heap s' ! i))"
    using assms(2,4) bind_keeps_filter [OF b] by (simp add: bind_keeps_def has_subscription_def)
qed

lemma cm_inv_frame: "cm_inv s \<Longrightarrow> frame s s' \<Longrightarrow> cm_inv s'"
  using synced_keeps [of s s']
  by (auto simp: cm_inv_def frame_def requests_ok_def bind_keeps_def same_binding_def)

section \<open>Observing requests\<close>

lemma get_topic_filter_filter_inj:
  assumes "has_level t" "get_topic_filter v n t f c = get_topic_filter v n t g c"
  shows "(case f of None \<Rightarrow> [] | Some x \<Rightarrow> x) = (case g of None \<Rightarrow> [] | Some x \<Rightarrow> x)"
  using assms by (auto simp: get_topic_filter_def event_level_def Let_def split: option.splits if_splits)

lemma request_filters_differ:
  assumes "request_item_ok a" "request_item_ok b" "rq_id a \<noteq> rq_id b"
  shows "(el_type (rq_like a), template (get_topic_filter_for x (rq_like a))) \<noteq>
    (el_type (rq_like b), template (get_topic_filter_for x (rq_like b)))"
proof
  assume eq: "(el_type (rq_like a), template (get_topic_filter_for x (rq_like a))) =
    (el_type (rq_like b), template (get_topic_filter_for x (rq_like b)))"
  obtain t f g where ab: "request_type t" "rq_like a = request_like t f" "rq_like b = request_like t g"
    "rq_id a = get_request_id t f" "rq_id b = get_request_id t g" "t = Raw \<longrightarrow> f \<noteq> None \<and> g \<noteq> None"
    using assms(1,2) eq by (auto simp: request_item_ok_def request_like_def)
  have "(case f of None \<Rightarrow> [] | Some x \<Rightarrow> x) = (case g of None \<Rightarrow> [] | Some x \<Rightarrow> x)"
  proof (cases "t = Raw")
    case True
    then show ?thesis using ab eq by (auto simp: get_topic_filter_for_def request_like_def)
  next
    case False
    then have "has_level t" "t \<noteq> IoValue" using ab(1) by (auto simp: request_type_def)
    then show ?thesis
      using False ab(2,3) eq
      by (intro get_topic_filter_filter_inj) (auto simp: get_topic_filter_for_def request_like_def)
  qed
  then show False using ab(4,5) assms(3) by (simp add: get_request_id_inj)
qed

lemma cm_inv_set_request:
  assumes "cm_inv s" "rq_id item = rq_id (cm_request_heap s ! i)"
    "rq_like item = rq_like (cm_request_heap s ! i)"
  shows "cm_inv (set_request_item i item s)"
proof (cases "i < length (cm_request_heap s)")
  case True
  then have old: "request_item_ok (cm_request_heap s ! i)"
    using assms(1) by (simp add: cm_inv_def)
  have nth: "rq_id ((cm_request_heap s)[i := item] ! j) = rq_id (cm_request_heap s ! j)"
    "rq_like ((cm_request_heap s)[i := item] ! j) = rq_like (cm_request_heap s ! j)" for j
    using assms(2,3) True by (cases "i = j"; simp)+
  have "request_item_ok item" using old assms(2,3) by (simp add: request_item_ok_def)
  then have "\<forall>x \<in> set ((cm_request_heap s)[i := item]). request_item_ok x"
    using assms(1) set_update_subset_insert [of "cm_request_heap s" i item]
    by (auto simp: cm_inv_def)
  then show ?thesis
    using assms(1) nth
    by (simp add: cm_inv_def set_request_item_def requests_ok_def synced_def)
next
  case False
  then have "set_request_item i item s = s" by (simp add: set_request_item_def list_update_beyond)
  then show ?thesis using assms(1) by simp
qed

lemma cm_inv_subscribe_request: "cm_inv s \<Longrightarrow> cm_inv (subscribe_request i obs s)"
  by (simp add: subscribe_request_def Let_def cm_inv_set_request)

lemma cm_inv_observe_request:
  assumes "cm_inv s" "request_type t" "t = Raw \<longrightarrow> f \<noteq> None"
  shows "cm_inv (snd (observe_request t f s))"
proof (cases "jget (cm_requests s) (get_request_id t f)")
  case (Some i)
  then show ?thesis using assms(1) by (simp add: observe_request_def)
next
  case None
  define el where "el = request_like t f"
  define item where "item = \<lparr>rq_id = get_request_id t f, rq_like = el, rq_subscribers = [], rq_cleanup = True\<rparr>"
  define s' where "s' = snd (observe_request t f s)"
  have s': "s' = on_binding (subscribe el)
      (s\<lparr>cm_request_heap := cm_request_heap s @ [item],
         cm_requests := jset (get_request_id t f) (length (cm_request_heap s)) (cm_requests s)\<rparr>)"
    using None by (simp add: s'_def observe_request_def Let_def el_def item_def)
  have "subscribable el" using assms(2) by (auto simp: el_def request_like_def subscribable_def request_type_def)
  then have k: "bind_keeps (ia_binding s) (subscribe el (ia_binding s))" by (rule bind_keeps_subscribe)
  then have sb: "same_binding (ia_binding s) (subscribe el (ia_binding s))" by (simp add: bind_keeps_def)
  have item: "request_item_ok item" using assms(2,3) by (auto simp: request_item_ok_def item_def el_def)
  have new: "has_subscription (subscribe el (ia_binding s)) el"
    if "accepted el" "mb_state (ia_binding s) \<noteq> Unjoined"
  proof -
    have "el_type el \<noteq> IoValue" using assms(2) by (auto simp: el_def request_like_def)
    then have "subscribe el (ia_binding s) = add_subscription_item el (ia_binding s)"
      using that by (auto simp: subscribe_def on_subscribe_def accepted_def)
    moreover have "get_topic_filter_for (add_subscription_item el (ia_binding s)) el =
        get_topic_filter_for (ia_binding s) el"
      by (simp add: get_topic_filter_for_def)
    ultimately show ?thesis by (simp add: has_subscription_def has_item_put)
  qed
  have bound: "j < length (cm_request_heap s) \<and> rq_id (cm_request_heap s ! j) = k"
    "request_item_ok (cm_request_heap s ! j)" if "jget (cm_requests s) k = Some j" for j k
    using assms(1) that by (auto simp: cm_inv_def requests_ok_def)
  have old: "has_subscription (subscribe el (ia_binding s)) (rq_like (cm_request_heap s ! j))"
    if "jget (cm_requests s) kk = Some j" "accepted (rq_like (cm_request_heap s ! j))"
      "mb_state (ia_binding s) \<noteq> Unjoined" for kk j
  proof -
    have "has_subscription (ia_binding s) (rq_like (cm_request_heap s ! j))"
      using assms(1) that by (auto simp: cm_inv_def synced_def)
    moreover have "request_type (el_type (rq_like (cm_request_heap s ! j)))"
      using bound(2) [OF that(1)] by (auto simp: request_item_ok_def request_like_def)
    ultimately show ?thesis
      using k bind_keeps_filter [OF sb] by (simp add: bind_keeps_def has_subscription_def)
  qed
  have "synced s'"
    using new old bound sb
    by (auto simp: synced_def s' nth_append item_def same_binding_def)
  moreover have "requests_ok s'"
    using bound by (auto simp: s' requests_ok_def nth_append item_def less_Suc_eq)
  moreover have "subs_inv (ia_binding s')"
    using assms(1) sb by (simp add: s' cm_inv_def same_binding_def)
  ultimately have "cm_inv s'"
    using assms(1) item by (auto simp: cm_inv_def s')
  then show ?thesis by (simp add: s'_def)
qed

lemma cm_inv_unsubscribe_request:
  assumes inv: "cm_inv s" and i: "i < length (cm_request_heap s)"
  shows "cm_inv (unsubscribe_request i obs s)"
proof -
  let ?item = "cm_request_heap s ! i"
  let ?rest = "splice_out obs (rq_subscribers ?item)"
  define s1 where "s1 = set_request_item i (?item\<lparr>rq_subscribers := [], rq_cleanup := False\<rparr>) s"
  have s1: "cm_inv s1" using inv by (simp add: s1_def cm_inv_set_request)
  have same: "rq_like (cm_request_heap s1 ! j) = rq_like (cm_request_heap s ! j)"
    "rq_id (cm_request_heap s1 ! j) = rq_id (cm_request_heap s ! j)" "cm_requests s1 = cm_requests s"
    "ia_binding s1 = ia_binding s" for j
    using i by (cases "i = j"; simp add: s1_def set_request_item_def)+
  define s2 where "s2 = on_binding (unsubscribe (rq_like ?item))
      (s1\<lparr>cm_requests := jdel (rq_id ?item) (cm_requests s1)\<rparr>)"
  have ok: "request_item_ok ?item" using inv i by (auto simp: cm_inv_def)
  have sb: "same_binding (ia_binding s) (unsubscribe (rq_like ?item) (ia_binding s))"
    by (rule same_binding_unsubscribe)
  have keep: "has_subscription (unsubscribe (rq_like ?item) (ia_binding s)) (rq_like (cm_request_heap s ! j))"
    if "jget (cm_requests s) k = Some j" "k \<noteq> rq_id ?item" "accepted (rq_like (cm_request_heap s ! j))"
      "mb_state (ia_binding s) \<noteq> Unjoined" for j k
  proof -
    have h: "has_subscription (ia_binding s) (rq_like (cm_request_heap s ! j))"
      using inv that by (auto simp: cm_inv_def synced_def)
    have "rq_id (cm_request_heap s ! j) = k" "request_item_ok (cm_request_heap s ! j)"
      using inv that(1) by (auto simp: cm_inv_def requests_ok_def)
    then have "(el_type (rq_like (cm_request_heap s ! j)),
          template (get_topic_filter_for (ia_binding s) (rq_like (cm_request_heap s ! j)))) \<noteq>
        (el_type (rq_like ?item), template (get_topic_filter_for (ia_binding s) (rq_like ?item)))"
      using that(2) ok by (intro request_filters_differ) auto
    then show ?thesis
      using has_item_unsubscribe [OF h [unfolded has_subscription_def]] bind_keeps_filter [OF sb]
      by (simp add: has_subscription_def)
  qed
  have "cm_inv s2"
    using s1 keep same sb
    by (auto simp: cm_inv_def s2_def requests_ok_def synced_def same_binding_def)
  then show ?thesis
    using inv s1 unfolding unsubscribe_request_def Let_def s2_def s1_def
    by (simp add: cm_inv_set_request)
qed

section \<open>Publishing and responses\<close>

lemma cm_inv_set_response:
  assumes "cm_inv s" "i < length (cm_response_heap s)" "response_item_ok item"
    "rp_corr item = rp_corr (cm_response_heap s ! i)"
  shows "cm_inv (set_response_item i item s)"
proof -
  have nth: "rp_corr ((cm_response_heap s)[i := item] ! j) = rp_corr (cm_response_heap s ! j)" for j
    using assms(2,4) by (cases "i = j"; simp)
  have "\<forall>x \<in> set ((cm_response_heap s)[i := item]). response_item_ok x"
    using assms(1,3) set_update_subset_insert [of "cm_response_heap s" i item]
    by (auto simp: cm_inv_def)
  then show ?thesis
    using assms(1) nth by (simp add: cm_inv_def set_response_item_def requests_ok_def synced_def)
qed

lemma cm_inv_binding:
  assumes "cm_inv s" "bind_keeps (ia_binding s) (f (ia_binding s))"
  shows "cm_inv (on_binding f s)"
  using assms(2) by (intro cm_inv_frame [OF assms(1)]) (simp add: frame_def)

lemma cm_inv_observe_response:
  assumes "cm_inv s" "response_event_type request = Some t"
  shows "cm_inv (snd (observe_response request t f c s))"
proof -
  have t: "is_response_type t"
    using assms(2) by (cases request) (auto simp: is_response_type_def)
  then have "has_level t" by (auto simp: is_response_type_def has_level_def)
  define el where "el = \<lparr>el_type = t, el_filter = None, el_source = None, el_corr = Some c,
    el_data = NoData, el_raw = False, el_external = False, el_retain = False\<rparr>"
  define item where "item = \<lparr>rp_request = request, rp_corr = c, rp_filter = f, rp_like = el,
    rp_subscribers = [], rp_cleanup = True, rp_finished = False\<rparr>"
  define s1 where "s1 = s\<lparr>cm_response_heap := cm_response_heap s @ [item],
    cm_responses := jset c (length (cm_response_heap s)) (cm_responses s)\<rparr>"
  have "response_item_ok item" using assms(2) t by (simp add: response_item_ok_def item_def el_def)
  moreover have bound: "i < length (cm_response_heap s)" "rp_corr (cm_response_heap s ! i) = k"
    if "jget (cm_responses s) k = Some i" for k i
    using assms(1) that by (auto simp: cm_inv_def)
  moreover have "i < length (cm_response_heap s1) \<and> rp_corr (cm_response_heap s1 ! i) = k"
    if "jget (cm_responses s1) k = Some i" for k i
    using that bound [of k i] by (auto simp: s1_def item_def nth_append split: if_splits)
  ultimately have "cm_inv s1"
    using assms(1) by (simp add: cm_inv_def s1_def requests_ok_def synced_def)
  moreover have "subscribable el" using \<open>has_level t\<close> by (simp add: subscribable_def el_def)
  ultimately have "cm_inv (on_binding (subscribe el) s1)"
    by (intro cm_inv_binding bind_keeps_subscribe)
  then show ?thesis by (simp add: observe_response_def Let_def el_def item_def s1_def)
qed

lemma cm_inv_publish_event:
  assumes "cm_inv s"
  shows "cm_inv (snd (publish_event uuid event f c s))"
proof -
  have p: "cm_inv (publish_like event f c s)" for c
    using cm_inv_frame [OF assms frame_publish_like] .
  have u: "cm_inv (s\<lparr>cm_uuids := n\<rparr>)" for n using cm_inv_frame [OF assms frame_update(6)] .
  show ?thesis
  proof (cases "c \<noteq> None \<and> c \<noteq> Some []")
    case True
    then show ?thesis using p by (simp add: publish_event_def)
  next
    case False
    show ?thesis
    proof (cases "response_event_type event")
      case None
      then show ?thesis using False p [of None] by (auto simp: publish_event_def)
    next
      case (Some t)
      have "cm_inv (snd (observe_response event t f (uuid (cm_uuids s)) (s\<lparr>cm_uuids := Suc (cm_uuids s)\<rparr>)))"
        using cm_inv_observe_response [OF u Some] .
      then show ?thesis
        using Some False by (auto simp: publish_event_def split: prod.splits)
    qed
  qed
qed

lemma cm_inv_subscribe_response:
  assumes "cm_inv s" "i < length (cm_response_heap s)"
    "subscribe_response i (App n AnyEvent) s = Inr s'"
  shows "cm_inv s'"
proof -
  let ?item = "cm_response_heap s ! i"
  let ?s = "set_response_item i (?item\<lparr>rp_subscribers := rp_subscribers ?item @ [App n AnyEvent]\<rparr>) s"
  have "response_item_ok ?item" using assms(1,2) by (auto simp: cm_inv_def)
  then have s: "cm_inv ?s"
    using assms(1,2) by (intro cm_inv_set_response) (auto simp: response_item_ok_def)
  show ?thesis
    using assms(3) s cm_inv_frame [OF s frame_publish_like]
    by (auto simp: subscribe_response_def Let_def split: if_splits)
qed

lemma cm_inv_unsubscribe_response:
  assumes inv: "cm_inv s" and i: "i < length (cm_response_heap s)"
  shows "cm_inv (unsubscribe_response i obs s)"
proof -
  let ?item = "cm_response_heap s ! i"
  let ?rest = "splice_out obs (rp_subscribers ?item)"
  have ok: "response_item_ok ?item" using inv i by (auto simp: cm_inv_def)
  moreover have "set ?rest \<subseteq> set (rp_subscribers ?item)"
    by (simp add: splice_out_def set_remove1_subset)
  ultimately have r: "response_item_ok (?item\<lparr>rp_subscribers := ?rest\<rparr>)"
    by (auto simp: response_item_ok_def)
  define s1 where "s1 = set_response_item i
    (?item\<lparr>rp_subscribers := [], rp_cleanup := False, rp_finished := True\<rparr>) s"
  have s1: "cm_inv s1"
    using inv i ok unfolding s1_def by (intro cm_inv_set_response) (auto simp: response_item_ok_def)
  then have s2: "cm_inv (s1\<lparr>cm_responses := jdel k (cm_responses s1)\<rparr>)" for k
    by (auto simp: cm_inv_def requests_ok_def synced_def split: if_splits)
  have "cm_inv (on_binding (unsubscribe (rp_like ?item)) (s1\<lparr>cm_responses := jdel k (cm_responses s1)\<rparr>))" for k
    using s2 ok by (intro cm_inv_binding bind_keeps_unsubscribe) (auto simp: response_item_ok_def)
  then show ?thesis
    using inv i r s1 cm_inv_set_response [OF inv i r]
    unfolding unsubscribe_response_def Let_def s1_def by simp
qed

lemma cm_inv_respond: "cm_inv s \<Longrightarrow> respond uuid request c response s = Inr s' \<Longrightarrow> cm_inv s'"
  using cm_inv_publish_event [of s uuid response None c] by (auto simp: respond_def rbind_Inr_conv)

section \<open>Dispatching\<close>

lemma request_heap_length [simp]:
  "cm_request_heap (snd (publish_event uuid e f c s)) = cm_request_heap s"
  "length (cm_request_heap (unsubscribe_request i obs s)) = length (cm_request_heap s)"
  "cm_request_heap (publish_like e f c s) = cm_request_heap s"
  by (auto simp: publish_event_def observe_response_def publish_like_def Let_def
      unsubscribe_request_def set_request_item_def split: option.splits)

lemma resolve_objects_inv:
  assumes "cm_inv s"
  shows "cm_inv (snd (resolve_objects uuid event c objs s)) \<and>
    length (cm_request_heap (snd (resolve_objects uuid event c objs s))) = length (cm_request_heap s)"
  using assms
proof (induction objs arbitrary: s)
  case (Cons obj objs)
  show ?case
  proof (cases "resolve_object uuid event c obj s")
    case (Inr s')
    then obtain r where r: "respond uuid event c (ResolveEv r) s = Inr s'"
      by (auto simp: resolve_object_def rbind_Inr_conv)
    then have "cm_inv s'" using cm_inv_respond Cons.prems by blast
    moreover have "cm_request_heap s' = cm_request_heap s"
      using r by (auto simp: respond_def rbind_Inr_conv)
    ultimately show ?thesis using Cons.IH [of s'] Inr by simp
  qed (use Cons.prems in simp)
qed simp

lemma observer_next_inv:
  assumes "cm_inv s"
  shows "cm_inv (snd (observer_next cv uuid event c obs s)) \<and>
    length (cm_request_heap (snd (observer_next cv uuid event c obs s))) = length (cm_request_heap s)"
proof (cases obs)
  case (App n test)
  then show ?thesis
    using cm_inv_frame [OF assms frame_update(5)]
    by (auto simp: observer_next_def assms split: sum.splits)
next
  case HandleAssociate
  have "cm_request_heap (handle_associate d s) = cm_request_heap s" for d
    using frame_handle_associate [of s d] by (simp add: frame_def)
  then show ?thesis
    using HandleAssociate assms cm_inv_frame [OF assms frame_handle_associate]
    by (simp add: observer_next_def split: com_event.splits)
qed (simp_all add: observer_next_def assms resolve_objects_inv [OF assms] del: resolve_objects.simps
    split: com_event.splits)

lemma cm_inv_dispatch_next_request:
  assumes "cm_inv s" "i < length (cm_request_heap s)"
  shows "cm_inv (dispatch_next_request cv uuid event c i s)"
proof -
  let ?f = "\<lambda>obs s'. (let (stays, s'') = observer_next cv uuid event c obs s' in
      if stays then s'' else unsubscribe_request i obs s'')"
  have "cm_inv (fold ?f observers s) \<and> i < length (cm_request_heap (fold ?f observers s))" for observers
    using assms
  proof (induction observers arbitrary: s)
    case (Cons obs observers)
    have "cm_inv (?f obs s) \<and> i < length (cm_request_heap (?f obs s))"
      using observer_next_inv [OF Cons.prems(1), of cv uuid event c obs] Cons.prems(2)
        cm_inv_unsubscribe_request
      by (auto simp: Let_def split: prod.splits)
    then show ?case using Cons.IH [of "?f obs s"] by simp
  qed simp
  then show ?thesis by (simp add: dispatch_next_request_def)
qed

lemma cm_inv_dispatch_event:
  assumes "cm_inv s"
  shows "cm_inv (dispatch_event cv uuid el s)"
proof -
  have "cm_inv (dispatch_request cv uuid el s)"
  proof -
    have "i < length (cm_request_heap s)" if "jget (cm_requests s) k = Some i" for k i
      using assms that by (auto simp: cm_inv_def requests_ok_def)
    then show ?thesis
      using assms cm_inv_dispatch_next_request [OF assms]
      by (simp add: dispatch_request_def split: option.splits sum.splits)
  qed
  moreover have "cm_inv (dispatch_response cv uuid el s)"
  proof (cases "pending_request s el")
    case None
    then show ?thesis using assms by (simp add: dispatch_response_def pending_request_def)
  next
    case (Some i)
    have "\<forall>obs \<in> set (rp_subscribers (cm_response_heap s ! i)). \<exists>n. obs = App n AnyEvent"
      using cm_inv_responses_ok [OF assms] Some
      by (auto simp: responses_ok_def pending_request_def split: option.splits)
    then have "\<forall>obs \<in> set (rev (rp_subscribers (cm_response_heap s ! i))). plain_observer cv event obs"
      for event
      by (auto simp: plain_observer_def event_passes_def)
    then have "\<exists>ds. dispatch_next_response cv uuid event i s = out ds s" for event
      unfolding dispatch_next_response_def using fold_plain by blast
    then have "cm_inv (dispatch_next_response cv uuid event i s)" for event
      using cm_inv_frame [OF assms frame_update(5)] by metis
    then show ?thesis
      using assms Some
      by (simp add: dispatch_response_def pending_request_def Let_def split: sum.splits)
  qed
  ultimately show ?thesis
    using cm_inv_frame [OF assms frame_io_value] by (simp add: dispatch_event_def)
qed

section \<open>What dispatching a request gives to applications\<close>

text \<open>What the observers of events are given, among all that applications are given.\<close>

definition event_outputs :: "delivery list \<Rightarrow> delivery list" where
  "event_outputs ds = filter (\<lambda>d. case d of NextEvent n event c \<Rightarrow> True | ErrorEvent n \<Rightarrow> True
    | CompleteEvent n \<Rightarrow> True | _ \<Rightarrow> False) ds"

definition outcome :: "conv \<Rightarrow> com_event \<Rightarrow> string option \<Rightarrow> observer \<Rightarrow> delivery list" where
  "outcome cv event c obs =
    (case obs of
       App n test \<Rightarrow>
         (case event_passes cv test event of
            Inl e \<Rightarrow> [ErrorEvent n]
          | Inr passes \<Rightarrow> if passes then [NextEvent n event c] else [])
     | _ \<Rightarrow> [])"

definition test_throws :: "conv \<Rightarrow> com_event \<Rightarrow> observer \<Rightarrow> bool" where
  "test_throws cv event obs =
    (case obs of App n test \<Rightarrow> \<not> is_ok (event_passes cv test event) | _ \<Rightarrow> False)"

lemma event_outputs_simps [simp]:
  "event_outputs [] = []" "event_outputs (ds @ es) = event_outputs ds @ event_outputs es"
  "event_outputs [IoStateNext p v r] = []"
  "event_outputs [NextEvent n event c] = [NextEvent n event c]"
  "event_outputs (outcome cv event c obs) = outcome cv event c obs"
  by (auto simp: event_outputs_def outcome_def split: observer.splits sum.splits)

definition same_outputs :: "comm_manager \<Rightarrow> comm_manager \<Rightarrow> bool" where
  "same_outputs s s' = (event_outputs (ia_out s') = event_outputs (ia_out s))"

lemma same_outputs_refl [simp]: "same_outputs s s"
  by (simp add: same_outputs_def)

lemma same_outputs_trans [trans]: "same_outputs a b \<Longrightarrow> same_outputs b c \<Longrightarrow> same_outputs a c"
  by (simp add: same_outputs_def)

lemma same_outputs_fold: "(\<And>x t. same_outputs t (f x t)) \<Longrightarrow> same_outputs s (fold f xs s)"
proof (induction xs arbitrary: s)
  case (Cons x xs)
  then show ?case using same_outputs_trans [of s "f x s" "fold f xs (f x s)"] by simp
qed simp

lemma same_outputs_update [simp]:
  "same_outputs s (s\<lparr>ia_actors := x, ia_binding := b\<rparr>)" "same_outputs s (s\<lparr>ia_actors := x\<rparr>)"
  "same_outputs s (s\<lparr>ia_sources := y\<rparr>)" "same_outputs s (s\<lparr>ia_binding := b\<rparr>)"
  "same_outputs s (on_binding h s)" "same_outputs s (io_state_next p v r s)"
  by (simp_all add: same_outputs_def io_state_next_def on_binding_def out_def)

lemma same_outputs_disassociate:
  "same_outputs s (disassociate_io_actor_items src act c n (s :: comm_manager))"
  unfolding disassociate_io_actor_items_def Let_def
  by (rule same_outputs_trans [OF _ same_outputs_fold]) auto

lemma same_outputs_associate:
  "same_outputs s (associate_io_actor_items src actor act route ext (s :: comm_manager))"
  unfolding associate_io_actor_items_def Let_def
  by (rule same_outputs_trans [OF same_outputs_disassociate [of s src act None "Some route"]])
    (auto split: option.splits)

lemma same_outputs_update_sources:
  "same_outputs s (update_io_source_items src act route rate (s :: comm_manager))"
proof -
  have f: "same_outputs s ((fold (\<lambda>a. disassociate_io_actor_items src a r None) as s)\<lparr>ia_sources := m\<rparr>)" for r as m
    by (rule same_outputs_trans [OF same_outputs_fold same_outputs_update(3)])
      (rule same_outputs_disassociate)
  show ?thesis
    using f by (auto simp: update_io_source_items_def Let_def split: option.splits prod.splits)
qed

lemma same_outputs_handle_associate: "same_outputs s (handle_associate d (s :: comm_manager))"
proof -
  have 1: "same_outputs s (if own then update_io_source_items src act r rate s else s)" for own src act r rate
    by (simp add: same_outputs_update_sources)
  have 2: "same_outputs t (case actor of None \<Rightarrow> t | Some a \<Rightarrow> (case r of
      Some route \<Rightarrow> associate_io_actor_items src a act route ext t
    | None \<Rightarrow> disassociate_io_actor_items src act None None t))"
    for t :: comm_manager and actor r src act ext
    by (auto simp: same_outputs_associate same_outputs_disassociate split: option.splits)
  have 3: "same_outputs t (if own then (case jget (ia_sources t) src of
      None \<Rightarrow> io_state_next src False JUndef t
    | Some (route, actorIds, rate) \<Rightarrow> io_state_next src True rate t) else t)"
    for t :: comm_manager and own src
    by (auto split: option.splits)
  have 4: "same_outputs t (case actor of None \<Rightarrow> t | Some a \<Rightarrow> io_state_next act b JUndef t)"
    for t :: comm_manager and actor :: "jsv option" and act b
    by (auto split: option.splits)
  show ?thesis
    unfolding handle_associate_def Let_def
    by (split if_split, intro conjI impI same_outputs_refl)
      (rule same_outputs_trans [OF same_outputs_trans [OF same_outputs_trans [OF 1 2] 3] 4])
qed

text \<open>A response is published: the observed requests and what applications are given stay.\<close>

lemma respond_keeps:
  assumes "respond uuid request c (ResolveEv r) s = Inr s'"
  shows "cm_requests s' = cm_requests s" "cm_request_heap s' = cm_request_heap s" "ia_out s' = ia_out s"
proof -
  have "s' = snd (publish_event uuid (ResolveEv r) None c s)"
    using assms by (auto simp: respond_def rbind_Inr_conv)
  then have "\<exists>k. s' = publish_like (ResolveEv r) None k s"
    by (auto simp: publish_event_def)
  then show "cm_requests s' = cm_requests s" "cm_request_heap s' = cm_request_heap s" "ia_out s' = ia_out s"
    by (auto simp: publish_like_def)
qed

lemma resolve_objects_keeps:
  "cm_requests (snd (resolve_objects uuid event c objs s)) = cm_requests s \<and>
   cm_request_heap (snd (resolve_objects uuid event c objs s)) = cm_request_heap s \<and>
   ia_out (snd (resolve_objects uuid event c objs s)) = ia_out s"
proof (induction objs arbitrary: s)
  case (Cons obj objs)
  show ?case
  proof (cases "resolve_object uuid event c obj s")
    case (Inr s')
    then obtain r where r: "respond uuid event c (ResolveEv r) s = Inr s'"
      by (auto simp: resolve_object_def rbind_Inr_conv)
    show ?thesis using Cons.IH [of s'] respond_keeps [OF r] Inr by simp
  qed simp
qed simp

lemma observer_next_keeps:
  assumes "observer_next cv uuid event c obs s = (stays, s')"
  shows "cm_requests s' = cm_requests s" "cm_request_heap s' = cm_request_heap s"
    "event_outputs (ia_out s') = event_outputs (ia_out s) @ outcome cv event c obs"
    "test_throws cv event obs \<Longrightarrow> \<not> stays"
proof -
  have a: "cm_requests (handle_associate d s) = cm_requests s \<and>
      cm_request_heap (handle_associate d s) = cm_request_heap s \<and>
      event_outputs (ia_out (handle_associate d s)) = event_outputs (ia_out s)" for d
    using frame_handle_associate [of s d] same_outputs_handle_associate [of s d]
    by (simp add: frame_def same_outputs_def)
  have r: "cm_requests s' = cm_requests s \<and> cm_request_heap s' = cm_request_heap s \<and> ia_out s' = ia_out s"
    if "resolve_objects uuid event c objs s = (stays, s')" for objs
    using resolve_objects_keeps [of uuid event c objs s] that by simp
  have "cm_requests s' = cm_requests s \<and> cm_request_heap s' = cm_request_heap s \<and>
      event_outputs (ia_out s') = event_outputs (ia_out s) @ outcome cv event c obs \<and>
      (test_throws cv event obs \<longrightarrow> \<not> stays)"
  proof (cases obs)
    case (App n test)
    then show ?thesis using assms
      by (cases "event_passes cv test event")
        (auto simp: observer_next_def outcome_def test_throws_def event_outputs_def is_ok_conv
          split: if_splits)
  next
    case HandleAssociate
    then show ?thesis using assms a
      by (cases event) (auto simp: observer_next_def outcome_def test_throws_def)
  next
    case ResolveIoNodes
    then show ?thesis using assms r
      by (cases event) (auto simp: observer_next_def outcome_def test_throws_def split: if_splits)
  next
    case ResolveIdentity
    then show ?thesis using assms r
      by (cases event)
        (auto simp: observer_next_def outcome_def test_throws_def simp del: resolve_objects.simps split: if_splits)
  qed
  then show "cm_requests s' = cm_requests s" "cm_request_heap s' = cm_request_heap s"
    "event_outputs (ia_out s') = event_outputs (ia_out s) @ outcome cv event c obs"
    "test_throws cv event obs \<Longrightarrow> \<not> stays" by blast+
qed

lemma count_list_remove1_le: "count_list (remove1 x xs) y = count_list xs y - (if x = y then 1 else 0)"
  by (induction xs) (auto simp: count_list_0_iff)

lemma unsubscribe_request_item:
  assumes "i < length (cm_request_heap s)"
  shows "length (cm_request_heap (unsubscribe_request i obs s)) = length (cm_request_heap s)"
    "rq_subscribers (cm_request_heap (unsubscribe_request i obs s) ! i) =
      remove1 obs (rq_subscribers (cm_request_heap s ! i))"
    "jget (cm_requests (unsubscribe_request i obs s)) k \<in> {None, jget (cm_requests s) k}"
  using assms by (auto simp: unsubscribe_request_def set_request_item_def splice_out_def Let_def)

lemma dispatch_fold_keeps:
  fixes cv uuid event c i
  defines "f \<equiv> \<lambda>obs s'. (let (stays, s'') = observer_next cv uuid event c obs s' in
      if stays then s'' else unsubscribe_request i obs s'')"
  assumes "i < length (cm_request_heap s)"
  shows "event_outputs (ia_out (fold f observers s)) =
      event_outputs (ia_out s) @ concat (map (outcome cv event c) observers) \<and>
    jget (cm_requests (fold f observers s)) k \<in> {None, jget (cm_requests s) k} \<and>
    (test_throws cv event obs \<longrightarrow>
      count_list (rq_subscribers (cm_request_heap (fold f observers s) ! i)) obs =
      count_list (rq_subscribers (cm_request_heap s ! i)) obs - count_list observers obs)"
  using assms(2)
proof (induction observers arbitrary: s)
  case (Cons x observers)
  obtain stays s1 where n: "observer_next cv uuid event c x s = (stays, s1)" by fastforce
  note keeps = observer_next_keeps [OF n]
  have i: "i < length (cm_request_heap s1)" using Cons.prems keeps(2) by simp
  have fx: "f x s = (if stays then s1 else unsubscribe_request i x s1)" by (simp add: f_def n)
  have one: "event_outputs (ia_out (f x s)) = event_outputs (ia_out s) @ outcome cv event c x"
    "jget (cm_requests (f x s)) k \<in> {None, jget (cm_requests s) k}"
    "i < length (cm_request_heap (f x s))"
    using keeps(1,3) i unsubscribe_request_item [OF i] unsubscribe_request_keeps(1)
    by (auto simp: fx)
  have two: "count_list (rq_subscribers (cm_request_heap (f x s) ! i)) obs =
      count_list (rq_subscribers (cm_request_heap s ! i)) obs - (if x = obs then 1 else 0)"
    if "test_throws cv event obs"
  proof (cases stays)
    case True
    then have "x \<noteq> obs" using keeps(4) that by blast
    then show ?thesis using True keeps(2) by (simp add: fx)
  next
    case False
    then show ?thesis using keeps(2) unsubscribe_request_item(2) [OF i, of x]
      by (simp add: fx count_list_remove1_le)
  qed
  show ?case using Cons.IH [OF one(3)] one two by auto
qed simp

lemma dispatch_request_outputs:
  assumes "create_event_instance el = Inr event" "el_type el \<noteq> Raw" "requests_ok s"
  shows "event_outputs (ia_out (dispatch_request cv uuid el s)) = event_outputs (ia_out s) @
      concat (map (outcome cv event (el_corr el)) (rev (observers_of s (el_type el) (el_filter el))))"
    "test_throws cv event obs \<Longrightarrow>
      obs \<notin> set (observers_of (dispatch_request cv uuid el s) (el_type el) (el_filter el))"
proof -
  let ?k = "get_request_id (el_type el) (el_filter el)"
  have "event_outputs (ia_out (dispatch_request cv uuid el s)) = event_outputs (ia_out s) @
      concat (map (outcome cv event (el_corr el)) (rev (observers_of s (el_type el) (el_filter el)))) \<and>
    (test_throws cv event obs \<longrightarrow>
      obs \<notin> set (observers_of (dispatch_request cv uuid el s) (el_type el) (el_filter el)))"
  proof (cases "jget (cm_requests s) ?k")
    case None
    then show ?thesis using assms(1,2) by (simp add: dispatch_request_def observers_of_def)
  next
    case (Some i)
    have i: "i < length (cm_request_heap s)" using assms(3) Some by (auto simp: requests_ok_def)
    have d: "dispatch_request cv uuid el s = dispatch_next_request cv uuid event (el_corr el) i s"
      using assms(1,2) Some by (simp add: dispatch_request_def)
    note f = dispatch_fold_keeps [OF i, of cv uuid event "el_corr el"
        "rev (rq_subscribers (cm_request_heap s ! i))" ?k obs]
    show ?thesis
      using f Some unfolding d dispatch_next_request_def observers_of_def
      by (auto simp: count_list_rev count_list_0_iff split: option.splits)
  qed
  then show "event_outputs (ia_out (dispatch_request cv uuid el s)) = event_outputs (ia_out s) @
      concat (map (outcome cv event (el_corr el)) (rev (observers_of s (el_type el) (el_filter el))))"
    "test_throws cv event obs \<Longrightarrow>
      obs \<notin> set (observers_of (dispatch_request cv uuid el s) (el_type el) (el_filter el))" by blast+
qed

section \<open>Joining and unjoining\<close>

lemma cm_inv_init_options:
  assumes "cm_inv s" "cm_requests s = []"
  shows "cm_inv (init_options uuid options s)" "cm_inv ((init_options uuid options s)\<lparr>cm_unjoined := bs\<rparr>)"
  using assms subs_inv_new
  by (simp_all add: init_options_def Let_def cm_inv_def requests_ok_def synced_def)

lemma cm_inv_new: "cm_inv (new_comm_manager uuid config)"
  unfolding new_comm_manager_def
  by (rule cm_inv_init_options(1))
    (simp_all add: cm_inv_def requests_ok_def synced_def subs_inv_new)

lemma observe_request_heap:
  "cm_inv s \<Longrightarrow> fst (observe_request t f s) < length (cm_request_heap (snd (observe_request t f s)))"
  by (auto simp: observe_request_def Let_def cm_inv_def requests_ok_def split: option.splits)

lemma subscribe_observed:
  assumes "cm_inv s" "request_type t" "t = Raw \<longrightarrow> f \<noteq> None"
  shows "cm_inv (case observe_request t f s of (i, s') \<Rightarrow> subscribe_request i obs s')"
  using cm_inv_observe_request [OF assms] cm_inv_subscribe_request
  by (cases "observe_request t f s") auto

lemma request_type_simps [simp]:
  "request_type Associate" "request_type Discover" "request_type Advertise" "request_type Update"
  "request_type Call" "request_type Channel" "request_type Query" "request_type Deadvertise"
  "request_type Raw"
  by (simp_all add: request_type_def has_level_def is_response_type_def)

lemma cm_inv_observe_own:
  "cm_inv s \<Longrightarrow> cm_inv (observe_associate s)" "cm_inv s \<Longrightarrow> cm_inv (observe_discover_io_nodes s)"
  "cm_inv s \<Longrightarrow> cm_inv (observe_discover_identity s)"
proof -
  assume s: "cm_inv s"
  have "cm_inv (fold (\<lambda>node s'. (let (i, s'') = observe_request Associate (Some (in_name node)) s'
      in subscribe_request i HandleAssociate s'')) nodes s)" for nodes
    using s
  proof (induction nodes arbitrary: s)
    case (Cons node nodes)
    then show ?case
      using subscribe_observed [OF Cons.prems, of Associate "Some (in_name node)" HandleAssociate]
      by (simp add: Let_def)
  qed simp
  then show "cm_inv (observe_associate s)" by (simp add: observe_associate_def)
  show "cm_inv (observe_discover_io_nodes s)" "cm_inv (observe_discover_identity s)"
    using s subscribe_observed [OF s, of Discover None]
    by (simp_all add: observe_discover_io_nodes_def observe_discover_identity_def Let_def)
qed

lemma cm_inv_operating_state: "cm_inv s \<Longrightarrow> cm_inv (update_operating_state b s)"
  using cm_inv_frame [OF cm_inv_frame [OF _ frame_update(7)] frame_update(5)]
  by (simp add: update_operating_state_def)

lemma cm_inv_join_binding:
  assumes inv: "cm_inv s" and "join_binding s = Inr s'" and init: "mb_state (ia_binding s) \<noteq> Unjoined"
  shows "cm_inv s'"
proof -
  have issued: "mb_issued (join opts b) = mb_issued b" "mb_namespace (join opts b) = mb_namespace b"
    "mb_cross (join opts b) = mb_cross b" for opts b
    by (simp_all add: join_def on_join_def Let_def)
  have hs: "has_subscription (join opts b) el = has_subscription b el" for opts b el
    by (simp add: has_subscription_def get_topic_filter_for_def issued)
  have "cm_inv (on_binding (join opts) s)" for opts
    using inv init subs_inv_join [of "ia_binding s" opts]
    by (simp add: cm_inv_def requests_ok_def synced_def hs)
  then have "cm_inv (observe_discover_identity (observe_discover_io_nodes (observe_associate
      (on_binding (join opts) s))))" for opts
    using cm_inv_observe_own by blast
  then have "cm_inv (update_operating_state True (observe_discover_identity (observe_discover_io_nodes
      (observe_associate (on_binding (join opts) s)))))" for opts
    by (rule cm_inv_operating_state)
  then show ?thesis using assms(2) by (auto simp: join_binding_def rbind_Inr_conv Let_def)
qed

lemma cm_inv_complete_request: "cm_inv s \<Longrightarrow> i < length (cm_request_heap s) \<Longrightarrow>
    cm_inv (complete_request i s) \<and> length (cm_request_heap (complete_request i s)) = length (cm_request_heap s)"
proof -
  let ?f = "\<lambda>obs s'. unsubscribe_request i obs
        (case obs of App n test \<Rightarrow> out [CompleteEvent n] s' | _ \<Rightarrow> s')"
  assume "cm_inv s" "i < length (cm_request_heap s)"
  then have "cm_inv (fold ?f observers s) \<and>
      length (cm_request_heap (fold ?f observers s)) = length (cm_request_heap s)" for observers
  proof (induction observers arbitrary: s)
    case (Cons obs observers)
    have "cm_inv (?f obs s)"
      using Cons.prems cm_inv_frame [OF Cons.prems(1) frame_update(5)]
      by (cases obs) (auto intro!: cm_inv_unsubscribe_request)
    moreover have "length (cm_request_heap (?f obs s)) = length (cm_request_heap s)"
      by (cases obs) simp_all
    ultimately show ?case using Cons.IH [of "?f obs s"] Cons.prems by simp
  qed simp
  then show ?thesis by (simp add: complete_request_def)
qed

lemma response_heap_length [simp]:
  "length (cm_response_heap (unsubscribe_response i obs s)) = length (cm_response_heap s)"
  by (simp add: unsubscribe_response_def set_response_item_def Let_def)

lemma cm_inv_complete_response: "cm_inv s \<Longrightarrow> i < length (cm_response_heap s) \<Longrightarrow>
    cm_inv (complete_response i s) \<and>
    length (cm_response_heap (complete_response i s)) = length (cm_response_heap s)"
proof -
  let ?f = "\<lambda>obs s'. unsubscribe_response i obs
        (case obs of App n test \<Rightarrow> out [CompleteEvent n] s' | _ \<Rightarrow> s')"
  assume "cm_inv s" "i < length (cm_response_heap s)"
  then have "cm_inv (fold ?f observers s) \<and>
      length (cm_response_heap (fold ?f observers s)) = length (cm_response_heap s)" for observers
  proof (induction observers arbitrary: s)
    case (Cons obs observers)
    have "cm_inv (?f obs s)"
      using Cons.prems cm_inv_frame [OF Cons.prems(1) frame_update(5)]
      by (cases obs) (auto intro!: cm_inv_unsubscribe_response)
    moreover have "length (cm_response_heap (?f obs s)) = length (cm_response_heap s)"
      by (cases obs) simp_all
    ultimately show ?case using Cons.IH [of "?f obs s"] Cons.prems by simp
  qed simp
  then show ?thesis by (simp add: complete_response_def)
qed

lemma cm_inv_complete_requests:
  "cm_inv s \<Longrightarrow> \<forall>i \<in> set is. i < length (cm_request_heap s) \<Longrightarrow> cm_inv (fold complete_request is s)"
proof (induction "is" arbitrary: s)
  case (Cons i "is")
  then show ?case using cm_inv_complete_request [of s i] by simp
qed simp

lemma cm_inv_complete_responses:
  "cm_inv s \<Longrightarrow> \<forall>i \<in> set is. i < length (cm_response_heap s) \<Longrightarrow> cm_inv (fold complete_response is s)"
proof (induction "is" arbitrary: s)
  case (Cons i "is")
  then show ?case using cm_inv_complete_response [of s i] by simp
qed simp

lemma jvals_get:
  assumes "jwf m" "v \<in> set (jvals m)"
  shows "\<exists>k. jget m k = Some v"
proof -
  obtain k where "(k, v) \<in> set m" using assms(2) by auto
  then show ?thesis using jwf_in_set_iff [OF assms(1)] by blast
qed

lemma cm_inv_unobserve: "cm_inv s \<Longrightarrow> cm_inv (unobserve_observed_items s)"
proof -
  assume "cm_inv s"
  then have 1: "cm_inv (unobserve_io_state_and_value s)" using frame_unobserve_io by (rule cm_inv_frame)
  let ?s1 = "unobserve_io_state_and_value s"
  have "\<forall>i \<in> set (jvals (cm_requests ?s1)). i < length (cm_request_heap ?s1)"
    using 1 jvals_get unfolding cm_inv_def requests_ok_def by metis
  then have 2: "cm_inv (fold complete_request (jvals (cm_requests ?s1)) ?s1)"
    by (rule cm_inv_complete_requests [OF 1])
  let ?s2 = "fold complete_request (jvals (cm_requests ?s1)) ?s1"
  have "\<forall>i \<in> set (jvals (cm_responses ?s2)). i < length (cm_response_heap ?s2)"
    using 2 jvals_get unfolding cm_inv_def by metis
  then have "cm_inv (fold complete_response (jvals (cm_responses ?s2)) ?s2)"
    by (rule cm_inv_complete_responses [OF 2])
  then have "cm_inv (init_observed_items (fold complete_response (jvals (cm_responses ?s2)) ?s2))"
    by (simp add: cm_inv_def init_observed_items_def requests_ok_def synced_def)
  then show ?thesis by (simp add: unobserve_observed_items_def Let_def)
qed

lemma cm_inv_unjoin_binding: "cm_inv s \<Longrightarrow> cm_inv (unjoin_binding uuid options s)"
proof -
  assume s: "cm_inv s"
  have "cm_inv (update_operating_state False s)"
    using s by (rule cm_inv_operating_state)
  then have 1: "cm_inv (unobserve_observed_items (update_operating_state False s))"
    by (rule cm_inv_unobserve)
  have none: "cm_requests (unobserve_observed_items t) = []" for t
    by (simp add: unobserve_observed_items_def init_observed_items_def Let_def)
  have "cm_inv (on_binding unjoin t)" if "cm_inv t" "cm_requests t = []" for t
    using that subs_inv_unjoin [of "ia_binding t"]
    by (simp add: cm_inv_def requests_ok_def synced_def)
  then show ?thesis
    using 1 cm_inv_init_options(2) [OF 1 none] none
    by (simp add: unjoin_binding_def Let_def)
qed

section \<open>Steps\<close>

text \<open>What may happen to a manager: an application observes, subscribes, unsubscribes, publishes or
  answers, the manager is started, restarted, stopped or disposed, the binding hands over an
  inbound event, and the MQTT client reports an event to the binding.\<close>

definition is_client_event :: "bind_in \<Rightarrow> bool" where
  "is_client_event l =
    (case l of EConnect \<Rightarrow> True | EClose \<Rightarrow> True | EOffline \<Rightarrow> True | EError \<Rightarrow> True
     | EMessage t p \<Rightarrow> True | EPublished i e \<Rightarrow> True | _ \<Rightarrow> False)"

inductive cm_step ::
  "conv \<Rightarrow> (nat \<Rightarrow> string) \<Rightarrow> (string \<Rightarrow> js_error + jsv) \<Rightarrow> comm_manager \<Rightarrow> comm_manager \<Rightarrow> bool"
  for cv uuid json_parse where
  cm_observe: "request_type t \<Longrightarrow> t = Raw \<longrightarrow> f \<noteq> None \<Longrightarrow>
    cm_step cv uuid json_parse s (snd (observe_request t f s))"
| cm_subscribe: "i < length (cm_request_heap s) \<Longrightarrow>
    cm_step cv uuid json_parse s (subscribe_request i (App n test) s)"
| cm_unsubscribe: "i < length (cm_request_heap s) \<Longrightarrow>
    App n test \<in> set (rq_subscribers (cm_request_heap s ! i)) \<Longrightarrow>
    cm_step cv uuid json_parse s (unsubscribe_request i (App n test) s)"
| cm_publish: "cm_step cv uuid json_parse s (snd (publish_event uuid event f None s))"
| cm_publish_raw: "cm_step cv uuid json_parse s (publish_raw topic value retain s)"
| cm_publish_io: "publish_io_value ioSource value retain s = Inr s' \<Longrightarrow> cm_step cv uuid json_parse s s'"
| cm_subscribe_response: "i < length (cm_response_heap s) \<Longrightarrow>
    subscribe_response i (App n AnyEvent) s = Inr s' \<Longrightarrow> cm_step cv uuid json_parse s s'"
| cm_unsubscribe_response: "i < length (cm_response_heap s) \<Longrightarrow>
    App n AnyEvent \<in> set (rp_subscribers (cm_response_heap s ! i)) \<Longrightarrow>
    cm_step cv uuid json_parse s (unsubscribe_response i (App n AnyEvent) s)"
| cm_respond: "respond uuid request c response s = Inr s' \<Longrightarrow> cm_step cv uuid json_parse s s'"
| cm_observe_io_state: "cm_step cv uuid json_parse s (snd (observe_io_state p s))"
| cm_observe_io_value: "cm_step cv uuid json_parse s (observe_io_value p s)"
| cm_inbound: "cm_step cv uuid json_parse s (dispatch_event cv uuid el s)"
| cm_start: "start_manager s = Inr s' \<Longrightarrow> cm_step cv uuid json_parse s s'"
| cm_rejoin: "mb_state (ia_binding s) \<noteq> Unjoined \<Longrightarrow> join_binding s = Inr s' \<Longrightarrow>
    cm_step cv uuid json_parse s s'"
| cm_stop: "cm_step cv uuid json_parse s (unjoin_binding uuid options s)"
| cm_dispose: "cm_step cv uuid json_parse s (on_dispose uuid s)"
| cm_client: "is_client_event l \<Longrightarrow> bind_step json_parse (ia_binding s) l b \<Longrightarrow>
    cm_step cv uuid json_parse s (s\<lparr>ia_binding := b\<rparr>)"

inductive cm_reach ::
  "conv \<Rightarrow> (nat \<Rightarrow> string) \<Rightarrow> (string \<Rightarrow> js_error + jsv) \<Rightarrow> comm_manager \<Rightarrow> bool"
  for cv uuid json_parse where
  cm_new: "cm_reach cv uuid json_parse (new_comm_manager uuid config)"
| cm_next: "cm_reach cv uuid json_parse s \<Longrightarrow> cm_step cv uuid json_parse s s' \<Longrightarrow>
    cm_reach cv uuid json_parse s'"

lemma ev_connect_same:
  "same_subs (subscribe_items (map si_filter (mb_issued b)) (emit [OConnack, OState Online] (b\<lparr>mb_client := Some True\<rparr>)))
    (ev_connect b)"
proof -
  let ?b1 = "subscribe_items (map si_filter (mb_issued b)) (emit [OConnack, OState Online] (b\<lparr>mb_client := Some True\<rparr>))"
  let ?es = "rev (case mb_join ?b1 of None \<Rightarrow> [] | Some jo \<Rightarrow> jo_join_events jo)"
  have "same_subs ?b1 (fold add_join_event ?es ?b1)" by (rule same_subs_add_join_events)
  also have "same_subs \<dots> ((fold add_join_event ?es ?b1)\<lparr>mb_draining := False\<rparr>)" by simp
  also note same_subs_drain(1)
  finally show ?thesis by (simp add: ev_connect_def Let_def)
qed

lemma ev_connect_client: "mb_client (ev_connect b) = Some True"
  using ev_connect_same [of b] by (simp add: same_subs_def set_subscribe_items)

lemma client_bind_keeps:
  assumes "bind_step json_parse b l b'" "is_client_event l"
  shows "bind_keeps b b'"
proof -
  have "mb_issued b' = mb_issued b \<and> mb_namespace b' = mb_namespace b \<and> mb_cross b' = mb_cross b \<and>
      mb_state b' = mb_state b"
    using assms
  proof (cases rule: bind_step.cases)
    case step_connect
    note ev_connect_same [of b]
    then show ?thesis using step_connect(2) by (simp add: same_subs_def set_subscribe_items)
  next
    case (step_published item err)
    then show ?thesis using same_subs_publish_callback [of b item err] by (simp add: same_subs_def)
  qed (simp_all add: is_client_event_def ev_close_def ev_offline_def ev_error_def ev_message_def)
  then show ?thesis
    using subs_inv_step [OF assms(1)] by (simp add: bind_keeps_def same_binding_def)
qed

lemma cm_inv_step: "cm_step cv uuid json_parse s s' \<Longrightarrow> cm_inv s \<Longrightarrow> cm_inv s'"
proof (induction rule: cm_step.induct)
  case (cm_publish_raw s topic v retain)
  then show ?case using cm_inv_frame frame_publish_like by (simp add: publish_raw_def)
next
  case (cm_publish_io ioSource v retain s s')
  then show ?case
    using cm_inv_frame [OF _ frame_publish_like]
    by (auto simp: publish_io_value_def rbind_Inr_conv split: option.splits)
next
  case (cm_start s s')
  then show ?case by (auto simp: start_manager_def intro: cm_inv_join_binding split: if_splits)
next
  case (cm_dispose s)
  have "cm_inv (s\<lparr>cm_disposed := True\<rparr>)"
    using cm_dispose by (simp add: cm_inv_def requests_ok_def synced_def)
  then show ?case using cm_dispose cm_inv_unjoin_binding by (simp add: on_dispose_def)
next
  case (cm_client l s b)
  have "frame s (s\<lparr>ia_binding := b\<rparr>)"
    using client_bind_keeps [OF cm_client(2,1)] by (rule frame_binding(2))
  with cm_client(3) show ?case by (rule cm_inv_frame)
next
  case (cm_observe_io_state s p)
  then show ?case using frame_observe_io(1) by (rule cm_inv_frame)
next
  case (cm_observe_io_value s p)
  then show ?case using frame_observe_io(2) by (rule cm_inv_frame)
next
  case (cm_subscribe_response i s n s')
  then show ?case using cm_inv_subscribe_response by blast
next
  case (cm_respond request c response s s')
  then show ?case using cm_inv_respond by blast
next
  case (cm_rejoin s s')
  then show ?case using cm_inv_join_binding by blast
qed (simp_all add: cm_inv_observe_request cm_inv_subscribe_request cm_inv_unsubscribe_request
    cm_inv_publish_event cm_inv_unsubscribe_response cm_inv_dispatch_event cm_inv_unjoin_binding)

lemma cm_inv_reach: "cm_reach cv uuid json_parse s \<Longrightarrow> cm_inv s"
  by (induction rule: cm_reach.induct) (auto intro: cm_inv_new cm_inv_step)

text \<open>C5: a one-way event or request that arrives at a reachable manager is delivered, once and
  last subscribed first, to exactly those application observers of its event type and event type
  filter whose own test it passes; an observer whose test throws is given this error instead and is
  no longer subscribed. An event with invalid data reaches nobody and changes nothing. The observers
  of the manager itself, which handle associations and resolve the identity and the IO nodes, run in
  between and give applications no event; where none of them acts and no test throws, nothing else
  of the manager changes. Raw events and IO values are dispatched otherwise, responses as stated for
  two-way events.\<close>

theorem request_delivered:
  assumes "cm_reach cv uuid json_parse s"
    "el_type el \<noteq> Raw" "el_type el \<noteq> IoValue" "\<not> is_response_type (el_type el)"
  shows "let s' = dispatch_event cv uuid el s; observers = observers_of s (el_type el) (el_filter el) in
    (case create_event_instance el of
       Inl e \<Rightarrow> s' = s
     | Inr event \<Rightarrow>
         event_outputs (ia_out s') = event_outputs (ia_out s) @
           concat (map (outcome cv event (el_corr el)) (rev observers)) \<and>
         (\<forall>obs. test_throws cv event obs \<longrightarrow> obs \<notin> set (observers_of s' (el_type el) (el_filter el))) \<and>
         ((\<forall>obs \<in> set observers. plain_observer cv event obs) \<longrightarrow>
           s' = out (concat (map (deliveries cv event (el_corr el)) (rev observers))) s)) \<and>
    (\<forall>t f. observers_of s t f \<noteq> [] \<longrightarrow>
      get_request_id t f = get_request_id (el_type el) (el_filter el) \<longrightarrow>
      t = el_type el \<and> (f = el_filter el \<or> {f, el_filter el} = {None, Some []}))"
proof -
  have "cm_inv s" using assms(1) by (rule cm_inv_reach)
  then have r: "requests_ok s" by (simp add: cm_inv_def)
  have "dispatch_event cv uuid el s = dispatch_request cv uuid el s"
    using assms(3,4) by (simp add: dispatch_event_def is_response_type_def)
  moreover have "dispatch_request cv uuid el s = s" if "create_event_instance el = Inl e" for e
    using that by (simp add: dispatch_request_def split: option.splits)
  moreover note dispatch_request_outputs [where cv = cv and uuid = uuid, OF _ assms(2) r]
    dispatch_request_plain [OF _ assms(2), of _ s cv uuid]
  ultimately show ?thesis
    by (auto simp: Let_def get_request_id_inj split: sum.splits option.splits)
qed

text \<open>C1: whatever applications, peers and the MQTT client do, in any order and across restarts, a
  manager whose client is connected and that is not stopped has at the broker the subscription of
  every event type and filter that has observers in its current table of observed requests: the
  topic filter that matches such events is among the filters the broker holds for the agent. Raw
  topics that the binding rejects are left out, and observers that the table has lost, as stated
  for observables that outlive a restart, do not count.\<close>

theorem observed_events_subscribed:
  assumes "cm_reach cv uuid json_parse s" "mb_client (ia_binding s) = Some True"
    "mb_state (ia_binding s) \<noteq> Unjoined" "request_type t" "t = Raw \<longrightarrow> f \<noteq> None"
    "observers_of s t f \<noteq> []" "accepted (request_like t f)"
  shows "template (get_topic_filter_for (ia_binding s) (request_like t f)) \<in>
    broker_subs (mb_out (ia_binding s))"
proof -
  have inv: "cm_inv s" using assms(1) by (rule cm_inv_reach)
  obtain i where i: "jget (cm_requests s) (get_request_id t f) = Some i"
    using assms(6) by (auto simp: observers_of_def split: option.splits)
  let ?item = "cm_request_heap s ! i"
  have "request_item_ok ?item" "rq_id ?item = get_request_id t f"
    using inv i by (auto simp: cm_inv_def requests_ok_def)
  then obtain g where g: "rq_like ?item = request_like t g" "t = Raw \<longrightarrow> g \<noteq> None"
    "(case f of None \<Rightarrow> [] | Some x \<Rightarrow> x) = (case g of None \<Rightarrow> [] | Some x \<Rightarrow> x)"
    by (auto simp: request_item_ok_def get_request_id_inj)
  have raw: "f = g" if "t = Raw" using that g(2,3) assms(5) by (auto split: option.splits)
  have "has_subscription (ia_binding s) (request_like t g)"
  proof -
    have "accepted (request_like t g)"
      using raw assms(7) by (cases "t = Raw") (auto simp: accepted_def request_like_def)
    then have "accepted (rq_like ?item)" using g(1) by simp
    then have "has_subscription (ia_binding s) (rq_like ?item)"
      using inv i assms(3) unfolding cm_inv_def synced_def by blast
    then show ?thesis using g(1) by simp
  qed
  moreover have "template (get_topic_filter_for (ia_binding s) (request_like t f)) =
      template (get_topic_filter_for (ia_binding s) (request_like t g))"
    using raw g(3) assms(4)
    by (auto simp: get_topic_filter_for_def request_like_def get_topic_filter_def event_level_def
        request_type_def split: option.splits)
  ultimately have "template (get_topic_filter_for (ia_binding s) (request_like t f)) \<in>
      si_filter ` set (mb_issued (ia_binding s))"
    by (force simp: has_subscription_def has_item_iff)
  moreover have "broker_subs (mb_out (ia_binding s)) = si_filter ` set (mb_issued (ia_binding s))"
    using inv assms(2) by (simp add: cm_inv_def subs_inv_def)
  ultimately show ?thesis by simp
qed

lemma subscribe_sel:
  "mb_registered (subscribe e b) = mb_registered b" "mb_state (subscribe e b) = mb_state b"
  by (simp_all add: subscribe_def on_subscribe_def add_subscription_item_def Let_def set_subscribe_items)

lemma sample_identity_ok:
  "advertise_events [sample_identity] = Inr [\<lparr>ad_object = sample_identity, ad_private = JUndef\<rparr>]"
  by (simp add: new_advertise_data_def new_advertise_event_def is_object_None is_assignable.simps
      sample_identity_def is_identity_def is_object_base_def core_type_is_def is_core_type_iff
      core_type_names_def prop_opt_def proto_prop_def object_proto_names_def is_valid_private_data_def
      object_type_filter_ok_def is_valid_event_filter_def illegal_filter_chars_def)

definition sample_observing :: comm_manager where
  "sample_observing = subscribe_request 0 (App 7 AnyEvent)
     (snd (observe_request Advertise (Some ''Task'') sample_manager))"

lemma sample_observing_sel:
  "cm_requests sample_observing = [(''AdvertiseTask'', 0)]"
  "cm_request_heap sample_observing = [\<lparr>rq_id = ''AdvertiseTask'',
     rq_like = request_like Advertise (Some ''Task''), rq_subscribers = [App 7 AnyEvent], rq_cleanup = True\<rparr>]"
  "ia_binding sample_observing = subscribe (request_like Advertise (Some ''Task'')) (new_binding None False)"
  "ia_nodes sample_observing = []" "cm_config sample_observing = cm_config sample_manager"
  "cm_started sample_observing = False"
  by (simp_all add: sample_observing_def subscribe_request_def set_request_item_def Let_def
      observe_request_def get_request_id_def)

lemma sample_start:
  obtains s where "start_manager sample_observing = Inr s" "mb_registered (ia_binding s)"
    "mb_state (ia_binding s) = Joined" "observers_of s Advertise (Some ''Task'') = [App 7 AnyEvent]"
proof -
  have d: "new_deadvertise_data (JArr [JStr ''a1'']) = Inr \<lparr>dd_object_ids = JArr [JStr ''a1'']\<rparr>"
    by (simp add: new_deadvertise_data_def is_string_array_def)
  have i: "get_prop sample_identity ''objectId'' = JStr ''a1''" by (simp add: sample_identity_def)
  obtain opts where j: "join_binding sample_observing = Inr (update_operating_state True
      (observe_discover_identity (observe_discover_io_nodes (observe_associate
        (on_binding (join opts) sample_observing)))))"
    unfolding join_binding_def sample_observing_sel sample_manager_sel list.map sample_identity_ok
      rbind.simps advertise_data.simps i d Let_def by blast
  define s where "s = update_operating_state True
      (observe_discover_identity (observe_discover_io_nodes (observe_associate
        (on_binding (join opts) sample_observing))))"
  have init: "mb_state (subscribe el (new_binding None False)) = Initialized" for el
    by (simp add: subscribe_sel new_binding_def)
  have "start_manager sample_observing = Inr s"
    using j init by (simp add: start_manager_def sample_observing_sel s_def)
  moreover have "ia_binding s = subscribe (request_like Discover None)
      (join opts (subscribe (request_like Advertise (Some ''Task'')) (new_binding None False)))"
    "observers_of s Advertise (Some ''Task'') = [App 7 AnyEvent]"
    by (simp_all add: s_def update_operating_state_def observe_discover_identity_def
        observe_discover_io_nodes_def observe_associate_def sample_observing_sel observe_request_def
        get_request_id_def Let_def subscribe_request_def set_request_item_def out_def observers_of_def)
  ultimately show ?thesis
    using that init by (simp add: subscribe_sel join_def on_join_def Let_def)
qed

lemma sample_observing_reach: "cm_reach cv show_nat json_parse sample_observing"
proof -
  let ?reach = "cm_reach cv show_nat json_parse"
  have "?reach sample_manager" unfolding sample_manager_def by (rule cm_new)
  then have "?reach (snd (observe_request Advertise (Some ''Task'') sample_manager))"
    by (rule cm_next) (rule cm_observe; simp)
  then show ?thesis unfolding sample_observing_def
    by (rule cm_next) (rule cm_subscribe; simp add: observe_request_def Let_def)
qed

theorem observed_events_subscribed_witness:
  "\<exists>s. observers_of s Advertise (Some ''Task'') = [App 7 AnyEvent] \<and>
    template (get_topic_filter_for (ia_binding s) (request_like Advertise (Some ''Task''))) \<in>
      broker_subs (mb_out (ia_binding s))"
proof -
  let ?reach = "cm_reach cv show_nat (\<lambda>_. Inr JUndef)"
  have "?reach sample_observing" by (rule sample_observing_reach)
  moreover obtain s where s: "start_manager sample_observing = Inr s" "mb_registered (ia_binding s)"
    "mb_state (ia_binding s) = Joined" "observers_of s Advertise (Some ''Task'') = [App 7 AnyEvent]"
    by (rule sample_start)
  ultimately have "?reach s" using cm_next cm_start by blast
  define t where "t = s\<lparr>ia_binding := ev_connect (ia_binding s)\<rparr>"
  have step: "bind_step (\<lambda>_. Inr JUndef) (ia_binding s) EConnect (ev_connect (ia_binding s))"
    using s(2) by (rule step_connect)
  have "?reach t"
    unfolding t_def by (rule cm_next [OF \<open>?reach s\<close> cm_client [OF _ step]]) (simp add: is_client_event_def)
  moreover have "mb_state (ia_binding t) = Joined"
    using client_bind_keeps [OF step] s(3)
    by (simp add: t_def is_client_event_def bind_keeps_def same_binding_def)
  moreover have "mb_client (ia_binding t) = Some True"
    by (simp add: t_def ev_connect_client)
  moreover have "observers_of t Advertise (Some ''Task'') = [App 7 AnyEvent]"
    using s(4) by (simp add: t_def observers_of_def cong: option.case_cong)
  ultimately show ?thesis
    using observed_events_subscribed [of cv show_nat "\<lambda>_. Inr JUndef" t Advertise "Some ''Task''"]
    by (auto simp: accepted_def request_like_def)
qed

theorem request_delivered_witness:
  "let el = transported (create_event_like ''a2'' (AdvertiseEv sample_advertise) (Some ''Task'') None)
   in dispatch_event sample_conv0 show_nat el sample_observing =
        out [NextEvent 7 (AdvertiseEv sample_advertise) None] sample_observing \<and>
      event_outputs (ia_out (dispatch_event sample_conv0 show_nat el sample_observing)) =
        [NextEvent 7 (AdvertiseEv sample_advertise) None]"
proof -
  let ?el = "transported (create_event_like ''a2'' (AdvertiseEv sample_advertise) (Some ''Task'') None)"
  have el: "el_type ?el = Advertise" "el_filter ?el = Some ''Task''" "el_corr ?el = None"
    by (simp_all add: transported_def create_event_like_def inbound_def)
  have inst: "create_event_instance ?el = Inr (AdvertiseEv sample_advertise)"
    using create_event_instance_back [of "AdvertiseEv sample_advertise" "Some ''Task''" "Some ''a2''" None]
      sample_advertise_valid
    by (simp add: transported_def create_event_like_def)
  have obs: "observers_of sample_observing Advertise (Some ''Task'') = [App 7 AnyEvent]"
    "ia_out sample_observing = []"
    by (simp_all add: observers_of_def sample_observing_sel get_request_id_def)
      (simp add: sample_observing_def observe_request_def Let_def)
  show ?thesis
    using request_delivered [OF sample_observing_reach, where el = ?el and cv = sample_conv0]
    by (simp add: el inst obs is_response_type_def plain_observer_def event_passes_def deliveries_def
        outcome_def Let_def)
qed

section \<open>Observables that outlive a restart\<close>

lemma observers_of_unsubscribe_last:
  assumes "i < length (cm_request_heap s)" "rq_cleanup (cm_request_heap s ! i)"
    "splice_out obs (rq_subscribers (cm_request_heap s ! i)) = []"
    "rq_id (cm_request_heap s ! i) = get_request_id t f"
  shows "observers_of (unsubscribe_request i obs s) t f = []"
  using assms by (simp add: unsubscribe_request_def Let_def observers_of_def)

text \<open>C39: an observable that an application obtained before the manager was restarted and never
  subscribed to stays dangerous: when it is subscribed to and unsubscribed from after the restart,
  the manager forgets the new observers of the same event type and filter, and from then on no
  inbound event of that kind is delivered to them, although they are still subscribed.\<close>

theorem stale_observable_drops_observers:
  fixes n :: nat
  assumes "cm_reach cv uuid json_parse s" "i < length (cm_request_heap s)"
    "rq_subscribers (cm_request_heap s ! i) = []" "rq_cleanup (cm_request_heap s ! i)"
    "rq_id (cm_request_heap s ! i) = get_request_id t f"
    "jget (cm_requests s) (get_request_id t f) = Some j" "j \<noteq> i"
    "App m test \<in> set (rq_subscribers (cm_request_heap s ! j))"
    "el_type el = t" "el_filter el = f" "t \<noteq> Raw" "request_type t"
  defines "s' \<equiv> unsubscribe_request i (App n AnyEvent) (subscribe_request i (App n AnyEvent) s)"
  shows "App m test \<in> set (rq_subscribers (cm_request_heap s' ! j)) \<and>
    observers_of s' t f = [] \<and> dispatch_event cv uuid el s' = s'"
proof -
  let ?s = "subscribe_request i (App n AnyEvent) s"
  have item: "cm_request_heap ?s ! i = (cm_request_heap s ! i)\<lparr>rq_subscribers := [App n AnyEvent]\<rparr>"
    "cm_request_heap ?s ! j = cm_request_heap s ! j" "i < length (cm_request_heap ?s)"
    using assms(2,3,7) by (simp_all add: subscribe_request_def set_request_item_def Let_def)
  have gone: "observers_of s' t f = []"
    unfolding s'_def using item assms(4,5)
    by (intro observers_of_unsubscribe_last) (simp_all add: splice_out_def)
  have j: "cm_request_heap s' ! j = cm_request_heap s ! j"
    unfolding s'_def using unsubscribe_request_keeps(2) [OF assms(7)] item(2) by simp
  have none: "jget (cm_requests s') (get_request_id t f) = None"
    unfolding s'_def using item assms(4,5) by (simp add: unsubscribe_request_def splice_out_def Let_def)
  have "el_type el \<noteq> IoValue" "\<not> is_response_type (el_type el)"
    using assms(9,12) by (auto simp: request_type_def)
  then have "dispatch_event cv uuid el s' = s'"
    using none assms(9-11) by (simp add: dispatch_event_def dispatch_request_def is_response_type_def)
  then show ?thesis using gone j assms(8) by simp
qed

lemma observe_request_new:
  assumes "jget (cm_requests s) (get_request_id t f) = None"
  shows "cm_request_heap (snd (observe_request t f s)) = cm_request_heap s @
      [\<lparr>rq_id = get_request_id t f, rq_like = request_like t f, rq_subscribers = [], rq_cleanup = True\<rparr>]"
    "cm_requests (snd (observe_request t f s)) =
      jset (get_request_id t f) (length (cm_request_heap s)) (cm_requests s)"
  using assms by (simp_all add: observe_request_def Let_def)

definition sample_stale :: comm_manager where
  "sample_stale = subscribe_request 1 (App 7 AnyEvent) (snd (observe_request Advertise (Some ''Task'')
     (unjoin_binding show_nat no_options (snd (observe_request Advertise (Some ''Task'') sample_manager)))))"

theorem stale_observable_drops_observers_witness:
  "\<exists>s'. App 7 AnyEvent \<in> set (rq_subscribers (cm_request_heap s' ! 1)) \<and>
    observers_of s' Advertise (Some ''Task'') = []"
proof -
  let ?s0 = "snd (observe_request Advertise (Some ''Task'') sample_manager)"
  let ?s1 = "unjoin_binding show_nat no_options ?s0"
  let ?reach = "cm_reach cv show_nat (\<lambda>_. Inr JUndef)"
  have "?reach sample_manager" unfolding sample_manager_def by (rule cm_new)
  then have "?reach ?s0" by (rule cm_next) (rule cm_observe; simp)
  then have "?reach ?s1" by (rule cm_next) (rule cm_stop)
  then have r: "?reach (snd (observe_request Advertise (Some ''Task'') ?s1))"
    by (rule cm_next) (rule cm_observe; simp)
  have s0: "cm_requests ?s0 = [(''AdvertiseTask'', 0)]" "cm_responses ?s0 = []"
    "cm_request_heap ?s0 = [\<lparr>rq_id = ''AdvertiseTask'', rq_like = request_like Advertise (Some ''Task''),
       rq_subscribers = [], rq_cleanup = True\<rparr>]" "ia_actors ?s0 = []" "ia_states ?s0 = []"
    "ia_values ?s0 = []" "cm_disposed ?s0 = False" "cm_started ?s0 = False"
    by (simp_all add: observe_request_def get_request_id_def Let_def)
  have s1: "cm_requests ?s1 = []" "cm_request_heap ?s1 = cm_request_heap ?s0"
    by (simp_all add: unjoin_binding_def update_operating_state_def unobserve_observed_items_def Let_def
        unobserve_io_state_and_value_def s0 complete_request_def init_observed_items_def
        init_options_def out_def)
  have "?reach sample_stale"
    unfolding sample_stale_def
    by (rule cm_next [OF r]) (rule cm_subscribe; simp add: observe_request_new s1 s0)
  moreover have "cm_request_heap sample_stale =
      [\<lparr>rq_id = ''AdvertiseTask'', rq_like = request_like Advertise (Some ''Task''),
         rq_subscribers = [], rq_cleanup = True\<rparr>,
       \<lparr>rq_id = ''AdvertiseTask'', rq_like = request_like Advertise (Some ''Task''),
         rq_subscribers = [App 7 AnyEvent], rq_cleanup = True\<rparr>]"
    "cm_requests sample_stale = [(''AdvertiseTask'', 1)]"
    unfolding sample_stale_def
    by (simp_all add: observe_request_new s1 s0 subscribe_request_def set_request_item_def Let_def)
      (simp_all add: get_request_id_def)
  ultimately show ?thesis
    using stale_observable_drops_observers [of cv show_nat "\<lambda>_. Inr JUndef" sample_stale 0 Advertise
        "Some ''Task''" 1 7 AnyEvent "request_like Advertise (Some ''Task'')" 8]
    by (auto simp: get_request_id_def request_like_def)
qed

end
