(* ===== verification/InMemoryDb.thy ===== *)
theory InMemoryDb
  imports BinSearch CoreTypes FilterSpec
begin

text \<open>
  The in-memory database, \<open>src/src/db/adapter-in-memory/in-memory-adapter.ts\<close>, with the query
  iterator of \<open>src/src/db/db-operations.ts\<close>: collections of cloned objects by object id, insertion,
  update and deletion, queries with a filter, an order, an offset and a limit, joins, and aggregation.

  An operation yields its result or the error its promise is rejected with (or that it throws)
  together with the database, since what was changed before an error stays. Objects are values:
  that \<open>findObjectById\<close> hands out the stored object itself is not visible. \<open>Array.sort\<close> is stable
  insertion, which is what the language prescribes for a consistent comparer. IEEE addition and
  division round: the rounding of an exact result is a parameter.
\<close>

section \<open>State\<close>

type_synonym collection = "(string, jsv) jmap"
type_synonym mem_db = "(string, collection) jmap"

definition not_existing :: js_error where
  "not_existing = Error ''collection not existing''"

definition add_collection :: "string \<Rightarrow> mem_db \<Rightarrow> mem_db" where
  "add_collection name db = (case jget db name of None \<Rightarrow> jset name [] db | Some coll \<Rightarrow> db)"

definition remove_collection :: "string \<Rightarrow> mem_db \<Rightarrow> mem_db" where
  "remove_collection name db = (case jget db name of None \<Rightarrow> db | Some coll \<Rightarrow> jdel name db)"

definition clear_collection :: "string \<Rightarrow> mem_db \<Rightarrow> js_error + mem_db" where
  "clear_collection name db =
    (case jget db name of None \<Rightarrow> Inl not_existing | Some coll \<Rightarrow> Inr (jset name [] db))"

section \<open>Inserting, updating and deleting\<close>

text \<open>\<open>CoreTypes.clone\<close>, which throws for what is no Coaty object.\<close>

definition core_clone :: "jsv \<Rightarrow> bool \<Rightarrow> js_error + jsv" where
  "core_clone obj shouldSkipValidation =
    (if obj = JUndef then Inr JUndef
     else if \<not> shouldSkipValidation \<and> \<not> is_object obj None then Inl (TypeError ''not a valid CoatyObject'')
     else Inr (js_clone obj))"

text \<open>The object id as a key of the map; no key equals an id that is no string.\<close>

definition object_id :: "jsv \<Rightarrow> string option" where
  "object_id obj = (case get_prop obj ''objectId'' of JStr i \<Rightarrow> Some i | _ \<Rightarrow> None)"

definition coll_has :: "collection \<Rightarrow> jsv \<Rightarrow> bool" where
  "coll_has coll obj = (case object_id obj of None \<Rightarrow> False | Some i \<Rightarrow> jhas coll i)"

text \<open>The callback of the visit of the objects to insert or update; reading the id of \<open>undefined\<close>
  or \<open>null\<close> throws. A valid object has a string as its id.\<close>

definition put_object :: "bool \<Rightarrow> jsv \<Rightarrow> collection \<times> string list \<Rightarrow> js_error + (collection \<times> string list)" where
  "put_object wanted obj state =
    (if \<not> wanted then Inr state
     else rbind (core_clone obj False) (\<lambda>c.
       case object_id obj of
         None \<Rightarrow> Inl (TypeError ''not a valid CoatyObject'')
       | Some i \<Rightarrow> Inr (jset i c (fst state), snd state @ [i])))"

fun insert_loop :: "bool \<Rightarrow> jsv list \<Rightarrow> collection \<times> string list \<Rightarrow> (js_error + string list) \<times> collection"
  where
  "insert_loop replace [] state = (Inr (snd state), fst state)"
| "insert_loop replace (obj # objs) state =
    (if obj = JUndef \<or> obj = JNull then (Inl (TypeError ''cannot read property objectId''), fst state)
     else
       (case put_object (\<not> coll_has (fst state) obj \<or> replace) obj state of
          Inl e \<Rightarrow> (Inl e, fst state)
        | Inr state' \<Rightarrow> insert_loop replace objs state'))"

definition insert_objects ::
  "string \<Rightarrow> jsv list \<Rightarrow> bool \<Rightarrow> mem_db \<Rightarrow> (js_error + string list) \<times> mem_db" where
  "insert_objects collectionName objects shouldReplaceExisting db =
    (case jget db collectionName of
       None \<Rightarrow> (Inl not_existing, db)
     | Some coll \<Rightarrow>
         (let (r, coll') = insert_loop shouldReplaceExisting objects (coll, [])
          in (r, jset collectionName coll' db)))"

fun update_loop :: "jsv list \<Rightarrow> collection \<times> string list \<Rightarrow> (js_error + string list) \<times> collection" where
  "update_loop [] state = (Inr (snd state), fst state)"
| "update_loop (obj # objs) state =
    (if obj = JUndef \<or> obj = JNull then (Inl (TypeError ''cannot read property objectId''), fst state)
     else
       (case put_object (coll_has (fst state) obj) obj state of
          Inl e \<Rightarrow> (Inl e, fst state)
        | Inr state' \<Rightarrow> update_loop objs state'))"

definition update_objects :: "string \<Rightarrow> jsv list \<Rightarrow> mem_db \<Rightarrow> (js_error + string list) \<times> mem_db" where
  "update_objects collectionName objects db =
    (case jget db collectionName of
       None \<Rightarrow> (Inl not_existing, db)
     | Some coll \<Rightarrow>
         (let (r, coll') = update_loop objects (coll, []) in (r, jset collectionName coll' db)))"

text \<open>The stored objects are clones of valid objects, so they have \<open>hasOwnProperty\<close> unless a member
  hides it.\<close>

fun property_loop :: "string \<Rightarrow> jsv \<Rightarrow> bool \<Rightarrow> string list \<Rightarrow> collection \<Rightarrow> (js_error + unit) \<times> collection"
  where
  "property_loop property v createMissing [] coll = (Inr (), coll)"
| "property_loop property v createMissing (i # ids) coll =
    (case jget coll i of
       None \<Rightarrow> property_loop property v createMissing ids coll
     | Some obj \<Rightarrow>
         (if v = JUndef then property_loop property v createMissing ids (jset i (del_prop property obj) coll)
          else
            (case has_own obj property of
               Inl e \<Rightarrow> (Inl e, coll)
             | Inr has \<Rightarrow>
                 property_loop property v createMissing ids
                   (if has \<or> createMissing then jset i (set_prop property v obj) coll else coll))))"

definition update_object_property ::
  "string \<Rightarrow> string list \<Rightarrow> string \<Rightarrow> jsv \<Rightarrow> bool \<Rightarrow> mem_db \<Rightarrow> (js_error + unit) \<times> mem_db" where
  "update_object_property collectionName objectIds property v shouldCreateMissing db =
    (case jget db collectionName of
       None \<Rightarrow> (Inl not_existing, db)
     | Some coll \<Rightarrow>
         (let (r, coll') = property_loop property v shouldCreateMissing objectIds coll
          in (r, jset collectionName coll' db)))"

fun delete_loop :: "string list \<Rightarrow> collection \<Rightarrow> string list \<times> collection" where
  "delete_loop [] coll = ([], coll)"
| "delete_loop (i # ids) coll =
    (if jhas coll i then (let (deleted, coll') = delete_loop ids (jdel i coll) in (i # deleted, coll'))
     else delete_loop ids coll)"

definition delete_objects_by_id :: "string \<Rightarrow> string list \<Rightarrow> mem_db \<Rightarrow> (js_error + string list) \<times> mem_db"
  where
  "delete_objects_by_id collectionName objectIds db =
    (case jget db collectionName of
       None \<Rightarrow> (Inl not_existing, db)
     | Some coll \<Rightarrow>
         (let (deleted, coll') = delete_loop objectIds coll
          in (Inr deleted, jset collectionName coll' db)))"

section \<open>Filters\<close>

type_synonym matcher = "jsv \<Rightarrow> js_error + bool"

definition get_filter_matcher :: "conv \<Rightarrow> jsv \<Rightarrow> matcher option" where
  "get_filter_matcher cv flt =
    (if \<not> truthy flt \<or> \<not> truthy (get_prop flt ''conditions'') then None
     else Some (\<lambda>obj. matches_filter cv obj flt))"

definition matches_opt :: "matcher option \<Rightarrow> matcher" where
  "matches_opt matcher obj = (case matcher of None \<Rightarrow> Inr True | Some m \<Rightarrow> m obj)"

fun delete_matching :: "matcher \<Rightarrow> collection \<Rightarrow> (js_error + nat) \<times> collection" where
  "delete_matching m [] = (Inr 0, [])"
| "delete_matching m ((i, obj) # rest) =
    (case m obj of
       Inl e \<Rightarrow> (Inl e, (i, obj) # rest)
     | Inr True \<Rightarrow> (let (r, rest') = delete_matching m rest in (rbind r (\<lambda>n. Inr (Suc n)), rest'))
     | Inr False \<Rightarrow> (let (r, rest') = delete_matching m rest in (r, (i, obj) # rest')))"

definition delete_objects :: "conv \<Rightarrow> string \<Rightarrow> jsv \<Rightarrow> mem_db \<Rightarrow> (js_error + nat) \<times> mem_db" where
  "delete_objects cv collectionName flt db =
    (case jget db collectionName of
       None \<Rightarrow> (Inl not_existing, db)
     | Some coll \<Rightarrow>
         (case get_filter_matcher cv flt of
            None \<Rightarrow> (Inr (length coll), jset collectionName [] db)
          | Some m \<Rightarrow>
              (let (r, coll') = delete_matching m coll in (r, jset collectionName coll' db))))"

definition find_object_by_id :: "string \<Rightarrow> string \<Rightarrow> bool \<Rightarrow> mem_db \<Rightarrow> js_error + jsv" where
  "find_object_by_id collectionName oid isExternalId db =
    (case jget db collectionName of
       None \<Rightarrow> Inl not_existing
     | Some coll \<Rightarrow>
         Inr (if isExternalId then
                (case find (\<lambda>o1. strict_eq (get_prop o1 ''externalId'') (JStr oid)) (jvals coll) of
                   None \<Rightarrow> JUndef | Some o1 \<Rightarrow> o1)
              else (case jget coll oid of None \<Rightarrow> JUndef | Some o1 \<Rightarrow> o1)))"

fun count_matching :: "matcher \<Rightarrow> jsv list \<Rightarrow> js_error + nat" where
  "count_matching m [] = Inr 0"
| "count_matching m (obj # objs) =
    rbind (m obj) (\<lambda>b. rbind (count_matching m objs) (\<lambda>n. Inr (if b then Suc n else n)))"

definition count_objects :: "conv \<Rightarrow> string \<Rightarrow> jsv \<Rightarrow> mem_db \<Rightarrow> js_error + nat" where
  "count_objects cv collectionName flt db =
    (case jget db collectionName of
       None \<Rightarrow> Inl not_existing
     | Some coll \<Rightarrow>
         (case get_filter_matcher cv flt of
            None \<Rightarrow> Inr (length coll)
          | Some m \<Rightarrow> count_matching m (jvals coll)))"

section \<open>Order\<close>

text \<open>Subtraction of numbers; a difference of distinct finite numbers is not zero, and only its sign is
  used.\<close>

fun num_sub :: "jsnum \<Rightarrow> jsnum \<Rightarrow> jsnum" where
  "num_sub (Fin a) (Fin b) = Fin (a - b)"
| "num_sub NaN _ = NaN"
| "num_sub _ NaN = NaN"
| "num_sub PosInf PosInf = NaN"
| "num_sub NegInf NegInf = NaN"
| "num_sub PosInf _ = PosInf"
| "num_sub NegInf _ = NegInf"
| "num_sub _ PosInf = NegInf"
| "num_sub _ NegInf = PosInf"

definition base_comparer :: "conv \<Rightarrow> jsv \<Rightarrow> jsv \<Rightarrow> js_error + jsnum" where
  "base_comparer cv x y =
    (if strict_eq x y then Inr (Fin 0)
     else
       (case (x, y) of
          (JStr a, JStr b) \<Rightarrow> Inr (Fin (of_int (cv_collate cv a b)))
        | (JNum a, JNum b) \<Rightarrow> Inr (num_sub a b)
        | (JBool a, JBool b) \<Rightarrow> Inr (if a = False then Fin (-1) else Fin 1)
        | _ \<Rightarrow>
            (if x = JUndef \<and> y \<noteq> JUndef then Inr (Fin (-1))
             else if x \<noteq> JUndef \<and> y = JUndef then Inr (Fin 1)
             else rbind (js_less cv x y) (\<lambda>less. Inr (if less then Fin (-1) else Fin 1)))))"

text \<open>An entry of \<open>orderByProperties\<close>, and the comparer they give.\<close>

definition order_props :: "jsv \<Rightarrow> jsv" where
  "order_props entry = (case entry of JArr (p # rest) \<Rightarrow> p | _ \<Rightarrow> JUndef)"

definition order_asc :: "jsv \<Rightarrow> bool" where
  "order_asc entry = (case entry of JArr [p, JStr ord] \<Rightarrow> ord = ''Asc'' | _ \<Rightarrow> False)"

fun compare_by :: "conv \<Rightarrow> jsv list \<Rightarrow> jsv \<Rightarrow> jsv \<Rightarrow> js_error + jsnum" where
  "compare_by cv [] a b = Inr (Fin 0)"
| "compare_by cv (entry # entries) a b =
    (let aVal = get_filter_property_value (order_props entry) a;
         bVal = get_filter_property_value (order_props entry) b
     in rbind (if order_asc entry then base_comparer cv aVal bVal else base_comparer cv bVal aVal)
       (\<lambda>result. if \<not> num_eq result (Fin 0) then Inr result else compare_by cv entries a b))"

definition order_entries :: "jsv \<Rightarrow> jsv list" where
  "order_entries flt =
    (if \<not> truthy flt then []
     else (case get_prop flt ''orderByProperties'' of JArr entries \<Rightarrow> entries | _ \<Rightarrow> []))"

text \<open>\<open>Array.sort\<close>: an element goes behind those the comparer does not put behind it.\<close>

fun sort_insert :: "(jsv \<Rightarrow> jsv \<Rightarrow> js_error + jsnum) \<Rightarrow> jsv \<Rightarrow> jsv list \<Rightarrow> js_error + jsv list" where
  "sort_insert cmp x [] = Inr [x]"
| "sort_insert cmp x (y # ys) =
    rbind (cmp x y) (\<lambda>r.
      if num_less r (Fin 0) then Inr (x # y # ys)
      else rbind (sort_insert cmp x ys) (\<lambda>zs. Inr (y # zs)))"

fun js_sort :: "(jsv \<Rightarrow> jsv \<Rightarrow> js_error + jsnum) \<Rightarrow> jsv list \<Rightarrow> jsv list \<Rightarrow> js_error + jsv list" where
  "js_sort cmp ordered [] = Inr ordered"
| "js_sort cmp ordered (x # xs) = rbind (sort_insert cmp x ordered) (\<lambda>s. js_sort cmp s xs)"

fun filter_r :: "matcher \<Rightarrow> jsv list \<Rightarrow> js_error + jsv list" where
  "filter_r m [] = Inr []"
| "filter_r m (x # xs) =
    rbind (m x) (\<lambda>b. rbind (filter_r m xs) (\<lambda>ys. Inr (if b then x # ys else ys)))"

section \<open>Joins\<close>

record join_condition =
  jc_from :: string
  jc_local :: string
  jc_from_prop :: string
  jc_as :: string
  jc_array :: bool
  jc_one :: bool

text \<open>A \<open>for ... of\<close> loop compiled for ECMAScript 5 visits the indices below \<open>length\<close>: those of arrays
  and strings; reading \<open>length\<close> of \<open>undefined\<close> or \<open>null\<close> throws.\<close>

definition loop_values :: "jsv \<Rightarrow> js_error + jsv list" where
  "loop_values v =
    (case v of
       JArr xs \<Rightarrow> Inr xs
     | JStr s \<Rightarrow> Inr (map (\<lambda>c. JStr [c]) s)
     | JUndef \<Rightarrow> Inl (TypeError ''cannot read property length of undefined'')
     | JNull \<Rightarrow> Inl (TypeError ''cannot read property length of null'')
     | _ \<Rightarrow> Inr [])"

definition joined_for :: "join_condition \<Rightarrow> collection \<Rightarrow> jsv \<Rightarrow> jsv list" where
  "joined_for jc fromColl localValue =
    (if localValue = JUndef then []
     else if jc_from_prop jc = ''objectId'' then
       (case localValue of
          JStr i \<Rightarrow> (case jget fromColl i of None \<Rightarrow> [] | Some fo \<Rightarrow> [js_clone fo])
        | _ \<Rightarrow> [])
     else
       (let hits = map js_clone
              (filter (\<lambda>fo. strict_eq (get_prop fo (jc_from_prop jc)) localValue) (jvals fromColl))
        in if jc_one jc then take 1 hits else hits))"

definition join_property :: "mem_db \<Rightarrow> join_condition \<Rightarrow> jsv \<Rightarrow> js_error + jsv" where
  "join_property db jc obj =
    (case jget db (jc_from jc) of
       None \<Rightarrow> Inl (Error ''failed to join from collection: not existing'')
     | Some fromColl \<Rightarrow>
         (let localValues = get_prop obj (jc_local jc) in
          rbind (if jc_array jc then loop_values localValues else Inr [localValues]) (\<lambda>vs.
            (let joinedObjs = concat (map (joined_for jc fromColl) vs) in
             Inr (if jc_one jc \<and> \<not> jc_array jc then
                    (case joinedObjs of [] \<Rightarrow> del_prop (jc_as jc) obj | o1 # os \<Rightarrow> set_prop (jc_as jc) o1 obj)
                  else set_prop (jc_as jc) (JArr joinedObjs) obj)))))"

fun join_object_properties :: "mem_db \<Rightarrow> join_condition list \<Rightarrow> jsv \<Rightarrow> js_error + jsv" where
  "join_object_properties db [] obj = Inr obj"
| "join_object_properties db (jc # jcs) obj = rbind (join_property db jc obj) (join_object_properties db jcs)"

section \<open>Queries\<close>

text \<open>What the application registers with the query iterator: an action on each result with its
  index, or on each batch, which return whether the iteration goes on.\<close>

datatype consumer = ForEach "jsv \<Rightarrow> nat \<Rightarrow> bool" | ForBatch int "jsv list \<Rightarrow> bool"

datatype query_out = EachItem jsv nat | Batch "jsv list"

record query_run =
  qr_match :: nat
  qr_count :: nat
  qr_batch :: "jsv list"
  qr_break :: bool
  qr_out :: "query_out list"

definition new_run :: query_run where
  "new_run = \<lparr>qr_match = 0, qr_count = 0, qr_batch = [], qr_break = False, qr_out = []\<rparr>"

text \<open>A hit within the limit: the new state, with \<open>qr_break\<close> if the action ends the iteration.\<close>

definition yield_item :: "consumer \<Rightarrow> jsv \<Rightarrow> query_run \<Rightarrow> query_run" where
  "yield_item c obj q =
    (case c of
       ForEach act \<Rightarrow>
         q\<lparr>qr_out := qr_out q @ [EachItem obj (qr_count q)], qr_count := Suc (qr_count q),
           qr_break := \<not> act obj (qr_count q)\<rparr>
     | ForBatch batchSize act \<Rightarrow>
         (let batch = qr_batch q @ [obj] in
          if batchSize > 0 \<and> int (length batch) = batchSize then
            q\<lparr>qr_out := qr_out q @ [Batch batch], qr_batch := [], qr_count := Suc (qr_count q),
              qr_break := \<not> act batch\<rparr>
          else q\<lparr>qr_batch := batch, qr_count := Suc (qr_count q)\<rparr>))"

fun query_loop ::
  "mem_db \<Rightarrow> join_condition list \<Rightarrow> matcher option \<Rightarrow> jsnum \<Rightarrow> jsnum \<Rightarrow> consumer \<Rightarrow> jsv list
    \<Rightarrow> query_run \<Rightarrow> js_error option \<times> query_run" where
  "query_loop db jcs m limit offset c [] q = (None, q)"
| "query_loop db jcs m limit offset c (obj # objs) q =
    (case matches_opt m obj of
       Inl e \<Rightarrow> (Some e, q)
     | Inr False \<Rightarrow> query_loop db jcs m limit offset c objs q
     | Inr True \<Rightarrow>
         (let resultIndex = num_sub (Fin (of_nat (qr_match q))) offset in
          if \<not> num_le (Fin 0) resultIndex then
            query_loop db jcs m limit offset c objs (q\<lparr>qr_match := Suc (qr_match q)\<rparr>)
          else if num_less resultIndex limit then
            (case join_object_properties db jcs (js_clone obj) of
               Inl e \<Rightarrow> (Some e, q)
             | Inr result \<Rightarrow>
                 (let q' = yield_item c result q in
                  if qr_break q' then (None, q')
                  else query_loop db jcs m limit offset c objs (q'\<lparr>qr_match := Suc (qr_match q')\<rparr>)))
          else (None, q)))"

definition last_batch :: "consumer \<Rightarrow> query_run \<Rightarrow> query_run" where
  "last_batch c q =
    (case c of
       ForEach act \<Rightarrow> q
     | ForBatch batchSize act \<Rightarrow>
         (if qr_batch q \<noteq> [] \<or> qr_count q = 0 then
            q\<lparr>qr_out := qr_out q @ [Batch (qr_batch q)],
              qr_break := (if \<not> act (qr_batch q) then True else qr_break q)\<rparr>
          else q))"

definition max_safe_integer :: jsnum where
  "max_safe_integer = Fin 9007199254740991"

definition num_or :: "jsv \<Rightarrow> string \<Rightarrow> jsnum \<Rightarrow> jsnum" where
  "num_or flt k dflt =
    (case get_prop flt k of JNum n \<Rightarrow> (if n = NaN \<or> n = Fin 0 then dflt else n) | _ \<Rightarrow> dflt)"

text \<open>The iteration of \<open>findObjects\<close> when it is started: what the done promise yields, and what the
  actions were given.\<close>

definition find_objects ::
  "conv \<Rightarrow> string \<Rightarrow> jsv \<Rightarrow> join_condition list \<Rightarrow> consumer \<Rightarrow> mem_db
    \<Rightarrow> (js_error + nat \<times> bool) \<times> query_out list" where
  "find_objects cv collectionName flt jcs c db =
    (case jget db collectionName of
       None \<Rightarrow> (Inl not_existing, [])
     | Some coll \<Rightarrow>
         (let limit = num_or flt ''take'' max_safe_integer; offset = num_or flt ''skip'' (Fin 0);
              matcher = get_filter_matcher cv flt;
              source = (if order_entries flt = [] then Inr (matcher, jvals coll)
                else rbind (filter_r (matches_opt matcher) (jvals coll)) (\<lambda>objs.
                  rbind (js_sort (compare_by cv (order_entries flt)) [] objs) (\<lambda>ordered. Inr (None, ordered))))
          in (case source of
                Inl e \<Rightarrow> (Inl e, [])
              | Inr (m, objs) \<Rightarrow>
                  (case query_loop db jcs m limit offset c objs new_run of
                     (Some e, q) \<Rightarrow> (Inl e, qr_out q)
                   | (None, q) \<Rightarrow>
                       (let q' = last_batch c q in (Inr (qr_count q', qr_break q'), qr_out q'))))))"

section \<open>Aggregation\<close>

datatype aggregate_op = Max | Min | Sum | Avg | Every | SomeOf

text \<open>Addition with the rounding \<open>fl\<close> of an exact result, and division by a positive count.\<close>

fun num_add :: "(rat \<Rightarrow> jsnum) \<Rightarrow> jsnum \<Rightarrow> jsnum \<Rightarrow> jsnum" where
  "num_add fl (Fin a) (Fin b) = fl (a + b)"
| "num_add fl NaN _ = NaN"
| "num_add fl _ NaN = NaN"
| "num_add fl PosInf NegInf = NaN"
| "num_add fl NegInf PosInf = NaN"
| "num_add fl PosInf _ = PosInf"
| "num_add fl _ PosInf = PosInf"
| "num_add fl NegInf _ = NegInf"
| "num_add fl _ NegInf = NegInf"

fun num_div_count :: "(rat \<Rightarrow> jsnum) \<Rightarrow> jsnum \<Rightarrow> nat \<Rightarrow> jsnum" where
  "num_div_count fl (Fin a) n = fl (a / of_nat n)"
| "num_div_count fl x n = x"

text \<open>The aggregators on the values they document: numbers and booleans. A missing property is
  \<open>undefined\<close>, which the arithmetic turns into NaN. (On strings and objects \<open>+\<close> concatenates their
  renderings, which is not modelled.)\<close>

fun num_of :: "jsv \<Rightarrow> jsnum" where
  "num_of (JNum n) = n"
| "num_of (JBool b) = Fin (if b then 1 else 0)"
| "num_of JNull = Fin 0"
| "num_of _ = NaN"

definition aggregator :: "(rat \<Rightarrow> jsnum) \<Rightarrow> aggregate_op \<Rightarrow> jsv \<Rightarrow> jsv \<Rightarrow> jsv" where
  "aggregator fl op1 av cv =
    (if av = JUndef then cv
     else
       (case op1 of
          Avg \<Rightarrow> JNum (num_add fl (num_of av) (num_of cv))
        | Sum \<Rightarrow> JNum (num_add fl (num_of av) (num_of cv))
        | Max \<Rightarrow> JNum (num_max (num_of av) (num_of cv))
        | Min \<Rightarrow> JNum (num_min (num_of av) (num_of cv))
        | Every \<Rightarrow> (if truthy av then cv else av)
        | SomeOf \<Rightarrow> (if truthy av then av else cv)))"

definition aggregate_objects ::
  "conv \<Rightarrow> (rat \<Rightarrow> jsnum) \<Rightarrow> string \<Rightarrow> jsv \<Rightarrow> aggregate_op \<Rightarrow> jsv \<Rightarrow> mem_db \<Rightarrow> js_error + jsv" where
  "aggregate_objects cv fl collectionName aggregateProps op1 flt db =
    (case jget db collectionName of
       None \<Rightarrow> Inl not_existing
     | Some coll \<Rightarrow>
         rbind (filter_r (matches_opt (get_filter_matcher cv flt)) (jvals coll)) (\<lambda>objs.
           (let v = foldl (aggregator fl op1) JUndef (map (get_filter_property_value aggregateProps) objs);
                n = length objs
            in Inr (if n = 0 then JUndef
                    else if n > 1 \<and> op1 = Avg then JNum (num_div_count fl (num_of v) n)
                    else v))))"

end
