(* ===== verification/InMemoryDbProps.thy ===== *)
theory InMemoryDbProps
  imports InMemoryDb "HOL-Library.Multiset"
begin

text \<open>
  Properties of the in-memory database: the order of query results through the contract of a
  comparer, the query loop against a reference query, batches, and what is found after insertions.
\<close>

section \<open>Composing comparers\<close>

lemma comparator_preimage:
  "comparator D c \<Longrightarrow> comparator (\<lambda>x. D (f x)) (\<lambda>a b. c (f a) (f b))"
  unfolding comparator_def by blast

lemma comparator_converse: "comparator D c \<Longrightarrow> comparator D (\<lambda>a b. c b a)"
  unfolding comparator_def by blast

lemma comparator_lex:
  assumes "comparator D c" "comparator E d"
  shows "comparator (\<lambda>x. D x \<and> E x) (\<lambda>a b. if c a b \<noteq> 0 then c a b else d a b)"
proof
  fix a b x assume a: "D a \<and> E a" and b: "D b \<and> E b"
  have flip: "c a b < 0 \<longleftrightarrow> 0 < c b a" "c b a < 0 \<longleftrightarrow> 0 < c a b" "d a b < 0 \<longleftrightarrow> 0 < d b a"
    using assms a b unfolding comparator_def by blast+
  show "(if c a b \<noteq> 0 then c a b else d a b) < 0 \<longleftrightarrow> 0 < (if c b a \<noteq> 0 then c b a else d b a)"
    using flip by auto
  assume x: "D x \<and> E x"
  have ct: "c a b \<le> 0 \<Longrightarrow> c b x \<le> 0 \<Longrightarrow> c a x \<le> 0" "d a b \<le> 0 \<Longrightarrow> d b x \<le> 0 \<Longrightarrow> d a x \<le> 0"
    using assms a b x unfolding comparator_def by blast+
  have lt: "c a b < 0 \<Longrightarrow> c b x \<le> 0 \<Longrightarrow> c a x < 0" "c a b \<le> 0 \<Longrightarrow> c b x < 0 \<Longrightarrow> c a x < 0"
    using comparator.cmp_less_le [OF assms(1)] comparator.cmp_le_less [OF assms(1)] a b x by blast+
  assume le: "(if c a b \<noteq> 0 then c a b else d a b) \<le> 0" "(if c b x \<noteq> 0 then c b x else d b x) \<le> 0"
  then have c0: "c a b \<le> 0" "c b x \<le> 0" by (auto split: if_splits)
  then show "(if c a x \<noteq> 0 then c a x else d a x) \<le> 0"
    using le ct lt by (cases "c a b = 0"; cases "c b x = 0") (auto split: if_splits)
qed

lemma comparator_constant: "comparator D (\<lambda>a b. 0)"
  by (simp add: comparator_def)

section \<open>The comparer of a query\<close>

text \<open>The sign of what a comparer returns; \<open>Array.sort\<close> takes NaN as zero.\<close>

definition sign_of :: "js_error + jsnum \<Rightarrow> rat" where
  "sign_of r = (case r of Inl e \<Rightarrow> 0
    | Inr n \<Rightarrow> (if num_less n (Fin 0) then -1 else if num_less (Fin 0) n then 1 else 0))"

text \<open>Values that the comparer orders: of one type, numbers other than NaN, or absent.\<close>

fun key_type :: "jsv \<Rightarrow> jstype option" where
  "key_type (JNum n) = (if n = NaN then None else Some TNumber)"
| "key_type (JStr s) = Some TString"
| "key_type (JBool b) = Some TBoolean"
| "key_type _ = None"

definition orderable_value :: "jstype \<Rightarrow> jsv \<Rightarrow> bool" where
  "orderable_value t v = (v = JUndef \<or> key_type v = Some t)"

definition collator_ok :: "conv \<Rightarrow> bool" where
  "collator_ok cv =
    ((\<forall>a b. cv_collate cv a b < 0 \<longleftrightarrow> 0 < cv_collate cv b a) \<and>
     (\<forall>a b c. cv_collate cv a b \<le> 0 \<longrightarrow> cv_collate cv b c \<le> 0 \<longrightarrow> cv_collate cv a c \<le> 0))"

lemma key_type_cases:
  assumes "orderable_value t v"
  obtains "v = JUndef" | n where "v = JNum n" "n \<noteq> NaN" "t = TNumber" | s where "v = JStr s" "t = TString"
    | b where "v = JBool b" "t = TBoolean"
  using assms by (cases v) (auto simp: orderable_value_def split: if_splits)

lemma base_comparer_defined:
  "orderable_value t x \<Longrightarrow> orderable_value t y \<Longrightarrow> \<exists>r. base_comparer cv x y = Inr r"
  by (cases x; cases y) (simp_all add: orderable_value_def base_comparer_def split: if_splits)

lemma sign_num_sub:
  assumes "a \<noteq> NaN" "b \<noteq> NaN" "a \<noteq> b"
  shows "sign_of (Inr (num_sub a b)) = (if num_less a b then -1 else 1)"
  using assms by (cases a; cases b) (auto simp: sign_of_def)

lemma sign_base:
  assumes "orderable_value t x" "orderable_value t y" "collator_ok cv"
  shows "sign_of (base_comparer cv x y) =
    (case (x, y) of
       (JUndef, JUndef) \<Rightarrow> 0 | (JUndef, _) \<Rightarrow> -1 | (_, JUndef) \<Rightarrow> 1
     | (JNum a, JNum b) \<Rightarrow> (if a = b then 0 else if num_less a b then -1 else 1)
     | (JStr a, JStr b) \<Rightarrow> of_int (sgn (cv_collate cv a b))
     | (JBool a, JBool b) \<Rightarrow> (if a = b then 0 else if a then 1 else -1)
     | _ \<Rightarrow> 0)"
proof -
  have self: "cv_collate cv a a = 0" for a
  proof -
    have "cv_collate cv a a < 0 \<longleftrightarrow> 0 < cv_collate cv a a"
      using assms(3) unfolding collator_ok_def by blast
    then show ?thesis by linarith
  qed
  have str: "sign_of (Inr (Fin (of_int i))) = of_int (sgn i)" for i
    by (simp add: sign_of_def sgn_if)
  have const: "sign_of (Inr (Fin 0)) = 0" "sign_of (Inr (Fin 1)) = 1" "sign_of (Inr (Fin (-1))) = -1"
    by (simp_all add: sign_of_def)
  show ?thesis
    using assms(1,2)
    by (cases x; cases y)
      (simp_all add: orderable_value_def base_comparer_def sign_num_sub num_eq_iff str const self
        del: num_sub.simps split: if_splits)
qed

lemma base_comparator:
  "comparator (\<lambda>v. orderable_value t v \<and> collator_ok cv) (\<lambda>x y. sign_of (base_comparer cv x y))"
proof
  fix x y z
  assume coll: "orderable_value t x \<and> collator_ok cv" and y: "orderable_value t y \<and> collator_ok cv"
  note x = coll
  have c: "cv_collate cv a b < 0 \<longleftrightarrow> 0 < cv_collate cv b a"
    "cv_collate cv a b \<le> 0 \<Longrightarrow> cv_collate cv b d \<le> 0 \<Longrightarrow> cv_collate cv a d \<le> 0" for a b d
    using x unfolding collator_ok_def by blast+
  have le: "of_int (sgn i) < (0 :: rat) \<longleftrightarrow> i < 0" "0 < (of_int (sgn i) :: rat) \<longleftrightarrow> 0 < i"
    "of_int (sgn i) \<le> (0 :: rat) \<longleftrightarrow> i \<le> 0" "sgn i \<le> 0 \<longleftrightarrow> i \<le> 0" for i :: int
    by (simp_all add: sgn_if)
  have num: "a \<noteq> NaN \<Longrightarrow> b \<noteq> NaN \<Longrightarrow> a \<noteq> b \<Longrightarrow> num_less a b \<or> num_less b a"
    "\<not> (num_less a b \<and> num_less b a)" for a b
    by (cases a; cases b; auto)+
  have s: "sign_of (base_comparer cv x y) = (case (x, y) of
       (JUndef, JUndef) \<Rightarrow> 0 | (JUndef, _) \<Rightarrow> -1 | (_, JUndef) \<Rightarrow> 1
     | (JNum a, JNum b) \<Rightarrow> (if a = b then 0 else if num_less a b then -1 else 1)
     | (JStr a, JStr b) \<Rightarrow> of_int (sgn (cv_collate cv a b))
     | (JBool a, JBool b) \<Rightarrow> (if a = b then 0 else if a then 1 else -1)
     | _ \<Rightarrow> 0)" if "orderable_value t x" "orderable_value t y" for x y
    using that conjunct2 [OF coll] by (rule sign_base)
  show "sign_of (base_comparer cv x y) < 0 \<longleftrightarrow> 0 < sign_of (base_comparer cv y x)"
    using x y unfolding s [OF conjunct1 [OF x] conjunct1 [OF y]] s [OF conjunct1 [OF y] conjunct1 [OF x]]
    by (cases x; cases y) (simp_all add: orderable_value_def le split: if_splits, (use num c(1) in blast)+)
  assume z: "orderable_value t z \<and> collator_ok cv"
  assume le1: "sign_of (base_comparer cv x y) \<le> 0" and le2: "sign_of (base_comparer cv y z) \<le> 0"
  note sx = s [OF conjunct1 [OF x] conjunct1 [OF y]] s [OF conjunct1 [OF y] conjunct1 [OF z]]
    s [OF conjunct1 [OF x] conjunct1 [OF z]]
  show "sign_of (base_comparer cv x z) \<le> 0"
    using conjunct1 [OF x]
  proof (cases rule: key_type_cases)
    case 1
    then show ?thesis unfolding sx by (simp split: jsv.split)
  next
    case (2 a)
    then obtain b where b: "y = JNum b" "b \<noteq> NaN" using y le1 unfolding sx
      by (cases y) (auto simp: orderable_value_def split: if_splits)
    then obtain d where d: "z = JNum d" "d \<noteq> NaN" using 2 z le2 unfolding sx
      by (cases z) (auto simp: orderable_value_def split: if_splits)
    show ?thesis
      using le1 le2 num_less_trans [of a b d] unfolding sx by (auto simp: 2 b d split: if_splits)
  next
    case (3 a)
    then obtain b where b: "y = JStr b" using y le1 unfolding sx
      by (cases y) (auto simp: orderable_value_def split: if_splits)
    then obtain d where d: "z = JStr d" using 3 z le2 unfolding sx
      by (cases z) (auto simp: orderable_value_def split: if_splits)
    show ?thesis using le1 le2 c(2) [of a b d] unfolding sx by (simp add: 3 b d le)
  next
    case (4 a)
    then obtain b where b: "y = JBool b" using y le1 unfolding sx
      by (cases y) (auto simp: orderable_value_def split: if_splits)
    then obtain d where d: "z = JBool d" using 4 z le2 unfolding sx
      by (cases z) (auto simp: orderable_value_def split: if_splits)
    show ?thesis using le1 le2 unfolding sx by (auto simp: 4 b d split: if_splits)
  qed
qed

definition entry_value :: "jsv \<Rightarrow> jsv \<Rightarrow> jsv" where
  "entry_value entry obj = get_filter_property_value (order_props entry) obj"

text \<open>The objects that an order by properties of the types \<open>ts\<close> can order.\<close>

definition orderable :: "conv \<Rightarrow> (jsv \<times> jstype) list \<Rightarrow> jsv \<Rightarrow> bool" where
  "orderable cv ets obj =
    (collator_ok cv \<and> (\<forall>(entry, t) \<in> set ets. orderable_value t (entry_value entry obj)))"

definition order_sign :: "conv \<Rightarrow> (jsv \<times> jstype) list \<Rightarrow> jsv \<Rightarrow> jsv \<Rightarrow> rat" where
  "order_sign cv ets a b = sign_of (compare_by cv (map fst ets) a b)"

lemma sign_of_zero: "sign_of (Inr r) = 0 \<longleftrightarrow> num_eq r (Fin 0) \<or> r = NaN"
  by (cases r) (auto simp: sign_of_def)

lemma compare_by_Cons:
  assumes "orderable_value t (entry_value entry a)" "orderable_value t (entry_value entry b)"
    "collator_ok cv"
  defines "s \<equiv> (if order_asc entry then base_comparer cv (entry_value entry a) (entry_value entry b)
    else base_comparer cv (entry_value entry b) (entry_value entry a))"
  shows "\<exists>r. compare_by cv (entry # entries) a b = (if sign_of s \<noteq> 0 then Inr r else compare_by cv entries a b) \<and>
    s = Inr r"
proof -
  obtain r where r: "s = Inr r"
    using base_comparer_defined assms(1,2) unfolding s_def by metis
  have "r \<noteq> NaN"
    using r assms(1,2) unfolding s_def
    by (cases "entry_value entry a"; cases "entry_value entry b")
      (auto simp: base_comparer_def orderable_value_def num_eq_iff split: if_splits elim: num_sub.elims)
  then show ?thesis
    using r by (auto simp: s_def entry_value_def Let_def sign_of_zero)
qed

lemma order_sign_Cons:
  assumes "orderable cv ((entry, t) # ets) a" "orderable cv ((entry, t) # ets) b"
  shows "order_sign cv ((entry, t) # ets) a b =
    (let s = sign_of (if order_asc entry then base_comparer cv (entry_value entry a) (entry_value entry b)
       else base_comparer cv (entry_value entry b) (entry_value entry a))
     in if s \<noteq> 0 then s else order_sign cv ets a b)"
  using compare_by_Cons [of t entry a b cv "map fst ets"] assms
  by (auto simp: orderable_def order_sign_def Let_def)

lemma order_comparator: "comparator (orderable cv ets) (order_sign cv ets)"
proof (induction ets)
  case Nil
  then show ?case by (simp add: order_sign_def sign_of_def comparator_constant)
next
  case (Cons et ets)
  obtain entry t where et: "et = (entry, t)" by (cases et)
  let ?D = "\<lambda>obj. orderable_value t (entry_value entry obj) \<and> collator_ok cv"
  let ?c = "\<lambda>a b. sign_of (if order_asc entry then base_comparer cv (entry_value entry a) (entry_value entry b)
     else base_comparer cv (entry_value entry b) (entry_value entry a))"
  have "comparator ?D ?c"
    using comparator_preimage [OF base_comparator [of t cv], of "entry_value entry"]
      comparator_preimage [OF comparator_converse [OF base_comparator [of t cv]], of "entry_value entry"]
    by (cases "order_asc entry") simp_all
  then have lex: "comparator (\<lambda>x. ?D x \<and> orderable cv ets x)
      (\<lambda>a b. if ?c a b \<noteq> 0 then ?c a b else order_sign cv ets a b)"
    using Cons.IH by (rule comparator_lex)
  have dom: "orderable cv (et # ets) x \<longleftrightarrow> ?D x \<and> orderable cv ets x" for x
    by (auto simp: et orderable_def)
  show ?case
  proof
    fix a b c assume ab: "orderable cv (et # ets) a" "orderable cv (et # ets) b"
    note sign = order_sign_Cons [of cv entry t ets, folded et]
    show "order_sign cv (et # ets) a b < 0 \<longleftrightarrow> 0 < order_sign cv (et # ets) b a"
      using comparator.cmp_flip [OF lex, of a b] ab dom unfolding sign [OF ab] sign [OF ab(2,1)] Let_def by blast
    assume c: "orderable cv (et # ets) c"
    assume "order_sign cv (et # ets) a b \<le> 0" "order_sign cv (et # ets) b c \<le> 0"
    then show "order_sign cv (et # ets) a c \<le> 0"
      using comparator.cmp_trans [OF lex, of a b c] ab c dom
      unfolding sign [OF ab] sign [OF ab(2) c] sign [OF ab(1) c] Let_def by blast
  qed
qed

interpretation db_order: comparator "orderable cv ets" "order_sign cv ets" for cv ets
  by (rule order_comparator)

section \<open>Sorting the results of a query\<close>

lemma compare_by_defined:
  assumes "orderable cv ets a" "orderable cv ets b"
  shows "\<exists>r. compare_by cv (map fst ets) a b = Inr r"
  using assms
proof (induction ets)
  case (Cons et ets)
  obtain entry t where et: "et = (entry, t)" by (cases et)
  have "orderable_value t (entry_value entry a)" "orderable_value t (entry_value entry b)" "collator_ok cv"
    "orderable cv ets a" "orderable cv ets b"
    using Cons.prems by (auto simp: orderable_def et)
  then show ?case
    using compare_by_Cons [of t entry a b cv "map fst ets"] Cons.IH by (auto simp: et)
qed simp

lemma sort_insert_step:
  assumes "orderable cv ets x" "orderable cv ets y"
  shows "sort_insert (compare_by cv (map fst ets)) x (y # ys) =
    (if order_sign cv ets x y < 0 then Inr (x # y # ys)
     else rbind (sort_insert (compare_by cv (map fst ets)) x ys) (\<lambda>zs. Inr (y # zs)))"
  using compare_by_defined [OF assms] by (auto simp: order_sign_def sign_of_def split: if_splits)

abbreviation in_order :: "conv \<Rightarrow> (jsv \<times> jstype) list \<Rightarrow> jsv list \<Rightarrow> bool" where
  "in_order cv ets \<equiv> sorted_wrt (\<lambda>a b. order_sign cv ets a b \<le> 0)"

definition tie :: "conv \<Rightarrow> (jsv \<times> jstype) list \<Rightarrow> jsv \<Rightarrow> jsv \<Rightarrow> bool" where
  "tie cv ets v x = (order_sign cv ets v x = 0)"

lemma tie_less:
  assumes "orderable cv ets v" "orderable cv ets x" "orderable cv ets y" "tie cv ets v x"
    "order_sign cv ets x y < 0"
  shows "\<not> tie cv ets v y"
proof -
  have "order_sign cv ets v x \<le> 0" using assms(4) by (simp add: tie_def)
  then have "order_sign cv ets v y < 0"
    using db_order.cmp_le_less [OF assms(1-3)] assms(5) by blast
  then show ?thesis by (simp add: tie_def)
qed

lemma sort_insert_spec:
  assumes "orderable cv ets x" "\<forall>y \<in> set ys. orderable cv ets y" "in_order cv ets ys"
  shows "\<exists>zs. sort_insert (compare_by cv (map fst ets)) x ys = Inr zs \<and> mset zs = add_mset x (mset ys) \<and>
    in_order cv ets zs \<and> (\<forall>v. orderable cv ets v \<longrightarrow>
      filter (tie cv ets v) zs = filter (tie cv ets v) ys @ (if tie cv ets v x then [x] else []))"
  using assms(2,3)
proof (induction ys)
  case (Cons y ys)
  have y: "orderable cv ets y" using Cons.prems by simp
  note step = sort_insert_step [OF assms(1) y, of ys]
  show ?case
  proof (cases "order_sign cv ets x y < 0")
    case True
    have less: "order_sign cv ets x z < 0" if "z \<in> set (y # ys)" for z
      using that Cons.prems True db_order.cmp_less_le [OF assms(1) y] by auto
    then have "in_order cv ets (x # y # ys)" using Cons.prems by (auto simp: less_imp_le)
    moreover have "filter (tie cv ets v) (x # y # ys) =
        filter (tie cv ets v) (y # ys) @ (if tie cv ets v x then [x] else [])"
      if v: "orderable cv ets v" for v
    proof (cases "tie cv ets v x")
      case True
      then have "filter (tie cv ets v) (y # ys) = []"
        using tie_less [OF v assms(1)] less Cons.prems by (auto simp: filter_empty_conv simp del: filter.simps)
      then show ?thesis using True by (simp del: filter.simps add: filter.simps(2) [of _ x])
    qed simp
    ultimately show ?thesis using True step by auto
  next
    case False
    obtain zs where zs: "sort_insert (compare_by cv (map fst ets)) x ys = Inr zs"
      "mset zs = add_mset x (mset ys)" "in_order cv ets zs"
      "\<forall>v. orderable cv ets v \<longrightarrow>
        filter (tie cv ets v) zs = filter (tie cv ets v) ys @ (if tie cv ets v x then [x] else [])"
      using Cons.IH Cons.prems by auto
    have "set zs = insert x (set ys)" using arg_cong [OF zs(2), of set_mset] by simp
    moreover have "order_sign cv ets y x \<le> 0"
      using False db_order.cmp_le_flip [OF y assms(1)] by linarith
    ultimately have "in_order cv ets (y # zs)" using zs(3) Cons.prems(2) by auto
    then show ?thesis using False step zs by auto
  qed
qed simp

lemma js_sort_spec:
  assumes "\<forall>x \<in> set xs. orderable cv ets x" "\<forall>y \<in> set ys. orderable cv ets y" "in_order cv ets ys"
  shows "\<exists>zs. js_sort (compare_by cv (map fst ets)) ys xs = Inr zs \<and> mset zs = mset ys + mset xs \<and>
    in_order cv ets zs \<and> (\<forall>v. orderable cv ets v \<longrightarrow>
      filter (tie cv ets v) zs = filter (tie cv ets v) ys @ filter (tie cv ets v) xs)"
  using assms
proof (induction xs arbitrary: ys)
  case (Cons x xs)
  obtain zs where zs: "sort_insert (compare_by cv (map fst ets)) x ys = Inr zs"
    "mset zs = add_mset x (mset ys)" "in_order cv ets zs"
    "\<forall>v. orderable cv ets v \<longrightarrow>
      filter (tie cv ets v) zs = filter (tie cv ets v) ys @ (if tie cv ets v x then [x] else [])"
    using sort_insert_spec [of cv ets x ys] Cons.prems by auto
  have "set zs = insert x (set ys)" using arg_cong [OF zs(2), of set_mset] by simp
  then obtain ws where "js_sort (compare_by cv (map fst ets)) zs xs = Inr ws"
    "mset ws = mset zs + mset xs" "in_order cv ets ws"
    "\<forall>v. orderable cv ets v \<longrightarrow> filter (tie cv ets v) ws = filter (tie cv ets v) zs @ filter (tie cv ets v) xs"
    using Cons.IH [of zs] Cons.prems zs(3) by auto
  then show ?case using zs by auto
qed simp

text \<open>C18: the order of a query: for objects whose values of each order-by property are of one type or
  absent, and a collator that is a total preorder, sorting by the query's comparer never throws and
  yields the same objects, ascending in the properties in turn (descending where the filter says
  so), absent values first, and objects that compare equal in their order of insertion. And
  \<open>binaryInsert\<close> with the comparer inserts an object into such a result so that it stays in order.\<close>

theorem query_order:
  assumes "\<forall>x \<in> set objs. orderable cv ets x" "orderable cv ets new_object" "int (length objs) < 2 ^ 31"
  shows "\<exists>s. js_sort (compare_by cv (map fst ets)) [] objs = Inr s \<and> mset s = mset objs \<and>
    in_order cv ets s \<and>
    (\<forall>v \<in> set objs. filter (tie cv ets v) s = filter (tie cv ets v) objs) \<and>
    (\<exists>ys zs. s = ys @ zs \<and> binary_insert s new_object (order_sign cv ets) = Inr (ys @ new_object # zs) \<and>
      in_order cv ets (ys @ new_object # zs))"
proof -
  obtain s where s: "js_sort (compare_by cv (map fst ets)) [] objs = Inr s" "mset s = mset objs"
    "in_order cv ets s" "\<forall>v. orderable cv ets v \<longrightarrow> filter (tie cv ets v) s = filter (tie cv ets v) objs"
    using js_sort_spec [OF assms(1), of "[]"] by auto
  have "set s = set objs" "length s = length objs"
    using s(2) mset_eq_setD mset_eq_length by blast+
  then have "\<exists>ys zs. s = ys @ zs \<and> binary_insert s new_object (order_sign cv ets) = Inr (ys @ new_object # zs) \<and>
      in_order cv ets (ys @ new_object # zs)"
    using db_order.binary_insert_sorted [OF s(3) _ assms(2)] assms(1,3) by metis
  then show ?thesis using s assms(1) by blast
qed

section \<open>The query loop against a reference query\<close>

fun each :: "(jsv \<Rightarrow> nat \<Rightarrow> bool) \<Rightarrow> nat \<Rightarrow> jsv list \<Rightarrow> query_out list" where
  "each act i [] = []"
| "each act i (x # xs) = EachItem x i # (if act x i then each act (Suc i) xs else [])"

fun stops :: "(jsv \<Rightarrow> nat \<Rightarrow> bool) \<Rightarrow> nat \<Rightarrow> jsv list \<Rightarrow> bool" where
  "stops act i [] = False"
| "stops act i (x # xs) = (\<not> act x i \<or> stops act (Suc i) xs)"

text \<open>The window of the hits that a query with offset \<open>k\<close> and limit \<open>l\<close> still has to deliver after
  \<open>n\<close> matches.\<close>

definition window :: "nat \<Rightarrow> nat \<Rightarrow> nat \<Rightarrow> 'a list \<Rightarrow> 'a list" where
  "window l k n xs = take (l - (n - k)) (drop (k - n) xs)"

lemma window_skip: "n < k \<Longrightarrow> window l k n (x # xs) = window l k (Suc n) xs"
proof -
  assume "n < k"
  then have "k - n = Suc (k - Suc n)" "n - k = 0" "Suc n - k = 0" by simp_all
  then show ?thesis by (simp add: window_def)
qed

lemma window_hit: "k \<le> n \<Longrightarrow> n - k < l \<Longrightarrow> window l k n (x # xs) = x # window l k (Suc n) xs"
proof -
  assume "k \<le> n" "n - k < l"
  then have "l - (n - k) = Suc (l - (Suc n - k))" "k - n = 0" "k - Suc n = 0" by simp_all
  then show ?thesis by (simp add: window_def)
qed

lemma window_full: "k \<le> n \<Longrightarrow> l \<le> n - k \<Longrightarrow> window l k n xs = []"
  by (simp add: window_def)

lemma num_le_Fin: "num_le (Fin a) (Fin b) \<longleftrightarrow> a \<le> b"
  by (auto simp: num_le_def)

lemma result_index:
  "num_le (Fin 0) (num_sub (Fin (of_nat n)) (Fin (of_nat k))) \<longleftrightarrow> k \<le> n"
  "k \<le> n \<Longrightarrow> num_less (num_sub (Fin (of_nat n)) (Fin (of_nat k))) (Fin (of_nat l)) \<longleftrightarrow> n - k < l"
proof -
  show "num_le (Fin 0) (num_sub (Fin (of_nat n)) (Fin (of_nat k))) \<longleftrightarrow> k \<le> n"
    by (simp add: num_le_Fin)
  assume "k \<le> n"
  then have "(of_nat n :: rat) - of_nat k = of_nat (n - k)" by (simp only: of_nat_diff)
  then show "num_less (num_sub (Fin (of_nat n)) (Fin (of_nat k))) (Fin (of_nat l)) \<longleftrightarrow> n - k < l"
    unfolding num_sub.simps num_less.simps by (simp only: of_nat_less_iff)
qed

lemma query_loop_step:
  assumes "matches_opt m o1 = Inr True"
  shows "\<not> k \<le> qr_match q \<Longrightarrow> query_loop db jcs m (Fin (of_nat l)) (Fin (of_nat k)) c (o1 # objs) q =
      query_loop db jcs m (Fin (of_nat l)) (Fin (of_nat k)) c objs (q\<lparr>qr_match := Suc (qr_match q)\<rparr>)"
    "k \<le> qr_match q \<Longrightarrow> \<not> qr_match q - k < l \<Longrightarrow>
      query_loop db jcs m (Fin (of_nat l)) (Fin (of_nat k)) c (o1 # objs) q = (None, q)"
    "k \<le> qr_match q \<Longrightarrow> qr_match q - k < l \<Longrightarrow> join_object_properties db jcs (js_clone o1) = Inr r \<Longrightarrow>
      query_loop db jcs m (Fin (of_nat l)) (Fin (of_nat k)) c (o1 # objs) q =
      (let q1 = yield_item c r q in
       if qr_break q1 then (None, q1)
       else query_loop db jcs m (Fin (of_nat l)) (Fin (of_nat k)) c objs (q1\<lparr>qr_match := Suc (qr_match q1)\<rparr>))"
  using assms by (simp_all add: result_index Let_def del: num_sub.simps)

lemma query_loop_each:
  fixes l :: nat
  assumes "\<forall>o1 \<in> set objs. matches_opt m o1 = Inr (hit o1)"
    "\<forall>o1 \<in> set objs. hit o1 \<longrightarrow> join_object_properties db jcs (js_clone o1) = Inr (joined o1)"
    "qr_count q = qr_match q - k" "\<not> qr_break q"
  defines "res \<equiv> map joined (window l k (qr_match q) (filter hit objs))"
  shows "\<exists>q'. query_loop db jcs m (Fin (of_nat l)) (Fin (of_nat k)) (ForEach act) objs q = (None, q') \<and>
    qr_out q' = qr_out q @ each act (qr_count q) res \<and>
    qr_count q' = qr_count q + length (each act (qr_count q) res) \<and>
    qr_break q' = stops act (qr_count q) res"
  using assms(1-4) unfolding res_def
proof (induction objs arbitrary: q)
  case (Cons o1 objs)
  let ?loop = "query_loop db jcs m (Fin (of_nat l)) (Fin (of_nat k)) (ForEach act)"
  have tail: "\<forall>o2 \<in> set objs. matches_opt m o2 = Inr (hit o2)"
    "\<forall>o2 \<in> set objs. hit o2 \<longrightarrow> join_object_properties db jcs (js_clone o2) = Inr (joined o2)"
    using Cons.prems by simp_all
  have m: "matches_opt m o1 = Inr (hit o1)" using Cons.prems by simp
  note IH = Cons.IH [OF tail]
  show ?case
  proof (cases "hit o1")
    case False
    then show ?thesis using IH [of q] Cons.prems(3,4) m by simp
  next
    case hit: True
    show ?thesis
    proof (cases "k \<le> qr_match q")
      case False
      then have "?loop (o1 # objs) q = ?loop objs (q\<lparr>qr_match := Suc (qr_match q)\<rparr>)"
        using m hit False by (simp add: query_loop_step(1) del: query_loop.simps)
      then show ?thesis
        using IH [of "q\<lparr>qr_match := Suc (qr_match q)\<rparr>"] Cons.prems(3,4) False hit
        by (simp add: window_skip)
    next
      case in_range: True
      show ?thesis
      proof (cases "qr_match q - k < l")
        case False
        then have "?loop (o1 # objs) q = (None, q)"
          using m hit in_range False by (simp add: query_loop_step(2) del: query_loop.simps)
        moreover have "window l k (qr_match q) xs = []" for xs :: "jsv list"
          using in_range False by (intro window_full) simp_all
        ultimately show ?thesis using Cons.prems(4) by (simp del: filter.simps)
      next
        case True
        define q1 where "q1 = yield_item (ForEach act) (joined o1) q"
        have q1: "qr_out q1 = qr_out q @ [EachItem (joined o1) (qr_count q)]"
          "qr_count q1 = Suc (qr_count q)" "qr_break q1 = (\<not> act (joined o1) (qr_count q))"
          "qr_match q1 = qr_match q"
          by (simp_all add: q1_def yield_item_def)
        have j: "join_object_properties db jcs (js_clone o1) = Inr (joined o1)"
          using Cons.prems hit by simp
        have l: "?loop (o1 # objs) q = (if qr_break q1 then (None, q1)
            else ?loop objs (q1\<lparr>qr_match := Suc (qr_match q)\<rparr>))"
          using m hit in_range True j q1(4) by (simp add: query_loop_step(3) q1_def Let_def del: query_loop.simps)
        have w: "window l k (qr_match q) (filter hit (o1 # objs)) =
            o1 # window l k (Suc (qr_match q)) (filter hit objs)"
          using window_hit [OF in_range True] hit by simp
        show ?thesis
        proof (cases "act (joined o1) (qr_count q)")
          case False
          then show ?thesis using l q1 w by simp
        next
          case True
          then show ?thesis
            using l q1 w IH [of "q1\<lparr>qr_match := Suc (qr_match q)\<rparr>"] Cons.prems(3) in_range
            by (auto simp: Suc_diff_le)
        qed
      qed
    qed
  qed
qed (simp add: window_def)

text \<open>The objects a query visits: those of the collection in the order of insertion, or, with an order,
  the sorted hits.\<close>

definition query_source :: "conv \<Rightarrow> jsv \<Rightarrow> collection \<Rightarrow> (jsv \<Rightarrow> bool) \<Rightarrow> jsv list \<Rightarrow> bool" where
  "query_source cv flt coll hit objs =
    (if order_entries flt = [] then objs = jvals coll
     else js_sort (compare_by cv (order_entries flt)) [] (filter hit (jvals coll)) = Inr objs)"

lemma filter_r_total:
  "\<forall>x \<in> set xs. m x = Inr (hit x) \<Longrightarrow> filter_r m xs = Inr (filter hit xs)"
  by (induction xs) auto

lemma js_sort_set:
  "js_sort cmp ys xs = Inr zs \<Longrightarrow> set zs = set ys \<union> set xs"
proof (induction xs arbitrary: ys)
  case (Cons x xs)
  have "sort_insert cmp x ys = Inr ws \<Longrightarrow> set ws = insert x (set ys)" for ws
    by (induction ys arbitrary: ws) (auto simp: rbind_Inr_conv split: if_splits)
  then show ?case using Cons by (auto simp: rbind_Inr_conv)
qed simp

lemma find_objects_loop:
  assumes "jget db name = Some coll"
    "\<forall>o1 \<in> set (jvals coll). matches_opt (get_filter_matcher cv flt) o1 = Inr (hit o1)"
    "query_source cv flt coll hit objs"
    "\<forall>o1 \<in> set (jvals coll). hit o1 \<longrightarrow> join_object_properties db jcs (js_clone o1) = Inr (joined o1)"
    "num_or flt ''take'' max_safe_integer = Fin (of_nat l)" "num_or flt ''skip'' (Fin 0) = Fin (of_nat k)"
  obtains m where "\<forall>o1 \<in> set objs. matches_opt m o1 = Inr (hit o1)"
    "\<forall>o1 \<in> set objs. hit o1 \<longrightarrow> join_object_properties db jcs (js_clone o1) = Inr (joined o1)"
    "\<And>c q. query_loop db jcs m (Fin (of_nat l)) (Fin (of_nat k)) c objs new_run = (None, q) \<Longrightarrow>
      find_objects cv name flt jcs c db =
        (Inr (qr_count (last_batch c q), qr_break (last_batch c q)), qr_out (last_batch c q))"
proof -
  define m where "m = (if order_entries flt = [] then get_filter_matcher cv flt else None)"
  have objs: "set objs \<subseteq> set (jvals coll) \<and> (\<forall>o1 \<in> set objs. matches_opt m o1 = Inr (hit o1))"
  proof (cases "order_entries flt = []")
    case False
    then have "set objs = set (filter hit (jvals coll))"
      using assms(3) js_sort_set by (fastforce simp: query_source_def)
    then show ?thesis using False by (auto simp: m_def matches_opt_def)
  qed (use assms(2,3) in \<open>simp add: query_source_def m_def\<close>)
  have source: "(if order_entries flt = [] then Inr (get_filter_matcher cv flt, jvals coll)
      else rbind (filter_r (matches_opt (get_filter_matcher cv flt)) (jvals coll)) (\<lambda>objs.
        rbind (js_sort (compare_by cv (order_entries flt)) [] objs) (\<lambda>ordered. Inr (None, ordered)))) =
      Inr (m, objs)"
    using assms(3) filter_r_total [OF assms(2)] by (auto simp: query_source_def m_def)
  have "find_objects cv name flt jcs c db =
      (Inr (qr_count (last_batch c q), qr_break (last_batch c q)), qr_out (last_batch c q))"
    if "query_loop db jcs m (Fin (of_nat l)) (Fin (of_nat k)) c objs new_run = (None, q)" for c q
    unfolding find_objects_def Let_def assms(1) option.case source assms(5,6) sum.case prod.case that
    by simp
  with objs assms(4) show thesis by (intro that [of m]) blast+
qed

lemma new_run_simps [simp]:
  "qr_match new_run = 0" "qr_count new_run = 0" "qr_batch new_run = []" "\<not> qr_break new_run"
  "qr_out new_run = []"
  by (simp_all add: new_run_def)

lemma window_0: "window l k 0 xs = take l (drop k xs)"
  by (simp add: window_def)

text \<open>The counts that the options \<open>take\<close> and \<open>skip\<close> give, and the window of the hits they document: a
  missing take count is no limit and a missing skip count skips nothing.\<close>

definition option_count :: "jsv \<Rightarrow> string \<Rightarrow> nat option \<Rightarrow> bool" where
  "option_count flt k c =
    (get_prop flt k = (case c of None \<Rightarrow> JUndef | Some n \<Rightarrow> JNum (Fin (of_nat n))))"

definition result_window :: "nat option \<Rightarrow> nat option \<Rightarrow> 'a list \<Rightarrow> 'a list" where
  "result_window t k xs =
    (let rest = (case k of None \<Rightarrow> xs | Some n \<Rightarrow> drop n xs)
     in case t of None \<Rightarrow> rest | Some n \<Rightarrow> take n rest)"

definition code_limit :: "nat option \<Rightarrow> nat" where
  "code_limit t = (case t of None \<Rightarrow> 9007199254740991 | Some n \<Rightarrow> n)"

definition code_offset :: "nat option \<Rightarrow> nat" where
  "code_offset k = (case k of None \<Rightarrow> 0 | Some n \<Rightarrow> n)"

lemma option_counts:
  assumes "option_count flt ''take'' t" "option_count flt ''skip'' k" "t \<noteq> Some 0"
  shows "num_or flt ''take'' max_safe_integer = Fin (of_nat (code_limit t))"
    "num_or flt ''skip'' (Fin 0) = Fin (of_nat (code_offset k))"
  using assms
  by (auto simp: option_count_def num_or_def code_limit_def code_offset_def max_safe_integer_def
      split: option.splits)

lemma result_window_code:
  assumes "t = None \<longrightarrow> length xs \<le> 9007199254740991"
  shows "take (code_limit t) (drop (code_offset k) xs) = result_window t k xs"
  using assms by (auto simp: code_limit_def code_offset_def result_window_def split: option.splits)

lemma find_objects_each_code:
  assumes "jget db name = Some coll"
    "\<forall>o1 \<in> set (jvals coll). matches_opt (get_filter_matcher cv flt) o1 = Inr (hit o1)"
    "query_source cv flt coll hit objs"
    "\<forall>o1 \<in> set (jvals coll). hit o1 \<longrightarrow> join_object_properties db jcs (js_clone o1) = Inr (joined o1)"
    "num_or flt ''take'' max_safe_integer = Fin (of_nat l)" "num_or flt ''skip'' (Fin 0) = Fin (of_nat k)"
    "res = map joined (take l (drop k (filter hit objs)))"
  shows "find_objects cv name flt jcs (ForEach act) db =
    (Inr (length (each act 0 res), stops act 0 res), each act 0 res)"
proof -
  obtain m where m: "\<forall>o1 \<in> set objs. matches_opt m o1 = Inr (hit o1)"
    "\<forall>o1 \<in> set objs. hit o1 \<longrightarrow> join_object_properties db jcs (js_clone o1) = Inr (joined o1)"
    "\<And>c q. query_loop db jcs m (Fin (of_nat l)) (Fin (of_nat k)) c objs new_run = (None, q) \<Longrightarrow>
      find_objects cv name flt jcs c db =
        (Inr (qr_count (last_batch c q), qr_break (last_batch c q)), qr_out (last_batch c q))"
    using find_objects_loop [OF assms(1-6)] by blast
  obtain q where q: "query_loop db jcs m (Fin (of_nat l)) (Fin (of_nat k)) (ForEach act) objs new_run = (None, q)"
    "qr_out q = each act 0 res" "qr_count q = length (each act 0 res)" "qr_break q = stops act 0 res"
    using query_loop_each [OF m(1,2), of new_run k l act] by (auto simp: window_0 assms(7))
  then show ?thesis using m(3) [OF q(1)] by (simp add: last_batch_def)
qed

text \<open>C16: a query with a filter, an order, an offset, a limit and joins delivers to its action, one by
  one with increasing index, exactly the reference result: the hits of the filter among the
  collection's objects, in the order of the query, without the first \<open>skip\<close>, at most \<open>take\<close> of them,
  each cloned and joined; it ends early at the first result for which the action returns false,
  and reports the number of results delivered and whether it was ended early. The take count is not
  zero, which the code reads as no limit, and matching, comparing and joining do not throw.\<close>

theorem find_objects_each:
  assumes "jget db name = Some coll"
    "\<forall>o1 \<in> set (jvals coll). matches_opt (get_filter_matcher cv flt) o1 = Inr (hit o1)"
    "query_source cv flt coll hit objs"
    "\<forall>o1 \<in> set (jvals coll). hit o1 \<longrightarrow> join_object_properties db jcs (js_clone o1) = Inr (joined o1)"
    "option_count flt ''take'' t" "option_count flt ''skip'' k" "t \<noteq> Some 0"
    "t = None \<longrightarrow> length objs \<le> 9007199254740991"
    "res = map joined (result_window t k (filter hit objs))"
  shows "find_objects cv name flt jcs (ForEach act) db =
    (Inr (length (each act 0 res), stops act 0 res), each act 0 res)"
proof (rule find_objects_each_code [OF assms(1-4) option_counts [OF assms(5-7)]])
  have "t = None \<longrightarrow> length (filter hit objs) \<le> 9007199254740991"
    using assms(8) le_trans [OF length_filter_le] by blast
  then show "res = map joined (take (code_limit t) (drop (code_offset k) (filter hit objs)))"
    using assms(9) by (simp add: result_window_code)
qed

text \<open>A take count of zero, documented to return no more than zero objects, delivers all of them.\<close>

theorem take_zero_delivers_all:
  assumes "jget db name = Some coll"
    "\<forall>o1 \<in> set (jvals coll). matches_opt (get_filter_matcher cv flt) o1 = Inr (hit o1)"
    "query_source cv flt coll hit objs"
    "\<forall>o1 \<in> set (jvals coll). hit o1 \<longrightarrow> join_object_properties db jcs (js_clone o1) = Inr (joined o1)"
    "option_count flt ''take'' (Some 0)" "option_count flt ''skip'' k"
    "length objs \<le> 9007199254740991" "res = map joined (result_window None k (filter hit objs))"
  shows "find_objects cv name flt jcs (ForEach act) db =
    (Inr (length (each act 0 res), stops act 0 res), each act 0 res)"
proof (rule find_objects_each_code [OF assms(1-4)])
  show "num_or flt ''take'' max_safe_integer = Fin (of_nat (code_limit None))"
    using assms(5) by (simp add: option_count_def num_or_def code_limit_def max_safe_integer_def)
  show "num_or flt ''skip'' (Fin 0) = Fin (of_nat (code_offset k))"
    using assms(6) by (auto simp: option_count_def num_or_def code_offset_def split: option.splits)
  have "length (filter hit objs) \<le> 9007199254740991"
    using assms(7) le_trans [OF length_filter_le] by blast
  then show "res = map joined (take (code_limit None) (drop (code_offset k) (filter hit objs)))"
    using assms(8) by (simp add: result_window_code)
qed

section \<open>Batches\<close>

fun feed :: "int \<Rightarrow> (jsv list \<Rightarrow> bool) \<Rightarrow> jsv list \<Rightarrow> jsv list \<Rightarrow> jsv list list \<times> jsv list \<times> bool" where
  "feed n act b [] = ([], b, False)"
| "feed n act b (x # xs) =
    (if n > 0 \<and> int (length (b @ [x])) = n then
       (if act (b @ [x]) then (let (out, r, s) = feed n act [] xs in ((b @ [x]) # out, r, s))
        else ([b @ [x]], [], True))
     else feed n act (b @ [x]) xs)"

lemma query_loop_batch:
  assumes "\<forall>o1 \<in> set objs. matches_opt m o1 = Inr (hit o1)"
    "\<forall>o1 \<in> set objs. hit o1 \<longrightarrow> join_object_properties db jcs (js_clone o1) = Inr (joined o1)"
    "qr_count q = qr_match q - k" "\<not> qr_break q" "length (qr_batch q) \<le> qr_count q"
    "feed n act (qr_batch q) (map joined (window l k (qr_match q) (filter hit objs))) = (out, r, s)"
  shows "\<exists>q'. query_loop db jcs m (Fin (of_nat l)) (Fin (of_nat k)) (ForBatch n act) objs q = (None, q') \<and>
    qr_out q' = qr_out q @ map Batch out \<and> qr_batch q' = r \<and> qr_break q' = s \<and>
    qr_count q' + length (qr_batch q) = qr_count q + length (concat out) + length r"
  using assms
proof (induction objs arbitrary: q out r s)
  case (Cons o1 objs)
  have m: "matches_opt m o1 = Inr (hit o1)" using Cons.prems(1) by simp
  show ?case
  proof (cases "hit o1")
    case False
    then show ?thesis using Cons.prems m Cons.IH [of q] by simp
  next
    case hit: True
    then have j: "join_object_properties db jcs (js_clone o1) = Inr (joined o1)" using Cons.prems(2) by simp
    consider "qr_match q < k" | "k \<le> qr_match q" "qr_match q - k < l" | "k \<le> qr_match q" "l \<le> qr_match q - k"
      by linarith
    then show ?thesis
    proof cases
      case 1
      then show ?thesis
        using Cons.prems m hit Cons.IH [of "q\<lparr>qr_match := Suc (qr_match q)\<rparr>"]
        by (simp add: query_loop_step(1) window_skip del: query_loop.simps)
    next
      case 2
      let ?b = "qr_batch q @ [joined o1]"
      define q1 where "q1 = yield_item (ForBatch n act) (joined o1) q"
      have step: "query_loop db jcs m (Fin (of_nat l)) (Fin (of_nat k)) (ForBatch n act) (o1 # objs) q =
          (if qr_break q1 then (None, q1) else query_loop db jcs m (Fin (of_nat l)) (Fin (of_nat k))
            (ForBatch n act) objs (q1\<lparr>qr_match := Suc (qr_match q1)\<rparr>))"
        using m hit j 2 by (simp add: query_loop_step(3) q1_def Let_def del: query_loop.simps)
      have w: "feed n act (qr_batch q) (joined o1 # map joined (window l k (Suc (qr_match q)) (filter hit objs))) =
          (out, r, s)"
        using Cons.prems(6) 2 hit by (simp add: window_hit)
      show ?thesis
      proof (cases "n > 0 \<and> int (length ?b) = n")
        case True
        then have q1: "q1 = q\<lparr>qr_out := qr_out q @ [Batch ?b], qr_batch := [],
            qr_count := Suc (qr_count q), qr_break := \<not> act ?b\<rparr>"
          by (simp add: q1_def yield_item_def Let_def)
        show ?thesis
        proof (cases "act ?b")
          case False
          then show ?thesis
            using w step True Cons.prems(5) by (auto simp: q1 simp del: query_loop.simps)
        next
          case go: True
          obtain out' where f: "feed n act [] (map joined (window l k (Suc (qr_match q)) (filter hit objs))) =
              (out', r, s)" "out = ?b # out'"
            using w True go by (auto split: prod.splits)
          let ?q2 = "q1\<lparr>qr_match := Suc (qr_match q1)\<rparr>"
          have "qr_count ?q2 = qr_match ?q2 - k" "\<not> qr_break ?q2" "qr_batch ?q2 = []"
            "qr_match ?q2 = Suc (qr_match q)"
            using Cons.prems(3) 2 go by (simp_all add: q1 Suc_diff_le)
          then obtain q' where "query_loop db jcs m (Fin (of_nat l)) (Fin (of_nat k)) (ForBatch n act) objs ?q2 =
              (None, q')" "qr_out q' = qr_out ?q2 @ map Batch out'" "qr_batch q' = r" "qr_break q' = s"
              "qr_count q' = qr_count ?q2 + length (concat out') + length r"
            using Cons.IH [of ?q2 out' r s] Cons.prems(1,2) f(1) by auto
          then show ?thesis
            using step True go f(2) by (auto simp: q1 simp del: query_loop.simps)
        qed
      next
        case False
        then have q1: "q1 = q\<lparr>qr_batch := ?b, qr_count := Suc (qr_count q)\<rparr>"
          by (auto simp: q1_def yield_item_def Let_def)
        let ?q2 = "q1\<lparr>qr_match := Suc (qr_match q1)\<rparr>"
        have "qr_count ?q2 = qr_match ?q2 - k" "\<not> qr_break ?q2" "qr_batch ?q2 = ?b"
          "qr_match ?q2 = Suc (qr_match q)" "qr_count ?q2 = Suc (qr_count q)" "qr_out ?q2 = qr_out q"
          using Cons.prems(3,4) 2 by (simp_all add: q1 Suc_diff_le)
        moreover have "feed n act ?b (map joined (window l k (Suc (qr_match q)) (filter hit objs))) = (out, r, s)"
          using w False by (simp split: if_splits)
        ultimately obtain q' where
            "query_loop db jcs m (Fin (of_nat l)) (Fin (of_nat k)) (ForBatch n act) objs ?q2 = (None, q')"
            "qr_out q' = qr_out q @ map Batch out" "qr_batch q' = r" "qr_break q' = s"
            "qr_count q' + length ?b = Suc (qr_count q) + length (concat out) + length r"
          using Cons.IH [of ?q2 out r s] Cons.prems(1,2,5) by auto
        then show ?thesis
          using step Cons.prems(4) by (auto simp: q1 simp del: query_loop.simps)
      qed
    next
      case 3
      have "window l k (qr_match q) xs = []" for xs :: "jsv list"
        using 3 by (intro window_full) simp_all
      then show ?thesis
        using 3 m hit Cons.prems(4,6) by (simp add: query_loop_step(2) del: filter.simps query_loop.simps)
    qed
  qed
qed (auto simp: window_def)

lemma feed_nonempty: "feed n act b xs = (out, r, s) \<Longrightarrow> b @ xs \<noteq> [] \<Longrightarrow> r = [] \<Longrightarrow> concat out \<noteq> []"
  by (induction n act b xs arbitrary: out r s rule: feed.induct)
     (auto split: if_splits prod.splits)

text \<open>The reference: full batches and a last one of what remains, which is delivered also when there
  are no results; the first batch for which the action returns false is the last one.\<close>

function chunks :: "nat \<Rightarrow> 'a list \<Rightarrow> 'a list list" where
  "chunks n xs = (if n = 0 \<or> length xs \<le> n then [xs] else take n xs # chunks n (drop n xs))"
  by pat_completeness auto
termination by (relation "measure (\<lambda>(n, xs). length xs)") auto

declare chunks.simps [simp del]

fun until_false :: "('a \<Rightarrow> bool) \<Rightarrow> 'a list \<Rightarrow> 'a list" where
  "until_false act [] = []"
| "until_false act (x # xs) = (if act x then x # until_false act xs else [x])"

lemma feed_chunks:
  assumes "feed (int n) act b xs = (out, r, s)" "n = 0 \<or> length b < n" "b @ xs \<noteq> []"
  shows "out @ (if r = [] then [] else [r]) = until_false act (chunks n (b @ xs)) \<and>
    (s \<or> r \<noteq> [] \<and> \<not> act r \<longleftrightarrow> \<not> list_all act (chunks n (b @ xs)))"
  using assms
proof (induction "int n" act b xs arbitrary: out r s rule: feed.induct)
  case (1 act b)
  then have "chunks n b = [b]" by (subst chunks.simps) auto
  then show ?case using 1 by auto
next
  case (2 act b x xs)
  show ?case
  proof (cases "int n > 0 \<and> int (length (b @ [x])) = int n")
    case True
    then have len: "length (b @ [x]) = n" "n > 0" by simp_all
    show ?thesis
    proof (cases "xs = []")
      case True
      then show ?thesis using 2(3) len by (auto simp: chunks.simps [of n "b @ [x]"] split: if_splits)
    next
      case False
      then have c: "chunks n (b @ x # xs) = (b @ [x]) # chunks n xs"
        using len by (subst chunks.simps) auto
      show ?thesis
      proof (cases "act (b @ [x])")
        case go: True
        obtain out' where f: "feed (int n) act [] xs = (out', r, s)" "out = (b @ [x]) # out'"
          using 2(3) True go by (auto split: prod.splits)
        have "out' @ (if r = [] then [] else [r]) = until_false act (chunks n xs) \<and>
            (s \<or> r \<noteq> [] \<and> \<not> act r \<longleftrightarrow> \<not> list_all act (chunks n xs))"
          using 2(1) [OF True go f(1)] len False by auto
        then show ?thesis using c go f(2) by simp
      qed (use 2(3) True c in auto)
    qed
  next
    case False
    then show ?thesis using 2(2) [OF False, of out r s] 2(3,4) by auto
  qed
qed

lemma feed_result:
  assumes "feed (int n) act b xs = (out, r, s)" "n = 0 \<or> length b < n" "b @ xs \<noteq> []"
  shows "out @ (if r = [] then [] else [r]) = until_false act (chunks n (b @ xs))"
    "(s \<or> r \<noteq> [] \<and> \<not> act r) = (\<not> list_all act (chunks n (b @ xs)))"
  using feed_chunks [OF assms] by auto

lemma batch_result:
  assumes "feed (int n) act [] xs = (out, r, s)" "qr_out q = map Batch out" "qr_batch q = r" "qr_break q = s"
    "qr_count q = length (concat out) + length r"
  shows "qr_count (last_batch (ForBatch (int n) act) q) = length (concat (until_false act (chunks n xs)))"
    "qr_break (last_batch (ForBatch (int n) act) q) = (\<not> list_all act (chunks n xs))"
    "qr_out (last_batch (ForBatch (int n) act) q) = map Batch (until_false act (chunks n xs))"
proof -
  have "qr_count (last_batch (ForBatch (int n) act) q) = length (concat (until_false act (chunks n xs))) \<and>
    qr_break (last_batch (ForBatch (int n) act) q) = (\<not> list_all act (chunks n xs)) \<and>
    qr_out (last_batch (ForBatch (int n) act) q) = map Batch (until_false act (chunks n xs))"
  proof (cases "xs = []")
    case True
    then have "chunks n xs = [[]]" "out = []" "r = []" "\<not> s"
      using assms(1) by (auto simp: chunks.simps)
    then show ?thesis using assms(2-) by (auto simp: last_batch_def)
  next
    case False
    have n: "n = 0 \<or> length ([] :: jsv list) < n" by auto
    have o1: "out @ (if r = [] then [] else [r]) = until_false act (chunks n xs)"
      and s: "(s \<or> r \<noteq> [] \<and> \<not> act r) = (\<not> list_all act (chunks n xs))"
      using feed_result [OF assms(1) n] False unfolding append_Nil by blast+
    have "concat (until_false act (chunks n xs)) = concat out @ r" unfolding o1 [symmetric] by simp
    moreover have "r = [] \<Longrightarrow> concat out \<noteq> []"
      using feed_nonempty [OF assms(1)] False by auto
    ultimately show ?thesis
      using assms(2-) s unfolding o1 [symmetric] by (auto simp: last_batch_def)
  qed
  then show "qr_count (last_batch (ForBatch (int n) act) q) = length (concat (until_false act (chunks n xs)))"
    "qr_break (last_batch (ForBatch (int n) act) q) = (\<not> list_all act (chunks n xs))"
    "qr_out (last_batch (ForBatch (int n) act) q) = map Batch (until_false act (chunks n xs))" by simp_all
qed

lemma find_objects_batched:
  assumes "jget db name = Some coll"
    "\<forall>o1 \<in> set (jvals coll). matches_opt (get_filter_matcher cv flt) o1 = Inr (hit o1)"
    "query_source cv flt coll hit objs"
    "\<forall>o1 \<in> set (jvals coll). hit o1 \<longrightarrow> join_object_properties db jcs (js_clone o1) = Inr (joined o1)"
    "num_or flt ''take'' max_safe_integer = Fin (of_nat l)" "num_or flt ''skip'' (Fin 0) = Fin (of_nat k)"
    "bs = chunks n (map joined (take l (drop k (filter hit objs))))"
  shows "find_objects cv name flt jcs (ForBatch (int n) act) db =
    (Inr (length (concat (until_false act bs)), \<not> list_all act bs), map Batch (until_false act bs))"
proof -
  let ?c = "ForBatch (int n) act" and ?res = "map joined (take l (drop k (filter hit objs)))"
  obtain m where m: "\<forall>o1 \<in> set objs. matches_opt m o1 = Inr (hit o1)"
    "\<forall>o1 \<in> set objs. hit o1 \<longrightarrow> join_object_properties db jcs (js_clone o1) = Inr (joined o1)"
    "\<And>c q. query_loop db jcs m (Fin (of_nat l)) (Fin (of_nat k)) c objs new_run = (None, q) \<Longrightarrow>
      find_objects cv name flt jcs c db =
        (Inr (qr_count (last_batch c q), qr_break (last_batch c q)), qr_out (last_batch c q))"
    using find_objects_loop [OF assms(1-6)] by blast
  obtain out r s where f: "feed (int n) act [] ?res = (out, r, s)" by (metis prod_cases3)
  obtain q where q: "query_loop db jcs m (Fin (of_nat l)) (Fin (of_nat k)) ?c objs new_run = (None, q)"
    "qr_out q = map Batch out" "qr_batch q = r" "qr_break q = s"
    "qr_count q = length (concat out) + length r"
    using query_loop_batch [OF m(1,2), of new_run k "int n" act l out r s] f by (auto simp: window_0)
  show ?thesis
    using m(3) [OF q(1)] batch_result [OF f q(2-5)] by (simp add: assms(7))
qed

text \<open>C17: the same query iterated in batches of size \<open>n\<close> (all at once if \<open>n\<close> is zero) delivers the
  reference result cut into full batches and a last one of what remains; a query without results
  delivers one empty batch. The first batch for which the action returns false is the last one
  delivered, and the query reports the number of results delivered. The take count is not zero, and
  matching, comparing and joining do not throw.\<close>

theorem find_objects_batches:
  assumes "jget db name = Some coll"
    "\<forall>o1 \<in> set (jvals coll). matches_opt (get_filter_matcher cv flt) o1 = Inr (hit o1)"
    "query_source cv flt coll hit objs"
    "\<forall>o1 \<in> set (jvals coll). hit o1 \<longrightarrow> join_object_properties db jcs (js_clone o1) = Inr (joined o1)"
    "option_count flt ''take'' t" "option_count flt ''skip'' k" "t \<noteq> Some 0"
    "t = None \<longrightarrow> length objs \<le> 9007199254740991"
    "bs = chunks n (map joined (result_window t k (filter hit objs)))"
  shows "find_objects cv name flt jcs (ForBatch (int n) act) db =
    (Inr (length (concat (until_false act bs)), \<not> list_all act bs), map Batch (until_false act bs))"
proof (rule find_objects_batched [OF assms(1-4) option_counts [OF assms(5-7)]])
  have "t = None \<longrightarrow> length (filter hit objs) \<le> 9007199254740991"
    using assms(8) le_trans [OF length_filter_le] by blast
  then show "bs = chunks n (map joined (take (code_limit t) (drop (code_offset k) (filter hit objs))))"
    using assms(9) by (simp add: result_window_code)
qed

section \<open>A concrete query\<close>

definition person :: "string \<Rightarrow> int \<Rightarrow> string \<Rightarrow> jsv" where
  "person oid age boss = jobj [(''objectId'', JStr oid), (''age'', jint age), (''boss'', JStr boss)]"

definition people :: mem_db where
  "people = [(''people'', [(''a'', person ''a'' 30 ''b''), (''b'', person ''b'' 10 ''x''),
     (''c'', person ''c'' 20 ''a'')])]"

definition by_age :: jsv where
  "by_age = jobj [(''skip'', jint 1), (''take'', jint 2),
     (''orderByProperties'', JArr [JArr [JStr ''age'', JStr ''Asc'']])]"

definition with_boss :: "join_condition list" where
  "with_boss = [\<lparr>jc_from = ''people'', jc_local = ''boss'', jc_from_prop = ''objectId'', jc_as = ''head'',
     jc_array = False, jc_one = True\<rparr>]"

definition joined_person :: "jsv \<Rightarrow> jsv" where
  "joined_person p = (case join_object_properties people with_boss (js_clone p) of Inr r \<Rightarrow> r | Inl e \<Rightarrow> JUndef)"

lemmas people_defs = people_def person_def by_age_def with_boss_def join_property_def joined_for_def Let_def
  joined_person_def jdel_def proto_prop_def object_proto_names_def

lemma people_joined:
  "joined_person (person ''a'' 30 ''b'') = set_prop ''head'' (person ''b'' 10 ''x'') (person ''a'' 30 ''b'')"
  "joined_person (person ''b'' 10 ''x'') = person ''b'' 10 ''x''"
  "joined_person (person ''c'' 20 ''a'') = set_prop ''head'' (person ''a'' 30 ''b'') (person ''c'' 20 ''a'')"
  by (simp_all add: people_defs)

lemma people_entries: "order_entries by_age = [JArr [JStr ''age'', JStr ''Asc'']]"
  by (simp add: order_entries_def by_age_def)

lemma people_ordered:
  "query_source sample_conv by_age (snd (hd people)) (\<lambda>p. True)
     [person ''b'' 10 ''x'', person ''c'' 20 ''a'', person ''a'' 30 ''b'']"
  by (simp add: query_source_def people_entries people_def person_def base_comparer_def order_props_def
      order_asc_def get_filter_property_value_def get_filter_properties_def prop_step_def Let_def)

lemma people_query:
  "jget people ''people'' = Some (snd (hd people))"
  "\<forall>p \<in> set (jvals (snd (hd people))). matches_opt (get_filter_matcher sample_conv by_age) p = Inr True"
  "\<forall>p \<in> set (jvals (snd (hd people))). True \<longrightarrow>
     join_object_properties people with_boss (js_clone p) = Inr (joined_person p)"
  "option_count by_age ''take'' (Some 2)" "option_count by_age ''skip'' (Some 1)"
  "map joined_person (result_window (Some 2) (Some 1) (filter (\<lambda>p. True)
     [person ''b'' 10 ''x'', person ''c'' 20 ''a'', person ''a'' 30 ''b''])) =
   [joined_person (person ''c'' 20 ''a''), joined_person (person ''a'' 30 ''b'')]"
  by (simp_all add: people_defs matches_opt_def get_filter_matcher_def option_count_def result_window_def)

theorem find_objects_each_witness:
  "find_objects sample_conv ''people'' by_age with_boss (ForEach (\<lambda>p i. True)) people =
    (Inr (2, False), [EachItem (joined_person (person ''c'' 20 ''a'')) 0,
       EachItem (joined_person (person ''a'' 30 ''b'')) 1])"
  using find_objects_each [OF people_query(1,2) people_ordered people_query(3-5) _ _ refl, of "\<lambda>p i. True"]
  unfolding people_query(6) by simp

theorem find_objects_batches_witness:
  "find_objects sample_conv ''people'' by_age with_boss (ForBatch 1 (\<lambda>b. False)) people =
    (Inr (1, True), [Batch [joined_person (person ''c'' 20 ''a'')]])"
  using find_objects_batches [OF people_query(1,2) people_ordered people_query(3-5) _ _ refl, of 1 "\<lambda>b. False"]
  unfolding people_query(6) by (simp add: chunks.simps)

theorem query_order_witness:
  "\<exists>s. js_sort (compare_by sample_conv [JArr [JStr ''age'', JStr ''Asc'']]) [] (jvals (snd (hd people))) = Inr s \<and>
    s = [person ''b'' 10 ''x'', person ''c'' 20 ''a'', person ''a'' 30 ''b''] \<and>
    (\<exists>ys zs. s = ys @ zs \<and> binary_insert s (person ''d'' 15 ''a'')
       (order_sign sample_conv [(JArr [JStr ''age'', JStr ''Asc''], TNumber)]) =
       Inr (ys @ person ''d'' 15 ''a'' # zs))"
proof -
  let ?ets = "[(JArr [JStr ''age'', JStr ''Asc''], TNumber)]"
  have "\<forall>p \<in> set (jvals (snd (hd people))). orderable sample_conv ?ets p"
    "orderable sample_conv ?ets (person ''d'' 15 ''a'')"
    "int (length (jvals (snd (hd people)))) < 2 ^ 31"
    by (simp_all add: orderable_def orderable_value_def collator_ok_def sample_conv_def people_def person_def
        entry_value_def order_props_def get_filter_property_value_def get_filter_properties_def prop_step_def)
  from query_order [OF this] people_ordered show ?thesis
    by (auto simp: query_source_def people_entries)
qed

end
