(* ===== verification/InMemoryDbState.thy ===== *)
theory InMemoryDbState
  imports InMemoryDb
begin

text \<open>
  Properties of the state of the in-memory database: the invariant that objects are stored under
  their object ids, what is found after an insertion, what a deletion by filter leaves, and the
  joins and comparisons that fail.
\<close>

section \<open>Objects and their ids\<close>

lemma valid_object_id: "is_object obj None \<Longrightarrow> \<exists>i. object_id obj = Some i"
proof -
  assume "is_object obj None"
  then have "is_object_base obj" by (auto simp: is_object_None dest: is_assignable_base)
  then show ?thesis
    by (auto simp: is_object_base_def nonempty_str_iff object_id_def)
qed

lemma object_id_obj:
  "object_id obj = Some i \<Longrightarrow> \<exists>p ps. obj = JObj p ps \<and> map_of ps ''objectId'' = Some (JStr i)"
proof -
  assume a: "object_id obj = Some i"
  then have g: "get_prop obj ''objectId'' = JStr i" by (simp add: object_id_def split: jsv.splits)
  have no: "proto_prop ''objectId'' = JUndef" "arr_index ''objectId'' = None"
    "''objectId'' \<notin> set array_proto_names"
    by (code_simp, code_simp, code_simp)
  show ?thesis
  proof (cases obj)
    case (JObj p ps)
    then show ?thesis using g no(1) by (simp split: option.splits if_splits)
  qed (use g no in \<open>simp_all split: if_splits\<close>)
qed

lemma object_id_clone: "object_id obj = Some i \<Longrightarrow> object_id (js_clone obj) = Some i"
proof -
  assume a: "object_id obj = Some i"
  then obtain p ps where ps: "obj = JObj p ps" "map_of ps ''objectId'' = Some (JStr i)"
    using object_id_obj by blast
  have "map_of ps k = Some (JStr s) \<Longrightarrow>
      map_of (filter (\<lambda>kv. snd kv \<noteq> JUndef) (map (\<lambda>(k, v). (k, js_clone v)) ps)) k = Some (JStr s)" for k s
    by (induction ps) (auto split: if_splits)
  then show ?thesis using ps by (simp add: object_id_def)
qed

lemma object_id_set_prop: "k \<noteq> ''objectId'' \<Longrightarrow> object_id (set_prop k v obj) = object_id obj"
  by (simp add: object_id_def)

lemma object_id_del_prop: "k \<noteq> ''objectId'' \<Longrightarrow> object_id (del_prop k obj) = object_id obj"
  by (simp add: object_id_def)

lemma core_clone_Inr: "core_clone obj False = Inr c \<Longrightarrow> obj \<noteq> JUndef \<Longrightarrow> is_object obj None \<and> c = js_clone obj"
  by (auto simp: core_clone_def split: if_splits)

section \<open>The invariant of the state\<close>

text \<open>Each object of a collection is stored once, under its object id; collections have distinct names.\<close>

definition coll_ok :: "collection \<Rightarrow> bool" where
  "coll_ok coll = (jwf coll \<and> (\<forall>(i, obj) \<in> set coll. object_id obj = Some i))"

definition db_ok :: "mem_db \<Rightarrow> bool" where
  "db_ok db = (jwf db \<and> (\<forall>(name, coll) \<in> set db. coll_ok coll))"

lemma coll_ok_empty [simp]: "coll_ok []"
  by (simp add: coll_ok_def)

lemma coll_ok_jset: "coll_ok coll \<Longrightarrow> object_id obj = Some i \<Longrightarrow> coll_ok (jset i obj coll)"
  by (auto simp: coll_ok_def set_jset)

lemma coll_ok_jdel: "coll_ok coll \<Longrightarrow> coll_ok (jdel i coll)"
  by (auto simp: coll_ok_def jdel_def distinct_map_filter)

lemma coll_ok_get: "coll_ok coll \<Longrightarrow> jget coll i = Some obj \<Longrightarrow> object_id obj = Some i"
  by (auto simp: coll_ok_def dest: map_of_SomeD)

lemma db_ok_coll: "db_ok db \<Longrightarrow> jget db name = Some coll \<Longrightarrow> coll_ok coll"
  by (auto simp: db_ok_def dest: map_of_SomeD)

lemma db_ok_jset: "db_ok db \<Longrightarrow> coll_ok coll \<Longrightarrow> db_ok (jset name coll db)"
  by (auto simp: db_ok_def set_jset)

lemma db_ok_jdel: "db_ok db \<Longrightarrow> db_ok (jdel name db)"
  by (auto simp: db_ok_def jdel_def distinct_map_filter)

lemma put_object_ok:
  assumes "put_object wanted obj state = Inr state'" "obj \<noteq> JUndef" "coll_ok (fst state)"
  shows "coll_ok (fst state')"
proof (cases wanted)
  case True
  then obtain c i where "core_clone obj False = Inr c" "object_id obj = Some i" "fst state' = jset i c (fst state)"
    using assms(1) by (auto simp: put_object_def rbind_Inr_conv split: option.splits)
  moreover from this have "c = js_clone obj" using core_clone_Inr assms(2) by blast
  ultimately show ?thesis using assms(3) by (simp add: coll_ok_jset object_id_clone)
qed (use assms in \<open>simp add: put_object_def\<close>)

lemma insert_loop_ok: "coll_ok (fst state) \<Longrightarrow> coll_ok (snd (insert_loop replace objs state))"
  by (induction objs arbitrary: state) (auto simp: Let_def dest: put_object_ok split: sum.splits)

lemma update_loop_ok: "coll_ok (fst state) \<Longrightarrow> coll_ok (snd (update_loop objs state))"
  by (induction objs arbitrary: state) (auto simp: Let_def dest: put_object_ok split: sum.splits)

lemma property_loop_ok:
  assumes "k \<noteq> ''objectId''"
  shows "coll_ok coll \<Longrightarrow> coll_ok (snd (property_loop k v createMissing ids coll))"
proof (induction ids arbitrary: coll)
  case (Cons i ids)
  show ?case
  proof (cases "jget coll i")
    case (Some obj)
    then have "object_id obj = Some i" using Cons.prems by (rule coll_ok_get [rotated])
    then have "coll_ok (jset i (del_prop k obj) coll)" "coll_ok (jset i (set_prop k v obj) coll)"
      using assms Cons.prems by (simp_all add: coll_ok_jset object_id_set_prop object_id_del_prop)
    then show ?thesis using Some Cons by (cases "v = JUndef"; cases "has_own obj k") simp_all
  qed (use Cons in simp)
qed simp

lemma delete_loop_ok: "coll_ok coll \<Longrightarrow> coll_ok (snd (delete_loop ids coll))"
proof (induction ids arbitrary: coll)
  case (Cons i ids)
  then show ?case by (cases "jhas coll i") (simp_all add: case_prod_beta Let_def coll_ok_jdel)
qed simp

lemma delete_matching_subset:
  "set (snd (delete_matching m coll)) \<subseteq> set coll \<and> (jwf coll \<longrightarrow> jwf (snd (delete_matching m coll)))"
proof (induction coll)
  case (Cons e coll)
  obtain i obj where e: "e = (i, obj)" by (cases e)
  have keys: "fst ` set (snd (delete_matching m coll)) \<subseteq> fst ` set coll" using Cons by blast
  show ?case
  proof (cases "m obj")
    case (Inr b)
    then show ?thesis using Cons keys e by (cases b) (auto simp: case_prod_beta Let_def)
  qed (use e in simp)
qed simp

lemma delete_matching_ok: "coll_ok coll \<Longrightarrow> coll_ok (snd (delete_matching m coll))"
  using delete_matching_subset [of m coll] by (auto simp: coll_ok_def)

datatype db_op =
    AddCollection string
  | RemoveCollection string
  | ClearCollection string
  | InsertObjects string "jsv list" bool
  | UpdateObjects string "jsv list"
  | UpdateProperty string "string list" string jsv bool
  | DeleteById string "string list"
  | DeleteObjects conv string jsv

fun db_step :: "db_op \<Rightarrow> mem_db \<Rightarrow> mem_db" where
  "db_step (AddCollection name) db = add_collection name db"
| "db_step (RemoveCollection name) db = remove_collection name db"
| "db_step (ClearCollection name) db = (case clear_collection name db of Inl e \<Rightarrow> db | Inr db' \<Rightarrow> db')"
| "db_step (InsertObjects name objs replace) db = snd (insert_objects name objs replace db)"
| "db_step (UpdateObjects name objs) db = snd (update_objects name objs db)"
| "db_step (UpdateProperty name ids k v create) db = snd (update_object_property name ids k v create db)"
| "db_step (DeleteById name ids) db = snd (delete_objects_by_id name ids db)"
| "db_step (DeleteObjects cv name flt) db = snd (delete_objects cv name flt db)"

fun keeps_ids :: "db_op \<Rightarrow> bool" where
  "keeps_ids (UpdateProperty name ids k v create) = (k \<noteq> ''objectId'')"
| "keeps_ids _ = True"

lemma db_step_ok: "db_ok db \<Longrightarrow> keeps_ids op1 \<Longrightarrow> db_ok (db_step op1 db)"
proof (induction op1 db rule: db_step.induct)
  case (2 name db)
  then show ?case by (simp add: remove_collection_def db_ok_jdel split: option.split)
next
  case (4 name objs replace db)
  then show ?case
    by (auto simp: insert_objects_def case_prod_beta Let_def intro!: db_ok_jset insert_loop_ok dest: db_ok_coll
        split: option.split)
next
  case (5 name objs db)
  then show ?case
    by (auto simp: update_objects_def case_prod_beta Let_def intro!: db_ok_jset update_loop_ok dest: db_ok_coll
        split: option.split)
next
  case (6 name ids k v create db)
  then show ?case
    by (auto simp: update_object_property_def case_prod_beta Let_def intro!: db_ok_jset property_loop_ok
        dest: db_ok_coll split: option.split)
next
  case (7 name ids db)
  then show ?case
    by (auto simp: delete_objects_by_id_def case_prod_beta Let_def intro!: db_ok_jset delete_loop_ok
        dest: db_ok_coll split: option.split)
next
  case (8 cv name flt db)
  then show ?case
    by (auto simp: delete_objects_def case_prod_beta Let_def intro!: db_ok_jset delete_matching_ok
        dest: db_ok_coll split: option.split)
qed (auto simp: add_collection_def clear_collection_def db_ok_jset split: option.split)

section \<open>What is found after an insertion\<close>

text \<open>The object that is stored under an id after an insertion: with replacing, the last one inserted
  with that id, otherwise the stored one or else the first one inserted.\<close>

definition carries_id :: "string \<Rightarrow> jsv \<Rightarrow> bool" where
  "carries_id i obj = (object_id obj = Some i)"

definition stored_after :: "bool \<Rightarrow> jsv list \<Rightarrow> collection \<Rightarrow> string \<Rightarrow> jsv option" where
  "stored_after replace objs coll i =
    (if replace then
       (case find (carries_id i) (rev objs) of Some obj \<Rightarrow> Some (js_clone obj) | None \<Rightarrow> jget coll i)
     else
       (case jget coll i of Some obj \<Rightarrow> Some obj | None \<Rightarrow> map_option js_clone (find (carries_id i) objs)))"

lemma find_append: "find P (xs @ ys) = (case find P xs of Some x \<Rightarrow> Some x | None \<Rightarrow> find P ys)"
  by (induction xs) auto

lemma stored_after_Cons:
  assumes "object_id obj = Some j"
  shows "stored_after replace (obj # objs) coll i =
    stored_after replace objs (if \<not> jhas coll j \<or> replace then jset j (js_clone obj) coll else coll) i"
  using assms
  by (cases replace) (auto simp: stored_after_def carries_id_def find_append jhas_def split: option.splits)

lemma insert_loop_stored:
  assumes "\<forall>obj \<in> set objs. is_object obj None"
  shows "\<exists>ids coll'. insert_loop replace objs (coll, acc) = (Inr (acc @ ids), coll') \<and>
    (\<forall>i. jget coll' i = stored_after replace objs coll i) \<and>
    (\<forall>i. i \<in> set ids \<longleftrightarrow> list_ex (carries_id i) objs \<and> (replace \<or> \<not> jhas coll i))"
  using assms
proof (induction objs arbitrary: coll acc)
  case Nil
  then show ?case by (auto simp: stored_after_def split: option.split)
next
  case (Cons obj objs)
  obtain j where j: "object_id obj = Some j" using valid_object_id Cons.prems by auto
  have obj: "obj \<noteq> JUndef" "obj \<noteq> JNull" "core_clone obj False = Inr (js_clone obj)"
    using Cons.prems by (auto simp: is_object_None core_clone_def)
  define ins where "ins = (\<not> jhas coll j \<or> replace)"
  let ?coll = "if ins then jset j (js_clone obj) coll else coll"
  let ?acc = "if ins then acc @ [j] else acc"
  have step: "insert_loop replace (obj # objs) (coll, acc) = insert_loop replace objs (?coll, ?acc)"
    using obj j by (simp add: put_object_def coll_has_def ins_def)
  obtain ids coll' where IH: "insert_loop replace objs (?coll, ?acc) = (Inr (?acc @ ids), coll')"
    "\<forall>i. jget coll' i = stored_after replace objs ?coll i"
    "\<forall>i. i \<in> set ids \<longleftrightarrow> list_ex (carries_id i) objs \<and> (replace \<or> \<not> jhas ?coll i)"
    using Cons.IH [of ?coll ?acc] Cons.prems by auto
  have "\<forall>i. i \<in> set (if ins then j # ids else ids) \<longleftrightarrow>
      list_ex (carries_id i) (obj # objs) \<and> (replace \<or> \<not> jhas coll i)"
    using IH(3) j by (auto simp: ins_def carries_id_def jhas_def)
  moreover have "\<forall>i. jget coll' i = stored_after replace (obj # objs) coll i"
    using IH(2) stored_after_Cons [OF j] by (simp add: ins_def)
  ultimately show ?case
    unfolding step IH(1) by (intro exI [of _ "if ins then j # ids else ids"] exI [of _ coll']) simp
qed


lemma insert_found_stored:
  assumes "jget db name = Some coll" "\<forall>obj \<in> set objs. is_object obj None"
  shows "\<exists>ids coll'. insert_objects name objs replace db = (Inr ids, jset name coll' db) \<and>
    (\<forall>i. jget coll' i = stored_after replace objs coll i) \<and>
    (\<forall>i. i \<in> set ids \<longleftrightarrow> list_ex (carries_id i) objs \<and> (replace \<or> \<not> jhas coll i))"
  using insert_loop_stored [OF assms(2), of replace coll "[]"] assms(1)
  by (fastforce simp: insert_objects_def)

section \<open>Deletion by filter\<close>

lemma delete_matching_total:
  "\<forall>e \<in> set coll. m (snd e) = Inr (hit (snd e)) \<Longrightarrow>
    delete_matching m coll = (Inr (length (filter hit (jvals coll))), filter (\<lambda>e. \<not> hit (snd e)) coll)"
proof (induction coll)
  case (Cons e coll)
  then show ?case by (cases e) simp
qed simp

lemma count_matching_total:
  "\<forall>o1 \<in> set objs. m o1 = Inr (hit o1) \<Longrightarrow> count_matching m objs = Inr (length (filter hit objs))"
  by (induction objs) auto

lemma count_objects_total:
  assumes "jget db name = Some coll"
    "\<forall>o1 \<in> set (jvals coll). matches_opt (get_filter_matcher cv flt) o1 = Inr (hit o1)"
  shows "count_objects cv name flt db = Inr (length (filter hit (jvals coll)))"
proof (cases "get_filter_matcher cv flt")
  case None
  then have "filter hit (jvals coll) = jvals coll"
    using assms(2) by (auto simp: matches_opt_def filter_id_conv)
  then have "length (filter hit (jvals coll)) = length coll" by (simp del: filter_map)
  then show ?thesis using None assms(1) by (simp add: count_objects_def)
next
  case (Some m)
  then show ?thesis
    using assms count_matching_total [of "jvals coll" m hit]
    by (simp add: count_objects_def matches_opt_def)
qed

lemma delete_objects_total:
  assumes "jget db name = Some coll"
    "\<forall>o1 \<in> set (jvals coll). matches_opt (get_filter_matcher cv flt) o1 = Inr (hit o1)"
  shows "delete_objects cv name flt db =
    (Inr (length (filter hit (jvals coll))), jset name (filter (\<lambda>e. \<not> hit (snd e)) coll) db)"
proof (cases "get_filter_matcher cv flt")
  case None
  then have "filter (\<lambda>e. \<not> hit (snd e)) coll = []" "filter hit (jvals coll) = jvals coll"
    using assms(2) by (auto simp: matches_opt_def filter_id_conv filter_empty_conv)
  then show ?thesis using None assms(1) by (simp add: delete_objects_def del: filter_map)
next
  case (Some m)
  then show ?thesis
    using assms delete_matching_total [of coll m hit]
    by (simp add: delete_objects_def matches_opt_def)
qed

text \<open>C22: the ids under which the in-memory database keeps objects: after any sequence of its operations on
  an empty database, other than setting or deleting the property objectId itself, every object
  that \<open>findObjectById\<close> finds in a collection has the id it was looked up by, and no collection
  holds two objects with one id.\<close>

theorem objects_kept_under_ids:
  assumes "list_all keeps_ids ops" "db = fold db_step ops []" "jget db name = Some coll"
  shows "jwf coll \<and> (\<forall>i obj. find_object_by_id name i False db = Inr obj \<longrightarrow> obj \<noteq> JUndef \<longrightarrow> carries_id i obj) \<and>
    distinct (map object_id (jvals coll))"
proof -
  have "db_ok db0 \<Longrightarrow> list_all keeps_ids ops \<Longrightarrow> db_ok (fold db_step ops db0)" for db0
    by (induction ops arbitrary: db0) (auto simp: db_step_ok)
  moreover have "db_ok []" by (simp add: db_ok_def)
  ultimately have ok: "coll_ok coll" using assms db_ok_coll by blast
  then have "map object_id (jvals coll) = map Some (jkeys coll)"
    by (auto simp: coll_ok_def)
  then have "distinct (map object_id (jvals coll))"
    using ok by (simp only: distinct_map) (simp add: coll_ok_def distinct_map)
  moreover have "find_object_by_id name i False db = Inr obj \<Longrightarrow> obj \<noteq> JUndef \<Longrightarrow> carries_id i obj" for i obj
    using coll_ok_get [OF ok] assms(3) by (auto simp: find_object_by_id_def carries_id_def split: option.splits)
  ultimately show ?thesis using ok unfolding coll_ok_def by blast
qed

text \<open>C23: what is inserted is found: after valid objects are inserted in a collection, looking an id up
  finds a clone of the last inserted object with that id when existing objects are replaced, and
  otherwise the object stored before or, if there was none, a clone of the first one inserted; all
  other objects and collections are unchanged. The ids reported are those of the objects inserted.\<close>

theorem inserted_objects_found:
  assumes "jget db name = Some coll" "\<forall>obj \<in> set objs. is_object obj None"
  shows "\<exists>ids db'. insert_objects name objs replace db = (Inr ids, db') \<and>
    (\<forall>i. find_object_by_id name i False db' =
      Inr (case stored_after replace objs coll i of Some obj \<Rightarrow> obj | None \<Rightarrow> JUndef)) \<and>
    (\<forall>i. i \<in> set ids \<longleftrightarrow> list_ex (carries_id i) objs \<and> (replace \<or> \<not> jhas coll i)) \<and>
    (\<forall>other. other \<noteq> name \<longrightarrow> jget db' other = jget db other)"
  using insert_found_stored [OF assms, of replace] by (fastforce simp: find_object_by_id_def)

text \<open>C25: deleting the objects that match a filter reports the number that counting reports before, leaves
  exactly the objects that do not match, in their order and under their ids, leaves none to count,
  and does not touch other collections.\<close>

theorem deleted_by_filter:
  assumes "jget db name = Some coll"
    "\<forall>o1 \<in> set (jvals coll). matches_opt (get_filter_matcher cv flt) o1 = Inr (hit o1)"
  shows "\<exists>n db'. count_objects cv name flt db = Inr n \<and> delete_objects cv name flt db = (Inr n, db') \<and>
    jget db' name = Some (filter (\<lambda>e. \<not> hit (snd e)) coll) \<and>
    count_objects cv name flt db' = Inr 0 \<and>
    (\<forall>other. other \<noteq> name \<longrightarrow> jget db' other = jget db other)"
proof -
  let ?coll = "filter (\<lambda>e. \<not> hit (snd e)) coll" and ?n = "length (filter hit (jvals coll))"
  have "\<forall>o1 \<in> set (jvals ?coll). matches_opt (get_filter_matcher cv flt) o1 = Inr (hit o1)"
    using assms(2) by auto
  moreover have "filter hit (jvals ?coll) = []" by (auto simp: filter_empty_conv)
  ultimately have "count_objects cv name flt (jset name ?coll db) = Inr 0"
    using count_objects_total [of "jset name ?coll db" name ?coll cv flt hit] by simp
  then show ?thesis
    using count_objects_total [OF assms] delete_objects_total [OF assms] by auto
qed

section \<open>Joins that fail\<close>

text \<open>A query whose first hit lacks the array property of a join rejects with a TypeError: the loop
  over the property's elements reads the length of undefined; nothing is delivered.\<close>

theorem join_missing_array_rejects:
  assumes "jget db name = Some (e # coll)" "order_entries flt = []"
    "matches_opt (get_filter_matcher cv flt) (snd e) = Inr True"
    "num_or flt ''take'' max_safe_integer = Fin (of_nat (Suc l))" "num_or flt ''skip'' (Fin 0) = Fin 0"
    "jget db (jc_from jc) = Some from_coll" "jc_array jc" "get_prop (js_clone (snd e)) (jc_local jc) = JUndef"
  shows "find_objects cv name flt (jc # jcs) c db =
    (Inl (TypeError ''cannot read property length of undefined''), [])"
  using assms
  by (simp add: find_objects_def join_property_def loop_values_def new_run_def num_le_def)


section \<open>Concrete databases\<close>

definition machine :: "string \<Rightarrow> string \<Rightarrow> jsv" where
  "machine oid nm = jobj [(''objectId'', JStr oid), (''objectType'', JStr ''com.machine''),
     (''coreType'', JStr ''CoatyObject''), (''name'', JStr nm)]"

lemma machine_simps [simp]:
  "js_clone (machine oid nm) = machine oid nm" "object_id (machine oid nm) = Some oid"
  "machine oid nm \<noteq> JUndef" "machine oid nm \<noteq> JNull"
  by (simp_all add: machine_def object_id_def)

lemma machine_valid: "oid \<noteq> [] \<Longrightarrow> is_object (machine oid nm) None"
  unfolding is_object_None
  by (simp add: is_assignable.simps [of _ "''CoatyObject''"] machine_def
      is_object_base_def prop_opt_def is_core_type_def core_types_map_def core_type_names_def object_type_prefix_def
      proto_prop_def object_proto_names_def)

theorem inserted_objects_found_witness:
  "\<exists>ids db'. insert_objects ''m'' [machine ''1'' ''old'', machine ''1'' ''new''] True [(''m'', [])] = (Inr ids, db') \<and>
    find_object_by_id ''m'' ''1'' False db' = Inr (machine ''1'' ''new'')"
  using inserted_objects_found [of "[(''m'', [])]" "''m''" "[]" "[machine ''1'' ''old'', machine ''1'' ''new'']" True]
  by (fastforce simp: machine_valid stored_after_def carries_id_def)

definition machine_ops :: "db_op list" where
  "machine_ops = [AddCollection ''m'', InsertObjects ''m'' [machine ''1'' ''a'', machine ''2'' ''b''] False,
     UpdateProperty ''m'' [''1''] ''name'' (JStr ''c'') False, DeleteById ''m'' [''2'']]"

lemma machine_db: "fold db_step machine_ops [] = [(''m'', [(''1'', machine ''1'' ''c'')])]"
proof -
  have "core_clone (machine ''1'' ''a'') False = Inr (machine ''1'' ''a'')"
    "core_clone (machine ''2'' ''b'') False = Inr (machine ''2'' ''b'')"
    by (simp_all add: core_clone_def machine_valid)
  then have "db_step (InsertObjects ''m'' [machine ''1'' ''a'', machine ''2'' ''b''] False) [(''m'', [])] =
      [(''m'', [(''1'', machine ''1'' ''a''), (''2'', machine ''2'' ''b'')])]"
    by (simp add: insert_objects_def put_object_def coll_has_def jhas_def)
  then show ?thesis
    by (simp add: machine_ops_def add_collection_def update_object_property_def delete_objects_by_id_def
        jhas_def jdel_def machine_def)
qed

theorem objects_kept_under_ids_witness:
  "list_all keeps_ids machine_ops \<and> carries_id ''1'' (machine ''1'' ''c'') \<and>
    find_object_by_id ''m'' ''1'' False (fold db_step machine_ops []) = Inr (machine ''1'' ''c'')"
proof -
  have ops: "list_all keeps_ids machine_ops" by (simp add: machine_ops_def)
  have f: "find_object_by_id ''m'' ''1'' False (fold db_step machine_ops []) = Inr (machine ''1'' ''c'')"
    by (simp add: machine_db find_object_by_id_def)
  show ?thesis
    using objects_kept_under_ids [OF ops refl, of "''m''" "[(''1'', machine ''1'' ''c'')]"] ops f
    by (simp add: machine_db)
qed

text \<open>The join condition names a property that the machine lacks.\<close>

definition parts_join :: join_condition where
  "parts_join = \<lparr>jc_from = ''m'', jc_local = ''parts'', jc_from_prop = ''objectId'', jc_as = ''partObjects'',
     jc_array = True, jc_one = False\<rparr>"

theorem join_missing_array_rejects_witness:
  "find_objects sample_conv ''m'' (jobj [(''take'', jint 5)]) [parts_join] (ForEach (\<lambda>p i. True))
    [(''m'', [(''1'', machine ''1'' ''a'')])] =
    (Inl (TypeError ''cannot read property length of undefined''), [])"
proof -
  have "get_prop (js_clone (machine ''1'' ''a'')) ''parts'' = JUndef"
    by (simp add: machine_def proto_prop_def object_proto_names_def)
  then show ?thesis
    using join_missing_array_rejects [of "[(''m'', [(''1'', machine ''1'' ''a'')])]" "''m''" "(''1'', machine ''1'' ''a'')"
        "[]" "jobj [(''take'', jint 5)]" sample_conv 4 parts_join]
    by (simp add: order_entries_def get_filter_matcher_def matches_opt_def num_or_def parts_join_def
        proto_prop_def object_proto_names_def)
qed

definition with_n :: jsv where
  "with_n = jobj [(''conditions'', JArr [JStr ''n'', op_expr Exists []])]"

theorem deleted_by_filter_witness:
  "\<exists>n db'. delete_objects sample_conv ''m'' with_n [(''m'', [(''1'', machine ''1'' ''a''), (''5'', jobj [(''n'', jint 5)])])] =
      (Inr n, db') \<and>
    count_objects sample_conv ''m'' with_n db' = Inr 0 \<and> jget db' ''m'' = Some [(''1'', machine ''1'' ''a'')]"
proof -
  let ?coll = "[(''1'', machine ''1'' ''a''), (''5'', jobj [(''n'', jint 5)])]"
  have "\<forall>o1 \<in> set (jvals ?coll). matches_opt (get_filter_matcher sample_conv with_n) o1 = Inr (get_prop o1 ''n'' \<noteq> JUndef)"
    by (simp add: matches_opt_def get_filter_matcher_def with_n_def matches_filter_def matches_condition_def
        get_filter_property_value_def get_filter_properties_def prop_step_def machine_def proto_prop_def
        object_proto_names_def match_op_def Let_def
        op_expr_def)
  from deleted_by_filter [OF _ this, of "[(''m'', ?coll)]" "''m''"] show ?thesis
    by (auto simp: machine_def proto_prop_def object_proto_names_def)
qed

end
