(* ===== verification/IoRouting.thy ===== *)
theory IoRouting
  imports EventData
begin

text \<open>
  The IO routers, \<open>src/src/io-routing/io-router.ts\<close> and \<open>rule-based-io-router.ts\<close>: the IO nodes of the
  router's IO context that are advertised, resolved and deadvertised, the routes of IO sources, and the
  association rules by which the router associates and disassociates IO sources and IO actors.

  An operation yields the error it throws, if any, with the state, since what was changed before an
  error stays. What the router publishes is collected in \<open>ro_out\<close>. The nodes have passed the
  validators of the events that carry them: ids and value types are strings, update rates are
  numbers, but the arrays of sources and actors may be missing. The function that creates a route for
  a source, \<open>createAssociatingRoute\<close> of the communication manager, is a parameter; rule conditions
  are functions of the application, which do not read the router.
\<close>

section \<open>State\<close>

type_synonym rule_condition = "jsv \<Rightarrow> jsv \<Rightarrow> jsv \<Rightarrow> jsv \<Rightarrow> jsv \<Rightarrow> js_error + bool"

record association_rule =
  ar_name :: string
  ar_value_type :: "string option"
  ar_condition :: "rule_condition option"

type_synonym association_info = "jsv \<times> jsv \<times> jsnum option"
type_synonym association_pairs = "(string, (string, association_info) jmap) jmap"
type_synonym compatible_association = "jsv \<times> jsv \<times> jsv \<times> jsv"

datatype router_out =
    PublishAssociate jsv associate_data
  | AdvertiseIoContext jsv
  | DiscoverIoNodes
  | ResolveIoContext jsv
  | CompleteIoContext jsv

record io_router =
  ro_context :: jsv
  ro_nodes :: "(string, jsv) jmap"
  ro_routes :: "(string, string \<times> bool) jmap"
  ro_current :: "association_info list"
  ro_rules :: "(string, association_rule list) jmap"
  ro_out :: "router_out list"

definition router_init :: "string \<Rightarrow> jsv \<Rightarrow> js_error + io_router" where
  "router_init identityId ioContext =
    (if \<not> truthy ioContext then Inl (Error ''no IO context configured for IO router'')
     else Inr \<lparr>ro_context = set_prop ''parentObjectId'' (JStr identityId) ioContext, ro_nodes = [],
       ro_routes = [], ro_current = [], ro_rules = [], ro_out = []\<rparr>)"

definition publish_out :: "router_out list \<Rightarrow> io_router \<Rightarrow> io_router" where
  "publish_out os r = r\<lparr>ro_out := ro_out r @ os\<rparr>"

section \<open>IO points\<close>

definition point_id :: "jsv \<Rightarrow> string" where
  "point_id p = (case get_prop p ''objectId'' of JStr i \<Rightarrow> i | _ \<Rightarrow> [])"

definition value_type :: "jsv \<Rightarrow> string" where
  "value_type p = (case get_prop p ''valueType'' of JStr t \<Rightarrow> t | _ \<Rightarrow> [])"

definition point_rate :: "jsv \<Rightarrow> jsnum option" where
  "point_rate p = (case get_prop p ''updateRate'' of JNum n \<Rightarrow> Some n | _ \<Rightarrow> None)"

definition rate_value :: "jsnum option \<Rightarrow> jsv" where
  "rate_value rate = (case rate of None \<Rightarrow> JUndef | Some n \<Rightarrow> JNum n)"

text \<open>The array a \<open>forEach\<close> or \<open>some\<close> is called on.\<close>

definition elements_of :: "jsv \<Rightarrow> js_error + jsv list" where
  "elements_of v =
    (case v of
       JArr xs \<Rightarrow> Inr xs
     | JUndef \<Rightarrow> Inl (TypeError ''cannot read property forEach of undefined'')
     | JNull \<Rightarrow> Inl (TypeError ''cannot read property forEach of null'')
     | _ \<Rightarrow> Inl (TypeError ''not a function''))"

definition are_value_types_compatible :: "jsv \<Rightarrow> jsv \<Rightarrow> bool" where
  "are_value_types_compatible source actor =
    (value_type source = value_type actor \<and>
     truthy (get_prop source ''useRawIoValues'') = truthy (get_prop actor ''useRawIoValues''))"

section \<open>Associating\<close>

definition associate_event :: "jsv \<Rightarrow> jsv \<Rightarrow> jsv \<Rightarrow> jsv \<Rightarrow> jsv \<Rightarrow> associate_data" where
  "associate_event source actor route isExternal rate =
    \<lparr>as_source = JStr (point_id source), as_actor = JStr (point_id actor), as_route = route,
     as_external = isExternal, as_rate = rate\<rparr>"

definition source_route :: "(string \<Rightarrow> string) \<Rightarrow> jsv \<Rightarrow> io_router \<Rightarrow> string \<times> bool" where
  "source_route create_route source r =
    (case jget (ro_routes r) (point_id source) of
       Some route \<Rightarrow> route
     | None \<Rightarrow>
         (case get_prop source ''externalRoute'' of
            JStr (c # cs) \<Rightarrow> (c # cs, True)
          | _ \<Rightarrow> (create_route (point_id source), False)))"

definition router_associate ::
  "(string \<Rightarrow> string) \<Rightarrow> jsv \<Rightarrow> jsv \<Rightarrow> jsnum option \<Rightarrow> io_router \<Rightarrow> io_router" where
  "router_associate create_route source actor updateRate r =
    (let route = source_route create_route source r
     in publish_out [PublishAssociate (get_prop (ro_context r) ''name'')
            (associate_event source actor (JStr (fst route)) (JBool (snd route)) (rate_value updateRate))]
          (if jhas (ro_routes r) (point_id source) then r
           else r\<lparr>ro_routes := jset (point_id source) route (ro_routes r)\<rparr>))"

definition router_disassociate :: "jsv \<Rightarrow> jsv \<Rightarrow> io_router \<Rightarrow> io_router" where
  "router_disassociate source actor r =
    publish_out [PublishAssociate (get_prop (ro_context r) ''name'')
      (associate_event source actor JUndef JUndef JUndef)] r"

section \<open>Evaluating rules\<close>

type_synonym owned = "(string, jsv \<times> jsv) jmap"

definition own_points :: "jsv \<Rightarrow> jsv list \<Rightarrow> owned \<Rightarrow> owned" where
  "own_points node points m = fold (\<lambda>p. jset (point_id p) (p, node)) points m"

fun collect_points :: "jsv list \<Rightarrow> owned \<times> owned \<Rightarrow> js_error + owned \<times> owned" where
  "collect_points [] state = Inr state"
| "collect_points (node # nodes) (sources, actors) =
    rbind (elements_of (get_prop node ''ioSources'')) (\<lambda>ss.
      rbind (elements_of (get_prop node ''ioActors'')) (\<lambda>as.
        collect_points nodes (own_points node ss sources, own_points node as actors)))"

definition compatible_pairs :: "owned \<times> owned \<Rightarrow> compatible_association list" where
  "compatible_pairs state =
    concat (map (\<lambda>(source, sourceNode).
      map (\<lambda>(actor, actorNode). (source, sourceNode, actor, actorNode))
        (filter (\<lambda>(actor, actorNode). are_value_types_compatible source actor) (jvals (snd state))))
      (jvals (fst state)))"

definition get_compatible_associations :: "io_router \<Rightarrow> js_error + compatible_association list" where
  "get_compatible_associations r =
    rbind (collect_points (jvals (ro_nodes r)) ([], [])) (\<lambda>state. Inr (compatible_pairs state))"

definition compute_cumulated_update_rate :: "jsnum option \<Rightarrow> jsnum option \<Rightarrow> jsnum option" where
  "compute_cumulated_update_rate rate1 rate2 =
    (case rate1 of
       Some r1 \<Rightarrow> (case rate2 of Some r2 \<Rightarrow> Some (num_max r2 r1) | None \<Rightarrow> Some r1)
     | None \<Rightarrow> rate2)"

definition rules_for :: "(string, association_rule list) jmap \<Rightarrow> string \<Rightarrow> association_rule list option" where
  "rules_for rules valueType =
    (case jget rules valueType of Some rs \<Rightarrow> Some rs | None \<Rightarrow> jget rules [])"

text \<open>A condition that throws is logged and does not match.\<close>

definition rule_matches :: "jsv \<Rightarrow> compatible_association \<Rightarrow> association_rule \<Rightarrow> bool" where
  "rule_matches context ca rule =
    (case ca of (source, sourceNode, actor, actorNode) \<Rightarrow>
       (case ar_condition rule of
          None \<Rightarrow> False
        | Some cond \<Rightarrow>
            (case cond source sourceNode actor actorNode context of Inl e \<Rightarrow> False | Inr b \<Rightarrow> b)))"

definition ca_matches ::
  "(string, association_rule list) jmap \<Rightarrow> jsv \<Rightarrow> compatible_association \<Rightarrow> bool" where
  "ca_matches rules context ca =
    (case rules_for rules (value_type (fst ca)) of
       None \<Rightarrow> False
     | Some rs \<Rightarrow> list_ex (rule_matches context ca) rs)"

definition add_pair :: "compatible_association \<Rightarrow> association_pairs \<Rightarrow> association_pairs" where
  "add_pair ca pairs =
    (case ca of (source, sourceNode, actor, actorNode) \<Rightarrow>
       (let actors = (case jget pairs (point_id source) of None \<Rightarrow> [] | Some actors \<Rightarrow> actors);
            rate = compute_cumulated_update_rate (point_rate source) (point_rate actor)
        in jset (point_id source) (jset (point_id actor) (source, actor, rate) actors) pairs))"

definition match_rules ::
  "(string, association_rule list) jmap \<Rightarrow> jsv \<Rightarrow> compatible_association list \<Rightarrow> association_pairs" where
  "match_rules rules context cas =
    fold (\<lambda>ca pairs. if ca_matches rules context ca then add_pair ca pairs else pairs) cas []"

definition resolve_rates :: "association_pairs \<Rightarrow> association_pairs" where
  "resolve_rates pairs =
    map (\<lambda>(sourceId, actors).
      (let cumulated = fold (\<lambda>info. compute_cumulated_update_rate (snd (snd info))) (jvals actors) None
       in (sourceId, map (\<lambda>(actorId, (source, actor, rate)). (actorId, (source, actor, cumulated))) actors)))
      pairs"

text \<open>\<open>!==\<close> on rates.\<close>

definition rate_differs :: "jsnum option \<Rightarrow> jsnum option \<Rightarrow> bool" where
  "rate_differs a b = (\<not> strict_eq (rate_value a) (rate_value b))"

definition remove_pair :: "string \<Rightarrow> string \<Rightarrow> association_pairs \<Rightarrow> association_pairs" where
  "remove_pair sourceId actorId pairs =
    (case jget pairs sourceId of
       None \<Rightarrow> pairs
     | Some actors \<Rightarrow>
         (let actors' = jdel actorId actors
          in if actors' = [] then jdel sourceId pairs else jset sourceId actors' pairs))"

fun act_current ::
  "(string \<Rightarrow> string) \<Rightarrow> association_info list \<Rightarrow> association_pairs \<times> association_info list \<times> io_router
    \<Rightarrow> association_pairs \<times> association_info list \<times> io_router" where
  "act_current create_route [] state = state"
| "act_current create_route ((source, actor, rate) # infos) (pairs, new, r) =
    (case (case jget pairs (point_id source) of None \<Rightarrow> None | Some actors \<Rightarrow> jget actors (point_id actor)) of
       None \<Rightarrow> act_current create_route infos (pairs, new, router_disassociate source actor r)
     | Some (resolvedSrc, resolvedAct, resolvedRate) \<Rightarrow>
         act_current create_route infos
           (remove_pair (point_id source) (point_id actor) pairs,
            new @ [(resolvedSrc, resolvedAct, resolvedRate)],
            (if rate_differs resolvedRate rate
             then router_associate create_route resolvedSrc resolvedAct resolvedRate r else r)))"

definition act_on_pairs :: "(string \<Rightarrow> string) \<Rightarrow> association_pairs \<Rightarrow> io_router \<Rightarrow> io_router" where
  "act_on_pairs create_route resolvedPairs r =
    (let (pairs, new, r1) = act_current create_route (ro_current r) (resolvedPairs, [], r);
         added = concat (map jvals (jvals pairs));
         r2 = fold (\<lambda>(src, actor, rate). router_associate create_route src actor rate) added r1
     in r2\<lparr>ro_current := new @ added\<rparr>)"

definition evaluate_rules :: "(string \<Rightarrow> string) \<Rightarrow> io_router \<Rightarrow> js_error option \<times> io_router" where
  "evaluate_rules create_route r =
    (case get_compatible_associations r of
       Inl e \<Rightarrow> (Some e, r)
     | Inr cas \<Rightarrow>
         (None, act_on_pairs create_route
            (resolve_rates (match_rules (ro_rules r) (ro_context r) cas)) r))"

definition add_rule ::
  "association_rule \<Rightarrow> (string, association_rule list) jmap \<Rightarrow> (string, association_rule list) jmap" where
  "add_rule rule rules =
    (if ar_condition rule = None then rules
     else
       (let valueType = (case ar_value_type rule of None \<Rightarrow> [] | Some t \<Rightarrow> t);
            vRules = (case jget rules valueType of None \<Rightarrow> [] | Some rs \<Rightarrow> rs)
        in jset valueType (vRules @ [rule]) rules))"

definition define_rules ::
  "(string \<Rightarrow> string) \<Rightarrow> association_rule list \<Rightarrow> io_router \<Rightarrow> js_error option \<times> io_router" where
  "define_rules create_route rules r =
    evaluate_rules create_route (r\<lparr>ro_rules := fold add_rule rules []\<rparr>)"


section \<open>Managing IO nodes\<close>

text \<open>The routes of the sources of a node that is no longer managed are dropped, unless the source
  exists in the readvertised node.\<close>

definition keeps_source :: "string \<Rightarrow> jsv list \<Rightarrow> bool" where
  "keeps_source sourceId points = list_ex (\<lambda>p. point_id p = sourceId) points"

fun drop_routes :: "jsv option \<Rightarrow> jsv list \<Rightarrow> io_router \<Rightarrow> js_error option \<times> io_router" where
  "drop_routes readvertised [] r = (None, r)"
| "drop_routes readvertised (point # points) r =
    (case readvertised of
       None \<Rightarrow> drop_routes readvertised points (r\<lparr>ro_routes := jdel (point_id point) (ro_routes r)\<rparr>)
     | Some node \<Rightarrow>
         (case elements_of (get_prop node ''ioSources'') of
            Inl e \<Rightarrow> (Some e, r)
          | Inr sources \<Rightarrow>
              drop_routes readvertised points
                (if keeps_source (point_id point) sources then r
                 else r\<lparr>ro_routes := jdel (point_id point) (ro_routes r)\<rparr>)))"

fun deregister_nodes ::
  "jsv option \<Rightarrow> string list \<Rightarrow> jsv list \<Rightarrow> io_router \<Rightarrow> js_error option \<times> jsv list \<times> io_router" where
  "deregister_nodes readvertised [] deregistered r = (None, deregistered, r)"
| "deregister_nodes readvertised (i # ids) deregistered r =
    (case jget (ro_nodes r) i of
       None \<Rightarrow> deregister_nodes readvertised ids deregistered r
     | Some node \<Rightarrow>
         (let r1 = r\<lparr>ro_nodes := jdel i (ro_nodes r)\<rparr>
          in case elements_of (get_prop node ''ioSources'') of
               Inl e \<Rightarrow> (Some e, deregistered, r1)
             | Inr points \<Rightarrow>
                 (case drop_routes readvertised points r1 of
                    (Some e, r2) \<Rightarrow> (Some e, deregistered, r2)
                  | (None, r2) \<Rightarrow>
                      deregister_nodes readvertised ids
                        (if readvertised = None then deregistered @ [node] else deregistered) r2)))"

definition io_nodes_deadvertised ::
  "(string \<Rightarrow> string) \<Rightarrow> string list \<Rightarrow> jsv option \<Rightarrow> io_router \<Rightarrow> js_error option \<times> io_router" where
  "io_nodes_deadvertised create_route objectIds readvertised r =
    (case deregister_nodes readvertised objectIds [] r of
       (Some e, deregistered, r1) \<Rightarrow> (Some e, r1)
     | (None, deregistered, r1) \<Rightarrow>
         (if deregistered \<noteq> [] then evaluate_rules create_route r1 else (None, r1)))"

definition no_points :: "jsv \<Rightarrow> bool" where
  "no_points v = (v = JUndef \<or> v = JArr [])"

definition io_node_advertised :: "(string \<Rightarrow> string) \<Rightarrow> jsv \<Rightarrow> io_router \<Rightarrow> js_error option \<times> io_router"
  where
  "io_node_advertised create_route node r =
    (let isDeadvertise = no_points (get_prop node ''ioSources'') \<and> no_points (get_prop node ''ioActors'')
     in case io_nodes_deadvertised create_route [point_id node] (if isDeadvertise then None else Some node) r of
          (Some e, r1) \<Rightarrow> (Some e, r1)
        | (None, r1) \<Rightarrow>
            (if isDeadvertise then (None, r1)
             else evaluate_rules create_route
                    (r1\<lparr>ro_nodes := jset (point_id node) node (ro_nodes r1)\<rparr>)))"

section \<open>The router as a controller\<close>

definition in_context :: "jsv \<Rightarrow> io_router \<Rightarrow> bool" where
  "in_context obj r =
    (obj \<noteq> JUndef \<and> strict_eq (get_prop obj ''name'') (get_prop (ro_context r) ''name''))"

definition on_io_context_changed :: "(string \<Rightarrow> string) \<Rightarrow> io_router \<Rightarrow> js_error option \<times> io_router" where
  "on_io_context_changed create_route r =
    evaluate_rules create_route (publish_out [AdvertiseIoContext (ro_context r)] r)"

definition on_starting ::
  "(string \<Rightarrow> string) \<Rightarrow> association_rule list option \<Rightarrow> io_router \<Rightarrow> js_error option \<times> io_router" where
  "on_starting create_route rulesOption r =
    (let r1 = publish_out [DiscoverIoNodes] r
     in case (case rulesOption of None \<Rightarrow> (None, r1) | Some rules \<Rightarrow> define_rules create_route rules r1) of
          (Some e, r2) \<Rightarrow> (Some e, r2)
        | (None, r2) \<Rightarrow> on_io_context_changed create_route r2)"

definition on_stopped :: "io_router \<Rightarrow> io_router" where
  "on_stopped r =
    (fold (\<lambda>(source, actor, rate). router_disassociate source actor) (ro_current r) r)\<lparr>ro_current := []\<rparr>"

definition on_stopping :: "io_router \<Rightarrow> io_router" where
  "on_stopping r = (on_stopped r)\<lparr>ro_nodes := [], ro_routes := []\<rparr>"

text \<open>The tests of the observers for Discover and Update events; core and object type of an IO context
  are strings.\<close>

definition str_of :: "jsv \<Rightarrow> string" where
  "str_of v = (case v of JStr s \<Rightarrow> s | _ \<Rightarrow> [])"

definition discovers_io_context :: "discover_data \<Rightarrow> io_router \<Rightarrow> bool" where
  "discovers_io_context d r =
    ((is_discovering_types d \<and>
       is_core_type_compatible (ds_core_types d) (str_of (get_prop (ro_context r) ''coreType''))) \<or>
     (is_discovering_types d \<and>
       is_core_type_compatible (ds_object_types d) (str_of (get_prop (ro_context r) ''objectType''))) \<or>
     (is_discovering_object_id d \<and>
       strict_eq (ds_object_id d) (get_prop (ro_context r) ''objectId'')))"

definition update_io_context ::
  "(string \<Rightarrow> string) \<Rightarrow> string \<Rightarrow> jsv \<Rightarrow> io_router \<Rightarrow> js_error option \<times> io_router" where
  "update_io_context create_route identityId obj r =
    (if \<not> strict_eq (get_prop obj ''objectId'') (get_prop (ro_context r) ''objectId'') then (None, r)
     else
       (let ctx = set_prop ''parentObjectId'' (JStr identityId) obj
        in case on_io_context_changed create_route (r\<lparr>ro_context := ctx\<rparr>) of
             (Some e, r1) \<Rightarrow> (Some e, r1)
           | (None, r1) \<Rightarrow> (None, publish_out [CompleteIoContext (ro_context r1)] r1)))"

text \<open>The events a started router handles, the calls of the application and of the container.\<close>

datatype router_event =
    IoNodeAdvertised jsv
  | IoNodesDeadvertised "string list"
  | IoContextDiscovered discover_data
  | IoContextUpdated jsv
  | RulesDefined "association_rule list"
  | Starting "association_rule list option"
  | Stopping

fun router_step ::
  "(string \<Rightarrow> string) \<Rightarrow> string \<Rightarrow> router_event \<Rightarrow> io_router \<Rightarrow> js_error option \<times> io_router" where
  "router_step create_route identityId (IoNodeAdvertised obj) r =
    (if in_context obj r then io_node_advertised create_route obj r else (None, r))"
| "router_step create_route identityId (IoNodesDeadvertised ids) r =
    io_nodes_deadvertised create_route ids None r"
| "router_step create_route identityId (IoContextDiscovered d) r =
    (None, if discovers_io_context d r then publish_out [ResolveIoContext (ro_context r)] r else r)"
| "router_step create_route identityId (IoContextUpdated obj) r =
    update_io_context create_route identityId obj r"
| "router_step create_route identityId (RulesDefined rules) r = define_rules create_route rules r"
| "router_step create_route identityId (Starting rules) r = on_starting create_route rules r"
| "router_step create_route identityId Stopping r = (None, on_stopping r)"

end
