(* ===== verification/IoRoutingInv.thy ===== *)
theory IoRoutingInv
  imports IoRouting
begin

text \<open>
  Lemmas on the rule-based IO router: association pairs as a partial function, the associations that its
  publications establish, what its rules prescribe for the nodes it manages, and that every step keeps
  the two the same.
\<close>

section \<open>Association pairs as a partial function\<close>

definition pair_of :: "association_pairs \<Rightarrow> string \<Rightarrow> string \<Rightarrow> association_info option" where
  "pair_of pairs s a = (case jget pairs s of None \<Rightarrow> None | Some actors \<Rightarrow> jget actors a)"

definition info_key :: "association_info \<Rightarrow> string \<times> string" where
  "info_key info = (point_id (fst info), point_id (fst (snd info)))"

definition pairs_ok :: "association_pairs \<Rightarrow> bool" where
  "pairs_ok pairs = (jwf pairs \<and> (\<forall>(s, actors) \<in> set pairs. jwf actors \<and>
     (\<forall>(a, info) \<in> set actors. info_key info = (s, a))))"

lemma pairs_ok_inner: "pairs_ok pairs \<Longrightarrow> jget pairs s = Some actors \<Longrightarrow> jwf actors"
  by (auto simp: pairs_ok_def dest: map_of_SomeD)

lemma pairs_ok_key: "pairs_ok pairs \<Longrightarrow> pair_of pairs s a = Some info \<Longrightarrow> info_key info = (s, a)"
  by (fastforce simp: pairs_ok_def pair_of_def dest!: map_of_SomeD split: option.splits)

lemma pairs_ok_jset:
  "pairs_ok pairs \<Longrightarrow> jwf actors \<Longrightarrow> \<forall>(a, info) \<in> set actors. info_key info = (s, a) \<Longrightarrow>
    pairs_ok (jset s actors pairs)"
  by (auto simp: pairs_ok_def set_jset)

lemma pairs_ok_jdel: "pairs_ok pairs \<Longrightarrow> pairs_ok (jdel s pairs)"
  by (auto simp: pairs_ok_def jdel_def distinct_map_filter)

lemma pairs_ok_remove: "pairs_ok pairs \<Longrightarrow> pairs_ok (remove_pair s a pairs)"
proof (cases "jget pairs s")
  case (Some actors)
  assume ok: "pairs_ok pairs"
  then have "jwf (jdel a actors)" "\<forall>(a', info) \<in> set (jdel a actors). info_key info = (s, a')"
    using Some by (auto simp: pairs_ok_def jdel_def distinct_map_filter dest!: map_of_SomeD)
  then show ?thesis
    using Some ok by (simp add: remove_pair_def Let_def pairs_ok_jset pairs_ok_jdel)
qed (simp add: remove_pair_def)

lemma pair_of_remove:
  "pair_of (remove_pair s a pairs) s' a' = (if s' = s \<and> a' = a then None else pair_of pairs s' a')"
proof (cases "jget pairs s")
  case (Some actors)
  have "jget (jdel a actors) a' = (if a' = a then None else jget actors a')" by simp
  then have "jdel a actors = [] \<Longrightarrow> a' \<noteq> a \<Longrightarrow> jget actors a' = None" by simp
  then show ?thesis using Some by (auto simp: pair_of_def remove_pair_def Let_def)
qed (auto simp: pair_of_def remove_pair_def)

text \<open>The pairs in the order of the maps.\<close>

definition all_pairs :: "association_pairs \<Rightarrow> association_info list" where
  "all_pairs pairs = concat (map jvals (jvals pairs))"

lemma set_all_pairs:
  assumes "pairs_ok pairs"
  shows "info \<in> set (all_pairs pairs) \<longleftrightarrow> pair_of pairs (fst (info_key info)) (snd (info_key info)) = Some info"
proof
  assume "info \<in> set (all_pairs pairs)"
  then obtain s actors a where m: "(s, actors) \<in> set pairs" "(a, info) \<in> set actors"
    by (auto simp: all_pairs_def)
  then have "info_key info = (s, a)" "jwf actors" "jwf pairs" using assms by (auto simp: pairs_ok_def)
  then show "pair_of pairs (fst (info_key info)) (snd (info_key info)) = Some info"
    using m by (simp add: pair_of_def)
next
  assume "pair_of pairs (fst (info_key info)) (snd (info_key info)) = Some info"
  then obtain actors where "jget pairs (fst (info_key info)) = Some actors"
    "jget actors (snd (info_key info)) = Some info"
    by (auto simp: pair_of_def split: option.splits)
  then have "actors \<in> set (jvals pairs)" "info \<in> set (jvals actors)"
    by (force dest: map_of_SomeD)+
  then show "info \<in> set (all_pairs pairs)" by (auto simp: all_pairs_def)
qed

lemma distinct_concat_keys:
  assumes "distinct (map h xs)" "\<And>x. x \<in> set xs \<Longrightarrow> distinct (map f (g x))"
    "\<And>x y. x \<in> set xs \<Longrightarrow> y \<in> set (g x) \<Longrightarrow> fst (f y) = h x"
  shows "distinct (map f (concat (map g xs)))"
  using assms
proof (induction xs)
  case (Cons x xs)
  have "f ` set (g x) \<inter> f ` set (concat (map g xs)) = {}"
  proof (rule ccontr)
    assume "f ` set (g x) \<inter> f ` set (concat (map g xs)) \<noteq> {}"
    then obtain k where k: "k \<in> f ` set (g x)" "k \<in> f ` set (concat (map g xs))" by blast
    then obtain y where "y \<in> set (g x)" "f y = k" by blast
    moreover obtain x' y' where "x' \<in> set xs" "y' \<in> set (g x')" "f y' = k" using k(2) by auto
    ultimately have "h x = h x'" using Cons.prems(3) by (metis list.set_intros(1,2))
    then show False using Cons.prems(1) \<open>x' \<in> set xs\<close> by simp
  qed
  moreover have "distinct (map f (concat (map g xs)))" using Cons by simp
  moreover have "distinct (map f (g x))" using Cons.prems(2) by simp
  ultimately show ?case by (simp only: list.map concat.simps map_append distinct_append set_map)
qed simp

lemma distinct_all_pairs:
  assumes "pairs_ok pairs"
  shows "distinct (map info_key (all_pairs pairs))"
proof -
  have "distinct (map info_key (concat (map (\<lambda>e. jvals (snd e)) pairs)))"
  proof (rule distinct_concat_keys [where h = fst])
    show "jwf pairs" using assms by (simp add: pairs_ok_def)
    fix e assume e: "e \<in> set pairs"
    have "case e of (s, actors) \<Rightarrow> jwf actors \<and> (\<forall>(a, info) \<in> set actors. info_key info = (s, a))"
      using assms e unfolding pairs_ok_def by blast
    then have ok: "jwf (snd e)" "\<forall>(a, info) \<in> set (snd e). info_key info = (fst e, a)"
      by (simp_all add: case_prod_beta)
    have "map info_key (jvals (snd e)) = map (\<lambda>a. (fst e, a)) (jkeys (snd e))" using ok(2) by auto
    then show "distinct (map info_key (jvals (snd e)))" using ok(1) by (simp add: distinct_map inj_on_def)
    show "info \<in> set (jvals (snd e)) \<Longrightarrow> fst (info_key info) = fst e" for info using ok(2) by auto
  qed
  then show ?thesis by (simp add: all_pairs_def comp_def)
qed

section \<open>The associations established by what was published\<close>

type_synonym association_table = "string \<times> string \<Rightarrow> (jsv \<times> jsv) option"

fun apply_out :: "router_out \<Rightarrow> association_table \<Rightarrow> association_table" where
  "apply_out (PublishAssociate ctx d) t =
    (let k = (str_of (as_source d), str_of (as_actor d))
     in if as_route d = JUndef then t(k := None) else t(k \<mapsto> (as_route d, as_rate d)))"
| "apply_out _ t = t"

definition established :: "router_out list \<Rightarrow> association_table" where
  "established os = fold apply_out os Map.empty"

definition rates :: "io_router \<Rightarrow> string \<times> string \<Rightarrow> jsv option" where
  "rates r k = map_option snd (established (ro_out r) k)"

definition info_rate :: "association_info \<Rightarrow> jsv" where
  "info_rate info = rate_value (snd (snd info))"

lemma str_of_JStr [simp]: "str_of (JStr s) = s"
  by (simp add: str_of_def)

lemma established_append [simp]: "established (os @ os') = fold apply_out os' (established os)"
  by (simp add: established_def)

lemma rates_associate [simp]:
  "rates (router_associate cr src act rate r) = (rates r)((point_id src, point_id act) \<mapsto> rate_value rate)"
  by (rule ext) (simp add: rates_def router_associate_def publish_out_def Let_def associate_event_def)

lemma rates_disassociate [simp]:
  "rates (router_disassociate src act r) = (rates r)((point_id src, point_id act) := None)"
  by (rule ext) (simp add: rates_def router_disassociate_def publish_out_def Let_def associate_event_def)

lemma rates_publish [simp]:
  "\<forall>o1 \<in> set os. \<forall>c d. o1 \<noteq> PublishAssociate c d \<Longrightarrow> rates (publish_out os r) = rates r"
proof -
  assume "\<forall>o1 \<in> set os. \<forall>c d. o1 \<noteq> PublishAssociate c d"
  then have "fold apply_out os t = t" for t
    by (induction os) (auto, metis apply_out.simps(2-5) router_out.exhaust)
  then show ?thesis by (simp add: rates_def publish_out_def fun_eq_iff)
qed

lemma router_fields [simp]:
  "ro_nodes (router_associate cr src act rate r) = ro_nodes r"
  "ro_rules (router_associate cr src act rate r) = ro_rules r"
  "ro_context (router_associate cr src act rate r) = ro_context r"
  "ro_current (router_associate cr src act rate r) = ro_current r"
  "ro_nodes (router_disassociate src act r) = ro_nodes r"
  "ro_rules (router_disassociate src act r) = ro_rules r"
  "ro_context (router_disassociate src act r) = ro_context r"
  "ro_current (router_disassociate src act r) = ro_current r"
  "ro_nodes (publish_out os r) = ro_nodes r" "ro_rules (publish_out os r) = ro_rules r"
  "ro_context (publish_out os r) = ro_context r" "ro_current (publish_out os r) = ro_current r"
  "ro_routes (publish_out os r) = ro_routes r"
  by (simp_all add: router_associate_def router_disassociate_def publish_out_def Let_def)

lemma rates_cong: "ro_out r = ro_out r' \<Longrightarrow> rates r = rates r'"
  by (simp add: rates_def fun_eq_iff)

definition table_of :: "association_info list \<Rightarrow> string \<times> string \<Rightarrow> jsv option" where
  "table_of infos = map_of (map (\<lambda>i. (info_key i, info_rate i)) infos)"

section \<open>Acting on resolved pairs\<close>

definition kept_pairs :: "association_pairs \<Rightarrow> association_info list \<Rightarrow> association_info list" where
  "kept_pairs pairs cur =
    List.map_filter (\<lambda>i. pair_of pairs (fst (info_key i)) (snd (info_key i))) cur"

lemma rate_differs_iff: "\<not> rate_differs a b \<Longrightarrow> rate_value a = rate_value b"
  by (auto simp: rate_differs_def dest: strict_eq_imp)

lemma kept_pairs_cong:
  "\<forall>i \<in> set cur. pair_of pairs (fst (info_key i)) (snd (info_key i)) =
      pair_of pairs' (fst (info_key i)) (snd (info_key i)) \<Longrightarrow> kept_pairs pairs cur = kept_pairs pairs' cur"
  by (induction cur) (auto simp: kept_pairs_def List.map_filter_def)

lemma act_current_spec:
  assumes "pairs_ok pairs" "distinct (map info_key cur)" "\<forall>i \<in> set cur. rates r (info_key i) = Some (info_rate i)"
    "act_current cr cur (pairs, new, r) = (pairs', new', r')"
  shows "pairs_ok pairs' \<and> new' = new @ kept_pairs pairs cur \<and>
    (\<forall>s a. pair_of pairs' s a = (if (s, a) \<in> info_key ` set cur then None else pair_of pairs s a)) \<and>
    rates r' = (\<lambda>k. if k \<in> info_key ` set cur then map_option info_rate (pair_of pairs (fst k) (snd k))
      else rates r k) \<and>
    ro_nodes r' = ro_nodes r \<and> ro_rules r' = ro_rules r \<and> ro_context r' = ro_context r"
  using assms
proof (induction cur arbitrary: pairs new r)
  case Nil
  then show ?case by (auto simp: kept_pairs_def List.map_filter_def)
next
  case (Cons i cur)
  obtain source actor rate where i: "i = (source, actor, rate)" by (cases i)
  have key: "info_key i = (point_id source, point_id actor)" by (simp add: i info_key_def)
  have fresh: "info_key i \<notin> info_key ` set cur" "distinct (map info_key cur)" using Cons.prems(2) by auto
  have other: "\<forall>j \<in> set cur. info_key j \<noteq> info_key i" using fresh(1) by (auto simp: image_iff)
  have found: "(case jget pairs (point_id source) of None \<Rightarrow> None | Some actors \<Rightarrow> jget actors (point_id actor)) =
      pair_of pairs (point_id source) (point_id actor)"
    by (simp add: pair_of_def)
  show ?case
  proof (cases "pair_of pairs (point_id source) (point_id actor)")
    case None
    let ?r = "router_disassociate source actor r"
    have "act_current cr cur (pairs, new, ?r) = (pairs', new', r')"
      using Cons.prems(4) None by (simp add: i found)
    moreover have "\<forall>j \<in> set cur. rates ?r (info_key j) = Some (info_rate j)"
      using Cons.prems(3) other key by simp
    ultimately have IH: "pairs_ok pairs' \<and> new' = new @ kept_pairs pairs cur \<and>
      (\<forall>s a. pair_of pairs' s a = (if (s, a) \<in> info_key ` set cur then None else pair_of pairs s a)) \<and>
      rates r' = (\<lambda>k. if k \<in> info_key ` set cur then map_option info_rate (pair_of pairs (fst k) (snd k))
        else rates ?r k) \<and>
      ro_nodes r' = ro_nodes ?r \<and> ro_rules r' = ro_rules ?r \<and> ro_context r' = ro_context ?r"
      using Cons.IH [of pairs ?r new] Cons.prems(1) fresh(2) by blast
    moreover have "kept_pairs pairs (i # cur) = kept_pairs pairs cur"
      using None key by (simp add: kept_pairs_def List.map_filter_def)
    ultimately show ?thesis using None key by (auto simp: fun_eq_iff)
  next
    case (Some info)
    obtain rs ra rr where info: "info = (rs, ra, rr)" by (cases info)
    have ik: "info_key info = info_key i" using pairs_ok_key [OF Cons.prems(1) Some] key by simp
    let ?pairs = "remove_pair (point_id source) (point_id actor) pairs"
    let ?r = "if rate_differs rr rate then router_associate cr rs ra rr r else r"
    have step: "act_current cr cur (?pairs, new @ [info], ?r) = (pairs', new', r')"
      using Cons.prems(4) Some by (simp add: i found info)
    have "rates r (info_key i) = Some (rate_value rate)" using Cons.prems(3) by (simp add: i info_rate_def)
    then have r: "rates ?r = (rates r)(info_key i \<mapsto> info_rate info)"
      using ik rate_differs_iff by (auto simp: info info_rate_def info_key_def fun_eq_iff)
    have "\<forall>j \<in> set cur. rates ?r (info_key j) = Some (info_rate j)"
      unfolding r using Cons.prems(3) other by simp
    then have IH: "pairs_ok pairs' \<and> new' = (new @ [info]) @ kept_pairs ?pairs cur \<and>
      (\<forall>s a. pair_of pairs' s a = (if (s, a) \<in> info_key ` set cur then None else pair_of ?pairs s a)) \<and>
      rates r' = (\<lambda>k. if k \<in> info_key ` set cur then map_option info_rate (pair_of ?pairs (fst k) (snd k))
        else rates ?r k) \<and>
      ro_nodes r' = ro_nodes ?r \<and> ro_rules r' = ro_rules ?r \<and> ro_context r' = ro_context ?r"
      using Cons.IH [OF pairs_ok_remove [OF Cons.prems(1)] fresh(2) _ step] by blast
    moreover have "\<not> (fst (info_key j) = point_id source \<and> snd (info_key j) = point_id actor)"
      if "j \<in> set cur" for j
      using other that key by (metis prod.collapse)
    then have "kept_pairs ?pairs cur = kept_pairs pairs cur"
      by (intro kept_pairs_cong) (auto simp: pair_of_remove)
    then have "kept_pairs pairs (i # cur) = info # kept_pairs ?pairs cur"
      using Some key by (cases info) (simp add: kept_pairs_def List.map_filter_def)
    moreover have "ro_nodes ?r = ro_nodes r" "ro_rules ?r = ro_rules r" "ro_context ?r = ro_context r" by simp_all
    ultimately show ?thesis
      using Some key fresh(1) unfolding r by (auto simp: fun_eq_iff pair_of_remove)
  qed
qed


lemma set_map_filter: "y \<in> set (List.map_filter f xs) \<longleftrightarrow> (\<exists>x \<in> set xs. f x = Some y)"
  by (force simp: List.map_filter_def)

lemma kept_pairs_set:
  assumes "pairs_ok pairs"
  shows "info \<in> set (kept_pairs pairs cur) \<longleftrightarrow>
    info_key info \<in> info_key ` set cur \<and> pair_of pairs (fst (info_key info)) (snd (info_key info)) = Some info"
    (is "?l \<longleftrightarrow> ?r")
proof
  assume ?l
  then obtain i where i: "i \<in> set cur" "pair_of pairs (fst (info_key i)) (snd (info_key i)) = Some info"
    by (auto simp: kept_pairs_def set_map_filter)
  then have "info_key info = info_key i" using pairs_ok_key [OF assms] by simp
  then show ?r using i by simp
next
  assume ?r
  then obtain i where "i \<in> set cur" "info_key i = info_key info" by auto
  then show ?l using \<open>?r\<close> by (auto simp: kept_pairs_def set_map_filter intro!: bexI [of _ i])
qed

lemma kept_pairs_keys:
  "pairs_ok pairs \<Longrightarrow> map info_key (kept_pairs pairs cur) =
    filter (\<lambda>k. pair_of pairs (fst k) (snd k) \<noteq> None) (map info_key cur)"
  by (induction cur) (auto simp: kept_pairs_def List.map_filter_def dest: pairs_ok_key)

lemma table_of_distinct:
  "distinct (map info_key infos) \<Longrightarrow> i \<in> set infos \<Longrightarrow> table_of infos (info_key i) = Some (info_rate i)"
  unfolding table_of_def by (rule map_of_is_SomeI) (auto simp: comp_def)

lemma table_of_None: "k \<notin> info_key ` set infos \<Longrightarrow> table_of infos k = None"
  by (force simp: table_of_def map_of_eq_None_iff)

lemma fold_associate:
  assumes "distinct (map info_key infos)"
  shows "rates (fold (\<lambda>(src, actor, rate). router_associate cr src actor rate) infos r) =
      (\<lambda>k. if k \<in> info_key ` set infos then table_of infos k else rates r k) \<and>
    (let r' = fold (\<lambda>(src, actor, rate). router_associate cr src actor rate) infos r
     in ro_nodes r' = ro_nodes r \<and> ro_rules r' = ro_rules r \<and> ro_context r' = ro_context r)"
  using assms
proof (induction infos arbitrary: r)
  case (Cons i infos)
  obtain src act rate where i: "i = (src, act, rate)" by (cases i)
  have k: "info_key i = (point_id src, point_id act)" "info_rate i = rate_value rate"
    by (simp_all add: i info_key_def info_rate_def)
  have "info_key i \<notin> info_key ` set infos" using Cons.prems by simp
  then show ?case
    using Cons.IH [of "router_associate cr src act rate r"] Cons.prems k
    by (auto simp: i Let_def fun_eq_iff table_of_def)
qed simp

text \<open>The state after acting: established are exactly the resolved pairs with their rates, and these are
  the current associations.\<close>

lemma act_on_pairs_spec:
  fixes cr :: "string \<Rightarrow> string"
  assumes "pairs_ok pairs" "distinct (map info_key (ro_current r))" "rates r = table_of (ro_current r)"
  defines "r' \<equiv> act_on_pairs cr pairs r"
  shows "rates r' = (\<lambda>(s, a). map_option info_rate (pair_of pairs s a))"
    "distinct (map info_key (ro_current r'))" "rates r' = table_of (ro_current r')"
    "\<forall>i. i \<in> set (ro_current r') \<longleftrightarrow> pair_of pairs (fst (info_key i)) (snd (info_key i)) = Some i"
    "ro_nodes r' = ro_nodes r \<and> ro_rules r' = ro_rules r \<and> ro_context r' = ro_context r"
proof -
  let ?cur = "ro_current r"
  obtain pairs1 new r1 where act: "act_current cr ?cur (pairs, [], r) = (pairs1, new, r1)"
    by (metis prod_cases3)
  have "\<forall>i \<in> set ?cur. rates r (info_key i) = Some (info_rate i)"
    using assms(2,3) table_of_distinct by simp
  then have spec: "pairs_ok pairs1" "new = kept_pairs pairs ?cur"
    "\<forall>s a. pair_of pairs1 s a = (if (s, a) \<in> info_key ` set ?cur then None else pair_of pairs s a)"
    "rates r1 = (\<lambda>k. if k \<in> info_key ` set ?cur then map_option info_rate (pair_of pairs (fst k) (snd k))
      else rates r k)"
    "ro_nodes r1 = ro_nodes r \<and> ro_rules r1 = ro_rules r \<and> ro_context r1 = ro_context r"
    using act_current_spec [OF assms(1,2) _ act] by auto
  let ?added = "all_pairs pairs1"
  let ?r2 = "fold (\<lambda>(src, actor, rate). router_associate cr src actor rate) ?added r1"
  have d: "distinct (map info_key ?added)" by (rule distinct_all_pairs [OF spec(1)])
  have r': "r' = ?r2\<lparr>ro_current := new @ ?added\<rparr>"
    by (simp add: r'_def act_on_pairs_def act all_pairs_def Let_def)
  note new = kept_pairs_set [OF assms(1), of _ ?cur, folded spec(2)]
  note added = set_all_pairs [OF spec(1)]
  have key: "pair_of pairs s a = Some i \<Longrightarrow> info_key i = (s, a)" for s a i
    by (rule pairs_ok_key [OF assms(1)])
  show set: "\<forall>i. i \<in> set (ro_current r') \<longleftrightarrow> pair_of pairs (fst (info_key i)) (snd (info_key i)) = Some i"
    using new added spec(3) by (auto simp: r')
  have "distinct (map info_key new)"
    unfolding spec(2) kept_pairs_keys [OF assms(1)] using assms(2) by simp
  moreover have "info_key ` set new \<inter> info_key ` set ?added = {}"
    using new added spec(3) by fastforce
  ultimately show dist: "distinct (map info_key (ro_current r'))" using d by (simp add: r')
  have r2: "rates r' = (\<lambda>k. if k \<in> info_key ` set ?added then table_of ?added k else rates r1 k)"
    using fold_associate [OF d, of cr r1] by (simp add: r' rates_cong [of "_\<lparr>ro_current := _\<rparr>"])
  show rates: "rates r' = (\<lambda>(s, a). map_option info_rate (pair_of pairs s a))"
  proof (rule ext, clarify)
    fix s a
    show "rates r' (s, a) = map_option info_rate (pair_of pairs s a)"
    proof (cases "(s, a) \<in> info_key ` set ?added")
      case True
      then obtain i where i: "i \<in> set ?added" "info_key i = (s, a)" by auto
      then have "pair_of pairs s a = Some i" using added [of i] spec(3) by (auto split: if_splits)
      then show ?thesis using r2 True table_of_distinct [OF d i(1)] i(2) by simp
    next
      case False
      have no: "(s, a) \<notin> info_key ` set ?cur \<Longrightarrow> pair_of pairs s a = None"
      proof (rule ccontr)
        assume cur: "(s, a) \<notin> info_key ` set ?cur" "pair_of pairs s a \<noteq> None"
        then obtain i where "pair_of pairs1 s a = Some i" "info_key i = (s, a)" using key spec(3) by auto
        then have "i \<in> set ?added" using added [of i] by simp
        then show False using False \<open>info_key i = (s, a)\<close> by force
      qed
      show ?thesis
        using False r2 spec(4) no assms(3) table_of_None [of "(s, a)" ?cur] by simp
    qed
  qed
  show "rates r' = table_of (ro_current r')"
  proof
    fix k
    show "rates r' k = table_of (ro_current r') k"
    proof (cases "pair_of pairs (fst k) (snd k)")
      case None
      then have "k \<notin> info_key ` set (ro_current r')" using set by auto
      then show ?thesis using None table_of_None rates by (simp add: case_prod_beta)
    next
      case (Some i)
      then have k: "info_key i = k" using key by simp
      then have "i \<in> set (ro_current r')" using set Some by metis
      then show ?thesis
        using Some k table_of_distinct [OF dist, of i] rates by (simp add: case_prod_beta)
    qed
  qed
  show "ro_nodes r' = ro_nodes r \<and> ro_rules r' = ro_rules r \<and> ro_context r' = ro_context r"
    using fold_associate [OF d, of cr r1] spec(5) by (simp add: r' Let_def)
qed


section \<open>Matching and resolving\<close>

definition ca_key :: "compatible_association \<Rightarrow> string \<times> string" where
  "ca_key ca = (case ca of (source, sourceNode, actor, actorNode) \<Rightarrow> (point_id source, point_id actor))"

definition ca_info :: "compatible_association \<Rightarrow> association_info" where
  "ca_info ca = (case ca of (source, sourceNode, actor, actorNode) \<Rightarrow>
     (source, actor, compute_cumulated_update_rate (point_rate source) (point_rate actor)))"

lemma info_key_ca [simp]: "info_key (ca_info ca) = ca_key ca"
  by (simp add: info_key_def ca_info_def ca_key_def case_prod_beta)

lemma pair_of_add:
  "pair_of (add_pair ca pairs) s a = (if (s, a) = ca_key ca then Some (ca_info ca) else pair_of pairs s a)"
  by (auto simp: pair_of_def add_pair_def ca_key_def ca_info_def Let_def case_prod_beta split: option.split)

lemma pairs_ok_add: "pairs_ok pairs \<Longrightarrow> pairs_ok (add_pair ca pairs)"
proof -
  assume ok: "pairs_ok pairs"
  obtain source sn actor an where ca: "ca = (source, sn, actor, an)" by (cases ca)
  let ?s = "point_id source" and ?info = "ca_info ca"
  define actors where "actors = (case jget pairs ?s of None \<Rightarrow> [] | Some actors \<Rightarrow> actors)"
  have actors: "jwf actors" "\<forall>(a, info) \<in> set actors. info_key info = (?s, a)"
    using ok by (auto simp: actors_def pairs_ok_def split: option.split dest!: map_of_SomeD)
  have "jwf (jset (point_id actor) ?info actors)" using actors(1) by simp
  moreover have "\<forall>(a, info) \<in> set (jset (point_id actor) ?info actors). info_key info = (?s, a)"
    using actors by (auto simp: set_jset ca ca_key_def)
  moreover have "add_pair ca pairs = jset ?s (jset (point_id actor) ?info actors) pairs"
    by (simp add: add_pair_def ca actors_def ca_info_def Let_def)
  ultimately show ?thesis using ok by (simp add: pairs_ok_jset)
qed

lemma match_rules_spec:
  assumes "distinct (map ca_key cas)"
  shows "pairs_ok (match_rules rules ctx cas) \<and>
    (\<forall>s a info. pair_of (match_rules rules ctx cas) s a = Some info \<longleftrightarrow>
      (\<exists>ca \<in> set cas. ca_matches rules ctx ca \<and> ca_key ca = (s, a) \<and> info = ca_info ca))"
proof -
  let ?add = "\<lambda>ca pairs. if ca_matches rules ctx ca then add_pair ca pairs else pairs"
  have "pairs_ok (fold ?add cas pairs) \<and> (\<forall>s a info. pair_of (fold ?add cas pairs) s a = Some info \<longleftrightarrow>
      (\<exists>ca \<in> set cas. ca_matches rules ctx ca \<and> ca_key ca = (s, a) \<and> info = ca_info ca) \<or>
      pair_of pairs s a = Some info)"
    if "pairs_ok pairs" "\<forall>ca \<in> set cas. pair_of pairs (fst (ca_key ca)) (snd (ca_key ca)) = None" for pairs
    using that assms
  proof (induction cas arbitrary: pairs)
    case (Cons ca cas)
    have "ca_key ca \<notin> ca_key ` set cas" using Cons.prems(3) by simp
    then have fresh: "\<forall>ca' \<in> set cas. ca_key ca' \<noteq> ca_key ca" by (metis imageI)
    then have none: "\<forall>ca' \<in> set cas. pair_of (?add ca pairs) (fst (ca_key ca')) (snd (ca_key ca')) = None"
      using Cons.prems(2) by (auto simp: pair_of_add)
    have "pairs_ok (?add ca pairs)" using Cons.prems(1) by (simp add: pairs_ok_add)
    note IH = Cons.IH [OF this none]
    have free: "pair_of pairs s a = None" if "(s, a) = ca_key ca" for s a
      using Cons.prems(2) that by (metis fst_conv list.set_intros(1) snd_conv)
    show ?case
    proof (cases "ca_matches rules ctx ca")
      case True
      have "pair_of (add_pair ca pairs) s a = Some info \<longleftrightarrow>
          ca_key ca = (s, a) \<and> info = ca_info ca \<or> pair_of pairs s a = Some info" for s a info
        using free [of s a] by (auto simp: pair_of_add)
      then show ?thesis using IH Cons.prems(3) True by auto
    qed (use IH Cons.prems(3) in auto)
  qed simp
  from this [of "[]"] show ?thesis by (simp add: match_rules_def pair_of_def pairs_ok_def)
qed

definition cumulated_rate :: "(string, association_info) jmap \<Rightarrow> jsnum option" where
  "cumulated_rate actors = fold (\<lambda>info. compute_cumulated_update_rate (snd (snd info))) (jvals actors) None"

definition with_rate :: "jsnum option \<Rightarrow> association_info \<Rightarrow> association_info" where
  "with_rate rate info = (fst info, fst (snd info), rate)"

lemma with_rate_simps [simp]:
  "info_key (with_rate rate info) = info_key info" "info_rate (with_rate rate info) = rate_value rate"
  by (simp_all add: with_rate_def info_key_def info_rate_def)

lemma resolve_rates_eq:
  "resolve_rates pairs =
    map (\<lambda>(s, actors). (s, map (\<lambda>(a, info). (a, with_rate (cumulated_rate actors) info)) actors)) pairs"
  by (simp add: resolve_rates_def cumulated_rate_def with_rate_def Let_def case_prod_beta)

lemma map_of_map_value: "map_of (map (\<lambda>(k, v). (k, f v)) m) k = map_option f (map_of m k)"
  by (induction m) auto

lemma pair_of_resolve:
  assumes "jget pairs s = Some actors"
  shows "pair_of (resolve_rates pairs) s a = map_option (with_rate (cumulated_rate actors)) (jget actors a)"
  by (simp add: pair_of_def resolve_rates_eq assms map_of_map_value
      [of "\<lambda>actors. map (\<lambda>(a, info). (a, with_rate (cumulated_rate actors) info)) actors"] map_of_map_value)

lemma pair_of_resolve_None: "jget pairs s = None \<Longrightarrow> pair_of (resolve_rates pairs) s a = None"
  by (simp add: pair_of_def resolve_rates_eq map_of_map_value
      [of "\<lambda>actors. map (\<lambda>(a, info). (a, with_rate (cumulated_rate actors) info)) actors"])

lemma pairs_ok_resolve:
  assumes "pairs_ok pairs"
  shows "pairs_ok (resolve_rates pairs)"
proof -
  let ?f = "\<lambda>actors. map (\<lambda>(a, info). (a, with_rate (cumulated_rate actors) info)) actors"
  have keys: "jkeys (?f actors) = jkeys actors" for actors by (simp add: case_prod_beta comp_def)
  have "jkeys (resolve_rates pairs) = jkeys pairs"
    by (simp add: resolve_rates_eq case_prod_beta comp_def)
  then have "jwf (resolve_rates pairs)" using assms by (simp add: pairs_ok_def)
  have inner: "jwf (?f actors) \<and> (\<forall>(a, info) \<in> set (?f actors). info_key info = (s, a))"
    if "(s, actors) \<in> set pairs" for s actors
  proof -
    have "jwf actors" "\<forall>(a, info) \<in> set actors. info_key info = (s, a)" using that assms by (auto simp: pairs_ok_def)
    then show ?thesis unfolding keys by auto
  qed
  have "jwf (snd e) \<and> (\<forall>(a, info) \<in> set (snd e). info_key info = (fst e, a))"
    if e: "e \<in> set (resolve_rates pairs)" for e
  proof -
    obtain s actors where m: "(s, actors) \<in> set pairs" "e = (s, ?f actors)"
      using e unfolding resolve_rates_eq by auto
    show ?thesis unfolding m(2) fst_conv snd_conv by (rule inner [OF m(1)])
  qed
  then show ?thesis using \<open>jwf (resolve_rates pairs)\<close> unfolding pairs_ok_def by fastforce
qed


section \<open>What the rules prescribe\<close>

text \<open>The point with an id that the managed nodes offer, with its node: the last one, if several nodes
  offer it.\<close>

definition points_of :: "string \<Rightarrow> jsv \<Rightarrow> jsv list" where
  "points_of k node = (case get_prop node k of JArr ps \<Rightarrow> ps | _ \<Rightarrow> [])"

definition offered :: "string \<Rightarrow> jsv list \<Rightarrow> (string \<times> jsv \<times> jsv) list" where
  "offered k nodes = concat (map (\<lambda>node. map (\<lambda>p. (point_id p, p, node)) (points_of k node)) nodes)"

definition owner :: "string \<Rightarrow> jsv list \<Rightarrow> string \<Rightarrow> (jsv \<times> jsv) option" where
  "owner k nodes i = map_of (rev (offered k nodes)) i"

text \<open>The pair of a source and an actor that the rules associate: compatible, and accepted by one of the
  rules for the value type, or of the global rules if there are none.\<close>

definition prescribed :: "io_router \<Rightarrow> string \<Rightarrow> string \<Rightarrow> (jsv \<times> jsv) option" where
  "prescribed r s a =
    (case (owner ''ioSources'' (jvals (ro_nodes r)) s, owner ''ioActors'' (jvals (ro_nodes r)) a) of
       (Some (src, sn), Some (act, an)) \<Rightarrow>
         (if are_value_types_compatible src act \<and> ca_matches (ro_rules r) (ro_context r) (src, sn, act, an)
          then Some (src, act) else None)
     | _ \<Rightarrow> None)"

text \<open>The update rates of a source and the actors associated with it.\<close>

definition rate_candidates :: "io_router \<Rightarrow> string \<Rightarrow> jsnum set" where
  "rate_candidates r s = {x. \<exists>a src act. prescribed r s a = Some (src, act) \<and>
     (point_rate src = Some x \<or> point_rate act = Some x)}"

definition greatest_rate :: "jsnum set \<Rightarrow> jsv \<Rightarrow> bool" where
  "greatest_rate xs v =
    (if xs = {} then v = JUndef else \<exists>x \<in> xs. v = JNum x \<and> (\<forall>y \<in> xs. num_le y x))"

definition node_ok :: "jsv \<Rightarrow> bool" where
  "node_ok node =
    (is_array (get_prop node ''ioSources'') \<and> is_array (get_prop node ''ioActors'') \<and>
     (\<forall>p \<in> set (points_of ''ioSources'' node) \<union> set (points_of ''ioActors'' node). point_rate p \<noteq> Some NaN))"

lemma is_array_iff: "is_array v \<longleftrightarrow> (\<exists>xs. v = JArr xs)"
  by (cases v) auto

lemma elements_points: "is_array (get_prop node k) \<Longrightarrow> elements_of (get_prop node k) = Inr (points_of k node)"
  by (auto simp: is_array_iff elements_of_def points_of_def)

lemma jget_fold_jset: "jget (fold (\<lambda>(k, v). jset k v) xs m) = jget m ++ map_of (rev xs)"
  by (induction xs arbitrary: m) (auto simp: fun_eq_iff map_add_def split: option.split)

definition owned_ok :: "owned \<Rightarrow> bool" where
  "owned_ok m = (jwf m \<and> (\<forall>(i, p, node) \<in> set m. point_id p = i))"

lemma own_points_eq: "own_points node points m = fold (\<lambda>(k, v). jset k v) (map (\<lambda>p. (point_id p, p, node)) points) m"
  by (simp add: own_points_def fold_map comp_def)

lemma owned_ok_own_points: "owned_ok m \<Longrightarrow> owned_ok (own_points node points m)"
proof (induction points arbitrary: m)
  case (Cons p points)
  have "owned_ok (jset (point_id p) (p, node) m)" using Cons.prems by (auto simp: owned_ok_def set_jset)
  then show ?case using Cons.IH by (simp add: own_points_def)
qed (simp add: own_points_def)

lemma collect_points_spec:
  assumes "\<forall>node \<in> set nodes. node_ok node" "owned_ok sources" "owned_ok actors"
  shows "\<exists>sources' actors'. collect_points nodes (sources, actors) = Inr (sources', actors') \<and>
    owned_ok sources' \<and> owned_ok actors' \<and>
    jget sources' = jget sources ++ map_of (rev (offered ''ioSources'' nodes)) \<and>
    jget actors' = jget actors ++ map_of (rev (offered ''ioActors'' nodes))"
  using assms
proof (induction nodes arbitrary: sources actors)
  case Nil
  then show ?case by (simp add: offered_def)
next
  case (Cons node nodes)
  let ?s = "own_points node (points_of ''ioSources'' node) sources"
  let ?a = "own_points node (points_of ''ioActors'' node) actors"
  have "collect_points (node # nodes) (sources, actors) = collect_points nodes (?s, ?a)"
    using Cons.prems(1) by (simp add: elements_points node_ok_def)
  moreover have "owned_ok ?s" "owned_ok ?a" using Cons.prems by (simp_all add: owned_ok_own_points)
  ultimately show ?case
    using Cons.IH [of ?s ?a] Cons.prems(1)
    by (auto simp: own_points_eq jget_fold_jset offered_def simp flip: map_add_assoc)
qed

lemma compatible_pairs_spec:
  assumes "owned_ok sources" "owned_ok actors"
  shows "distinct (map ca_key (compatible_pairs (sources, actors))) \<and>
    (\<forall>src sn act an. (src, sn, act, an) \<in> set (compatible_pairs (sources, actors)) \<longleftrightarrow>
      jget sources (point_id src) = Some (src, sn) \<and> jget actors (point_id act) = Some (act, an) \<and>
      are_value_types_compatible src act)"
proof
  have val: "(p, n) \<in> snd ` set m \<longleftrightarrow> jget m (point_id p) = Some (p, n)" if "owned_ok m" for m p n
  proof
    assume "(p, n) \<in> snd ` set m"
    then have "(point_id p, p, n) \<in> set m" using that by (fastforce simp: owned_ok_def)
    then show "jget m (point_id p) = Some (p, n)" using that by (simp add: owned_ok_def)
  qed (force dest: map_of_SomeD)
  show "\<forall>src sn act an. (src, sn, act, an) \<in> set (compatible_pairs (sources, actors)) \<longleftrightarrow>
      jget sources (point_id src) = Some (src, sn) \<and> jget actors (point_id act) = Some (act, an) \<and>
      are_value_types_compatible src act"
  proof (intro allI)
    fix src sn act an
    have "(src, sn, act, an) \<in> set (compatible_pairs (sources, actors)) \<longleftrightarrow>
        (src, sn) \<in> snd ` set sources \<and> (act, an) \<in> snd ` set actors \<and> are_value_types_compatible src act"
      unfolding compatible_pairs_def by (force simp: case_prod_beta)
    then show "(src, sn, act, an) \<in> set (compatible_pairs (sources, actors)) \<longleftrightarrow>
      jget sources (point_id src) = Some (src, sn) \<and> jget actors (point_id act) = Some (act, an) \<and>
      are_value_types_compatible src act"
      unfolding val [OF assms(1)] val [OF assms(2)] .
  qed
  have keys: "map (\<lambda>(p, n). point_id p) (jvals m) = jkeys m" if "owned_ok m" for m
    using that by (auto simp: owned_ok_def)
  have inner: "distinct (map ca_key (map (\<lambda>(actor, actorNode). (source, sn, actor, actorNode)) (filter P (jvals actors))))"
    for source sn P
  proof -
    have "map ca_key (map (\<lambda>(actor, actorNode). (source, sn, actor, actorNode)) xs) =
        map (\<lambda>k. (point_id source, k)) (map (\<lambda>(p, n). point_id p) xs)" for xs
      by (simp add: ca_key_def case_prod_beta)
    moreover have "distinct (map (\<lambda>(p, n). point_id p) (filter P (jvals actors)))"
      using keys [OF assms(2)] assms(2) by (metis distinct_map_filter owned_ok_def)
    ultimately show ?thesis by (simp add: distinct_map inj_on_def del: map_map)
  qed
  have "distinct (map ca_key (concat (map (\<lambda>(source, sn). map (\<lambda>(actor, actorNode). (source, sn, actor, actorNode))
      (filter (\<lambda>(actor, an). are_value_types_compatible source actor) (jvals actors))) xs)))"
    if "distinct (map (\<lambda>(p, n). point_id p) xs)" for xs
  proof (rule distinct_concat_keys [OF that])
    fix x :: "jsv \<times> jsv"
    obtain source sn where x: "x = (source, sn)" by (cases x)
    show "distinct (map ca_key (case x of (source, sn) \<Rightarrow> map (\<lambda>(actor, actorNode). (source, sn, actor, actorNode))
      (filter (\<lambda>(actor, an). are_value_types_compatible source actor) (jvals actors))))"
      unfolding x prod.case by (rule inner)
    show "ca \<in> set (case x of (source, sn) \<Rightarrow> map (\<lambda>(actor, actorNode). (source, sn, actor, actorNode))
      (filter (\<lambda>(actor, an). are_value_types_compatible source actor) (jvals actors))) \<Longrightarrow>
        fst (ca_key ca) = (case x of (p, n) \<Rightarrow> point_id p)" for ca
      by (auto simp: x ca_key_def)
  qed
  note dist = this
  have "distinct (map (\<lambda>(p, n). point_id p) (jvals sources))"
    unfolding keys [OF assms(1)] using assms(1) by (simp add: owned_ok_def)
  from dist [OF this] show "distinct (map ca_key (compatible_pairs (sources, actors)))"
    unfolding compatible_pairs_def fst_conv snd_conv .
qed


lemma owner_id: "owner k nodes i = Some (p, node) \<Longrightarrow> point_id p = i"
  by (auto simp: owner_def offered_def dest!: map_of_SomeD)

lemma owner_member: "owner k nodes i = Some (p, node) \<Longrightarrow> node \<in> set nodes \<and> p \<in> set (points_of k node)"
  by (auto simp: owner_def offered_def dest!: map_of_SomeD)

lemma num_max_le:
  "x \<noteq> NaN \<Longrightarrow> y \<noteq> NaN \<Longrightarrow> num_le x (num_max x y) \<and> num_le y (num_max x y) \<and> num_max x y \<in> {x, y} \<and>
    num_max x y \<noteq> NaN"
  by (cases x; cases y) (auto simp: num_max_def num_le_def)

lemma num_le_refl: "x \<noteq> NaN \<Longrightarrow> num_le x x"
  by (cases x) (auto simp: num_le_def)

definition option_set :: "'a option \<Rightarrow> 'a set" where
  "option_set x = (case x of None \<Rightarrow> {} | Some y \<Rightarrow> {y})"

lemma option_set_simps [simp]: "option_set None = {}" "option_set (Some y) = {y}"
  by (simp_all add: option_set_def)

lemma option_set_iff: "x \<in> option_set y \<longleftrightarrow> y = Some x"
  by (cases y) auto

lemma greatest_cumulate:
  assumes "greatest_rate xs (rate_value r)" "greatest_rate ys (rate_value r')" "NaN \<notin> xs" "NaN \<notin> ys"
  shows "greatest_rate (xs \<union> ys) (rate_value (compute_cumulated_update_rate r r'))"
proof (cases r; cases r')
  fix x y assume r: "r = Some x" "r' = Some y"
  then have x: "x \<in> xs" "\<forall>z \<in> xs. num_le z x" and y: "y \<in> ys" "\<forall>z \<in> ys. num_le z y"
    using assms(1,2) by (auto simp: greatest_rate_def rate_value_def split: if_splits)
  then have "x \<noteq> NaN" "y \<noteq> NaN" using assms(3,4) by auto
  then have m: "num_le x (num_max y x)" "num_le y (num_max y x)" "num_max y x \<in> {x, y}"
    using num_max_le [of y x] by auto
  then have "\<forall>z \<in> xs \<union> ys. num_le z (num_max y x)" using x y num_le_trans by blast
  moreover have "num_max y x \<in> xs \<union> ys" using m(3) x y by auto
  ultimately show ?thesis
    using r x(1) by (auto simp: greatest_rate_def rate_value_def compute_cumulated_update_rate_def)
qed (use assms in \<open>auto simp: greatest_rate_def rate_value_def compute_cumulated_update_rate_def split: if_splits\<close>)

lemma greatest_option: "x \<noteq> Some NaN \<Longrightarrow> greatest_rate (option_set x) (rate_value x)"
  by (cases x) (auto simp: greatest_rate_def rate_value_def num_le_refl)

lemma greatest_fold:
  assumes "\<forall>info \<in> set infos. greatest_rate (f info) (rate_value (snd (snd info))) \<and> NaN \<notin> f info"
    "greatest_rate xs (rate_value r)" "NaN \<notin> xs"
  shows "greatest_rate (xs \<union> (\<Union>info \<in> set infos. f info))
    (rate_value (fold (\<lambda>info. compute_cumulated_update_rate (snd (snd info))) infos r))"
  using assms
proof (induction infos arbitrary: xs r)
  case (Cons info infos)
  have "greatest_rate (f info \<union> xs) (rate_value (compute_cumulated_update_rate (snd (snd info)) r))"
    using Cons.prems by (simp add: greatest_cumulate)
  moreover have "NaN \<notin> f info \<union> xs" using Cons.prems by simp
  ultimately have "greatest_rate (f info \<union> xs \<union> (\<Union>info \<in> set infos. f info))
      (rate_value (fold (\<lambda>info. compute_cumulated_update_rate (snd (snd info))) infos
        (compute_cumulated_update_rate (snd (snd info)) r)))"
    using Cons.IH Cons.prems(1) by simp
  moreover have "f info \<union> xs \<union> (\<Union>info \<in> set infos. f info) = xs \<union> (\<Union>info \<in> set (info # infos). f info)"
    by auto
  ultimately show ?case by simp
qed simp

section \<open>The effect of evaluating the rules\<close>

text \<open>The router's associations are those prescribed, and those established by its publications.\<close>

definition associations_ok :: "io_router \<Rightarrow> bool" where
  "associations_ok r =
    (distinct (map info_key (ro_current r)) \<and> rates r = table_of (ro_current r))"

definition settled :: "io_router \<Rightarrow> bool" where
  "settled r =
    (\<forall>s a. case prescribed r s a of
       None \<Rightarrow> rates r (s, a) = None
     | Some pair \<Rightarrow> (\<exists>v. rates r (s, a) = Some v \<and> greatest_rate (rate_candidates r s) v))"

definition router_pairs :: "io_router \<Rightarrow> association_pairs" where
  "router_pairs r =
    (case get_compatible_associations r of
       Inl e \<Rightarrow> []
     | Inr cas \<Rightarrow> resolve_rates (match_rules (ro_rules r) (ro_context r) cas))"

lemma router_pairs_cong:
  "ro_nodes r' = ro_nodes r \<Longrightarrow> ro_rules r' = ro_rules r \<Longrightarrow> ro_context r' = ro_context r \<Longrightarrow>
    router_pairs r' = router_pairs r"
  by (simp only: router_pairs_def get_compatible_associations_def)

lemma evaluate_rules_spec:
  assumes "\<forall>node \<in> set (jvals (ro_nodes r)). node_ok node" "associations_ok r"
  shows "\<exists>r'. evaluate_rules cr r = (None, r') \<and> associations_ok r' \<and> settled r' \<and>
    ro_nodes r' = ro_nodes r \<and> ro_rules r' = ro_rules r \<and> ro_context r' = ro_context r \<and>
    r' = act_on_pairs cr (router_pairs r) r \<and> pairs_ok (router_pairs r) \<and>
    (\<forall>s a info. pair_of (router_pairs r) s a = Some info \<longrightarrow> prescribed r s a = Some (fst info, fst (snd info)))"
proof -
  let ?nodes = "jvals (ro_nodes r)"
  obtain sources actors where c: "collect_points ?nodes ([], []) = Inr (sources, actors)"
    "owned_ok sources" "owned_ok actors" "jget sources = owner ''ioSources'' ?nodes"
    "jget actors = owner ''ioActors'' ?nodes"
    using collect_points_spec [OF assms(1), of "[]" "[]"] by (auto simp: owned_ok_def owner_def fun_eq_iff)
  let ?cas = "compatible_pairs (sources, actors)"
  have cas: "distinct (map ca_key ?cas)" "(src, sn, act, an) \<in> set ?cas \<longleftrightarrow>
      jget sources (point_id src) = Some (src, sn) \<and> jget actors (point_id act) = Some (act, an) \<and>
      are_value_types_compatible src act" for src sn act an
    using compatible_pairs_spec [OF c(2,3)] by blast+
  let ?m = "match_rules (ro_rules r) (ro_context r) ?cas"
  have m: "pairs_ok ?m" "pair_of ?m s a = Some info \<longleftrightarrow>
      (\<exists>ca \<in> set ?cas. ca_matches (ro_rules r) (ro_context r) ca \<and> ca_key ca = (s, a) \<and> info = ca_info ca)"
    for s a info
    using match_rules_spec [OF cas(1)] by blast+
  have pres_iff: "prescribed r s a = Some (src, act) \<longleftrightarrow> (\<exists>sn an. (src, sn, act, an) \<in> set ?cas \<and>
      ca_matches (ro_rules r) (ro_context r) (src, sn, act, an) \<and> point_id src = s \<and> point_id act = a)"
    for s a src act
    unfolding cas(2) c(4,5)
    by (auto simp: prescribed_def dest: owner_id split: option.splits if_splits)
  let ?info = "\<lambda>(src, act). (src, act, compute_cumulated_update_rate (point_rate src) (point_rate act))"
  have pair: "pair_of ?m s a = map_option ?info (prescribed r s a)" for s a
  proof (cases "prescribed r s a")
    case None
    have "pair_of ?m s a \<noteq> Some info" for info
      using None pres_iff [of s a] unfolding m(2) by (auto simp: ca_key_def)
    then have "pair_of ?m s a = None" by (metis not_None_eq)
    then show ?thesis using None by simp
  next
    case (Some p)
    obtain src act where p: "p = (src, act)" by (cases p)
    then have "pair_of ?m s a = Some (?info p)"
      using Some pres_iff [of s a src act] unfolding m(2) by (force simp: ca_key_def ca_info_def)
    then show ?thesis using Some by simp
  qed
  let ?r' = "act_on_pairs cr (resolve_rates ?m) r"
  have eval: "evaluate_rules cr r = (None, ?r')" and rp: "router_pairs r = resolve_rates ?m"
    by (simp_all add: evaluate_rules_def router_pairs_def get_compatible_associations_def c(1))
  note act = act_on_pairs_spec [OF pairs_ok_resolve [OF m(1)], of r cr]
  have ok: "associations_ok ?r'" using act(2,3) assms(2) by (simp add: associations_ok_def)
  have same: "ro_nodes ?r' = ro_nodes r" "ro_rules ?r' = ro_rules r" "ro_context ?r' = ro_context r"
    using act(5) assms(2) by (simp_all add: associations_ok_def)
  then have pres: "prescribed ?r' = prescribed r" by (intro ext) (simp only: prescribed_def)
  have nan: "prescribed r s a = Some (src, act) \<Longrightarrow> point_rate src \<noteq> Some NaN \<and> point_rate act \<noteq> Some NaN"
    for s a src act
    using assms(1) by (fastforce simp: prescribed_def node_ok_def dest!: owner_member split: option.splits if_splits)
  let ?rates = "\<lambda>info. option_set (point_rate (fst info)) \<union> option_set (point_rate (fst (snd info)))"
  have "case prescribed r s a of None \<Rightarrow> rates ?r' (s, a) = None
      | Some pair \<Rightarrow> \<exists>v. rates ?r' (s, a) = Some v \<and> greatest_rate (rate_candidates r s) v" for s a
  proof (cases "jget ?m s")
    case None
    then have "prescribed r s a = None" using pair [of s a] by (simp add: pair_of_def)
    then show ?thesis using act(1) assms(2) pair_of_resolve_None [OF None] by (simp add: associations_ok_def)
  next
    case (Some actors)
    have jget: "jget actors a' = map_option ?info (prescribed r s a')" for a'
      using pair [of s a'] Some by (simp add: pair_of_def)
    have mem: "info \<in> set (jvals actors) \<longleftrightarrow> (\<exists>a src act. prescribed r s a = Some (src, act) \<and> info = ?info (src, act))"
      for info
    proof -
      have "jwf actors" by (rule pairs_ok_inner [OF m(1) Some])
      then have "info \<in> set (jvals actors) \<longleftrightarrow> (\<exists>a. jget actors a = Some info)"
        by (metis (no_types, lifting) imageE imageI list.set_map map_of_SomeD map_of_is_SomeI prod.collapse snd_conv)
      then show ?thesis unfolding jget by auto
    qed
    have "greatest_rate ({} \<union> (\<Union>info \<in> set (jvals actors). ?rates info)) (rate_value (cumulated_rate actors))"
      unfolding cumulated_rate_def
    proof (rule greatest_fold)
      show "\<forall>info \<in> set (jvals actors). greatest_rate (?rates info) (rate_value (snd (snd info))) \<and> NaN \<notin> ?rates info"
      proof
        fix info assume "info \<in> set (jvals actors)"
        then obtain a src act where i: "prescribed r s a = Some (src, act)" "info = ?info (src, act)"
          using mem by blast
        then have n: "point_rate src \<noteq> Some NaN" "point_rate act \<noteq> Some NaN" using nan by blast+
        then have "NaN \<notin> option_set (point_rate src)" "NaN \<notin> option_set (point_rate act)"
          by (auto simp: option_set_def split: option.splits)
        then show "greatest_rate (?rates info) (rate_value (snd (snd info))) \<and> NaN \<notin> ?rates info"
          using greatest_cumulate [OF greatest_option [OF n(1)] greatest_option [OF n(2)]] i(2) by simp
      qed
    qed (simp_all add: greatest_rate_def rate_value_def)
    moreover have "(\<Union>info \<in> set (jvals actors). ?rates info) = rate_candidates r s"
    proof (rule set_eqI)
      fix x
      have "x \<in> (\<Union>info \<in> set (jvals actors). ?rates info) \<longleftrightarrow>
          (\<exists>info. info \<in> set (jvals actors) \<and> (point_rate (fst info) = Some x \<or> point_rate (fst (snd info)) = Some x))"
        by (simp only: UN_iff Un_iff option_set_iff Bex_def)
      then show "x \<in> (\<Union>info \<in> set (jvals actors). ?rates info) \<longleftrightarrow> x \<in> rate_candidates r s"
        unfolding mem by (fastforce simp: rate_candidates_def)
    qed
    ultimately have "greatest_rate (rate_candidates r s) (rate_value (cumulated_rate actors))" by simp
    then show ?thesis
      using act(1) assms(2) pair_of_resolve [OF Some, of a] jget [of a]
      by (auto simp: associations_ok_def split: option.split)
  qed
  note each = this
  have cand: "rate_candidates ?r' = rate_candidates r" by (simp add: rate_candidates_def pres fun_eq_iff)
  have "settled ?r'" unfolding settled_def pres cand by (intro allI each)
  moreover have "prescribed r s a = Some (fst info, fst (snd info))"
    if res: "pair_of (resolve_rates ?m) s a = Some info" for s a info
  proof (cases "jget ?m s")
    case (Some actors)
    then obtain i where i: "jget actors a = Some i" "info = with_rate (cumulated_rate actors) i"
      using res unfolding pair_of_resolve [OF Some] by auto
    then have "pair_of ?m s a = Some i" using Some by (simp add: pair_of_def)
    then show ?thesis using pair [of s a] i(2) by (auto simp: with_rate_def)
  qed (use res pair_of_resolve_None in simp)
  ultimately show ?thesis using eval ok same pairs_ok_resolve [OF m(1)] unfolding rp by blast
qed


section \<open>Steps of the router\<close>

definition nodes_ok :: "io_router \<Rightarrow> bool" where
  "nodes_ok r = (\<forall>node \<in> set (jvals (ro_nodes r)). node_ok node)"

definition router_inv :: "io_router \<Rightarrow> bool" where
  "router_inv r = (associations_ok r \<and> settled r \<and> nodes_ok r)"

lemma associations_ok_cong:
  "ro_current r' = ro_current r \<Longrightarrow> rates r' = rates r \<Longrightarrow> associations_ok r' = associations_ok r"
  by (simp add: associations_ok_def)

lemma settled_cong:
  assumes "ro_nodes r' = ro_nodes r" "ro_rules r' = ro_rules r" "ro_context r' = ro_context r" "rates r' = rates r"
  shows "settled r' = settled r"
proof -
  have p: "prescribed r' = prescribed r" by (intro ext) (simp only: prescribed_def assms)
  then have "rate_candidates r' = rate_candidates r" by (intro ext) (simp only: rate_candidates_def)
  then show ?thesis by (simp only: settled_def p assms(4))
qed

lemma nodes_ok_cong: "ro_nodes r' = ro_nodes r \<Longrightarrow> nodes_ok r' = nodes_ok r"
  by (simp add: nodes_ok_def)

lemma nodes_ok_mono:
  "nodes_ok r \<Longrightarrow> set (jvals (ro_nodes r')) \<subseteq> X \<union> set (jvals (ro_nodes r)) \<Longrightarrow> \<forall>node \<in> X. node_ok node \<Longrightarrow>
    nodes_ok r'"
  unfolding nodes_ok_def by blast

lemma router_inv_cong:
  assumes "ro_nodes r' = ro_nodes r" "ro_rules r' = ro_rules r" "ro_context r' = ro_context r" "rates r' = rates r"
    "ro_current r' = ro_current r"
  shows "router_inv r' = router_inv r"
  using settled_cong [OF assms(1-4)] associations_ok_cong [OF assms(5,4)] nodes_ok_cong [OF assms(1)]
  by (simp add: router_inv_def)

lemma evaluate_rules_inv:
  assumes "nodes_ok r" "associations_ok r"
  shows "\<exists>r'. evaluate_rules cr r = (None, r') \<and> router_inv r'"
  using evaluate_rules_spec [of r cr] assms by (auto simp: nodes_ok_def router_inv_def)

lemma drop_routes_ok:
  assumes "\<forall>node. readv = Some node \<longrightarrow> node_ok node"
  shows "\<exists>routes. drop_routes readv points r = (None, r\<lparr>ro_routes := routes\<rparr>)"
proof (induction points arbitrary: r)
  case Nil
  show ?case by (auto intro: exI [of _ "ro_routes r"])
next
  case (Cons p points)
  have "\<exists>routes. drop_routes readv (p # points) r = drop_routes readv points (r\<lparr>ro_routes := routes\<rparr>)"
  proof (cases readv)
    case (Some node)
    then have "elements_of (get_prop node ''ioSources'') = Inr (points_of ''ioSources'' node)"
      using assms by (simp add: node_ok_def elements_points)
    then show ?thesis
      using Some by (auto intro: exI [of _ "ro_routes r"] exI [of _ "jdel (point_id p) (ro_routes r)"])
  qed auto
  then obtain routes where s: "drop_routes readv (p # points) r = drop_routes readv points (r\<lparr>ro_routes := routes\<rparr>)"
    by blast
  show ?case unfolding s using Cons.IH [of "r\<lparr>ro_routes := routes\<rparr>"] by auto
qed

lemma set_jdel_subset: "set (jvals (jdel i m)) \<subseteq> set (jvals m)"
  by (auto simp: jdel_def)

lemma deregister_nodes_ok:
  assumes "nodes_ok r" "\<forall>node. readv = Some node \<longrightarrow> node_ok node"
  shows "\<exists>deregs' nodes routes. deregister_nodes readv ids deregs r = (None, deregs @ deregs', r\<lparr>ro_nodes := nodes, ro_routes := routes\<rparr>) \<and>
    set (jvals nodes) \<subseteq> set (jvals (ro_nodes r)) \<and> nodes = fold jdel ids (ro_nodes r) \<and>
    (readv = None \<longrightarrow> deregs' = [] \<longrightarrow> nodes = ro_nodes r)"
  using assms
proof (induction ids arbitrary: deregs r)
  case Nil
  then show ?case by (auto intro: exI [of _ "ro_routes r"] simp: exI [of _ "ro_nodes r"])
next
  case (Cons i ids)
  show ?case
  proof (cases "jget (ro_nodes r) i")
    case None
    then show ?thesis using Cons.IH [of r deregs] Cons.prems by (simp add: jdel_absent)
  next
    case (Some node)
    then have "node \<in> set (jvals (ro_nodes r))" by (force dest: map_of_SomeD)
    then have "node_ok node" using Cons.prems(1) unfolding nodes_ok_def by blast
    then have node: "elements_of (get_prop node ''ioSources'') = Inr (points_of ''ioSources'' node)"
      by (simp add: node_ok_def elements_points)
    let ?r = "r\<lparr>ro_nodes := jdel i (ro_nodes r)\<rparr>"
    obtain routes where d: "drop_routes readv (points_of ''ioSources'' node) ?r = (None, ?r\<lparr>ro_routes := routes\<rparr>)"
      using drop_routes_ok [OF Cons.prems(2)] by blast
    let ?r2 = "?r\<lparr>ro_routes := routes\<rparr>"
    let ?deregs = "if readv = None then deregs @ [node] else deregs"
    have step: "deregister_nodes readv (i # ids) deregs r = deregister_nodes readv ids ?deregs ?r2"
      using Some node d by simp
    have "nodes_ok ?r2"
      by (rule nodes_ok_mono [OF Cons.prems(1), of _ "{}"]) (use set_jdel_subset [of i "ro_nodes r"] in simp_all)
    then obtain deregs' nodes routes' where IH:
      "deregister_nodes readv ids ?deregs ?r2 = (None, ?deregs @ deregs', ?r2\<lparr>ro_nodes := nodes, ro_routes := routes'\<rparr>)"
      "set (jvals nodes) \<subseteq> set (jvals (jdel i (ro_nodes r)))" "nodes = fold jdel ids (jdel i (ro_nodes r))"
      using Cons.IH [of ?r2 ?deregs] Cons.prems(2) by auto
    have "?deregs @ deregs' = deregs @ (if readv = None then node # deregs' else deregs')" by simp
    then have "deregister_nodes readv (i # ids) deregs r =
        (None, deregs @ (if readv = None then node # deregs' else deregs'), r\<lparr>ro_nodes := nodes, ro_routes := routes'\<rparr>)"
      unfolding step IH(1) by simp
    moreover have "set (jvals nodes) \<subseteq> set (jvals (ro_nodes r))" by (rule subset_trans [OF IH(2) set_jdel_subset])
    moreover have "nodes = fold jdel (i # ids) (ro_nodes r)" using IH(3) by simp
    moreover have "readv = None \<longrightarrow> (if readv = None then node # deregs' else deregs') = [] \<longrightarrow> nodes = ro_nodes r"
      by simp
    ultimately show ?thesis by (intro exI conjI)
  qed
qed

text \<open>Losing nodes, with the rules evaluated if need be.\<close>

lemma io_nodes_deadvertised_ok:
  assumes "nodes_ok r" "associations_ok r" "readv = None \<longrightarrow> settled r" "\<forall>node. readv = Some node \<longrightarrow> node_ok node"
  shows "\<exists>r'. io_nodes_deadvertised cr ids readv r = (None, r') \<and> nodes_ok r' \<and> associations_ok r' \<and>
    (readv = None \<longrightarrow> settled r')"
proof -
  obtain deregs nodes routes where d:
    "deregister_nodes readv ids [] r = (None, deregs, r\<lparr>ro_nodes := nodes, ro_routes := routes\<rparr>)"
    "set (jvals nodes) \<subseteq> set (jvals (ro_nodes r))" "readv = None \<longrightarrow> deregs = [] \<longrightarrow> nodes = ro_nodes r"
    using deregister_nodes_ok [OF assms(1,4), of ids "[]"] by auto
  let ?r1 = "r\<lparr>ro_nodes := nodes, ro_routes := routes\<rparr>"
  have r1: "nodes_ok ?r1" by (rule nodes_ok_mono [OF assms(1), of _ "{}"]) (use d(2) in simp_all)
  have r1': "associations_ok ?r1"
    using associations_ok_cong [of ?r1 r] assms(2) rates_cong [of ?r1 r] by simp
  show ?thesis
  proof (cases "deregs = []")
    case True
    have "readv = None \<Longrightarrow> settled ?r1"
      using assms(3) d(3) True settled_cong [of ?r1 r] rates_cong [of ?r1 r] by simp
    then show ?thesis using True d(1) r1 r1' by (simp add: io_nodes_deadvertised_def)
  next
    case False
    then show ?thesis
      using d(1) evaluate_rules_inv [OF r1 r1', of cr] by (auto simp: io_nodes_deadvertised_def router_inv_def)
  qed
qed

lemma io_node_advertised_ok:
  assumes "router_inv r" "no_points (get_prop node ''ioSources'') \<and> no_points (get_prop node ''ioActors'') \<or> node_ok node"
  shows "\<exists>r'. io_node_advertised cr node r = (None, r') \<and> router_inv r'"
proof (cases "no_points (get_prop node ''ioSources'') \<and> no_points (get_prop node ''ioActors'')")
  case True
  then show ?thesis
    using io_nodes_deadvertised_ok [of r None cr "[point_id node]"] assms(1)
    by (auto simp: io_node_advertised_def router_inv_def)
next
  case False
  then have ok: "node_ok node" using assms(2) by blast
  obtain r1 where r1: "io_nodes_deadvertised cr [point_id node] (Some node) r = (None, r1)" "nodes_ok r1"
    "associations_ok r1"
    using io_nodes_deadvertised_ok [of r "Some node" cr "[point_id node]"] assms(1) ok
    by (auto simp: router_inv_def)
  let ?r2 = "r1\<lparr>ro_nodes := jset (point_id node) node (ro_nodes r1)\<rparr>"
  have "set (jvals (jset i v m)) \<subseteq> insert v (set (jvals m))" for i :: string and v :: jsv and m
    by (induction i v m rule: jset.induct) auto
  from this [of "point_id node" node "ro_nodes r1"] have "nodes_ok ?r2"
    by (intro nodes_ok_mono [OF r1(2), of _ "{node}"]) (use ok in simp_all)
  moreover have "associations_ok ?r2"
    using associations_ok_cong [of ?r2 r1] rates_cong [of ?r2 r1] r1(3) by simp
  ultimately show ?thesis
    using r1(1) False evaluate_rules_inv [of ?r2 cr] by (auto simp: io_node_advertised_def Let_def)
qed


lemma fold_router_disassociate:
  "rates (fold (\<lambda>(source, actor, rate). router_disassociate source actor) infos r) =
     (\<lambda>k. if k \<in> info_key ` set infos then None else rates r k)"
  by (induction infos arbitrary: r) (auto simp: fun_eq_iff info_key_def)

lemma on_stopping_ok: "router_inv r \<Longrightarrow> router_inv (on_stopping r)"
proof -
  assume inv: "router_inv r"
  have "rates (on_stopping r) = rates (fold (\<lambda>(source, actor, rate). router_disassociate source actor) (ro_current r) r)"
    by (rule rates_cong) (simp add: on_stopping_def on_stopped_def)
  also have "\<dots> = Map.empty"
  proof
    fix k
    show "rates (fold (\<lambda>(source, actor, rate). router_disassociate source actor) (ro_current r) r) k = None"
      using inv table_of_None [of k "ro_current r"] by (simp add: fold_router_disassociate router_inv_def associations_ok_def)
  qed
  finally have none: "rates (on_stopping r) = Map.empty" .
  have "prescribed (on_stopping r) s a = None" for s a
    by (simp add: prescribed_def on_stopping_def owner_def offered_def)
  then have "settled (on_stopping r)" using none by (simp add: settled_def)
  moreover have "associations_ok (on_stopping r)"
    using none by (simp add: associations_ok_def on_stopping_def on_stopped_def table_of_def fun_eq_iff)
  moreover have "nodes_ok (on_stopping r)" by (simp add: nodes_ok_def on_stopping_def)
  ultimately show ?thesis by (simp add: router_inv_def)
qed

lemma on_io_context_changed_ok:
  "nodes_ok r \<Longrightarrow> associations_ok r \<Longrightarrow> \<exists>r'. on_io_context_changed cr r = (None, r') \<and> router_inv r'"
  unfolding on_io_context_changed_def
  by (rule evaluate_rules_inv) (simp_all add: nodes_ok_def associations_ok_def)

lemma define_rules_ok:
  "nodes_ok r \<Longrightarrow> associations_ok r \<Longrightarrow> \<exists>r'. define_rules cr rules r = (None, r') \<and> router_inv r'"
  unfolding define_rules_def
  by (rule evaluate_rules_inv)
    (simp_all add: nodes_ok_def associations_ok_def rates_cong [of "_\<lparr>ro_rules := _\<rparr>"])

lemma publish_out_inv:
  "\<forall>o1 \<in> set os. \<forall>c d. o1 \<noteq> PublishAssociate c d \<Longrightarrow> router_inv (publish_out os r) = router_inv r"
  by (rule router_inv_cong) simp_all

lemma on_starting_ok: "router_inv r \<Longrightarrow> \<exists>r'. on_starting cr rulesOption r = (None, r') \<and> router_inv r'"
proof -
  assume "router_inv r"
  then have inv: "router_inv (publish_out [DiscoverIoNodes] r)" by (simp add: publish_out_inv)
  then have "\<exists>r2. (case rulesOption of None \<Rightarrow> (None, publish_out [DiscoverIoNodes] r)
      | Some rules \<Rightarrow> define_rules cr rules (publish_out [DiscoverIoNodes] r)) = (None, r2) \<and> router_inv r2"
    using define_rules_ok by (cases rulesOption) (auto simp: router_inv_def)
  then show ?thesis
    using on_io_context_changed_ok by (fastforce simp: on_starting_def Let_def router_inv_def)
qed

lemma update_io_context_ok:
  assumes "router_inv r"
  shows "\<exists>r'. update_io_context cr identityId obj r = (None, r') \<and> router_inv r'"
proof -
  let ?r = "r\<lparr>ro_context := set_prop ''parentObjectId'' (JStr identityId) obj\<rparr>"
  have "nodes_ok ?r" "associations_ok ?r"
    using assms nodes_ok_cong [of ?r r] associations_ok_cong [of ?r r] rates_cong [of ?r r]
    by (simp_all add: router_inv_def)
  then obtain r1 where r1: "on_io_context_changed cr ?r = (None, r1)" "router_inv r1"
    using on_io_context_changed_ok by blast
  then have "router_inv (publish_out [CompleteIoContext (ro_context r1)] r1)" by (simp add: publish_out_inv)
  then show ?thesis using r1 assms by (simp add: update_io_context_def Let_def)
qed

text \<open>An IO node whose arrays of sources and actors are both present, or both missing or empty.\<close>

definition complete_node :: "jsv \<Rightarrow> bool" where
  "complete_node obj =
    (no_points (get_prop obj ''ioSources'') \<and> no_points (get_prop obj ''ioActors'') \<or>
     is_object obj (Some ''IoNode'') \<and> get_prop obj ''ioSources'' \<noteq> JUndef \<and> get_prop obj ''ioActors'' \<noteq> JUndef)"

lemma complete_node_ok:
  assumes "complete_node obj"
  shows "no_points (get_prop obj ''ioSources'') \<and> no_points (get_prop obj ''ioActors'') \<or> node_ok obj"
proof -
  have rate: "point_rate p \<noteq> Some NaN" if "prop_opt num_not_negative p ''updateRate''" for p
    using that by (auto simp: prop_opt_def num_not_negative_def point_rate_def split: jsv.splits)
  have "node_ok obj" if node: "is_object obj (Some ''IoNode'')" "get_prop obj ''ioSources'' \<noteq> JUndef"
    "get_prop obj ''ioActors'' \<noteq> JUndef"
  proof -
    have "is_io_node obj" using node(1) by (simp add: is_object_Some is_assignable.simps [of obj "''IoNode''"])
    then obtain ss as where n: "get_prop obj ''ioSources'' = JArr ss" "\<forall>p \<in> set ss. is_io_source p"
      "get_prop obj ''ioActors'' = JArr as" "\<forall>p \<in> set as. is_io_actor p"
      using node(2,3) by (auto simp: is_io_node_def prop_opt_def array_of_def list_all_iff split: jsv.splits)
    then have "\<forall>p \<in> set ss. point_rate p \<noteq> Some NaN" "\<forall>p \<in> set as. point_rate p \<noteq> Some NaN"
      using rate unfolding is_io_source_def is_io_actor_def by blast+
    then show ?thesis using n by (auto simp: node_ok_def points_of_def)
  qed
  then show ?thesis using assms by (auto simp: complete_node_def)
qed

lemma router_step_ok:
  assumes "router_inv r" "\<forall>obj. e = IoNodeAdvertised obj \<longrightarrow> complete_node obj"
  shows "\<exists>r'. router_step cr identityId e r = (None, r') \<and> router_inv r'"
proof (cases e)
  case (IoNodeAdvertised obj)
  then show ?thesis using assms io_node_advertised_ok [OF assms(1) complete_node_ok] by auto
next
  case (IoNodesDeadvertised ids)
  then show ?thesis using assms(1) io_nodes_deadvertised_ok [of r None cr ids] by (auto simp: router_inv_def)
qed (use assms(1) on_starting_ok on_stopping_ok update_io_context_ok define_rules_ok publish_out_inv in
    \<open>auto simp: router_inv_def\<close>)

end
