(* ===== verification/IoRoutingProps.thy ===== *)
theory IoRoutingProps
  imports IoRoutingInv
begin

text \<open>
  Properties of the rule-based IO router: what it has established is what its rules prescribe, evaluating
  again changes nothing, and a node without an array of sources blocks it.
\<close>

section \<open>Properties\<close>

definition router_run :: "(string \<Rightarrow> string) \<Rightarrow> string \<Rightarrow> router_event list \<Rightarrow> io_router \<Rightarrow> io_router" where
  "router_run cr identityId es r = fold (\<lambda>e r. snd (router_step cr identityId e r)) es r"

definition complete_event :: "router_event \<Rightarrow> bool" where
  "complete_event e = (case e of IoNodeAdvertised obj \<Rightarrow> complete_node obj | _ \<Rightarrow> True)"

lemma router_init_inv: "router_init identityId ctx = Inr r \<Longrightarrow> router_inv r"
  by (auto simp: router_init_def router_inv_def associations_ok_def table_of_def rates_def established_def
      settled_def prescribed_def owner_def offered_def nodes_ok_def fun_eq_iff split: if_splits)

lemma router_run_inv: "router_inv r \<Longrightarrow> list_all complete_event es \<Longrightarrow> router_inv (router_run cr identityId es r)"
proof (induction es arbitrary: r)
  case (Cons e es)
  then have "\<forall>obj. e = IoNodeAdvertised obj \<longrightarrow> complete_node obj" by (auto simp: complete_event_def)
  then obtain r' where "router_step cr identityId e r = (None, r')" "router_inv r'"
    using router_step_ok [OF Cons.prems(1)] by blast
  then show ?case using Cons.IH [of r'] Cons.prems(2) by (simp add: router_run_def)
qed (simp add: router_run_def)

text \<open>C10: the associations that a rule-based router has established: after any sequence of starts and stops,
  rule definitions, context updates, and advertisements and deadvertisements of IO nodes that have
  both their arrays, no event handler throws, and the Associate events published so far associate
  a source with an actor exactly if the rules prescribe it for the nodes now managed; the last update
  rate published for the pair is the greatest rate of the source and of all actors prescribed for it.\<close>

theorem router_establishes_prescribed:
  assumes "router_init identityId ctx = Inr r0" "list_all complete_event es" "r = router_run cr identityId es r0"
    "complete_event e"
  shows "fst (router_step cr identityId e r) = None \<and>
    (case prescribed r s a of
       None \<Rightarrow> established (ro_out r) (s, a) = None
     | Some pair \<Rightarrow> (\<exists>route v. established (ro_out r) (s, a) = Some (route, v) \<and> greatest_rate (rate_candidates r s) v))"
proof
  have inv: "router_inv r" using router_run_inv [OF router_init_inv [OF assms(1)] assms(2)] assms(3) by simp
  show "fst (router_step cr identityId e r) = None"
    using router_step_ok [OF inv, of e cr identityId] assms(4)
    by (cases e) (auto simp: complete_event_def simp del: router_step.simps)
  have "case prescribed r s a of None \<Rightarrow> rates r (s, a) = None
     | Some pair \<Rightarrow> (\<exists>v. rates r (s, a) = Some v \<and> greatest_rate (rate_candidates r s) v)"
    using inv unfolding router_inv_def settled_def by blast
  then show "case prescribed r s a of
       None \<Rightarrow> established (ro_out r) (s, a) = None
     | Some pair \<Rightarrow> (\<exists>route v. established (ro_out r) (s, a) = Some (route, v) \<and> greatest_rate (rate_candidates r s) v)"
    by (auto simp: rates_def split: option.splits)
qed

lemma greatest_no_nan: "greatest_rate xs (rate_value rate) \<Longrightarrow> rate \<noteq> Some NaN"
  by (auto simp: greatest_rate_def rate_value_def split: if_splits)

lemma act_current_same:
  assumes "\<forall>i \<in> set cur. pair_of pairs (fst (info_key i)) (snd (info_key i)) = Some i \<and> snd (snd i) \<noteq> Some NaN"
    "distinct (map info_key cur)"
  shows "\<exists>pairs'. act_current cr cur (pairs, new, r) = (pairs', new @ cur, r)"
  using assms
proof (induction cur arbitrary: pairs new)
  case (Cons i cur)
  obtain source actor rate where i: "i = (source, actor, rate)" by (cases i)
  let ?pairs = "remove_pair (point_id source) (point_id actor) pairs"
  have key: "info_key i = (point_id source, point_id actor)" by (simp add: i info_key_def)
  have "info_key i \<notin> info_key ` set cur" using Cons.prems(2) by simp
  then have "\<not> (fst (info_key j) = point_id source \<and> snd (info_key j) = point_id actor)" if "j \<in> set cur" for j
    using that key by (metis imageI prod.collapse)
  then have "\<forall>j \<in> set cur. pair_of ?pairs (fst (info_key j)) (snd (info_key j)) = Some j \<and> snd (snd j) \<noteq> Some NaN"
    using Cons.prems(1) by (simp add: pair_of_remove)
  then obtain pairs' where "act_current cr cur (?pairs, new @ [i], r) = (pairs', (new @ [i]) @ cur, r)"
    using Cons.IH [of ?pairs "new @ [i]"] Cons.prems(2) by auto
  moreover have "\<not> rate_differs rate rate"
    using Cons.prems(1) by (cases rate) (auto simp: rate_differs_def rate_value_def num_eq_iff i)
  moreover have "jget pairs (point_id source) \<noteq> None \<and> pair_of pairs (point_id source) (point_id actor) = Some i"
    using Cons.prems(1) key by (auto simp: pair_of_def split: option.splits)
  ultimately show ?case by (auto simp: i pair_of_def split: option.splits)
qed simp

text \<open>Evaluating the rules again publishes nothing: a second evaluation with the nodes, rules and
  context unchanged leaves the router as it is, so a readvertised node or context that changes
  no association causes no Associate event.\<close>

theorem reevaluation_publishes_nothing:
  assumes "router_init identityId ctx = Inr r0" "list_all complete_event es" "r = router_run cr identityId es r0"
    "evaluate_rules cr r = (None, r1)"
  shows "\<exists>r2. evaluate_rules cr r1 = (None, r2) \<and> ro_out r2 = ro_out r1 \<and> ro_current r2 = ro_current r1"
proof -
  have inv: "router_inv r" using router_run_inv [OF router_init_inv [OF assms(1)] assms(2)] assms(3) by simp
  then have r1: "associations_ok r1" "settled r1" "ro_nodes r1 = ro_nodes r" "ro_rules r1 = ro_rules r"
    "ro_context r1 = ro_context r" "r1 = act_on_pairs cr (router_pairs r) r" "pairs_ok (router_pairs r)"
    using evaluate_rules_spec [of r cr] assms(4) by (auto simp: router_inv_def nodes_ok_def)
  let ?pairs = "router_pairs r"
  have "nodes_ok r1" using inv nodes_ok_cong [OF r1(3)] by (simp add: router_inv_def)
  then have again: "evaluate_rules cr r1 = (None, act_on_pairs cr ?pairs r1)"
    using evaluate_rules_spec [of r1 cr] r1(1) router_pairs_cong [OF r1(3-5)] by (auto simp: nodes_ok_def)
  have set: "i \<in> set (ro_current r1) \<longleftrightarrow> pair_of ?pairs (fst (info_key i)) (snd (info_key i)) = Some i" for i
    using act_on_pairs_spec(4) [OF r1(7), of r cr] inv r1(6) unfolding router_inv_def associations_ok_def by blast
  have dist: "distinct (map info_key (ro_current r1))" using r1(1) by (simp add: associations_ok_def)
  have "snd (snd i) \<noteq> Some NaN" if i: "i \<in> set (ro_current r1)" for i
  proof -
    have v: "rates r1 (info_key i) = Some (rate_value (snd (snd i)))"
      using r1(1) table_of_distinct [OF dist i] by (simp add: associations_ok_def info_rate_def)
    obtain s a where "info_key i = (s, a)" by (cases "info_key i")
    then have "greatest_rate (rate_candidates r1 s) (rate_value (snd (snd i)))"
      using r1(2) [unfolded settled_def, rule_format, of s a] v by (auto split: option.splits)
    then show ?thesis by (rule greatest_no_nan)
  qed
  then obtain pairs' where act: "act_current cr (ro_current r1) (?pairs, [], r1) = (pairs', ro_current r1, r1)"
    using act_current_same [OF _ dist, of ?pairs cr "[]" r1] set by auto
  have "\<forall>i \<in> set (ro_current r1). rates r1 (info_key i) = Some (info_rate i)"
    using r1(1) table_of_distinct [OF dist] by (simp add: associations_ok_def)
  note spec = act_current_spec [OF r1(7) dist this act]
  have "info \<notin> set (all_pairs pairs')" for info
    using set_all_pairs [of pairs' info] spec set [of info] by (auto split: if_splits)
  then have "all_pairs pairs' = []" by (metis list.set_intros(1) neq_Nil_conv)
  then have "act_on_pairs cr ?pairs r1 = r1"
    unfolding act_on_pairs_def act Let_def prod.case all_pairs_def [symmetric] by simp
  then show ?thesis using again by simp
qed


section \<open>A node without an array of sources\<close>

lemma collect_points_fails:
  "node \<in> set nodes \<Longrightarrow> elements_of (get_prop node ''ioSources'') = Inl e \<Longrightarrow>
    \<exists>e'. collect_points nodes state = Inl e'"
proof (induction nodes arbitrary: state)
  case (Cons n nodes)
  obtain sources actors where state: "state = (sources, actors)" by (cases state)
  show ?case
    using Cons by (cases "elements_of (get_prop n ''ioSources'')"; cases "elements_of (get_prop n ''ioActors'')")
      (auto simp: state)
qed simp

definition blocked :: "string \<Rightarrow> io_router \<Rightarrow> bool" where
  "blocked i r = (\<exists>node. jget (ro_nodes r) i = Some node \<and> get_prop node ''ioSources'' = JUndef)"

lemma blocked_evaluate:
  assumes "blocked i r"
  shows "\<exists>e. evaluate_rules cr r = (Some e, r)"
proof -
  obtain node where "jget (ro_nodes r) i = Some node" "get_prop node ''ioSources'' = JUndef"
    using assms by (auto simp: blocked_def)
  then have "node \<in> set (jvals (ro_nodes r))" "elements_of (get_prop node ''ioSources'') =
      Inl (TypeError ''cannot read property forEach of undefined'')"
    by (force dest: map_of_SomeD, simp add: elements_of_def)
  then show ?thesis
    using collect_points_fails [of node "jvals (ro_nodes r)" _ "([], [])"]
    by (auto simp: evaluate_rules_def get_compatible_associations_def)
qed

lemma drop_routes_frame: "\<exists>routes. snd (drop_routes readv points r) = r\<lparr>ro_routes := routes\<rparr>"
proof (induction points arbitrary: r)
  case Nil
  show ?case by (auto intro: exI [of _ "ro_routes r"])
next
  case (Cons p points)
  have "\<exists>routes. snd (drop_routes readv points (r\<lparr>ro_routes := x\<rparr>)) = r\<lparr>ro_routes := routes\<rparr>" for x
    using Cons.IH [of "r\<lparr>ro_routes := x\<rparr>"] by auto
  then show ?case
    using Cons.IH [of r] by (cases readv) (auto split: sum.split intro: exI [of _ "ro_routes r"])
qed

lemma deregister_nodes_frame:
  "i \<notin> set ids \<Longrightarrow>
    (let r' = snd (snd (deregister_nodes readv ids deregs r))
     in jget (ro_nodes r') i = jget (ro_nodes r) i \<and> ro_out r' = ro_out r)"
proof (induction ids arbitrary: deregs r)
  case (Cons j ids)
  show ?case
  proof (cases "jget (ro_nodes r) j")
    case None
    then show ?thesis using Cons by simp
  next
    case (Some node)
    let ?r1 = "r\<lparr>ro_nodes := jdel j (ro_nodes r)\<rparr>"
    show ?thesis
    proof (cases "elements_of (get_prop node ''ioSources'')")
      case (Inl e)
      then show ?thesis using Some Cons.prems by simp
    next
      case (Inr points)
      obtain err r2 where d: "drop_routes readv points ?r1 = (err, r2)" by (cases "drop_routes readv points ?r1")
      obtain routes where r2: "r2 = ?r1\<lparr>ro_routes := routes\<rparr>" using drop_routes_frame [of readv points ?r1] d by auto
      show ?thesis
        using Cons.IH [of "if readv = None then deregs @ [node] else deregs" r2] Cons.prems Some Inr d r2
        by (cases err) (simp_all add: Let_def)
    qed
  qed
qed simp

lemma io_nodes_deadvertised_blocked:
  assumes "blocked i r" "i \<notin> set ids"
  shows "blocked i (snd (io_nodes_deadvertised cr ids readv r)) \<and>
    ro_out (snd (io_nodes_deadvertised cr ids readv r)) = ro_out r"
proof -
  obtain err deregs r1 where d: "deregister_nodes readv ids [] r = (err, deregs, r1)" by (metis prod_cases3)
  have r1: "blocked i r1" "ro_out r1 = ro_out r"
    using deregister_nodes_frame [OF assms(2), of readv "[]" r] assms(1) d by (simp_all add: Let_def blocked_def)
  then show ?thesis
    using d blocked_evaluate [OF r1(1), of cr] by (cases err) (auto simp: io_nodes_deadvertised_def)
qed

text \<open>C40: an IO node that is valid, has actors but no array of sources (its validator lets it be missing,
  and the router itself tests for it), belongs to the router's context and is not managed yet blocks
  the router: the handler of its advertisement throws after it has made the node managed, and as long
  as it is managed the advertisement of any other node of the context that has sources or actors throws
  as well and publishes nothing, so that no association is made or ended.\<close>

theorem sourceless_node_blocks_router:
  assumes "get_prop node ''ioSources'' = JUndef" "\<not> no_points (get_prop node ''ioActors'')" "in_context node r"
    "jget (ro_nodes r) (point_id node) = None" "router_step cr identityId (IoNodeAdvertised node) r = (err, r1)"
  shows "err \<noteq> None \<and> r1 = r\<lparr>ro_nodes := jset (point_id node) node (ro_nodes r)\<rparr> \<and>
    ro_out r1 = ro_out r \<and> blocked (point_id node) r1 \<and>
    (\<forall>other r'. blocked (point_id node) r' \<longrightarrow> in_context other r' \<longrightarrow> point_id other \<noteq> point_id node \<longrightarrow>
      \<not> (no_points (get_prop other ''ioSources'') \<and> no_points (get_prop other ''ioActors'')) \<longrightarrow>
      (\<exists>e r2. router_step cr identityId (IoNodeAdvertised other) r' = (Some e, r2) \<and> ro_out r2 = ro_out r' \<and>
        blocked (point_id node) r2))"
proof (intro conjI allI impI)
  let ?r = "r\<lparr>ro_nodes := jset (point_id node) node (ro_nodes r)\<rparr>"
  have b: "blocked (point_id node) ?r" using assms(1) by (simp add: blocked_def)
  then obtain e where "evaluate_rules cr ?r = (Some e, ?r)" using blocked_evaluate by blast
  then have "(err, r1) = (Some e, ?r)"
    using assms(2-5) by (simp add: io_node_advertised_def io_nodes_deadvertised_def Let_def)
  then show "err \<noteq> None" "r1 = ?r" "ro_out r1 = ro_out r" "blocked (point_id node) r1" using b by simp_all
  fix other r'
  assume a: "blocked (point_id node) r'" "in_context other r'" "point_id other \<noteq> point_id node"
    "\<not> (no_points (get_prop other ''ioSources'') \<and> no_points (get_prop other ''ioActors''))"
  obtain err' r2 where d: "io_nodes_deadvertised cr [point_id other] (Some other) r' = (err', r2)"
    by (cases "io_nodes_deadvertised cr [point_id other] (Some other) r'")
  have r2: "blocked (point_id node) r2" "ro_out r2 = ro_out r'"
    using io_nodes_deadvertised_blocked [OF a(1), of "[point_id other]" cr "Some other"] a(3) d by auto
  let ?r2 = "r2\<lparr>ro_nodes := jset (point_id other) other (ro_nodes r2)\<rparr>"
  have "blocked (point_id node) ?r2" using r2(1) a(3) by (simp add: blocked_def)
  then show "\<exists>e r2. router_step cr identityId (IoNodeAdvertised other) r' = (Some e, r2) \<and> ro_out r2 = ro_out r' \<and>
      blocked (point_id node) r2"
    using a d r2 blocked_evaluate [of "point_id node" ?r2 cr]
    by (cases err') (auto simp: io_node_advertised_def Let_def)
qed


section \<open>A concrete router\<close>

definition io_object :: "string \<Rightarrow> string \<Rightarrow> string \<Rightarrow> (string \<times> jsv) list \<Rightarrow> jsv" where
  "io_object t oid nm ps = jobj ([(''objectId'', JStr oid), (''objectType'', JStr t), (''coreType'', JStr t),
     (''name'', JStr nm)] @ ps)"

definition thermometer :: jsv where
  "thermometer = io_object ''IoSource'' ''s'' ''thermometer'' [(''valueType'', JStr ''T''), (''updateRate'', jint 100)]"

definition display :: jsv where
  "display = io_object ''IoActor'' ''a'' ''display'' [(''valueType'', JStr ''T''), (''updateRate'', jint 250)]"

definition room_node :: jsv where
  "room_node = io_object ''IoNode'' ''n'' ''ctx'' [(''ioSources'', JArr [thermometer]), (''ioActors'', JArr [display])]"

definition bare_node :: jsv where
  "bare_node = io_object ''IoNode'' ''b'' ''ctx'' [(''ioActors'', JArr [display])]"

definition room_context :: jsv where
  "room_context = io_object ''IoContext'' ''c'' ''ctx'' []"

definition any_rule :: association_rule where
  "any_rule = \<lparr>ar_name = ''any'', ar_value_type = None, ar_condition = Some (\<lambda>s sn a an c. Inr True)\<rparr>"

definition room_events :: "router_event list" where
  "room_events = [Starting (Some [any_rule]), IoNodeAdvertised room_node]"

definition room_router :: io_router where
  "room_router = \<lparr>ro_context = set_prop ''parentObjectId'' (JStr ''id'') room_context, ro_nodes = [], ro_routes = [],
     ro_current = [], ro_rules = [], ro_out = []\<rparr>"

lemmas io_check_simps = is_object_Some is_io_node_def is_io_source_def is_io_actor_def is_object_base_def
  prop_opt_def array_of_def is_core_type_def core_types_map_def core_type_names_def object_type_prefix_def
  proto_prop_def object_proto_names_def num_not_negative_def num_le_def core_type_is_def

lemmas io_object_defs = io_object_def thermometer_def display_def room_node_def bare_node_def room_context_def

lemma room_valid:
  "is_object room_node (Some ''IoNode'')" "is_object bare_node (Some ''IoNode'')"
  by (simp_all add: is_assignable.simps [of _ "''IoNode''"] io_check_simps io_object_defs)

lemma room_complete: "complete_node room_node"
  using room_valid by (simp add: complete_node_def) (simp add: io_object_defs)

lemma room_init: "router_init ''id'' room_context = Inr room_router"
  by (simp add: router_init_def room_router_def room_context_def io_object_def)

lemma room_complete_events: "list_all complete_event room_events"
  by (simp add: room_events_def complete_event_def room_complete)

lemma room_rates: "point_rate thermometer = Some (Fin 100)" "point_rate display = Some (Fin 250)"
  by (simp_all add: point_rate_def io_object_defs)

lemma room_ids: "point_id thermometer = ''s''" "point_id display = ''a''" "point_id room_node = ''n''"
  "point_id bare_node = ''b''" "value_type thermometer = ''T''" "value_type display = ''T''"
  by (simp_all add: point_id_def value_type_def io_object_defs)

lemma room_props: "get_prop room_node ''ioSources'' = JArr [thermometer]"
  "get_prop room_node ''ioActors'' = JArr [display]" "get_prop room_node ''name'' = JStr ''ctx''"
  "are_value_types_compatible thermometer display" "room_node \<noteq> JUndef"
  "get_prop room_context ''name'' = JStr ''ctx''" "get_prop thermometer ''externalRoute'' = JUndef"
  by (simp_all add: are_value_types_compatible_def value_type_def io_object_defs proto_prop_def object_proto_names_def)

definition room_run :: io_router where
  "room_run = router_run (\<lambda>s. ''route'') ''id'' room_events room_router"

lemmas router_eval = room_run_def router_run_def room_events_def on_starting_def define_rules_def evaluate_rules_def
  get_compatible_associations_def room_router_def publish_out_def add_rule_def any_rule_def act_on_pairs_def Let_def
  compatible_pairs_def match_rules_def resolve_rates_def on_io_context_changed_def in_context_def room_props room_ids
  io_node_advertised_def no_points_def io_nodes_deadvertised_def elements_of_def own_points_def ca_matches_def
  rules_for_def rule_matches_def add_pair_def compute_cumulated_update_rate_def room_rates num_max_def

lemma room_state:
  "ro_nodes room_run = [(''n'', room_node)]" "ro_rules room_run = [([], [any_rule])]"
  by (simp_all add: router_eval)

lemma room_prescribed: "prescribed room_run ''s'' ''a'' = Some (thermometer, display)"
  by (simp add: prescribed_def room_state owner_def offered_def points_of_def room_props room_ids ca_matches_def
      rules_for_def rule_matches_def any_rule_def)

theorem router_establishes_prescribed_witness:
  "fst (router_step (\<lambda>s. ''route'') ''id'' Stopping room_run) = None \<and>
    (\<exists>route v. established (ro_out room_run) (''s'', ''a'') = Some (route, v) \<and>
      greatest_rate (rate_candidates room_run ''s'') v)"
  using router_establishes_prescribed [OF room_init room_complete_events, of room_run "\<lambda>s. ''route''" Stopping "''s''" "''a''"]
  by (simp add: room_run_def complete_event_def room_prescribed [unfolded room_run_def] del: router_step.simps)

theorem reevaluation_publishes_nothing_witness:
  "\<exists>r1 r2. evaluate_rules (\<lambda>s. ''route'') room_run = (None, r1) \<and> evaluate_rules (\<lambda>s. ''route'') r1 = (None, r2) \<and>
    ro_out r2 = ro_out r1"
proof -
  have "router_inv room_run"
    using router_run_inv [OF router_init_inv [OF room_init] room_complete_events] by (simp add: room_run_def)
  then obtain r1 where "evaluate_rules (\<lambda>s. ''route'') room_run = (None, r1)"
    using evaluate_rules_inv by (auto simp: router_inv_def)
  with reevaluation_publishes_nothing [OF room_init room_complete_events room_run_def this] show ?thesis by blast
qed

theorem sourceless_node_blocks_router_witness:
  "is_object bare_node (Some ''IoNode'') \<and> is_object room_node (Some ''IoNode'') \<and>
    (\<exists>err r1. router_step (\<lambda>s. ''route'') ''id'' (IoNodeAdvertised bare_node) room_run = (Some err, r1) \<and>
      ro_out r1 = ro_out room_run \<and>
      (\<exists>e r2. router_step (\<lambda>s. ''route'') ''id'' (IoNodeAdvertised room_node) r1 = (Some e, r2) \<and>
        ro_out r2 = ro_out room_run))"
proof -
  obtain err r1 where s: "router_step (\<lambda>s. ''route'') ''id'' (IoNodeAdvertised bare_node) room_run = (err, r1)"
    by (cases "router_step (\<lambda>s. ''route'') ''id'' (IoNodeAdvertised bare_node) room_run")
  have c: "ro_context room_run = ro_context room_router" by (simp add: router_eval)
  then have "in_context bare_node room_run"
    by (simp add: in_context_def room_router_def room_props) (simp add: io_object_defs)
  moreover have "get_prop bare_node ''ioSources'' = JUndef" "\<not> no_points (get_prop bare_node ''ioActors'')"
    by (simp_all add: no_points_def io_object_defs proto_prop_def object_proto_names_def)
  moreover have "jget (ro_nodes room_run) (point_id bare_node) = None" by (simp add: room_state room_ids)
  ultimately have t: "err \<noteq> None" "r1 = room_run\<lparr>ro_nodes := jset (point_id bare_node) bare_node (ro_nodes room_run)\<rparr>"
    "ro_out r1 = ro_out room_run" "blocked (point_id bare_node) r1"
    "\<forall>other r'. blocked (point_id bare_node) r' \<longrightarrow> in_context other r' \<longrightarrow> point_id other \<noteq> point_id bare_node \<longrightarrow>
      \<not> (no_points (get_prop other ''ioSources'') \<and> no_points (get_prop other ''ioActors'')) \<longrightarrow>
      (\<exists>e r2. router_step (\<lambda>s. ''route'') ''id'' (IoNodeAdvertised other) r' = (Some e, r2) \<and> ro_out r2 = ro_out r' \<and>
        blocked (point_id bare_node) r2)"
    using sourceless_node_blocks_router [OF _ _ _ _ s] by blast+
  have "in_context room_node r1"
    using c t(2) by (simp add: in_context_def room_router_def room_props)
  moreover have "point_id room_node \<noteq> point_id bare_node" by (simp add: room_ids)
  moreover have "\<not> no_points (get_prop room_node ''ioSources'')" by (simp add: no_points_def room_props)
  ultimately have "\<exists>e r2. router_step (\<lambda>s. ''route'') ''id'' (IoNodeAdvertised room_node) r1 = (Some e, r2) \<and>
      ro_out r2 = ro_out r1"
    using t(4,5) by blast
  then show ?thesis using s t(1,3) room_valid by auto
qed

end
