(* ===== verification/SqlText.thy ===== *)
theory SqlText
  imports InMemoryDb
begin

text \<open>
  SQL text, as the Postgres adapter and the SQL template function build it: the quoting functions
  of \<open>src/src/db/adapter-postgres/postgres-adapter.ts\<close>, template literals as lists of parts with their
  rendering, and the query builders \<open>SQL\<close> and \<open>RAW\<close> of \<open>src/src/db/db-operations.ts\<close>.

  White space between the words of a template is one blank.
\<close>

section \<open>Quoting\<close>

abbreviation quote :: char where "quote \<equiv> CHR 0x27"
abbreviation dquote :: char where "dquote \<equiv> CHR 0x22"
abbreviation backslash :: char where "backslash \<equiv> CHR 0x5C"

text \<open>\<open>asIdentifier\<close> and \<open>asLiteral\<close> on strings; the escape string form \<open>E'...'\<close> is used when the text has a
  backslash.\<close>

definition as_identifier :: "string \<Rightarrow> string" where
  "as_identifier text =
    [dquote] @ concat (map (\<lambda>c. if c = dquote then [c, c] else [c]) text) @ [dquote]"

definition as_literal :: "string \<Rightarrow> string" where
  "as_literal text =
    (let escaped = [quote] @ concat (map (\<lambda>c. if c = quote \<or> c = backslash then [c, c] else [c]) text) @ [quote]
     in if backslash \<in> set text then '' E'' @ escaped else escaped)"

definition as_jsonpath_literal :: "string \<Rightarrow> bool \<Rightarrow> string" where
  "as_jsonpath_literal text isFilterExpression =
    (if isFilterExpression then [] else [dquote]) @
    concat (map (\<lambda>c. if c = quote then [c, c]
       else if \<not> isFilterExpression \<and> (c = backslash \<or> c = dquote) then [backslash, c] else [c]) text) @
    (if isFilterExpression then [] else [dquote])"

text \<open>\<open>like2PosixRegex\<close>.\<close>

fun posix_regex_loop :: "string \<Rightarrow> bool \<Rightarrow> string \<Rightarrow> string" where
  "posix_regex_loop [] isEscaped regexStr = regexStr"
| "posix_regex_loop (c # cs) isEscaped regexStr =
    (if c = backslash then
       (if isEscaped then posix_regex_loop cs False (regexStr @ [backslash, backslash])
        else posix_regex_loop cs True regexStr)
     else if c \<in> set regex_special then posix_regex_loop cs False (regexStr @ [backslash, c])
     else if c = CHR ''_'' \<and> \<not> isEscaped then posix_regex_loop cs isEscaped (regexStr @ ''.'')
     else if c = CHR ''%'' \<and> \<not> isEscaped then posix_regex_loop cs isEscaped (regexStr @ ''.*'')
     else posix_regex_loop cs False (regexStr @ [c]))"

definition like2_posix_regex :: "string \<Rightarrow> string" where
  "like2_posix_regex likePattern = posix_regex_loop likePattern False ''^'' @ ''$''"

section \<open>Templates\<close>

text \<open>A template is a list of parts: constant text, and what the code substitutes: an identifier, a literal,
  the placeholder of a parameter with its number, or a jsonpath in quotes with its keys and JSON values.\<close>

datatype jsonpath_part = JText string | JKey string | JValue string

datatype sql_part = Text string | Ident string | Literal string | Param nat | JsonPath "jsonpath_part list"

fun render_jsonpath :: "jsonpath_part \<Rightarrow> string" where
  "render_jsonpath (JText s) = s"
| "render_jsonpath (JKey s) = as_jsonpath_literal s False"
| "render_jsonpath (JValue s) = as_jsonpath_literal s True"

fun render_part :: "sql_part \<Rightarrow> string" where
  "render_part (Text s) = s"
| "render_part (Ident s) = as_identifier s"
| "render_part (Literal s) = as_literal s"
| "render_part (Param n) = [CHR ''$''] @ show_nat n"
| "render_part (JsonPath ps) = [quote] @ concat (map render_jsonpath ps) @ [quote]"

definition render :: "sql_part list \<Rightarrow> string" where
  "render ps = concat (map render_part ps)"

text \<open>\<open>join\<close>.\<close>

fun join_parts :: "'a list \<Rightarrow> 'a list list \<Rightarrow> 'a list" where
  "join_parts sep [] = []"
| "join_parts sep [x] = x"
| "join_parts sep (x # y # ys) = x @ sep @ join_parts sep (y # ys)"

section \<open>The query builders\<close>

text \<open>A template literal tagged with \<open>SQL\<close>: the text before the first value, and each value with the text
  that follows it and its annotation, or a \<open>RAW\<close> query.\<close>

datatype sql_query = SQL string "(sql_value \<times> string) list" | RAW string "jsv list"
  and sql_value = Plain jsv | Sub sql_query

record sql_dialect =
  sd_placeholder :: string
  sd_append_index :: bool
  sd_identifier :: "jsv \<Rightarrow> string"
  sd_literal :: "jsv \<Rightarrow> string"

definition ident_annotation :: string where "ident_annotation = ''{IDENT}''"
definition lit_annotation :: string where "lit_annotation = ''{LIT}''"

definition raw_query :: "string \<Rightarrow> jsv list \<Rightarrow> string \<times> jsv list" where
  "raw_query text params = (text, params)"

text \<open>A function as a value cannot be quoted; it has no JSON text.\<close>

fun value_of :: "sql_value \<Rightarrow> jsv" where
  "value_of (Plain v) = v"
| "value_of (Sub q) = JFun ''builder''"

fun build_query :: "sql_dialect \<Rightarrow> bool \<Rightarrow> nat \<Rightarrow> sql_query \<Rightarrow> string \<times> jsv list"
  and build_values :: "sql_dialect \<Rightarrow> bool \<Rightarrow> nat \<Rightarrow> (sql_value \<times> string) list \<Rightarrow> string \<times> jsv list" where
  "build_query d embedParams startIndex (RAW text params) = raw_query text params"
| "build_query d embedParams startIndex (SQL part values) =
    (let (text, params) = build_values d embedParams startIndex values in (part @ text, params))"
| "build_values d embedParams startIndex [] = ([], [])"
| "build_values d embedParams startIndex ((v, nextPart) # values) =
    (if starts_with nextPart ident_annotation then
       (let (text, params) = build_values d embedParams startIndex values
        in (sd_identifier d (value_of v) @ drop (length ident_annotation) nextPart @ text, params))
     else if starts_with nextPart lit_annotation then
       (let (text, params) = build_values d embedParams startIndex values
        in (sd_literal d (value_of v) @ drop (length lit_annotation) nextPart @ text, params))
     else
       (case v of
          Sub q \<Rightarrow>
            (let (text1, innerParams) = build_query d embedParams startIndex q;
                 (text, params) = build_values d embedParams (startIndex + length innerParams) values
             in (text1 @ nextPart @ text, innerParams @ params))
        | Plain p \<Rightarrow>
            (let (text, params) = build_values d embedParams (Suc startIndex) values
             in ((if embedParams then sd_literal d p
                  else if sd_append_index d then sd_placeholder d @ show_nat (Suc startIndex)
                  else sd_placeholder d) @ nextPart @ text, p # params))))"

end
