(* ===== verification/PgSql.thy ===== *)
theory PgSql
  imports SqlText
begin

text \<open>
  The statements of the Postgres adapter, \<open>src/src/db/adapter-postgres/postgres-adapter.ts\<close>: JSON text, the
  WHERE clause of a filter with its parameters, the ORDER BY clause, joins, and the text and parameters
  of each operation. Statements are lists of parts (\<open>SqlText\<close>); \<open>render\<close> gives their text.

  The rendering of a number and the ISO text of a date are parameters, as is the conversion record of
  the matcher, which orders the bounds of a range. Property names of a filter are strings.
\<close>

section \<open>JSON text\<close>

record json_env =
  je_num :: "rat \<Rightarrow> string"
  je_date :: "jsnum \<Rightarrow> string"

definition hex_digit :: "nat \<Rightarrow> char" where
  "hex_digit n = ''0123456789abcdef'' ! n"

definition json_char :: "char \<Rightarrow> string" where
  "json_char c =
    (let n = (of_char c :: nat) in
     if c = dquote \<or> c = backslash then [backslash, c]
     else if n = 8 then [backslash, CHR ''b'']
     else if n = 9 then [backslash, CHR ''t'']
     else if n = 10 then [backslash, CHR ''n'']
     else if n = 12 then [backslash, CHR ''f'']
     else if n = 13 then [backslash, CHR ''r'']
     else if n < 32 then [backslash] @ ''u00'' @ [hex_digit (n div 16), hex_digit (n mod 16)]
     else [c])"

definition json_string :: "string \<Rightarrow> string" where
  "json_string s = [dquote] @ concat (map json_char s) @ [dquote]"

text \<open>\<open>JSON.stringify\<close>, which is undefined on \<open>undefined\<close> and functions, leaves out such members and writes
  \<open>null\<close> for such elements and for the numbers that JSON does not have. The members of a value are
  strings, so an integer-like key comes first only if it was first.\<close>

fun json_num :: "json_env \<Rightarrow> jsnum \<Rightarrow> string" where
  "json_num je (Fin r) = je_num je r"
| "json_num je n = ''null''"

fun json_text :: "json_env \<Rightarrow> jsv \<Rightarrow> string option" where
  "json_text je JUndef = None"
| "json_text je (JFun f) = None"
| "json_text je JNull = Some ''null''"
| "json_text je (JBool b) = Some (if b then ''true'' else ''false'')"
| "json_text je (JNum n) = Some (json_num je n)"
| "json_text je (JStr s) = Some (json_string s)"
| "json_text je (JArr xs) =
    Some (''['' @ join_parts '','' (map (\<lambda>x. case json_text je x of None \<Rightarrow> ''null'' | Some t \<Rightarrow> t) xs) @ '']'')"
| "json_text je (JObj pr ps) =
    Some (''{'' @ join_parts '','' (List.map_filter
       (\<lambda>(k, t). map_option (\<lambda>t. json_string k @ '':'' @ t) t)
       (map (\<lambda>p. (fst p, json_text je (snd p))) ps)) @ ''}'')"
| "json_text je (JDate n) = Some (if n = NaN then ''null'' else json_string (je_date je n))"
| "json_text je (JRegExp r) = Some ''{}''"

section \<open>Names and expressions\<close>

definition collection_schema :: string where "collection_schema = ''collections''"

definition table_id :: "string \<Rightarrow> sql_part list" where
  "table_id name = [Text (collection_schema @ ''.''), Ident name]"

text \<open>\<open>asLiteral\<close> on any value.\<close>

definition literal_of :: "json_env \<Rightarrow> jsv \<Rightarrow> js_error + sql_part" where
  "literal_of je v =
    (case v of
       JStr s \<Rightarrow> Inr (Literal s)
     | _ \<Rightarrow> (case json_text je v of
               Some t \<Rightarrow> Inr (Literal t)
             | None \<Rightarrow> Inl (TypeError ''cannot read property length of undefined'')))"

definition prop_names :: "jsv \<Rightarrow> string list" where
  "prop_names props = map (\<lambda>v. case v of JStr s \<Rightarrow> s | _ \<Rightarrow> []) (get_filter_properties props)"

definition object_indexer :: "string list \<Rightarrow> bool \<Rightarrow> sql_part list" where
  "object_indexer propsChain asText =
    (let arrow = (if asText then ''>'' else '''') in
     if length propsChain = 1 then [Text (''object ->'' @ arrow), Literal (hd propsChain)]
     else [Text (''object #>'' @ arrow @ ''array['')] @
       join_parts [Text '',''] (map (\<lambda>p. [Literal p]) propsChain) @ [Text '']''])"

definition jsonpath_keys :: "string list \<Rightarrow> jsonpath_part list" where
  "jsonpath_keys propsChain =
    (if propsChain = [] then [JText ''$'']
     else JText ''$.'' # join_parts [JText ''.''] (map (\<lambda>p. [JKey p]) propsChain))"

definition sort_order :: "jsv \<Rightarrow> string" where
  "sort_order order = (if order = JStr ''Asc'' then ''ASC'' else ''DESC'')"

definition order_by_clause :: "jsv \<Rightarrow> string \<Rightarrow> sql_part list" where
  "order_by_clause flt tableId =
    (if \<not> truthy flt \<or> \<not> truthy (get_prop flt ''orderByProperties'') then []
     else
       Text ''ORDER BY '' #
         join_parts [Text '', '']
           (map (\<lambda>order. (if tableId = '''' then [] else [Text tableId, Text ''.'']) @
               object_indexer (prop_names (arr_el order 0)) False @ [Text ('' '' @ sort_order (arr_el order 1))])
             (order_entries flt)))"

section \<open>The WHERE clause\<close>

record where_env =
  we_json :: json_env
  we_conv :: conv
  we_jsonpath :: bool
  we_embed :: bool

record where_state =
  ws_clauses :: "sql_part list list"
  ws_params :: "jsv list"
  ws_index :: nat
  ws_contains :: "(string list \<times> jsv) list"
  ws_not_contains :: "(string list \<times> jsv) list"

definition new_where :: where_state where
  "new_where = \<lparr>ws_clauses = [], ws_params = [], ws_index = 1, ws_contains = [], ws_not_contains = []\<rparr>"

definition push_clause :: "sql_part list \<Rightarrow> where_state \<Rightarrow> where_state" where
  "push_clause c st = st\<lparr>ws_clauses := ws_clauses st @ [c]\<rparr>"

text \<open>A clause with one more parameter.\<close>

definition push_with :: "sql_part list \<Rightarrow> jsv \<Rightarrow> where_state \<Rightarrow> where_state" where
  "push_with c p st =
    (push_clause c st)\<lparr>ws_params := ws_params st @ [p], ws_index := Suc (ws_index st)\<rparr>"

definition stringify :: "where_env \<Rightarrow> jsv \<Rightarrow> jsv" where
  "stringify we v = (case json_text (we_json we) v of Some t \<Rightarrow> JStr t | None \<Rightarrow> JUndef)"

definition para :: "where_env \<Rightarrow> jsv \<Rightarrow> nat \<Rightarrow> js_error + sql_part" where
  "para we param index = (if we_embed we then literal_of (we_json we) param else Inr (Param index))"

definition jsonpath_para :: "jsv \<Rightarrow> js_error + jsonpath_part" where
  "jsonpath_para param =
    (case param of
       JStr s \<Rightarrow> Inr (JValue s)
     | _ \<Rightarrow> Inl (TypeError ''cannot read property length of undefined''))"

definition jsonpath_clause :: "string \<Rightarrow> jsonpath_part list \<Rightarrow> sql_part list" where
  "jsonpath_clause operator path = [Text (''(object '' @ operator @ '' ''), JsonPath path, Text '')'']"

text \<open>A comparison of the indexed value with a JSON value, by a jsonpath operator or by an SQL operator.\<close>

definition compare_jsonpath :: "string \<Rightarrow> string list \<Rightarrow> jsv \<Rightarrow> where_state \<Rightarrow> js_error + where_state" where
  "compare_jsonpath operator props p1 st =
    rbind (jsonpath_para p1) (\<lambda>q.
      Inr (push_clause (jsonpath_clause ''@@'' (jsonpath_keys props @ [JText ('' '' @ operator @ '' ''), q])) st))"

definition compare_jsonb ::
  "where_env \<Rightarrow> string \<Rightarrow> string list \<Rightarrow> jsv \<Rightarrow> where_state \<Rightarrow> js_error + where_state" where
  "compare_jsonb we operator props p1 st =
    rbind (para we p1 (ws_index st)) (\<lambda>q.
      Inr (push_with ([Text ''(''] @ object_indexer props False @
        [Text ('' '' @ operator @ '' ''), q, Text ''::jsonb)'']) p1 st))"

definition compare_clause ::
  "where_env \<Rightarrow> string \<Rightarrow> string list \<Rightarrow> jsv \<Rightarrow> where_state \<Rightarrow> js_error + where_state" where
  "compare_clause we operator props opnd1 st =
    (if we_jsonpath we then compare_jsonpath operator props (stringify we opnd1) st
     else compare_jsonb we operator props (stringify we opnd1) st)"

definition check_existence :: "where_env \<Rightarrow> string list \<Rightarrow> bool \<Rightarrow> where_state \<Rightarrow> where_state" where
  "check_existence we props isNegated st =
    (if we_jsonpath we then
       push_clause (jsonpath_clause ''@@''
         ([JText ((if isNegated then ''!'' else '''') @ ''exists('')] @ jsonpath_keys props @ [JText '')''])) st
     else if props = [] then (if isNegated then push_clause [Text ''(false)''] st else st)
     else
       push_clause
         ([Text (''('' @ (if isNegated then ''NOT ('' else '''') @ ''object ? ''), Literal (hd props)] @
          concat (map (\<lambda>ip. Text '' AND '' # object_indexer (take ip props) False @
              [Text '' ? '', Literal (props ! ip)]) [1..<length props]) @
          [Text ((if isNegated then '')'' else '''') @ '')'')]) st)"

text \<open>Are the operands of a range in descending order?\<close>

definition swap_operands :: "where_env \<Rightarrow> jsv \<Rightarrow> jsv \<Rightarrow> js_error + bool" where
  "swap_operands we opnd1 opnd2 =
    matches_filter (we_conv we) (jobj [(''value'', opnd1)])
      (jobj [(''conditions'', JArr [JStr ''value'', op_expr GreaterThan [opnd2]])])"

definition range_clause ::
  "where_env \<Rightarrow> string \<Rightarrow> string \<Rightarrow> string \<Rightarrow> string \<Rightarrow> string list \<Rightarrow> jsv \<Rightarrow> jsv \<Rightarrow> where_state \<Rightarrow>
    js_error + where_state" where
  "range_clause we sqlOp lower combine upper props opnd1 opnd2 st =
    (let p1 = stringify we opnd1; p2 = stringify we opnd2 in
     if we_jsonpath we then
       rbind (swap_operands we opnd1 opnd2) (\<lambda>swapOpnds.
       rbind (jsonpath_para (if swapOpnds then p2 else p1)) (\<lambda>q1.
       rbind (jsonpath_para (if swapOpnds then p1 else p2)) (\<lambda>q2.
         Inr (push_clause (jsonpath_clause ''@?''
           (jsonpath_keys props @ [JText ('' ? (@ '' @ lower @ '' ''), q1,
              JText ('' '' @ combine @ '' @ '' @ upper @ '' ''), q2, JText '')''])) st))))
     else
       rbind (para we p1 (ws_index st)) (\<lambda>q1.
       rbind (para we p2 (Suc (ws_index st))) (\<lambda>q2.
         Inr ((push_clause ([Text ''(''] @ object_indexer props False @
             [Text ('' '' @ sqlOp @ '' SYMMETRIC ''), q1, Text ''::jsonb AND '', q2, Text ''::jsonb)'']) st)
           \<lparr>ws_params := ws_params st @ [p1, p2], ws_index := ws_index st + 2\<rparr>))))"

text \<open>The operand of \<open>Like\<close> is a string.\<close>

definition like_clause :: "where_env \<Rightarrow> string list \<Rightarrow> jsv \<Rightarrow> where_state \<Rightarrow> js_error + where_state" where
  "like_clause we props p1 st =
    (if we_jsonpath we then
       (case p1 of
          JStr pattern \<Rightarrow> compare_jsonpath ''like_regex'' props (JStr (json_string (like2_posix_regex pattern))) st
        | _ \<Rightarrow> Inl (TypeError ''pattern is no string''))
     else
       rbind (para we p1 (ws_index st)) (\<lambda>q.
         Inr (push_with ([Text ''(''] @ object_indexer props True @ [Text '' LIKE '', q, Text '')'']) p1 st)))"

definition is_primitive_operand :: "jsv \<Rightarrow> bool" where
  "is_primitive_operand v = (is_num v \<or> is_str v \<or> is_bool v \<or> \<not> truthy v)"

definition equals_clause ::
  "where_env \<Rightarrow> bool \<Rightarrow> string list \<Rightarrow> jsv \<Rightarrow> where_state \<Rightarrow> js_error + where_state" where
  "equals_clause we isNegated props opnd1 st =
    (if opnd1 = JUndef then Inr (check_existence we props (\<not> isNegated) st)
     else if is_primitive_operand opnd1 then
       (if we_jsonpath we then
          compare_jsonpath (if isNegated then ''!='' else ''=='') props (stringify we opnd1) st
        else Inr (if isNegated then st\<lparr>ws_not_contains := ws_not_contains st @ [(props, opnd1)]\<rparr>
                  else st\<lparr>ws_contains := ws_contains st @ [(props, opnd1)]\<rparr>))
     else compare_jsonb we (if isNegated then ''<>'' else ''='') props (stringify we opnd1) st)"

definition in_clause :: "where_env \<Rightarrow> string \<Rightarrow> string list \<Rightarrow> jsv \<Rightarrow> where_state \<Rightarrow> js_error + where_state" where
  "in_clause we sqlOp props opnd1 st =
    (if \<not> is_array opnd1 then Inl (TypeError ''operand for filter operator must be an array'')
     else
       (let p1 = stringify we opnd1 in
        rbind (para we p1 (ws_index st)) (\<lambda>q.
          Inr (push_with ([Text ''(''] @ object_indexer props False @
            [Text ('' '' @ sqlOp @ '' (SELECT value FROM jsonb_array_elements(''), q, Text ''::jsonb)))'']) p1 st))))"

definition where_condition :: "where_env \<Rightarrow> jsv \<Rightarrow> where_state \<Rightarrow> js_error + where_state" where
  "where_condition we cond st =
    (let props = prop_names (arr_el cond 0);
         expr = arr_el cond 1;
         opnd1 = arr_el expr 1;
         opnd2 = arr_el expr 2
     in case filter_op_of (arr_el expr 0) of
          Some LessThan \<Rightarrow> compare_clause we ''<'' props opnd1 st
        | Some LessThanOrEqual \<Rightarrow> compare_clause we ''<='' props opnd1 st
        | Some GreaterThan \<Rightarrow> compare_clause we ''>'' props opnd1 st
        | Some GreaterThanOrEqual \<Rightarrow> compare_clause we ''>='' props opnd1 st
        | Some Between \<Rightarrow> range_clause we ''BETWEEN'' ''>='' ''&&'' ''<='' props opnd1 opnd2 st
        | Some NotBetween \<Rightarrow> range_clause we ''NOT BETWEEN'' ''<'' ''||'' ''>'' props opnd1 opnd2 st
        | Some Like \<Rightarrow> like_clause we props opnd1 st
        | Some Equals \<Rightarrow> equals_clause we False props opnd1 st
        | Some NotEquals \<Rightarrow> equals_clause we True props opnd1 st
        | Some Exists \<Rightarrow> Inr (check_existence we props False st)
        | Some NotExists \<Rightarrow> Inr (check_existence we props True st)
        | Some Contains \<Rightarrow> Inr (st\<lparr>ws_contains := ws_contains st @ [(props, opnd1)]\<rparr>)
        | Some NotContains \<Rightarrow> Inr (st\<lparr>ws_not_contains := ws_not_contains st @ [(props, opnd1)]\<rparr>)
        | Some In \<Rightarrow> in_clause we ''in'' props opnd1 st
        | Some NotIn \<Rightarrow> in_clause we ''not in'' props opnd1 st
        | None \<Rightarrow> Inl (TypeError ''unknown filter operator''))"

fun where_conditions :: "where_env \<Rightarrow> jsv list \<Rightarrow> where_state \<Rightarrow> js_error + where_state" where
  "where_conditions we [] st = Inr st"
| "where_conditions we (cond # conds) st =
    (if \<not> is_array cond \<or> \<not> is_array (arr_el cond 1) then Inl (TypeError ''object is not iterable'')
     else rbind (where_condition we cond st) (where_conditions we conds))"

text \<open>The object that has the operand at the end of the property chain.\<close>

fun nested_object :: "string list \<Rightarrow> jsv \<Rightarrow> jsv" where
  "nested_object [] opnd = JObj NullProto []"
| "nested_object [p] opnd = JObj NullProto [(p, opnd)]"
| "nested_object (p # q # ps) opnd = JObj NullProto [(p, nested_object (q # ps) opnd)]"

fun check_containments ::
  "where_env \<Rightarrow> bool \<Rightarrow> (string list \<times> jsv) list \<Rightarrow> where_state \<Rightarrow> js_error + where_state" where
  "check_containments we isNegated [] st = Inr st"
| "check_containments we isNegated ((props, opnd) # cs) st =
    (let p1 = stringify we (nested_object props opnd) in
     rbind (para we p1 (ws_index st)) (\<lambda>q.
       check_containments we isNegated cs
         (push_with [Text (''('' @ (if isNegated then ''NOT '' else '''') @ ''object @> ''), q, Text ''::jsonb)''] p1 st)))"

text \<open>The conditions of a filter and whether they are combined by AND; a single condition is an AND of
  one.\<close>

definition where_conditions_of :: "jsv \<Rightarrow> js_error + (jsv list \<times> bool)" where
  "where_conditions_of conds =
    (case conds of
       JArr c \<Rightarrow> Inr ([conds], True)
     | _ \<Rightarrow>
         (let combineAnd = \<not> truthy (get_prop conds ''or'') in
          rbind (loop_values (get_prop conds (if combineAnd then ''and'' else ''or'')))
            (\<lambda>cs. Inr (cs, combineAnd))))"

definition where_clause :: "where_env \<Rightarrow> jsv \<Rightarrow> js_error + (sql_part list \<times> jsv list)" where
  "where_clause we flt =
    (if \<not> truthy flt \<or> \<not> truthy (get_prop flt ''conditions'') then Inr ([], [])
     else
       rbind (where_conditions_of (get_prop flt ''conditions'')) (\<lambda>(conds, combineAnd).
       rbind (where_conditions we conds new_where) (\<lambda>st1.
       rbind (check_containments we True (ws_not_contains st1) st1) (\<lambda>st2.
       rbind (check_containments we False (ws_contains st1) st2) (\<lambda>st.
         Inr (if ws_clauses st = [] then ([], [])
              else (Text ''WHERE '' #
                 join_parts [Text (if combineAnd then '' AND '' else '' OR '')] (ws_clauses st),
                 ws_params st)))))))"

section \<open>Joins\<close>

definition from_name :: "nat \<Rightarrow> string" where
  "from_name i = ''from'' @ show_nat i"

definition local_name :: string where "local_name = ''local''"

definition joined_select :: "nat \<Rightarrow> join_condition \<Rightarrow> sql_part list" where
  "joined_select i c =
    (let isSingleResult = jc_one c \<and> \<not> jc_array c;
         from = Text (from_name i);
         aggExpr = [Text ''COALESCE(jsonb_agg(DISTINCT '', from, Text ''.object ORDER BY '', from,
           Text ''.object ASC) FILTER (WHERE '', from, Text ''.object IS NOT NULL), '', Literal ''[]'',
           Text (''::jsonb)'' @ (if isSingleResult then ''->0'' else ''''))];
         buildExpr = [Text ''jsonb_build_object('', Literal (jc_as c), Text '', ''] @ aggExpr @ [Text '')'']
     in if isSingleResult then [Text ''jsonb_strip_nulls(''] @ buildExpr @ [Text '')''] else buildExpr)"

definition join_clause :: "nat \<Rightarrow> join_condition \<Rightarrow> sql_part list" where
  "join_clause i c =
    [Text ''LEFT OUTER JOIN ''] @ table_id (jc_from c) @
    [Text '' AS '', Text (from_name i), Text '' ON ('', Text (from_name i), Text ''.object->'',
     Literal (jc_from_prop c)] @
    (if jc_array c then
       [Text '' IN (SELECT value FROM jsonb_array_elements('', Text local_name, Text ''.object->'',
        Literal (jc_local c), Text '')))'']
     else [Text '' = '', Text local_name, Text ''.object->'', Literal (jc_local c), Text '')''])"

definition join_query :: "sql_part list \<Rightarrow> string \<Rightarrow> join_condition list \<Rightarrow> jsv \<Rightarrow> sql_part list" where
  "join_query query resultColumn joinConditions flt =
    (if joinConditions = [] then query @ [Text '';'']
     else
       [Text ''SELECT ('', Text local_name, Text ''.object || ''] @
       join_parts [Text '' || ''] (map (\<lambda>(i, c). joined_select i c) (enumerate 0 joinConditions)) @
       [Text '') as '', Text resultColumn, Text '' FROM (''] @ query @
       [Text '') as '', Text local_name, Text '' ''] @
       join_parts [Text '' ''] (map (\<lambda>(i, c). join_clause i c) (enumerate 0 joinConditions)) @
       [Text '' GROUP BY '', Text local_name, Text ''.object ''] @ order_by_clause flt local_name @ [Text '';''])"

section \<open>Statements\<close>

type_synonym statement = "sql_part list \<times> jsv list"

text \<open>The objects or ids given to an operation, as the text of a JSON array; a single one is given as a list
  of one.\<close>

definition query_values_on_objects :: "json_env \<Rightarrow> jsv list \<Rightarrow> jsv list" where
  "query_values_on_objects je objects =
    [case json_text je (JArr objects) of Some t \<Rightarrow> JStr t | None \<Rightarrow> JUndef]"

definition add_collection_sql :: "string \<Rightarrow> sql_part list" where
  "add_collection_sql name =
    [Text (''do $$ BEGIN CREATE SCHEMA IF NOT EXISTS '' @ collection_schema @
       ''; EXCEPTION when unique_violation then END; $$ language ''), Literal ''plpgsql'',
     Text ''; CREATE TABLE IF NOT EXISTS ''] @ table_id name @
    [Text '' ( objectid uuid PRIMARY KEY, object jsonb NOT NULL ); CREATE INDEX IF NOT EXISTS '',
     Ident (name @ ''_object_idx''), Text '' ON ''] @ table_id name @
    [Text '' USING GIN(object jsonb_path_ops);'']"

definition remove_collection_sql :: "string \<Rightarrow> sql_part list" where
  "remove_collection_sql name = [Text ''DROP TABLE IF EXISTS ''] @ table_id name @ [Text '';'']"

definition clear_collection_sql :: "string \<Rightarrow> sql_part list" where
  "clear_collection_sql name = [Text ''TRUNCATE TABLE ''] @ table_id name @ [Text '';'']"

definition insert_statement :: "json_env \<Rightarrow> string \<Rightarrow> jsv list \<Rightarrow> bool \<Rightarrow> statement" where
  "insert_statement je name objects shouldReplaceExisting =
    ([Text ''INSERT INTO ''] @ table_id name @
     [Text '' (objectid, object) SELECT (value->>'', Literal ''objectId'',
      Text '')::uuid, value FROM jsonb_array_elements('', Param 1, Text '') ON CONFLICT (objectid) '',
      Text (if shouldReplaceExisting then ''DO UPDATE SET object = EXCLUDED.object'' else ''DO NOTHING''),
      Text '' RETURNING objectid;''],
     query_values_on_objects je objects)"

definition update_statement :: "json_env \<Rightarrow> string \<Rightarrow> jsv list \<Rightarrow> statement" where
  "update_statement je name objects =
    ([Text ''UPDATE ''] @ table_id name @
     [Text '' SET object = objs.object FROM (SELECT (value->>'', Literal ''objectId'',
      Text '')::uuid as objectid, value as object FROM jsonb_array_elements('', Param 1, Text '')) as objs WHERE ''] @
     table_id name @ [Text ''.objectid = objs.objectid RETURNING ''] @ table_id name @ [Text ''.objectid;''],
     query_values_on_objects je objects)"

text \<open>The property is a parameter of its own: the one-element path that \<open>jsonb_set\<close> takes.\<close>

definition update_property_statement ::
  "json_env \<Rightarrow> string \<Rightarrow> jsv list \<Rightarrow> string \<Rightarrow> jsv \<Rightarrow> bool \<Rightarrow> statement" where
  "update_property_statement je name objectIds property v shouldCreateMissing =
    (let values = query_values_on_objects je objectIds @ [JArr [JStr property]];
         selected = [Text '' WHERE ''] @ table_id name @
           [Text ''.objectid in (SELECT value::uuid FROM jsonb_array_elements_text('', Param 1, Text ''));'']
     in if v \<noteq> JUndef then
          ([Text ''UPDATE ''] @ table_id name @
           [Text '' SET object = jsonb_set( object, '', Param 2, Text '', '', Param 3,
            Text (''::jsonb, '' @ (if shouldCreateMissing then ''true'' else ''false'') @ '')'')] @ selected,
           values @ [case json_text je v of Some t \<Rightarrow> JStr t | None \<Rightarrow> JUndef])
        else
          ([Text ''UPDATE ''] @ table_id name @ [Text '' SET object = object - '', Param 2] @ selected, values))"

definition delete_by_id_statement :: "json_env \<Rightarrow> string \<Rightarrow> jsv list \<Rightarrow> statement" where
  "delete_by_id_statement je name objectIds =
    ([Text ''DELETE FROM ''] @ table_id name @
     [Text '' WHERE objectid in (SELECT value::uuid FROM jsonb_array_elements_text('', Param 1,
      Text '')) RETURNING objectid;''],
     query_values_on_objects je objectIds)"

text \<open>The statements with a WHERE clause depend on the server (\<open>we_jsonpath\<close>, version 12 or later); only a
  query fetched in chunks embeds its parameters.\<close>

definition supports_jsonpath :: "nat \<Rightarrow> bool" where
  "supports_jsonpath majorVersion = (majorVersion \<ge> 12)"

definition delete_statement :: "where_env \<Rightarrow> string \<Rightarrow> jsv \<Rightarrow> js_error + statement" where
  "delete_statement we name flt =
    rbind (where_clause (we\<lparr>we_embed := False\<rparr>) flt) (\<lambda>(whereClause, whereParams).
      Inr ([Text ''DELETE FROM ''] @ table_id name @ [Text '' ''] @ whereClause @
        [Text '' RETURNING objectid;''], whereParams))"

definition find_by_id_statement :: "where_env \<Rightarrow> string \<Rightarrow> string \<Rightarrow> bool \<Rightarrow> js_error + statement" where
  "find_by_id_statement we name i isExternalId =
    (if isExternalId then
       rbind (where_clause (we\<lparr>we_embed := False\<rparr>)
           (jobj [(''conditions'', JArr [JStr ''externalId'', op_expr Equals [JStr i]])]))
         (\<lambda>(whereClause, whereParams).
            Inr ([Text ''SELECT object FROM ''] @ table_id name @ [Text '' ''] @ whereClause @ [Text '';''],
              whereParams))
     else
       Inr ([Text ''SELECT object FROM ''] @ table_id name @ [Text '' WHERE objectid = '', Param 1, Text '';''],
         [JStr i]))"

definition count_statement :: "where_env \<Rightarrow> string \<Rightarrow> jsv \<Rightarrow> js_error + statement" where
  "count_statement we name flt =
    rbind (where_clause (we\<lparr>we_embed := False\<rparr>) flt) (\<lambda>(whereClause, whereParams).
      Inr ([Text ''SELECT COUNT(objectid) FROM ''] @ table_id name @ [Text '' ''] @ whereClause @ [Text '';''],
        whereParams))"

definition aggregate_params :: "aggregate_op \<Rightarrow> string \<times> string" where
  "aggregate_params aggregateOp =
    (case aggregateOp of
       Avg \<Rightarrow> (''avg'', ''float'')
     | Sum \<Rightarrow> (''sum'', ''float'')
     | Max \<Rightarrow> (''max'', ''float'')
     | Min \<Rightarrow> (''min'', ''float'')
     | Every \<Rightarrow> (''bool_and'', ''boolean'')
     | SomeOf \<Rightarrow> (''bool_or'', ''boolean''))"

definition aggregate_statement :: "where_env \<Rightarrow> string \<Rightarrow> jsv \<Rightarrow> aggregate_op \<Rightarrow> jsv \<Rightarrow> js_error + statement"
  where
  "aggregate_statement we name aggregateProps aggregateOp flt =
    (let (aggFunc, aggType) = aggregate_params aggregateOp in
     rbind (where_clause (we\<lparr>we_embed := False\<rparr>) flt) (\<lambda>(whereClause, whereParams).
      Inr ([Text (''SELECT '' @ aggFunc @ ''(('')] @ object_indexer (prop_names aggregateProps) True @
        [Text (''))::'' @ aggType @ '') AS result FROM '')] @ table_id name @ [Text '' ''] @ whereClause @
        [Text '';''], whereParams)))"

text \<open>LIMIT and OFFSET; the text of a number that is not finite is its name.\<close>

fun number_text :: "json_env \<Rightarrow> jsnum \<Rightarrow> string" where
  "number_text je NaN = ''NaN''"
| "number_text je PosInf = ''Infinity''"
| "number_text je NegInf = ''-Infinity''"
| "number_text je (Fin r) = je_num je r"

definition at_least_zero :: "where_env \<Rightarrow> jsv \<Rightarrow> jsnum" where
  "at_least_zero we v = num_max (Fin 0) (to_num (we_conv we) v)"

definition limit_text :: "where_env \<Rightarrow> bool \<Rightarrow> jsv \<Rightarrow> string" where
  "limit_text we fetchInChunks flt =
    (if \<not> fetchInChunks \<and> truthy flt \<and> get_prop flt ''take'' \<noteq> JUndef
     then number_text (we_json we) (at_least_zero we (get_prop flt ''take'')) else ''ALL'')"

definition offset_text :: "where_env \<Rightarrow> bool \<Rightarrow> jsv \<Rightarrow> string" where
  "offset_text we fetchInChunks flt =
    (if \<not> fetchInChunks \<and> truthy flt \<and> get_prop flt ''skip'' \<noteq> JUndef
     then number_text (we_json we) (at_least_zero we (get_prop flt ''skip'')) else ''0'')"

definition fetch_in_chunks_wanted :: "jsv \<Rightarrow> bool" where
  "fetch_in_chunks_wanted flt = (truthy flt \<and> truthy (get_prop flt ''shouldFetchInChunks''))"

definition find_statement :: "where_env \<Rightarrow> string \<Rightarrow> jsv \<Rightarrow> join_condition list \<Rightarrow> js_error + statement" where
  "find_statement we name flt joinConditions =
    (let fetchInChunks = fetch_in_chunks_wanted flt in
     rbind (where_clause (we\<lparr>we_embed := fetchInChunks\<rparr>) flt) (\<lambda>(whereClause, whereParams).
       (let query = join_query
          ([Text ''SELECT object FROM ''] @ table_id name @ [Text '' ''] @ whereClause @ [Text '' ''] @
           order_by_clause flt '''' @
           [Text '' LIMIT '', Text (limit_text we fetchInChunks flt), Text '' OFFSET '',
            Text (offset_text we fetchInChunks flt)])
          ''object'' joinConditions flt
        in Inr (query, if fetchInChunks then [] else whereParams))))"

text \<open>The administrative statements.\<close>

definition create_user_sql :: "string \<Rightarrow> string \<Rightarrow> sql_part list" where
  "create_user_sql name password =
    [Text ''CREATE ROLE '', Ident name, Text '' LOGIN PASSWORD '', Literal password,
     Text '' NOSUPERUSER INHERIT CREATEDB NOCREATEROLE NOREPLICATION;'']"

definition user_exists_sql :: "string \<Rightarrow> sql_part list" where
  "user_exists_sql name = [Text ''SELECT true FROM pg_roles WHERE rolname = '', Literal name, Text '';'']"

definition comment_sql :: "string \<Rightarrow> string \<Rightarrow> string \<Rightarrow> sql_part list" where
  "comment_sql kind name comment =
    [Text (''COMMENT ON '' @ kind @ '' ''), Ident name, Text '' IS '', Literal comment, Text '';'']"

definition delete_user_sql :: "string \<Rightarrow> sql_part list" where
  "delete_user_sql name = [Text ''DROP ROLE IF EXISTS '', Ident name, Text '';'']"

definition database_exists_sql :: "string \<Rightarrow> sql_part list" where
  "database_exists_sql name = [Text ''SELECT true FROM pg_database WHERE datname = '', Literal name, Text '';'']"

definition create_database_sql :: "string \<Rightarrow> string \<Rightarrow> sql_part list" where
  "create_database_sql name owner =
    [Text ''CREATE DATABASE '', Ident name, Text '' WITH OWNER = '', Ident owner, Text '' ENCODING = '',
     Literal ''UTF8'', Text '';'']"

definition delete_database_sql :: "string \<Rightarrow> sql_part list" where
  "delete_database_sql name = [Text ''DROP DATABASE IF EXISTS '', Ident name, Text '';'']"

text \<open>The statements of \<open>createUser\<close> and \<open>createDatabase\<close> in order: the second and the third only if the
  first finds no row, the third only with a comment; and whether something was created.\<close>

definition create_user :: "bool \<Rightarrow> string \<Rightarrow> string \<Rightarrow> string \<Rightarrow> sql_part list list \<times> bool" where
  "create_user found name password comment =
    (if found then ([user_exists_sql name], False)
     else ([user_exists_sql name, create_user_sql name password] @
       (if comment \<noteq> '''' then [comment_sql ''ROLE'' name comment] else []), True))"

definition create_database :: "bool \<Rightarrow> string \<Rightarrow> string \<Rightarrow> string \<Rightarrow> sql_part list list \<times> bool" where
  "create_database found name owner comment =
    (if found then ([database_exists_sql name], False)
     else ([database_exists_sql name, create_database_sql name owner] @
       (if comment \<noteq> '''' then [comment_sql ''DATABASE'' name comment] else []), True))"

end
