(* ===== verification/SqlTextProps.thy ===== *)
theory SqlTextProps
  imports SqlText
begin

text \<open>
  The text that SQL queries are built into: the numbering of the placeholders of nested queries, and the
  agreement of the two conversions of LIKE patterns.
\<close>

section \<open>Placeholders of nested queries\<close>

text \<open>The reference: a query is the sequence of its texts and values, subqueries in place. A RAW query is its
  text, with its own parameters.\<close>

datatype query_item = QText string | QIdent jsv | QLiteral jsv | QParam jsv | QRaw string "jsv list"

fun flatten_query :: "sql_query \<Rightarrow> query_item list"
  and flatten_values :: "(sql_value \<times> string) list \<Rightarrow> query_item list" where
  "flatten_query (RAW text params) = [QRaw text params]"
| "flatten_query (SQL part values) = QText part # flatten_values values"
| "flatten_values [] = []"
| "flatten_values ((v, nextPart) # values) =
    (if starts_with nextPart ident_annotation then
       [QIdent (value_of v), QText (drop (length ident_annotation) nextPart)]
     else if starts_with nextPart lit_annotation then
       [QLiteral (value_of v), QText (drop (length lit_annotation) nextPart)]
     else (case v of Sub q \<Rightarrow> flatten_query q | Plain p \<Rightarrow> [QParam p]) @ [QText nextPart]) @
    flatten_values values"

fun item_params :: "query_item \<Rightarrow> jsv list" where
  "item_params (QParam v) = [v]"
| "item_params (QRaw text params) = params"
| "item_params i = []"

text \<open>The placeholder of a value has the number of its position among all parameters of the query.\<close>

fun item_text :: "sql_dialect \<Rightarrow> bool \<Rightarrow> nat \<Rightarrow> query_item \<Rightarrow> string" where
  "item_text d embedParams n (QText s) = s"
| "item_text d embedParams n (QIdent v) = sd_identifier d v"
| "item_text d embedParams n (QLiteral v) = sd_literal d v"
| "item_text d embedParams n (QParam v) =
    (if embedParams then sd_literal d v
     else if sd_append_index d then sd_placeholder d @ show_nat (Suc n) else sd_placeholder d)"
| "item_text d embedParams n (QRaw text params) = text"

fun items_text :: "sql_dialect \<Rightarrow> bool \<Rightarrow> nat \<Rightarrow> query_item list \<Rightarrow> string" where
  "items_text d embedParams n [] = []"
| "items_text d embedParams n (i # is) =
    item_text d embedParams n i @ items_text d embedParams (n + length (item_params i)) is"

definition items_params :: "query_item list \<Rightarrow> jsv list" where
  "items_params is = concat (map item_params is)"

lemma items_params_simps [simp]:
  "items_params [] = []" "items_params (i # is) = item_params i @ items_params is"
  "items_params (is @ js) = items_params is @ items_params js"
  by (simp_all add: items_params_def)

lemma items_text_append:
  "items_text d e n (is @ js) = items_text d e n is @ items_text d e (n + length (items_params is)) js"
  by (induction "is" arbitrary: n) (simp_all add: add.assoc)

lemma build_query_items:
  "build_query d e n q = (items_text d e n (flatten_query q), items_params (flatten_query q))"
  "build_values d e n vs = (items_text d e n (flatten_values vs), items_params (flatten_values vs))"
  by (induction d e n q and d e n vs rule: build_query_build_values.induct)
     (auto simp: raw_query_def items_text_append split: sql_value.splits)

text \<open>C31: the builder of a query, with subqueries nested to any depth, gives the text of the query with its
  subqueries in place, where the k-th bound value over all nesting levels has the placeholder number
  k and annotated values are quoted in place, and the bound values in the same order.\<close>

theorem build_query_flat:
  "build_query d embedParams 0 q =
    (items_text d embedParams 0 (flatten_query q), items_params (flatten_query q))"
  by (rule build_query_items(1))

section \<open>LIKE patterns\<close>

lemma posix_regex_loop: "posix_regex_loop s isEscaped acc = acc @ like_regex_loop s isEscaped"
  by (induction s arbitrary: isEscaped acc) simp_all

text \<open>For every pattern the Postgres adapter asks the server for the regular expression that the object
  matcher uses, so that the operator Like means the same in both databases as far as their regular
  expressions agree.\<close>

theorem like2_posix_regex_matcher: "like2_posix_regex pattern = create_like_regexp pattern"
  by (simp add: like2_posix_regex_def create_like_regexp_def posix_regex_loop)

end
