(* ===== verification/PgFetch.thy ===== *)
theory PgFetch
  imports PgSql
begin

text \<open>
  How the Postgres adapter talks to the server, \<open>src/src/db/adapter-postgres/postgres-adapter.ts\<close>: fetching
  the rows of a query in chunks from a cursor or at once, transactions, and the pool of a connection.

  The server is a parameter (\<open>pg_server\<close>): whether it accepts a command, and what reading a cursor
  gives. A run of an operation yields what its promise settles with, what the iterator's actions were
  given, and the calls on the pooled client in order. Take and skip are whole numbers.
\<close>

section \<open>The pooled client\<close>

datatype client_call = CBegin | CDeclare | CRead nat nat | CClose | CCommit | CRollback | CRelease bool

record 'c pg_server =
  sv_connect :: "js_error option"
  sv_declare :: "js_error + 'c"
  sv_read :: "nat \<Rightarrow> nat \<Rightarrow> 'c \<Rightarrow> js_error + jsv list \<times> 'c"
  sv_command :: "client_call \<Rightarrow> js_error option"

text \<open>\<open>queryCursorLazy\<close>: a cursor lives in a transaction block, which is opened unless the client has one.\<close>

definition query_cursor :: "'c pg_server \<Rightarrow> bool \<Rightarrow> (js_error + 'c) \<times> client_call list" where
  "query_cursor sv isTransactionClient =
    (if isTransactionClient then (sv_declare sv, [CDeclare])
     else
       (case sv_command sv CBegin of
          Some e \<Rightarrow> (Inl e, [CBegin])
        | None \<Rightarrow> (sv_declare sv, [CBegin, CDeclare])))"

definition declare_cursor_sql :: "string \<Rightarrow> sql_part list \<Rightarrow> sql_part list" where
  "declare_cursor_sql cursor query =
    [Text ''DECLARE '', Ident cursor, Text '' NO SCROLL CURSOR WITHOUT HOLD FOR ''] @ query"

definition read_cursor_sql :: "string \<Rightarrow> nat \<Rightarrow> nat \<Rightarrow> sql_part list" where
  "read_cursor_sql cursor takeCount skipCount =
    (if skipCount \<noteq> 0 then [Text (''MOVE '' @ show_nat skipCount @ '' FROM ''), Ident cursor, Text ''; ''] else []) @
    [Text (''FETCH '' @ show_nat takeCount @ '' FROM ''), Ident cursor, Text '';'']"

text \<open>\<open>closeCursor\<close> and \<open>releaseIfNotTx\<close>; a failed end of the block destroys the client.\<close>

definition close_call :: "bool \<Rightarrow> bool \<Rightarrow> client_call" where
  "close_call isTransactionClient error =
    (if isTransactionClient then CClose else if error then CRollback else CCommit)"

definition close_and_release :: "'c pg_server \<Rightarrow> bool \<Rightarrow> bool \<Rightarrow> client_call list" where
  "close_and_release sv isTransactionClient error =
    (let call = close_call isTransactionClient error
     in [call] @ (if isTransactionClient then [] else [CRelease (sv_command sv call \<noteq> None)]))"

section \<open>Fetching\<close>

text \<open>The rows of a chunk, given to the actions one after the other; the flag says whether the limit was
  reached (a limit that is not positive is none).\<close>

fun yield_rows :: "consumer \<Rightarrow> int \<Rightarrow> jsv list \<Rightarrow> query_run \<Rightarrow> query_run \<times> bool" where
  "yield_rows c limit [] q = (q, False)"
| "yield_rows c limit (obj # objs) q =
    (let q' = yield_item c obj q in
     if qr_break q' then (q', False)
     else if limit > 0 \<and> int (qr_count q') \<ge> limit then (q', True)
     else yield_rows c limit objs q')"

type_synonym fetch_result = "(js_error + nat \<times> bool) \<times> query_out list \<times> client_call list"

partial_function (option) fetch_next_chunk ::
  "'c pg_server \<Rightarrow> bool \<Rightarrow> int \<Rightarrow> nat \<Rightarrow> consumer \<Rightarrow> 'c \<Rightarrow> nat \<Rightarrow> query_run \<Rightarrow> client_call list
    \<Rightarrow> fetch_result option" where
  "fetch_next_chunk sv isTx limit fetchSize c cursor skipCount q calls =
    (case sv_read sv fetchSize skipCount cursor of
       Inl e \<Rightarrow> Some (Inl e, qr_out q, calls @ [CRead fetchSize skipCount] @ close_and_release sv isTx True)
     | Inr r \<Rightarrow>
         (let q' = fst (yield_rows c limit (fst r) q); allTaken = snd (yield_rows c limit (fst r) q) in
          if qr_break q' \<or> allTaken \<or> length (fst r) < fetchSize then
            Some (Inr (qr_count (last_batch c q'), qr_break (last_batch c q')), qr_out (last_batch c q'),
              calls @ [CRead fetchSize skipCount] @ close_and_release sv isTx False)
          else fetch_next_chunk sv isTx limit fetchSize c (snd r) 0 q' (calls @ [CRead fetchSize skipCount])))"

definition take_limit :: "int option \<Rightarrow> int" where
  "take_limit takeCount = (case takeCount of Some t \<Rightarrow> max 0 t | None \<Rightarrow> -1)"

definition skip_count :: "int option \<Rightarrow> nat" where
  "skip_count skip = (case skip of Some s \<Rightarrow> nat (max 0 s) | None \<Rightarrow> 0)"

text \<open>The iteration of \<open>_fetchInChunks\<close> when it is started, on the client of the adapter's transaction or on
  a pooled one.\<close>

definition fetch_in_chunks ::
  "'c pg_server \<Rightarrow> bool \<Rightarrow> nat \<Rightarrow> int option \<Rightarrow> int option \<Rightarrow> consumer \<Rightarrow> fetch_result option" where
  "fetch_in_chunks sv isTx fetchSize takeCount skip c =
    (case if isTx then None else sv_connect sv of
       Some e \<Rightarrow> Some (Inl e, [], [])
     | None \<Rightarrow>
         (case query_cursor sv isTx of
            (Inl e, calls) \<Rightarrow> Some (Inl e, [], calls)
          | (Inr cursor, calls) \<Rightarrow>
              if take_limit takeCount = 0 then Some (Inr (0, False), [], calls)
              else fetch_next_chunk sv isTx (take_limit takeCount) fetchSize c cursor (skip_count skip) new_run calls))"

text \<open>\<open>_fetchOnce\<close> on the rows of the query.\<close>

definition fetch_once :: "js_error + jsv list \<Rightarrow> consumer \<Rightarrow> (js_error + nat \<times> bool) \<times> query_out list" where
  "fetch_once queried c =
    (case queried of
       Inl e \<Rightarrow> (Inl e, [])
     | Inr rows \<Rightarrow>
         (let q = last_batch c (fst (yield_rows c 0 rows new_run)) in
          (Inr (qr_count q, qr_break q), qr_out q)))"

definition default_fetch_size :: int where "default_fetch_size = 100"
definition minimum_fetch_size :: int where "minimum_fetch_size = 10"

definition fetch_size :: "int option \<Rightarrow> int option \<Rightarrow> nat" where
  "fetch_size filterFetchSize adapterFetchSize =
    nat (max minimum_fetch_size
      (case filterFetchSize of
         Some n \<Rightarrow> if n \<noteq> 0 then n
           else (case adapterFetchSize of Some m \<Rightarrow> if m \<noteq> 0 then m else default_fetch_size | None \<Rightarrow> default_fetch_size)
       | None \<Rightarrow> (case adapterFetchSize of Some m \<Rightarrow> if m \<noteq> 0 then m else default_fetch_size | None \<Rightarrow> default_fetch_size)))"

section \<open>The iterator\<close>

text \<open>\<open>QueryIterator\<close>: one action can be registered, which starts the iteration.\<close>

definition register_action :: "consumer option \<Rightarrow> consumer \<Rightarrow> js_error + consumer option" where
  "register_action registered c =
    (case registered of
       Some (ForEach act) \<Rightarrow> Inl (Error ''forEach action already registered with query iterator'')
     | Some (ForBatch n act) \<Rightarrow> Inl (Error ''forBatch action already registered with query iterator'')
     | None \<Rightarrow> Inr (Some c))"

section \<open>Transactions\<close>

text \<open>What the action of a transaction does: its promise settles. A transaction inside a transaction is
  rejected.\<close>

definition nested_error :: js_error where
  "nested_error = Error ''Nested transactions (subtransactions or savepoints) are not supported.''"

definition release_after :: "'c pg_server \<Rightarrow> client_call \<Rightarrow> client_call list" where
  "release_after sv call = [call, CRelease (sv_command sv call \<noteq> None)]"

definition commit_transaction :: "'c pg_server \<Rightarrow> jsv \<Rightarrow> (js_error + jsv) \<times> client_call list" where
  "commit_transaction sv result =
    (case sv_command sv CCommit of None \<Rightarrow> Inr result | Some e \<Rightarrow> Inl e, release_after sv CCommit)"

definition rollback_transaction :: "'c pg_server \<Rightarrow> js_error \<Rightarrow> (js_error + jsv) \<times> client_call list" where
  "rollback_transaction sv error = (Inl error, release_after sv CRollback)"

definition run_transaction ::
  "'c pg_server \<Rightarrow> bool \<Rightarrow> js_error + jsv \<Rightarrow> (js_error + jsv) \<times> client_call list" where
  "run_transaction sv inTransaction actionResult =
    (case sv_connect sv of
       Some e \<Rightarrow> (Inl e, [])
     | None \<Rightarrow>
         if inTransaction then (Inl nested_error, [CRelease False])
         else
           (case sv_command sv CBegin of
              Some e \<Rightarrow> (Inl e, release_after sv CBegin)
            | None \<Rightarrow>
                (let (r, calls) =
                   (case actionResult of
                      Inr result \<Rightarrow> commit_transaction sv result
                    | Inl e \<Rightarrow> rollback_transaction sv e)
                 in (r, CBegin # calls))))"

section \<open>Pools\<close>

text \<open>\<open>PG_POOLS\<close>: the pool of each connection. A request finds it, or opens a pool and asks for the server
  version; the reply enters that pool. Pools are numbered in the order they are opened.\<close>

record pg_pools =
  pp_pools :: "(string, nat) jmap"
  pp_opened :: "(string \<times> nat) list"

datatype pool_event = PoolRequest string | VersionReply string nat

fun pool_step :: "pool_event \<Rightarrow> pg_pools \<Rightarrow> pg_pools" where
  "pool_step (PoolRequest info) s =
    (if jhas (pp_pools s) info then s
     else s\<lparr>pp_opened := pp_opened s @ [(info, length (pp_opened s))]\<rparr>)"
| "pool_step (VersionReply info n) s = s\<lparr>pp_pools := jset info n (pp_pools s)\<rparr>"

text \<open>A statement runs on the client of the adapter's transaction, or on the pool.\<close>

datatype query_target = TransactionClient nat | ConnectionPool

definition query_pooled :: "nat option \<Rightarrow> query_target" where
  "query_pooled transactionClient =
    (case transactionClient of Some client \<Rightarrow> TransactionClient client | None \<Rightarrow> ConnectionPool)"

end
