(* ===== verification/PgFetchProps.thy ===== *)
theory PgFetchProps
  imports PgFetch InMemoryDbProps
begin

text \<open>
  Fetching from the Postgres server: a query fetched in chunks delivers what fetching its rows at once
  delivers, whatever the size of the chunks; the reference for both; the release of the pooled client;
  and transactions. What the proofs use of the server is the documented meaning of FETCH and MOVE.
\<close>

section \<open>Yielding rows\<close>

lemma yield_item_facts:
  "qr_count (yield_item c obj q) = Suc (qr_count q)"
  by (simp add: yield_item_def Let_def split: consumer.splits)

lemma yield_rows_append:
  "yield_rows c limit (xs @ ys) q =
    (let r = yield_rows c limit xs q
     in if qr_break (fst r) \<or> snd r then r else yield_rows c limit ys (fst r))"
  if "\<not> qr_break q"
  using that by (induction xs arbitrary: q) (auto simp: Let_def)

text \<open>A positive limit cuts the rows off.\<close>

lemma yield_rows_limit:
  assumes "limit > 0" "int (qr_count q) < limit" "\<not> qr_break q"
  shows "fst (yield_rows c limit rows q) = fst (yield_rows c 0 (take (nat limit - qr_count q) rows) q)"
  using assms
proof (induction rows arbitrary: q)
  case (Cons obj rows)
  define q1 where "q1 = yield_item c obj q"
  have n: "qr_count q1 = Suc (qr_count q)" by (simp add: q1_def yield_item_facts)
  have "qr_count q < nat limit" using Cons.prems(1,2) by linarith
  then obtain k where k: "nat limit - qr_count q = Suc k" by (metis Suc_diff_Suc)
  have k': "nat limit - qr_count q1 = k" using k n by simp
  show ?case
  proof (cases "qr_break q1 \<or> int (qr_count q1) \<ge> limit")
    case True
    then show ?thesis using k k' n Cons.prems(1) by (auto simp: q1_def Let_def)
  next
    case False
    then show ?thesis using Cons.IH [of q1] Cons.prems(1) k k' by (simp add: q1_def Let_def)
  qed
qed simp

lemma yield_rows_no_limit:
  "limit \<le> 0 \<Longrightarrow> yield_rows c limit rows q = yield_rows c 0 rows q"
  by (induction rows arbitrary: q) (simp_all add: Let_def)

section \<open>Reading all rows\<close>

text \<open>The documented meaning of the read commands on a cursor with the rows \<open>rows c\<close> ahead of it: MOVE goes
  forward over rows, FETCH of a positive number returns the next ones and goes behind them. No read fails.\<close>

definition reads_rows :: "'c pg_server \<Rightarrow> ('c \<Rightarrow> jsv list) \<Rightarrow> bool" where
  "reads_rows sv rows =
    (\<forall>n s c. n > 0 \<longrightarrow> (\<exists>c'. sv_read sv n s c = Inr (take n (drop s (rows c)), c') \<and> rows c' = drop (s + n) (rows c)))"

definition is_read :: "client_call \<Rightarrow> bool" where
  "is_read call = (case call of CRead n s \<Rightarrow> True | _ \<Rightarrow> False)"

lemma is_read_CRead [simp]: "is_read (CRead n s)"
  by (simp add: is_read_def)

definition finish_run :: "consumer \<Rightarrow> query_run \<Rightarrow> (js_error + nat \<times> bool) \<times> query_out list" where
  "finish_run c q = (let q' = last_batch c q in (Inr (qr_count q', qr_break q'), qr_out q'))"

lemma fetch_next_chunk_all:
  assumes "reads_rows sv rows" "fetchSize > 0" "\<not> qr_break q"
  shows "\<exists>reads. list_all is_read reads \<and>
    length reads \<le> Suc (length (drop skip (rows cursor)) div fetchSize) \<and> fetch_next_chunk sv isTx limit fetchSize c cursor skip q calls =
    Some (fst (finish_run c (fst (yield_rows c limit (drop skip (rows cursor)) q))),
      snd (finish_run c (fst (yield_rows c limit (drop skip (rows cursor)) q))),
      calls @ reads @ close_and_release sv isTx False)"
  using assms(3)
proof (induction "length (rows cursor)" arbitrary: cursor skip q calls rule: less_induct)
  case less
  obtain cursor' where r: "sv_read sv fetchSize skip cursor =
      Inr (take fetchSize (drop skip (rows cursor)), cursor')" "rows cursor' = drop (skip + fetchSize) (rows cursor)"
    using assms(1,2) unfolding reads_rows_def by blast
  let ?all = "drop skip (rows cursor)" and ?chunk = "take fetchSize (drop skip (rows cursor))"
  obtain q' t where y: "yield_rows c limit ?chunk q = (q', t)" by (metis surj_pair)
  have whole: "yield_rows c limit ?all q =
      (if qr_break q' \<or> t then (q', t) else yield_rows c limit (drop fetchSize ?all) q')"
    using yield_rows_append [OF less.prems, of c limit ?chunk "drop fetchSize ?all"] y
    by (simp add: Let_def del: drop_drop)
  show ?case
  proof (cases "qr_break q' \<or> t \<or> length ?chunk < fetchSize")
    case True
    have "fst (yield_rows c limit ?all q) = q'"
      using whole True y by (auto simp: min_def split: if_splits)
    moreover have "fetch_next_chunk sv isTx limit fetchSize c cursor skip q calls =
        Some (Inr (qr_count (last_batch c q'), qr_break (last_batch c q')), qr_out (last_batch c q'),
          calls @ [CRead fetchSize skip] @ close_and_release sv isTx False)"
      using True r y by (subst fetch_next_chunk.simps) (simp add: Let_def)
    ultimately show ?thesis
      by (intro exI [of _ "[CRead fetchSize skip]"]) (simp add: finish_run_def is_read_def Let_def)
  next
    case False
    have step: "fetch_next_chunk sv isTx limit fetchSize c cursor skip q calls =
        fetch_next_chunk sv isTx limit fetchSize c cursor' 0 q' (calls @ [CRead fetchSize skip])"
      using False r y by (subst fetch_next_chunk.simps) (simp add: Let_def)
    have "fetchSize \<le> length (rows cursor) - skip" using False by (simp add: min_def not_less split: if_splits)
    then have shorter: "length (rows cursor') < length (rows cursor)"
      using r(2) assms(2) by simp
    obtain reads where reads: "list_all is_read reads"
      "length reads \<le> Suc (length (rows cursor') div fetchSize)"
      "fetch_next_chunk sv isTx limit fetchSize c cursor' 0 q' (calls @ [CRead fetchSize skip]) =
       Some (fst (finish_run c (fst (yield_rows c limit (rows cursor') q'))),
        snd (finish_run c (fst (yield_rows c limit (rows cursor') q'))),
        (calls @ [CRead fetchSize skip]) @ reads @ close_and_release sv isTx False)"
      using less.hyps [OF shorter, of q' 0 "calls @ [CRead fetchSize skip]"] False by auto
    have "fst (yield_rows c limit ?all q) = fst (yield_rows c limit (rows cursor') q')"
      using whole False r(2) by (simp add: add.commute)
    moreover have "length ?all div fetchSize = Suc (length (rows cursor') div fetchSize)"
      using r(2) \<open>fetchSize \<le> _\<close> assms(2) by (subst le_div_geq) (simp_all add: diff_diff_left)
    ultimately show ?thesis
      using step reads by (intro exI [of _ "CRead fetchSize skip # reads"]) simp
  qed
qed

definition opening_calls :: "bool \<Rightarrow> client_call list" where
  "opening_calls isTx = (if isTx then [CDeclare] else [CBegin, CDeclare])"

definition cursor_opened :: "'c pg_server \<Rightarrow> bool \<Rightarrow> 'c \<Rightarrow> bool" where
  "cursor_opened sv isTx cursor =
    ((\<not> isTx \<longrightarrow> sv_connect sv = None \<and> sv_command sv CBegin = None) \<and> sv_declare sv = Inr cursor)"

lemma fetch_in_chunks_opened:
  assumes "cursor_opened sv isTx cursor"
  shows "fetch_in_chunks sv isTx fetchSize takeCount skip c =
    (if take_limit takeCount = 0 then Some (Inr (0, False), [], opening_calls isTx)
     else fetch_next_chunk sv isTx (take_limit takeCount) fetchSize c cursor (skip_count skip) new_run
       (opening_calls isTx))"
  using assms
  by (cases isTx) (simp_all add: fetch_in_chunks_def query_cursor_def opening_calls_def cursor_opened_def)

text \<open>The rows that skip and take leave.\<close>

definition rows_window :: "int option \<Rightarrow> int option \<Rightarrow> jsv list \<Rightarrow> jsv list" where
  "rows_window takeCount skip rows =
    (let rest = drop (skip_count skip) rows in case takeCount of None \<Rightarrow> rest | Some t \<Rightarrow> take (nat t) rest)"

lemma yield_rows_window:
  assumes "take_limit takeCount \<noteq> 0"
  shows "fst (yield_rows c (take_limit takeCount) (drop (skip_count skip) rows) new_run) =
    fst (yield_rows c 0 (rows_window takeCount skip rows) new_run)"
proof (cases takeCount)
  case None
  then show ?thesis by (simp add: rows_window_def take_limit_def yield_rows_no_limit [of "-1"])
next
  case (Some t)
  then have t: "t > 0" "take_limit takeCount = t" using assms by (simp_all add: take_limit_def)
  have "qr_count new_run = 0" "\<not> qr_break new_run" by (simp_all add: new_run_def)
  then show ?thesis
    using yield_rows_limit [of t new_run c "drop (skip_count skip) rows"] t
    by (simp add: rows_window_def Some)
qed


text \<open>C30: the size of the chunks that the code settles on is at least ten rows and is the number asked for
  if that is ten or more, although a smaller number is documented as the maximum of rows to be fetched
  and zero as no maximum; an iteration over n rows, not counting those skipped, ends after at most one
  read more than n divided by that size, if the server accepts the query and its reads succeed.\<close>

theorem fetch_round_trips:
  assumes "reads_rows sv rows" "cursor_opened sv isTx cursor"
    "n = fetch_size filterFetchSize adapterFetchSize"
  shows "10 \<le> n \<and> (\<forall>m \<ge> 10. filterFetchSize = Some m \<longrightarrow> int n = m) \<and>
    (\<exists>r outs calls. fetch_in_chunks sv isTx n takeCount skip c = Some (r, outs, calls) \<and>
      length (filter is_read calls) \<le> Suc ((length (rows cursor) - skip_count skip) div n))"
proof -
  have n: "10 \<le> n" "\<forall>m \<ge> 10. filterFetchSize = Some m \<longrightarrow> int n = m"
    using assms(3) by (auto simp: fetch_size_def minimum_fetch_size_def)
  have open_reads: "filter is_read (opening_calls isTx) = []"
    by (simp add: opening_calls_def is_read_def)
  have "\<not> qr_break new_run" "0 < n" using n by (simp_all add: new_run_def)
  from fetch_next_chunk_all [OF assms(1) this(2,1), where limit = "take_limit takeCount" and isTx = isTx
      and skip = "skip_count skip" and calls = "opening_calls isTx" and cursor = cursor and c = c]
  obtain reads r outs where reads: "list_all is_read reads"
    "length reads \<le> Suc (length (drop (skip_count skip) (rows cursor)) div n)"
    "fetch_next_chunk sv isTx (take_limit takeCount) n c cursor (skip_count skip) new_run (opening_calls isTx) =
      Some (r, outs, opening_calls isTx @ reads @ close_and_release sv isTx False)" by auto
  have "filter is_read (opening_calls isTx @ reads @ close_and_release sv isTx False) = reads"
    using reads(1)
    by (simp add: opening_calls_def close_and_release_def close_call_def is_read_def list_all_iff)
  then have "\<exists>r outs calls. fetch_in_chunks sv isTx n takeCount skip c = Some (r, outs, calls) \<and>
      length (filter is_read calls) \<le> Suc ((length (rows cursor) - skip_count skip) div n)"
    using reads(2,3) open_reads fetch_in_chunks_opened [OF assms(2), of n takeCount skip c] by auto
  then show ?thesis using n by blast
qed

text \<open>What the options document, a maximum number of rows that is unlimited if it is zero or missing, is
  not what they do: three asks for chunks of ten rows, and zero or nothing for chunks of a hundred.\<close>

lemma fetch_size_not_maximum:
  "fetch_size (Some 3) None = 10" "fetch_size (Some 0) None = 100" "fetch_size None None = 100"
  by (simp_all add: fetch_size_def minimum_fetch_size_def default_fetch_size_def)

section \<open>What the actions are given\<close>

lemma yield_rows_each:
  "\<not> qr_break q \<Longrightarrow>
    qr_out (fst (yield_rows (ForEach act) 0 rows q)) = qr_out q @ each act (qr_count q) rows \<and>
    qr_count (fst (yield_rows (ForEach act) 0 rows q)) = qr_count q + length (each act (qr_count q) rows) \<and>
    qr_break (fst (yield_rows (ForEach act) 0 rows q)) = stops act (qr_count q) rows"
  by (induction rows arbitrary: q) (auto simp: Let_def yield_item_def)

lemma yield_rows_batch:
  assumes "\<not> qr_break q" "length (qr_batch q) \<le> qr_count q" "feed n act (qr_batch q) rows = (out, r, s)"
  shows "qr_out (fst (yield_rows (ForBatch n act) 0 rows q)) = qr_out q @ map Batch out \<and>
    qr_batch (fst (yield_rows (ForBatch n act) 0 rows q)) = r \<and>
    qr_break (fst (yield_rows (ForBatch n act) 0 rows q)) = s \<and>
    qr_count (fst (yield_rows (ForBatch n act) 0 rows q)) + length (qr_batch q) =
      qr_count q + length (concat out) + length r"
  using assms
proof (induction rows arbitrary: q out r s)
  case (Cons x rows)
  show ?case
  proof (cases "n > 0 \<and> int (length (qr_batch q @ [x])) = n \<and> act (qr_batch q @ [x])")
    case True
    then obtain out' where o: "feed n act [] rows = (out', r, s)" "out = (qr_batch q @ [x]) # out'"
      using Cons.prems(3) by (auto split: prod.splits)
    define q1 where "q1 = yield_item (ForBatch n act) x q"
    have q1: "\<not> qr_break q1" "qr_batch q1 = []" "qr_count q1 = Suc (qr_count q)"
      "qr_out q1 = qr_out q @ [Batch (qr_batch q @ [x])]"
      using True by (simp_all add: q1_def yield_item_def Let_def)
    then show ?thesis using Cons.IH [of q1 out' r s] o by (simp add: q1_def [symmetric] Let_def)
  next
    case False
    then show ?thesis
      using Cons.prems Cons.IH [of "q\<lparr>qr_batch := qr_batch q @ [x], qr_count := Suc (qr_count q)\<rparr>" out r s]
      by (auto simp: yield_item_def Let_def split: if_splits)
  qed
qed simp

text \<open>The rows fetched reach the action one by one with increasing index until it returns false, or in
  batches of size n, the last one with what remains and one empty batch if there are no rows, until it
  returns false; the promise yields the number of rows delivered and whether the action ended it. This
  is what the in-memory adapter delivers for the same objects.\<close>

theorem fetch_once_delivers:
  fixes n :: nat
  assumes "bs = chunks n rows"
  shows "fetch_once (Inr rows) (ForEach act) =
      (Inr (length (each act 0 rows), stops act 0 rows), each act 0 rows) \<and>
    fetch_once (Inr rows) (ForBatch (int n) actb) =
      (Inr (length (concat (until_false actb bs)), \<not> list_all actb bs), map Batch (until_false actb bs))"
proof
  show "fetch_once (Inr rows) (ForEach act) =
      (Inr (length (each act 0 rows), stops act 0 rows), each act 0 rows)"
    using yield_rows_each [of new_run act rows] by (simp add: fetch_once_def last_batch_def new_run_def)
  obtain out r s where f: "feed (int n) actb [] rows = (out, r, s)" by (metis prod_cases3)
  define q where "q = fst (yield_rows (ForBatch (int n) actb) 0 rows new_run)"
  have q: "qr_out q = map Batch out" "qr_batch q = r" "qr_break q = s" "qr_count q = length (concat out) + length r"
    using yield_rows_batch [of new_run "int n" actb rows out r s] f by (simp_all add: q_def new_run_def)
  show "fetch_once (Inr rows) (ForBatch (int n) actb) =
      (Inr (length (concat (until_false actb bs)), \<not> list_all actb bs), map Batch (until_false actb bs))"
    unfolding assms
    using batch_result [OF f q] by (simp add: fetch_once_def q_def [symmetric] Let_def)
qed

section \<open>The client is released\<close>

lemma fetch_next_chunk_ends:
  assumes "fetch_next_chunk sv isTx limit fetchSize c cursor skip q calls = Some y"
  shows "\<exists>reads. list_all is_read reads \<and>
    snd (snd y) = calls @ reads @ close_and_release sv isTx (isl (fst y))"
  apply (rule fetch_next_chunk.raw_induct [OF _ assms])
  subgoal premises 1 for loop sv isTx limit fetchSize c cursor skip q calls y
  proof (cases "sv_read sv fetchSize skip cursor")
    case (Inl e)
    then show ?thesis
      using 1(2) by (intro exI [of _ "[CRead fetchSize skip]"]) (auto simp: is_read_def)
  next
    case (Inr r)
    define q' where "q' = fst (yield_rows c limit (fst r) q)"
    show ?thesis
    proof (cases "qr_break q' \<or> snd (yield_rows c limit (fst r) q) \<or> length (fst r) < fetchSize")
      case True
      then show ?thesis
        using 1(2) Inr
        by (intro exI [of _ "[CRead fetchSize skip]"]) (auto simp: is_read_def q'_def Let_def)
    next
      case False
      then have "loop sv isTx limit fetchSize c (snd r) 0 q' (calls @ [CRead fetchSize skip]) = Some y"
        using 1(2) Inr by (simp add: q'_def Let_def)
      then obtain reads where "list_all is_read reads"
        "snd (snd y) = (calls @ [CRead fetchSize skip]) @ reads @ close_and_release sv isTx (isl (fst y))"
        using 1(1) by blast
      then show ?thesis by (intro exI [of _ "CRead fetchSize skip # reads"]) simp
    qed
  qed
  done

text \<open>C28: whatever the server answers to its reads, an iteration in chunks that declared its cursor, and
  that was not asked to take nothing, closes it when its promise settles: on the client of a
  transaction it closes the cursor and keeps the client, on a pooled client it ends the block it
  opened, by a rollback exactly if the iteration fails, and then releases the client once, to be
  destroyed if that end fails. Asked to take nothing it does neither, as \<open>fetch_keeps_client\<close>
  shows.\<close>

theorem fetch_releases_client:
  assumes "cursor_opened sv isTx cursor" "take_limit takeCount \<noteq> 0"
    "fetch_in_chunks sv isTx fetchSize takeCount skip c = Some (r, outs, calls)"
  shows "\<exists>reads. list_all is_read reads \<and>
    calls = opening_calls isTx @ reads @
      (if isTx then [CClose]
       else (let e = (if isl r then CRollback else CCommit) in [e, CRelease (sv_command sv e \<noteq> None)]))"
proof -
  have "fetch_next_chunk sv isTx (take_limit takeCount) fetchSize c cursor (skip_count skip) new_run
      (opening_calls isTx) = Some (r, outs, calls)"
    using assms fetch_in_chunks_opened [OF assms(1), of fetchSize takeCount skip c] by simp
  from fetch_next_chunk_ends [OF this] show ?thesis
    by (auto simp: close_and_release_def close_call_def Let_def)
qed

text \<open>An iteration in chunks on a pooled client never releases it, nor ends the block it opened, if it
  is asked to take nothing or if the server rejects the query; each such query costs the pool a
  client. Taking nothing also gives a batch action no batch, unlike a query without results.\<close>

theorem fetch_keeps_client:
  assumes "sv_connect sv = None" "sv_command sv CBegin = None"
    "sv_declare sv = Inl err \<or> sv_declare sv = Inr cursor \<and> take_limit takeCount = 0"
  shows "\<exists>r. fetch_in_chunks sv False n takeCount skip c = Some (r, [], [CBegin, CDeclare])"
  using assms by (auto simp: fetch_in_chunks_def query_cursor_def)

section \<open>Transactions\<close>

definition is_release :: "client_call \<Rightarrow> bool" where
  "is_release call = (case call of CRelease b \<Rightarrow> True | _ \<Rightarrow> False)"

text \<open>C29: a transaction commits exactly if its action is fulfilled and rolls back exactly if the action is
  rejected, in the block it opened, and releases its client once, last; it is fulfilled, with the
  action's result, exactly if the commit succeeds, and rejected with the action's error if there is
  one. A transaction inside a transaction is rejected and runs nothing.\<close>

theorem transaction_settles:
  assumes "sv_connect sv = None" "run_transaction sv inTransaction action = (r, calls)"
    "opened = (\<not> inTransaction \<and> sv_command sv CBegin = None)"
  shows "(\<exists>pre b. calls = pre @ [CRelease b] \<and> filter is_release pre = []) \<and>
    (CCommit \<in> set calls \<longleftrightarrow> opened \<and> \<not> isl action) \<and> (CRollback \<in> set calls \<longleftrightarrow> opened \<and> isl action) \<and>
    (\<forall>v. r = Inr v \<longleftrightarrow> opened \<and> action = Inr v \<and> sv_command sv CCommit = None) \<and>
    (\<forall>e. opened \<and> action = Inl e \<longrightarrow> r = Inl e) \<and>
    (inTransaction \<longrightarrow> r = Inl nested_error \<and> calls = [CRelease False])"
proof (cases "inTransaction \<or> sv_command sv CBegin \<noteq> None")
  case True
  then have "isl r" "\<exists>pre b. calls = pre @ [CRelease b] \<and> set pre \<subseteq> {CBegin}" "\<not> opened"
    "inTransaction \<longrightarrow> r = Inl nested_error \<and> calls = [CRelease False]"
    using assms by (auto simp: run_transaction_def release_after_def split: if_splits option.splits)
  moreover have "filter is_release pre = []" if "set pre \<subseteq> {CBegin}" for pre
    using that by (induction pre) (auto simp: is_release_def)
  ultimately show ?thesis by (cases r) auto
next
  case False
  show ?thesis
  proof (cases action)
    case (Inl e)
    then have "calls = [CBegin, CRollback] @ [CRelease (sv_command sv CRollback \<noteq> None)]" "r = Inl e"
      using False assms(1,2) by (auto simp: run_transaction_def rollback_transaction_def release_after_def)
    then show ?thesis
      using False Inl assms(3)
      by (intro conjI exI [of _ "[CBegin, CRollback]"] exI [of _ "sv_command sv CRollback \<noteq> None"])
         (simp_all add: is_release_def)
  next
    case (Inr v)
    then have "calls = [CBegin, CCommit] @ [CRelease (sv_command sv CCommit \<noteq> None)]"
      "r = (case sv_command sv CCommit of None \<Rightarrow> Inr v | Some e \<Rightarrow> Inl e)"
      using False assms(1,2) by (auto simp: run_transaction_def commit_transaction_def release_after_def)
    then show ?thesis
      using False Inr assms(3)
      by (intro conjI exI [of _ "[CBegin, CCommit]"] exI [of _ "sv_command sv CCommit \<noteq> None"])
         (auto simp: is_release_def split: option.splits)
  qed
qed

section \<open>Pools\<close>

text \<open>Two statements on a connection before its server version has arrived open two pools; only the one
  whose reply comes last is used from then on.\<close>

lemma concurrent_requests_open_two_pools:
  "fold pool_step [PoolRequest info, PoolRequest info, VersionReply info 0, VersionReply info 1, PoolRequest info]
     \<lparr>pp_pools = [], pp_opened = []\<rparr> =
   \<lparr>pp_pools = [(info, 1)], pp_opened = [(info, 0), (info, 1)]\<rparr>"
  by (simp add: jhas_def)

section \<open>A concrete server\<close>

text \<open>A server whose cursors hold the rows they have not read.\<close>

definition sample_server :: "jsv list \<Rightarrow> jsv list pg_server" where
  "sample_server rows = \<lparr>sv_connect = None, sv_declare = Inr rows,
     sv_read = \<lambda>n s c. Inr (take n (drop s c), drop (s + n) c), sv_command = \<lambda>call. None\<rparr>"

lemma sample_server_ok:
  "reads_rows (sample_server rows) (\<lambda>c. c)" "cursor_opened (sample_server rows) isTx rows"
  by (simp_all add: reads_rows_def sample_server_def cursor_opened_def)


theorem fetch_round_trips_witness:
  "10 \<le> fetch_size (Some 3) None \<and>
    (\<exists>r outs calls. fetch_in_chunks (sample_server [JNull, JNull]) False (fetch_size (Some 3) None) None None
        (ForEach (\<lambda>x i. True)) = Some (r, outs, calls) \<and> length (filter is_read calls) \<le> 1)"
  using fetch_round_trips [OF sample_server_ok(1) [of "[JNull, JNull]"] sample_server_ok(2) [of _ False],
      where takeCount = None and skip = None and c = "ForEach (\<lambda>x i. True)" and filterFetchSize = "Some 3" and
      adapterFetchSize = None]
  by (simp add: take_limit_def skip_count_def fetch_size_def minimum_fetch_size_def)

theorem fetch_once_delivers_witness:
  "fetch_once (Inr [JNull, JNull, JNull]) (ForBatch 2 (\<lambda>b. True)) =
    (Inr (3, False), [Batch [JNull, JNull], Batch [JNull]])"
  using fetch_once_delivers [OF refl, of "[JNull, JNull, JNull]" "\<lambda>x i. True" 2 "\<lambda>b. True"]
  by (simp add: chunks.simps)

definition failing_server :: "jsv list pg_server" where
  "failing_server = (sample_server [])\<lparr>sv_read := \<lambda>n s c. Inl (Error ''connection lost'')\<rparr>"

theorem fetch_releases_client_witness:
  "\<exists>reads. list_all is_read reads \<and>
    [CBegin, CDeclare, CRead 10 0, CRollback, CRelease False] =
      opening_calls False @ reads @ [CRollback, CRelease False]"
proof -
  have o: "cursor_opened failing_server False []"
    by (simp add: cursor_opened_def failing_server_def sample_server_def)
  have f: "fetch_in_chunks failing_server False 10 None None (ForEach (\<lambda>x i. True)) =
      Some (Inl (Error ''connection lost''), [], [CBegin, CDeclare, CRead 10 0, CRollback, CRelease False])"
    using fetch_in_chunks_opened [OF o, of 10 None None "ForEach (\<lambda>x i. True)"]
    by (subst (asm) fetch_next_chunk.simps)
       (simp add: take_limit_def skip_count_def failing_server_def sample_server_def new_run_def opening_calls_def
         close_and_release_def close_call_def)
  show ?thesis
    using fetch_releases_client [OF o _ f]
    by (simp add: take_limit_def failing_server_def sample_server_def Let_def)
qed

theorem fetch_keeps_client_witness:
  "\<exists>r. fetch_in_chunks (sample_server [JNull]) False 10 (Some 0) None (ForBatch 0 (\<lambda>b. True)) =
    Some (r, [], [CBegin, CDeclare])"
  by (rule fetch_keeps_client [where cursor = "[JNull]"]) (simp_all add: sample_server_def take_limit_def)

theorem transaction_settles_witness:
  "run_transaction (sample_server []) False (Inr (JStr ''done'')) =
     (Inr (JStr ''done''), [CBegin, CCommit, CRelease False]) \<and>
   (CRollback \<in> set [CBegin, CCommit, CRelease False] \<longleftrightarrow> isl (Inr (JStr ''done'') :: js_error + jsv))"
proof -
  have r: "run_transaction (sample_server []) False (Inr (JStr ''done'')) =
     (Inr (JStr ''done''), [CBegin, CCommit, CRelease False])"
    by (simp add: run_transaction_def commit_transaction_def release_after_def sample_server_def)
  show ?thesis
    using transaction_settles [OF _ r refl] r by (simp add: sample_server_def)
qed

end
