(* ===== verification/SqlScan.thy ===== *)
theory SqlScan
  imports PgSql
begin

text \<open>
  The lexical structure of the statements: a scanner for the part of the Postgres language that they use
  (words, symbols, identifiers in quotes, string constants with and without escapes; a comment or a
  dollar quote is an error), and the fragments of statements whose tokens are fixed but for the values
  of their identifiers and literals.
\<close>

section \<open>Scanning\<close>

datatype sql_token = TWord string | TSym char | TLit string | TIdent string

datatype scan_mode = Code | InLit | LitQuote | InEsc | EscBack | EscQuote | InIdent | IdentQuote

definition is_digit :: "char \<Rightarrow> bool" where
  "is_digit c = (let n = (of_char c :: nat) in 48 \<le> n \<and> n \<le> 57)"

definition is_word_char :: "char \<Rightarrow> bool" where
  "is_word_char c =
    (let n = (of_char c :: nat)
     in (48 \<le> n \<and> n \<le> 57) \<or> (65 \<le> n \<and> n \<le> 90) \<or> (97 \<le> n \<and> n \<le> 122) \<or> n = 95 \<or> n = 36 \<or> 128 \<le> n)"

definition is_space :: "char \<Rightarrow> bool" where
  "is_space c = (let n = (of_char c :: nat) in n = 32 \<or> (9 \<le> n \<and> n \<le> 13))"

definition word_token :: "string \<Rightarrow> sql_token list" where
  "word_token w = (if w = [] then [] else [TWord w])"

text \<open>One character of code that is no quote: the tokens it completes and the word in progress. A dollar sign
  at the start of a word must introduce a parameter.\<close>

definition code_char :: "string \<Rightarrow> char \<Rightarrow> string \<Rightarrow> (sql_token list \<times> string) option" where
  "code_char w c next =
    (if c = CHR ''$'' \<and> w = [] then
       (case next of d # ds \<Rightarrow> if is_digit d then Some ([], [c]) else None | [] \<Rightarrow> None)
     else if is_word_char c then Some ([], w @ [c])
     else if is_space c then Some (word_token w, [])
     else if (c = CHR ''-'' \<and> take 1 next = ''-'') \<or> (c = CHR ''/'' \<and> take 1 next = ''*'') then None
     else Some (word_token w @ [TSym c], []))"

definition prepend :: "sql_token list \<Rightarrow> sql_token list option \<Rightarrow> sql_token list option" where
  "prepend ts = map_option ((@) ts)"

lemma prepend_simps [simp]:
  "prepend ts None = None" "prepend ts (Some us) = Some (ts @ us)" "prepend [] r = r"
  "prepend ts (prepend us r) = prepend (ts @ us) r"
  by (cases r; simp add: prepend_def)+

text \<open>\<open>w\<close> is the word in progress in code, otherwise the value of the quoted token read so far.\<close>

function scan :: "scan_mode \<Rightarrow> string \<Rightarrow> string \<Rightarrow> sql_token list option" where
  "scan Code w [] = Some (word_token w)"
| "scan Code w (c # cs) =
    (if c = quote then
       (if w = [] then scan InLit [] cs else if w = ''E'' \<or> w = ''e'' then scan InEsc [] cs else None)
     else if c = dquote then (if w = [] then scan InIdent [] cs else None)
     else (case code_char w c cs of None \<Rightarrow> None | Some (ts, w') \<Rightarrow> prepend ts (scan Code w' cs)))"
| "scan InLit w [] = None"
| "scan InLit w (c # cs) = (if c = quote then scan LitQuote w cs else scan InLit (w @ [c]) cs)"
| "scan LitQuote w [] = Some [TLit w]"
| "scan LitQuote w (c # cs) =
    (if c = quote then scan InLit (w @ [c]) cs else prepend [TLit w] (scan Code [] (c # cs)))"
| "scan InEsc w [] = None"
| "scan InEsc w (c # cs) =
    (if c = quote then scan EscQuote w cs
     else if c = backslash then scan EscBack w cs else scan InEsc (w @ [c]) cs)"
| "scan EscBack w [] = None"
| "scan EscBack w (c # cs) = (if c = backslash then scan InEsc (w @ [c]) cs else None)"
| "scan EscQuote w [] = Some [TLit w]"
| "scan EscQuote w (c # cs) =
    (if c = quote then scan InEsc (w @ [c]) cs else prepend [TLit w] (scan Code [] (c # cs)))"
| "scan InIdent w [] = None"
| "scan InIdent w (c # cs) = (if c = dquote then scan IdentQuote w cs else scan InIdent (w @ [c]) cs)"
| "scan IdentQuote w [] = Some [TIdent w]"
| "scan IdentQuote w (c # cs) =
    (if c = dquote then scan InIdent (w @ [c]) cs else prepend [TIdent w] (scan Code [] (c # cs)))"
  by pat_completeness auto
termination
  by (relation "measure (\<lambda>(m, w, cs). 2 * length cs + (case m of Code \<Rightarrow> 0 | _ \<Rightarrow> 1))") auto

section \<open>Quoted values\<close>

text \<open>What follows a quoted value must not begin with the same quote.\<close>

definition begins :: "char \<Rightarrow> string \<Rightarrow> bool" where
  "begins c s = (take 1 s = [c])"

lemma scan_ident_chars:
  "scan InIdent w (concat (map (\<lambda>c. if c = dquote then [c, c] else [c]) s) @ rest) = scan InIdent (w @ s) rest"
  by (induction s arbitrary: w) auto

lemma scan_ident:
  assumes "\<not> begins dquote rest"
  shows "scan Code [] (as_identifier s @ rest) = prepend [TIdent s] (scan Code [] rest)"
  using assms
  by (cases rest) (simp_all add: as_identifier_def scan_ident_chars begins_def word_token_def)

lemma scan_lit_chars:
  assumes "backslash \<notin> set s"
  shows "scan InLit w (concat (map (\<lambda>c. if c = quote \<or> c = backslash then [c, c] else [c]) s) @ rest) =
    scan InLit (w @ s) rest"
  using assms by (induction s arbitrary: w) auto

lemma scan_esc_chars:
  "scan InEsc w (concat (map (\<lambda>c. if c = quote \<or> c = backslash then [c, c] else [c]) s) @ rest) =
    scan InEsc (w @ s) rest"
  by (induction s arbitrary: w) auto

lemma scan_literal:
  assumes "\<not> begins quote rest"
  shows "scan Code [] (as_literal s @ rest) = prepend [TLit s] (scan Code [] rest)"
proof (cases "backslash \<in> set s")
  case True
  then show ?thesis
    using assms
    by (cases rest)
       (simp_all add: as_literal_def scan_esc_chars begins_def word_token_def code_char_def is_word_char_def
          is_space_def)
next
  case False
  then show ?thesis
    using assms
    by (cases rest) (simp_all add: as_literal_def scan_lit_chars begins_def word_token_def)
qed

text \<open>A jsonpath in quotes is one literal: the text of the jsonpath, whose keys are in double quotes with
  their quotes and backslashes escaped.\<close>

fun jsonpath_source :: "jsonpath_part \<Rightarrow> string" where
  "jsonpath_source (JText s) = s"
| "jsonpath_source (JKey s) =
    [dquote] @ concat (map (\<lambda>c. if c = backslash \<or> c = dquote then [backslash, c] else [c]) s) @ [dquote]"
| "jsonpath_source (JValue s) = s"

definition plain_jsonpath :: "jsonpath_part list \<Rightarrow> bool" where
  "plain_jsonpath ps = (\<forall>s. JText s \<in> set ps \<longrightarrow> quote \<notin> set s)"

lemma scan_plain: "quote \<notin> set s \<Longrightarrow> scan InLit w (s @ rest) = scan InLit (w @ s) rest"
  by (induction s arbitrary: w) auto

lemma scan_jsonpath_chars:
  "scan InLit w (concat (map (\<lambda>c. if c = quote then [c, c] else if \<not> b \<and> (c = backslash \<or> c = dquote)
      then [backslash, c] else [c]) s) @ rest) =
   scan InLit (w @ concat (map (\<lambda>c. if \<not> b \<and> (c = backslash \<or> c = dquote) then [backslash, c] else [c]) s)) rest"
  by (induction s arbitrary: w) auto

lemma scan_jsonpath_parts:
  assumes "plain_jsonpath ps"
  shows "scan InLit w (concat (map render_jsonpath ps) @ rest) =
    scan InLit (w @ concat (map jsonpath_source ps)) rest"
  using assms
proof (induction ps arbitrary: w)
  case (Cons p ps)
  then have ps: "plain_jsonpath ps" by (simp add: plain_jsonpath_def)
  show ?case
  proof (cases p)
    case (JText s)
    then have "quote \<notin> set s" using Cons.prems by (simp add: plain_jsonpath_def)
    then show ?thesis using Cons.IH [OF ps] JText by (simp add: scan_plain)
  next
    case (JKey s)
    then show ?thesis
      using Cons.IH [OF ps] by (simp add: as_jsonpath_literal_def scan_jsonpath_chars [where b = False, simplified])
  next
    case (JValue s)
    then show ?thesis
      using Cons.IH [OF ps] by (simp add: as_jsonpath_literal_def scan_jsonpath_chars [where b = True, simplified])
  qed
qed simp

lemma scan_jsonpath:
  assumes "plain_jsonpath ps" "\<not> begins quote rest"
  shows "scan Code [] (render_part (JsonPath ps) @ rest) =
    prepend [TLit (concat (map jsonpath_source ps))] (scan Code [] rest)"
  using assms by (cases rest) (simp_all add: scan_jsonpath_parts begins_def word_token_def)

section \<open>Constant text\<close>

fun text_scan :: "string \<Rightarrow> string \<Rightarrow> (sql_token list \<times> string) option" where
  "text_scan w [] = Some ([], w)"
| "text_scan w (c # cs) =
    (if c = quote \<or> c = dquote \<or> (cs = [] \<and> (c = CHR ''-'' \<or> c = CHR ''/'' \<or> c = CHR ''$'')) then None
     else
       (case code_char w c cs of
          None \<Rightarrow> None
        | Some (ts, w') \<Rightarrow>
            (case text_scan w' cs of None \<Rightarrow> None | Some (us, w'') \<Rightarrow> Some (ts @ us, w''))))"

lemma code_char_more:
  assumes "cs \<noteq> [] \<or> c \<noteq> CHR ''-'' \<and> c \<noteq> CHR ''/'' \<and> c \<noteq> CHR ''$''"
  shows "code_char w c (cs @ rest) = code_char w c cs"
  using assms by (cases cs) (simp_all add: code_char_def)

lemma scan_text:
  "text_scan w s = Some (ts, w') \<Longrightarrow> scan Code w (s @ rest) = prepend ts (scan Code w' rest)"
proof (induction s arbitrary: w ts)
  case (Cons c s)
  have c: "c \<noteq> quote" "c \<noteq> dquote" "s \<noteq> [] \<or> c \<noteq> CHR ''-'' \<and> c \<noteq> CHR ''/'' \<and> c \<noteq> CHR ''$''"
    using Cons.prems by (auto split: if_splits)
  obtain t1 w1 t2 where s: "code_char w c s = Some (t1, w1)" "text_scan w1 s = Some (t2, w')" "ts = t1 @ t2"
    using Cons.prems by (auto split: if_splits option.splits)
  show ?case
    using Cons.IH [OF s(2)] c s(1,3) code_char_more [OF c(3), of w rest] by simp
qed simp

lemma is_digit_iff: "is_digit c = (digit_val c \<noteq> None)"
  by (auto simp: is_digit_def digit_val_def Let_def)

lemma is_digit_word: "is_digit c \<Longrightarrow> is_word_char c \<and> c \<noteq> quote \<and> c \<noteq> dquote \<and> c \<noteq> CHR ''-'' \<and> c \<noteq> CHR ''/'' \<and> c \<noteq> CHR ''$''"
  by (auto simp: is_digit_def is_word_char_def Let_def)

lemma text_scan_digits: "list_all is_digit s \<Longrightarrow> text_scan w s = Some ([], w @ s)"
  by (induction s arbitrary: w) (auto simp: code_char_def dest: is_digit_word)

lemma digits_show_nat: "list_all is_digit (show_nat n)"
  using show_nat_digits [of n] by (simp add: list_all_iff is_digit_iff)

section \<open>Well-formed parts\<close>

text \<open>The words of the queries; every other word is a number or the name of a joined table.\<close>

definition sql_words :: "string list" where
  "sql_words =
    [''ALL'', ''AND'', ''AS'', ''ASC'', ''BETWEEN'', ''BY'', ''COALESCE'', ''COUNT'', ''DELETE'', ''DESC'',
     ''DISTINCT'', ''FILTER'', ''FROM'', ''GROUP'', ''IN'', ''IS'', ''JOIN'', ''LEFT'', ''LIKE'', ''LIMIT'',
     ''NOT'', ''NULL'', ''OFFSET'', ''ON'', ''OR'', ''ORDER'', ''OUTER'', ''RETURNING'', ''SELECT'',
     ''SYMMETRIC'', ''WHERE'', ''array'', ''as'', ''collections'', ''false'', ''in'', ''jsonb'',
     ''jsonb_agg'', ''jsonb_array_elements'', ''jsonb_build_object'', ''jsonb_strip_nulls'', ''local'',
     ''not'', ''object'', ''objectid'', ''value'']"

definition known_word :: "string \<Rightarrow> bool" where
  "known_word w = (w \<in> set sql_words \<or> list_all is_digit w \<or>
    (take 4 w = ''from'' \<and> list_all is_digit (drop 4 w)))"

definition known_tokens :: "sql_token list \<Rightarrow> bool" where
  "known_tokens ts = (\<forall>w. TWord w \<in> set ts \<longrightarrow> known_word w)"

fun known_token :: "sql_token \<Rightarrow> bool" where
  "known_token (TWord w) = known_word w"
| "known_token t = True"

definition text_ok :: "string \<Rightarrow> bool" where
  "text_ok s =
    (case text_scan [] s of None \<Rightarrow> False | Some (ts, w) \<Rightarrow> list_all known_token (ts @ word_token w))"

definition closed :: "string \<Rightarrow> bool" where
  "closed s = (case text_scan [] s of None \<Rightarrow> False | Some (ts, w) \<Rightarrow> w = [])"

definition follow :: "string \<Rightarrow> bool" where
  "follow s = (case s of [] \<Rightarrow> True | c # cs \<Rightarrow> c \<noteq> quote \<and> c \<noteq> dquote \<and> \<not> is_word_char c)"

fun part_ok :: "sql_part \<Rightarrow> bool" where
  "part_ok (Text s) = text_ok s"
| "part_ok (JsonPath ps) = plain_jsonpath ps"
| "part_ok p = True"

fun part_closed :: "sql_part \<Rightarrow> bool" where
  "part_closed (Text s) = closed s"
| "part_closed p = False"

fun parts_ok :: "sql_part list \<Rightarrow> bool" where
  "parts_ok [] = True"
| "parts_ok (p # ps) = (part_ok p \<and> (part_closed p \<or> follow (render ps)) \<and> parts_ok ps)"

fun part_tokens :: "sql_part \<Rightarrow> sql_token list" where
  "part_tokens (Text s) =
    (case text_scan [] s of None \<Rightarrow> [] | Some (ts, w) \<Rightarrow> ts @ word_token w)"
| "part_tokens (Ident s) = [TIdent s]"
| "part_tokens (Literal s) = [TLit s]"
| "part_tokens (Param n) = [TWord (CHR ''$'' # show_nat n)]"
| "part_tokens (JsonPath ps) = [TLit (concat (map jsonpath_source ps))]"

definition tokens :: "sql_part list \<Rightarrow> sql_token list" where
  "tokens ps = concat (map part_tokens ps)"

lemma follow_simps [simp]: "follow []"
  by (simp add: follow_def)

lemma render_simps [simp]:
  "render [] = []" "render (p # ps) = render_part p @ render ps" "render (ps @ qs) = render ps @ render qs"
  by (simp_all add: render_def)

lemma tokens_simps [simp]:
  "tokens [] = []" "tokens (p # ps) = part_tokens p @ tokens ps" "tokens (ps @ qs) = tokens ps @ tokens qs"
  by (simp_all add: tokens_def)

lemma word_char_dollar [simp]: "is_word_char (CHR ''$'')"
  by (simp add: is_word_char_def)

lemma code_char_separator:
  assumes "\<not> is_word_char c"
  shows "code_char w c next =
    (case code_char [] c next of None \<Rightarrow> None | Some (ts, w') \<Rightarrow> Some (word_token w @ ts, w'))"
proof -
  have "c \<noteq> CHR ''$''" using assms by auto
  then show ?thesis using assms by (simp add: code_char_def word_token_def)
qed

lemma scan_word_end:
  assumes "follow rest"
  shows "scan Code w rest = prepend (word_token w) (scan Code [] rest)"
proof (cases rest)
  case (Cons c cs)
  then have c: "c \<noteq> quote" "c \<noteq> dquote" "\<not> is_word_char c" using assms by (simp_all add: follow_def)
  then show ?thesis
    using code_char_separator [OF c(3), of w cs] Cons by (auto split: option.splits)
qed (simp add: word_token_def)

lemma follow_begins: "follow rest \<Longrightarrow> \<not> begins quote rest \<and> \<not> begins dquote rest"
  by (cases rest) (simp_all add: follow_def begins_def)

lemma scan_part:
  assumes "part_ok p" "part_closed p \<or> follow rest"
  shows "scan Code [] (render_part p @ rest) = prepend (part_tokens p) (scan Code [] rest)"
proof (cases p)
  case (Text s)
  then obtain ts w where s: "text_scan [] s = Some (ts, w)"
    using assms(1) by (auto simp: text_ok_def split: option.splits)
  show ?thesis
  proof (cases "w = []")
    case True
    then show ?thesis using Text s scan_text [OF s, of rest] by (simp add: word_token_def)
  next
    case False
    then have "follow rest" using assms(2) Text s by (simp add: closed_def)
    then show ?thesis using Text s scan_text [OF s, of rest] scan_word_end [of rest w] by simp
  qed
next
  case (Param n)
  then have f: "follow rest" using assms(2) by simp
  have d: "list_all is_digit (show_nat n)" by (rule digits_show_nat)
  obtain c cs where c: "show_nat n = c # cs" "is_digit c"
    using d show_nat_not_Nil [of n] by (cases "show_nat n") auto
  have "scan Code [] (CHR ''$'' # show_nat n @ rest) = scan Code ''$'' (show_nat n @ rest)"
    using c by (simp add: code_char_def)
  also have "\<dots> = scan Code (CHR ''$'' # show_nat n) rest"
    using scan_text [OF text_scan_digits [OF d, of "''$''"]] by simp
  finally show ?thesis using Param scan_word_end [OF f, of "CHR ''$'' # show_nat n"] by (simp add: word_token_def)
next
  case (JsonPath ps)
  then show ?thesis
    using assms follow_begins [of rest] scan_jsonpath [of ps rest] by simp
qed (use assms follow_begins [of rest] scan_ident [of rest] scan_literal [of rest] in auto)

text \<open>The scanner finds the tokens of the parts one by one: the value of an identifier or of a literal, whatever
  its characters, is one token.\<close>

lemma scan_parts:
  "parts_ok ps \<Longrightarrow> follow rest \<Longrightarrow> scan Code [] (render ps @ rest) = prepend (tokens ps) (scan Code [] rest)"
proof (induction ps)
  case (Cons p ps)
  have f: "part_closed p \<or> follow (render ps @ rest)"
    using Cons.prems by (cases "render ps") (auto simp: follow_def)
  show ?case using Cons scan_part [OF _ f] by simp
qed simp

lemma scan_render: "parts_ok ps \<Longrightarrow> scan Code [] (render ps) = Some (tokens ps)"
  using scan_parts [of ps "[]"] by (simp add: word_token_def)

text \<open>No value becomes a word.\<close>

lemma known_part: "part_ok p \<Longrightarrow> TWord w \<in> set (part_tokens p) \<Longrightarrow> known_word w \<or> (\<exists>n. p = Param n \<and> w = CHR ''$'' # show_nat n)"
  by (cases p) (auto simp: text_ok_def list_all_iff simp flip: known_token.simps(1) split: option.splits)

lemma known_words:
  "parts_ok ps \<Longrightarrow> TWord w \<in> set (tokens ps) \<Longrightarrow>
    known_word w \<or> (\<exists>n. Param n \<in> set ps \<and> w = CHR ''$'' # show_nat n)"
  by (induction ps) (auto dest: known_part)

section \<open>The constant texts\<close>

definition text_closed :: "string \<Rightarrow> bool" where
  "text_closed s =
    (case text_scan [] s of None \<Rightarrow> False | Some (ts, w) \<Rightarrow> w = [] \<and> list_all known_token ts)"

lemma text_closed_ok [simp]: "text_closed s \<Longrightarrow> text_ok s" "text_closed s \<Longrightarrow> closed s"
  by (auto simp: text_closed_def text_ok_def closed_def word_token_def split: option.splits)

lemma closed_texts [simp]:
  "text_closed ''(object @@ ''" "text_closed ''(object @? ''" "text_closed '')''"
  "text_closed ''object ->''" "text_closed ''object ->>''" "text_closed ''object #>array[''"
  "text_closed ''object #>>array[''" "text_closed '']''" "text_closed '',''" "text_closed '', ''"
  "text_closed ''(''" "text_closed ''::jsonb)''" "text_closed '' < ''" "text_closed '' <= ''"
  "text_closed '' > ''" "text_closed '' >= ''" "text_closed '' = ''" "text_closed '' <> ''"
  "text_closed ''(false)''" "text_closed ''(object ? ''" "text_closed ''(NOT (object ? ''"
  "text_closed '' ? ''" "text_closed '' AND ''" "text_closed '' OR ''" "text_closed ''))''"
  "text_closed '' LIKE ''" "text_closed '' BETWEEN SYMMETRIC ''"
  "text_closed '' NOT BETWEEN SYMMETRIC ''" "text_closed ''::jsonb AND ''"
  "text_closed '' in (SELECT value FROM jsonb_array_elements(''"
  "text_closed '' not in (SELECT value FROM jsonb_array_elements(''" "text_closed ''::jsonb)))''"
  "text_closed ''(object @> ''" "text_closed ''(NOT object @> ''" "text_closed ''WHERE ''"
  "text_closed ''ORDER BY ''" "text_closed ''.''" "text_closed ''collections.''"
  "text_closed ''COALESCE(jsonb_agg(DISTINCT ''" "text_closed ''.object ORDER BY ''"
  "text_closed ''.object ASC) FILTER (WHERE ''" "text_closed ''.object IS NOT NULL), ''"
  "text_closed ''jsonb_build_object(''" "text_closed ''jsonb_strip_nulls(''"
  "text_closed ''LEFT OUTER JOIN ''" "text_closed '' AS ''" "text_closed '' ON (''"
  "text_closed ''.object->''" "text_closed '' IN (SELECT value FROM jsonb_array_elements(''"
  "text_closed '')))''" "text_closed '';''" "text_closed ''SELECT (''" "text_closed ''.object || ''"
  "text_closed '' || ''" "text_closed '') as ''" "text_closed '' FROM (''" "text_closed '' ''"
  "text_closed '' GROUP BY ''" "text_closed ''.object ''" "text_closed ''DELETE FROM ''"
  "text_closed ''SELECT object FROM ''" "text_closed ''SELECT COUNT(objectid) FROM ''"
  "text_closed '' LIMIT ''" "text_closed '' OFFSET ''" "text_closed '' WHERE objectid = ''"
  by code_simp+

lemma open_texts [simp]:
  "text_ok ''::jsonb)->0''" "text_ok '' ASC''" "text_ok '' DESC''" "text_ok ''local''"
  "text_ok ''object''" "text_ok ''ALL''" "text_ok '' RETURNING objectid;''"
  by code_simp+

end
