(* ===== verification/SqlScanProps.thy ===== *)
theory SqlScanProps
  imports SqlScan
begin

text \<open>
  The queries of the Postgres adapter are well-formed: their text scans into the tokens of their parts,
  so no value of a filter, a join or a collection name changes the structure of a statement, and the
  placeholders of a statement are numbered like its parameters.
\<close>

section \<open>Fragments\<close>

text \<open>The numbers of the placeholders, in order.\<close>

fun part_params :: "sql_part \<Rightarrow> nat list" where
  "part_params (Param n) = [n]"
| "part_params p = []"

definition params_of :: "sql_part list \<Rightarrow> nat list" where
  "params_of ps = concat (map part_params ps)"

lemma params_of_simps [simp]:
  "params_of [] = []" "params_of (p # ps) = part_params p @ params_of ps"
  "params_of (ps @ qs) = params_of ps @ params_of qs"
  by (simp_all add: params_of_def)

lemma follow_Cons [simp]: "follow (c # cs) = (c \<noteq> quote \<and> c \<noteq> dquote \<and> \<not> is_word_char c)"
  by (simp add: follow_def)

lemma follow_append: "s \<noteq> [] \<Longrightarrow> follow (s @ t) = follow s"
  by (cases s) simp_all

lemma separators [simp]:
  "\<not> is_word_char (CHR '' '')" "\<not> is_word_char (CHR ''('')" "\<not> is_word_char (CHR '')'')"
  "\<not> is_word_char (CHR '','')" "\<not> is_word_char (CHR '';'')" "\<not> is_word_char (CHR ''.'')"
  "\<not> is_word_char (CHR '':'')" "\<not> is_word_char (CHR '']'')"
  by (simp_all add: is_word_char_def)

lemma parts_ok_append:
  "parts_ok ps \<Longrightarrow> parts_ok qs \<Longrightarrow> follow (render qs) \<Longrightarrow> parts_ok (ps @ qs)"
proof (induction ps)
  case (Cons p ps)
  then have "part_closed p \<or> follow (render (ps @ qs))"
    by (cases "render ps") auto
  then show ?case using Cons by simp
qed simp

lemma parts_ok_join:
  assumes "\<forall>x \<in> set xs. parts_ok x \<and> (b \<or> follow (render x))" "text_ok sep" "closed sep" "follow sep" "sep \<noteq> []"
  shows "parts_ok (join_parts [Text sep] xs) \<and> (xs \<noteq> [] \<and> \<not> b \<longrightarrow> follow (render (join_parts [Text sep] xs)))"
  using assms(1)
proof (induction "[Text sep]" xs rule: join_parts.induct)
  case (3 x y ys)
  then have IH: "parts_ok (join_parts [Text sep] (y # ys))" by simp
  have "parts_ok (Text sep # join_parts [Text sep] (y # ys))" using IH assms(2,3) by simp
  moreover have "follow (render (Text sep # join_parts [Text sep] (y # ys)))"
    using assms(4,5) by (simp add: follow_append)
  ultimately have "parts_ok (x @ Text sep # join_parts [Text sep] (y # ys))"
    using 3 parts_ok_append [of x] by simp
  moreover have "\<not> b \<longrightarrow> follow (render (x @ Text sep # join_parts [Text sep] (y # ys)))"
    using 3 assms(4,5) by (cases "render x") (auto simp: follow_append)
  ultimately show ?case by simp
qed auto

lemma params_of_join: "params_of (join_parts [Text sep] xs) = concat (map params_of xs)"
  by (induction "[Text sep]" xs rule: join_parts.induct) simp_all

section \<open>Expressions\<close>

lemma indexer_ok:
  "parts_ok rest \<Longrightarrow> follow (render rest) \<Longrightarrow> parts_ok (object_indexer props b @ rest)"
proof -
  assume rest: "parts_ok rest" "follow (render rest)"
  have "parts_ok (join_parts [Text '',''] (map (\<lambda>p. [Literal p]) props))"
    using parts_ok_join [of "map (\<lambda>p. [Literal p]) props" True "'',''"] by simp
  then have "parts_ok (join_parts [Text '',''] (map (\<lambda>p. [Literal p]) props) @ Text '']'' # rest)"
    using rest by (intro parts_ok_append) simp_all
  then show ?thesis
    using rest by (cases b) (simp_all add: object_indexer_def Let_def)
qed

lemma indexer_params [simp]: "params_of (object_indexer props b) = []"
  by (simp add: object_indexer_def Let_def params_of_join comp_def)

lemma plain_jsonpath_append [simp]:
  "plain_jsonpath (ps @ qs) = (plain_jsonpath ps \<and> plain_jsonpath qs)"
  "plain_jsonpath (JText s # ps) = (quote \<notin> set s \<and> plain_jsonpath ps)"
  "plain_jsonpath (JValue s # ps) = plain_jsonpath ps" "plain_jsonpath (JKey s # ps) = plain_jsonpath ps"
  "plain_jsonpath []"
  by (auto simp: plain_jsonpath_def)

lemma plain_jsonpath_join:
  "\<forall>x \<in> set xs. plain_jsonpath x \<Longrightarrow> quote \<notin> set sep \<Longrightarrow> plain_jsonpath (join_parts [JText sep] xs)"
  by (induction "[JText sep]" xs rule: join_parts.induct) simp_all

lemma plain_jsonpath_keys [simp]: "plain_jsonpath (jsonpath_keys props)"
  by (simp add: jsonpath_keys_def plain_jsonpath_join)

section \<open>Clauses\<close>

text \<open>A clause is well-formed wherever it stands.\<close>

definition clause_ok :: "sql_part list \<Rightarrow> bool" where
  "clause_ok c = (parts_ok c \<and> follow (render c) \<and> render c \<noteq> [])"

lemma jsonpath_clause_ok:
  assumes "plain_jsonpath path" "op = ''@@'' \<or> op = ''@?''"
  shows "clause_ok (jsonpath_clause op path)" "params_of (jsonpath_clause op path) = []"
  using assms by (auto simp: clause_ok_def jsonpath_clause_def)

lemma indexed_clause_ok:
  assumes "text_closed t" "follow t" "t \<noteq> []" "parts_ok (q # rest)"
  shows "clause_ok ([Text ''(''] @ object_indexer props b @ [Text t, q] @ rest)"
proof -
  have "parts_ok (object_indexer props b @ Text t # q # rest)"
    using assms by (intro indexer_ok) (simp_all add: follow_append)
  then show ?thesis by (simp add: clause_ok_def)
qed

lemma para_ok:
  assumes "para we p n = Inr q"
  shows "part_ok q" "part_params q = (if we_embed we then [] else [n])"
proof -
  have "(\<exists>s. q = Literal s) \<and> we_embed we \<or> q = Param n \<and> \<not> we_embed we"
    using assms by (auto simp: para_def literal_of_def split: if_splits jsv.splits option.splits)
  then show "part_ok q" "part_params q = (if we_embed we then [] else [n])" by auto
qed

text \<open>The state of the WHERE clause: the placeholders of its clauses are numbered from one, unless parameters
  are embedded, and there is one for each parameter.\<close>

definition where_ok :: "where_env \<Rightarrow> where_state \<Rightarrow> bool" where
  "where_ok we st =
    ((\<forall>c \<in> set (ws_clauses st). clause_ok c) \<and>
     concat (map params_of (ws_clauses st)) = (if we_embed we then [] else [1..<ws_index st]) \<and>
     ws_index st = Suc (length (ws_params st)))"

lemma push_clause_ok:
  "where_ok we st \<Longrightarrow> clause_ok c \<Longrightarrow> params_of c = [] \<Longrightarrow> where_ok we (push_clause c st)"
  by (auto simp: where_ok_def push_clause_def)

lemma push_with_ok:
  "where_ok we st \<Longrightarrow> clause_ok c \<Longrightarrow> params_of c = (if we_embed we then [] else [ws_index st]) \<Longrightarrow>
    where_ok we (push_with c p st)"
  by (auto simp: where_ok_def push_clause_def push_with_def)

lemma jsonpath_para_Inr: "jsonpath_para p = Inr x \<longleftrightarrow> (\<exists>s. p = JStr s \<and> x = JValue s)"
  by (auto simp: jsonpath_para_def split: jsv.splits)

lemma compare_jsonpath_ok:
  assumes "compare_jsonpath op props p st = Inr st'" "where_ok we st" "quote \<notin> set op"
  shows "where_ok we st'"
proof -
  obtain s where "st' = push_clause (jsonpath_clause ''@@''
      (jsonpath_keys props @ [JText ('' '' @ op @ '' ''), JValue s])) st"
    using assms(1) by (auto simp: compare_jsonpath_def rbind_Inr_conv jsonpath_para_Inr)
  then show ?thesis
    using assms(2,3) by (auto intro!: push_clause_ok jsonpath_clause_ok)
qed

lemma compare_jsonb_ok:
  assumes "compare_jsonb we op props p st = Inr st'" "where_ok we st" "text_closed ('' '' @ op @ '' '')"
  shows "where_ok we st'"
proof -
  obtain q where q: "para we p (ws_index st) = Inr q" "st' = push_with ([Text ''(''] @ object_indexer props False @
        [Text ('' '' @ op @ '' ''), q] @ [Text ''::jsonb)'']) p st"
    using assms(1) by (auto simp: compare_jsonb_def rbind_Inr_conv)
  have c: "clause_ok ([Text ''(''] @ object_indexer props False @ [Text ('' '' @ op @ '' ''), q] @ [Text ''::jsonb)''])"
    using assms(3) para_ok(1) [OF q(1)] by (intro indexed_clause_ok) simp_all
  show ?thesis
    unfolding q(2) by (rule push_with_ok [OF assms(2) c]) (simp add: para_ok(2) [OF q(1)])
qed

lemma compare_clause_ok:
  assumes "compare_clause we op props opnd st = Inr st'" "where_ok we st" "quote \<notin> set op"
    "text_closed ('' '' @ op @ '' '')"
  shows "where_ok we st'"
  using assms compare_jsonpath_ok [of op props _ st st' we] compare_jsonb_ok [of we op props _ st st']
  by (auto simp: compare_clause_def split: if_splits)

lemma existence_ok:
  assumes "where_ok we st"
  shows "where_ok we (check_existence we props isNegated st)"
proof -
  have path: "plain_jsonpath ([JText ((if isNegated then ''!'' else []) @ ''exists('')] @ jsonpath_keys props @ [JText '')''])"
    by simp
  define ands where "ands ips = concat (map (\<lambda>ip. Text '' AND '' # object_indexer (take ip props) False @
      [Text '' ? '', Literal (props ! ip)]) ips)" for ips
  define t where "t = (if isNegated then '')'' else []) @ '')''"
  have t: "text_closed t" "follow t" "t \<noteq> []" by (simp_all add: t_def)
  have ands: "parts_ok (ands ips @ [Text t]) \<and> follow (render (ands ips @ [Text t]))" for ips
  proof (induction ips)
    case (Cons ip ips)
    then have "parts_ok ([Text '' ? '', Literal (props ! ip)] @ ands ips @ [Text t])" by simp
    then have "parts_ok (object_indexer (take ip props) False @ [Text '' ? '', Literal (props ! ip)] @ ands ips @ [Text t])"
      by (intro indexer_ok) simp_all
    then show ?case by (simp add: ands_def)
  qed (use t in \<open>simp add: ands_def\<close>)
  have p: "params_of (ands ips) = []" for ips by (induction ips) (simp_all add: ands_def)
  define c where "c = [Text (''('' @ (if isNegated then ''NOT ('' else []) @ ''object ? ''), Literal (hd props)] @
      ands [1..<length props] @ [Text t]"
  have "clause_ok c"
    using ands [of "[1..<length props]"] by (cases isNegated) (simp_all add: c_def clause_ok_def)
  moreover have "params_of c = []" by (simp add: c_def p)
  moreover have "clause_ok [Text ''(false)'']" by (simp add: clause_ok_def)
  ultimately show ?thesis
    using assms push_clause_ok [OF assms jsonpath_clause_ok(1) [OF path disjI1 [OF refl]]
        jsonpath_clause_ok(2) [OF path disjI1 [OF refl]]]
      push_clause_ok [OF assms, of c] push_clause_ok [OF assms, of "[Text ''(false)'']"]
    by (simp add: check_existence_def c_def ands_def t_def)
qed

lemma range_ok:
  assumes "range_clause we sqlOp lower combine upper props opnd1 opnd2 st = Inr st'" "where_ok we st"
    "quote \<notin> set lower" "quote \<notin> set combine" "quote \<notin> set upper" "text_closed ('' '' @ sqlOp @ '' SYMMETRIC '')"
  shows "where_ok we st'"
proof (cases "we_jsonpath we")
  case True
  then obtain s1 s2 where "st' = push_clause (jsonpath_clause ''@?''
      (jsonpath_keys props @ [JText ('' ? (@ '' @ lower @ '' ''), JValue s1,
        JText ('' '' @ combine @ '' @ '' @ upper @ '' ''), JValue s2, JText '')''])) st"
    using assms(1) by (auto simp: range_clause_def Let_def rbind_Inr_conv jsonpath_para_Inr)
  then show ?thesis
    using assms(2-5) by (auto intro!: push_clause_ok jsonpath_clause_ok)
next
  case False
  define p1 p2 where "p1 = stringify we opnd1" "p2 = stringify we opnd2"
  obtain q1 q2 where q: "para we p1 (ws_index st) = Inr q1" "para we p2 (Suc (ws_index st)) = Inr q2"
    "st' = (push_clause ([Text ''(''] @ object_indexer props False @
        [Text ('' '' @ sqlOp @ '' SYMMETRIC ''), q1] @ [Text ''::jsonb AND '', q2, Text ''::jsonb)'']) st)
      \<lparr>ws_params := ws_params st @ [p1, p2], ws_index := ws_index st + 2\<rparr>"
    using assms(1) False by (auto simp: range_clause_def Let_def rbind_Inr_conv p1_p2_def)
  have "clause_ok ([Text ''(''] @ object_indexer props False @
      [Text ('' '' @ sqlOp @ '' SYMMETRIC ''), q1] @ [Text ''::jsonb AND '', q2, Text ''::jsonb)''])"
    using assms(6) para_ok(1) [OF q(1)] para_ok(1) [OF q(2)] by (intro indexed_clause_ok) simp_all
  then show ?thesis
    unfolding q(3) using assms(2) para_ok(2) [OF q(1)] para_ok(2) [OF q(2)]
    by (auto simp: where_ok_def push_clause_def)
qed

lemma like_ok:
  assumes "like_clause we props p1 st = Inr st'" "where_ok we st"
  shows "where_ok we st'"
proof (cases "we_jsonpath we")
  case True
  then obtain p where "compare_jsonpath ''like_regex'' props p st = Inr st'"
    using assms(1) by (auto simp: like_clause_def split: jsv.splits)
  then show ?thesis using assms(2) by (rule compare_jsonpath_ok) simp
next
  case False
  then obtain q where q: "para we p1 (ws_index st) = Inr q" "st' = push_with ([Text ''(''] @
      object_indexer props True @ [Text '' LIKE '', q] @ [Text '')'']) p1 st"
    using assms(1) by (auto simp: like_clause_def rbind_Inr_conv)
  have c: "clause_ok ([Text ''(''] @ object_indexer props True @ [Text '' LIKE '', q] @ [Text '')''])"
    using para_ok(1) [OF q(1)] by (intro indexed_clause_ok) simp_all
  show ?thesis
    unfolding q(2) by (rule push_with_ok [OF assms(2) c]) (simp add: para_ok(2) [OF q(1)])
qed

lemma where_ok_contains [simp]:
  "where_ok we (st\<lparr>ws_contains := cs\<rparr>) = where_ok we st"
  "where_ok we (st\<lparr>ws_not_contains := cs\<rparr>) = where_ok we st"
  by (simp_all add: where_ok_def)

lemma equals_ok:
  assumes "equals_clause we isNegated props opnd1 st = Inr st'" "where_ok we st"
  shows "where_ok we st'"
proof -
  consider "opnd1 = JUndef" | "opnd1 \<noteq> JUndef" "is_primitive_operand opnd1" "we_jsonpath we"
    | "opnd1 \<noteq> JUndef" "is_primitive_operand opnd1" "\<not> we_jsonpath we"
    | "opnd1 \<noteq> JUndef" "\<not> is_primitive_operand opnd1" by blast
  then show ?thesis
  proof cases
    case 1
    then have "st' = check_existence we props (\<not> isNegated) st" using assms(1) by (simp add: equals_clause_def)
    then show ?thesis using assms(2) by (simp add: existence_ok)
  next
    case 2
    then have "compare_jsonpath (if isNegated then ''!='' else ''=='') props (stringify we opnd1) st = Inr st'"
      using assms(1) by (simp add: equals_clause_def)
    then show ?thesis by (rule compare_jsonpath_ok [OF _ assms(2)]) simp
  next
    case 3
    then show ?thesis using assms by (auto simp: equals_clause_def)
  next
    case 4
    then have "compare_jsonb we (if isNegated then ''<>'' else ''='') props (stringify we opnd1) st = Inr st'"
      using assms(1) by (simp add: equals_clause_def)
    then show ?thesis by (rule compare_jsonb_ok [OF _ assms(2)]) simp
  qed
qed

lemma in_ok:
  assumes "in_clause we sqlOp props opnd1 st = Inr st'" "where_ok we st" "sqlOp = ''in'' \<or> sqlOp = ''not in''"
  shows "where_ok we st'"
proof -
  define t where "t = '' '' @ sqlOp @ '' (SELECT value FROM jsonb_array_elements(''"
  have t: "text_closed t" "follow t" "t \<noteq> []" using assms(3) by (auto simp: t_def)
  define p1 where "p1 = stringify we opnd1"
  obtain q where q: "para we p1 (ws_index st) = Inr q" "st' = push_with ([Text ''(''] @
      object_indexer props False @ [Text t, q] @ [Text ''::jsonb)))'']) p1 st"
    using assms(1) by (auto simp: in_clause_def rbind_Inr_conv Let_def p1_def t_def split: if_splits)
  have c: "clause_ok ([Text ''(''] @ object_indexer props False @ [Text t, q] @ [Text ''::jsonb)))''])"
    using para_ok(1) [OF q(1)] by (intro indexed_clause_ok [OF t]) simp_all
  show ?thesis
    unfolding q(2) by (rule push_with_ok [OF assms(2) c]) (simp add: para_ok(2) [OF q(1)])
qed

lemma where_condition_ok:
  assumes "where_condition we cond st = Inr st'" "where_ok we st"
  shows "where_ok we st'"
proof -
  obtain op where op: "filter_op_of (arr_el (arr_el cond 1) 0) = Some op"
    using assms(1) by (auto simp: where_condition_def Let_def split: option.splits)
  define props o1 o2 where "props = prop_names (arr_el cond 0)" "o1 = arr_el (arr_el cond 1) 1"
    "o2 = arr_el (arr_el cond 1) 2"
  note defs = where_condition_def Let_def op [unfolded One_nat_def] props_o1_o2_def
  show ?thesis
  proof (cases op)
    case Between
    then have "range_clause we ''BETWEEN'' ''>='' ''&&'' ''<='' props o1 o2 st = Inr st'"
      using assms(1) by (simp add: defs)
    then show ?thesis using assms(2) by (rule range_ok) simp_all
  next
    case NotBetween
    then have "range_clause we ''NOT BETWEEN'' ''<'' ''||'' ''>'' props o1 o2 st = Inr st'"
      using assms(1) by (simp add: defs)
    then show ?thesis using assms(2) by (rule range_ok) simp_all
  next
    case Like
    then show ?thesis using assms like_ok [of we props o1 st st'] by (simp add: defs)
  next
    case Equals
    then show ?thesis using assms equals_ok [of we False props o1 st st'] by (simp add: defs)
  next
    case NotEquals
    then show ?thesis using assms equals_ok [of we True props o1 st st'] by (simp add: defs)
  next
    case In
    then show ?thesis using assms in_ok [of we "''in''" props o1 st st'] by (simp add: defs)
  next
    case NotIn
    then show ?thesis using assms in_ok [of we "''not in''" props o1 st st'] by (simp add: defs)
  next
    case LessThan
    then show ?thesis using assms compare_clause_ok [of we "''<''" props o1 st st'] by (simp add: defs)
  next
    case LessThanOrEqual
    then show ?thesis using assms compare_clause_ok [of we "''<=''" props o1 st st'] by (simp add: defs)
  next
    case GreaterThan
    then show ?thesis using assms compare_clause_ok [of we "''>''" props o1 st st'] by (simp add: defs)
  next
    case GreaterThanOrEqual
    then show ?thesis using assms compare_clause_ok [of we "''>=''" props o1 st st'] by (simp add: defs)
  qed (use assms in \<open>auto simp: defs existence_ok\<close>)
qed

lemma where_conditions_ok:
  "where_conditions we conds st = Inr st' \<Longrightarrow> where_ok we st \<Longrightarrow> where_ok we st'"
  by (induction conds arbitrary: st) (auto simp: rbind_Inr_conv dest: where_condition_ok split: if_splits)

lemma containments_ok:
  "check_containments we isNegated cs st = Inr st' \<Longrightarrow> where_ok we st \<Longrightarrow> where_ok we st'"
proof (induction cs arbitrary: st)
  case (Cons pc cs)
  obtain props opnd where pc: "pc = (props, opnd)" by (cases pc)
  define p1 where "p1 = stringify we (nested_object props opnd)"
  define c where "c q = [Text (''('' @ (if isNegated then ''NOT '' else []) @ ''object @> ''), q, Text ''::jsonb)'']" for q
  obtain q where q: "para we p1 (ws_index st) = Inr q"
    "check_containments we isNegated cs (push_with (c q) p1 st) = Inr st'"
    using Cons.prems(1) by (auto simp: pc rbind_Inr_conv Let_def p1_def c_def)
  have "clause_ok (c q)" using para_ok(1) [OF q(1)] by (simp add: clause_ok_def c_def)
  then have "where_ok we (push_with (c q) p1 st)"
    using Cons.prems(2) para_ok(2) [OF q(1)] by (intro push_with_ok) (simp_all add: c_def)
  then show ?case using Cons.IH q(2) by blast
qed simp

lemma where_clause_ok:
  assumes "where_clause we flt = Inr (q, ps)"
  shows "parts_ok q" "params_of q = (if we_embed we then [] else [1..<Suc (length ps)])"
proof -
  have "parts_ok q \<and> params_of q = (if we_embed we then [] else [1..<Suc (length ps)])"
  proof (cases "q = []")
    case True
    then show ?thesis using assms by (auto simp: where_clause_def rbind_Inr_conv split: if_splits)
  next
    case False
    then obtain conds b st1 st2 st where st: "where_conditions we conds new_where = Inr st1"
      "check_containments we True (ws_not_contains st1) st1 = Inr st2"
      "check_containments we False (ws_contains st1) st2 = Inr st"
      "q = Text ''WHERE '' # join_parts [Text (if b then '' AND '' else '' OR '')] (ws_clauses st)"
      "ps = ws_params st"
      using assms by (fastforce simp: where_clause_def rbind_Inr_conv split: if_splits prod.splits)
    have "where_ok we new_where" by (simp add: where_ok_def new_where_def)
    then have ok: "where_ok we st" using where_conditions_ok containments_ok st(1-3) by blast
    then have "\<forall>c \<in> set (ws_clauses st). parts_ok c \<and> (True \<or> follow (render c))"
      by (simp add: where_ok_def clause_ok_def)
    then have "parts_ok (join_parts [Text (if b then '' AND '' else '' OR '')] (ws_clauses st))"
      using parts_ok_join [of "ws_clauses st" True "if b then '' AND '' else '' OR ''"] by simp
    then show ?thesis
      using ok by (simp add: st(4,5) params_of_join where_ok_def)
  qed
  then show "parts_ok q" "params_of q = (if we_embed we then [] else [1..<Suc (length ps)])" by simp_all
qed

section \<open>Statements\<close>

lemma text_scan_word:
  "\<forall>c \<in> set s. is_word_char c \<and> c \<noteq> CHR ''$'' \<and> c \<noteq> quote \<and> c \<noteq> dquote \<and> c \<noteq> CHR ''-'' \<and> c \<noteq> CHR ''/'' \<Longrightarrow>
    text_scan w s = Some ([], w @ s)"
  by (induction s arbitrary: w) (auto simp: code_char_def)

lemma text_ok_digits: "text_ok (show_nat n)"
  using text_scan_digits [OF digits_show_nat, of "[]" n] digits_show_nat [of n]
  by (simp add: text_ok_def word_token_def known_word_def)

lemma text_ok_from [simp]: "text_ok (from_name i)"
proof -
  have d: "list_all is_digit (show_nat i)" by (rule digits_show_nat)
  then have "\<forall>c \<in> set (from_name i). is_word_char c \<and> c \<noteq> CHR ''$'' \<and> c \<noteq> quote \<and> c \<noteq> dquote \<and>
      c \<noteq> CHR ''-'' \<and> c \<noteq> CHR ''/''"
    using is_digit_word by (auto simp: from_name_def list_all_iff is_word_char_def [of "CHR ''f''"]
      is_word_char_def [of "CHR ''r''"] is_word_char_def [of "CHR ''o''"] is_word_char_def [of "CHR ''m''"])
  from text_scan_word [OF this, of "[]"] have "text_scan [] (from_name i) = Some ([], from_name i)" by simp
  moreover have "known_word (from_name i)" using d by (simp add: known_word_def from_name_def)
  ultimately show ?thesis by (simp add: text_ok_def word_token_def)
qed

lemma table_ok:
  "parts_ok rest \<Longrightarrow> follow (render rest) \<Longrightarrow> parts_ok (table_id name @ rest)"
  by (simp add: table_id_def collection_schema_def)

lemma table_params [simp]: "params_of (table_id name) = []"
  by (simp add: table_id_def)

lemma order_by_ok:
  assumes "tableId = [] \<or> tableId = ''local''"
  shows "parts_ok (order_by_clause flt tableId)" "params_of (order_by_clause flt tableId) = []"
proof -
  define entry where "entry = (\<lambda>order. (if tableId = [] then [] else [Text tableId, Text ''.'']) @
      object_indexer (prop_names (arr_el order 0)) False @ [Text ('' '' @ sort_order (arr_el order 1))])"
  have s: "text_ok ('' '' @ sort_order v)" for v by (simp add: sort_order_def)
  have "parts_ok (entry order)" for order
  proof -
    have "parts_ok (object_indexer (prop_names (arr_el order 0)) False @ [Text ('' '' @ sort_order (arr_el order 1))])"
      using s [of "arr_el order 1"] by (intro indexer_ok) simp_all
    then show ?thesis using assms by (auto simp: entry_def)
  qed
  then have "parts_ok (join_parts [Text '', ''] (map entry (order_entries flt)))"
    using parts_ok_join [of "map entry (order_entries flt)" True "'', ''"] by simp
  then show "parts_ok (order_by_clause flt tableId)" by (simp add: order_by_clause_def entry_def)
  have "params_of (entry order) = []" for order by (simp add: entry_def)
  then have "concat (map (params_of \<circ> entry) es) = []" for es by (induction es) simp_all
  then show "params_of (order_by_clause flt tableId) = []"
    by (simp add: order_by_clause_def entry_def [symmetric] params_of_join)
qed

lemma joined_select_ok: "parts_ok (joined_select i c)" "params_of (joined_select i c) = []"
  by (simp_all add: joined_select_def Let_def)

lemma join_clause_ok: "parts_ok (join_clause i c)" "params_of (join_clause i c) = []"
  by (simp_all add: join_clause_def table_id_def collection_schema_def local_name_def)

lemma parts_ok_map:
  assumes "\<And>i c. parts_ok (f i c)" "text_ok sep" "closed sep" "follow sep" "sep \<noteq> []"
  shows "parts_ok (join_parts [Text sep] (map (\<lambda>(i, c). f i c) xs))"
  using parts_ok_join [of "map (\<lambda>(i, c). f i c) xs" True sep] assms by (simp add: case_prod_beta)

lemma params_of_map:
  "(\<And>i c. params_of (f i c) = []) \<Longrightarrow> params_of (join_parts [Text sep] (map (\<lambda>(i, c). f i c) xs)) = []"
  by (auto simp: params_of_join)

lemma join_query_ok:
  assumes "parts_ok q"
  shows "parts_ok (join_query q ''object'' joins flt)" "params_of (join_query q ''object'' joins flt) = params_of q"
proof -
  note sel = parts_ok_map [of joined_select, OF joined_select_ok(1), of "'' || ''" "enumerate 0 joins", simplified]
  note cl = parts_ok_map [of join_clause, OF join_clause_ok(1), of "'' ''" "enumerate 0 joins", simplified]
  have o: "parts_ok (order_by_clause flt ''local'' @ [Text '';''])"
    using order_by_ok(1) [of "''local''" flt] by (intro parts_ok_append) simp_all
  have 1: "parts_ok (join_parts [Text '' ''] (map (\<lambda>(i, c). join_clause i c) (enumerate 0 joins)) @
      [Text '' GROUP BY '', Text ''local'', Text ''.object ''] @ order_by_clause flt ''local'' @ [Text '';''])"
    using o by (intro parts_ok_append [OF cl]) simp_all
  have 2: "parts_ok (q @ [Text '') as '', Text ''local'', Text '' ''] @
      join_parts [Text '' ''] (map (\<lambda>(i, c). join_clause i c) (enumerate 0 joins)) @
      [Text '' GROUP BY '', Text ''local'', Text ''.object ''] @ order_by_clause flt ''local'' @ [Text '';''])"
    using 1 by (intro parts_ok_append [OF assms]) simp_all
  have 3: "parts_ok (join_parts [Text '' || ''] (map (\<lambda>(i, c). joined_select i c) (enumerate 0 joins)) @
      [Text '') as '', Text ''object'', Text '' FROM (''] @ q @ [Text '') as '', Text ''local'', Text '' ''] @
      join_parts [Text '' ''] (map (\<lambda>(i, c). join_clause i c) (enumerate 0 joins)) @
      [Text '' GROUP BY '', Text ''local'', Text ''.object ''] @ order_by_clause flt ''local'' @ [Text '';''])"
    using 2 by (intro parts_ok_append [OF sel]) simp_all
  have "parts_ok (q @ [Text '';''])" by (intro parts_ok_append [OF assms]) simp_all
  then show "parts_ok (join_query q ''object'' joins flt)"
    using 3 by (simp add: join_query_def local_name_def)
  show "params_of (join_query q ''object'' joins flt) = params_of q"
    by (simp add: join_query_def local_name_def order_by_ok(2) params_of_map joined_select_ok(2) join_clause_ok(2))
qed

text \<open>Take and skip are absent or whole numbers that are rendered in decimal; JavaScript does so below
  \<open>10 ^ 21\<close>.\<close>

definition decimal_numbers :: "where_env \<Rightarrow> jsv \<Rightarrow> bool" where
  "decimal_numbers we flt =
    (\<forall>k \<in> {''take'', ''skip''}. get_prop flt k = JUndef \<or>
      (\<exists>i. get_prop flt k = jint i \<and> je_num (we_json we) (of_nat (nat i)) = show_nat (nat i)))"

lemma limit_ok:
  assumes "decimal_numbers we flt"
  shows "text_ok (limit_text we b flt)" "text_ok (offset_text we b flt)"
proof -
  have n: "number_text (we_json we) (at_least_zero we (jint i)) = show_nat (nat i)"
    if "je_num (we_json we) (of_nat (nat i)) = show_nat (nat i)" for i
  proof -
    have "num_max (Fin 0) (Fin (of_int i)) = Fin (of_nat (nat i))"
      by (simp add: num_max_def num_le_def)
    then show ?thesis using that by (simp add: at_least_zero_def)
  qed
  have z: "text_ok ''0''" by code_simp
  show "text_ok (limit_text we b flt)"
    using assms by (auto simp: limit_text_def decimal_numbers_def n text_ok_digits)
  show "text_ok (offset_text we b flt)"
    using assms z by (auto simp: offset_text_def decimal_numbers_def n text_ok_digits)
qed

lemma find_statement_ok:
  assumes "find_statement we name flt joins = Inr (q, ps)" "decimal_numbers we flt"
  shows "parts_ok q" "params_of q = [1..<Suc (length ps)]"
proof -
  define b where "b = fetch_in_chunks_wanted flt"
  obtain wc wps where w: "where_clause (we\<lparr>we_embed := b\<rparr>) flt = Inr (wc, wps)"
    "q = join_query ([Text ''SELECT object FROM ''] @ table_id name @ [Text '' ''] @ wc @ [Text '' ''] @
      order_by_clause flt [] @ [Text '' LIMIT '', Text (limit_text we b flt), Text '' OFFSET '',
        Text (offset_text we b flt)]) ''object'' joins flt" "ps = (if b then [] else wps)"
    using assms(1) by (auto simp: find_statement_def rbind_Inr_conv Let_def b_def)
  note wc = where_clause_ok [OF w(1)]
  have 1: "parts_ok (order_by_clause flt [] @ [Text '' LIMIT '', Text (limit_text we b flt), Text '' OFFSET '',
        Text (offset_text we b flt)])"
    using limit_ok [OF assms(2), of b] order_by_ok(1) [of "[]" flt] by (intro parts_ok_append) simp_all
  have "parts_ok (wc @ [Text '' ''] @ order_by_clause flt [] @ [Text '' LIMIT '', Text (limit_text we b flt),
        Text '' OFFSET '', Text (offset_text we b flt)])"
    using 1 by (intro parts_ok_append [OF wc(1)]) simp_all
  then have sel: "parts_ok ([Text ''SELECT object FROM ''] @ table_id name @ [Text '' ''] @ wc @ [Text '' ''] @
      order_by_clause flt [] @ [Text '' LIMIT '', Text (limit_text we b flt), Text '' OFFSET '',
        Text (offset_text we b flt)])"
    using table_ok [of "[Text '' ''] @ wc @ [Text '' ''] @ order_by_clause flt [] @
      [Text '' LIMIT '', Text (limit_text we b flt), Text '' OFFSET '', Text (offset_text we b flt)]" name] by simp
  then show "parts_ok q" unfolding w(2) by (rule join_query_ok(1))
  show "params_of q = [1..<Suc (length ps)]"
    unfolding w(2) join_query_ok(2) [OF sel] using wc(2) w(3) by (simp add: order_by_ok(2))
qed

lemma filtered_statement_ok:
  assumes "delete_statement we name flt = Inr (q, ps) \<or> count_statement we name flt = Inr (q, ps)"
  shows "parts_ok q" "params_of q = [1..<Suc (length ps)]"
proof -
  obtain wc t u where w: "where_clause (we\<lparr>we_embed := False\<rparr>) flt = Inr (wc, ps)"
    "q = [Text t] @ table_id name @ [Text '' ''] @ wc @ [Text u]" "text_closed t" "text_ok u" "follow u" "u \<noteq> []"
    using assms by (auto simp: delete_statement_def count_statement_def rbind_Inr_conv)
  note wc = where_clause_ok [OF w(1)]
  have "parts_ok (wc @ [Text u])" using w(4-6) by (intro parts_ok_append [OF wc(1)]) (simp_all add: follow_append)
  then show "parts_ok q"
    unfolding w(2) using w(3) table_ok [of "[Text '' ''] @ wc @ [Text u]" name] by simp
  show "params_of q = [1..<Suc (length ps)]"
    unfolding w(2) using wc(2) by simp
qed

text \<open>C26: the text of a statement that finds, counts or deletes objects by a filter, with any values, property
  names, collection names and joins, scans into the tokens of its parts: each value is one literal,
  each name one identifier, whatever their characters, and every other word is a keyword, a number
  or a placeholder. The placeholders are numbered from one in their order, as many as parameters.\<close>

theorem filter_statement_scans:
  assumes "find_statement we name flt joins = Inr (q, ps) \<and> decimal_numbers we flt \<or>
    delete_statement we name flt = Inr (q, ps) \<or> count_statement we name flt = Inr (q, ps)"
  shows "scan Code [] (render q) = Some (tokens q) \<and> params_of q = [1..<Suc (length ps)] \<and>
    (\<forall>w. TWord w \<in> set (tokens q) \<longrightarrow> known_word w \<or> (\<exists>n \<in> {1..length ps}. w = CHR ''$'' # show_nat n))"
proof -
  consider (find) "find_statement we name flt joins = Inr (q, ps)" "decimal_numbers we flt"
    | (filtered) "delete_statement we name flt = Inr (q, ps) \<or> count_statement we name flt = Inr (q, ps)"
    using assms by (elim disjE conjE) simp_all
  then have ok: "parts_ok q \<and> params_of q = [1..<Suc (length ps)]"
  proof cases
    case find
    then show ?thesis by (intro conjI find_statement_ok)
  next
    case filtered
    then show ?thesis by (intro conjI filtered_statement_ok)
  qed
  note ok = conjunct1 [OF ok] conjunct2 [OF ok]
  have param: "\<exists>n \<in> {1..length ps}. w = CHR ''$'' # show_nat n" if "Param n \<in> set q" "w = CHR ''$'' # show_nat n" for n w
  proof -
    have "n \<in> set (params_of q)" using that(1) by (force simp: params_of_def)
    then have "n \<in> {1..length ps}" using ok(2) by auto
    then show ?thesis using that(2) by blast
  qed
  show ?thesis
  proof (intro conjI allI impI)
    show "scan Code [] (render q) = Some (tokens q)" by (rule scan_render [OF ok(1)])
    show "params_of q = [1..<Suc (length ps)]" by (rule ok(2))
    fix w
    assume "TWord w \<in> set (tokens q)"
    from known_words [OF ok(1) this] param
    show "known_word w \<or> (\<exists>n \<in> {1..length ps}. w = CHR ''$'' # show_nat n)" by blast
  qed
qed

section \<open>A concrete statement\<close>

definition sample_where_env :: where_env where
  "sample_where_env = \<lparr>we_json = \<lparr>je_num = \<lambda>r. show_nat (nat \<lfloor>r\<rfloor>), je_date = \<lambda>n. []\<rparr>, we_conv = sample_conv,
     we_jsonpath = False, we_embed = False\<rparr>"

definition hostile_name :: string where "hostile_name = [dquote, quote, CHR 0x2E]"

definition hostile_value :: string where "hostile_value = quote # ''; DROP TABLE t; --''"

definition hostile_filter :: jsv where
  "hostile_filter = jobj [(''conditions'', JArr [JArr [JStr hostile_name], op_expr Equals [JStr hostile_value]]),
     (''take'', jint 3)]"

lemma hostile_where:
  "where_clause sample_where_env hostile_filter =
    Inr ([Text ''WHERE '', Text ''(object @> '', Param 1, Text ''::jsonb)''],
      [stringify sample_where_env (JObj NullProto [(hostile_name, JStr hostile_value)])])"
  by (simp add: where_clause_def hostile_filter_def where_conditions_of_def Let_def op_expr_def
      where_condition_def prop_names_def get_filter_properties_def equals_clause_def is_primitive_operand_def
      sample_where_env_def push_with_def push_clause_def para_def new_where_def)

theorem filter_statement_scans_witness:
  "\<exists>q. delete_statement sample_where_env [dquote] hostile_filter =
      Inr (q, [stringify sample_where_env (JObj NullProto [(hostile_name, JStr hostile_value)])]) \<and>
    scan Code [] (render q) = Some (tokens q) \<and> TIdent [dquote] \<in> set (tokens q) \<and> params_of q = [1]"
proof -
  obtain q where q: "delete_statement sample_where_env [dquote] hostile_filter =
      Inr (q, [stringify sample_where_env (JObj NullProto [(hostile_name, JStr hostile_value)])])"
    "Ident [dquote] \<in> set q"
    using hostile_where by (simp add: delete_statement_def table_id_def sample_where_env_def)
  then have "TIdent [dquote] \<in> set (tokens q)" by (force simp: tokens_def)
  then show ?thesis
    using filter_statement_scans [OF disjI2 [OF disjI1 [OF q(1)]]] q(1) by auto
qed

text \<open>An empty list of alternatives selects all objects in the Postgres database and none in memory.\<close>

lemma empty_or_selects_all:
  assumes "flt = jobj [(''conditions'', jobj [(''or'', JArr [])])]"
  shows "where_clause we flt = Inr ([], []) \<and> matches_filter cv JNull flt = Inr False"
  using assms
  by (simp add: where_clause_def where_conditions_of_def loop_values_def new_where_def matches_filter_def
      call_array_def Let_def proto_prop_def object_proto_names_def)

end
