(* ===== verification/ObjectLifecycle.thy ===== *)
theory ObjectLifecycle
  imports Events InMemoryDbState
begin

text \<open>
  Tracking of objects, \<open>src/src/controller/object-lifecycle-controller.ts\<close>: the registry that an
  observation of lifecycle infos keeps, the infos it emits, and the answers of an agent that made an
  object discoverable. A tracked object comes from an event, so it is valid and has a string as its
  id. What the communication manager is asked to do is an output.
\<close>

section \<open>The registry\<close>

datatype lifecycle_info = Added jsv | Changed jsv | Removed "jsv list"

type_synonym registry = "(string, jsv) jmap"

definition add_to_registry :: "registry \<Rightarrow> jsv \<Rightarrow> js_error + (lifecycle_info option \<times> registry)" where
  "add_to_registry reg obj =
    (case object_id obj of
       None \<Rightarrow> Inl (TypeError ''not a valid CoatyObject'')
     | Some i \<Rightarrow>
         (case jget reg i of
            None \<Rightarrow> Inr (Some (Added obj), jset i obj reg)
          | Some robj \<Rightarrow>
              rbind (js_equals obj robj) (\<lambda>eq.
                Inr (if \<not> eq then Some (Changed obj) else None, jset i obj reg))))"

definition is_child_of :: "string \<Rightarrow> jsv \<Rightarrow> bool" where
  "is_child_of objectId obj = strict_eq (get_prop obj ''parentObjectId'') (JStr objectId)"

definition update_registry_on_remove :: "string \<Rightarrow> registry \<times> jsv list \<Rightarrow> registry \<times> jsv list" where
  "update_registry_on_remove objectId state =
    (let (reg, removed) = state;
         children = filter (\<lambda>e. is_child_of objectId (snd e)) reg;
         reg' = filter (\<lambda>e. \<not> is_child_of objectId (snd e)) reg
     in case jget reg objectId of
          None \<Rightarrow> (reg', removed @ map snd children)
        | Some obj \<Rightarrow> (jdel objectId reg', removed @ map snd children @ [obj]))"

definition remove_from_registry :: "string list \<Rightarrow> registry \<Rightarrow> lifecycle_info option \<times> registry" where
  "remove_from_registry objectIds reg =
    (let (reg', removed) = fold update_registry_on_remove objectIds (reg, [])
     in (if removed = [] then None else Some (Removed removed), reg'))"

section \<open>The observation\<close>

text \<open>What is observed: a core type or an object type, agent identities if none is given.\<close>

datatype lifecycle_target = ByCoreType string | ByObjectType string

definition lifecycle_target_of :: "string option \<Rightarrow> string option \<Rightarrow> js_error + lifecycle_target" where
  "lifecycle_target_of coreType objectType =
    (let given = (\<lambda>x. x \<noteq> None \<and> x \<noteq> Some '''');
         coreType' = (if \<not> given coreType \<and> \<not> given objectType then Some ''Identity'' else coreType)
     in if given coreType' \<and> given objectType then Inl (TypeError ''Must not specify both coreType and objectType'')
        else Inr (if given coreType' then ByCoreType (the coreType') else ByObjectType (the objectType)))"

text \<open>The merged events: objects discovered or advertised, and deadvertisements.\<close>

datatype lifecycle_event = ObjectSeen jsv | Deadvertised "string list"

definition lifecycle_step ::
  "(jsv \<Rightarrow> bool) option \<Rightarrow> lifecycle_event \<Rightarrow> registry \<Rightarrow> js_error + (lifecycle_info option \<times> registry)" where
  "lifecycle_step objectFilter ev reg =
    (case ev of
       ObjectSeen obj \<Rightarrow>
         (if obj \<noteq> JUndef \<and> (case objectFilter of Some f \<Rightarrow> f obj | None \<Rightarrow> True)
          then add_to_registry reg obj else Inr (None, reg))
     | Deadvertised objectIds \<Rightarrow> Inr (remove_from_registry objectIds reg))"

text \<open>The infos emitted for a sequence of events, and the registry after it.\<close>

fun lifecycle_run ::
  "(jsv \<Rightarrow> bool) option \<Rightarrow> lifecycle_event list \<Rightarrow> registry \<Rightarrow> js_error + (lifecycle_info list \<times> registry)" where
  "lifecycle_run objectFilter [] reg = Inr ([], reg)"
| "lifecycle_run objectFilter (ev # evs) reg =
    rbind (lifecycle_step objectFilter ev reg) (\<lambda>(info, reg').
    rbind (lifecycle_run objectFilter evs reg') (\<lambda>(infos, reg'').
      Inr ((case info of Some i \<Rightarrow> [i] | None \<Rightarrow> []) @ infos, reg'')))"

section \<open>Discoverable objects\<close>

datatype lifecycle_call = PublishAdvertise jsv | ObserveDiscover | UnsubscribeDiscover | PublishDeadvertise jsv

definition advertise_discoverable_object :: "string \<Rightarrow> jsv \<Rightarrow> bool \<Rightarrow> jsv \<times> lifecycle_call list" where
  "advertise_discoverable_object identityId obj shouldSetParentObjectId =
    (let obj' = (if shouldSetParentObjectId then set_prop ''parentObjectId'' (JStr identityId) obj else obj)
     in (obj', [PublishAdvertise obj', ObserveDiscover]))"

definition resolves_discover :: "jsv \<Rightarrow> discover_data \<Rightarrow> bool" where
  "resolves_discover obj d =
    (is_discovering_types d \<and> truthy (ds_object_types d) \<and>
       some_eq (ds_object_types d) (get_prop obj ''objectType'') \<or>
     is_discovering_object_id d \<and> strict_eq (ds_object_id d) (get_prop obj ''objectId''))"

definition readvertise_discoverable_object :: "jsv \<Rightarrow> lifecycle_call list" where
  "readvertise_discoverable_object obj = [PublishAdvertise obj]"

definition deadvertise_discoverable_object :: "jsv \<Rightarrow> bool \<Rightarrow> lifecycle_call list" where
  "deadvertise_discoverable_object obj hasSubscription =
    (if hasSubscription then [UnsubscribeDiscover] else []) @ [PublishDeadvertise (get_prop obj ''objectId'')]"

end
