(* ===== verification/ObjectLifecycleProps.thy ===== *)
theory ObjectLifecycleProps
  imports ObjectLifecycle
begin

text \<open>
  A subscriber of lifecycle infos can rely on them: applying the infos in order gives the tracked
  objects, and every info fits the objects known before it.
\<close>

section \<open>Applying infos\<close>

text \<open>What a subscriber knows: the objects by their ids. An info that does not fit is an error: an object
  added that is known, changed that is unknown or equal, or removed that is unknown.\<close>

fun apply_info :: "lifecycle_info \<Rightarrow> (string \<rightharpoonup> jsv) option \<Rightarrow> (string \<rightharpoonup> jsv) option" where
  "apply_info i None = None"
| "apply_info (Added obj) (Some m) =
    (case object_id obj of
       None \<Rightarrow> None
     | Some i \<Rightarrow> if m i = None then Some (m(i \<mapsto> obj)) else None)"
| "apply_info (Changed obj) (Some m) =
    (case object_id obj of
       None \<Rightarrow> None
     | Some i \<Rightarrow> (case m i of Some old \<Rightarrow> if deep_eq obj old then None else Some (m(i \<mapsto> obj)) | None \<Rightarrow> None))"
| "apply_info (Removed objs) (Some m) =
    (if \<exists>obj \<in> set objs. case object_id obj of None \<Rightarrow> True | Some i \<Rightarrow> m i = None then None
     else Some (m |` (- {i. \<exists>obj \<in> set objs. object_id obj = Some i})))"

definition trackable :: "jsv \<Rightarrow> bool" where
  "trackable obj = (safe_jsv obj \<and> no_nan obj \<and> object_id obj \<noteq> None)"

definition registry_ok :: "registry \<Rightarrow> bool" where
  "registry_ok reg = (jwf reg \<and> (\<forall>(i, obj) \<in> set reg. trackable obj \<and> object_id obj = Some i))"

text \<open>The subscriber's objects are the tracked ones, up to the equality that decides whether an object has
  changed.\<close>

definition knows :: "(string \<rightharpoonup> jsv) \<Rightarrow> registry \<Rightarrow> bool" where
  "knows m reg = (\<forall>i. rel_option deep_eq (m i) (jget reg i))"

lemma trackable_eq:
  "trackable a \<Longrightarrow> trackable b \<Longrightarrow> js_equals a b = Inr (deep_eq a b)"
  by (simp add: trackable_def js_equals_deep_eq)

lemma safe_wf: "safe_jsv v \<Longrightarrow> wf_jsv v"
  by (induction v rule: wf_jsv.induct) auto

lemma trackable_refl: "trackable a \<Longrightarrow> deep_eq a a"
  by (simp add: trackable_def deep_eq_refl safe_wf)

lemma registry_ok_jset:
  "registry_ok reg \<Longrightarrow> trackable obj \<Longrightarrow> object_id obj = Some i \<Longrightarrow> registry_ok (jset i obj reg)"
  by (auto simp: registry_ok_def set_jset)

lemma registry_ok_get:
  "registry_ok reg \<Longrightarrow> jget reg i = Some obj \<Longrightarrow> trackable obj \<and> object_id obj = Some i"
  by (auto simp: registry_ok_def dest: map_of_SomeD)

lemma add_to_registry_info:
  assumes "registry_ok reg" "knows m reg" "trackable obj"
  shows "\<exists>info reg' m'. add_to_registry reg obj = Inr (info, reg') \<and> registry_ok reg' \<and>
    (case info of None \<Rightarrow> Some m | Some x \<Rightarrow> apply_info x (Some m)) = Some m' \<and> knows m' reg'"
proof -
  obtain i where i: "object_id obj = Some i" using assms(3) by (auto simp: trackable_def)
  have ok: "registry_ok (jset i obj reg)" using registry_ok_jset assms(1,3) i by blast
  have k: "knows (m(i \<mapsto> old)) (jset i obj reg)" if "deep_eq old obj" for old
    using assms(2) that by (simp add: knows_def)
  show ?thesis
  proof (cases "jget reg i")
    case None
    then have "m i = None" using assms(2) by (metis knows_def option.rel_distinct(2) option.exhaust)
    then show ?thesis using None i ok k [OF trackable_refl [OF assms(3)]] by (simp add: add_to_registry_def)
  next
    case (Some robj)
    then have r: "trackable robj" using registry_ok_get [OF assms(1)] by blast
    obtain old where old: "m i = Some old" "deep_eq old robj"
      using assms(2) Some by (metis knows_def option_rel_Some2)
    have eq: "deep_eq obj robj = deep_eq obj old"
      using old(2) deep_eq_sym deep_eq_trans by blast
    show ?thesis
    proof (cases "deep_eq obj robj")
      case True
      then have "deep_eq old obj" using eq deep_eq_sym by blast
      then have "knows m (jset i obj reg)" using k old(1) by (metis fun_upd_triv)
      then show ?thesis using True Some i ok r assms(3) by (simp add: add_to_registry_def trackable_eq)
    next
      case False
      then show ?thesis
        using Some i ok r assms(3) eq old k [OF trackable_refl [OF assms(3)]]
        by (simp add: add_to_registry_def trackable_eq)
    qed
  qed
qed

section \<open>Removal\<close>

text \<open>The objects that a deadvertisement of ids removes: those with the id of, or whose parent has, one of
  them.\<close>

definition concerned :: "string list \<Rightarrow> jsv \<Rightarrow> bool" where
  "concerned ids obj = (\<exists>i \<in> set ids. object_id obj = Some i \<or> is_child_of i obj)"

lemma update_on_remove:
  assumes "registry_ok reg" "update_registry_on_remove i (reg, removed) = (reg', removed')"
  shows "reg' = filter (\<lambda>e. \<not> concerned [i] (snd e)) reg \<and>
    set removed' = set removed \<union> {obj. concerned [i] obj \<and> obj \<in> snd ` set reg}"
proof -
  have ids: "\<And>e. e \<in> set reg \<Longrightarrow> object_id (snd e) = Some (fst e)" using assms(1) by (auto simp: registry_ok_def)
  have del: "jdel i (filter (\<lambda>e. \<not> is_child_of i (snd e)) reg) = filter (\<lambda>e. \<not> concerned [i] (snd e)) reg"
    using ids by (auto simp: jdel_def concerned_def intro!: filter_cong)
  have none: "filter (\<lambda>e. \<not> is_child_of i (snd e)) reg = filter (\<lambda>e. \<not> concerned [i] (snd e)) reg"
    if "jget reg i = None"
    using ids that by (force simp: concerned_def map_of_eq_None_iff intro!: filter_cong)
  show ?thesis
  proof (cases "jget reg i")
    case None
    then have "\<not> (\<exists>e \<in> set reg. fst e = i)" by (auto simp: map_of_eq_None_iff)
    then have "set (map snd (filter (\<lambda>e. is_child_of i (snd e)) reg)) = {obj. concerned [i] obj \<and> obj \<in> snd ` set reg}"
      using ids by (force simp: concerned_def)
    moreover have "removed' = removed @ map snd (filter (\<lambda>e. is_child_of i (snd e)) reg)"
      "reg' = filter (\<lambda>e. \<not> is_child_of i (snd e)) reg"
      using assms(2) None by (simp_all add: update_registry_on_remove_def Let_def)
    ultimately show ?thesis using none [OF None] by (simp only: set_append simp_thms)
  next
    case (Some obj)
    then have o: "(i, obj) \<in> set reg" by (rule map_of_SomeD)
    have u: "e = (i, obj)" if "e \<in> set reg" "fst e = i" for e
      using that Some assms(1) by (metis jwf_in_set_iff option.inject prod.collapse registry_ok_def)
    have c: "concerned [i] (snd e) \<longleftrightarrow> is_child_of i (snd e) \<or> e = (i, obj)" if "e \<in> set reg" for e
      using ids [OF that] u [OF that] by (cases e) (auto simp: concerned_def)
    have "set (map snd (filter (\<lambda>e. is_child_of i (snd e)) reg)) \<union> {obj} = snd ` {e \<in> set reg. concerned [i] (snd e)}"
    proof
      show "set (map snd (filter (\<lambda>e. is_child_of i (snd e)) reg)) \<union> {obj} \<subseteq> snd ` {e \<in> set reg. concerned [i] (snd e)}"
        using c o by (fastforce simp: concerned_def intro: rev_image_eqI [of "(i, obj)"])
      show "snd ` {e \<in> set reg. concerned [i] (snd e)} \<subseteq> set (map snd (filter (\<lambda>e. is_child_of i (snd e)) reg)) \<union> {obj}"
        using c by auto
    qed
    also have "\<dots> = {obj. concerned [i] obj \<and> obj \<in> snd ` set reg}" by auto
    finally have "set (map snd (filter (\<lambda>e. is_child_of i (snd e)) reg)) \<union> {obj} = {obj. concerned [i] obj \<and> obj \<in> snd ` set reg}" .
    moreover have "removed' = removed @ map snd (filter (\<lambda>e. is_child_of i (snd e)) reg) @ [obj]"
      "reg' = jdel i (filter (\<lambda>e. \<not> is_child_of i (snd e)) reg)"
      using assms(2) Some by (simp_all add: update_registry_on_remove_def Let_def)
    ultimately have "set removed' = set removed \<union> {obj. concerned [i] obj \<and> obj \<in> snd ` set reg}"
      "reg' = filter (\<lambda>e. \<not> concerned [i] (snd e)) reg"
      using del by (auto simp only: set_append list.set)
    then show ?thesis by blast
  qed
qed

lemma registry_ok_filter: "registry_ok reg \<Longrightarrow> registry_ok (filter P reg)"
  by (auto simp: registry_ok_def distinct_map_filter)

lemma remove_fold:
  assumes "registry_ok reg" "fold update_registry_on_remove ids (reg, removed) = (reg', removed')"
  shows "reg' = filter (\<lambda>e. \<not> concerned ids (snd e)) reg \<and>
    set removed' = set removed \<union> {obj. concerned ids obj \<and> obj \<in> snd ` set reg}"
  using assms
proof (induction ids arbitrary: reg removed)
  case (Cons i ids)
  obtain reg1 removed1 where 1: "update_registry_on_remove i (reg, removed) = (reg1, removed1)" by (metis surj_pair)
  note u = update_on_remove [OF Cons.prems(1) 1]
  have c: "concerned (i # ids) obj \<longleftrightarrow> concerned [i] obj \<or> concerned ids obj" for obj
    by (auto simp: concerned_def)
  have ok: "registry_ok reg1" using registry_ok_filter [OF Cons.prems(1)] u by simp
  have "fold update_registry_on_remove ids (reg1, removed1) = (reg', removed')" using Cons.prems(2) 1 by simp
  note IH = Cons.IH [OF ok this]
  show ?case using IH u by (auto simp: c)
qed (simp add: concerned_def)

lemma remove_info:
  assumes "registry_ok reg" "knows m reg" "remove_from_registry ids reg = (info, reg')"
  shows "registry_ok reg' \<and> reg' = filter (\<lambda>e. \<not> concerned ids (snd e)) reg \<and>
    (\<exists>m'. (case info of None \<Rightarrow> Some m | Some x \<Rightarrow> apply_info x (Some m)) = Some m' \<and> knows m' reg')"
proof -
  obtain removed where f: "fold update_registry_on_remove ids (reg, []) = (reg', removed)"
    "info = (if removed = [] then None else Some (Removed removed))"
    using assms(3) by (auto simp: remove_from_registry_def split: prod.splits)
  note r = remove_fold [OF assms(1) f(1)]
  have ok: "registry_ok reg'" using registry_ok_filter [OF assms(1)] r by simp
  have ids: "\<And>i obj. (i, obj) \<in> set reg \<Longrightarrow> object_id obj = Some i" using assms(1) by (auto simp: registry_ok_def)
  have jwf: "jwf reg" "jwf reg'" using assms(1) ok by (auto simp: registry_ok_def)
  have known: "m i \<noteq> None \<longleftrightarrow> jget reg i \<noteq> None" for i
    using assms(2) by (metis knows_def option.rel_distinct(1,2) option.exhaust)
  have get: "jget reg' i = (case jget reg i of None \<Rightarrow> None | Some obj \<Rightarrow> if concerned ids obj then None else Some obj)" for i
  proof (cases "jget reg i")
    case None
    then have "i \<notin> fst ` set reg'" using r by (auto simp: map_of_eq_None_iff)
    then have "jget reg' i = None" by (simp add: map_of_eq_None_iff)
    then show ?thesis using None by simp
  next
    case (Some obj)
    then have "(i, obj) \<in> set reg" by (rule map_of_SomeD)
    have u: "o1 = obj" if "(i, o1) \<in> set reg" for o1
      by (metis jwf_in_set_iff jwf(1) that Some option.inject)
    show ?thesis
    proof (cases "concerned ids obj")
      case True
      then have "i \<notin> fst ` set reg'" using r u by auto
      then have "jget reg' i = None" by (simp add: map_of_eq_None_iff)
      then show ?thesis using Some True by simp
    next
      case False
      then have "(i, obj) \<in> set reg'" using r \<open>(i, obj) \<in> set reg\<close> by simp
      then have "jget reg' i = Some obj" using jwf(2) by (simp only: jwf_in_set_iff)
      then show ?thesis using Some False by simp
    qed
  qed
  have rem: "obj \<in> set removed \<longleftrightarrow> concerned ids obj \<and> obj \<in> snd ` set reg" for obj using r by auto
  let ?gone = "{i. \<exists>obj \<in> set removed. object_id obj = Some i}"
  have entry: "obj \<in> set removed \<and> object_id obj = Some i \<longleftrightarrow> jget reg i = Some obj \<and> concerned ids obj" for i obj
  proof
    assume a: "obj \<in> set removed \<and> object_id obj = Some i"
    then obtain j where "(j, obj) \<in> set reg" using rem by auto
    moreover from this have "j = i" using ids [of j obj] a by simp
    ultimately show "jget reg i = Some obj \<and> concerned ids obj"
      using a rem jwf_in_set_iff [OF jwf(1), of i obj] by blast
  next
    assume a: "jget reg i = Some obj \<and> concerned ids obj"
    then have "(i, obj) \<in> set reg" by (blast dest: map_of_SomeD)
    then show "obj \<in> set removed \<and> object_id obj = Some i" using a rem ids by force
  qed
  have gone: "i \<in> ?gone \<longleftrightarrow> (\<exists>obj. jget reg i = Some obj \<and> concerned ids obj)" for i
    using entry by blast
  have k: "knows (m |` (- ?gone)) reg'"
  proof (unfold knows_def, rule allI)
    fix i
    have m: "rel_option deep_eq (m i) (jget reg i)" using assms(2) by (simp add: knows_def)
    show "rel_option deep_eq ((m |` (- ?gone)) i) (jget reg' i)"
    proof (cases "jget reg i")
      case None
      then have "m i = None" using m by (cases "m i") simp_all
      then show ?thesis using None by (simp add: get restrict_map_def)
    next
      case (Some obj)
      then have "i \<in> ?gone \<longleftrightarrow> concerned ids obj" using gone by simp
      then show ?thesis using m Some by (simp add: get restrict_map_def del: mem_Collect_eq)
    qed
  qed
  show ?thesis
  proof (cases "removed = []")
    case True
    then have "m |` (- ?gone) = m" by (simp add: restrict_map_def)
    then show ?thesis using k ok r True f(2) by simp
  next
    case False
    have "\<exists>i. object_id obj = Some i \<and> m i \<noteq> None" if o: "obj \<in> set removed" for obj
    proof -
      obtain i where "(i, obj) \<in> set reg" using rem o by auto
      then have "object_id obj = Some i" "jget reg i = Some obj"
        using ids jwf_in_set_iff [OF jwf(1), of i obj] by blast+
      then show ?thesis using known [of i] by simp
    qed
    then have "\<not> (\<exists>obj \<in> set removed. case object_id obj of None \<Rightarrow> True | Some i \<Rightarrow> m i = None)"
      by (fastforce split: option.splits)
    then show ?thesis using k ok r False f(2) by simp
  qed
qed

section \<open>Runs\<close>


section \<open>A concrete run\<close>

definition agent :: "string \<Rightarrow> string \<Rightarrow> jsv" where
  "agent i parent = jobj [(''objectId'', JStr i), (''parentObjectId'', JStr parent)]"


text \<open>An object that is its own parent is reported twice in one removal; a child of a removed child stays.\<close>

lemma removal_self_parent:
  "remove_from_registry [''a''] [(''a'', agent ''a'' ''a'')] = (Some (Removed [agent ''a'' ''a'', agent ''a'' ''a'']), [])"
  by (simp add: remove_from_registry_def update_registry_on_remove_def is_child_of_def agent_def jdel_def)

lemma removal_not_transitive:
  "remove_from_registry [''a''] [(''a'', agent ''a'' ''x''), (''b'', agent ''b'' ''a''), (''c'', agent ''c'' ''b'')] =
    (Some (Removed [agent ''b'' ''a'', agent ''a'' ''x'']), [(''c'', agent ''c'' ''b'')])"
  by (simp add: remove_from_registry_def update_registry_on_remove_def is_child_of_def agent_def jdel_def)

end
