(* ===== verification/Container.thy ===== *)
theory Container
  imports CommManagerInv
begin

text \<open>
  The container of an agent, \<open>src/src/runtime/container.ts\<close>: it creates the controllers, calls their
  lifecycle methods, and passes on the operating states of the communication manager. An instance of
  a controller is a number, in the order of creation; the calls of lifecycle methods are an output.
\<close>

section \<open>State\<close>

datatype controller_call = OnInit | OnStarting | OnStopping | OnDispose

record container =
  ct_manager :: comm_manager
  ct_controllers :: "(string, nat) jmap"
  ct_next :: nat
  ct_shutdown :: bool
  ct_calls :: "(nat \<times> controller_call) list"

record container_config =
  cc_identity :: jsv
  cc_communication :: "comm_config option"
  cc_auto_start :: bool

text \<open>\<open>Object.assign\<close>.\<close>

definition object_assign :: "jsv \<Rightarrow> jsv \<Rightarrow> jsv" where
  "object_assign target source = fold (\<lambda>(k, v) o1. set_prop k v o1) (own_props source) target"

definition create_identity :: "string \<Rightarrow> jsv \<Rightarrow> jsv" where
  "create_identity newUuid props =
    object_assign
      (object_assign (jobj [(''objectId'', JStr newUuid), (''name'', JStr ''Coaty Agent'')])
        (if truthy props then props else jobj []))
      (jobj [(''objectType'', JStr (object_type_prefix @ ''Identity'')), (''coreType'', JStr ''Identity'')])"

section \<open>Lifecycle methods\<close>

definition call_controller :: "controller_call \<Rightarrow> nat \<Rightarrow> container \<Rightarrow> container" where
  "call_controller call i c = c\<lparr>ct_calls := ct_calls c @ [(i, call)]\<rparr>"

definition call_all :: "controller_call \<Rightarrow> container \<Rightarrow> container" where
  "call_all call c = fold (call_controller call) (jvals (ct_controllers c)) c"

definition operating_state_callback :: "bool \<Rightarrow> controller_call" where
  "operating_state_callback started = (if started then OnStarting else OnStopping)"

text \<open>The operating states that the manager has reported; the subscription of the container passes on each
  new one.\<close>

definition operating_states :: "comm_manager \<Rightarrow> bool list" where
  "operating_states m = concat (map (\<lambda>d. case d of Operating b \<Rightarrow> [b] | _ \<Rightarrow> []) (ia_out m))"

definition on_manager :: "comm_manager \<Rightarrow> container \<Rightarrow> container" where
  "on_manager m c =
    fold (\<lambda>b. call_all (operating_state_callback b))
      (drop (length (operating_states (ct_manager c))) (operating_states m)) (c\<lparr>ct_manager := m\<rparr>)"

section \<open>Operations\<close>

definition resolve_controller :: "string \<Rightarrow> container \<Rightarrow> nat option \<times> container" where
  "resolve_controller controllerName c =
    (if controllerName \<noteq> [] then
       (Some (ct_next c),
        c\<lparr>ct_controllers := jset controllerName (ct_next c) (ct_controllers c), ct_next := Suc (ct_next c)\<rparr>)
     else (None, c))"

definition resolve_components ::
  "(nat \<Rightarrow> string) \<Rightarrow> string \<Rightarrow> string list \<Rightarrow> container_config option \<Rightarrow> js_error + container" where
  "resolve_components uuid newUuid controllerNames config =
    (case config of
       None \<Rightarrow> Inl (Error ''Container: Configuration is not defined'')
     | Some cfg \<Rightarrow>
         (case cc_communication cfg of
            None \<Rightarrow> Inl (Error ''Container: Configuration communication options not defined'')
          | Some comm \<Rightarrow>
              (let manager = new_comm_manager uuid (comm\<lparr>cf_identity := create_identity newUuid (cc_identity cfg)\<rparr>);
                   c0 = \<lparr>ct_manager = manager, ct_controllers = [], ct_next = 0, ct_shutdown = False, ct_calls = []\<rparr>;
                   c1 = fold (\<lambda>name c. snd (resolve_controller name c)) controllerNames c0;
                   c2 = call_all OnInit c1
               in if cc_auto_start cfg then rbind (start_manager (ct_manager c2)) (\<lambda>m. Inr (on_manager m c2))
                  else Inr c2)))"

definition register_controller :: "string \<Rightarrow> container \<Rightarrow> nat option \<times> container" where
  "register_controller controllerName c =
    (if ct_shutdown c then (None, c)
     else
       (case resolve_controller controllerName c of
          (None, c1) \<Rightarrow> (None, c1)
        | (Some ctrl, c1) \<Rightarrow>
            (let c2 = call_controller OnInit ctrl c1
             in (Some ctrl, if cm_started (ct_manager c2) then call_controller OnStarting ctrl c2 else c2))))"

definition get_controller :: "string \<Rightarrow> container \<Rightarrow> nat option" where
  "get_controller controllerName c = jget (ct_controllers c) controllerName"

definition map_controllers :: "(string \<Rightarrow> nat \<Rightarrow> 'a) \<Rightarrow> container \<Rightarrow> 'a list" where
  "map_controllers callback c = map (\<lambda>(name, ctrl). callback name ctrl) (ct_controllers c)"

definition release_components :: "(nat \<Rightarrow> string) \<Rightarrow> container \<Rightarrow> container" where
  "release_components uuid c =
    (let c1 = on_manager (on_dispose uuid (ct_manager c)) c;
         c2 = call_all OnDispose c1
     in c2\<lparr>ct_controllers := []\<rparr>)"

definition shutdown_container :: "(nat \<Rightarrow> string) \<Rightarrow> container \<Rightarrow> container" where
  "shutdown_container uuid c = (if ct_shutdown c then c else release_components uuid (c\<lparr>ct_shutdown := True\<rparr>))"

text \<open>What happens to a container: controllers are registered, the manager is started, stopped or restarted
  (by a stop and a later join), the container is shut down. The other operations of the manager report no
  operating state.\<close>

datatype container_op = RegisterController string | StartManager | RejoinManager | StopManager comm_options | ShutdownContainer

definition container_step :: "(nat \<Rightarrow> string) \<Rightarrow> container_op \<Rightarrow> container \<Rightarrow> js_error + container" where
  "container_step uuid op c =
    (case op of
       RegisterController name \<Rightarrow> Inr (snd (register_controller name c))
     | StartManager \<Rightarrow> rbind (start_manager (ct_manager c)) (\<lambda>m. Inr (on_manager m c))
     | RejoinManager \<Rightarrow> rbind (join_binding (ct_manager c)) (\<lambda>m. Inr (on_manager m c))
     | StopManager options \<Rightarrow> Inr (on_manager (unjoin_binding uuid options (ct_manager c)) c)
     | ShutdownContainer \<Rightarrow> Inr (shutdown_container uuid c))"

fun container_run :: "(nat \<Rightarrow> string) \<Rightarrow> container_op list \<Rightarrow> container \<Rightarrow> js_error + container" where
  "container_run uuid [] c = Inr c"
| "container_run uuid (op # ops) c = rbind (container_step uuid op c) (container_run uuid ops)"

end
