(* ===== verification/ContainerProps.thy ===== *)
theory ContainerProps
  imports Container
begin

text \<open>
  The lifecycle of controllers: whatever happens to a container, the calls of the lifecycle methods of
  each controller follow the documented order, and a registered controller knows the operating state.
\<close>

section \<open>The operating state of the manager\<close>

text \<open>Each lifecycle operation of the manager reports the operating state exactly if it changes.\<close>

definition reports_change :: "comm_manager \<Rightarrow> comm_manager \<Rightarrow> bool" where
  "reports_change m m' =
    (operating_states m' = operating_states m @ (if cm_started m = cm_started m' then [] else [cm_started m']))"

lemma operating_states_out:
  "operating_states s = operating_states t" if "ia_out (s :: comm_manager) = ia_out t"
  using that by (simp add: operating_states_def)

lemma operating_completes: "concat (map (\<lambda>d. case d of Operating b \<Rightarrow> [b] | _ \<Rightarrow> []) (concat (map completes obs))) = []"
  by (induction obs) (auto simp: completes_def split: observer.splits)

lemma complete_request_operating [simp]: "operating_states (complete_request i s) = operating_states s"
  by (simp add: operating_states_def complete_request_out operating_completes)

lemma complete_response_operating [simp]: "operating_states (complete_response i s) = operating_states s"
  by (simp add: operating_states_def complete_response_out operating_completes)

lemma fold_complete_operating:
  "operating_states (fold complete_request is s) = operating_states s"
  "operating_states (fold complete_response is s) = operating_states s"
  by (induction "is" arbitrary: s) simp_all

lemma unobserve_io_operating: "operating_states (unobserve_io_state_and_value s) = operating_states s"
proof -
  have "concat (map (\<lambda>d. case d of Operating b \<Rightarrow> [b] | _ \<Rightarrow> []) (io_completes s)) = []"
    by (auto simp: io_completes_def)
  then show ?thesis by (simp add: operating_states_def unobserve_io_out)
qed

lemma init_observed_items_operating: "operating_states (init_observed_items s) = operating_states s"
  by (simp add: operating_states_def init_observed_items_def)

lemma unobserve_items_operating: "operating_states (unobserve_observed_items s) = operating_states s"
  unfolding unobserve_observed_items_def Let_def init_observed_items_operating
  by (simp only: fold_complete_operating unobserve_io_operating)

definition flags :: "comm_manager \<Rightarrow> bool \<times> bool" where
  "flags s = (cm_started s, cm_disposed s)"

lemma unobserve_items_flags: "flags (unobserve_observed_items s) = flags s"
proof -
  have init: "flags (init_observed_items t) = flags t" for t by (simp add: flags_def init_observed_items_def)
  have req: "flags (unsubscribe_request i obs t) = flags t" for i obs t
    by (simp add: flags_def unsubscribe_request_def Let_def set_request_item_def on_binding_def)
  have resp: "flags (unsubscribe_response i obs t) = flags t" for i obs t
    by (simp add: flags_def unsubscribe_response_def Let_def set_response_item_def on_binding_def)
  have o: "flags (out ds t) = flags t" for ds t by (simp add: flags_def out_def)
  have io: "flags (unobserve_io_state_and_value t) = flags t" for t
    by (rule unobserve_io_keeps) (simp_all add: o, simp add: flags_def)
  have f1: "flags (fold complete_request xs t) = flags t" for xs t
    by (rule fold_complete_keeps) (simp_all add: req o)
  have f2: "flags (fold complete_response xs t) = flags t" for xs t
    by (rule fold_complete_response_keeps) (simp_all add: resp o)
  show ?thesis unfolding unobserve_observed_items_def Let_def init f2 f1 io ..
qed

lemma update_operating_state_reports:
  "operating_states (update_operating_state b s) = operating_states s @ (if cm_started s = b then [] else [b])"
  "flags (update_operating_state b s) = (b, cm_disposed s)"
  by (auto simp: update_operating_state_def operating_states_def out_def flags_def)

lemma unjoin_binding_reports:
  "reports_change m (unjoin_binding uuid options m)" "flags (unjoin_binding uuid options m) = (False, cm_disposed m)"
proof -
  let ?s = "unobserve_observed_items (update_operating_state False m)"
  have 1: "ia_out (unjoin_binding uuid options m) = ia_out ?s" "flags (unjoin_binding uuid options m) = flags ?s"
    by (simp_all add: unjoin_binding_def Let_def init_options_def flags_def)
  show f: "flags (unjoin_binding uuid options m) = (False, cm_disposed m)"
    by (simp add: 1(2) unobserve_items_flags update_operating_state_reports)
  then show "reports_change m (unjoin_binding uuid options m)"
    using operating_states_out [OF 1(1)]
    by (simp add: reports_change_def unobserve_items_operating update_operating_state_reports flags_def)
qed

lemma observe_request_quiet:
  assumes "observe_request t f s = (i, s')"
  shows "ia_out s' = ia_out s \<and> flags s' = flags s"
  using assms by (auto simp: observe_request_def Let_def flags_def split: option.splits)

lemma subscribe_request_quiet: "flags (subscribe_request i obs s) = flags s"
  by (simp add: subscribe_request_def set_request_item_def Let_def flags_def)

lemma observe_subscribe_quiet:
  "ia_out (case observe_request t f s of (i, s') \<Rightarrow> subscribe_request i obs s') = ia_out s"
  "flags (case observe_request t f s of (i, s') \<Rightarrow> subscribe_request i obs s') = flags s"
  using observe_request_quiet [of t f s "fst (observe_request t f s)" "snd (observe_request t f s)"]
  by (simp_all add: case_prod_beta subscribe_request_quiet)

lemma join_observations_quiet:
  "ia_out (observe_associate s) = ia_out s" "flags (observe_associate s) = flags s"
  "ia_out (observe_discover_io_nodes s) = ia_out s" "flags (observe_discover_io_nodes s) = flags s"
  "ia_out (observe_discover_identity s) = ia_out s" "flags (observe_discover_identity s) = flags s"
proof -
  have f: "ia_out (fold (\<lambda>node s'. (let (i, s'') = observe_request Associate (Some (in_name node)) s'
        in subscribe_request i HandleAssociate s'')) ns t) = ia_out t \<and>
      flags (fold (\<lambda>node s'. (let (i, s'') = observe_request Associate (Some (in_name node)) s'
        in subscribe_request i HandleAssociate s'')) ns t) = flags t" for ns t
    by (induction ns arbitrary: t) (simp_all add: observe_subscribe_quiet)
  show "ia_out (observe_associate s) = ia_out s" "flags (observe_associate s) = flags s"
    unfolding observe_associate_def using f by blast+
qed (simp_all add: observe_discover_io_nodes_def observe_discover_identity_def observe_subscribe_quiet)

lemma join_binding_reports:
  assumes "join_binding m = Inr m'"
  shows "reports_change m m'" "flags m' = (True, cm_disposed m)"
proof -
  obtain opts where m': "m' = update_operating_state True
      (observe_discover_identity (observe_discover_io_nodes (observe_associate (on_binding (join opts) m))))"
    using assms by (auto simp: join_binding_def Let_def rbind_Inr_conv)
  let ?s = "observe_discover_identity (observe_discover_io_nodes (observe_associate (on_binding (join opts) m)))"
  have q: "ia_out ?s = ia_out m" "flags ?s = flags m"
    by (simp_all add: join_observations_quiet) (simp add: flags_def)
  then show f: "flags m' = (True, cm_disposed m)" by (simp add: m' update_operating_state_reports) (simp add: flags_def)
  then show "reports_change m m'"
    using operating_states_out [OF q(1)] q(2)
    by (simp add: reports_change_def m' update_operating_state_reports flags_def)
qed

lemma reports_change_refl: "reports_change m m"
  by (simp add: reports_change_def)

lemma start_manager_reports:
  "start_manager m = Inr m' \<Longrightarrow> reports_change m m'" "start_manager m = Inr m' \<Longrightarrow> cm_disposed m' = cm_disposed m"
  using join_binding_reports [of m m']
  by (auto simp: start_manager_def reports_change_refl flags_def split: if_splits)

lemma on_dispose_reports: "reports_change m (on_dispose uuid m)"
proof (cases "cm_disposed m")
  case False
  have "reports_change (m\<lparr>cm_disposed := True\<rparr>) (on_dispose uuid m)"
    unfolding on_dispose_def if_not_P [OF False] by (rule unjoin_binding_reports)
  then show ?thesis by (simp add: reports_change_def operating_states_def)
qed (simp add: on_dispose_def reports_change_def)

section \<open>The lifecycle of a controller\<close>

text \<open>The documented order of the calls: initialized, then started and stopped in turn, then disposed.\<close>

datatype phase = Fresh | Ready | Running | Gone

fun phase_step :: "controller_call \<Rightarrow> phase option \<Rightarrow> phase option" where
  "phase_step OnInit (Some Fresh) = Some Ready"
| "phase_step OnStarting (Some Ready) = Some Running"
| "phase_step OnStopping (Some Running) = Some Ready"
| "phase_step OnDispose (Some Ready) = Some Gone"
| "phase_step _ _ = None"

definition calls_of :: "nat \<Rightarrow> container \<Rightarrow> controller_call list" where
  "calls_of i c = map snd (filter (\<lambda>p. fst p = i) (ct_calls c))"

definition phase_of :: "nat \<Rightarrow> container \<Rightarrow> phase option" where
  "phase_of i c = fold phase_step (calls_of i c) (Some Fresh)"

definition registered :: "container \<Rightarrow> nat set" where
  "registered c = set (jvals (ct_controllers c))"

definition running_phase :: "bool \<Rightarrow> phase" where
  "running_phase started = (if started then Running else Ready)"

text \<open>The registered controllers have the phase of the manager; the other ones keep an admissible phase.\<close>

definition phases_ok :: "container \<Rightarrow> bool" where
  "phases_ok c =
    (jwf (ct_controllers c) \<and> distinct (jvals (ct_controllers c)) \<and> (\<forall>i. phase_of i c \<noteq> None) \<and>
     (\<forall>i \<in> registered c. i < ct_next c \<and> phase_of i c = Some (running_phase (cm_started (ct_manager c)))) \<and>
     (\<forall>i \<ge> ct_next c. calls_of i c = []))"

definition lifecycle_ok :: "container \<Rightarrow> bool" where
  "lifecycle_ok c =
    (phases_ok c \<and> (ct_shutdown c \<longrightarrow> ct_controllers c = []) \<and> (cm_disposed (ct_manager c) \<longrightarrow> ct_shutdown c))"

lemma call_all_sel [simp]:
  "ct_controllers (call_all call c) = ct_controllers c" "ct_manager (call_all call c) = ct_manager c"
  "ct_next (call_all call c) = ct_next c" "ct_shutdown (call_all call c) = ct_shutdown c"
proof -
  have "ct_controllers (fold (call_controller call) is c) = ct_controllers c \<and>
      ct_manager (fold (call_controller call) is c) = ct_manager c \<and>
      ct_next (fold (call_controller call) is c) = ct_next c \<and>
      ct_shutdown (fold (call_controller call) is c) = ct_shutdown c" for "is"
    by (induction "is" arbitrary: c) (simp_all add: call_controller_def)
  then show "ct_controllers (call_all call c) = ct_controllers c" "ct_manager (call_all call c) = ct_manager c"
    "ct_next (call_all call c) = ct_next c" "ct_shutdown (call_all call c) = ct_shutdown c"
    by (simp_all add: call_all_def)
qed

lemma calls_of_call_controller:
  "calls_of i (call_controller call j c) = calls_of i c @ (if i = j then [call] else [])"
  by (simp add: calls_of_def call_controller_def)

lemma calls_of_call_all:
  assumes "distinct (jvals (ct_controllers c))"
  shows "calls_of i (call_all call c) = calls_of i c @ (if i \<in> registered c then [call] else [])"
proof -
  have "calls_of i (fold (call_controller call) is c) = calls_of i c @ (if i \<in> set is then [call] else [])"
    if "distinct is" for "is"
    using that by (induction "is" arbitrary: c) (auto simp: calls_of_call_controller)
  then show ?thesis using assms by (simp add: call_all_def registered_def)
qed

lemma phase_of_call_all:
  assumes "distinct (jvals (ct_controllers c))"
  shows "phase_of i (call_all call c) = (if i \<in> registered c then phase_step call (phase_of i c) else phase_of i c)"
  by (simp add: phase_of_def calls_of_call_all [OF assms])

lemma registered_iff:
  assumes "phases_ok c"
  shows "i \<in> registered c \<longleftrightarrow> (\<exists>name. get_controller name c = Some i)"
proof -
  have wf: "jwf (ct_controllers c)" using assms by (simp add: phases_ok_def)
  have "i \<in> registered c \<longleftrightarrow> (\<exists>name. (name, i) \<in> set (ct_controllers c))" by (force simp: registered_def)
  then show ?thesis by (simp only: get_controller_def jwf_in_set_iff [OF wf])
qed

lemma controller_names_inj:
  assumes "phases_ok c" "get_controller name c = Some i" "get_controller name' c = Some i"
  shows "name = name'"
proof -
  have "distinct (jvals (ct_controllers c))" using assms(1) by (simp add: phases_ok_def)
  moreover have "(name, i) \<in> set (ct_controllers c)" "(name', i) \<in> set (ct_controllers c)"
    using assms(2,3) by (simp_all only: get_controller_def map_of_SomeD)
  ultimately show ?thesis by (fastforce simp: distinct_map inj_on_def)
qed

text \<open>A change of the operating state moves the registered controllers.\<close>

lemma on_manager_ok:
  assumes ok: "phases_ok c" and r: "reports_change (ct_manager c) m"
  shows "phases_ok (on_manager m c)" "ct_controllers (on_manager m c) = ct_controllers c"
    "ct_next (on_manager m c) = ct_next c" "ct_shutdown (on_manager m c) = ct_shutdown c"
    "ct_manager (on_manager m c) = m"
    "i \<notin> registered c \<Longrightarrow> phase_of i (on_manager m c) = phase_of i c"
proof -
  let ?c = "c\<lparr>ct_manager := m\<rparr>"
  have keep: "calls_of i ?c = calls_of i c" "phase_of i ?c = phase_of i c" for i
    by (simp_all add: phase_of_def calls_of_def)
  have reg: "registered ?c = registered c" by (simp add: registered_def)
  have d: "distinct (jvals (ct_controllers ?c))" using ok by (simp add: phases_ok_def)
  consider (same) "on_manager m c = ?c" "cm_started (ct_manager c) = cm_started m"
    | (change) "on_manager m c = call_all (operating_state_callback (cm_started m)) ?c"
        "cm_started (ct_manager c) = (\<not> cm_started m)"
    using r by (cases "cm_started (ct_manager c) = cm_started m") (auto simp: on_manager_def reports_change_def)
  note cases = this
  from cases show "ct_controllers (on_manager m c) = ct_controllers c"
    "ct_next (on_manager m c) = ct_next c" "ct_shutdown (on_manager m c) = ct_shutdown c"
    "ct_manager (on_manager m c) = m"
    by (cases; simp)+
  from cases show "phase_of i (on_manager m c) = phase_of i c" if "i \<notin> registered c"
    using that by cases (simp_all add: keep phase_of_call_all [OF d] reg)
  from cases show "phases_ok (on_manager m c)"
  proof cases
    case same
    then show ?thesis using ok by (simp add: phases_ok_def keep reg)
  next
    case change
    have p: "phase_of i (on_manager m c) =
        (if i \<in> registered c then Some (running_phase (cm_started m)) else phase_of i c)" for i
      using ok change(2) by (cases "cm_started m")
        (auto simp: change(1) phase_of_call_all [OF d] keep reg phases_ok_def running_phase_def operating_state_callback_def)
    have "calls_of i (on_manager m c) = []" if "ct_next c \<le> i" for i
      using ok that by (auto simp: change(1) calls_of_call_all [OF d] keep reg phases_ok_def)
    then show ?thesis using ok p by (auto simp: phases_ok_def change(1) registered_def)
  qed
qed

lemma registered_jset:
  assumes "jwf (ct_controllers c)" "i \<notin> registered c"
  shows "distinct (jvals (ct_controllers c)) \<Longrightarrow> distinct (jvals (jset name i (ct_controllers c)))"
    "set (jvals (jset name i (ct_controllers c))) \<subseteq> insert i (registered c)"
    "name \<notin> fst ` set (ct_controllers c) \<Longrightarrow> set (jvals (jset name i (ct_controllers c))) = insert i (registered c)"
proof -
  have a: "set (jvals (jset name i m)) \<subseteq> insert i (set (jvals m))" for m
  proof (induction m)
    case (Cons e m)
    then show ?case by (cases e; cases "fst e = name") (simp_all, blast+)
  qed simp
  then show "set (jvals (jset name i (ct_controllers c))) \<subseteq> insert i (registered c)" by (simp add: registered_def)
  have "distinct (jvals m) \<Longrightarrow> i \<notin> set (jvals m) \<Longrightarrow> distinct (jvals (jset name i m))" for m
  proof (induction m)
    case (Cons e m)
    then show ?case using a [of m] by (cases e) (auto split: if_splits)
  qed simp
  then show "distinct (jvals (ct_controllers c)) \<Longrightarrow> distinct (jvals (jset name i (ct_controllers c)))"
    using assms(2) by (simp add: registered_def)
  show "set (jvals (jset name i (ct_controllers c))) = insert i (registered c)" if "name \<notin> fst ` set (ct_controllers c)"
    using that by (simp add: jset_fresh map_of_eq_None_iff registered_def)
qed

section \<open>Registration and release\<close>

lemma resolve_controller_sel:
  assumes "resolve_controller name c = (ctrl, c')"
  shows "ct_manager c' = ct_manager c" "ct_calls c' = ct_calls c" "ct_shutdown c' = ct_shutdown c"
    "calls_of i c' = calls_of i c" "phase_of i c' = phase_of i c"
    "if name = [] then ctrl = None \<and> c' = c
     else ctrl = Some (ct_next c) \<and> ct_next c' = Suc (ct_next c) \<and>
       ct_controllers c' = jset name (ct_next c) (ct_controllers c)"
  using assms by (auto simp: resolve_controller_def calls_of_def phase_of_def split: if_splits)

lemma register_controller_ok:
  assumes ok: "lifecycle_ok c" and r: "register_controller name c = (ctrl, c')"
  shows "lifecycle_ok c'" "ct_shutdown c' = ct_shutdown c"
    "i < ct_next c \<Longrightarrow> phase_of i c' = phase_of i c" "registered c' \<subseteq> insert (ct_next c) (registered c)"
    "fst ` set (ct_controllers c') \<subseteq> insert name (fst ` set (ct_controllers c))" "ct_next c \<le> ct_next c'"
    "name \<notin> fst ` set (ct_controllers c) \<Longrightarrow> i < ct_next c' \<Longrightarrow> \<not> i < ct_next c \<Longrightarrow> i \<in> registered c'"
    "name \<notin> fst ` set (ct_controllers c) \<Longrightarrow> registered c \<subseteq> registered c'"
proof -
  consider (ignored) "c' = c" | (new) "\<not> ct_shutdown c" "name \<noteq> []" using r
    by (cases "ct_shutdown c"; cases "name = []") (auto simp: register_controller_def resolve_controller_def)
  note cases = this
  let ?i = "ct_next c"
  have phases: "phases_ok c" using ok by (simp add: lifecycle_ok_def)
  have new: "lifecycle_ok c' \<and> ct_shutdown c' = ct_shutdown c \<and> (\<forall>i < ct_next c. phase_of i c' = phase_of i c) \<and>
      ct_next c' = Suc ?i \<and> ct_controllers c' = jset name ?i (ct_controllers c)"
    if "\<not> ct_shutdown c" "name \<noteq> []"
  proof -
    let ?c1 = "c\<lparr>ct_controllers := jset name ?i (ct_controllers c), ct_next := Suc ?i\<rparr>"
    let ?calls = "if cm_started (ct_manager c) then [OnInit, OnStarting] else [OnInit]"
    have f: "ct_manager c' = ct_manager c \<and> ct_next c' = Suc ?i \<and> ct_shutdown c' = ct_shutdown c \<and>
        ct_controllers c' = jset name ?i (ct_controllers c)"
      using r that by (auto simp: register_controller_def resolve_controller_def call_controller_def Let_def split: if_splits)
    have k: "calls_of i c' = calls_of i c @ (if i = ?i then ?calls else [])" for i
      using r that by (auto simp: register_controller_def resolve_controller_def call_controller_def Let_def
          calls_of_def split: if_splits)
    have fresh: "calls_of ?i c = []" "?i \<notin> registered c" using phases by (auto simp: phases_ok_def)
    have p: "phase_of i c' = (if i = ?i then Some (running_phase (cm_started (ct_manager c))) else phase_of i c)" for i
      using fresh by (simp add: phase_of_def k running_phase_def)
    have wf: "jwf (ct_controllers c)" "distinct (jvals (ct_controllers c))" using phases by (simp_all add: phases_ok_def)
    have sub: "registered c' \<subseteq> insert ?i (registered c)"
      using registered_jset(2) [OF wf(1) fresh(2), of name] f by (simp add: registered_def)
    have "phases_ok c'"
      unfolding phases_ok_def
    proof (intro conjI allI ballI impI)
      show "jwf (ct_controllers c')" using f wf(1) by simp
      show "distinct (jvals (ct_controllers c'))" using f registered_jset(1) [OF wf(1) fresh(2) wf(2)] by simp
      show "phase_of i c' \<noteq> None" for i using phases p [of i] by (simp add: phases_ok_def)
      show "i < ct_next c'" if "i \<in> registered c'" for i
        using that sub phases f by (auto simp: phases_ok_def less_Suc_eq)
      show "phase_of i c' = Some (running_phase (cm_started (ct_manager c')))" if "i \<in> registered c'" for i
        using that sub phases f p by (auto simp: phases_ok_def)
      show "calls_of i c' = []" if "ct_next c' \<le> i" for i using that phases f k by (simp add: phases_ok_def)
    qed
    then show ?thesis using f p ok that(1) by (simp add: lifecycle_ok_def)
  qed
  have ni: "ct_next c \<notin> registered c" "jwf (ct_controllers c)" using phases by (auto simp: phases_ok_def)
  note reg = registered_jset(2,3) [OF ni(2,1), of name]
  from cases show "lifecycle_ok c'" "ct_shutdown c' = ct_shutdown c" "ct_next c \<le> ct_next c'"
    "registered c' \<subseteq> insert (ct_next c) (registered c)"
    "fst ` set (ct_controllers c') \<subseteq> insert name (fst ` set (ct_controllers c))"
    by (cases; use ok new reg in \<open>auto simp: registered_def\<close>)+
  from cases show "phase_of i c' = phase_of i c" if "i < ct_next c" using that new by cases auto
  from cases show "i \<in> registered c'" if "name \<notin> fst ` set (ct_controllers c)" "i < ct_next c'" "\<not> i < ct_next c"
    using that new reg(2) [OF that(1)] by cases (auto simp: registered_def less_Suc_eq)
  from cases show "registered c \<subseteq> registered c'" if "name \<notin> fst ` set (ct_controllers c)"
    using that new reg(2) [OF that(1)] by cases (auto simp: registered_def)
qed

lemma call_all_shutdown: "call_all call (c\<lparr>ct_shutdown := b\<rparr>) = (call_all call c)\<lparr>ct_shutdown := b\<rparr>"
proof -
  have "fold (call_controller call) is (c\<lparr>ct_shutdown := b\<rparr>) = (fold (call_controller call) is c)\<lparr>ct_shutdown := b\<rparr>" for "is"
  proof (induction "is" arbitrary: c)
    case (Cons i "is")
    have "call_controller call i (c\<lparr>ct_shutdown := b\<rparr>) = (call_controller call i c)\<lparr>ct_shutdown := b\<rparr>"
      by (simp add: call_controller_def)
    then show ?case using Cons by simp
  qed simp
  then show ?thesis by (simp add: call_all_def)
qed

lemma shutdown_container_ok:
  assumes ok: "lifecycle_ok c"
  shows "lifecycle_ok (shutdown_container uuid c)" "ct_shutdown (shutdown_container uuid c)"
    "ct_controllers (shutdown_container uuid c) = []" "ct_next (shutdown_container uuid c) = ct_next c"
    "phase_of i (shutdown_container uuid c) = (if i \<in> registered c then Some Gone else phase_of i c)"
proof -
  have "lifecycle_ok c' \<and> ct_shutdown c' \<and> ct_controllers c' = [] \<and> ct_next c' = ct_next c \<and>
      phase_of i c' = (if i \<in> registered c then Some Gone else phase_of i c)"
    if c': "c' = shutdown_container uuid c" for c'
  proof (cases "ct_shutdown c")
    case True
    then show ?thesis using ok by (simp add: c' shutdown_container_def lifecycle_ok_def registered_def)
  next
    case False
    let ?c0 = "c\<lparr>ct_shutdown := True\<rparr>"
    define c1 where "c1 = on_manager (on_dispose uuid (ct_manager ?c0)) ?c0"
    let ?c2 = "call_all OnDispose c1"
    have c2: "c' = ?c2\<lparr>ct_controllers := []\<rparr>"
      by (simp add: c' shutdown_container_def False release_components_def Let_def c1_def)
    have "calls_of i ?c0 = calls_of i c" "phase_of i ?c0 = phase_of i c" "registered ?c0 = registered c" for i
      by (simp_all add: calls_of_def phase_of_def registered_def)
    note keep0 = this
    have p0: "phases_ok ?c0" using ok by (simp add: lifecycle_ok_def phases_ok_def keep0)
    note om = on_manager_ok [OF p0 on_dispose_reports [of _ uuid], folded c1_def]
    have started: "\<not> cm_started (on_dispose uuid (ct_manager c))"
      using ok False by (simp add: lifecycle_ok_def on_dispose_def unjoin_binding_reports [unfolded flags_def, simplified])
    have r1: "registered c1 = registered c" using om(2) by (simp add: registered_def)
    have d: "distinct (jvals (ct_controllers c1))" using om(1) by (simp add: phases_ok_def)
    have p1: "phase_of i c1 = (if i \<in> registered c then Some Ready else phase_of i c)" for i
      using om(1,5) om(6) [of i] r1 started by (auto simp: phases_ok_def running_phase_def keep0)
    have p2: "phase_of i ?c2 = (if i \<in> registered c then Some Gone else phase_of i c)" for i
      by (simp add: phase_of_call_all [OF d] r1 p1)
    have k: "phase_of i c' = phase_of i ?c2" "calls_of i c' = calls_of i ?c2" for i
      by (simp_all add: c2 calls_of_def phase_of_def)
    have none: "phase_of i c \<noteq> None" for i using ok by (simp add: lifecycle_ok_def phases_ok_def)
    have nx: "ct_next c' = ct_next c" using om(3) by (simp add: c2)
    have unused: "calls_of i c' = []" if "ct_next c \<le> i" for i
    proof -
      have "i \<notin> registered c1" "calls_of i c1 = []" using that om(1,3) by (auto simp: phases_ok_def)
      then show ?thesis by (simp add: k calls_of_call_all [OF d])
    qed
    have "phases_ok c'"
      unfolding phases_ok_def using none unused by (auto simp: c2 registered_def k(1) [unfolded c2] p2 nx [unfolded c2])
    moreover have "ct_shutdown c'" using om(4) by (simp add: c2)
    ultimately show ?thesis using nx p2 k by (simp add: lifecycle_ok_def c2)
  qed
  then show "lifecycle_ok (shutdown_container uuid c)" "ct_shutdown (shutdown_container uuid c)"
    "ct_controllers (shutdown_container uuid c) = []" "ct_next (shutdown_container uuid c) = ct_next c"
    "phase_of i (shutdown_container uuid c) = (if i \<in> registered c then Some Gone else phase_of i c)"
    by blast+
qed

section \<open>Steps of a container\<close>

lemma on_manager_step:
  assumes ok: "lifecycle_ok c" and r: "reports_change (ct_manager c) m" and d: "cm_disposed m = cm_disposed (ct_manager c)"
  shows "lifecycle_ok (on_manager m c)"
  using ok on_manager_ok [OF _ r] d by (simp add: lifecycle_ok_def)

fun op_names :: "container_op \<Rightarrow> string list" where
  "op_names (RegisterController name) = [name]"
| "op_names _ = []"

lemma container_step_manager:
  assumes "container_step uuid op c = Inr c'"
  obtains (register) name where "op = RegisterController name" "c' = snd (register_controller name c)"
    | (shutdown) "op = ShutdownContainer" "c' = shutdown_container uuid c"
    | (manager) m where "op_names op = []" "op \<noteq> ShutdownContainer" "c' = on_manager m c"
        "reports_change (ct_manager c) m" "cm_disposed m = cm_disposed (ct_manager c)"
proof (cases op)
  case (RegisterController name)
  then show thesis using assms register by (simp add: container_step_def)
next
  case StartManager
  then obtain m where "start_manager (ct_manager c) = Inr m" "c' = on_manager m c"
    using assms by (auto simp: container_step_def rbind_Inr_conv)
  then show thesis using manager [of m] StartManager start_manager_reports by simp
next
  case RejoinManager
  then obtain m where "join_binding (ct_manager c) = Inr m" "c' = on_manager m c"
    using assms by (auto simp: container_step_def rbind_Inr_conv)
  then show thesis using manager [of m] RejoinManager join_binding_reports [of "ct_manager c" m] by (simp add: flags_def)
next
  case (StopManager options)
  then show thesis
    using manager [OF _ _ _ unjoin_binding_reports(1), of uuid options]
      unjoin_binding_reports(2) [of uuid options "ct_manager c"] assms
    by (simp add: container_step_def flags_def)
next
  case ShutdownContainer
  then show thesis using assms shutdown by (simp add: container_step_def)
qed

lemma container_step_ok:
  assumes ok: "lifecycle_ok c" and s: "container_step uuid op c = Inr c'"
  shows "lifecycle_ok c'" "ct_next c \<le> ct_next c'"
    "i < ct_next c \<Longrightarrow> i \<notin> registered c \<Longrightarrow> i \<notin> registered c' \<and> phase_of i c' = phase_of i c"
proof -
  have "lifecycle_ok c' \<and> ct_next c \<le> ct_next c' \<and>
      (\<forall>i < ct_next c. i \<notin> registered c \<longrightarrow> i \<notin> registered c' \<and> phase_of i c' = phase_of i c)"
    using s
  proof (cases rule: container_step_manager)
    case (register name)
    obtain ctrl where r: "register_controller name c = (ctrl, c')" using register(2) by (metis surj_pair snd_conv)
    from register_controller_ok(1,3,4,6) [OF ok r] show ?thesis by auto
  next
    case shutdown
    then show ?thesis using shutdown_container_ok [OF ok] by (simp add: registered_def)
  next
    case (manager m)
    have p: "phases_ok c" using ok by (simp add: lifecycle_ok_def)
    show ?thesis using on_manager_step [OF ok manager(4,5)] on_manager_ok [OF p manager(4)]
      by (simp add: manager(3) registered_def)
  qed
  then show "lifecycle_ok c'" "ct_next c \<le> ct_next c'"
    "i < ct_next c \<Longrightarrow> i \<notin> registered c \<Longrightarrow> i \<notin> registered c' \<and> phase_of i c' = phase_of i c" by blast+
qed

text \<open>Every instance is registered, or disposed with its container.\<close>

definition accounted :: "string set \<Rightarrow> container \<Rightarrow> bool" where
  "accounted used c =
    (fst ` set (ct_controllers c) \<subseteq> used \<and>
     (\<forall>i < ct_next c. i \<in> registered c \<or> ct_shutdown c \<and> phase_of i c = Some Gone))"

lemma container_step_accounted:
  assumes ok: "lifecycle_ok c" and s: "container_step uuid op c = Inr c'"
    and a: "accounted used c" and new: "set (op_names op) \<inter> used = {}"
  shows "accounted (set (op_names op) \<union> used) c'"
  using s
proof (cases rule: container_step_manager)
  case (register name)
  obtain ctrl where r: "register_controller name c = (ctrl, c')" using register(2) by (metis surj_pair snd_conv)
  have n: "name \<notin> fst ` set (ct_controllers c)" using new a register(1) by (auto simp: accounted_def)
  note reg = register_controller_ok [OF ok r]
  have "i \<in> registered c' \<or> ct_shutdown c' \<and> phase_of i c' = Some Gone" if "i < ct_next c'" for i
    using reg(7) [OF n that] reg(8) [OF n] reg(2) reg(3) [of i] a by (cases "i < ct_next c") (auto simp: accounted_def)
  then show ?thesis using reg(5) a register(1) by (auto simp: accounted_def)
next
  case shutdown
  then show ?thesis using shutdown_container_ok [OF ok] a by (auto simp: accounted_def registered_def)
next
  case (manager m)
  have p: "phases_ok c" using ok by (simp add: lifecycle_ok_def)
  note om = on_manager_ok [OF p manager(4)]
  have "registered c' = registered c" using om(2) by (simp add: manager(3) registered_def)
  then show ?thesis using a om(2-4,6) manager(1) by (simp add: accounted_def manager(3)) metis
qed

section \<open>Creation\<close>

lemma new_comm_manager_flags: "flags (new_comm_manager uuid config) = (False, False)"
  by (simp add: new_comm_manager_def init_options_def flags_def Let_def)

text \<open>The controllers while they are created: nothing is called yet.\<close>

definition created :: "string list \<Rightarrow> container \<Rightarrow> bool" where
  "created names c =
    (jwf (ct_controllers c) \<and> distinct (jvals (ct_controllers c)) \<and> (\<forall>i \<in> registered c. i < ct_next c) \<and>
     ct_calls c = [] \<and> \<not> ct_shutdown c \<and> flags (ct_manager c) = (False, False) \<and>
     fst ` set (ct_controllers c) \<subseteq> set names \<and>
     (distinct names \<longrightarrow> (\<forall>i < ct_next c. i \<in> registered c)))"

lemma created_step:
  assumes "created names c" "resolve_controller name c = (ctrl, c')"
  shows "created (names @ [name]) c'"
proof (cases "name = []")
  case True
  then show ?thesis using assms by (auto simp: created_def resolve_controller_def)
next
  case False
  note sel = resolve_controller_sel [OF assms(2)]
  have f: "ct_next c' = Suc (ct_next c)" "ct_controllers c' = jset name (ct_next c) (ct_controllers c)"
    using sel(6) False by simp_all
  have c: "jwf (ct_controllers c)" "ct_next c \<notin> registered c" "distinct (jvals (ct_controllers c))"
    using assms(1) by (auto simp: created_def)
  note reg = registered_jset [OF c(1,2), of name]
  have "registered c' \<subseteq> insert (ct_next c) (registered c)" using reg(2) by (simp add: registered_def f)
  moreover have "\<forall>i \<in> registered c. i < ct_next c" using assms(1) by (simp add: created_def)
  ultimately have "\<forall>i \<in> registered c'. i < ct_next c'" by (auto simp: f less_Suc_eq)
  moreover have "\<forall>i < ct_next c'. i \<in> registered c'" if "distinct (names @ [name])"
  proof -
    have "name \<notin> fst ` set (ct_controllers c)" using that assms(1) by (auto simp: created_def)
    from reg(3) [OF this] show ?thesis using that assms(1) by (auto simp: created_def registered_def f less_Suc_eq)
  qed
  moreover have "fst ` set (ct_controllers c') \<subseteq> set (names @ [name])"
    using assms(1) by (auto simp: created_def f)
  ultimately show ?thesis using assms(1) reg(1) [OF c(3)] c(1)
    by (simp add: created_def sel(1-3) f)
qed

lemma created_fold:
  "created names c \<Longrightarrow> created (names @ names') (fold (\<lambda>name c. snd (resolve_controller name c)) names' c)"
proof (induction names' arbitrary: names c)
  case (Cons name names')
  obtain ctrl c' where r: "resolve_controller name c = (ctrl, c')" by (metis surj_pair)
  from Cons.IH [OF created_step [OF Cons.prems r]] show ?case by (simp add: r)
qed simp

lemma created_init:
  assumes "created names c"
  shows "lifecycle_ok (call_all OnInit c)" "distinct names \<Longrightarrow> accounted (set names) (call_all OnInit c)"
proof -
  have d: "distinct (jvals (ct_controllers c))" using assms by (simp add: created_def)
  have calls: "calls_of i (call_all OnInit c) = (if i \<in> registered c then [OnInit] else [])" for i
    using assms by (simp add: calls_of_call_all [OF d]) (simp add: calls_of_def created_def)
  have p: "phase_of i (call_all OnInit c) = Some (if i \<in> registered c then Ready else Fresh)" for i
    by (simp add: phase_of_def calls)
  have "registered (call_all OnInit c) = registered c" by (simp add: registered_def)
  then show "lifecycle_ok (call_all OnInit c)"
    using assms unfolding lifecycle_ok_def phases_ok_def
    by (auto simp: calls p created_def flags_def running_phase_def)
  show "accounted (set names) (call_all OnInit c)" if "distinct names"
    using assms that by (simp add: accounted_def created_def registered_def)
qed

lemma resolve_components_ok:
  assumes "resolve_components uuid newUuid names config = Inr c"
  shows "lifecycle_ok c" "distinct names \<Longrightarrow> accounted (set names) c"
proof -
  obtain cfg comm where cfg: "config = Some cfg" "cc_communication cfg = Some comm"
    using assms by (auto simp: resolve_components_def split: option.splits)
  define c0 where "c0 = \<lparr>ct_manager = new_comm_manager uuid (comm\<lparr>cf_identity := create_identity newUuid (cc_identity cfg)\<rparr>),
    ct_controllers = [], ct_next = 0, ct_shutdown = False, ct_calls = []\<rparr>"
  define c2 where "c2 = call_all OnInit (fold (\<lambda>name c. snd (resolve_controller name c)) names c0)"
  have "created [] c0" by (simp add: created_def c0_def registered_def new_comm_manager_flags)
  from created_fold [OF this, of names]
  have c2: "lifecycle_ok c2" "distinct names \<Longrightarrow> accounted (set names) c2"
    using created_init [of names] by (simp_all add: c2_def)
  have c: "c = c2 \<or> container_step uuid StartManager c2 = Inr c"
    using assms by (auto simp: resolve_components_def cfg Let_def c0_def [symmetric] c2_def [symmetric]
        container_step_def split: if_splits)
  then show "lifecycle_ok c" using c2(1) container_step_ok(1) by blast
  show "accounted (set names) c" if "distinct names"
    using c c2(2) [OF that] container_step_accounted [OF c2(1), of uuid StartManager c "set names"] by auto
qed

lemma container_run_ok:
  assumes "lifecycle_ok c" "container_run uuid ops c = Inr c'"
  shows "lifecycle_ok c'"
    "accounted used c \<Longrightarrow> distinct (concat (map op_names ops)) \<Longrightarrow> set (concat (map op_names ops)) \<inter> used = {} \<Longrightarrow>
      \<exists>used'. accounted used' c'"
    "i < ct_next c \<Longrightarrow> i \<notin> registered c \<Longrightarrow> phase_of i c' = phase_of i c"
proof -
  have "lifecycle_ok c' \<and>
      (accounted used c \<longrightarrow> distinct (concat (map op_names ops)) \<longrightarrow> set (concat (map op_names ops)) \<inter> used = {} \<longrightarrow>
        (\<exists>used'. accounted used' c')) \<and>
      (i < ct_next c \<longrightarrow> i \<notin> registered c \<longrightarrow> phase_of i c' = phase_of i c)" for used
    using assms
  proof (induction ops arbitrary: c used)
    case (Cons op ops)
    obtain c1 where c1: "container_step uuid op c = Inr c1" "container_run uuid ops c1 = Inr c'"
      using Cons.prems(2) by (auto simp: rbind_Inr_conv)
    note ok = container_step_ok [OF Cons.prems(1) c1(1)]
    note acc = container_step_accounted [OF Cons.prems(1) c1(1), of used]
    from Cons.IH [OF ok(1) c1(2), of "set (op_names op) \<union> used"] show ?case
      using ok(2) ok(3) [of i] acc by fastforce
  qed auto
  then show "lifecycle_ok c'"
    "accounted used c \<Longrightarrow> distinct (concat (map op_names ops)) \<Longrightarrow> set (concat (map op_names ops)) \<inter> used = {} \<Longrightarrow>
      \<exists>used'. accounted used' c'"
    "i < ct_next c \<Longrightarrow> i \<notin> registered c \<Longrightarrow> phase_of i c' = phase_of i c"
    by blast+
qed

text \<open>C12: whatever operations follow the creation of a container, the lifecycle methods of every controller
  are called in the documented order (initialized; then started and stopped in turn; disposed when
  stopped), a registered controller is started exactly if the manager is, also if it was registered
  while the manager was started, and if no name is used twice, every controller is registered until
  the container is shut down and disposed afterwards.\<close>

theorem controllers_follow_lifecycle:
  assumes "resolve_components uuid newUuid names config = Inr c0" "container_run uuid ops c0 = Inr c"
  shows "(\<forall>i. phase_of i c \<noteq> None) \<and>
    (\<forall>name i. get_controller name c = Some i \<longrightarrow> phase_of i c = Some (running_phase (cm_started (ct_manager c)))) \<and>
    (distinct (names @ concat (map op_names ops)) \<longrightarrow>
      (\<forall>i < ct_next c. if ct_shutdown c then phase_of i c = Some Gone else \<exists>name. get_controller name c = Some i))"
proof -
  note ok0 = resolve_components_ok [OF assms(1)]
  note ok = container_run_ok [OF ok0(1) assms(2)]
  have phases: "phases_ok c" "ct_shutdown c \<longrightarrow> ct_controllers c = []" using ok(1) by (simp_all add: lifecycle_ok_def)
  note reg = registered_iff [OF phases(1)]
  have "if ct_shutdown c then phase_of i c = Some Gone else \<exists>name. get_controller name c = Some i"
    if "distinct (names @ concat (map op_names ops))" "i < ct_next c" for i
  proof -
    have "distinct names" "distinct (concat (map op_names ops))" "set (concat (map op_names ops)) \<inter> set names = {}"
      using that(1) by auto
    then obtain used where "accounted used c" using ok(2) [OF ok0(2)] by blast
    then have "i \<in> registered c \<or> ct_shutdown c \<and> phase_of i c = Some Gone" using that(2) by (simp add: accounted_def)
    then show ?thesis using phases(2) reg [of i] by (auto simp: registered_def)
  qed
  moreover have "phase_of i c = Some (running_phase (cm_started (ct_manager c)))" if "get_controller name c = Some i" for name i
    using that phases(1) reg [of i] by (simp only: phases_ok_def) blast
  ultimately show ?thesis using phases(1) by (simp add: phases_ok_def)
qed

text \<open>A controller that is registered under a name in use takes the place of the old one, which is then
  neither stopped nor disposed.\<close>

lemma replaced_controller_never_released:
  assumes "lifecycle_ok c" "\<not> ct_shutdown c" "get_controller name c = Some i" "name \<noteq> []"
    "register_controller name c = (ctrl, c1)" "container_run uuid ops c1 = Inr c2"
  shows "phase_of i c2 = Some (running_phase (cm_started (ct_manager c)))"
proof -
  have p: "phases_ok c" using assms(1) by (simp add: lifecycle_ok_def)
  have i: "i \<in> registered c" unfolding registered_iff [OF p] using assms(3) by blast
  then have "i < ct_next c" "phase_of i c = Some (running_phase (cm_started (ct_manager c)))"
    using p by (simp_all add: phases_ok_def)
  note reg = register_controller_ok [OF assms(1,5)]
  have ctrls: "ct_controllers c1 = jset name (ct_next c) (ct_controllers c)"
    using assms(2,4,5) by (auto simp: register_controller_def resolve_controller_def call_controller_def Let_def split: if_splits)
  have "i \<notin> registered c1"
  proof
    assume "i \<in> registered c1"
    moreover have p1: "phases_ok c1" using reg(1) by (simp add: lifecycle_ok_def)
    ultimately obtain n where n: "get_controller n c1 = Some i" unfolding registered_iff [OF p1] by blast
    then have "n \<noteq> name" "get_controller n c = Some i"
      using \<open>i < ct_next c\<close> by (auto simp: get_controller_def ctrls split: if_splits)
    then show False using controller_names_inj [OF p _ assms(3)] by blast
  qed
  then show ?thesis
    using container_run_ok(3) [OF reg(1) assms(6), of i] reg(3,6) \<open>i < ct_next c\<close>
      \<open>phase_of i c = _\<close> by simp
qed

section \<open>A concrete container\<close>

definition sample_container_config :: container_config where
  "sample_container_config = \<lparr>cc_identity = JUndef,
     cc_communication = Some \<lparr>cf_identity = JUndef, cf_io_nodes = [], cf_options = no_options\<rparr>, cc_auto_start = False\<rparr>"

lemma sample_created_identity:
  "create_identity ''u1'' JUndef = jobj [(''objectId'', JStr ''u1''), (''name'', JStr ''Coaty Agent''),
     (''objectType'', JStr ''coaty.Identity''), (''coreType'', JStr ''Identity'')]"
  by (simp add: create_identity_def object_assign_def object_type_prefix_def)

lemma sample_created_identity_ok:
  "advertise_events [create_identity ''u1'' JUndef] =
    Inr [\<lparr>ad_object = create_identity ''u1'' JUndef, ad_private = JUndef\<rparr>]"
  by (simp add: new_advertise_data_def new_advertise_event_def is_object_None is_assignable.simps
      sample_created_identity is_identity_def is_object_base_def core_type_is_def is_core_type_iff
      core_type_names_def prop_opt_def proto_prop_def object_proto_names_def is_valid_private_data_def
      object_type_filter_ok_def is_valid_event_filter_def illegal_filter_chars_def)

lemma sample_container_starts:
  assumes "ia_nodes m = []" "cf_identity (cm_config m) = create_identity ''u1'' JUndef"
  shows "\<exists>m'. start_manager m = Inr m'"
proof -
  have d: "new_deadvertise_data (JArr [JStr ''u1'']) = Inr \<lparr>dd_object_ids = JArr [JStr ''u1'']\<rparr>"
    by (simp add: new_deadvertise_data_def is_string_array_def)
  have i: "get_prop (create_identity ''u1'' JUndef) ''objectId'' = JStr ''u1''" by (simp add: sample_created_identity)
  have "\<exists>m'. join_binding m = Inr m'"
    unfolding join_binding_def assms list.map sample_created_identity_ok rbind.simps advertise_data.simps i d Let_def by blast
  then show ?thesis by (simp add: start_manager_def)
qed

theorem controllers_follow_lifecycle_witness:
  "\<exists>c. ct_next c = 2 \<and> ct_shutdown c \<and> phase_of 0 c = Some Gone \<and> phase_of 1 c = Some Gone"
proof -
  let ?ops = "[StartManager, RegisterController ''b'', StopManager no_options, ShutdownContainer]"
  obtain c0 where c0: "resolve_components show_nat ''u1'' [''a''] (Some sample_container_config) = Inr c0"
    "ct_next c0 = 1" "\<not> ct_shutdown c0" "ia_nodes (ct_manager c0) = []"
    "cf_identity (cm_config (ct_manager c0)) = create_identity ''u1'' JUndef"
    by (simp add: resolve_components_def sample_container_config_def Let_def resolve_controller_def
        new_comm_manager_def init_options_def)
  note ok0 = resolve_components_ok(1) [OF c0(1)]
  obtain m where m: "start_manager (ct_manager c0) = Inr m" using sample_container_starts [OF c0(4,5)] by blast
  define c1 where "c1 = on_manager m c0"
  have s1: "container_step show_nat StartManager c0 = Inr c1" by (simp add: container_step_def m c1_def)
  note ok1 = container_step_ok(1) [OF ok0 s1]
  have f1: "ct_next c1 = 1" "\<not> ct_shutdown c1"
    using on_manager_ok(3,4) [of c0 m] ok0 start_manager_reports(1) [OF m] c0(2,3) by (simp_all add: c1_def lifecycle_ok_def)
  obtain ctrl c2 where r: "register_controller ''b'' c1 = (ctrl, c2)" by (metis surj_pair)
  note ok2 = register_controller_ok(1) [OF ok1 r]
  have f2: "ct_next c2 = 2"
    using r f1 by (auto simp: register_controller_def resolve_controller_def call_controller_def Let_def split: if_splits)
  define c3 where "c3 = on_manager (unjoin_binding show_nat no_options (ct_manager c2)) c2"
  have s3: "container_step show_nat (StopManager no_options) c2 = Inr c3" by (simp add: container_step_def c3_def)
  note ok3 = container_step_ok(1) [OF ok2 s3]
  have f3: "ct_next c3 = 2"
    using on_manager_ok(3) [of c2] ok2 unjoin_binding_reports(1) f2 by (simp add: c3_def lifecycle_ok_def)
  define c where "c = shutdown_container show_nat c3"
  have f: "ct_next c = 2" "ct_shutdown c" using shutdown_container_ok(2,4) [OF ok3] f3 by (simp_all add: c_def)
  have s2: "container_step show_nat (RegisterController ''b'') c1 = Inr c2" by (simp add: container_step_def r)
  have "container_run show_nat ?ops c0 = Inr c"
    by (simp add: s1 s2 s3) (simp add: container_step_def c_def)
  from controllers_follow_lifecycle [OF c0(1) this] f show ?thesis by auto
qed

end
