(* ===== verification/SensorThings.thy ===== *)
theory SensorThings
  imports CommManager
begin

text \<open>
  Things, sensors and observations, \<open>src/src/sensor-things\<close>: the validators of \<open>types.ts\<close>, and the
  controllers that manage the sensors of an agent (\<open>sensor-source-controller.ts\<close>) and those that
  observe them. Timers, sensor drivers and the subscriptions to the communication manager are
  outside: starting a timer, reading a sensor or publishing an event is an output, what happens
  afterwards is a step of its own. Handles of timers and value observables are numbers.
\<close>

section \<open>Types\<close>

definition object_type_sensor :: string where
  "object_type_sensor = ''coaty.sensorThings.Sensor''"

definition object_type_observation :: string where
  "object_type_observation = ''coaty.sensorThings.Observation''"

definition object_type_feature_of_interest :: string where
  "object_type_feature_of_interest = ''coaty.sensorThings.FeatureOfInterest''"

definition object_type_thing :: string where
  "object_type_thing = ''coaty.sensorThings.Thing''"

definition object_type_is :: "jsv \<Rightarrow> string \<Rightarrow> bool" where
  "object_type_is obj t = strict_eq (get_prop obj ''objectType'') (JStr t)"

definition is_unit_of_measurement :: "jsv \<Rightarrow> bool" where
  "is_unit_of_measurement obj =
    (is_plain_object obj \<and> list_all (prop_opt is_str obj) [''name'', ''symbol'', ''definition''])"

definition is_observed_property :: "jsv \<Rightarrow> bool" where
  "is_observed_property obj =
    (is_plain_object obj \<and> prop_nonempty obj ''name'' \<and> prop_str obj ''definition'' \<and>
     prop_str obj ''description'')"

text \<open>The test \<open>typeof obj.parentObjectId !== undefined\<close> compares a string with \<open>undefined\<close> and
  always holds.\<close>

definition is_sensor :: "jsv \<Rightarrow> bool" where
  "is_sensor obj =
    (is_object obj (Some ''CoatyObject'') \<and> object_type_is obj object_type_sensor \<and>
     prop_str obj ''description'' \<and> prop_str obj ''encodingType'' \<and> get_prop obj ''metadata'' \<noteq> JUndef \<and>
     is_unit_of_measurement (get_prop obj ''unitOfMeasurement'') \<and> prop_str obj ''observationType'' \<and>
     is_observed_property (get_prop obj ''observedProperty'') \<and>
     prop_opt is_plain_object obj ''observedArea'' \<and> prop_opt is_time_interval obj ''phenomenonTime'' \<and>
     prop_opt is_time_interval obj ''resultTime'')"

definition is_feature_of_interest :: "jsv \<Rightarrow> bool" where
  "is_feature_of_interest obj =
    (is_object obj (Some ''CoatyObject'') \<and> object_type_is obj object_type_feature_of_interest \<and>
     prop_str obj ''description'' \<and> prop_str obj ''encodingType'' \<and> get_prop obj ''metadata'' \<noteq> JUndef)"

definition is_observation :: "jsv \<Rightarrow> bool" where
  "is_observation obj =
    (is_object obj (Some ''CoatyObject'') \<and> object_type_is obj object_type_observation \<and>
     num_not_negative (get_prop obj ''phenomenonTime'') \<and> get_prop obj ''result'' \<noteq> JUndef \<and>
     num_not_negative (get_prop obj ''resultTime'') \<and> prop_opt is_string_array obj ''resultQuality'' \<and>
     prop_opt is_time_interval obj ''validTime'' \<and> prop_opt is_plain_object obj ''parameters'' \<and>
     prop_opt nonempty_str obj ''featureOfInterestId'')"

definition is_thing :: "jsv \<Rightarrow> bool" where
  "is_thing obj =
    (is_object obj (Some ''CoatyObject'') \<and> object_type_is obj object_type_thing \<and>
     prop_str obj ''description'' \<and> prop_opt is_plain_object obj ''properties'' \<and>
     prop_opt is_string_array obj ''locations'')"

section \<open>Sensor sources\<close>

datatype publication = PubNone | PubAdvertise | PubChannel

text \<open>A definition of the option \<open>sensors\<close>; the class of its IO handler is a name.\<close>

record sensor_definition =
  sd_sensor :: jsv
  sd_io :: "string option"
  sd_publication :: jsv
  sd_interval :: jsv

definition publication_of :: "jsv \<Rightarrow> publication option" where
  "publication_of v =
    (if v = JStr ''none'' then Some PubNone else if v = JStr ''advertise'' then Some PubAdvertise
     else if v = JStr ''channel'' then Some PubChannel else None)"

definition num_positive :: "jsv \<Rightarrow> bool" where
  "num_positive v = (case v of JNum n \<Rightarrow> num_less (Fin 0) n | _ \<Rightarrow> False)"

definition is_sensor_definition :: "sensor_definition option \<Rightarrow> bool" where
  "is_sensor_definition d =
    (case d of
       None \<Rightarrow> False
     | Some def \<Rightarrow> is_sensor (sd_sensor def) \<and> sd_io def \<noteq> None \<and>
         (sd_publication def = JStr ''none'' \<or>
          (sd_publication def = JStr ''advertise'' \<or> sd_publication def = JStr ''channel'') \<and>
          num_positive (sd_interval def)))"

record sensor_options =
  so_sensors :: "sensor_definition option list option"
  so_skip_advertise :: bool
  so_skip_deadvertise :: bool
  so_ignore_queries :: bool
  so_ignore_discovers :: bool

text \<open>The arguments of a publication, given to the callback that gets the value of the sensor.\<close>

record reading =
  rd_sensor_id :: string
  rd_sensor :: jsv
  rd_channeled :: bool
  rd_quality :: jsv
  rd_valid_time :: jsv
  rd_parameters :: jsv
  rd_feature :: jsv

datatype sensor_call =
    SensorAdvertised jsv
  | SensorDeadvertised string
  | StartTimer nat string bool jsv
  | StopTimer nat
  | ReadSensor string reading
  | SensorValue nat jsv
  | SensorValuesClosed nat
  | ObservationChanneled string jsv
  | ObservationAdvertised jsv
  | SensorsRetrieved "jsv list"
  | SensorResolved jsv

text \<open>A sensor comes with the name of its IO handler. A subscription is \<open>undefined\<close> (\<open>None\<close>), active, or
  unsubscribed.\<close>

record sensor_source =
  sc_sensors :: "(string, jsv \<times> string) jmap"
  sc_publishers :: "(string, nat) jmap"
  sc_values :: "(string, nat) jmap"
  sc_query :: "bool option"
  sc_discover :: "bool option"
  sc_next :: nat
  sc_out :: "sensor_call list"

definition new_sensor_source :: sensor_source where
  "new_sensor_source =
    \<lparr>sc_sensors = [], sc_publishers = [], sc_values = [], sc_query = None, sc_discover = None,
     sc_next = 0, sc_out = []\<rparr>"

definition sensor_out :: "sensor_call list \<Rightarrow> sensor_source \<Rightarrow> sensor_source" where
  "sensor_out calls s = s\<lparr>sc_out := sc_out s @ calls\<rparr>"

definition registered_sensors :: "sensor_source \<Rightarrow> jsv list" where
  "registered_sensors s = map fst (jvals (sc_sensors s))"

definition is_registered :: "string \<Rightarrow> sensor_source \<Rightarrow> bool" where
  "is_registered sensorId s = jhas (sc_sensors s) sensorId"

definition get_sensor :: "string \<Rightarrow> sensor_source \<Rightarrow> jsv option" where
  "get_sensor sensorId s = map_option fst (jget (sc_sensors s) sensorId)"

definition get_sensor_io :: "string \<Rightarrow> sensor_source \<Rightarrow> string option" where
  "get_sensor_io sensorId s = map_option snd (jget (sc_sensors s) sensorId)"

definition find_sensor :: "(jsv \<Rightarrow> bool) \<Rightarrow> sensor_source \<Rightarrow> jsv option" where
  "find_sensor predicate s = find predicate (registered_sensors s)"

definition get_sensor_value_observable :: "string \<Rightarrow> sensor_source \<Rightarrow> js_error + (nat \<times> sensor_source)" where
  "get_sensor_value_observable sensorId s =
    (if \<not> is_registered sensorId s then
       Inl (Error ''Cannot create a value observable for a non-registered sensor.'')
     else
       (case jget (sc_values s) sensorId of
          Some n \<Rightarrow> Inr (n, s)
        | None \<Rightarrow> Inr (sc_next s, s\<lparr>sc_values := jset sensorId (sc_next s) (sc_values s), sc_next := Suc (sc_next s)\<rparr>)))"

definition observe_sensor_queries_if_needed :: "sensor_source \<Rightarrow> sensor_source" where
  "observe_sensor_queries_if_needed s =
    (case sc_query s of Some _ \<Rightarrow> s | None \<Rightarrow> s\<lparr>sc_query := Some True\<rparr>)"

definition observe_sensor_discovers_if_needed :: "sensor_source \<Rightarrow> sensor_source" where
  "observe_sensor_discovers_if_needed s =
    (case sc_discover s of Some _ \<Rightarrow> s | None \<Rightarrow> s\<lparr>sc_discover := Some True\<rparr>)"

text \<open>What an operation throws comes with the state at that point.\<close>

definition enter_sensor :: "jsv \<Rightarrow> string \<Rightarrow> publication \<Rightarrow> jsv \<Rightarrow> sensor_source \<Rightarrow> sensor_source" where
  "enter_sensor sensor io publicationType samplingInterval s =
    (let sensorId = prop_string sensor ''objectId'';
         s1 = s\<lparr>sc_sensors := jset sensorId (sensor, io) (sc_sensors s)\<rparr>
     in if publicationType = PubNone then s1
        else sensor_out [StartTimer (sc_next s1) sensorId (publicationType = PubChannel) samplingInterval]
          (s1\<lparr>sc_publishers := jset sensorId (sc_next s1) (sc_publishers s1), sc_next := Suc (sc_next s1)\<rparr>))"

definition advertise_sensor :: "sensor_options \<Rightarrow> jsv \<Rightarrow> sensor_source \<Rightarrow> js_error + sensor_source" where
  "advertise_sensor opts sensor s =
    (if so_skip_advertise opts then Inr s
     else rbind (new_advertise_data sensor JUndef) (\<lambda>d. rbind (new_advertise_event d) (\<lambda>_.
       Inr (sensor_out [SensorAdvertised sensor] s))))"

definition observe_sensor_events :: "sensor_options \<Rightarrow> sensor_source \<Rightarrow> sensor_source" where
  "observe_sensor_events opts s =
    (let s1 = (if so_ignore_queries opts then s else observe_sensor_queries_if_needed s)
     in if so_ignore_discovers opts then s1 else observe_sensor_discovers_if_needed s1)"

definition register_sensor ::
  "sensor_options \<Rightarrow> jsv \<Rightarrow> string \<Rightarrow> publication \<Rightarrow> jsv \<Rightarrow> sensor_source \<Rightarrow> (js_error + unit) \<times> sensor_source" where
  "register_sensor opts sensor io publicationType samplingInterval s =
    (if is_registered (prop_string sensor ''objectId'') s then (Inr (), s)
     else if publicationType \<noteq> PubNone \<and> \<not> num_positive samplingInterval
     then (Inl (Error ''A positive sampling interval is expected.''), s)
     else
       (let s1 = enter_sensor sensor io publicationType samplingInterval s
        in (case advertise_sensor opts sensor s1 of
              Inl e \<Rightarrow> (Inl e, s1)
            | Inr s2 \<Rightarrow> (Inr (), observe_sensor_events opts s2))))"

text \<open>An unsubscribed subscription stays what it is, \<open>?.\<close> skips \<open>undefined\<close>.\<close>

definition unsubscribed :: "bool option \<Rightarrow> bool option" where
  "unsubscribed sub = map_option (\<lambda>_. False) sub"

definition remove_sensor :: "string \<Rightarrow> sensor_source \<Rightarrow> sensor_source" where
  "remove_sensor sensorId s =
    (let s1 = s\<lparr>sc_sensors := jdel sensorId (sc_sensors s)\<rparr>;
         s2 = (case jget (sc_values s1) sensorId of
                 None \<Rightarrow> s1
               | Some n \<Rightarrow> sensor_out [SensorValuesClosed n] (s1\<lparr>sc_values := jdel sensorId (sc_values s1)\<rparr>))
     in (case jget (sc_publishers s2) sensorId of
           None \<Rightarrow> s2
         | Some t \<Rightarrow> sensor_out [StopTimer t] (s2\<lparr>sc_publishers := jdel sensorId (sc_publishers s2)\<rparr>)))"

definition deadvertise_sensor :: "sensor_options \<Rightarrow> string \<Rightarrow> sensor_source \<Rightarrow> js_error + sensor_source" where
  "deadvertise_sensor opts sensorId s =
    (if so_skip_deadvertise opts then Inr s
     else rbind (new_deadvertise_data (JArr [JStr sensorId])) (\<lambda>_.
       Inr (sensor_out [SensorDeadvertised sensorId] s)))"

definition unobserve_if_empty :: "sensor_source \<Rightarrow> sensor_source" where
  "unobserve_if_empty s =
    (if sc_sensors s = []
     then s\<lparr>sc_query := unsubscribed (sc_query s), sc_discover := unsubscribed (sc_discover s)\<rparr> else s)"

text \<open>The value returned is the error, if any.\<close>

definition unregister_sensor ::
  "sensor_options \<Rightarrow> string \<Rightarrow> sensor_source \<Rightarrow> (js_error + js_error option) \<times> sensor_source" where
  "unregister_sensor opts sensorId s =
    (if \<not> is_registered sensorId s then (Inr (Some (Error ''sensorId is not registered.'')), s)
     else
       (let s1 = remove_sensor sensorId s
        in (case deadvertise_sensor opts sensorId s1 of
              Inl e \<Rightarrow> (Inl e, s1)
            | Inr s2 \<Rightarrow> (Inr None, unobserve_if_empty s2))))"

definition sensor_source_stopping :: "sensor_source \<Rightarrow> sensor_source" where
  "sensor_source_stopping s = s\<lparr>sc_query := None, sc_discover := None\<rparr>"

fun register_all ::
  "sensor_options \<Rightarrow> sensor_definition list \<Rightarrow> sensor_source \<Rightarrow> (js_error + unit) \<times> sensor_source" where
  "register_all opts [] s = (Inr (), s)"
| "register_all opts (def # defs) s =
    (case register_sensor opts (sd_sensor def) (the (sd_io def)) (the (publication_of (sd_publication def)))
        (sd_interval def) s of
       (Inl e, s') \<Rightarrow> (Inl e, s')
     | (Inr _, s') \<Rightarrow> register_all opts defs s')"

definition sensor_source_init :: "sensor_options \<Rightarrow> sensor_source \<Rightarrow> (js_error + unit) \<times> sensor_source" where
  "sensor_source_init opts s =
    (case so_sensors opts of
       None \<Rightarrow> (Inr (), s)
     | Some defs \<Rightarrow>
         (if list_all is_sensor_definition defs then register_all opts (map the defs) s else (Inr (), s)))"

section \<open>Observations\<close>

definition publish_observation :: "reading \<Rightarrow> sensor_source \<Rightarrow> js_error option \<times> sensor_source" where
  "publish_observation r s =
    (case jget (sc_sensors s) (rd_sensor_id r) of
       None \<Rightarrow> (Some (Error ''sensorId is not registered.''), s)
     | Some (sensor, io) \<Rightarrow> (None, sensor_out [ReadSensor io (r\<lparr>rd_sensor := sensor\<rparr>)] s))"

definition publish_observation_of :: "bool \<Rightarrow> string \<Rightarrow> jsv \<Rightarrow> jsv \<Rightarrow> jsv \<Rightarrow> jsv \<Rightarrow> sensor_source \<Rightarrow> sensor_source" where
  "publish_observation_of channeled sensorId resultQuality validTime parameters featureOfInterestId s =
    snd (publish_observation \<lparr>rd_sensor_id = sensorId, rd_sensor = JUndef, rd_channeled = channeled,
      rd_quality = resultQuality, rd_valid_time = validTime, rd_parameters = parameters,
      rd_feature = featureOfInterestId\<rparr> s)"

definition publish_channeled_observation ::
  "string \<Rightarrow> jsv \<Rightarrow> jsv \<Rightarrow> jsv \<Rightarrow> jsv \<Rightarrow> sensor_source \<Rightarrow> sensor_source" where
  "publish_channeled_observation = publish_observation_of True"

definition publish_advertised_observation ::
  "string \<Rightarrow> jsv \<Rightarrow> jsv \<Rightarrow> jsv \<Rightarrow> jsv \<Rightarrow> sensor_source \<Rightarrow> sensor_source" where
  "publish_advertised_observation = publish_observation_of False"

definition create_observation :: "string \<Rightarrow> jsnum \<Rightarrow> reading \<Rightarrow> jsv \<Rightarrow> jsv" where
  "create_observation newUuid now r v =
    jobj [(''name'', JStr (''Observation of '' @ prop_string (rd_sensor r) ''name'')),
      (''objectId'', JStr newUuid),
      (''parentObjectId'', get_prop (rd_sensor r) ''objectId''),
      (''coreType'', JStr ''CoatyObject''),
      (''objectType'', JStr object_type_observation),
      (''phenomenonTime'', JNum now),
      (''result'', v),
      (''resultTime'', JNum now),
      (''resultQuality'', rd_quality r),
      (''validTime'', rd_valid_time r),
      (''parameters'', rd_parameters r),
      (''featureOfInterestId'', rd_feature r)]"

definition get_channel_id :: "jsv \<Rightarrow> string" where
  "get_channel_id sensor = prop_string sensor ''objectId''"

text \<open>The callback of a read: the value goes to the value observable, and the observation is published.\<close>

definition emit_sensor_value :: "string \<Rightarrow> jsv \<Rightarrow> sensor_source \<Rightarrow> sensor_source" where
  "emit_sensor_value sensorId v s =
    (case jget (sc_values s) sensorId of None \<Rightarrow> s | Some n \<Rightarrow> sensor_out [SensorValue n v] s)"

definition send_observation :: "reading \<Rightarrow> jsv \<Rightarrow> sensor_source \<Rightarrow> js_error + sensor_source" where
  "send_observation r observation s =
    (if rd_channeled r then
       rbind (new_channel_data observation JUndef JUndef) (\<lambda>d.
       rbind (new_channel_event (Some (get_channel_id (rd_sensor r))) d) (\<lambda>_.
         Inr (sensor_out [ObservationChanneled (get_channel_id (rd_sensor r)) observation] s)))
     else
       rbind (new_advertise_data observation JUndef) (\<lambda>d. rbind (new_advertise_event d) (\<lambda>_.
         Inr (sensor_out [ObservationAdvertised observation] s))))"

definition sensor_read ::
  "string \<Rightarrow> jsnum \<Rightarrow> reading \<Rightarrow> jsv \<Rightarrow> sensor_source \<Rightarrow> (js_error + unit) \<times> sensor_source" where
  "sensor_read newUuid now r v s =
    (let s1 = emit_sensor_value (rd_sensor_id r) v s
     in (case send_observation r (create_observation newUuid now r v) s1 of
           Inl e \<Rightarrow> (Inl e, s1)
         | Inr s2 \<Rightarrow> (Inr (), s2)))"

section \<open>Answers to queries and discoveries\<close>

fun matching_sensors :: "conv \<Rightarrow> jsv \<Rightarrow> jsv list \<Rightarrow> js_error + jsv list" where
  "matching_sensors cv flt [] = Inr []"
| "matching_sensors cv flt (sensor # sensors) =
    rbind (matches_filter cv sensor flt) (\<lambda>ok.
    rbind (matching_sensors cv flt sensors) (\<lambda>rest. Inr (if ok then sensor # rest else rest)))"

text \<open>A query or discovery is answered through the function that the communication manager put on the
  event; it checks the answer against the event and throws before it publishes anything.\<close>

definition retrieve_sensors :: "conv \<Rightarrow> query_data \<Rightarrow> sensor_source \<Rightarrow> js_error + sensor_source" where
  "retrieve_sensors cv q s =
    rbind (if \<not> truthy (qd_filter q) then Inr (registered_sensors s)
           else matching_sensors cv (qd_filter q) (registered_sensors s)) (\<lambda>retrieved.
    if retrieved = [] then Inr s
    else rbind (new_retrieve_data (JArr retrieved) JUndef) (\<lambda>_.
      rbind (ensure_valid_retrieve q retrieved) (\<lambda>_.
      Inr (sensor_out [SensorsRetrieved retrieved] s))))"

definition on_sensor_query :: "conv \<Rightarrow> query_data \<Rightarrow> sensor_source \<Rightarrow> (js_error + unit) \<times> sensor_source" where
  "on_sensor_query cv q s =
    (if sc_query s \<noteq> Some True \<or>
       \<not> is_core_type_compatible (qd_object_types q) object_type_sensor then (Inr (), s)
     else
       (case retrieve_sensors cv q s of Inl e \<Rightarrow> (Inl e, s) | Inr s' \<Rightarrow> (Inr (), s')))"

fun resolve_sensors ::
  "discover_data \<Rightarrow> jsv list \<Rightarrow> sensor_source \<Rightarrow> (js_error + unit) \<times> sensor_source" where
  "resolve_sensors d [] s = (Inr (), s)"
| "resolve_sensors d (sensor # sensors) s =
    (case rbind (new_resolve_data sensor JUndef JUndef) (ensure_valid_resolve d) of
       Inl e \<Rightarrow> (Inl e, s)
     | Inr _ \<Rightarrow> resolve_sensors d sensors (sensor_out [SensorResolved sensor] s))"

definition on_sensor_discover :: "discover_data \<Rightarrow> sensor_source \<Rightarrow> (js_error + unit) \<times> sensor_source" where
  "on_sensor_discover d s =
    (if sc_discover s \<noteq> Some True then (Inr (), s)
     else if is_discovering_object_id d then
       (case ds_object_id d of
          JStr i \<Rightarrow> (case get_sensor i s of None \<Rightarrow> (Inr (), s) | Some sensor \<Rightarrow> resolve_sensors d [sensor] s)
        | _ \<Rightarrow> (Inr (), s))
     else if is_discovering_types d \<and> is_core_type_compatible (ds_object_types d) object_type_sensor then
       resolve_sensors d (registered_sensors s) s
     else (Inr (), s))"

section \<open>Sensor observers\<close>

text \<open>The filters of the observables of \<open>sensor-observer-controller.ts\<close> and
  \<open>thing-observer-controller.ts\<close>; what they publish to get the objects.\<close>

definition observes_channeled_observation :: "string \<Rightarrow> channel_data \<Rightarrow> bool" where
  "observes_channeled_observation sensorId d =
    (truthy (cd_object d) \<and> object_type_is (cd_object d) object_type_observation \<and>
     strict_eq (get_prop (cd_object d) ''parentObjectId'') (JStr sensorId))"

definition observation_channel :: "string \<Rightarrow> string option \<Rightarrow> string" where
  "observation_channel sensorId channelId =
    (case channelId of Some c \<Rightarrow> (if c \<noteq> [] then c else sensorId) | None \<Rightarrow> sensorId)"

definition observes_advertised_observation :: "string \<Rightarrow> advertise_data \<Rightarrow> bool" where
  "observes_advertised_observation sensorId d =
    (truthy (ad_object d) \<and> strict_eq (get_prop (ad_object d) ''parentObjectId'') (JStr sensorId))"

text \<open>\<open>filterOp.equals\<close> gives the pair of the operator and the value.\<close>

definition equals_filter :: "string \<Rightarrow> string \<Rightarrow> jsv" where
  "equals_filter property v =
    jobj [(''conditions'', JArr [JStr property, op_expr Equals [JStr v]])]"

definition query_sensors_of_thing :: "string \<Rightarrow> js_error + query_data" where
  "query_sensors_of_thing thingId =
    new_query_data (JArr [JStr object_type_sensor]) JUndef (equals_filter ''parentObjectId'' thingId) JUndef"

definition query_things_at_location :: "string \<Rightarrow> js_error + query_data" where
  "query_things_at_location locationId =
    new_query_data (JArr [JStr object_type_thing]) JUndef (equals_filter ''locationId'' locationId) JUndef"

definition discover_sensors :: "js_error + discover_data" where
  "discover_sensors = new_discover_data JUndef JUndef (JArr [JStr object_type_sensor]) JUndef"

definition discover_things :: "js_error + discover_data" where
  "discover_things = new_discover_data JUndef JUndef (JArr [JStr object_type_thing]) JUndef"

section \<open>Runs\<close>

text \<open>What happens to a sensor source: the operations of the application, the stop of the communication
  manager, the ticks of its timers, the callbacks of its reads, and the events it observes.\<close>

datatype sensor_op =
    RegisterSensor jsv string publication jsv
  | UnregisterSensor string
  | ValueObservable string
  | ManagerStopping
  | PublishObservation reading
  | SensorRead string jsnum reading jsv
  | SensorQuery query_data
  | SensorDiscover discover_data

definition sensor_step :: "conv \<Rightarrow> sensor_options \<Rightarrow> sensor_op \<Rightarrow> sensor_source \<Rightarrow> sensor_source" where
  "sensor_step cv opts op s =
    (case op of
       RegisterSensor sensor io pub interval \<Rightarrow> snd (register_sensor opts sensor io pub interval s)
     | UnregisterSensor i \<Rightarrow> snd (unregister_sensor opts i s)
     | ValueObservable i \<Rightarrow> (case get_sensor_value_observable i s of Inl _ \<Rightarrow> s | Inr (n, s') \<Rightarrow> s')
     | ManagerStopping \<Rightarrow> sensor_source_stopping s
     | PublishObservation r \<Rightarrow> snd (publish_observation r s)
     | SensorRead newUuid now r v \<Rightarrow> snd (sensor_read newUuid now r v s)
     | SensorQuery q \<Rightarrow> snd (on_sensor_query cv q s)
     | SensorDiscover d \<Rightarrow> snd (on_sensor_discover d s))"

definition sensor_run :: "conv \<Rightarrow> sensor_options \<Rightarrow> sensor_op list \<Rightarrow> sensor_source \<Rightarrow> sensor_source" where
  "sensor_run cv opts ops s = fold (sensor_step cv opts) ops (snd (sensor_source_init opts s))"

end
