(* ===== verification/SensorThingsProps.thy ===== *)
theory SensorThingsProps
  imports SensorThings FilterSpec CommManagerProps
begin

text \<open>
  Properties of the sensor controllers: the timers of a sensor source are those of its registered
  sensors, the observations it publishes are valid and reach their observers, and a client that
  queries the sensors of a thing retrieves them.
\<close>

section \<open>Timers\<close>

text \<open>The timers that have been started and not stopped.\<close>

definition live_timers :: "sensor_call list \<Rightarrow> (string \<times> nat) list" where
  "live_timers calls = fold (\<lambda>call ts. case call of
       StartTimer n i channeled interval \<Rightarrow> ts @ [(i, n)]
     | StopTimer n \<Rightarrow> filter (\<lambda>t. snd t \<noteq> n) ts
     | _ \<Rightarrow> ts) calls []"

definition positive_timers :: "sensor_call list \<Rightarrow> bool" where
  "positive_timers calls = list_all (\<lambda>call. case call of
     StartTimer n i channeled interval \<Rightarrow> num_positive interval | _ \<Rightarrow> True) calls"

definition sensors_inv :: "sensor_source \<Rightarrow> bool" where
  "sensors_inv s =
    (jwf (sc_sensors s) \<and> jwf (sc_publishers s) \<and> distinct (jvals (sc_publishers s)) \<and>
     (\<forall>n \<in> set (jvals (sc_publishers s)). n < sc_next s) \<and>
     fst ` set (sc_publishers s) \<subseteq> fst ` set (sc_sensors s) \<and> fst ` set (sc_values s) \<subseteq> fst ` set (sc_sensors s) \<and>
     (\<forall>i sensor io. jget (sc_sensors s) i = Some (sensor, io) \<longrightarrow> prop_string sensor ''objectId'' = i) \<and>
     live_timers (sc_out s) = sc_publishers s \<and> positive_timers (sc_out s))"

definition no_timer :: "sensor_call list \<Rightarrow> bool" where
  "no_timer calls = list_all (\<lambda>call. case call of StartTimer _ _ _ _ \<Rightarrow> False | StopTimer _ \<Rightarrow> False | _ \<Rightarrow> True) calls"

lemma live_timers_append:
  "live_timers (calls @ [StartTimer n i c v]) = live_timers calls @ [(i, n)]"
  "live_timers (calls @ [StopTimer n]) = filter (\<lambda>t. snd t \<noteq> n) (live_timers calls)"
  "no_timer calls' \<Longrightarrow> live_timers (calls @ calls') = live_timers calls"
proof -
  have "no_timer calls' \<Longrightarrow> fold (\<lambda>call ts. case call of
       StartTimer n i channeled interval \<Rightarrow> ts @ [(i, n)]
     | StopTimer n \<Rightarrow> filter (\<lambda>t. snd t \<noteq> n) ts
     | _ \<Rightarrow> ts) calls' ts = ts" for ts
    by (induction calls' arbitrary: ts) (auto simp: no_timer_def split: sensor_call.splits)
  then show "no_timer calls' \<Longrightarrow> live_timers (calls @ calls') = live_timers calls" by (simp add: live_timers_def)
qed (simp_all add: live_timers_def)

lemma positive_timers_append:
  "positive_timers (calls @ calls') = (positive_timers calls \<and> positive_timers calls')"
  by (simp add: positive_timers_def)

lemma no_timer_positive: "no_timer calls \<Longrightarrow> positive_timers calls"
  by (induction calls) (auto simp: no_timer_def positive_timers_def split: sensor_call.splits)

text \<open>Outputs without timers, and changes of the subscriptions, keep the invariant.\<close>

lemma sensors_inv_out:
  assumes "sensors_inv s" "no_timer calls"
  shows "sensors_inv (sensor_out calls s)"
  using assms by (simp add: sensors_inv_def sensor_out_def live_timers_append positive_timers_append no_timer_positive)

lemma sensors_inv_subs:
  "sensors_inv (s\<lparr>sc_query := q\<rparr>) = sensors_inv s" "sensors_inv (s\<lparr>sc_discover := d\<rparr>) = sensors_inv s"
  by (simp_all add: sensors_inv_def)

lemma sensor_out_sel [simp]:
  "sc_sensors (sensor_out calls s) = sc_sensors s" "sc_publishers (sensor_out calls s) = sc_publishers s"
  "sc_values (sensor_out calls s) = sc_values s" "sc_query (sensor_out calls s) = sc_query s"
  "sc_discover (sensor_out calls s) = sc_discover s" "sc_next (sensor_out calls s) = sc_next s"
  "sc_out (sensor_out calls s) = sc_out s @ calls"
  by (simp_all add: sensor_out_def)

lemma observe_sensor_events_inv: "sensors_inv (observe_sensor_events opts s) = sensors_inv s"
  by (simp add: observe_sensor_events_def Let_def observe_sensor_queries_if_needed_def
      observe_sensor_discovers_if_needed_def sensors_inv_subs split: option.splits)

text \<open>A new sensor, with a timer or without.\<close>

lemma sensors_inv_new_sensor:
  assumes "sensors_inv s" "i \<notin> fst ` set (sc_sensors s)" "prop_string sensor ''objectId'' = i"
  shows "sensors_inv (s\<lparr>sc_sensors := jset i (sensor, io) (sc_sensors s)\<rparr>)"
  using assms by (auto simp: sensors_inv_def split: if_splits)

lemma sensors_inv_new_timer:
  assumes inv: "sensors_inv s" and i: "i \<in> fst ` set (sc_sensors s)" "i \<notin> fst ` set (sc_publishers s)"
    and pos: "num_positive interval"
  shows "sensors_inv (sensor_out [StartTimer (sc_next s) i channeled interval]
    (s\<lparr>sc_publishers := jset i (sc_next s) (sc_publishers s), sc_next := Suc (sc_next s)\<rparr>))"
proof -
  have "jset i n (sc_publishers s) = sc_publishers s @ [(i, n)]" for n
    using i(2) by (simp add: jset_fresh map_of_eq_None_iff)
  moreover have n: "\<forall>n \<in> set (jvals (sc_publishers s)). n < sc_next s" using inv by (simp add: sensors_inv_def)
  have "sc_next s \<notin> set (jvals (sc_publishers s))" "\<forall>n \<in> set (jvals (sc_publishers s)). n < Suc (sc_next s)"
    using n by auto
  moreover have "positive_timers [StartTimer n i channeled interval]" for n using pos by (simp add: positive_timers_def)
  ultimately show ?thesis
    using inv i by (simp add: sensors_inv_def live_timers_append positive_timers_append)
qed

lemma enter_sensor_inv:
  assumes inv: "sensors_inv s" and new: "\<not> is_registered (prop_string sensor ''objectId'') s"
    and pos: "pub = PubNone \<or> num_positive interval"
  shows "sensors_inv (enter_sensor sensor io pub interval s)"
proof -
  let ?i = "prop_string sensor ''objectId''"
  define s1 where "s1 = s\<lparr>sc_sensors := jset ?i (sensor, io) (sc_sensors s)\<rparr>"
  have fresh: "?i \<notin> fst ` set (sc_sensors s)" using new by (simp add: is_registered_def jhas_iff)
  then have p: "?i \<in> fst ` set (sc_sensors s1)" "?i \<notin> fst ` set (sc_publishers s1)"
    using inv by (auto simp: sensors_inv_def s1_def)
  have s1: "sensors_inv s1" unfolding s1_def using sensors_inv_new_sensor [OF inv fresh] by simp
  show ?thesis
  proof (cases "pub = PubNone")
    case True
    then show ?thesis using s1 by (simp add: enter_sensor_def s1_def Let_def)
  next
    case False
    then have "num_positive interval" using pos by simp
    from sensors_inv_new_timer [OF s1 p this] show ?thesis
      unfolding enter_sensor_def Let_def if_not_P [OF False] s1_def [symmetric] .
  qed
qed

lemma advertise_sensor_inv:
  assumes "advertise_sensor opts sensor s = Inr s'" "sensors_inv s"
  shows "sensors_inv s'"
  using assms by (auto simp: advertise_sensor_def rbind_Inr_conv no_timer_def intro: sensors_inv_out split: if_splits)

lemma register_sensor_inv:
  assumes inv: "sensors_inv s"
  shows "sensors_inv (snd (register_sensor opts sensor io pub interval s))"
proof -
  let ?e = "enter_sensor sensor io pub interval s"
  show ?thesis
  proof (cases "is_registered (prop_string sensor ''objectId'') s \<or> (pub \<noteq> PubNone \<and> \<not> num_positive interval)")
    case True
    then have "snd (register_sensor opts sensor io pub interval s) = s" by (auto simp: register_sensor_def)
    then show ?thesis using inv by simp
  next
    case False
    then have "\<not> is_registered (prop_string sensor ''objectId'') s" "pub = PubNone \<or> num_positive interval" by auto
    note enter = enter_sensor_inv [OF inv this, of io]
    show ?thesis
    proof (cases "advertise_sensor opts sensor ?e")
      case (Inl e)
      then have "snd (register_sensor opts sensor io pub interval s) = ?e"
        using False by (auto simp: register_sensor_def)
      then show ?thesis using enter by simp
    next
      case (Inr s2)
      then have "snd (register_sensor opts sensor io pub interval s) = observe_sensor_events opts s2"
        using False by (auto simp: register_sensor_def)
      then show ?thesis using advertise_sensor_inv [OF Inr enter] by (simp add: observe_sensor_events_inv)
    qed
  qed
qed

text \<open>A sensor is removed with its timer and its value observable.\<close>

lemma remove_sensor_inv:
  assumes inv: "sensors_inv s"
  shows "sensors_inv (remove_sensor i s)"
proof -
  define s1 where "s1 = s\<lparr>sc_sensors := jdel i (sc_sensors s)\<rparr>"
  define s2 where "s2 = (case jget (sc_values s1) i of None \<Rightarrow> s1
    | Some n \<Rightarrow> sensor_out [SensorValuesClosed n] (s1\<lparr>sc_values := jdel i (sc_values s1)\<rparr>))"
  have s2: "sc_sensors s2 = jdel i (sc_sensors s)" "sc_publishers s2 = sc_publishers s" "sc_next s2 = sc_next s"
    "fst ` set (sc_values s2) = fst ` set (sc_values s) - {i}" "live_timers (sc_out s2) = sc_publishers s"
    "positive_timers (sc_out s2)"
    using inv by (auto simp: s2_def s1_def sensors_inv_def live_timers_append(3) no_timer_def positive_timers_append
        positive_timers_def map_of_eq_None_iff split: option.splits)
  have p: "jwf (sc_publishers s)" "distinct (jvals (sc_publishers s))" using inv by (simp_all add: sensors_inv_def)
  have r: "remove_sensor i s = (case jget (sc_publishers s2) i of None \<Rightarrow> s2
      | Some t \<Rightarrow> sensor_out [StopTimer t] (s2\<lparr>sc_publishers := jdel i (sc_publishers s2)\<rparr>))"
    by (simp only: remove_sensor_def Let_def s1_def s2_def)
  show ?thesis
  proof (cases "jget (sc_publishers s) i")
    case None
    then have "i \<notin> fst ` set (sc_publishers s)" by (simp add: map_of_eq_None_iff)
    then show ?thesis using inv s2 by (auto simp: r None sensors_inv_def split: if_splits)
  next
    case (Some t)
    then have t: "(i, t) \<in> set (sc_publishers s)" by (rule map_of_SomeD)
    have "filter (\<lambda>e. snd e \<noteq> t) (sc_publishers s) = jdel i (sc_publishers s)"
      unfolding jdel_def
    proof (rule filter_cong [OF refl])
      show "(snd e \<noteq> t) = (fst e \<noteq> i)" if "e \<in> set (sc_publishers s)" for e
        using that t p by (metis distinct_map fst_conv inj_onD snd_conv)
    qed
    moreover have "distinct (jvals (jdel i (sc_publishers s)))"
      using p(2) by (simp add: jdel_def distinct_map_filter)
    moreover have "\<forall>n \<in> set (jvals (jdel i (sc_publishers s))). n < sc_next s"
      using inv by (auto simp: jdel_def sensors_inv_def)
    ultimately show ?thesis
      using inv s2 by (auto simp: r Some sensors_inv_def live_timers_append positive_timers_append
          positive_timers_def split: if_splits)
  qed
qed

lemma deadvertise_sensor_inv:
  assumes "deadvertise_sensor opts i s = Inr s'" "sensors_inv s"
  shows "sensors_inv s'"
proof (cases "so_skip_deadvertise opts")
  case False
  then have "s' = sensor_out [SensorDeadvertised i] s" using assms(1) by (simp add: deadvertise_sensor_def rbind_Inr_conv)
  then show ?thesis using assms(2) by (simp add: sensors_inv_out no_timer_def)
qed (use assms in \<open>simp add: deadvertise_sensor_def\<close>)

lemma unregister_sensor_inv:
  assumes "sensors_inv s"
  shows "sensors_inv (snd (unregister_sensor opts i s))"
proof (cases "deadvertise_sensor opts i (remove_sensor i s)")
  case (Inl e)
  then show ?thesis using assms remove_sensor_inv [OF assms] by (simp add: unregister_sensor_def)
next
  case (Inr s2)
  have "sensors_inv (unobserve_if_empty s2)"
    using deadvertise_sensor_inv [OF Inr remove_sensor_inv [OF assms]] by (simp add: unobserve_if_empty_def sensors_inv_subs)
  then show ?thesis using assms Inr by (simp add: unregister_sensor_def)
qed

section \<open>All steps\<close>

lemma send_observation_inv:
  assumes "send_observation r ob s = Inr s'" "sensors_inv s"
  shows "sensors_inv s'"
  using assms by (auto simp: send_observation_def rbind_Inr_conv no_timer_def intro: sensors_inv_out split: if_splits)

lemma sensor_read_inv:
  assumes "sensors_inv s"
  shows "sensors_inv (snd (sensor_read newUuid now r v s))"
proof -
  let ?s1 = "emit_sensor_value (rd_sensor_id r) v s"
  have s1: "sensors_inv ?s1"
    using assms by (auto simp: emit_sensor_value_def no_timer_def intro: sensors_inv_out split: option.splits)
  show ?thesis
    using send_observation_inv [OF _ s1] s1
    by (cases "send_observation r (create_observation newUuid now r v) ?s1") (simp_all add: sensor_read_def)
qed

lemma resolve_sensors_inv: "sensors_inv s \<Longrightarrow> sensors_inv (snd (resolve_sensors d sensors s))"
proof (induction sensors arbitrary: s)
  case (Cons sensor sensors)
  have "sensors_inv (sensor_out [SensorResolved sensor] s)"
    using Cons.prems by (rule sensors_inv_out) (simp add: no_timer_def)
  then show ?case using Cons
    by (cases "rbind (new_resolve_data sensor JUndef JUndef) (ensure_valid_resolve d)") simp_all
qed simp

lemma retrieve_sensors_inv:
  assumes "retrieve_sensors cv q s = Inr s'" "sensors_inv s"
  shows "sensors_inv s'"
  using assms by (auto simp: retrieve_sensors_def rbind_Inr_conv no_timer_def intro: sensors_inv_out split: if_splits)

lemma on_sensor_query_inv:
  assumes "sensors_inv s"
  shows "sensors_inv (snd (on_sensor_query cv q s))"
  using retrieve_sensors_inv [OF _ assms] assms
  by (cases "retrieve_sensors cv q s") (auto simp: on_sensor_query_def)

lemma sensor_step_inv:
  assumes "sensors_inv s"
  shows "sensors_inv (sensor_step cv opts op s)"
proof (cases op)
  case (ValueObservable i)
  then show ?thesis using assms
    by (auto simp: sensor_step_def get_sensor_value_observable_def is_registered_def jhas_iff sensors_inv_def
        less_SucI split: option.splits)
next
  case (PublishObservation r)
  then show ?thesis using assms
    by (auto simp: sensor_step_def publish_observation_def no_timer_def intro: sensors_inv_out split: option.splits)
next
  case (SensorDiscover d)
  then show ?thesis using assms
    by (auto simp del: resolve_sensors.simps simp: sensor_step_def on_sensor_discover_def
        split: jsv.splits option.splits intro: resolve_sensors_inv)
qed (simp_all add: sensor_step_def assms register_sensor_inv unregister_sensor_inv sensor_read_inv on_sensor_query_inv
    sensor_source_stopping_def sensors_inv_subs)

lemma register_all_inv: "sensors_inv s \<Longrightarrow> sensors_inv (snd (register_all opts defs s))"
proof (induction defs arbitrary: s)
  case (Cons def defs)
  obtain r s' where r: "register_sensor opts (sd_sensor def) (the (sd_io def)) (the (publication_of (sd_publication def)))
      (sd_interval def) s = (r, s')" by (metis surj_pair)
  then have "sensors_inv s'" using register_sensor_inv [OF Cons.prems] by (metis snd_conv)
  then show ?case using Cons.IH r by (cases r) simp_all
qed simp

lemma sensor_run_inv: "sensors_inv (sensor_run cv opts ops new_sensor_source)"
proof -
  have "sensors_inv new_sensor_source"
    by (simp add: sensors_inv_def new_sensor_source_def live_timers_def positive_timers_def)
  then have "sensors_inv (snd (sensor_source_init opts new_sensor_source))"
    by (simp add: sensor_source_init_def register_all_inv split: option.splits)
  moreover have "sensors_inv s \<Longrightarrow> sensors_inv (fold (sensor_step cv opts) ops s)" for s
    by (induction ops arbitrary: s) (simp_all add: sensor_step_inv)
  ultimately show ?thesis by (simp add: sensor_run_def)
qed


section \<open>Observations\<close>

text \<open>The optional arguments of a publication.\<close>

definition reading_ok :: "reading \<Rightarrow> bool" where
  "reading_ok r =
    (prop_nonempty (rd_sensor r) ''objectId'' \<and>
     (rd_quality r = JUndef \<or> is_string_array (rd_quality r)) \<and>
     (rd_valid_time r = JUndef \<or> is_time_interval (rd_valid_time r)) \<and>
     (rd_parameters r = JUndef \<or> is_plain_object (rd_parameters r)) \<and>
     (rd_feature r = JUndef \<or> nonempty_str (rd_feature r)))"

lemma create_observation_props:
  "get_prop (create_observation i now r v) ''name'' = JStr (''Observation of '' @ prop_string (rd_sensor r) ''name'')"
  "get_prop (create_observation i now r v) ''objectId'' = JStr i"
  "get_prop (create_observation i now r v) ''parentObjectId'' = get_prop (rd_sensor r) ''objectId''"
  "get_prop (create_observation i now r v) ''coreType'' = JStr ''CoatyObject''"
  "get_prop (create_observation i now r v) ''objectType'' = JStr ''coaty.sensorThings.Observation''"
  "get_prop (create_observation i now r v) ''phenomenonTime'' = JNum now"
  "get_prop (create_observation i now r v) ''result'' = v"
  "get_prop (create_observation i now r v) ''resultTime'' = JNum now"
  "get_prop (create_observation i now r v) ''resultQuality'' = rd_quality r"
  "get_prop (create_observation i now r v) ''validTime'' = rd_valid_time r"
  "get_prop (create_observation i now r v) ''parameters'' = rd_parameters r"
  "get_prop (create_observation i now r v) ''featureOfInterestId'' = rd_feature r"
  "get_prop (create_observation i now r v) ''externalId'' = JUndef"
  "get_prop (create_observation i now r v) ''locationId'' = JUndef"
  "get_prop (create_observation i now r v) ''isDeactivated'' = JUndef"
  "is_plain_object (create_observation i now r v)"
  by (simp_all add: create_observation_def object_type_observation_def proto_prop_def object_proto_names_def)

lemma create_observation_object:
  assumes "prop_nonempty (rd_sensor r) ''objectId''" "i \<noteq> []"
  shows "is_object (create_observation i now r v) None" "is_object (create_observation i now r v) (Some ''CoatyObject'')"
proof -
  have "is_object_base (create_observation i now r v)"
    using assms by (simp add: is_object_base_def create_observation_props prop_opt_def is_core_type_iff core_type_names_def)
  then have "is_assignable (create_observation i now r v) ''CoatyObject''"
    by (simp add: is_assignable.simps)
  then show "is_object (create_observation i now r v) None" "is_object (create_observation i now r v) (Some ''CoatyObject'')"
    by (simp_all add: is_object_None is_object_Some create_observation_props)
qed

text \<open>C21: when the driver of a registered sensor delivers a value, the observation made of it is valid,
  has the sensor as its parent, and is published, after the value was emitted: channeled on the channel
  and past the filter that a sensor observer uses for this sensor, or advertised past the filter for
  advertised observations. It never throws, for any sensor with an id that is a valid channel.\<close>

theorem observation_reaches_observers:
  assumes "reading_ok r" "i \<noteq> []" "num_le (Fin 0) now" "v \<noteq> JUndef"
    "rd_channeled r \<longrightarrow> is_valid_event_filter (get_prop (rd_sensor r) ''objectId'')"
  shows "let ob = create_observation i now r v; sensorId = prop_string (rd_sensor r) ''objectId'';
      s1 = emit_sensor_value (rd_sensor_id r) v s in
    is_observation ob \<and>
    sensor_read i now r v s = (Inr (), sensor_out
      [if rd_channeled r then ObservationChanneled (observation_channel sensorId None) ob else ObservationAdvertised ob] s1) \<and>
    (if rd_channeled r then \<exists>d. new_channel_data ob JUndef JUndef = Inr d \<and> observes_channeled_observation sensorId d
     else \<exists>d. new_advertise_data ob JUndef = Inr d \<and> observes_advertised_observation sensorId d)"
proof -
  let ?ob = "create_observation i now r v"
  have id: "prop_nonempty (rd_sensor r) ''objectId''" using assms(1) by (simp add: reading_ok_def)
  then obtain c cs where c: "get_prop (rd_sensor r) ''objectId'' = JStr (c # cs)" by (auto simp: nonempty_str_iff)
  note obj = create_observation_object [OF id assms(2), of now v]
  have valid: "is_observation ?ob"
    using obj assms by (simp add: is_observation_def object_type_is_def create_observation_props prop_opt_def
        num_not_negative_def reading_ok_def object_type_observation_def)
  have filter_ok: "object_type_filter_ok ?ob"
    by (simp add: object_type_filter_ok_def create_observation_props is_valid_event_filter_def illegal_filter_chars_def)
  have sid: "prop_string (rd_sensor r) ''objectId'' = c # cs" by (simp add: prop_string_def c)
  show ?thesis
  proof (cases "rd_channeled r")
    case True
    then have "is_valid_event_filter (JStr (c # cs))" using assms(5) c by simp
    then show ?thesis using True valid obj
      by (simp add: sensor_read_def send_observation_def new_channel_data_def new_channel_event_def filter_name_ok_def
          get_channel_id_def sid observation_channel_def is_valid_private_data_def Let_def
          observes_channeled_observation_def object_type_is_def create_observation_props c object_type_observation_def)
        (simp add: create_observation_def)
  next
    case False
    then show ?thesis using valid obj filter_ok
      by (simp add: sensor_read_def send_observation_def new_advertise_data_def new_advertise_event_def
          is_valid_private_data_def Let_def observes_advertised_observation_def create_observation_props c sid)
        (simp add: create_observation_def)
  qed
qed

section \<open>Sensors of a thing\<close>

lemma equals_filter_conditions:
  "get_prop (equals_filter k v) ''conditions'' = JArr [JStr k, op_expr Equals [JStr v]]"
  by (simp add: equals_filter_def)

lemma strict_eq_str: "strict_eq x (JStr v) = (x = JStr v)"
  by (cases x) simp_all

lemma matches_equals_filter:
  assumes "CHR ''.'' \<notin> set k" "is_plain_object obj"
  shows "matches_filter cv obj (equals_filter k v) = Inr (get_prop obj k = JStr v)"
proof -
  have split: "get_filter_properties (JStr k) = [JStr k]"
    using assms(1) by (simp add: get_filter_properties_def split_on_no_sep)
  have p: "prop_step obj (JStr k) = get_prop obj k"
    using assms(2) by (auto simp: prop_step_def is_plain_object_iff)
  have e: "equals_filter k v \<noteq> JUndef" "equals_filter k v \<noteq> JNull" "obj \<noteq> JUndef"
    using assms(2) by (auto simp: equals_filter_def is_plain_object_iff)
  have "matches_condition cv obj (JArr [JStr k, op_expr Equals [JStr v]]) = Inr (get_prop obj k = JStr v)"
    by (cases "get_prop obj k = JUndef")
      (simp_all add: matches_condition_def op_expr_def get_filter_property_value_def split p Let_def
        match_op_def js_equals_prim_right strict_eq_str)
  then show ?thesis unfolding matches_filter_def Let_def equals_filter_conditions using e by simp
qed

lemma matching_sensors_equals:
  assumes "CHR ''.'' \<notin> set k" "\<forall>x \<in> set xs. is_plain_object x"
  shows "matching_sensors cv (equals_filter k v) xs = Inr (filter (\<lambda>x. get_prop x k = JStr v) xs)"
  using assms(2) by (induction xs) (simp_all add: matches_equals_filter [OF assms(1)])

lemma ensure_valid_retrieve_types:
  assumes "qd_core_types q = JUndef" "\<forall>x \<in> set xs. some_eq (qd_object_types q) (get_prop x ''objectType'')"
  shows "ensure_valid_retrieve q xs = Inr ()"
  using assms by (induction xs) simp_all

text \<open>C20: a client that queries the sensors of a thing, at an agent that is observing queries and whose
  sensors are Coaty objects of the sensor type, retrieves exactly the registered sensors with this
  thing as parent, in the order of their registration; the query and the answer are valid, and the
  answer passes the check against the query. If there is none, the agent does not answer. Whether the
  agent observes queries is the state of its subscription: none if it is not configured to, and none
  again once its last sensor has been removed, as \<open>later_sensors_never_found\<close> shows.\<close>

theorem sensors_of_thing_retrieved:
  assumes "sc_query s = Some True" "thingId \<noteq> []"
    "\<forall>x \<in> set (registered_sensors s). is_object x None \<and> get_prop x ''objectType'' = JStr object_type_sensor"
  shows "\<exists>q. query_sensors_of_thing thingId = Inr q \<and>
    (let found = filter (\<lambda>x. get_prop x ''parentObjectId'' = JStr thingId) (registered_sensors s) in
      on_sensor_query cv q s = (Inr (), if found = [] then s else sensor_out [SensorsRetrieved found] s) \<and>
      ensure_valid_retrieve q found = Inr ())"
proof -
  let ?flt = "equals_filter ''parentObjectId'' thingId"
  let ?q = "\<lparr>qd_object_types = JArr [JStr object_type_sensor], qd_core_types = JUndef, qd_filter = ?flt, qd_joins = JUndef\<rparr>"
  let ?found = "filter (\<lambda>x. get_prop x ''parentObjectId'' = JStr thingId) (registered_sensors s)"
  have flt: "get_prop ?flt ''skip'' = JUndef" "get_prop ?flt ''take'' = JUndef" "get_prop ?flt ''orderByProperties'' = JUndef"
    "is_plain_object ?flt" "?flt \<noteq> JUndef" "truthy ?flt"
    by (simp_all add: equals_filter_def proto_prop_def object_proto_names_def)
  have "is_filter_condition_valid (JArr [JStr ''parentObjectId'', op_expr Equals [JStr thingId]])"
    by (simp add: is_filter_condition_valid_def op_expr_def)
  then have "is_context_filter_valid ?flt"
    using flt by (simp add: is_context_filter_valid_def are_filter_conditions_valid_def equals_filter_conditions)
  then have "is_object_filter_valid ?flt = Inr True" using flt by (simp add: is_object_filter_valid_def)
  then have q: "query_sensors_of_thing thingId = Inr ?q"
    by (simp add: query_sensors_of_thing_def new_query_data_def is_valid_query_data_def are_object_join_conditions_valid_def
        is_string_array_def object_type_sensor_def)
  have plain: "\<forall>x \<in> set (registered_sensors s). is_plain_object x" using assms(3) by (simp add: is_object_None)
  have found: "matching_sensors cv ?flt (registered_sensors s) = Inr ?found"
    by (rule matching_sensors_equals [OF _ plain]) simp
  have comp: "is_core_type_compatible (qd_object_types ?q) object_type_sensor"
    by (simp add: is_core_type_compatible_def some_eq_def)
  have "is_object_array (JArr ?found) None" using assms(3) by (auto simp: is_object_array_def array_of_def list_all_iff)
  moreover have valid: "ensure_valid_retrieve ?q ?found = Inr ()"
    by (rule ensure_valid_retrieve_types) (use assms(3) in \<open>simp_all add: some_eq_def\<close>)
  ultimately have answer: "retrieve_sensors cv ?q s = Inr (if ?found = [] then s else sensor_out [SensorsRetrieved ?found] s)"
    using flt(6) found valid by (simp add: retrieve_sensors_def new_retrieve_data_def is_valid_private_data_def)
  have "on_sensor_query cv ?q s = (Inr (), if ?found = [] then s else sensor_out [SensorsRetrieved ?found] s)"
    unfolding on_sensor_query_def using assms(1) comp answer by simp
  then show ?thesis using q valid by (intro exI [of _ ?q]) (simp only: Let_def)
qed

text \<open>When the last sensor is removed, the subscriptions are ended but kept: sensors that are registered
  afterwards are never found.\<close>

definition subs :: "sensor_source \<Rightarrow> bool option \<times> bool option" where
  "subs s = (sc_query s, sc_discover s)"

lemma subs_steps [simp]:
  "subs (sensor_out calls s) = subs s" "subs (enter_sensor sensor io pub interval s) = subs s"
  "subs (remove_sensor i s) = subs s" "subs (emit_sensor_value i v s) = subs s"
  by (simp_all add: subs_def enter_sensor_def Let_def remove_sensor_def emit_sensor_value_def split: option.splits)

lemma subs_results:
  "advertise_sensor opts sensor s = Inr s' \<Longrightarrow> subs s' = subs s"
  "deadvertise_sensor opts i s = Inr s' \<Longrightarrow> subs s' = subs s"
  "send_observation r ob s = Inr s' \<Longrightarrow> subs s' = subs s"
  "retrieve_sensors cv q s = Inr s' \<Longrightarrow> subs s' = subs s"
  by (auto simp: advertise_sensor_def deadvertise_sensor_def send_observation_def retrieve_sensors_def rbind_Inr_conv
      split: if_splits)

lemma subs_resolve [simp]: "subs (snd (resolve_sensors d sensors s)) = subs s"
  by (induction sensors arbitrary: s) (simp_all split: sum.splits)

lemma ended_subs_kept:
  assumes "subs s = (Some False, Some False)" "op \<noteq> ManagerStopping"
  shows "subs (sensor_step cv opts op s) = (Some False, Some False)"
proof (cases op)
  case (RegisterSensor sensor io pub interval)
  have "subs (observe_sensor_events opts t) = (Some False, Some False)" if "subs t = (Some False, Some False)" for t
    using that by (simp add: subs_def observe_sensor_events_def observe_sensor_queries_if_needed_def
        observe_sensor_discovers_if_needed_def Let_def)
  then show ?thesis using assms(1)
    by (cases "advertise_sensor opts sensor (enter_sensor sensor io pub interval s)")
      (simp_all add: RegisterSensor sensor_step_def register_sensor_def Let_def subs_results)
next
  case (UnregisterSensor i)
  have "subs (unobserve_if_empty t) = (Some False, Some False)" if "subs t = (Some False, Some False)" for t
    using that by (simp add: subs_def unobserve_if_empty_def unsubscribed_def)
  then show ?thesis using assms(1)
    by (cases "deadvertise_sensor opts i (remove_sensor i s)")
      (simp_all add: UnregisterSensor sensor_step_def unregister_sensor_def Let_def subs_results)
next
  case (SensorRead newUuid now r v)
  then show ?thesis using assms(1)
    by (cases "send_observation r (create_observation newUuid now r v) (emit_sensor_value (rd_sensor_id r) v s)")
      (simp_all add: sensor_step_def sensor_read_def Let_def subs_results)
next
  case (SensorQuery q)
  then show ?thesis using assms(1)
    by (cases "retrieve_sensors cv q s") (simp_all add: sensor_step_def on_sensor_query_def subs_results)
next
  case (SensorDiscover d)
  then show ?thesis using assms(1) by (simp add: sensor_step_def on_sensor_discover_def subs_def)
next
  case (ValueObservable i)
  then show ?thesis using assms(1)
    by (auto simp: sensor_step_def get_sensor_value_observable_def subs_def split: option.splits)
next
  case (PublishObservation r)
  then show ?thesis using assms(1)
    by (auto simp: sensor_step_def publish_observation_def split: option.splits)
qed (use assms in simp_all)

lemma later_sensors_never_found:
  assumes "subs s = (Some True, Some True)" "sc_sensors s = [(i, e)]" "i \<noteq> []" "\<forall>op \<in> set ops. op \<noteq> ManagerStopping"
  shows "subs (fold (sensor_step cv opts) (UnregisterSensor i # ops) s) = (Some False, Some False)"
proof -
  have "sc_sensors (remove_sensor i s) = []"
    using assms(2) by (simp add: remove_sensor_def Let_def jdel_def split: option.splits)
  moreover obtain s2 where s2: "deadvertise_sensor opts i (remove_sensor i s) = Inr s2"
      "sc_sensors s2 = sc_sensors (remove_sensor i s)"
    using assms(3) by (cases "so_skip_deadvertise opts")
      (auto simp: deadvertise_sensor_def new_deadvertise_data_def is_string_array_def)
  moreover have "subs s2 = (Some True, Some True)" using subs_results(2) [OF s2(1)] assms(1) by simp
  ultimately have "subs (sensor_step cv opts (UnregisterSensor i) s) = (Some False, Some False)"
    using assms(2)
    by (simp add: sensor_step_def unregister_sensor_def is_registered_def jhas_def unobserve_if_empty_def subs_def
        unsubscribed_def Let_def)
  moreover have "subs (fold (sensor_step cv opts) ops t) = (Some False, Some False)"
    if "subs t = (Some False, Some False)" for t
    using that assms(4) by (induction ops arbitrary: t) (simp_all add: ended_subs_kept)
  ultimately show ?thesis by simp
qed

section \<open>Concrete sensors\<close>

definition sample_sensor :: jsv where
  "sample_sensor = jobj [(''name'', JStr ''temperature''), (''objectType'', JStr ''coaty.sensorThings.Sensor''),
     (''coreType'', JStr ''CoatyObject''), (''objectId'', JStr ''s1''), (''description'', JStr ''''),
     (''encodingType'', JStr ''''), (''metadata'', jobj []), (''unitOfMeasurement'', jobj []),
     (''observationType'', JStr ''m''),
     (''observedProperty'', jobj [(''name'', JStr ''t''), (''definition'', JStr ''''), (''description'', JStr '''')])]"

lemma sample_sensor_props:
  "get_prop sample_sensor ''objectId'' = JStr ''s1''" "is_object sample_sensor None"
  "get_prop sample_sensor ''objectType'' = JStr object_type_sensor"
  by (simp_all add: sample_sensor_def is_object_None is_assignable.simps is_object_base_def is_core_type_iff
      core_type_names_def prop_opt_def proto_prop_def object_proto_names_def object_type_sensor_def)

text \<open>The parent of a sensor is not checked: a sensor without a thing is valid.\<close>

lemma sensor_without_thing: "is_sensor sample_sensor \<and> get_prop sample_sensor ''parentObjectId'' = JUndef"
  using sample_sensor_props
  by (simp add: is_sensor_def object_type_is_def is_object_Some is_assignable.simps is_object_base_def is_core_type_iff
      core_type_names_def sample_sensor_def prop_opt_def proto_prop_def object_proto_names_def object_type_sensor_def
      is_unit_of_measurement_def is_observed_property_def)

definition sample_options :: sensor_options where
  "sample_options = \<lparr>so_sensors = None, so_skip_advertise = False, so_skip_deadvertise = False,
     so_ignore_queries = False, so_ignore_discovers = False\<rparr>"

lemma sample_registered:
  "sensor_step cv sample_options (RegisterSensor sample_sensor ''io'' PubChannel (JNum (Fin 5))) new_sensor_source =
    \<lparr>sc_sensors = [(''s1'', sample_sensor, ''io'')], sc_publishers = [(''s1'', 0)], sc_values = [],
     sc_query = Some True, sc_discover = Some True, sc_next = 1,
     sc_out = [StartTimer 0 ''s1'' True (JNum (Fin 5)), SensorAdvertised sample_sensor]\<rparr>"
proof -
  have ok: "new_advertise_data sample_sensor JUndef = Inr \<lparr>ad_object = sample_sensor, ad_private = JUndef\<rparr>"
    "new_advertise_event \<lparr>ad_object = sample_sensor, ad_private = JUndef\<rparr> =
      Inr (AdvertiseEv \<lparr>ad_object = sample_sensor, ad_private = JUndef\<rparr>)"
    using sample_sensor_props
    by (simp_all add: new_advertise_data_def is_valid_private_data_def new_advertise_event_def object_type_filter_ok_def
        is_valid_event_filter_def illegal_filter_chars_def object_type_sensor_def)
  have i: "prop_string sample_sensor ''objectId'' = ''s1''" by (simp add: prop_string_def sample_sensor_props)
  show ?thesis
    by (simp add: sensor_step_def register_sensor_def is_registered_def jhas_def new_sensor_source_def i num_positive_def
        enter_sensor_def advertise_sensor_def sample_options_def ok observe_sensor_events_def
        observe_sensor_queries_if_needed_def observe_sensor_discovers_if_needed_def sensor_out_def Let_def)
qed


theorem observation_reaches_observers_witness:
  "\<exists>ob s'. is_observation ob \<and> sc_out s' = [ObservationChanneled ''s1'' ob] \<and>
    sensor_read ''o1'' (Fin 7) \<lparr>rd_sensor_id = ''s1'', rd_sensor = sample_sensor, rd_channeled = True, rd_quality = JUndef,
      rd_valid_time = JUndef, rd_parameters = JUndef, rd_feature = JUndef\<rparr> (jint 20) new_sensor_source = (Inr (), s')"
proof -
  let ?r = "\<lparr>rd_sensor_id = ''s1'', rd_sensor = sample_sensor, rd_channeled = True, rd_quality = JUndef,
      rd_valid_time = JUndef, rd_parameters = JUndef, rd_feature = JUndef\<rparr>"
  have "reading_ok ?r" "num_le (Fin 0) (Fin 7)" by (simp_all add: reading_ok_def sample_sensor_props num_le_def)
  moreover have "is_valid_event_filter (get_prop (rd_sensor ?r) ''objectId'')"
    by (simp add: sample_sensor_props is_valid_event_filter_def illegal_filter_chars_def)
  moreover have "emit_sensor_value ''s1'' (jint 20) new_sensor_source = new_sensor_source"
    by (simp add: emit_sensor_value_def new_sensor_source_def)
  moreover have "prop_string sample_sensor ''objectId'' = ''s1''" by (simp add: prop_string_def sample_sensor_props)
  ultimately show ?thesis
    using observation_reaches_observers [of ?r "''o1''" "Fin 7" "jint 20" new_sensor_source]
    by (intro exI [of _ "create_observation ''o1'' (Fin 7) ?r (jint 20)"]
        exI [of _ "sensor_out [ObservationChanneled ''s1'' (create_observation ''o1'' (Fin 7) ?r (jint 20))] new_sensor_source"])
      (simp add: Let_def observation_channel_def, simp add: new_sensor_source_def)
qed

definition thing_sensor :: jsv where
  "thing_sensor = jobj [(''name'', JStr ''humidity''), (''objectType'', JStr ''coaty.sensorThings.Sensor''),
     (''coreType'', JStr ''CoatyObject''), (''objectId'', JStr ''s2''), (''parentObjectId'', JStr ''t1''),
     (''description'', JStr ''''), (''encodingType'', JStr ''''), (''metadata'', jobj []), (''unitOfMeasurement'', jobj []),
     (''observationType'', JStr ''m''),
     (''observedProperty'', jobj [(''name'', JStr ''h''), (''definition'', JStr ''''), (''description'', JStr '''')])]"

lemma thing_sensor_props:
  "get_prop thing_sensor ''objectId'' = JStr ''s2''" "is_object thing_sensor None"
  "get_prop thing_sensor ''objectType'' = JStr object_type_sensor"
  "get_prop thing_sensor ''parentObjectId'' = JStr ''t1''" "get_prop sample_sensor ''parentObjectId'' = JUndef"
  by (simp_all add: thing_sensor_def sample_sensor_def is_object_None is_assignable.simps is_object_base_def
      is_core_type_iff core_type_names_def prop_opt_def proto_prop_def object_proto_names_def object_type_sensor_def)

lemma thing_registered:
  fixes cv
  defines "s \<equiv> fold (sensor_step cv sample_options)
    [RegisterSensor sample_sensor ''io'' PubChannel (JNum (Fin 5)), RegisterSensor thing_sensor ''io'' PubChannel (JNum (Fin 5))]
    new_sensor_source"
  shows "registered_sensors s = [sample_sensor, thing_sensor]" "sc_query s = Some True"
proof -
  have ok: "new_advertise_data thing_sensor JUndef = Inr \<lparr>ad_object = thing_sensor, ad_private = JUndef\<rparr>"
    "new_advertise_event \<lparr>ad_object = thing_sensor, ad_private = JUndef\<rparr> =
      Inr (AdvertiseEv \<lparr>ad_object = thing_sensor, ad_private = JUndef\<rparr>)"
    using thing_sensor_props
    by (simp_all add: new_advertise_data_def is_valid_private_data_def new_advertise_event_def object_type_filter_ok_def
        is_valid_event_filter_def illegal_filter_chars_def object_type_sensor_def)
  have i: "prop_string thing_sensor ''objectId'' = ''s2''" by (simp add: prop_string_def thing_sensor_props)
  have "registered_sensors s = [sample_sensor, thing_sensor] \<and> sc_query s = Some True"
    unfolding s_def fold.simps o_apply id_apply sample_registered
    by (simp add: sensor_step_def register_sensor_def is_registered_def jhas_def i num_positive_def
        enter_sensor_def advertise_sensor_def sample_options_def ok observe_sensor_events_def registered_sensors_def
        observe_sensor_queries_if_needed_def observe_sensor_discovers_if_needed_def sensor_out_def Let_def)
  then show "registered_sensors s = [sample_sensor, thing_sensor]" "sc_query s = Some True" by simp_all
qed

theorem sensors_of_thing_retrieved_witness:
  "\<exists>q s. query_sensors_of_thing ''t1'' = Inr q \<and> registered_sensors s = [sample_sensor, thing_sensor] \<and>
    on_sensor_query sample_conv q s = (Inr (), sensor_out [SensorsRetrieved [thing_sensor]] s)"
proof -
  define s where "s = fold (sensor_step sample_conv sample_options)
    [RegisterSensor sample_sensor ''io'' PubChannel (JNum (Fin 5)), RegisterSensor thing_sensor ''io'' PubChannel (JNum (Fin 5))]
    new_sensor_source"
  have s: "sc_query s = Some True" "registered_sensors s = [sample_sensor, thing_sensor]"
    unfolding s_def by (rule thing_registered)+
  show ?thesis
    using sensors_of_thing_retrieved [of s "''t1''" sample_conv] s sample_sensor_props thing_sensor_props by auto
qed

end
