(* ===== verification/ThingObserver.thy ===== *)
theory ThingObserver
  imports SensorThings
begin

text \<open>
  The observation of things with their sensors and observations,
  \<open>src/src/sensor-things/thing-sensor-observation-observer-controller.ts\<close>. Things and sensors come
  from events, with strings as ids. The active subscriptions of a thing are the thing objects that
  their callbacks have captured, the active subscription of a sensor's observations the sensor.
\<close>

section \<open>State\<close>

record sensors_change =
  ci_added :: "jsv list"
  ci_removed :: "jsv list"
  ci_changed :: "jsv list"
  ci_total :: "jsv list"

record thing_observer =
  to_subs :: "(string, jsv list) jmap"
  to_observations :: "(string, jsv) jmap"
  to_registered :: "(string, jsv) jmap"
  to_infos :: "sensors_change list"
  to_emitted :: "(jsv \<times> jsv) list"

definition new_thing_observer :: thing_observer where
  "new_thing_observer =
    \<lparr>to_subs = [], to_observations = [], to_registered = [],
     to_infos = [\<lparr>ci_added = [], ci_removed = [], ci_changed = [], ci_total = []\<rparr>], to_emitted = []\<rparr>"

definition emit_change :: "jsv list \<Rightarrow> jsv list \<Rightarrow> jsv list \<Rightarrow> thing_observer \<Rightarrow> thing_observer" where
  "emit_change added removed changed s =
    s\<lparr>to_infos := to_infos s @
      [\<lparr>ci_added = added, ci_removed = removed, ci_changed = changed, ci_total = jvals (to_registered s)\<rparr>]\<rparr>"

section \<open>Callbacks\<close>

definition on_thing_received :: "(jsv \<Rightarrow> bool) option \<Rightarrow> jsv \<Rightarrow> thing_observer \<Rightarrow> thing_observer" where
  "on_thing_received thingFilter thing s =
    (if (case thingFilter of Some f \<Rightarrow> \<not> f thing | None \<Rightarrow> False) then s
     else
       (let thingId = prop_string thing ''objectId''
        in case jget (to_subs s) thingId of
             Some subs \<Rightarrow> s\<lparr>to_subs := jset thingId (subs @ [thing]) (to_subs s)\<rparr>
           | None \<Rightarrow> s\<lparr>to_subs := jset thingId [thing] (to_subs s)\<rparr>))"

definition on_sensor_received ::
  "(jsv \<Rightarrow> jsv \<Rightarrow> bool) option \<Rightarrow> jsv \<Rightarrow> jsv \<Rightarrow> thing_observer \<Rightarrow> thing_observer" where
  "on_sensor_received sensorFilter thing sensor s =
    (if (case sensorFilter of Some f \<Rightarrow> \<not> f sensor thing | None \<Rightarrow> False) then s
     else
       (let sensor' = set_prop ''thing'' thing sensor;
            sensorId = prop_string sensor ''objectId'';
            isRegistered = jhas (to_registered s) sensorId;
            s1 = emit_change (if isRegistered then [] else [sensor']) [] (if isRegistered then [sensor'] else [])
              (s\<lparr>to_registered := jset sensorId sensor' (to_registered s)\<rparr>)
        in s1\<lparr>to_observations := jset sensorId sensor' (to_observations s1)\<rparr>))"

definition thing_of :: "jsv \<Rightarrow> jsv" where
  "thing_of sensor = get_prop sensor ''thing''"

text \<open>A thing whose subscriptions are gone makes the cleanup throw.\<close>

fun unsubscribe_things :: "string list \<Rightarrow> thing_observer \<Rightarrow> (js_error + unit) \<times> thing_observer" where
  "unsubscribe_things [] s = (Inr (), s)"
| "unsubscribe_things (i # is) s =
    (case jget (to_subs s) i of
       None \<Rightarrow> (Inl (TypeError ''cannot read property forEach of undefined''), s)
     | Some _ \<Rightarrow> unsubscribe_things is (s\<lparr>to_subs := jdel i (to_subs s)\<rparr>))"

text \<open>The visit of the registered sensors of the things that are gone: the subscription on a sensor's
  observations is ended and both entries are deleted, one sensor after the other. A sensor without a
  subscription makes it throw.\<close>

fun end_observations :: "(string \<times> jsv) list \<Rightarrow> thing_observer \<Rightarrow> (js_error + unit) \<times> thing_observer" where
  "end_observations [] s = (Inr (), s)"
| "end_observations ((i, sensor) # es) s =
    (case jget (to_observations s) i of
       None \<Rightarrow> (Inl (TypeError ''cannot read property unsubscribe of undefined''), s)
     | Some _ \<Rightarrow> end_observations es
         (s\<lparr>to_observations := jdel i (to_observations s), to_registered := jdel i (to_registered s)\<rparr>))"

definition on_thing_deadvertised :: "string \<Rightarrow> thing_observer \<Rightarrow> (js_error + unit) \<times> thing_observer" where
  "on_thing_deadvertised objectId s =
    (let gone = (\<lambda>e. strict_eq (get_prop (thing_of (snd e)) ''parentObjectId'') (JStr objectId));
         removed = filter gone (to_registered s);
         removedThingIds = remdups (map (\<lambda>e. prop_string (thing_of (snd e)) ''objectId'') removed)
     in case end_observations removed s of
          (Inl e, s1) \<Rightarrow> (Inl e, s1)
        | (Inr _, s1) \<Rightarrow>
            (case unsubscribe_things removedThingIds s1 of
               (Inl e, s2) \<Rightarrow> (Inl e, s2)
             | (Inr _, s2) \<Rightarrow> (Inr (), if removed = [] then s2 else emit_change [] (map snd removed) [] s2)))"

definition thing_observer_stopping :: "thing_observer \<Rightarrow> thing_observer" where
  "thing_observer_stopping s =
    s\<lparr>to_subs := [], to_observations := [], to_registered := [],
      to_infos := to_infos s @
        [\<lparr>ci_added = [], ci_removed = jvals (to_registered s), ci_changed = [], ci_total = []\<rparr>]\<rparr>"

section \<open>Events\<close>

text \<open>A sensor found by a query goes to the subscription that made the query; an advertised sensor to
  all subscriptions of its thing; a deadvertisement lists several objects.\<close>

datatype thing_event =
    ThingSeen jsv
  | SensorsFound jsv "jsv list"
  | SensorAdvertisement jsv
  | ObjectsDeadvertised "string list"
  | ObservationReceived string channel_data
  | ObserverStopping

definition active_things :: "string \<Rightarrow> thing_observer \<Rightarrow> jsv list" where
  "active_things thingId s = (case jget (to_subs s) thingId of Some subs \<Rightarrow> subs | None \<Rightarrow> [])"

fun deadvertise_each :: "string list \<Rightarrow> thing_observer \<Rightarrow> (js_error + unit) \<times> thing_observer" where
  "deadvertise_each [] s = (Inr (), s)"
| "deadvertise_each (i # is) s =
    (case on_thing_deadvertised i s of (Inl e, s') \<Rightarrow> (Inl e, s') | (Inr _, s') \<Rightarrow> deadvertise_each is s')"

definition thing_event_step ::
  "(jsv \<Rightarrow> bool) option \<Rightarrow> (jsv \<Rightarrow> jsv \<Rightarrow> bool) option \<Rightarrow> thing_event \<Rightarrow> thing_observer \<Rightarrow>
    (js_error + unit) \<times> thing_observer" where
  "thing_event_step thingFilter sensorFilter ev s =
    (case ev of
       ThingSeen thing \<Rightarrow> (Inr (), on_thing_received thingFilter thing s)
     | SensorsFound thing sensors \<Rightarrow>
         (Inr (), if thing \<in> set (active_things (prop_string thing ''objectId'') s)
           then fold (on_sensor_received sensorFilter thing) sensors s else s)
     | SensorAdvertisement sensor \<Rightarrow>
         (Inr (), case get_prop sensor ''parentObjectId'' of
            JStr thingId \<Rightarrow>
              fold (\<lambda>thing. on_sensor_received sensorFilter thing sensor) (rev (active_things thingId s)) s
          | _ \<Rightarrow> s)
     | ObjectsDeadvertised is \<Rightarrow> deadvertise_each is s
     | ObservationReceived sensorId d \<Rightarrow>
         (Inr (), case jget (to_observations s) sensorId of
            Some sensor \<Rightarrow>
              (if observes_channeled_observation sensorId d
               then s\<lparr>to_emitted := to_emitted s @ [(cd_object d, sensor)]\<rparr> else s)
          | None \<Rightarrow> s)
     | ObserverStopping \<Rightarrow> (Inr (), thing_observer_stopping s))"

fun thing_events_run ::
  "(jsv \<Rightarrow> bool) option \<Rightarrow> (jsv \<Rightarrow> jsv \<Rightarrow> bool) option \<Rightarrow> thing_event list \<Rightarrow> thing_observer \<Rightarrow> js_error + thing_observer" where
  "thing_events_run tf sf [] s = Inr s"
| "thing_events_run tf sf (ev # evs) s =
    (case thing_event_step tf sf ev s of (Inl e, s') \<Rightarrow> Inl e | (Inr _, s') \<Rightarrow> thing_events_run tf sf evs s')"

end
