(* ===== verification/ThingObserverProps.thy ===== *)
theory ThingObserverProps
  imports ThingObserver CommManagerProps
begin

text \<open>
  Correctness of the observation of things: what a subscriber of the change infos knows is what is
  registered, and the observation subscriptions are those of the registered sensors.
\<close>

section \<open>The view of a subscriber\<close>

definition oid :: "jsv \<Rightarrow> string" where
  "oid x = prop_string x ''objectId''"

definition change_fits :: "sensors_change \<Rightarrow> (string \<rightharpoonup> jsv) \<Rightarrow> (string \<rightharpoonup> jsv) \<Rightarrow> bool" where
  "change_fits c m m' =
    ((\<forall>x \<in> set (ci_removed c). m (oid x) = Some x) \<and> (\<forall>x \<in> set (ci_added c). m (oid x) = None) \<and>
     (\<forall>x \<in> set (ci_changed c). m (oid x) \<noteq> None) \<and> ran m' = set (ci_total c))"

definition apply_change :: "sensors_change \<Rightarrow> (string \<rightharpoonup> jsv) option \<Rightarrow> (string \<rightharpoonup> jsv) option" where
  "apply_change c mo =
    (case mo of
       None \<Rightarrow> None
     | Some m \<Rightarrow>
         (let m1 = fold (\<lambda>x m. m(oid x := None)) (ci_removed c) m;
              m2 = fold (\<lambda>x m. m(oid x \<mapsto> x)) (ci_added c @ ci_changed c) m1
          in if change_fits c m m2 then Some m2 else None))"

definition tracks :: "thing_observer \<Rightarrow> bool" where
  "tracks s = (fold apply_change (to_infos s) (Some Map.empty) = Some (map_of (to_registered s)))"

section \<open>Invariant\<close>

text \<open>All versions of a thing have the same parent.\<close>

definition thing_ok :: "(string \<Rightarrow> jsv) \<Rightarrow> jsv \<Rightarrow> bool" where
  "thing_ok parents thing = (get_prop thing ''parentObjectId'' = parents (oid thing))"

definition sensor_ok :: "jsv \<Rightarrow> bool" where
  "sensor_ok x = (\<exists>p ps. x = JObj p ps)"

definition subs_ok :: "(string \<Rightarrow> jsv) \<Rightarrow> (string, jsv list) jmap \<Rightarrow> bool" where
  "subs_ok parents subs =
    (jwf subs \<and> (\<forall>i ts. jget subs i = Some ts \<longrightarrow> (\<forall>t \<in> set ts. oid t = i \<and> thing_ok parents t)))"

definition registered_ok :: "(string \<Rightarrow> jsv) \<Rightarrow> (string, jsv list) jmap \<Rightarrow> (string, jsv) jmap \<Rightarrow> bool" where
  "registered_ok parents subs reg =
    (jwf reg \<and> (\<forall>i x. jget reg i = Some x \<longrightarrow> oid x = i \<and> thing_ok parents (thing_of x) \<and>
       oid (thing_of x) \<in> fst ` set subs))"

definition thing_inv :: "(string \<Rightarrow> jsv) \<Rightarrow> thing_observer \<Rightarrow> bool" where
  "thing_inv parents s =
    (subs_ok parents (to_subs s) \<and> registered_ok parents (to_subs s) (to_registered s) \<and>
     map_of (to_observations s) = map_of (to_registered s) \<and> tracks s)"

definition event_ok :: "(string \<Rightarrow> jsv) \<Rightarrow> thing_event \<Rightarrow> bool" where
  "event_ok parents ev =
    (case ev of
       ThingSeen thing \<Rightarrow> thing_ok parents thing
     | SensorsFound thing sensors \<Rightarrow> list_all sensor_ok sensors
     | SensorAdvertisement sensor \<Rightarrow> sensor_ok sensor
     | _ \<Rightarrow> True)"

lemma ran_jwf: "jwf m \<Longrightarrow> ran (map_of m) = set (jvals m)"
  by (force simp: ran_def jwf_in_set_iff [symmetric])

lemma tracks_emit:
  assumes "tracks s" "apply_change \<lparr>ci_added = added, ci_removed = removed, ci_changed = changed, ci_total = jvals (to_registered s')\<rparr>
      (Some (map_of (to_registered s))) = Some (map_of (to_registered s'))" "to_infos s' = to_infos s"
  shows "tracks (emit_change added removed changed s')"
  using assms by (simp add: tracks_def emit_change_def)

lemma thing_received_inv:
  assumes inv: "thing_inv parents s" and "thing_ok parents thing"
  shows "thing_inv parents (on_thing_received tf thing s)"
proof -
  let ?i = "prop_string thing ''objectId''"
  have s: "subs_ok parents (to_subs s)" "registered_ok parents (to_subs s) (to_registered s)"
    using inv by (simp_all add: thing_inv_def)
  have step: "thing_inv parents (s\<lparr>to_subs := jset ?i (ts @ [thing]) (to_subs s)\<rparr>)"
    if "\<forall>t \<in> set ts. oid t = ?i \<and> thing_ok parents t" for ts
  proof -
    have "subs_ok parents (jset ?i (ts @ [thing]) (to_subs s))"
      using s(1) that assms(2) by (auto simp: subs_ok_def oid_def [of thing])
    moreover have "registered_ok parents (jset ?i (ts @ [thing]) (to_subs s)) (to_registered s)"
      using s(2) by (auto simp: registered_ok_def)
    ultimately show ?thesis using inv by (simp add: thing_inv_def tracks_def)
  qed
  show ?thesis
  proof (cases "jget (to_subs s) ?i")
    case None
    then show ?thesis using step [of "[]"] inv by (simp add: on_thing_received_def Let_def)
  next
    case (Some ts)
    then have "\<forall>t \<in> set ts. oid t = ?i \<and> thing_ok parents t" using s(1) by (simp add: subs_ok_def)
    then show ?thesis using step [of ts] inv Some by (simp add: on_thing_received_def Let_def)
  qed
qed

lemma sensor_received_inv:
  assumes inv: "thing_inv parents s" and t: "thing \<in> set (active_things (oid thing) s)" and x: "sensor_ok sensor"
  shows "thing_inv parents (on_sensor_received sf thing sensor s)"
    "to_subs (on_sensor_received sf thing sensor s) = to_subs s"
proof -
  show "to_subs (on_sensor_received sf thing sensor s) = to_subs s"
    by (simp add: on_sensor_received_def emit_change_def Let_def)
  let ?x = "set_prop ''thing'' thing sensor"
  let ?i = "prop_string sensor ''objectId''"
  have s: "subs_ok parents (to_subs s)" "registered_ok parents (to_subs s) (to_registered s)" "tracks s"
    "map_of (to_observations s) = map_of (to_registered s)"
    using inv by (simp_all add: thing_inv_def)
  have x': "oid ?x = ?i" "thing_of ?x = thing"
    using x by (auto simp: oid_def prop_string_def thing_of_def sensor_ok_def)
  have t': "thing_ok parents thing" "oid thing \<in> fst ` set (to_subs s)"
  proof -
    obtain ts where ts: "jget (to_subs s) (oid thing) = Some ts" "thing \<in> set ts"
      using t by (cases "jget (to_subs s) (oid thing)") (auto simp: active_things_def)
    show "thing_ok parents thing" using s(1) ts by (auto simp: subs_ok_def)
    show "oid thing \<in> fst ` set (to_subs s)" using map_of_SomeD [OF ts(1)] by force
  qed
  have reg: "registered_ok parents (to_subs s) (jset ?i ?x (to_registered s))"
    using s(2) x' t' by (auto simp: registered_ok_def)
  let ?isr = "jhas (to_registered s) ?i"
  let ?s1 = "s\<lparr>to_registered := jset ?i ?x (to_registered s)\<rparr>"
  have wf: "jwf (to_registered ?s1)" using reg by (simp add: registered_ok_def)
  have "ran (map_of (to_registered ?s1)) = set (jvals (to_registered ?s1))" using wf by (rule ran_jwf)
  then have "tracks (emit_change (if ?isr then [] else [?x]) [] (if ?isr then [?x] else []) ?s1)"
    by (intro tracks_emit [OF s(3)]) (auto simp: apply_change_def change_fits_def x'(1) jhas_def)
  then show "thing_inv parents (on_sensor_received sf thing sensor s)"
    using inv reg s(4) by (auto simp: on_sensor_received_def Let_def thing_inv_def emit_change_def tracks_def)
qed

lemma sensors_received_inv:
  assumes "thing_inv parents s" "\<forall>(thing, sensor) \<in> set xs. thing \<in> set (active_things (oid thing) s) \<and> sensor_ok sensor"
  shows "thing_inv parents (fold (\<lambda>(thing, sensor). on_sensor_received sf thing sensor) xs s)"
  using assms
proof (induction xs arbitrary: s)
  case (Cons p xs)
  obtain thing sensor where p: "p = (thing, sensor)" by (cases p)
  have h: "thing \<in> set (active_things (oid thing) s)" "sensor_ok sensor" using Cons.prems(2) p by auto
  note st = sensor_received_inv [OF Cons.prems(1) h, of sf]
  have "active_things i (on_sensor_received sf thing sensor s) = active_things i s" for i
    by (simp add: active_things_def st(2))
  then show ?case using Cons.IH [OF st(1)] Cons.prems(2) p by auto
qed simp

text \<open>Removal of the sensors of an agent.\<close>

lemma unsubscribe_things_ok:
  assumes "distinct is" "set is \<subseteq> fst ` set (to_subs s)"
  shows "unsubscribe_things is s = (Inr (), s\<lparr>to_subs := filter (\<lambda>e. fst e \<notin> set is) (to_subs s)\<rparr>)"
  using assms
proof (induction "is" arbitrary: s)
  case (Cons i "is")
  then obtain ts where "jget (to_subs s) i = Some ts" by (metis jhas_def jhas_iff insert_subset list.simps(15) not_None_eq)
  moreover have "set is \<subseteq> fst ` set (jdel i (to_subs s))"
    using Cons.prems unfolding set_jkeys_jdel by auto
  moreover have "filter (\<lambda>e. fst e \<notin> set is) (jdel i (to_subs s)) = filter (\<lambda>e. fst e \<notin> set (i # is)) (to_subs s)"
    by (auto simp: jdel_def intro: filter_cong)
  ultimately show ?case using Cons by simp
qed simp

lemma map_of_filter_value: "jwf m \<Longrightarrow> map_of (filter (\<lambda>e. P (snd e)) m) i = (case map_of m i of Some x \<Rightarrow> if P x then Some x else None | None \<Rightarrow> None)"
  by (induction m) (auto simp: map_of_eq_None_iff image_iff split: option.splits)

lemma fold_jdel: "map_of (fold (\<lambda>e m. jdel (fst e) m) es m) i = (if i \<in> fst ` set es then None else map_of m i)"
  by (induction es arbitrary: m) auto

lemma removed_change:
  assumes wf: "jwf reg" and ids: "\<forall>i x. jget reg i = Some x \<longrightarrow> oid x = i"
  shows "apply_change \<lparr>ci_added = [], ci_removed = map snd (filter (\<lambda>e. g (snd e)) reg), ci_changed = [],
      ci_total = jvals (filter (\<lambda>e. \<not> g (snd e)) reg)\<rparr> (Some (map_of reg)) =
    Some (map_of (filter (\<lambda>e. \<not> g (snd e)) reg))"
proof -
  let ?gone = "filter (\<lambda>e. g (snd e)) reg" and ?rest = "filter (\<lambda>e. \<not> g (snd e)) reg"
  have id: "oid (snd e) = fst e" if "e \<in> set reg" for e
    using that ids wf by (metis jwf_in_set_iff prod.collapse)
  have f: "fold (\<lambda>x m. m(oid x := None)) xs m = (\<lambda>i. if i \<in> oid ` set xs then None else m i)" for xs and m :: "string \<rightharpoonup> jsv"
    by (induction xs arbitrary: m) (auto simp: fun_eq_iff)
  have gone: "oid ` set (map snd ?gone) = fst ` set ?gone"
    using id by (force simp: image_iff)
  have m: "fold (\<lambda>x m. m(oid x := None)) (map snd ?gone) (map_of reg) = map_of ?rest"
  proof
    fix i
    show "fold (\<lambda>x m. m(oid x := None)) (map snd ?gone) (map_of reg) i = map_of ?rest i"
    proof (cases "jget reg i")
      case None
      then show ?thesis unfolding f by (simp add: map_of_filter_value [OF wf, of "\<lambda>x. \<not> g x"])
    next
      case (Some x)
      have "i \<in> fst ` set ?gone \<longleftrightarrow> g x"
      proof -
        have "(i, y) \<in> set reg \<longleftrightarrow> y = x" for y using Some wf jwf_in_set_iff [OF wf, of i y] by auto
        then show ?thesis by force
      qed
      then show ?thesis unfolding f gone by (simp add: map_of_filter_value [OF wf, of "\<lambda>x. \<not> g x"] Some)
    qed
  qed
  have "jwf ?rest" using wf by (simp add: distinct_map_filter)
  then have r: "ran (map_of ?rest) = set (jvals ?rest)" by (rule ran_jwf)
  have "map_of reg (oid x) = Some x" if "x \<in> set (map snd ?gone)" for x
  proof -
    have "x \<in> snd ` set reg" using that by auto
    then obtain e where e: "e \<in> set reg" "x = snd e" by blast
    then show ?thesis using id [OF e(1)] wf by (metis jwf_in_set_iff prod.collapse)
  qed
  then show ?thesis using r by (simp add: apply_change_def m change_fits_def Let_def)
qed

lemma end_observations_ok:
  assumes "distinct (map fst es)" "\<forall>e \<in> set es. jget (to_observations s) (fst e) \<noteq> None"
  shows "end_observations es s = (Inr (), s\<lparr>to_registered := fold (\<lambda>e m. jdel (fst e) m) es (to_registered s),
    to_observations := fold (\<lambda>e m. jdel (fst e) m) es (to_observations s)\<rparr>)"
  using assms
proof (induction es arbitrary: s)
  case (Cons e es)
  obtain i x where e: "e = (i, x)" by (cases e)
  obtain y where y: "jget (to_observations s) i = Some y" using Cons.prems(2) e by auto
  have "\<forall>e \<in> set es. jget (jdel i (to_observations s)) (fst e) \<noteq> None"
    using Cons.prems e by (auto simp: image_iff)
  then show ?case using Cons.IH Cons.prems(1) e y by simp
qed simp

lemma fold_jdel_filter:
  assumes "jwf m"
  shows "fold (\<lambda>e m. jdel (fst e) m) (filter P m) m = filter (\<lambda>e. \<not> P e) m"
proof -
  have f: "fold (\<lambda>e m. jdel (fst e) m) es m = filter (\<lambda>e. fst e \<notin> fst ` set es) m" for es
    by (induction es arbitrary: m) (auto simp: jdel_def intro: filter_cong)
  have "(fst e \<notin> fst ` set (filter P m)) = (\<not> P e)" if "e \<in> set m" for e
  proof -
    have "e' = e" if "e' \<in> set m" "fst e' = fst e" for e'
      using that \<open>e \<in> set m\<close> assms by (metis jwf_in_set_iff option.inject prod.collapse)
    then show ?thesis using that by force
  qed
  then show ?thesis unfolding f by (intro filter_cong) auto
qed

definition parent_is :: "string \<Rightarrow> jsv \<Rightarrow> bool" where
  "parent_is objectId sensor = strict_eq (get_prop (thing_of sensor) ''parentObjectId'') (JStr objectId)"

lemma thing_deadvertised_inv:
  assumes inv: "thing_inv parents s"
  shows "\<exists>s'. on_thing_deadvertised i s = (Inr (), s') \<and> thing_inv parents s' \<and>
    to_registered s' = filter (\<lambda>e. \<not> parent_is i (snd e)) (to_registered s)"
proof -
  have s: "subs_ok parents (to_subs s)" "registered_ok parents (to_subs s) (to_registered s)" "tracks s"
    "map_of (to_observations s) = map_of (to_registered s)"
    using inv by (simp_all add: thing_inv_def)
  have wf: "jwf (to_registered s)" "\<forall>i x. jget (to_registered s) i = Some x \<longrightarrow> oid x = i"
    using s(2) by (simp_all add: registered_ok_def)
  let ?removed = "filter (\<lambda>e. parent_is i (snd e)) (to_registered s)"
  let ?rest = "filter (\<lambda>e. \<not> parent_is i (snd e)) (to_registered s)"
  define is' where "is' = remdups (map (\<lambda>e. prop_string (thing_of (snd e)) ''objectId'') ?removed)"
  define s1 where "s1 = s\<lparr>to_registered := ?rest, to_observations := fold (\<lambda>e obs. jdel (fst e) obs) ?removed (to_observations s)\<rparr>"
  define s2 where "s2 = s1\<lparr>to_subs := filter (\<lambda>e. fst e \<notin> set is') (to_subs s)\<rparr>"
  have reg: "oid (snd e) = fst e \<and> thing_ok parents (thing_of (snd e)) \<and> oid (thing_of (snd e)) \<in> fst ` set (to_subs s)"
    if "e \<in> set (to_registered s)" for e
    using that s(2) wf(1) by (metis jwf_in_set_iff prod.collapse registered_ok_def)
  have things: "set is' = (\<lambda>e. oid (thing_of (snd e))) ` set ?removed" by (simp add: is'_def oid_def)
  have "set is' \<subseteq> fst ` set (to_subs s1)" unfolding things using reg by (auto simp: s1_def)
  then have u: "unsubscribe_things is' s1 = (Inr (), s2)"
    by (simp add: unsubscribe_things_ok is'_def s2_def s1_def)
  have "distinct (map fst ?removed)" using wf(1) by (simp add: distinct_map_filter)
  moreover have "\<forall>e \<in> set ?removed. jget (to_observations s) (fst e) \<noteq> None"
    using s(4) wf(1) by (metis filter_is_subset jwf_in_set_iff option.discI prod.collapse subsetD)
  ultimately have e: "end_observations ?removed s = (Inr (), s1)"
    by (simp add: end_observations_ok fold_jdel_filter [OF wf(1)] s1_def)
  have d: "on_thing_deadvertised i s = (Inr (), if ?removed = [] then s2 else emit_change [] (map snd ?removed) [] s2)"
    using u e unfolding on_thing_deadvertised_def Let_def parent_is_def [symmetric] is'_def [symmetric]
    by simp
  have subs2: "subs_ok parents (to_subs s2)"
    using s(1) by (auto simp: subs_ok_def s2_def distinct_map_filter jwf_in_set_iff [symmetric])
  have reg2: "registered_ok parents (to_subs s2) ?rest"
    unfolding registered_ok_def
  proof (intro conjI allI impI)
    show wfr: "jwf ?rest" using wf(1) by (simp add: distinct_map_filter)
    fix k x assume "jget ?rest k = Some x"
    then have kx: "(k, x) \<in> set (to_registered s)" "\<not> parent_is i x" using wfr by (auto dest: map_of_SomeD)
    note r = reg [OF kx(1), simplified]
    show "oid x = k" "thing_ok parents (thing_of x)" using r by simp_all
    have "oid (thing_of x) \<notin> set is'"
    proof
      assume "oid (thing_of x) \<in> set is'"
      then obtain e where e: "e \<in> set (to_registered s)" "parent_is i (snd e)" "oid (thing_of (snd e)) = oid (thing_of x)"
        unfolding things by auto
      then have "parent_is i x" using reg [OF e(1)] r by (simp add: parent_is_def thing_ok_def)
      then show False using kx(2) by simp
    qed
    then show "oid (thing_of x) \<in> fst ` set (to_subs s2)" using r by (auto simp: s2_def)
  qed
  have obs2: "map_of (to_observations s2) = map_of ?rest"
  proof
    fix k
    have "k \<in> fst ` set ?removed \<longleftrightarrow> (\<exists>x. jget (to_registered s) k = Some x \<and> parent_is i x)"
      using wf(1) by (force simp: jwf_in_set_iff [symmetric])
    then show "map_of (to_observations s2) k = map_of ?rest k"
      by (simp add: s2_def s1_def fold_jdel s(4) map_of_filter_value [OF wf(1), of "\<lambda>x. \<not> parent_is i x"] split: option.splits)
  qed
  have change: "apply_change \<lparr>ci_added = [], ci_removed = map snd ?removed, ci_changed = [], ci_total = jvals ?rest\<rparr>
      (Some (map_of (to_registered s))) = Some (map_of ?rest)"
    using removed_change [OF wf, of "parent_is i"] .
  have r2: "to_registered s2 = ?rest" "to_infos s2 = to_infos s" by (simp_all add: s2_def s1_def)
  show ?thesis
  proof (cases "?removed = []")
    case True
    then have "?rest = to_registered s" by (auto simp: filter_empty_conv filter_id_conv)
    then have "tracks s2" using s(3) r2 by (simp add: tracks_def)
    then show ?thesis using d True subs2 reg2 obs2 r2 by (simp add: thing_inv_def)
  next
    case False
    have "tracks (emit_change [] (map snd ?removed) [] s2)"
      by (rule tracks_emit [OF s(3)]) (simp_all add: r2 change)
    then show ?thesis using d False subs2 reg2 obs2 r2 by (simp add: thing_inv_def emit_change_def)
  qed
qed

lemma deadvertise_each_inv:
  assumes "thing_inv parents s"
  shows "\<exists>s'. deadvertise_each is s = (Inr (), s') \<and> thing_inv parents s' \<and>
    to_registered s' = filter (\<lambda>e. \<forall>i \<in> set is. \<not> parent_is i (snd e)) (to_registered s)"
  using assms
proof (induction "is" arbitrary: s)
  case (Cons i "is")
  obtain s1 where s1: "on_thing_deadvertised i s = (Inr (), s1)" "thing_inv parents s1"
    "to_registered s1 = filter (\<lambda>e. \<not> parent_is i (snd e)) (to_registered s)"
    using thing_deadvertised_inv [OF Cons.prems, of i] by (elim exE conjE) (rule that)
  obtain s2 where s2: "deadvertise_each is s1 = (Inr (), s2)" "thing_inv parents s2"
    "to_registered s2 = filter (\<lambda>e. \<forall>i \<in> set is. \<not> parent_is i (snd e)) (to_registered s1)"
    using Cons.IH [OF s1(2)] by (elim exE conjE) (rule that)
  have "to_registered s2 = filter (\<lambda>e. \<forall>i \<in> set (i # is). \<not> parent_is i (snd e)) (to_registered s)"
    unfolding s2(3) s1(3) filter_filter by (rule filter_cong) auto
  then show ?case using s1(1) s2(1,2) by simp
qed simp

lemma thing_event_step_inv:
  assumes inv: "thing_inv parents s" and ok: "event_ok parents ev"
  shows "\<exists>s'. thing_event_step tf sf ev s = (Inr (), s') \<and> thing_inv parents s' \<and>
    (\<forall>ids. ev = ObjectsDeadvertised ids \<longrightarrow> (\<forall>x \<in> set (jvals (to_registered s')). \<forall>i \<in> set ids. \<not> parent_is i x))"
proof (cases ev)
  case (ThingSeen thing)
  then show ?thesis using thing_received_inv [OF inv] ok by (simp add: thing_event_step_def event_ok_def)
next
  case (SensorsFound thing sensors)
  show ?thesis
  proof (cases "thing \<in> set (active_things (prop_string thing ''objectId'') s)")
    case True
    then have "thing_inv parents (fold (\<lambda>(thing, sensor). on_sensor_received sf thing sensor) (map (Pair thing) sensors) s)"
      using ok SensorsFound by (intro sensors_received_inv [OF inv]) (auto simp: event_ok_def list_all_iff oid_def)
    then have "thing_inv parents (fold (on_sensor_received sf thing) sensors s)" by (simp add: fold_map o_def)
    then show ?thesis using True SensorsFound by (simp add: thing_event_step_def)
  qed (simp add: SensorsFound thing_event_step_def inv)
next
  case (SensorAdvertisement sensor)
  have "thing_inv parents (fold (\<lambda>thing. on_sensor_received sf thing sensor) (rev (active_things i s)) s)" for i
  proof -
    have "\<forall>t \<in> set (active_things i s). oid t = i"
      using inv by (auto simp: active_things_def thing_inv_def subs_ok_def split: option.splits)
    then have "thing_inv parents (fold (\<lambda>(thing, sensor). on_sensor_received sf thing sensor)
        (map (\<lambda>t. (t, sensor)) (rev (active_things i s))) s)"
      using ok SensorAdvertisement by (intro sensors_received_inv [OF inv]) (auto simp: event_ok_def)
    then show ?thesis by (simp add: fold_map o_def)
  qed
  then show ?thesis using inv by (auto simp: SensorAdvertisement thing_event_step_def split: jsv.splits)
next
  case (ObjectsDeadvertised ids)
  obtain s' where s': "deadvertise_each ids s = (Inr (), s')" "thing_inv parents s'"
    "to_registered s' = filter (\<lambda>e. \<forall>i \<in> set ids. \<not> parent_is i (snd e)) (to_registered s)"
    using deadvertise_each_inv [OF inv, of ids] by (elim exE conjE) (rule that)
  then show ?thesis by (auto simp: ObjectsDeadvertised thing_event_step_def)
next
  case (ObservationReceived sensorId d)
  have "thing_inv parents (s\<lparr>to_emitted := e\<rparr>)" for e using inv by (simp add: thing_inv_def tracks_def)
  then show ?thesis using inv by (auto simp: ObservationReceived thing_event_step_def split: option.splits)
next
  case ObserverStopping
  have "registered_ok parents (to_subs s) (to_registered s)" using inv by (simp add: thing_inv_def)
  then have wf: "jwf (to_registered s)" "\<forall>i x. jget (to_registered s) i = Some x \<longrightarrow> oid x = i"
    by (simp_all add: registered_ok_def)
  have "apply_change \<lparr>ci_added = [], ci_removed = jvals (to_registered s), ci_changed = [], ci_total = []\<rparr>
      (Some (map_of (to_registered s))) = Some Map.empty"
    using removed_change [OF wf, of "\<lambda>_. True"] by simp
  then have "tracks (thing_observer_stopping s)"
    using inv by (simp add: tracks_def thing_observer_stopping_def thing_inv_def)
  then have "thing_inv parents (thing_observer_stopping s)"
    by (simp add: thing_inv_def thing_observer_stopping_def subs_ok_def registered_ok_def)
  then show ?thesis by (simp add: ObserverStopping thing_event_step_def)
qed

text \<open>C13: for any sequence of things, sensors, observations, deadvertisements and stops in which every
  thing keeps its parent, no callback throws, every change info fits what was reported before (added
  sensors were unknown, changed ones known, removed ones exactly as reported), a subscriber that
  applies the infos knows exactly the registered sensors, each with its thing, and the observations of
  exactly these sensors are subscribed; after an agent is deadvertised, no sensor of its things is
  registered.\<close>

theorem sensor_infos_track:
  assumes "\<forall>ev \<in> set evs. event_ok parents ev"
  shows "\<exists>s. thing_events_run tf sf evs new_thing_observer = Inr s \<and>
    fold apply_change (to_infos s) (Some Map.empty) = Some (map_of (to_registered s)) \<and>
    map_of (to_observations s) = map_of (to_registered s) \<and>
    (\<forall>evs' ids. evs = evs' @ [ObjectsDeadvertised ids] \<longrightarrow>
      (\<forall>i x. jget (to_registered s) i = Some x \<longrightarrow> (\<forall>a \<in> set ids. \<not> parent_is a x)))"
proof -
  have run: "\<exists>s'. thing_events_run tf sf evs s = Inr s' \<and> thing_inv parents s' \<and>
      (\<forall>evs' ids. evs = evs' @ [ObjectsDeadvertised ids] \<longrightarrow>
        (\<forall>x \<in> set (jvals (to_registered s')). \<forall>a \<in> set ids. \<not> parent_is a x))"
    if "thing_inv parents s" "\<forall>ev \<in> set evs. event_ok parents ev" for s
    using that
  proof (induction evs arbitrary: s)
    case (Cons ev evs)
    have ok: "event_ok parents ev" "\<forall>ev \<in> set evs. event_ok parents ev" using Cons.prems(2) by simp_all
    obtain s1 where s1: "thing_event_step tf sf ev s = (Inr (), s1)" "thing_inv parents s1"
      "\<forall>ids. ev = ObjectsDeadvertised ids \<longrightarrow> (\<forall>x \<in> set (jvals (to_registered s1)). \<forall>i \<in> set ids. \<not> parent_is i x)"
      using thing_event_step_inv [OF Cons.prems(1) ok(1), of tf sf] by (elim exE conjE) (rule that)
    obtain s2 where s2: "thing_events_run tf sf evs s1 = Inr s2" "thing_inv parents s2"
      "\<forall>evs' ids. evs = evs' @ [ObjectsDeadvertised ids] \<longrightarrow>
        (\<forall>x \<in> set (jvals (to_registered s2)). \<forall>a \<in> set ids. \<not> parent_is a x)"
      using Cons.IH [OF s1(2) ok(2)] by (elim exE conjE) (rule that)
    have "\<forall>x \<in> set (jvals (to_registered s2)). \<forall>a \<in> set ids. \<not> parent_is a x"
      if "ev # evs = evs' @ [ObjectsDeadvertised ids]" for evs' ids
    proof (cases evs')
      case Nil
      then show ?thesis using that s1(3) s2(1) by simp
    next
      case (Cons e es)
      then have "evs = es @ [ObjectsDeadvertised ids]" using that by simp
      then show ?thesis using s2(3) by blast
    qed
    then show ?case using s1(1) s2(1,2) by simp
  qed simp
  have "thing_inv parents new_thing_observer"
    by (simp add: thing_inv_def new_thing_observer_def subs_ok_def registered_ok_def tracks_def apply_change_def change_fits_def)
  from run [OF this assms] obtain s where s: "thing_events_run tf sf evs new_thing_observer = Inr s" "thing_inv parents s"
    "\<forall>evs' ids. evs = evs' @ [ObjectsDeadvertised ids] \<longrightarrow>
      (\<forall>x \<in> set (jvals (to_registered s)). \<forall>a \<in> set ids. \<not> parent_is a x)"
    by (elim exE conjE) (rule that)
  have "x \<in> set (jvals (to_registered s))" if "jget (to_registered s) i = Some x" for i x
    using map_of_SomeD [OF that] by force
  then have "\<forall>evs' ids. evs = evs' @ [ObjectsDeadvertised ids] \<longrightarrow>
      (\<forall>i x. jget (to_registered s) i = Some x \<longrightarrow> (\<forall>a \<in> set ids. \<not> parent_is a x))"
    using s(3) by blast
  moreover have "fold apply_change (to_infos s) (Some Map.empty) = Some (map_of (to_registered s))"
    "map_of (to_observations s) = map_of (to_registered s)"
    using s(2) by (simp_all add: thing_inv_def tracks_def)
  ultimately show ?thesis using s(1) by (intro exI [of _ s]) (intro conjI)
qed

section \<open>Concrete runs\<close>

definition sample_thing :: "string \<Rightarrow> string \<Rightarrow> jsv" where
  "sample_thing i parent = jobj [(''objectId'', JStr i), (''parentObjectId'', JStr parent)]"

theorem sensor_infos_track_witness:
  "\<exists>s. thing_events_run None None
      [ThingSeen (sample_thing ''t'' ''a''), SensorAdvertisement (sample_thing ''s'' ''t''), ObjectsDeadvertised [''a'']]
      new_thing_observer = Inr s \<and> jget (to_registered s) ''s'' = None \<and> length (to_infos s) = 3"
proof -
  let ?evs = "[ThingSeen (sample_thing ''t'' ''a''), SensorAdvertisement (sample_thing ''s'' ''t'')] @ [ObjectsDeadvertised [''a'']]"
  have "\<forall>ev \<in> set ?evs. event_ok (\<lambda>_. JStr ''a'') ev"
    by (simp add: event_ok_def thing_ok_def sample_thing_def sensor_ok_def)
  from sensor_infos_track [OF this, of None None]
  obtain s where s: "thing_events_run None None ?evs new_thing_observer = Inr s"
    "\<forall>i x. jget (to_registered s) i = Some x \<longrightarrow> \<not> parent_is ''a'' x"
    by auto
  have "to_registered s = [] \<and> length (to_infos s) = 3"
    using s(1) by (auto simp: thing_event_step_def on_thing_received_def sample_thing_def prop_string_def active_things_def
        on_sensor_received_def jhas_def emit_change_def new_thing_observer_def on_thing_deadvertised_def Let_def thing_of_def
        jdel_def)
  then show ?thesis using s(1) by auto
qed

text \<open>A thing that is seen twice makes every sensor be reported twice; the deadvertisement of a sensor,
  which \<open>unregisterSensor\<close> publishes, is ignored.\<close>

lemma thing_seen_twice:
  "thing_events_run None None
      [ThingSeen (sample_thing ''t'' ''a''), ThingSeen (sample_thing ''t'' ''a''), SensorAdvertisement (sample_thing ''s'' ''t'')]
      new_thing_observer = Inr s \<Longrightarrow> length (to_infos s) = 3 \<and> ci_changed (last (to_infos s)) \<noteq> []"
  by (auto simp: thing_event_step_def on_thing_received_def sample_thing_def prop_string_def active_things_def
        on_sensor_received_def jhas_def emit_change_def new_thing_observer_def Let_def)

lemma deadvertised_sensor_stays:
  assumes "\<forall>e \<in> set (to_registered s). \<not> parent_is i (snd e)"
  shows "on_thing_deadvertised i s = (Inr (), s)"
proof -
  have "filter (\<lambda>e. parent_is i (snd e)) (to_registered s) = []" "filter (\<lambda>e. \<not> parent_is i (snd e)) (to_registered s) = to_registered s"
    using assms by (auto simp: filter_empty_conv filter_id_conv)
  then show ?thesis unfolding on_thing_deadvertised_def Let_def parent_is_def [symmetric] by simp
qed

end
