(* ===== verification/IoEndpoints.thy ===== *)
theory IoEndpoints
  imports CommManager
begin

text \<open>
  The controllers of IO sources and IO actors, \<open>src/src/io-routing/io-source-controller.ts\<close> and
  \<open>io-actor-controller.ts\<close>, on top of the communication manager: both keep, for the points the
  application uses, the state that the manager's observables report. The state is a pair of the
  manager and the controller. What the behavior subjects of a point emit, and the values that enter the
  pipeline of a source, are outputs; the pipelines themselves (sampling, debouncing) are the library's.
\<close>

section \<open>Delivery of IO states\<close>

text \<open>What the manager has emitted since \<open>m\<close>.\<close>

definition emitted_since :: "comm_manager \<Rightarrow> comm_manager \<Rightarrow> delivery list" where
  "emitted_since m m' = drop (length (ia_out m)) (ia_out m')"

text \<open>\<open>ioPoint.objectId\<close>.\<close>

definition point_id :: "jsv \<Rightarrow> string" where
  "point_id point = prop_string point ''objectId''"

section \<open>IO sources\<close>

datatype pipeline = Immediate | SampleTime jsv | DebounceTime jsv

record source_entry =
  si_source :: jsv
  si_subscribed :: bool
  si_rate :: jsv
  si_associated :: bool
  si_pipeline :: "pipeline option"

datatype endpoint_out = RateNext string jsv | AssociationNext string bool | ValuePushed string pipeline ev_data | ActorValueNext string ev_data

text \<open>The listeners are the active subscriptions on IO states, by the id of the point.\<close>

record source_controller =
  io_source_items :: "(string, source_entry) jmap"
  io_source_listeners :: "string list"
  io_source_out :: "endpoint_out list"

definition new_source_controller :: source_controller where
  "new_source_controller = \<lparr>io_source_items = [], io_source_listeners = [], io_source_out = []\<rparr>"

definition no_rate :: "jsv \<Rightarrow> bool" where
  "no_rate rate = (rate = JUndef \<or> rate = JNum (Fin 0))"

text \<open>\<open>updateStrategy\<close>: \<open>Default\<close>, \<open>None\<close>, \<open>Sample\<close>, \<open>Throttle\<close> are 0 to 3.\<close>

definition pipeline_for :: "jsv \<Rightarrow> jsv \<Rightarrow> pipeline" where
  "pipeline_for source rate =
    (let strategy = get_prop source ''updateStrategy'' in
     if no_rate rate then Immediate
     else if \<not> truthy strategy \<or> strategy = jint 2 then SampleTime rate
     else if strategy = jint 3 then DebounceTime rate
     else Immediate)"

definition update_update_rate_observable :: "source_entry \<Rightarrow> source_entry" where
  "update_update_rate_observable item =
    item\<lparr>si_pipeline := if si_associated item then Some (pipeline_for (si_source item) (si_rate item)) else None\<rparr>"

definition set_source_item :: "string \<Rightarrow> source_entry \<Rightarrow> source_controller \<Rightarrow> source_controller" where
  "set_source_item i item c = c\<lparr>io_source_items := jset i item (io_source_items c)\<rparr>"

definition source_out :: "endpoint_out list \<Rightarrow> source_controller \<Rightarrow> source_controller" where
  "source_out os c = c\<lparr>io_source_out := io_source_out c @ os\<rparr>"

definition on_source_state_changed :: "string \<Rightarrow> bool \<Rightarrow> jsv \<Rightarrow> source_controller \<Rightarrow> source_controller" where
  "on_source_state_changed sourceId hasAssociations updateRate c =
    (case jget (io_source_items c) sourceId of
       None \<Rightarrow> c
     | Some item \<Rightarrow>
         (let assocChanged = (si_associated item \<noteq> hasAssociations);
              rateChanged = (\<not> strict_eq (si_rate item) updateRate);
              item' = item\<lparr>si_associated := hasAssociations, si_rate := if rateChanged then updateRate else si_rate item\<rparr>
          in source_out ((if assocChanged then [AssociationNext sourceId hasAssociations] else []) @
               (if rateChanged then [RateNext sourceId updateRate] else []))
             (set_source_item sourceId
               (if assocChanged \<or> rateChanged then update_update_rate_observable item' else item') c)))"

definition ensure_source :: "jsv \<Rightarrow> comm_manager \<times> source_controller \<Rightarrow> comm_manager \<times> source_controller" where
  "ensure_source source s =
    (let (m, c) = s; sourceId = point_id source in
     case jget (io_source_items c) sourceId of
       Some item \<Rightarrow> s
     | None \<Rightarrow>
         (let ((hasAssociations, updateRate), m') = observe_io_state sourceId m;
              item = \<lparr>si_source = source, si_subscribed = True, si_rate = updateRate,
                      si_associated = hasAssociations, si_pipeline = None\<rparr>
          in (m', (set_source_item sourceId (update_update_rate_observable item) c)
               \<lparr>io_source_listeners := io_source_listeners c @ [sourceId]\<rparr>)))"

text \<open>Subscribing to an IO state calls the callback with the current state.\<close>

definition reregister_source :: "string \<Rightarrow> comm_manager \<times> source_controller \<Rightarrow> comm_manager \<times> source_controller" where
  "reregister_source sourceId s =
    (let (m, c) = s;
         ((hasAssociations, updateRate), m') = observe_io_state sourceId m;
         c1 = on_source_state_changed sourceId hasAssociations updateRate
           (c\<lparr>io_source_listeners := io_source_listeners c @ [sourceId]\<rparr>)
     in case jget (io_source_items c1) sourceId of
          None \<Rightarrow> (m', c1)
        | Some item \<Rightarrow>
            (m', source_out [RateNext sourceId updateRate, AssociationNext sourceId hasAssociations]
              (set_source_item sourceId (update_update_rate_observable
                (item\<lparr>si_subscribed := True, si_rate := updateRate, si_associated := hasAssociations\<rparr>)) c1)))"

definition reregister_all_sources :: "comm_manager \<times> source_controller \<Rightarrow> comm_manager \<times> source_controller" where
  "reregister_all_sources s = fold reregister_source (jkeys (io_source_items (snd s))) s"

definition deregister_all_sources :: "source_controller \<Rightarrow> source_controller" where
  "deregister_all_sources c =
    c\<lparr>io_source_listeners := fold (\<lambda>(i, item) ls. if si_subscribed item then remove1 i ls else ls)
         (io_source_items c) (io_source_listeners c),
      io_source_items := map (\<lambda>(i, item). (i, item\<lparr>si_subscribed := False, si_pipeline := None\<rparr>)) (io_source_items c)\<rparr>"

definition publish_to_source ::
  "jsv \<Rightarrow> ev_data \<Rightarrow> comm_manager \<times> source_controller \<Rightarrow> comm_manager \<times> source_controller" where
  "publish_to_source source value1 s =
    (let (m, c) = ensure_source source s in
     case jget (io_source_items c) (point_id source) of
       None \<Rightarrow> (m, c)
     | Some item \<Rightarrow>
         (if \<not> si_associated item then (m, c)
          else
            (let value2 = (if no_rate (si_rate item) \<or> get_prop source ''updateStrategy'' = jint 1 then value1
                  else case value1 of
                    JsonData v \<Rightarrow> (if typeof v \<in> {TString, TBoolean, TNumber, TObject} then JsonData (js_clone v) else value1)
                  | _ \<Rightarrow> value1)
             in case si_pipeline item of
                  None \<Rightarrow> (m, c)
                | Some p \<Rightarrow> (m, source_out [ValuePushed (point_id source) p value2] c))))"

definition is_source_associated :: "jsv \<Rightarrow> comm_manager \<times> source_controller \<Rightarrow> bool" where
  "is_source_associated source s =
    (case jget (io_source_items (snd (ensure_source source s))) (point_id source) of
       Some item \<Rightarrow> si_associated item | None \<Rightarrow> False)"

text \<open>What the manager emits reaches each subscription on the IO state of a source; a completed subject
  loses its subscriptions.\<close>

definition deliver_to_sources :: "delivery list \<Rightarrow> source_controller \<Rightarrow> source_controller" where
  "deliver_to_sources ds c = fold (\<lambda>d c. case d of
       IoStateNext i b r \<Rightarrow>
         (on_source_state_changed i b r ^^ length (filter (\<lambda>j. j = i) (io_source_listeners c))) c
     | IoStateComplete i \<Rightarrow> c\<lparr>io_source_listeners := filter (\<lambda>j. j \<noteq> i) (io_source_listeners c)\<rparr>
     | _ \<Rightarrow> c) ds c"

section \<open>IO actors\<close>

record actor_entry =
  ai_actor :: jsv
  ai_associated :: bool
  ai_value :: ev_data

record actor_controller =
  io_actor_items :: "(string, actor_entry) jmap"
  io_actor_state_listeners :: "string list"
  io_actor_value_listeners :: "string list"
  io_actor_out :: "endpoint_out list"

definition new_actor_controller :: actor_controller where
  "new_actor_controller =
    \<lparr>io_actor_items = [], io_actor_state_listeners = [], io_actor_value_listeners = [], io_actor_out = []\<rparr>"

definition set_actor_item :: "string \<Rightarrow> actor_entry \<Rightarrow> actor_controller \<Rightarrow> actor_controller" where
  "set_actor_item i item c = c\<lparr>io_actor_items := jset i item (io_actor_items c)\<rparr>"

definition actor_out :: "endpoint_out list \<Rightarrow> actor_controller \<Rightarrow> actor_controller" where
  "actor_out os c = c\<lparr>io_actor_out := io_actor_out c @ os\<rparr>"

definition on_actor_state_changed :: "string \<Rightarrow> bool \<Rightarrow> actor_controller \<Rightarrow> actor_controller" where
  "on_actor_state_changed actorId hasAssociations c =
    (case jget (io_actor_items c) actorId of
       None \<Rightarrow> c
     | Some item \<Rightarrow>
         (if ai_associated item \<noteq> hasAssociations
          then actor_out [AssociationNext actorId hasAssociations]
            (set_actor_item actorId (item\<lparr>ai_associated := hasAssociations\<rparr>) c)
          else c))"

definition on_actor_value_changed :: "string \<Rightarrow> ev_data \<Rightarrow> actor_controller \<Rightarrow> actor_controller" where
  "on_actor_value_changed actorId value1 c =
    (case jget (io_actor_items c) actorId of
       None \<Rightarrow> c
     | Some item \<Rightarrow> actor_out [ActorValueNext actorId value1] (set_actor_item actorId (item\<lparr>ai_value := value1\<rparr>) c))"

definition listen_to_actor :: "string \<Rightarrow> actor_controller \<Rightarrow> actor_controller" where
  "listen_to_actor actorId c =
    c\<lparr>io_actor_state_listeners := io_actor_state_listeners c @ [actorId],
      io_actor_value_listeners := io_actor_value_listeners c @ [actorId]\<rparr>"

definition ensure_actor :: "jsv \<Rightarrow> comm_manager \<times> actor_controller \<Rightarrow> comm_manager \<times> actor_controller" where
  "ensure_actor actor s =
    (let (m, c) = s; actorId = point_id actor in
     case jget (io_actor_items c) actorId of
       Some item \<Rightarrow> s
     | None \<Rightarrow>
         (let ((hasAssociations, updateRate), m') = observe_io_state actorId m;
              m'' = observe_io_value actorId m'
          in (m'', set_actor_item actorId
               \<lparr>ai_actor = actor, ai_associated = hasAssociations, ai_value = NoData\<rparr> (listen_to_actor actorId c))))"

definition reregister_actor :: "string \<Rightarrow> comm_manager \<times> actor_controller \<Rightarrow> comm_manager \<times> actor_controller" where
  "reregister_actor actorId s =
    (let (m, c) = s;
         ((hasAssociations, updateRate), m') = observe_io_state actorId m;
         m'' = observe_io_value actorId m';
         c1 = on_actor_state_changed actorId hasAssociations (listen_to_actor actorId c)
     in case jget (io_actor_items c1) actorId of
          None \<Rightarrow> (m'', c1)
        | Some item \<Rightarrow>
            (m'', actor_out [AssociationNext actorId hasAssociations]
              (set_actor_item actorId (item\<lparr>ai_associated := hasAssociations\<rparr>) c1)))"

definition reregister_all_actors :: "comm_manager \<times> actor_controller \<Rightarrow> comm_manager \<times> actor_controller" where
  "reregister_all_actors s = fold reregister_actor (jkeys (io_actor_items (snd s))) s"

definition get_actor_value :: "jsv \<Rightarrow> comm_manager \<times> actor_controller \<Rightarrow> ev_data" where
  "get_actor_value actor s =
    (case jget (io_actor_items (snd (ensure_actor actor s))) (point_id actor) of
       Some item \<Rightarrow> ai_value item | None \<Rightarrow> NoData)"

definition is_actor_associated :: "jsv \<Rightarrow> comm_manager \<times> actor_controller \<Rightarrow> bool" where
  "is_actor_associated actor s =
    (case jget (io_actor_items (snd (ensure_actor actor s))) (point_id actor) of
       Some item \<Rightarrow> ai_associated item | None \<Rightarrow> False)"

definition listeners_of :: "string \<Rightarrow> string list \<Rightarrow> nat" where
  "listeners_of i ls = length (filter (\<lambda>j. j = i) ls)"

definition deliver_to_actors :: "delivery list \<Rightarrow> actor_controller \<Rightarrow> actor_controller" where
  "deliver_to_actors ds c = fold (\<lambda>d c. case d of
       IoStateNext i b r \<Rightarrow> (on_actor_state_changed i b ^^ listeners_of i (io_actor_state_listeners c)) c
     | IoStateComplete i \<Rightarrow>
         c\<lparr>io_actor_state_listeners := filter (\<lambda>j. j \<noteq> i) (io_actor_state_listeners c)\<rparr>
     | IoValueNext i v \<Rightarrow> (on_actor_value_changed i v ^^ listeners_of i (io_actor_value_listeners c)) c
     | IoValueComplete i \<Rightarrow>
         c\<lparr>io_actor_value_listeners := filter (\<lambda>j. j \<noteq> i) (io_actor_value_listeners c)\<rparr>
     | _ \<Rightarrow> c) ds c"

section \<open>Steps of the agent\<close>

text \<open>The application uses a point or publishes, an Associate event or an IO value arrives, the manager
  stops (its operating state first, then the observables complete) or starts.\<close>

datatype endpoint_event =
    UseSource jsv
  | UseActor jsv
  | PublishValue jsv ev_data
  | AssociateReceived associate_data
  | IoValueReceived event_like
  | EndpointsStopping comm_options
  | EndpointsStarting

record endpoints =
  ep_manager :: comm_manager
  ep_sources :: source_controller
  ep_actors :: actor_controller

definition deliver :: "comm_manager \<Rightarrow> endpoints \<Rightarrow> endpoints" where
  "deliver m' s =
    s\<lparr>ep_manager := m', ep_sources := deliver_to_sources (emitted_since (ep_manager s) m') (ep_sources s),
      ep_actors := deliver_to_actors (emitted_since (ep_manager s) m') (ep_actors s)\<rparr>"

definition with_sources ::
  "(comm_manager \<times> source_controller \<Rightarrow> comm_manager \<times> source_controller) \<Rightarrow> endpoints \<Rightarrow> endpoints" where
  "with_sources f s = (let (m, c) = f (ep_manager s, ep_sources s) in s\<lparr>ep_manager := m, ep_sources := c\<rparr>)"

definition with_actors ::
  "(comm_manager \<times> actor_controller \<Rightarrow> comm_manager \<times> actor_controller) \<Rightarrow> endpoints \<Rightarrow> endpoints" where
  "with_actors f s = (let (m, c) = f (ep_manager s, ep_actors s) in s\<lparr>ep_manager := m, ep_actors := c\<rparr>)"

definition endpoint_step :: "(nat \<Rightarrow> string) \<Rightarrow> endpoint_event \<Rightarrow> endpoints \<Rightarrow> endpoints" where
  "endpoint_step uuid ev s =
    (case ev of
       UseSource source \<Rightarrow> with_sources (ensure_source source) s
     | UseActor actor \<Rightarrow> with_actors (ensure_actor actor) s
     | PublishValue source v \<Rightarrow> with_sources (publish_to_source source v) s
     | AssociateReceived d \<Rightarrow> deliver (handle_associate d (ep_manager s)) s
     | IoValueReceived el \<Rightarrow> deliver (dispatch_io_value el (ep_manager s)) s
     | EndpointsStopping options \<Rightarrow>
         deliver (unjoin_binding uuid options (ep_manager s))
           (if cm_started (ep_manager s) then s\<lparr>ep_sources := deregister_all_sources (ep_sources s)\<rparr> else s)
     | EndpointsStarting \<Rightarrow>
         (case join_binding (ep_manager s) of
            Inl e \<Rightarrow> s
          | Inr m' \<Rightarrow>
              (let s' = deliver m' s
               in if cm_started (ep_manager s) then s'
                  else with_actors reregister_all_actors (with_sources reregister_all_sources s'))))"

end
