(* ===== verification/IoEndpointsProps.thy ===== *)
theory IoEndpointsProps
  imports IoEndpoints ContainerProps
begin

text \<open>
  The controllers of IO points follow the communication manager: while it is started, what they know of
  a point is the manager's state of it, and values flow only while their source is associated.
\<close>

section \<open>What the manager emits\<close>

definition is_io :: "delivery \<Rightarrow> bool" where
  "is_io d = (case d of IoStateNext _ _ _ \<Rightarrow> True | IoStateComplete _ \<Rightarrow> True | IoValueNext _ _ \<Rightarrow> True
     | IoValueComplete _ \<Rightarrow> True | _ \<Rightarrow> False)"

definition emits :: "comm_manager \<Rightarrow> comm_manager \<Rightarrow> delivery list \<Rightarrow> bool" where
  "emits m m' io = (\<exists>ds. ia_out m' = ia_out m @ ds \<and> filter is_io ds = io)"

lemma emits_refl: "ia_out m' = ia_out m \<Longrightarrow> emits m m' []"
  by (simp add: emits_def)

lemma emits_trans: "emits m m1 io \<Longrightarrow> emits m1 m2 io' \<Longrightarrow> emits m m2 (io @ io')"
  by (auto simp: emits_def)

lemma emits_since: "emits m m' io \<Longrightarrow> filter is_io (emitted_since m m') = io"
  by (auto simp: emits_def emitted_since_def)

lemma deliver_filter:
  "deliver_to_sources (filter is_io ds) c = deliver_to_sources ds c"
  "deliver_to_actors (filter is_io ds) c' = deliver_to_actors ds c'"
  unfolding deliver_to_sources_def deliver_to_actors_def
  by (induction ds arbitrary: c c') (simp_all add: is_io_def split: delivery.splits)

text \<open>An IO state is emitted exactly when it is set.\<close>

type_synonym io_states = "string \<rightharpoonup> bool \<times> jsv"

fun set_states :: "delivery list \<Rightarrow> io_states \<Rightarrow> io_states" where
  "set_states [] f = f"
| "set_states (IoStateNext i b r # ds) f = set_states ds (f(i \<mapsto> (b, r)))"
| "set_states (_ # ds) f = set_states ds f"

definition states_of :: "comm_manager \<Rightarrow> io_states" where
  "states_of m = map_of (ia_states m)"

definition known_next :: "io_states \<Rightarrow> delivery \<Rightarrow> bool" where
  "known_next f d = (\<exists>i b r. d = IoStateNext i b r \<and> i \<in> dom f)"

definition stat :: "comm_manager \<Rightarrow> bool \<times> delivery list \<times> string list \<times> (string, bool \<times> jsv) jmap" where
  "stat s = (cm_started s, ia_out s, ia_values s, ia_states s)"

lemma stat_disassociate: "stat (disassociate_io_actor_items src act c n s) = stat s"
proof -
  have 1: "stat (t\<lparr>ia_actors := a, ia_binding := b\<rparr>) = stat t" "stat (t\<lparr>ia_actors := a\<rparr>) = stat t" for t a b
    by (simp_all add: stat_def)
  show ?thesis unfolding disassociate_io_actor_items_def Let_def
    by (subst fold_keeps [where g = stat]) (simp_all add: 1)
qed

lemma stat_associate: "stat (associate_io_actor_items src actor act route ext s) = stat s"
proof -
  have "stat (s\<lparr>ia_actors := a, ia_binding := b\<rparr>) = stat s" "stat (s\<lparr>ia_actors := a\<rparr>) = stat s" for s a b
    by (simp_all add: stat_def)
  then show ?thesis by (simp add: associate_io_actor_items_def Let_def stat_disassociate split: option.splits)
qed

lemma stat_update: "stat (update_io_source_items src act route rate s) = stat s"
proof -
  have 1: "stat (s\<lparr>ia_sources := a\<rparr>) = stat s" for s a by (simp add: stat_def)
  have 2: "stat (fold (\<lambda>actorId. disassociate_io_actor_items src actorId r n) as s) = stat s" for as r n s
    by (rule fold_keeps) (rule stat_disassociate)
  show ?thesis by (auto simp: update_io_source_items_def Let_def 1 2 split: option.splits)
qed

text \<open>The states follow what is emitted.\<close>

definition follows :: "comm_manager \<Rightarrow> comm_manager \<Rightarrow> bool" where
  "follows m m' =
    (\<exists>ds. ia_out m' = ia_out m @ ds \<and> list_all (known_next (states_of m)) ds \<and>
       states_of m' = set_states ds (states_of m) \<and> dom (states_of m') = dom (states_of m) \<and>
       cm_started m' = cm_started m \<and> ia_values m' = ia_values m)"

lemma follows_stat: "stat m' = stat m \<Longrightarrow> follows m m'"
  by (auto simp: follows_def stat_def states_of_def)

lemma set_states_append: "set_states (ds @ ds') f = set_states ds' (set_states ds f)"
proof (induction ds arbitrary: f)
  case (Cons d ds)
  then show ?case by (cases d) (simp_all only: append_Cons set_states.simps)
qed simp

lemma follows_trans:
  assumes "follows m m1" "follows m1 m2"
  shows "follows m m2"
proof -
  from assms obtain ds ds' where d: "ia_out m1 = ia_out m @ ds" "list_all (known_next (states_of m)) ds"
      "states_of m1 = set_states ds (states_of m)" "dom (states_of m1) = dom (states_of m)"
      "ia_out m2 = ia_out m1 @ ds'" "list_all (known_next (states_of m1)) ds'"
      "states_of m2 = set_states ds' (states_of m1)" "dom (states_of m2) = dom (states_of m1)"
      "cm_started m1 = cm_started m" "cm_started m2 = cm_started m1" "ia_values m1 = ia_values m" "ia_values m2 = ia_values m1"
    unfolding follows_def by (elim exE conjE) (rule that)
  have "known_next (states_of m1) = known_next (states_of m)" unfolding known_next_def d(4) by (rule refl)
  with d(6) have "list_all (known_next (states_of m)) ds'" by simp
  then show ?thesis unfolding follows_def
    using d by (intro exI [of _ "ds @ ds'"]) (simp add: set_states_append)
qed

lemma follows_io_state_next: "follows m (io_state_next p b r m)"
proof (cases "jhas (ia_states m) p")
  case True
  then show ?thesis unfolding follows_def
    by (intro exI [of _ "[IoStateNext p b r]"])
      (auto simp: io_state_next_def out_def states_of_def known_next_def jhas_def)
qed (simp add: io_state_next_def follows_stat)

lemma follows_handle_associate: "follows m (handle_associate d m)"
proof -
  have 1: "follows m (if own then update_io_source_items src act r rate m else m)" for own src act r rate
    by (simp add: follows_stat stat_update)
  have 2: "follows t (case actor of None \<Rightarrow> t | Some a \<Rightarrow> (case r of
      Some route \<Rightarrow> associate_io_actor_items src a act route ext t
    | None \<Rightarrow> disassociate_io_actor_items src act None None t))" for t actor r src act ext
    by (auto simp: follows_stat stat_associate stat_disassociate split: option.splits)
  have 3: "follows t (if own then (case jget (ia_sources t) src of
      None \<Rightarrow> io_state_next src False JUndef t
    | Some (route, actorIds, rate) \<Rightarrow> io_state_next src True rate t) else t)" for t own src
    by (auto simp: follows_io_state_next follows_stat split: option.splits)
  have 4: "follows t (case actor of None \<Rightarrow> t | Some a \<Rightarrow> io_state_next act (g t) JUndef t)" for t actor act g
    by (auto simp: follows_io_state_next follows_stat split: option.splits)
  show ?thesis
    unfolding handle_associate_def Let_def
    by (split if_split, intro conjI impI follows_stat [OF refl])
      (rule follows_trans [OF follows_trans [OF follows_trans [OF 1 2] 3] 4])
qed

lemma handle_associate_emits:
  obtains ds where "emits m (handle_associate d m) ds" "list_all (known_next (states_of m)) ds"
    "states_of (handle_associate d m) = set_states ds (states_of m)"
    "dom (states_of (handle_associate d m)) = dom (states_of m)"
    "cm_started (handle_associate d m) = cm_started m" "ia_values (handle_associate d m) = ia_values m"
proof -
  obtain ds where ds: "ia_out (handle_associate d m) = ia_out m @ ds" "list_all (known_next (states_of m)) ds"
    "states_of (handle_associate d m) = set_states ds (states_of m)"
    "dom (states_of (handle_associate d m)) = dom (states_of m)"
    "cm_started (handle_associate d m) = cm_started m" "ia_values (handle_associate d m) = ia_values m"
    using follows_handle_associate [of m d] unfolding follows_def by (elim exE conjE) (rule that)
  have "filter is_io ds = ds" using ds(2) by (auto simp: filter_id_conv list_all_iff known_next_def is_io_def)
  then have "emits m (handle_associate d m) ds" using ds(1) by (auto simp: emits_def)
  then show thesis using ds that by blast
qed

text \<open>Stopping completes all observables; starting emits nothing of IO.\<close>

lemma unobserve_emits: "emits m (unobserve_observed_items m) (io_completes m)"
proof -
  have c: "filter is_io (concat (map completes obs)) = []" for obs
    by (induction obs) (auto simp: completes_def is_io_def split: observer.splits)
  have req: "emits t (fold complete_request xs t) []" for xs t
  proof (induction xs arbitrary: t)
    case (Cons x xs)
    have "emits t (complete_request x t) []" by (auto simp: emits_def complete_request_out c)
    from emits_trans [OF this Cons] show ?case by simp
  qed (simp add: emits_refl)
  have resp: "emits t (fold complete_response xs t) []" for xs t
  proof (induction xs arbitrary: t)
    case (Cons x xs)
    have "emits t (complete_response x t) []" by (auto simp: emits_def complete_response_out c)
    from emits_trans [OF this Cons] show ?case by simp
  qed (simp add: emits_refl)
  have "filter is_io (io_completes m) = io_completes m"
    by (auto simp: filter_id_conv io_completes_def is_io_def)
  then have io: "emits m (unobserve_io_state_and_value m) (io_completes m)" by (simp add: emits_def unobserve_io_out)
  have init: "emits t (init_observed_items t) []" for t by (simp add: emits_refl init_observed_items_def)
  from emits_trans [OF emits_trans [OF emits_trans [OF io req] resp] init] show ?thesis
    by (simp add: unobserve_observed_items_def Let_def)
qed

lemma update_operating_state_emits:
  "emits m (update_operating_state b m) []" "ia_states (update_operating_state b m) = ia_states m"
  "ia_values (update_operating_state b m) = ia_values m"
  by (auto simp: emits_def update_operating_state_def out_def is_io_def)

lemma unjoin_binding_emits:
  "emits m (unjoin_binding uuid options m) (io_completes m)" "states_of (unjoin_binding uuid options m) = Map.empty"
  "ia_values (unjoin_binding uuid options m) = []" "\<not> cm_started (unjoin_binding uuid options m)"
proof -
  let ?m1 = "update_operating_state False m"
  let ?m2 = "unobserve_observed_items ?m1"
  have s: "ia_out (unjoin_binding uuid options m) = ia_out ?m2" "ia_states (unjoin_binding uuid options m) = ia_states ?m2"
    "ia_values (unjoin_binding uuid options m) = ia_values ?m2"
    by (simp_all add: unjoin_binding_def Let_def init_options_def)
  have e: "ia_states ?m2 = []" "ia_values ?m2 = []"
    by (simp_all add: unobserve_observed_items_def Let_def init_observed_items_def)
  show "states_of (unjoin_binding uuid options m) = Map.empty" "ia_values (unjoin_binding uuid options m) = []"
    by (simp_all add: states_of_def s e)
  have "io_completes ?m1 = io_completes m" by (simp add: io_completes_def update_operating_state_emits)
  then have "emits m ?m2 (io_completes m)"
    using emits_trans [OF update_operating_state_emits(1) unobserve_emits [of ?m1]] by simp
  then show "emits m (unjoin_binding uuid options m) (io_completes m)" by (simp add: emits_def s)
  show "\<not> cm_started (unjoin_binding uuid options m)" using unjoin_binding_reports(2) by (simp add: flags_def)
qed

lemma observe_subscribe_states:
  "ia_states (case observe_request t f s of (i, s') \<Rightarrow> subscribe_request i obs s') = ia_states s"
  "ia_values (case observe_request t f s of (i, s') \<Rightarrow> subscribe_request i obs s') = ia_values s"
  by (auto simp: observe_request_def Let_def subscribe_request_def set_request_item_def split: option.splits)

lemma join_observations_states:
  "ia_states (observe_associate s) = ia_states s" "ia_values (observe_associate s) = ia_values s"
  "ia_states (observe_discover_io_nodes s) = ia_states s" "ia_values (observe_discover_io_nodes s) = ia_values s"
  "ia_states (observe_discover_identity s) = ia_states s" "ia_values (observe_discover_identity s) = ia_values s"
proof -
  have f: "ia_states (fold (\<lambda>node s'. (let (i, s'') = observe_request Associate (Some (in_name node)) s'
        in subscribe_request i HandleAssociate s'')) ns t) = ia_states t \<and>
      ia_values (fold (\<lambda>node s'. (let (i, s'') = observe_request Associate (Some (in_name node)) s'
        in subscribe_request i HandleAssociate s'')) ns t) = ia_values t" for ns t
    by (induction ns arbitrary: t) (simp_all add: observe_subscribe_states)
  show "ia_states (observe_associate s) = ia_states s" "ia_values (observe_associate s) = ia_values s"
    unfolding observe_associate_def using f by blast+
qed (simp_all add: observe_discover_io_nodes_def observe_discover_identity_def observe_subscribe_states)

lemma join_binding_emits:
  assumes "join_binding m = Inr m'"
  shows "emits m m' []" "states_of m' = states_of m" "ia_values m' = ia_values m" "cm_started m'"
proof -
  obtain opts where m': "m' = update_operating_state True
      (observe_discover_identity (observe_discover_io_nodes (observe_associate (on_binding (join opts) m))))"
    using assms by (auto simp: join_binding_def Let_def rbind_Inr_conv)
  have "emits m (observe_discover_identity (observe_discover_io_nodes (observe_associate (on_binding (join opts) m)))) []"
    by (rule emits_refl) (simp add: join_observations_quiet)
  from emits_trans [OF this update_operating_state_emits(1)] show "emits m m' []" by (simp add: m')
  show "states_of m' = states_of m" "ia_values m' = ia_values m"
    by (simp_all add: m' states_of_def update_operating_state_emits join_observations_states)
  show "cm_started m'" using join_binding_reports(2) [OF assms] by (simp add: flags_def)
qed

lemma observe_io_state_spec:
  assumes "observe_io_state i m = (st, m')"
  shows "states_of m' = (states_of m)(i \<mapsto> st)" "ia_out m' = ia_out m" "ia_values m' = ia_values m"
    "cm_started m' = cm_started m" "states_of m i \<noteq> None \<Longrightarrow> states_of m i = Some st"
  using assms by (auto simp: observe_io_state_def states_of_def Let_def fun_eq_iff split: option.splits)

text \<open>Observing adds to the states of the manager and changes nothing else.\<close>

definition observes :: "comm_manager \<Rightarrow> comm_manager \<Rightarrow> bool" where
  "observes m m' = (states_of m \<subseteq>\<^sub>m states_of m' \<and> ia_out m' = ia_out m \<and> cm_started m' = cm_started m)"

lemma observes_refl: "observes m m"
  by (simp add: observes_def)

lemma observes_trans: "observes m m1 \<Longrightarrow> observes m1 m2 \<Longrightarrow> observes m m2"
  by (auto simp: observes_def intro: map_le_trans)

lemma observe_io_state_observes:
  assumes "observe_io_state i m = (st, m')"
  shows "observes m m'" "states_of m' i = Some st"
  using observe_io_state_spec [OF assms] by (auto simp: observes_def map_le_def)

lemma observe_io_value_observes: "observes m (observe_io_value i m)" "states_of (observe_io_value i m) = states_of m"
  by (simp_all add: observes_def observe_io_value_def states_of_def)

section \<open>The contract of a controller of points\<close>

text \<open>A controller keeps its \<open>points\<close>, some of which are \<open>listening\<close> to their IO state; a point
  \<open>agrees\<close> with a state, or is \<open>idle\<close>: nothing flows through it.\<close>

definition is_state :: "delivery \<Rightarrow> bool" where
  "is_state d = (case d of IoStateNext _ _ _ \<Rightarrow> True | IoStateComplete _ \<Rightarrow> True | _ \<Rightarrow> False)"

locale io_points =
  fixes points :: "'c \<Rightarrow> string set"
    and listening :: "'c \<Rightarrow> string list"
    and agrees :: "string \<Rightarrow> bool \<times> jsv \<Rightarrow> 'c \<Rightarrow> bool"
    and idle :: "string \<Rightarrow> 'c \<Rightarrow> bool"
    and on_state :: "string \<Rightarrow> bool \<Rightarrow> jsv \<Rightarrow> 'c \<Rightarrow> 'c"
    and leave :: "string \<Rightarrow> 'c \<Rightarrow> 'c"
    and other :: "delivery \<Rightarrow> 'c \<Rightarrow> 'c"
    and deliver_all :: "delivery list \<Rightarrow> 'c \<Rightarrow> 'c"
  assumes on_state_keeps: "points (on_state i b r c) = points c" "listening (on_state i b r c) = listening c"
    and on_state_others: "j \<noteq> i \<Longrightarrow> agrees j st (on_state i b r c) = agrees j st c"
      "j \<noteq> i \<Longrightarrow> idle j (on_state i b r c) = idle j c"
    and on_state_agrees: "agrees i st c \<Longrightarrow> agrees i (b, r) (on_state i b r c)"
    and on_state_idle: "i \<in> points c \<Longrightarrow> idle i c \<or> agrees i st c \<Longrightarrow> idle i (on_state i False r c)"
    and leave_keeps: "points (leave i c) = points c" "listening (leave i c) = filter (\<lambda>j. j \<noteq> i) (listening c)"
      "agrees j st (leave i c) = agrees j st c" "idle j (leave i c) = idle j c"
    and other_keeps: "points (other d c) = points c" "listening (other d c) = listening c"
      "agrees j st (other d c) = agrees j st c" "idle j (other d c) = idle j c"
    and deliver_Nil: "deliver_all [] c = c"
    and deliver_next: "deliver_all (IoStateNext i b r # ds) c =
      deliver_all ds ((on_state i b r ^^ length (filter (\<lambda>j. j = i) (listening c))) c)"
    and deliver_complete: "deliver_all (IoStateComplete i # ds) c = deliver_all ds (leave i c)"
    and deliver_other: "\<not> is_state d \<Longrightarrow>
      deliver_all (d # ds) c = deliver_all ds (other d c)"
begin

text \<open>The points that listen agree with the states \<open>f\<close>, the rest are idle and among \<open>U\<close>.\<close>

definition in_step :: "io_states \<Rightarrow> string set \<Rightarrow> 'c \<Rightarrow> bool" where
  "in_step f U c =
    (set (listening c) \<subseteq> points c \<and>
     (\<forall>i \<in> points c. if i \<in> set (listening c) then \<exists>st. f i = Some st \<and> agrees i st c else i \<in> U \<and> idle i c))"

lemma in_stepI:
  assumes "set (listening c) \<subseteq> points c"
    "\<And>i. i \<in> set (listening c) \<Longrightarrow> \<exists>st. f i = Some st \<and> agrees i st c"
    "\<And>i. i \<in> points c \<Longrightarrow> i \<notin> set (listening c) \<Longrightarrow> i \<in> U \<and> idle i c"
  shows "in_step f U c"
  using assms by (simp add: in_step_def)

lemma in_stepD:
  assumes "in_step f U c"
  shows "set (listening c) \<subseteq> points c"
    "i \<in> set (listening c) \<Longrightarrow> \<exists>st. f i = Some st \<and> agrees i st c"
    "i \<in> points c \<Longrightarrow> i \<notin> set (listening c) \<Longrightarrow> i \<in> U \<and> idle i c"
  using assms unfolding in_step_def by (auto split: if_splits)

lemma on_states_keep:
  "points ((on_state i b r ^^ n) c) = points c" "listening ((on_state i b r ^^ n) c) = listening c"
  "j \<noteq> i \<Longrightarrow> agrees j st ((on_state i b r ^^ n) c) = agrees j st c"
  "j \<noteq> i \<Longrightarrow> idle j ((on_state i b r ^^ n) c) = idle j c"
  by (induction n) (simp_all add: on_state_keeps on_state_others)

lemma on_states_agree: "agrees i st c \<Longrightarrow> agrees i (b, r) ((on_state i b r ^^ Suc n) c)"
  by (induction n) (auto intro: on_state_agrees)

lemma on_states_idle:
  assumes "i \<in> points c" "idle i c \<or> agrees i st c"
  shows "idle i ((on_state i False r ^^ Suc n) c)"
proof (induction n)
  case 0
  then show ?case using on_state_idle [OF assms] by simp
next
  case (Suc n)
  have "i \<in> points ((on_state i False r ^^ Suc n) c)" by (simp add: on_state_keeps on_states_keep assms)
  from on_state_idle [OF this disjI1 [OF Suc]] show ?case by simp
qed

lemma listening_none: "i \<notin> set ls \<Longrightarrow> filter (\<lambda>j. j = i) ls = []"
  by (auto simp: filter_empty_conv)

lemma listening_count:
  assumes "i \<in> set ls"
  obtains n where "length (filter (\<lambda>j. j = i) ls) = Suc n"
proof (cases "length (filter (\<lambda>j. j = i) ls)")
  case 0
  then have "filter (\<lambda>j. j = i) ls = []" by simp
  with assms show ?thesis by (auto simp only: filter_empty_conv)
qed (rule that)

lemma in_step_next:
  assumes "in_step f U c"
  shows "in_step (f(i \<mapsto> (b, r))) U ((on_state i b r ^^ length (filter (\<lambda>j. j = i) (listening c))) c)" (is "in_step _ _ ?c")
proof (rule in_stepI)
  note d = in_stepD [OF assms]
  show "set (listening ?c) \<subseteq> points ?c" using d(1) by (simp add: on_states_keep)
  fix j
  show "\<exists>st. (f(i \<mapsto> (b, r))) j = Some st \<and> agrees j st ?c" if j: "j \<in> set (listening ?c)"
  proof (cases "j = i")
    case True
    then obtain st where "agrees i st c" using d(2) [of i] j by (auto simp: on_states_keep)
    moreover have "i \<in> set (listening c)" using j True by (simp add: on_states_keep)
    moreover obtain n where "length (filter (\<lambda>j. j = i) (listening c)) = Suc n"
      using listening_count [OF calculation(2)] .
    ultimately show ?thesis using True on_states_agree [of i st c b r n] by simp
  qed (use d(2) [of j] j in \<open>simp add: on_states_keep\<close>)
  show "j \<in> U \<and> idle j ?c" if "j \<in> points ?c" "j \<notin> set (listening ?c)"
  proof (cases "j = i")
    case True
    then have "filter (\<lambda>j. j = i) (listening c) = []" using that by (intro listening_none) (simp add: on_states_keep)
    then have "?c = c" by simp
    then show ?thesis using d(3) [of j] that by simp
  qed (use d(3) [of j] that in \<open>simp add: on_states_keep\<close>)
qed

lemma in_step_deliver:
  assumes "in_step f U c" "list_all (known_next g) ds"
  shows "in_step (set_states ds f) U (deliver_all ds c) \<and> points (deliver_all ds c) = points c"
  using assms
proof (induction ds arbitrary: f c)
  case Nil
  then show ?case by (simp add: deliver_Nil)
next
  case (Cons d ds)
  then obtain i b r where d: "d = IoStateNext i b r" by (auto simp: known_next_def)
  have "list_all (known_next g) ds" using Cons.prems(2) by simp
  from Cons.IH [OF in_step_next [OF Cons.prems(1)] this]
  show ?case by (simp only: d deliver_next on_states_keep set_states.simps)
qed

lemma in_step_values:
  assumes "in_step f U c" "\<forall>d \<in> set ds. \<exists>i v. d = IoValueNext i v"
  shows "in_step f U (deliver_all ds c) \<and> points (deliver_all ds c) = points c"
  using assms
proof (induction ds arbitrary: c)
  case Nil
  then show ?case by (simp add: deliver_Nil)
next
  case (Cons d ds)
  then obtain i v where d: "d = IoValueNext i v" by auto
  have "in_step f U (other d c)"
    using Cons.prems(1) unfolding in_step_def other_keeps .
  from Cons.IH [OF this] Cons.prems(2) show ?case by (simp add: d deliver_other is_state_def other_keeps)
qed

lemma in_step_mono: "in_step f U c \<Longrightarrow> f \<subseteq>\<^sub>m f' \<Longrightarrow> U \<subseteq> U' \<Longrightarrow> in_step f' U' c"
  unfolding in_step_def map_le_def by (metis domI subsetD)

text \<open>A point is set to the state that is observed and listens from then on.\<close>

lemma in_step_join:
  assumes "in_step f U c" "f \<subseteq>\<^sub>m f'" "f' i = Some st"
    "points c' = insert i (points c)" "set (listening c') = insert i (set (listening c))"
    "agrees i st c'" "\<And>j st. j \<noteq> i \<Longrightarrow> agrees j st c' = agrees j st c"
    "\<And>j. j \<noteq> i \<Longrightarrow> idle j c' = idle j c"
  shows "in_step f' (U - {i}) c'"
proof (rule in_stepI)
  note d = in_stepD [OF in_step_mono [OF assms(1,2) subset_refl]]
  show "set (listening c') \<subseteq> points c'" using d(1) assms(4,5) by auto
  show "\<exists>st. f' j = Some st \<and> agrees j st c'" if "j \<in> set (listening c')" for j
    using that d(2) [of j] assms(3,5,6,7) by (cases "j = i") auto
  show "j \<in> U - {i} \<and> idle j c'" if "j \<in> points c'" "j \<notin> set (listening c')" for j
    using that d(3) [of j] assms(4,5,8) by auto
qed

lemma in_step_all: "in_step f (U - points c) c \<Longrightarrow> in_step f {} c"
  by (rule in_stepI) (use in_stepD [of f "U - points c" c] in blast)+

lemma in_step_fold:
  assumes step: "\<And>i m c m' c' U. step i (m, c) = (m', c') \<Longrightarrow> in_step (states_of m) U c \<Longrightarrow> i \<in> points c \<Longrightarrow>
      observes m m' \<and> in_step (states_of m') (U - {i}) c' \<and> points c' = points c"
    and "fold step is (m, c) = (m', c')" "in_step (states_of m) U c" "set is = points c"
  shows "observes m m' \<and> in_step (states_of m') {} c'"
proof -
  have run: "observes m m' \<and> in_step (states_of m') (U - set is) c' \<and> points c' = points c"
    if "fold step is (m, c) = (m', c')" "in_step (states_of m) U c" "set is \<subseteq> points c"
    for "is" m c U m' c'
    using that
  proof (induction "is" arbitrary: m c U)
    case (Cons i "is")
    obtain m1 c1 where s: "step i (m, c) = (m1, c1)" by (metis surj_pair)
    have 1: "observes m m1" "in_step (states_of m1) (U - {i}) c1" "points c1 = points c"
      using step [OF s Cons.prems(2)] Cons.prems(3) by simp_all
    from Cons.IH [OF _ 1(2)] Cons.prems(1,3) s 1(3)
    have "observes m1 m' \<and> in_step (states_of m') (U - {i} - set is) c' \<and> points c' = points c" by simp
    moreover from this have "observes m m'" using observes_trans [OF 1(1)] by blast
    moreover have "U - {i} - set is = U - set (i # is)" by auto
    ultimately show ?case by simp
  qed (simp add: observes_refl)
  from run [OF assms(2,3)] show ?thesis using assms(4) in_step_all [of "states_of m'" U c'] by simp
qed

text \<open>When the manager stops, a point is told that it is disassociated, then its state completes; the
  rest of the points are idle already.\<close>

definition ending :: "'c \<Rightarrow> bool" where
  "ending c = (set (listening c) \<subseteq> points c \<and> (\<forall>i \<in> points c. idle i c \<or> (i \<in> set (listening c) \<and> (\<exists>st. agrees i st c))))"

lemma in_step_ending: "in_step f U c \<Longrightarrow> ending c"
  unfolding in_step_def ending_def by (metis (full_types))

lemma ending_complete:
  fixes i r
  assumes "ending c"
  defines "c' \<equiv> leave i ((on_state i False r ^^ length (filter (\<lambda>j. j = i) (listening c))) c)"
  shows "ending c'" "points c' = points c" "listening c' = filter (\<lambda>j. j \<noteq> i) (listening c)"
proof -
  show p: "points c' = points c" and l: "listening c' = filter (\<lambda>j. j \<noteq> i) (listening c)"
    by (simp_all add: c'_def leave_keeps on_states_keep)
  have "idle j c' \<or> (j \<in> set (listening c') \<and> (\<exists>st. agrees j st c'))" if j: "j \<in> points c" for j
  proof (cases "j = i")
    case same: True
    have e: "idle i c \<or> (i \<in> set (listening c) \<and> (\<exists>st. agrees i st c))" using assms(1) j same by (auto simp: ending_def)
    show ?thesis
    proof (cases "i \<in> set (listening c)")
      case True
      then obtain n where n: "length (filter (\<lambda>j. j = i) (listening c)) = Suc n" by (rule listening_count)
      obtain st where "idle i c \<or> agrees i st c" using e by auto
      from on_states_idle [OF _ this, of n r] j same show ?thesis by (simp add: c'_def n leave_keeps del: funpow.simps)
    next
      case False
      then show ?thesis using e same by (simp add: c'_def leave_keeps listening_none)
    qed
  next
    case False
    have "idle j c \<or> (j \<in> set (listening c) \<and> (\<exists>st. agrees j st c))" using assms(1) j by (simp add: ending_def)
    then show ?thesis using False by (simp add: c'_def leave_keeps on_states_keep)
  qed
  then show "ending c'" using assms(1) by (auto simp: ending_def p l)
qed

lemma ending_completes:
  assumes "ending c" "set (listening c) \<subseteq> set ks"
    "\<forall>d \<in> set ds. \<exists>i. d = IoValueComplete i"
  defines "c' \<equiv> deliver_all (concat (map (\<lambda>p. [IoStateNext p False JUndef, IoStateComplete p]) ks) @ ds) c"
  shows "points c' = points c \<and> listening c' = [] \<and> (\<forall>i \<in> points c. idle i c')"
  using assms(1,2) unfolding c'_def
proof (induction ks arbitrary: c)
  case Nil
  have v: "points (deliver_all ds c) = points c \<and> listening (deliver_all ds c) = listening c \<and>
      (\<forall>i. idle i (deliver_all ds c) = idle i c)" for c
    using assms(3)
  proof (induction ds arbitrary: c)
    case (Cons d ds)
    then obtain i where "d = IoValueComplete i" by auto
    then show ?case using Cons by (simp add: deliver_other is_state_def other_keeps)
  qed (simp add: deliver_Nil)
  show ?case using Nil v [of c] by (simp add: ending_def)
next
  case (Cons p ks)
  note e = ending_complete [OF Cons.prems(1), of p JUndef]
  show ?case using Cons.IH [OF e(1)] Cons.prems(2)
    by (simp add: deliver_next deliver_complete e on_states_keep) blast
qed

end

section \<open>Sources\<close>

definition source_points :: "source_controller \<Rightarrow> string set" where
  "source_points c = set (jkeys (io_source_items c))"

definition source_agrees :: "string \<Rightarrow> bool \<times> jsv \<Rightarrow> source_controller \<Rightarrow> bool" where
  "source_agrees i st c =
    (\<exists>item. jget (io_source_items c) i = Some item \<and> st = (si_associated item, si_rate item) \<and>
       si_pipeline item = (if si_associated item then Some (pipeline_for (si_source item) (si_rate item)) else None))"

definition source_idle :: "string \<Rightarrow> source_controller \<Rightarrow> bool" where
  "source_idle i c = (\<forall>item. jget (io_source_items c) i = Some item \<longrightarrow> si_pipeline item = None)"

lemma source_points_iff: "i \<in> source_points c = (\<exists>item. jget (io_source_items c) i = Some item)"
  by (simp add: source_points_def dom_map_of_conv_image_fst [symmetric] dom_def)

lemma jset_present_keys: "jget m k = Some v0 \<Longrightarrow> set (jkeys (jset k v m)) = set (jkeys m)"
  by (force dest: map_of_SomeD)

lemma on_source_state_keeps:
  "source_points (on_source_state_changed i b r c) = source_points c"
  "io_source_listeners (on_source_state_changed i b r c) = io_source_listeners c"
  "j \<noteq> i \<Longrightarrow> jget (io_source_items (on_source_state_changed i b r c)) j = jget (io_source_items c) j"
  by (auto simp: on_source_state_changed_def Let_def set_source_item_def source_out_def source_points_def
      jset_present_keys simp del: set_map set_jkeys_jset split: option.splits)

lemma on_source_state_result:
  assumes "jget (io_source_items c) i = Some item"
  shows "\<exists>item'. jget (io_source_items (on_source_state_changed i b r c)) i = Some item' \<and> si_source item' = si_source item \<and>
    si_associated item' = b \<and> si_rate item' = r \<and>
    si_pipeline item' = (if si_associated item = b \<and> strict_eq (si_rate item) r then si_pipeline item
      else if b then Some (pipeline_for (si_source item) r) else None)"
proof (cases "strict_eq (si_rate item) r")
  case True
  with strict_eq_imp [OF this] show ?thesis
    by (auto simp: on_source_state_changed_def Let_def set_source_item_def source_out_def assms update_update_rate_observable_def)
next
  case False
  then show ?thesis
    by (auto simp: on_source_state_changed_def Let_def set_source_item_def source_out_def assms update_update_rate_observable_def)
qed

lemma on_source_state_agrees:
  assumes "source_agrees i st c"
  shows "source_agrees i (b, r) (on_source_state_changed i b r c)"
proof -
  from assms obtain item where i: "jget (io_source_items c) i = Some item"
    "si_pipeline item = (if si_associated item then Some (pipeline_for (si_source item) (si_rate item)) else None)"
    by (auto simp only: source_agrees_def)
  from on_source_state_result [OF i(1), of b r] obtain item' where
    "jget (io_source_items (on_source_state_changed i b r c)) i = Some item'" "si_source item' = si_source item"
    "si_associated item' = b" "si_rate item' = r"
    "si_pipeline item' = (if si_associated item = b \<and> strict_eq (si_rate item) r then si_pipeline item
      else if b then Some (pipeline_for (si_source item) r) else None)"
    by (elim exE conjE) (rule that)
  then show ?thesis unfolding source_agrees_def
    by (intro exI [of _ item']) (auto simp: i(2) dest: strict_eq_imp)
qed

lemma on_source_state_idle:
  assumes "source_idle i c \<or> source_agrees i st c"
  shows "source_idle i (on_source_state_changed i False r c)"
proof (cases "jget (io_source_items c) i")
  case None
  then show ?thesis using assms by (simp add: on_source_state_changed_def source_idle_def source_agrees_def)
next
  case (Some item)
  from on_source_state_result [OF this, of False r] obtain item' where
    n: "jget (io_source_items (on_source_state_changed i False r c)) i = Some item'"
    "si_pipeline item' = (if si_associated item = False \<and> strict_eq (si_rate item) r then si_pipeline item else None)"
    by auto
  have "si_associated item = False \<Longrightarrow> si_pipeline item = None"
    using assms Some by (auto simp: source_idle_def source_agrees_def)
  then show ?thesis using n by (simp add: source_idle_def)
qed

definition leave_source :: "string \<Rightarrow> source_controller \<Rightarrow> source_controller" where
  "leave_source i c = c\<lparr>io_source_listeners := filter (\<lambda>j. j \<noteq> i) (io_source_listeners c)\<rparr>"

interpretation sources: io_points source_points io_source_listeners source_agrees source_idle
  on_source_state_changed leave_source "\<lambda>d c. c" deliver_to_sources
proof unfold_locales
  show "j \<noteq> i \<Longrightarrow> source_agrees j st (on_source_state_changed i b r c) = source_agrees j st c"
    "j \<noteq> i \<Longrightarrow> source_idle j (on_source_state_changed i b r c) = source_idle j c" for i j b r c st
    by (simp_all add: source_agrees_def source_idle_def on_source_state_keeps)
  show "source_idle i c \<or> source_agrees i st c \<Longrightarrow> source_idle i (on_source_state_changed i False r c)" for i c st r
    by (rule on_source_state_idle)
  show "\<not> is_state d \<Longrightarrow>
      deliver_to_sources (d # ds) c = deliver_to_sources ds c" for d ds c
    by (cases d) (simp_all add: is_state_def deliver_to_sources_def)
  show "source_agrees i st c \<Longrightarrow> source_agrees i (b, r) (on_source_state_changed i b r c)" for i st c b r
    by (rule on_source_state_agrees)
  show "source_points (leave_source i c) = source_points c" "source_agrees j st (leave_source i c) = source_agrees j st c"
    "source_idle j (leave_source i c) = source_idle j c" for i j st c
    by (simp_all add: leave_source_def source_points_def source_agrees_def source_idle_def)
qed (simp_all add: on_source_state_keeps leave_source_def deliver_to_sources_def)

section \<open>Actors\<close>

definition actor_points :: "actor_controller \<Rightarrow> string set" where
  "actor_points c = set (jkeys (io_actor_items c))"

definition actor_agrees :: "string \<Rightarrow> bool \<times> jsv \<Rightarrow> actor_controller \<Rightarrow> bool" where
  "actor_agrees i st c = (\<exists>item. jget (io_actor_items c) i = Some item \<and> ai_associated item = fst st)"

definition actor_idle :: "string \<Rightarrow> actor_controller \<Rightarrow> bool" where
  "actor_idle i c = (\<forall>item. jget (io_actor_items c) i = Some item \<longrightarrow> \<not> ai_associated item)"

definition actor_associations :: "actor_controller \<Rightarrow> string \<rightharpoonup> bool" where
  "actor_associations c = map_option ai_associated \<circ> jget (io_actor_items c)"

lemma actor_by_associations:
  "actor_agrees i st c = (actor_associations c i = Some (fst st))" "actor_idle i c = (actor_associations c i \<noteq> Some True)"
  "actor_points c = dom (actor_associations c)"
  by (auto simp: actor_agrees_def actor_idle_def actor_associations_def actor_points_def dom_map_option_comp dom_map_of_conv_image_fst)

lemma on_actor_state_keeps:
  "actor_associations (on_actor_state_changed i b c) =
    (if i \<in> dom (actor_associations c) then (actor_associations c)(i \<mapsto> b) else actor_associations c)"
  "io_actor_state_listeners (on_actor_state_changed i b c) = io_actor_state_listeners c"
  by (auto simp: on_actor_state_changed_def set_actor_item_def actor_out_def actor_associations_def fun_eq_iff split: option.splits)

definition leave_actor :: "string \<Rightarrow> actor_controller \<Rightarrow> actor_controller" where
  "leave_actor i c = c\<lparr>io_actor_state_listeners := filter (\<lambda>j. j \<noteq> i) (io_actor_state_listeners c)\<rparr>"

definition actor_other :: "delivery \<Rightarrow> actor_controller \<Rightarrow> actor_controller" where
  "actor_other d c =
    (case d of IoValueNext i v \<Rightarrow> (on_actor_value_changed i v ^^ listeners_of i (io_actor_value_listeners c)) c
     | IoValueComplete i \<Rightarrow> c\<lparr>io_actor_value_listeners := filter (\<lambda>j. j \<noteq> i) (io_actor_value_listeners c)\<rparr>
     | _ \<Rightarrow> c)"

lemma on_actor_value_keeps:
  "actor_associations (on_actor_value_changed i v c) = actor_associations c"
  "io_actor_state_listeners (on_actor_value_changed i v c) = io_actor_state_listeners c"
  by (auto simp: on_actor_value_changed_def set_actor_item_def actor_out_def actor_associations_def fun_eq_iff split: option.splits)

lemma actor_other_keeps:
  "actor_associations (actor_other d c) = actor_associations c"
  "io_actor_state_listeners (actor_other d c) = io_actor_state_listeners c"
proof -
  have n: "actor_associations ((on_actor_value_changed i v ^^ n) c) = actor_associations c \<and>
      io_actor_state_listeners ((on_actor_value_changed i v ^^ n) c) = io_actor_state_listeners c" for i v n
    by (induction n) (simp_all add: on_actor_value_keeps)
  show "actor_associations (actor_other d c) = actor_associations c"
    "io_actor_state_listeners (actor_other d c) = io_actor_state_listeners c"
    by (simp_all add: actor_other_def n split: delivery.split) (simp_all add: actor_associations_def)
qed

interpretation actors: io_points actor_points io_actor_state_listeners actor_agrees actor_idle
  "\<lambda>i b r. on_actor_state_changed i b" leave_actor actor_other deliver_to_actors
proof unfold_locales
  have a: "actor_associations (leave_actor i c) = actor_associations c" for i c
    by (simp add: leave_actor_def actor_associations_def)
  show "actor_points (leave_actor i c) = actor_points c" "actor_agrees j st (leave_actor i c) = actor_agrees j st c"
    "actor_idle j (leave_actor i c) = actor_idle j c" for i j st c
    by (simp_all add: actor_by_associations a)
  show "\<not> is_state d \<Longrightarrow>
      deliver_to_actors (d # ds) c = deliver_to_actors ds (actor_other d c)" for d ds c
    by (cases d) (simp_all add: is_state_def deliver_to_actors_def actor_other_def)
  show "actor_points (on_actor_state_changed i b c) = actor_points c" for i b c
    by (auto simp: actor_by_associations on_actor_state_keeps)
qed (auto simp: actor_by_associations on_actor_state_keeps actor_other_keeps leave_actor_def
    deliver_to_actors_def listeners_of_def split: if_splits)

section \<open>Operations of the controllers\<close>

lemma prescribed_pipeline:
  "si_pipeline (update_update_rate_observable item) =
    (if si_associated item then Some (pipeline_for (si_source item) (si_rate item)) else None)"
  "si_associated (update_update_rate_observable item) = si_associated item"
  "si_rate (update_update_rate_observable item) = si_rate item"
  "si_source (update_update_rate_observable item) = si_source item"
  by (simp_all add: update_update_rate_observable_def)

lemma source_agrees_set:
  "source_agrees i (b, r) (set_source_item i (update_update_rate_observable item) c) = (b = si_associated item \<and> r = si_rate item)"
  by (auto simp: source_agrees_def set_source_item_def prescribed_pipeline)

lemma source_views:
  "source_points (set_source_item i item c) = insert i (source_points c)"
  "io_source_listeners (set_source_item i item c) = io_source_listeners c"
  "j \<noteq> i \<Longrightarrow> source_agrees j st (set_source_item i item c) = source_agrees j st c"
  "j \<noteq> i \<Longrightarrow> source_idle j (set_source_item i item c) = source_idle j c"
  "source_points (c\<lparr>io_source_listeners := ls\<rparr>) = source_points c"
  "source_agrees j st (c\<lparr>io_source_listeners := ls\<rparr>) = source_agrees j st c"
  "source_idle j (c\<lparr>io_source_listeners := ls\<rparr>) = source_idle j c"
  "source_points (source_out os c) = source_points c" "io_source_listeners (source_out os c) = io_source_listeners c"
  "source_agrees j st (source_out os c) = source_agrees j st c" "source_idle j (source_out os c) = source_idle j c"
  by (simp_all add: source_points_def set_source_item_def source_agrees_def source_idle_def source_out_def)

lemma sources_in_step_out: "sources.in_step f U (source_out os c) = sources.in_step f U c"
  by (simp only: sources.in_step_def source_views)

lemma ensure_source_in_step:
  assumes "ensure_source source (m, c) = (m', c')" "sources.in_step (states_of m) U c"
  shows "observes m m' \<and> sources.in_step (states_of m') U c' \<and> point_id source \<in> source_points c'"
proof (cases "jget (io_source_items c) (point_id source)")
  case None
  obtain b r m1 where o: "observe_io_state (point_id source) m = ((b, r), m1)" by (metis surj_pair)
  note ob = observe_io_state_observes [OF o]
  define item where "item = \<lparr>si_source = source, si_subscribed = True, si_rate = r, si_associated = b, si_pipeline = None\<rparr>"
  have e: "m' = m1" "c' = (set_source_item (point_id source) (update_update_rate_observable item) c)
      \<lparr>io_source_listeners := io_source_listeners c @ [point_id source]\<rparr>"
    using assms(1) by (simp_all add: ensure_source_def None o item_def Let_def)
  have "sources.in_step (states_of m') (U - {point_id source}) c'"
  proof (rule sources.in_step_join [OF assms(2)])
    show "states_of m \<subseteq>\<^sub>m states_of m'" using ob(1) by (simp add: observes_def e)
    show "states_of m' (point_id source) = Some (b, r)" using ob(2) by (simp add: e)
    show "source_agrees (point_id source) (b, r) c'" by (simp add: e source_views source_agrees_set item_def)
  qed (simp_all add: e source_views)
  then have "sources.in_step (states_of m') U c'" by (rule sources.in_step_mono) auto
  then show ?thesis using ob(1) by (simp add: e source_views)
next
  case (Some item)
  then show ?thesis using assms by (auto simp: ensure_source_def observes_refl source_points_iff)
qed

lemma publish_to_source_in_step:
  assumes "publish_to_source source v (m, c) = (m', c')" "sources.in_step (states_of m) U c"
  shows "observes m m' \<and> sources.in_step (states_of m') U c'"
proof -
  obtain m1 c1 where e: "ensure_source source (m, c) = (m1, c1)" by (metis surj_pair)
  obtain os where "m' = m1" "c' = source_out os c1 \<or> c' = c1"
    using assms(1) by (auto simp: publish_to_source_def e Let_def split: option.splits if_splits)
  then show ?thesis using ensure_source_in_step [OF e assms(2)] by (auto simp: sources_in_step_out)
qed

lemma reregister_source_in_step:
  assumes "reregister_source i (m, c) = (m', c')" "sources.in_step (states_of m) U c" "i \<in> source_points c"
  shows "observes m m' \<and> sources.in_step (states_of m') (U - {i}) c' \<and> source_points c' = source_points c"
proof -
  obtain b r m1 where o: "observe_io_state i m = ((b, r), m1)" by (metis surj_pair)
  note ob = observe_io_state_observes [OF o]
  define c1 where "c1 = on_source_state_changed i b r (c\<lparr>io_source_listeners := io_source_listeners c @ [i]\<rparr>)"
  have k: "source_points c1 = source_points c" "io_source_listeners c1 = io_source_listeners c @ [i]"
    "\<And>j st. j \<noteq> i \<Longrightarrow> source_agrees j st c1 = source_agrees j st c" "\<And>j. j \<noteq> i \<Longrightarrow> source_idle j c1 = source_idle j c"
    by (simp_all add: c1_def on_source_state_keeps source_views sources.on_state_others)
  obtain item where item: "jget (io_source_items c1) i = Some item"
    using assms(3) k(1) by (auto simp: source_points_iff set_eq_iff)
  define item1 where "item1 = item\<lparr>si_subscribed := True, si_rate := r, si_associated := b\<rparr>"
  have e: "m' = m1" "c' = source_out [RateNext i r, AssociationNext i b]
      (set_source_item i (update_update_rate_observable item1) c1)"
    using assms(1) item by (simp_all add: reregister_source_def o c1_def item1_def)
  have "sources.in_step (states_of m') (U - {i}) c'"
  proof (rule sources.in_step_join [OF assms(2)])
    show "states_of m \<subseteq>\<^sub>m states_of m'" using ob(1) by (simp add: observes_def e)
    show "states_of m' i = Some (b, r)" using ob(2) by (simp add: e)
    show "source_agrees i (b, r) c'" by (simp add: e source_views source_agrees_set item1_def)
  qed (simp_all add: e source_views k)
  then show ?thesis using ob(1) assms(3) by (simp add: e source_views k insert_absorb)
qed

lemma reregister_all_sources_in_step:
  assumes "reregister_all_sources (m, c) = (m', c')" "sources.in_step (states_of m) U c"
  shows "observes m m' \<and> sources.in_step (states_of m') {} c'"
  by (rule sources.in_step_fold [of reregister_source "jkeys (io_source_items c)" m c m' c' U])
    (rule reregister_source_in_step, assumption+,
      use assms in \<open>simp_all add: reregister_all_sources_def source_points_def\<close>)

text \<open>The same for actors, by their associations.\<close>

lemma actor_views:
  "actor_associations (set_actor_item i item c) = (actor_associations c)(i \<mapsto> ai_associated item)"
  "io_actor_state_listeners (set_actor_item i item c) = io_actor_state_listeners c"
  "actor_associations (listen_to_actor i c) = actor_associations c"
  "io_actor_state_listeners (listen_to_actor i c) = io_actor_state_listeners c @ [i]"
  "actor_associations (actor_out os c) = actor_associations c"
  "io_actor_state_listeners (actor_out os c) = io_actor_state_listeners c"
  by (auto simp: actor_associations_def set_actor_item_def listen_to_actor_def actor_out_def fun_eq_iff)

lemma ensure_actor_in_step:
  assumes "ensure_actor actor (m, c) = (m', c')" "actors.in_step (states_of m) U c"
  shows "observes m m' \<and> actors.in_step (states_of m') U c'"
proof (cases "jget (io_actor_items c) (point_id actor)")
  case None
  obtain b r m1 where o: "observe_io_state (point_id actor) m = ((b, r), m1)" by (metis surj_pair)
  note ob = observe_io_state_observes [OF o]
  define item where "item = \<lparr>ai_actor = actor, ai_associated = b, ai_value = NoData\<rparr>"
  have e: "m' = observe_io_value (point_id actor) m1"
    "c' = set_actor_item (point_id actor) item (listen_to_actor (point_id actor) c)"
    using assms(1) by (simp_all add: ensure_actor_def None o item_def Let_def)
  have obs: "observes m m'" using observes_trans [OF ob(1) observe_io_value_observes(1)] by (simp add: e)
  have "actors.in_step (states_of m') (U - {point_id actor}) c'"
  proof (rule actors.in_step_join [OF assms(2)])
    show "states_of m \<subseteq>\<^sub>m states_of m'" using obs by (simp add: observes_def)
    show "states_of m' (point_id actor) = Some (b, r)" using ob(2) by (simp add: e observe_io_value_observes)
  qed (simp_all add: e actor_by_associations actor_views item_def)
  then have "actors.in_step (states_of m') U c'" by (rule actors.in_step_mono) auto
  then show ?thesis using obs by simp
next
  case (Some item)
  then show ?thesis using assms by (simp add: ensure_actor_def observes_refl)
qed

lemma reregister_actor_in_step:
  assumes "reregister_actor i (m, c) = (m', c')" "actors.in_step (states_of m) U c" "i \<in> actor_points c"
  shows "observes m m' \<and> actors.in_step (states_of m') (U - {i}) c' \<and> actor_points c' = actor_points c"
proof -
  obtain b r m1 where o: "observe_io_state i m = ((b, r), m1)" by (metis surj_pair)
  note ob = observe_io_state_observes [OF o]
  define c1 where "c1 = on_actor_state_changed i b (listen_to_actor i c)"
  have k: "actor_associations c1 = (actor_associations c)(i \<mapsto> b)"
    "io_actor_state_listeners c1 = io_actor_state_listeners c @ [i]"
    using assms(3) by (simp_all add: c1_def on_actor_state_keeps actor_views actor_by_associations)
  obtain item where item: "jget (io_actor_items c1) i = Some item"
    using fun_cong [OF k(1), of i] by (auto simp: actor_associations_def)
  have e: "m' = observe_io_value i m1" "c' = actor_out [AssociationNext i b] (set_actor_item i (item\<lparr>ai_associated := b\<rparr>) c1)"
    using assms(1) item by (simp_all add: reregister_actor_def o c1_def Let_def)
  have obs: "observes m m'" using observes_trans [OF ob(1) observe_io_value_observes(1)] by (simp add: e)
  have "actors.in_step (states_of m') (U - {i}) c'"
  proof (rule actors.in_step_join [OF assms(2)])
    show "states_of m \<subseteq>\<^sub>m states_of m'" using obs by (simp add: observes_def)
    show "states_of m' i = Some (b, r)" using ob(2) by (simp add: e observe_io_value_observes)
  qed (simp_all add: e actor_by_associations actor_views k)
  then show ?thesis using obs assms(3) by (simp add: e actor_by_associations actor_views k insert_absorb)
qed

lemma reregister_all_actors_in_step:
  assumes "reregister_all_actors (m, c) = (m', c')" "actors.in_step (states_of m) U c"
  shows "observes m m' \<and> actors.in_step (states_of m') {} c'"
  by (rule actors.in_step_fold [of reregister_actor "jkeys (io_actor_items c)" m c m' c' U])
    (rule reregister_actor_in_step, assumption+,
      use assms in \<open>simp_all add: reregister_all_actors_def actor_points_def\<close>)

section \<open>Steps\<close>

definition in_step_state :: "string set \<Rightarrow> endpoints \<Rightarrow> bool" where
  "in_step_state U s =
    (sources.in_step (states_of (ep_manager s)) U (ep_sources s) \<and> actors.in_step (states_of (ep_manager s)) U (ep_actors s))"

lemma with_sources_in_step:
  assumes "in_step_state U s"
    "\<And>m' c'. f (ep_manager s, ep_sources s) = (m', c') \<Longrightarrow> observes (ep_manager s) m' \<and> sources.in_step (states_of m') U' c'"
  shows "observes (ep_manager s) (ep_manager (with_sources f s))"
    "sources.in_step (states_of (ep_manager (with_sources f s))) U' (ep_sources (with_sources f s))"
    "actors.in_step (states_of (ep_manager (with_sources f s))) U (ep_actors (with_sources f s))"
proof -
  obtain m' c' where f: "f (ep_manager s, ep_sources s) = (m', c')" by (metis surj_pair)
  have w: "ep_manager (with_sources f s) = m'" "ep_sources (with_sources f s) = c'" "ep_actors (with_sources f s) = ep_actors s"
    by (simp_all add: with_sources_def f)
  show "observes (ep_manager s) (ep_manager (with_sources f s))"
    "sources.in_step (states_of (ep_manager (with_sources f s))) U' (ep_sources (with_sources f s))"
    using assms(2) [OF f] by (simp_all add: w)
  show "actors.in_step (states_of (ep_manager (with_sources f s))) U (ep_actors (with_sources f s))"
    using assms(1) assms(2) [OF f] by (auto simp: w in_step_state_def observes_def intro: actors.in_step_mono)
qed

lemma with_actors_in_step:
  assumes "sources.in_step (states_of (ep_manager s)) U (ep_sources s)"
    "\<And>m' c'. f (ep_manager s, ep_actors s) = (m', c') \<Longrightarrow> observes (ep_manager s) m' \<and> actors.in_step (states_of m') U c'"
  shows "observes (ep_manager s) (ep_manager (with_actors f s))" "in_step_state U (with_actors f s)"
proof -
  obtain m' c' where f: "f (ep_manager s, ep_actors s) = (m', c')" by (metis surj_pair)
  have w: "ep_manager (with_actors f s) = m'" "ep_sources (with_actors f s) = ep_sources s" "ep_actors (with_actors f s) = c'"
    by (simp_all add: with_actors_def f)
  show "observes (ep_manager s) (ep_manager (with_actors f s))" using assms(2) [OF f] by (simp add: w)
  show "in_step_state U (with_actors f s)"
    using assms(1) assms(2) [OF f] by (auto simp: w in_step_state_def observes_def intro: sources.in_step_mono)
qed

lemma deliver_views:
  assumes "emits (ep_manager s) m' ds"
  shows "ep_manager (deliver m' s) = m'" "ep_sources (deliver m' s) = deliver_to_sources ds (ep_sources s)"
    "ep_actors (deliver m' s) = deliver_to_actors ds (ep_actors s)"
  unfolding deliver_def emits_since [OF assms, symmetric] deliver_filter by simp_all

lemma deregister_listens: "set (io_source_listeners (deregister_all_sources c)) \<subseteq> set (io_source_listeners c)"
proof -
  have "set (fold (\<lambda>(i, item) ls. if si_subscribed item then remove1 i ls else ls) xs ls) \<subseteq> set ls"
    for xs :: "(string \<times> source_entry) list" and ls
  proof (induction xs arbitrary: ls)
    case (Cons x xs)
    have "set (case x of (i, item) \<Rightarrow> if si_subscribed item then remove1 i ls else ls) \<subseteq> set ls"
      by (cases x) (simp add: set_remove1_subset)
    then show ?case using Cons [of "case x of (i, item) \<Rightarrow> if si_subscribed item then remove1 i ls else ls"]
      by (cases x) simp
  qed simp
  then show ?thesis by (simp add: deregister_all_sources_def)
qed

lemma deregister_items:
  "jget (io_source_items (deregister_all_sources c)) i =
    map_option (\<lambda>item. item\<lparr>si_subscribed := False, si_pipeline := None\<rparr>) (jget (io_source_items c) i)"
  by (simp add: deregister_all_sources_def map_of_map)

lemma deregister_ending:
  assumes "sources.in_step f U c"
  shows "sources.ending (deregister_all_sources c)"
proof -
  have p: "source_points (deregister_all_sources c) = source_points c"
    by (auto simp: source_points_iff deregister_items)
  have "source_idle i (deregister_all_sources c)" for i by (auto simp: source_idle_def deregister_items)
  then show ?thesis
    using deregister_listens [of c] sources.in_stepD(1) [OF assms] by (auto simp: sources.ending_def p)
qed

lemma listening_observed:
  "sources.in_step (states_of m) U c \<Longrightarrow> set (io_source_listeners c) \<subseteq> set (jkeys (ia_states m))"
  "actors.in_step (states_of m) U c' \<Longrightarrow> set (io_actor_state_listeners c') \<subseteq> set (jkeys (ia_states m))"
proof -
  have k: "i \<in> set (jkeys (ia_states m))" if "\<exists>st. states_of m i = Some st \<and> P st" for i P
    using that by (auto simp: states_of_def dom_map_of_conv_image_fst [symmetric])
  show "sources.in_step (states_of m) U c \<Longrightarrow> set (io_source_listeners c) \<subseteq> set (jkeys (ia_states m))"
    by (rule subsetI) (rule k, rule sources.in_stepD(2))
  show "actors.in_step (states_of m) U c' \<Longrightarrow> set (io_actor_state_listeners c') \<subseteq> set (jkeys (ia_states m))"
    by (rule subsetI) (rule k, rule actors.in_stepD(2))
qed

text \<open>After the manager has stopped nothing flows and nothing listens.\<close>

definition at_rest :: "endpoints \<Rightarrow> bool" where
  "at_rest s = ((\<forall>i. source_idle i (ep_sources s)) \<and> (\<forall>i. actor_idle i (ep_actors s)))"

lemma idle_outside:
  "i \<notin> source_points c \<Longrightarrow> source_idle i c" "i \<notin> actor_points c' \<Longrightarrow> actor_idle i c'"
  by (auto simp: source_points_iff source_idle_def actor_by_associations)

lemma stopping_rests:
  fixes uuid options
  assumes "in_step_state U s"
  defines "s' \<equiv> endpoint_step uuid (EndpointsStopping options) s"
  shows "at_rest s' \<and> in_step_state UNIV s' \<and> \<not> cm_started (ep_manager s')"
proof -
  define t where "t = (if cm_started (ep_manager s) then s\<lparr>ep_sources := deregister_all_sources (ep_sources s)\<rparr> else s)"
  define m' where "m' = unjoin_binding uuid options (ep_manager s)"
  have t: "ep_manager t = ep_manager s" "ep_actors t = ep_actors s" "ep_sources t = ep_sources s \<or> ep_sources t = deregister_all_sources (ep_sources s)"
    by (simp_all add: t_def)
  have s': "s' = deliver m' t" by (simp add: s'_def endpoint_step_def m'_def t_def)
  have "emits (ep_manager t) m' (io_completes (ep_manager s))" by (simp add: t m'_def unjoin_binding_emits)
  note v = deliver_views [OF this]
  note in_step = assms(1) [unfolded in_step_state_def]
  have c: "sources.ending (ep_sources t)" "set (io_source_listeners (ep_sources t)) \<subseteq> set (jkeys (ia_states (ep_manager s)))"
    using t(3) in_step listening_observed(1) [of "ep_manager s" U "ep_sources s"] deregister_listens [of "ep_sources s"]
    by (auto intro: sources.in_step_ending deregister_ending)
  have done_values: "\<forall>d \<in> set (map IoValueComplete (ia_values (ep_manager s))). \<exists>i. d = IoValueComplete i" by auto
  have src: "source_points (ep_sources s') = source_points (ep_sources t)" "io_source_listeners (ep_sources s') = []"
    "\<forall>i \<in> source_points (ep_sources t). source_idle i (ep_sources s')"
    using sources.ending_completes [OF c done_values] by (simp_all add: s' v io_completes_def)
  have a: "actors.ending (ep_actors t)" "set (io_actor_state_listeners (ep_actors t)) \<subseteq> set (jkeys (ia_states (ep_manager s)))"
    using in_step listening_observed(2) [of "ep_manager s" U "ep_actors s"] by (auto simp: t intro: actors.in_step_ending)
  have act: "actor_points (ep_actors s') = actor_points (ep_actors t)" "io_actor_state_listeners (ep_actors s') = []"
    "\<forall>i \<in> actor_points (ep_actors t). actor_idle i (ep_actors s')"
    using actors.ending_completes [OF a done_values] by (simp_all add: s' v io_completes_def)
  have idle: "source_idle i (ep_sources s')" "actor_idle i (ep_actors s')" for i
    using src act idle_outside [of i] by metis+
  have "sources.in_step f UNIV (ep_sources s')" for f by (rule sources.in_stepI) (simp_all add: src(2) idle)
  moreover have "actors.in_step f UNIV (ep_actors s')" for f by (rule actors.in_stepI) (simp_all add: act(2) idle)
  moreover have "\<not> cm_started (ep_manager s')" 
    unfolding s' v(1) unfolding m'_def by (rule unjoin_binding_emits(4))
  ultimately show ?thesis by (simp add: at_rest_def in_step_state_def idle)
qed

lemma dispatch_io_value_emits:
  obtains ds where "emits m (dispatch_io_value el m) ds" "\<forall>d \<in> set ds. \<exists>i v. d = IoValueNext i v"
    "states_of (dispatch_io_value el m) = states_of m" "cm_started (dispatch_io_value el m) = cm_started m"
proof -
  obtain ids where e: "dispatch_io_value el m = out (map (\<lambda>i. IoValueNext i (el_data el)) ids) m"
  proof (cases "case el_corr el of None \<Rightarrow> None | Some route \<Rightarrow> jget (ia_actors m) route")
    case None
    then have "dispatch_io_value el m = out (map (\<lambda>i. IoValueNext i (el_data el)) []) m"
      by (simp add: dispatch_io_value_def out_def)
    then show ?thesis by (rule that)
  qed (use that in \<open>simp add: dispatch_io_value_def\<close>)
  let ?ds = "map (\<lambda>i. IoValueNext i (el_data el)) ids"
  have "filter is_io ?ds = ?ds" by (simp add: filter_id_conv is_io_def)
  then show ?thesis by (intro that [of ?ds]) (auto simp: e emits_def out_def states_of_def)
qed

definition waiting :: "endpoints \<Rightarrow> string set" where
  "waiting s = (if cm_started (ep_manager s) then {} else UNIV)"

lemma starting_in_step:
  assumes "in_step_state (waiting s) s" "s' = endpoint_step uuid EndpointsStarting s"
  shows "in_step_state (waiting s') s'"
proof (cases "join_binding (ep_manager s)")
  case (Inl e)
  then show ?thesis using assms by (simp add: endpoint_step_def)
next
  case (Inr m')
  note j = join_binding_emits [OF Inr]
  note v = deliver_views [OF j(1)]
  have t: "in_step_state (waiting s) (deliver m' s)"
    using assms(1) by (simp add: in_step_state_def v j sources.deliver_Nil actors.deliver_Nil)
  show ?thesis
  proof (cases "cm_started (ep_manager s)")
    case True
    then show ?thesis using t by (simp add: assms(2) endpoint_step_def Inr waiting_def v j)
  next
    case False
    let ?t = "with_sources reregister_all_sources (deliver m' s)"
    have 1: "observes (ep_manager (deliver m' s)) (ep_manager ?t)"
      "sources.in_step (states_of (ep_manager ?t)) {} (ep_sources ?t)"
      "actors.in_step (states_of (ep_manager ?t)) (waiting s) (ep_actors ?t)"
      using with_sources_in_step [OF t, of reregister_all_sources "{}"] reregister_all_sources_in_step t
      unfolding in_step_state_def by blast+
    have 2: "observes (ep_manager ?t) (ep_manager (with_actors reregister_all_actors ?t))"
      "in_step_state {} (with_actors reregister_all_actors ?t)"
      using with_actors_in_step [OF 1(2), of reregister_all_actors] reregister_all_actors_in_step 1(3) by blast+
    have "s' = with_actors reregister_all_actors ?t" using False by (simp add: assms(2) endpoint_step_def Inr)
    moreover have "cm_started (ep_manager (with_actors reregister_all_actors ?t))"
      using 1(1) 2(1) by (simp add: observes_def v j)
    ultimately show ?thesis using 2(2) by (simp add: waiting_def)
  qed
qed

lemma endpoint_step_in_step:
  assumes "in_step_state (waiting s) s"
  shows "in_step_state (waiting (endpoint_step uuid ev s)) (endpoint_step uuid ev s)"
proof (cases ev)
  case (UseSource source)
  let ?s = "with_sources (ensure_source source) s"
  note w = with_sources_in_step [OF assms, of "ensure_source source" "waiting s"]
  have "observes (ep_manager s) (ep_manager ?s)" "in_step_state (waiting s) ?s"
    using w ensure_source_in_step assms unfolding in_step_state_def by blast+
  then show ?thesis by (simp add: endpoint_step_def UseSource waiting_def observes_def)
next
  case (PublishValue source v)
  let ?s = "with_sources (publish_to_source source v) s"
  note w = with_sources_in_step [OF assms, of "publish_to_source source v" "waiting s"]
  have "observes (ep_manager s) (ep_manager ?s)" "in_step_state (waiting s) ?s"
    using w publish_to_source_in_step assms unfolding in_step_state_def by blast+
  then show ?thesis by (simp add: endpoint_step_def PublishValue waiting_def observes_def)
next
  case (UseActor actor)
  let ?s = "with_actors (ensure_actor actor) s"
  note w = with_actors_in_step [of s "waiting s" "ensure_actor actor"]
  have "observes (ep_manager s) (ep_manager ?s)" "in_step_state (waiting s) ?s"
    using w ensure_actor_in_step assms unfolding in_step_state_def by blast+
  then show ?thesis by (simp add: endpoint_step_def UseActor waiting_def observes_def)
next
  case (AssociateReceived d)
  obtain ds where ds: "emits (ep_manager s) (handle_associate d (ep_manager s)) ds"
    "list_all (known_next (states_of (ep_manager s))) ds"
    "states_of (handle_associate d (ep_manager s)) = set_states ds (states_of (ep_manager s))"
    "cm_started (handle_associate d (ep_manager s)) = cm_started (ep_manager s)"
    using handle_associate_emits [of "ep_manager s" d] by metis
  note v = deliver_views [OF ds(1)]
  have "in_step_state (waiting s) (deliver (handle_associate d (ep_manager s)) s)"
    using sources.in_step_deliver [OF _ ds(2)] actors.in_step_deliver [OF _ ds(2)] assms
    by (simp add: in_step_state_def v ds(3))
  then show ?thesis by (simp add: endpoint_step_def AssociateReceived waiting_def v ds(4))
next
  case (IoValueReceived el)
  obtain ds where ds: "emits (ep_manager s) (dispatch_io_value el (ep_manager s)) ds" "\<forall>d \<in> set ds. \<exists>i v. d = IoValueNext i v"
    "states_of (dispatch_io_value el (ep_manager s)) = states_of (ep_manager s)"
    "cm_started (dispatch_io_value el (ep_manager s)) = cm_started (ep_manager s)"
    by (rule dispatch_io_value_emits)
  note v = deliver_views [OF ds(1)]
  have "in_step_state (waiting s) (deliver (dispatch_io_value el (ep_manager s)) s)"
    using sources.in_step_values [OF _ ds(2)] actors.in_step_values [OF _ ds(2)] assms
    by (simp add: in_step_state_def v ds(3))
  then show ?thesis by (simp add: endpoint_step_def IoValueReceived waiting_def v ds(4))
next
  case (EndpointsStopping options)
  then show ?thesis using stopping_rests [OF assms, of uuid options] by (simp add: waiting_def)
next
  case EndpointsStarting
  then show ?thesis using starting_in_step [OF assms, of _ uuid] by simp
qed

definition new_endpoints :: "(nat \<Rightarrow> string) \<Rightarrow> comm_config \<Rightarrow> endpoints" where
  "new_endpoints uuid config =
    \<lparr>ep_manager = new_comm_manager uuid config, ep_sources = new_source_controller, ep_actors = new_actor_controller\<rparr>"

lemma new_endpoints_in_step: "in_step_state (waiting (new_endpoints uuid config)) (new_endpoints uuid config)"
  by (simp add: in_step_state_def new_endpoints_def new_source_controller_def new_actor_controller_def
      sources.in_step_def actors.in_step_def source_points_def actor_points_def)

text \<open>C9: In every run of an agent, whatever points the application uses, whatever associations and values
  arrive and however often communication stops and starts: while the manager is started, what the IO
  source controller knows of each source it was asked for is the manager's IO state of that source, and
  the pipeline from the application to the source exists exactly while the source is associated and
  samples or debounces as its update strategy and the recommended rate prescribe; each actor is known
  to be associated exactly when the manager has it associated. Right after communication has stopped no
  source has a pipeline, so no value flows, and no actor is associated.\<close>

theorem io_points_follow_manager:
  assumes "s = fold (endpoint_step uuid) evs (new_endpoints uuid config)"
  shows "(cm_started (ep_manager s) \<longrightarrow>
      (\<forall>i item. jget (io_source_items (ep_sources s)) i = Some item \<longrightarrow>
        jget (ia_states (ep_manager s)) i = Some (si_associated item, si_rate item) \<and>
        si_pipeline item = (if si_associated item then Some (pipeline_for (si_source item) (si_rate item)) else None)) \<and>
      (\<forall>i item. jget (io_actor_items (ep_actors s)) i = Some item \<longrightarrow>
        (\<exists>rate. jget (ia_states (ep_manager s)) i = Some (ai_associated item, rate)))) \<and>
    (\<forall>evs' options. evs = evs' @ [EndpointsStopping options] \<longrightarrow>
      (\<forall>i item. jget (io_source_items (ep_sources s)) i = Some item \<longrightarrow> si_pipeline item = None) \<and>
      (\<forall>i item. jget (io_actor_items (ep_actors s)) i = Some item \<longrightarrow> \<not> ai_associated item))"
proof -
  have run: "in_step_state (waiting (fold (endpoint_step uuid) evs t)) (fold (endpoint_step uuid) evs t)"
    if "in_step_state (waiting t) t" for evs t
    using that by (induction evs arbitrary: t) (simp_all add: endpoint_step_in_step)
  note new = new_endpoints_in_step [of uuid config]
  have agree: "in_step_state (waiting s) s" unfolding assms by (rule run [OF new])
  have src: "\<exists>st. states_of (ep_manager s) i = Some st \<and> source_agrees i st (ep_sources s)"
    if "cm_started (ep_manager s)" "jget (io_source_items (ep_sources s)) i = Some item" for i item
  proof -
    have st: "sources.in_step (states_of (ep_manager s)) {} (ep_sources s)" using agree that(1) by (simp add: in_step_state_def waiting_def)
    have "i \<in> source_points (ep_sources s)" using that(2) by (simp add: source_points_iff)
    then show ?thesis using sources.in_stepD(2,3) [OF st] by blast
  qed
  have act: "\<exists>st. states_of (ep_manager s) i = Some st \<and> actor_agrees i st (ep_actors s)"
    if "cm_started (ep_manager s)" "jget (io_actor_items (ep_actors s)) i = Some item" for i item
  proof -
    have st: "actors.in_step (states_of (ep_manager s)) {} (ep_actors s)" using agree that(1) by (simp add: in_step_state_def waiting_def)
    have "i \<in> actor_points (ep_actors s)" using that(2) by (auto simp: actor_by_associations actor_associations_def)
    then show ?thesis using actors.in_stepD(2,3) [OF st] by blast
  qed
  have "at_rest s" if "evs = evs' @ [EndpointsStopping options]" for evs' options
    using stopping_rests [OF run [OF new, of evs'], of uuid options] by (simp add: assms that)
  then show ?thesis using src act
    by (fastforce simp: at_rest_def source_idle_def actor_idle_def source_agrees_def actor_agrees_def states_of_def)
qed

section \<open>Concrete runs\<close>

definition sample_source :: jsv where
  "sample_source = jobj [(''objectId'', JStr ''s''), (''name'', JStr ''n''), (''objectType'', JStr ''coaty.IoSource''),
     (''coreType'', JStr ''IoSource''), (''valueType'', JStr ''v'')]"

definition sample_points_config :: comm_config where
  "sample_points_config =
    \<lparr>cf_identity = create_identity ''u1'' JUndef,
     cf_io_nodes = [(''node'', \<lparr>ic_sources = [sample_source], ic_actors = [], ic_characteristics = JUndef\<rparr>)],
     cf_options = no_options\<rparr>"

definition sample_points_node :: io_node where
  "sample_points_node = \<lparr>in_name = ''node'', in_id = ''u2'', in_sources = [sample_source], in_actors = [], in_characteristics = JUndef\<rparr>"

lemma sample_points_advertised:
  "advertise_events [create_identity ''u1'' JUndef, io_node_object ''u1'' sample_points_node] =
    Inr [\<lparr>ad_object = create_identity ''u1'' JUndef, ad_private = JUndef\<rparr>,
      \<lparr>ad_object = io_node_object ''u1'' sample_points_node, ad_private = JUndef\<rparr>]"
  by (simp add: new_advertise_data_def new_advertise_event_def is_object_None is_assignable.simps
      sample_created_identity is_identity_def is_object_base_def core_type_is_def is_core_type_iff
      core_type_names_def prop_opt_def proto_prop_def object_proto_names_def is_valid_private_data_def
      object_type_filter_ok_def is_valid_event_filter_def illegal_filter_chars_def
      io_node_object_def sample_points_node_def sample_source_def is_io_node_def is_io_source_def array_of_def)

lemma associated_source_state:
  assumes "find_io_point_by_id (ia_nodes m) i \<noteq> None" "find_io_point_by_id (ia_nodes m) a = None"
    "states_of m i \<noteq> None" "d = \<lparr>as_source = JStr i, as_actor = JStr a, as_route = JStr r, as_external = JUndef, as_rate = rate\<rparr>"
  shows "states_of (handle_associate d m) i = Some (True, rate)"
proof -
  define s1 where "s1 = update_io_source_items i a (Some r) rate m"
  have "\<exists>actorIds. jget (ia_sources s1) i = Some (r, actorIds, rate)"
    by (cases "jget (ia_sources m) i") (auto simp: s1_def update_io_source_items_def Let_def)
  then obtain actorIds where "jget (ia_sources s1) i = Some (r, actorIds, rate)" ..
  moreover obtain y where "find_io_point_by_id (ia_nodes m) i = Some y" using assms(1) by blast
  ultimately have "handle_associate d m = io_state_next i True rate s1"
    using assms(2) by (simp add: handle_associate_def assms(4) template_def opt_str_def s1_def)
  moreover have "states_of s1 = states_of m" using stat_update [of i a "Some r" rate m] by (simp add: s1_def stat_def states_of_def)
  ultimately show ?thesis using assms(3) by (simp add: io_state_next_def out_def states_of_def jhas_def)
qed

lemma join_nodes:
  assumes "join_binding m = Inr m'"
  shows "ia_nodes m' = ia_nodes m"
proof -
  have o: "ia_nodes (case observe_request t f s of (i, s') \<Rightarrow> subscribe_request i obs s') = ia_nodes s" for t f s obs
    by (auto simp: observe_request_def Let_def subscribe_request_def set_request_item_def split: option.splits)
  have f: "ia_nodes (fold (\<lambda>node s'. (let (i, s'') = observe_request Associate (Some (in_name node)) s'
        in subscribe_request i HandleAssociate s'')) ns t) = ia_nodes t" for ns t
    by (induction ns arbitrary: t) (simp_all add: o)
  obtain opts where "m' = update_operating_state True
      (observe_discover_identity (observe_discover_io_nodes (observe_associate (on_binding (join opts) m))))"
    using assms by (auto simp: join_binding_def Let_def rbind_Inr_conv)
  moreover have "ia_nodes (observe_associate t) = ia_nodes t" for t unfolding observe_associate_def by (rule f)
  ultimately show ?thesis
    by (simp add: update_operating_state_def out_def observe_discover_identity_def observe_discover_io_nodes_def o)
qed

lemma associate_keeps_points:
  assumes "in_step_state U s"
  shows "source_points (ep_sources (endpoint_step uuid (AssociateReceived d) s)) = source_points (ep_sources s)"
proof -
  obtain ds where ds: "emits (ep_manager s) (handle_associate d (ep_manager s)) ds"
    "list_all (known_next (states_of (ep_manager s))) ds" by (rule handle_associate_emits)
  show ?thesis
    using sources.in_step_deliver [OF _ ds(2)] assms
    by (auto simp: endpoint_step_def deliver_views [OF ds(1)] in_step_state_def)
qed

lemma sample_points_manager:
  "ia_nodes (new_comm_manager (\<lambda>_. ''u2'') sample_points_config) = [sample_points_node]"
  "cf_identity (cm_config (new_comm_manager (\<lambda>_. ''u2'') sample_points_config)) = create_identity ''u1'' JUndef"
  by (simp_all add: new_comm_manager_def init_options_def sample_points_config_def Let_def sample_points_node_def
      is_valid_event_filter_def illegal_filter_chars_def)

lemma sample_points_join: "\<exists>m1. join_binding (new_comm_manager (\<lambda>_. ''u2'') sample_points_config) = Inr m1"
proof -
  let ?m = "new_comm_manager (\<lambda>_. ''u2'') sample_points_config"
  have d: "new_deadvertise_data (JArr [JStr ''u1'', JStr ''u2'']) = Inr \<lparr>dd_object_ids = JArr [JStr ''u1'', JStr ''u2'']\<rparr>"
    by (simp add: new_deadvertise_data_def is_string_array_def)
  have i: "get_prop (create_identity ''u1'' JUndef) ''objectId'' = JStr ''u1''"
    "get_prop (io_node_object ''u1'' sample_points_node) ''objectId'' = JStr ''u2''" "identity_id ?m = ''u1''"
    by (simp_all add: sample_created_identity io_node_object_def sample_points_node_def identity_id_def prop_string_def
        sample_points_manager(2))
  show ?thesis
    unfolding join_binding_def sample_points_manager list.map i sample_points_advertised rbind.simps advertise_data.simps d Let_def
    by blast
qed

lemma start_without_points:
  assumes "join_binding (new_comm_manager uuid config) = Inr m1"
  shows "ep_manager (endpoint_step uuid EndpointsStarting (new_endpoints uuid config)) = m1"
    "ep_sources (endpoint_step uuid EndpointsStarting (new_endpoints uuid config)) = new_source_controller"
proof -
  let ?n = "new_endpoints uuid config"
  have e: "emits (ep_manager ?n) m1 []" using join_binding_emits(1) [OF assms] by (simp add: new_endpoints_def)
  have t: "ep_manager (deliver m1 ?n) = m1" "ep_sources (deliver m1 ?n) = new_source_controller"
    "ep_actors (deliver m1 ?n) = new_actor_controller"
    unfolding deliver_views [OF e] sources.deliver_Nil actors.deliver_Nil by (simp_all add: new_endpoints_def)
  have "with_sources reregister_all_sources (deliver m1 ?n) = deliver m1 ?n"
    "with_actors reregister_all_actors (deliver m1 ?n) = deliver m1 ?n"
    by (simp_all add: with_sources_def with_actors_def t reregister_all_sources_def reregister_all_actors_def
        new_source_controller_def new_actor_controller_def)
  moreover have "\<not> cm_started (ep_manager ?n)" by (simp add: new_endpoints_def new_comm_manager_def init_options_def Let_def)
  then have "endpoint_step uuid EndpointsStarting ?n =
      with_actors reregister_all_actors (with_sources reregister_all_sources (deliver m1 ?n))"
    using assms by (simp add: endpoint_step_def new_endpoints_def)
  ultimately show "ep_manager (endpoint_step uuid EndpointsStarting ?n) = m1"
    "ep_sources (endpoint_step uuid EndpointsStarting ?n) = new_source_controller" by (simp_all add: t)
qed

theorem io_points_follow_manager_witness:
  "\<exists>item. jget (io_source_items (ep_sources (fold (endpoint_step (\<lambda>_. ''u2''))
      [EndpointsStarting, UseSource sample_source, AssociateReceived
        \<lparr>as_source = JStr ''s'', as_actor = JStr ''a'', as_route = JStr ''r'', as_external = JUndef, as_rate = jint 5\<rparr>]
      (new_endpoints (\<lambda>_. ''u2'') sample_points_config)))) ''s'' = Some item \<and>
    si_associated item \<and> si_pipeline item = Some (pipeline_for (si_source item) (jint 5))"
proof -
  let ?u = "\<lambda>_ :: nat. ''u2''" and ?m = "new_comm_manager (\<lambda>_. ''u2'') sample_points_config"
  let ?d = "\<lparr>as_source = JStr ''s'', as_actor = JStr ''a'', as_route = JStr ''r'', as_external = JUndef, as_rate = jint 5\<rparr>"
  let ?evs = "[EndpointsStarting, UseSource sample_source, AssociateReceived ?d]"
  obtain m1 where m1: "join_binding ?m = Inr m1" using sample_points_join ..
  note j = join_binding_emits [OF m1]
  define s1 where "s1 = endpoint_step ?u EndpointsStarting (new_endpoints ?u sample_points_config)"
  note s1 = start_without_points [OF m1, folded s1_def]
  obtain b r m2 where o: "observe_io_state ''s'' m1 = ((b, r), m2)" by (metis surj_pair)
  have i_s: "point_id sample_source = ''s''" by (simp add: point_id_def sample_source_def prop_string_def)
  define s2 where "s2 = endpoint_step ?u (UseSource sample_source) s1"
  have s2: "ep_manager s2 = m2" "jget (io_source_items (ep_sources s2)) ''s'' \<noteq> None"
    by (simp_all add: s2_def endpoint_step_def with_sources_def s1 ensure_source_def new_source_controller_def o i_s
        set_source_item_def Let_def)
  have n: "ia_nodes m2 = [sample_points_node]" "states_of m2 ''s'' \<noteq> None" "cm_started m2"
    using o join_nodes [OF m1] sample_points_manager(1) observe_io_state_spec [OF o] j(4)
    by (auto simp: observe_io_state_def Let_def split: option.splits)
  define s3 where "s3 = endpoint_step ?u (AssociateReceived ?d) s2"
  have s3: "ep_manager s3 = handle_associate ?d m2" by (simp add: s3_def endpoint_step_def deliver_def s2)
  have "find_io_point_by_id (ia_nodes m2) ''s'' \<noteq> None" "find_io_point_by_id (ia_nodes m2) ''a'' = None"
    by (simp_all add: n sample_points_node_def sample_source_def has_id_def)
  from associated_source_state [OF this n(2)]
  have st: "jget (ia_states (ep_manager s3)) ''s'' = Some (True, jint 5)" by (simp add: s3 states_of_def)
  have started: "cm_started (ep_manager s3)"
    using handle_associate_emits [of m2 ?d "cm_started (handle_associate ?d m2)"] n(3) by (auto simp: s3)
  have "in_step_state (waiting s2) s2" unfolding s2_def s1_def by (intro endpoint_step_in_step new_endpoints_in_step)
  then have "source_points (ep_sources s3) = source_points (ep_sources s2)" unfolding s3_def by (rule associate_keeps_points)
  then obtain item where it: "jget (io_source_items (ep_sources s3)) ''s'' = Some item"
    using s2(2) source_points_iff [of "''s''"] by (auto simp: set_eq_iff)
  have run: "s3 = fold (endpoint_step ?u) ?evs (new_endpoints ?u sample_points_config)" by (simp add: s1_def s2_def s3_def)
  from io_points_follow_manager [OF run] started it
  have "jget (ia_states (ep_manager s3)) ''s'' = Some (si_associated item, si_rate item) \<and>
      si_pipeline item = (if si_associated item then Some (pipeline_for (si_source item) (si_rate item)) else None)" by blast
  with st it show ?thesis unfolding run by simp
qed
text \<open>A source whose only subscription the controller has cancelled is not told that its association
  ends: it stays associated in the controller's records while communication is stopped.\<close>

lemma not_listening_unchanged:
  assumes "i \<notin> set (io_source_listeners c)"
  shows "jget (io_source_items (deliver_to_sources ds c)) i = jget (io_source_items c) i"
  using assms
proof (induction ds arbitrary: c)
  case (Cons d ds)
  have pow: "jget (io_source_items ((on_source_state_changed j b r ^^ n) c)) i = jget (io_source_items c) i \<and>
      io_source_listeners ((on_source_state_changed j b r ^^ n) c) = io_source_listeners c" if "i \<noteq> j" for j b r n
    using that by (induction n) (simp_all add: on_source_state_keeps)
  show ?case
  proof (cases d)
    case (IoStateNext j b r)
    show ?thesis
    proof (cases "i = j")
      case True
      then show ?thesis using Cons sources.listening_none [of i "io_source_listeners c"]
        by (simp add: IoStateNext sources.deliver_next)
    next
      case False
      then show ?thesis using Cons pow [OF False] by (simp add: IoStateNext sources.deliver_next)
    qed
  qed (use Cons in \<open>simp_all add: sources.deliver_complete sources.deliver_other is_state_def leave_source_def\<close>)
qed (simp add: sources.deliver_Nil)

lemma association_outlives_stop:
  assumes "cm_started (ep_manager s)" "jget (io_source_items (ep_sources s)) i = Some item"
    "i \<notin> set (io_source_listeners (deregister_all_sources (ep_sources s)))"
  shows "\<exists>item'. jget (io_source_items (ep_sources (endpoint_step uuid (EndpointsStopping options) s))) i = Some item' \<and>
    si_associated item' = si_associated item"
  using assms not_listening_unchanged [OF assms(3)]
  by (simp add: endpoint_step_def deliver_def deregister_items)

text \<open>Each subscription on the values of an actor emits the value; starting adds a subscription.\<close>

lemma value_emitted_per_subscription:
  assumes "jget (io_actor_items c) i = Some item"
  shows "io_actor_out (deliver_to_actors [IoValueNext i v] c) =
    io_actor_out c @ replicate (listeners_of i (io_actor_value_listeners c)) (ActorValueNext i v)"
proof -
  have "io_actor_out ((on_actor_value_changed i v ^^ n) c) = io_actor_out c @ replicate n (ActorValueNext i v) \<and>
      jget (io_actor_items ((on_actor_value_changed i v ^^ n) c)) i \<noteq> None" for n
    by (induction n) (auto simp: assms on_actor_value_changed_def actor_out_def set_actor_item_def replicate_append_same)
  then show ?thesis by (simp add: deliver_to_actors_def)
qed

lemma reregistered_actor_subscribes_again:
  "listeners_of i (io_actor_value_listeners (snd (reregister_actor i (m, c)))) =
    Suc (listeners_of i (io_actor_value_listeners c))"
proof -
  have "io_actor_value_listeners (on_actor_state_changed i b c') = io_actor_value_listeners c'" for b c'
    by (simp add: on_actor_state_changed_def actor_out_def set_actor_item_def split: option.split)
  then show ?thesis
    by (simp add: reregister_actor_def Let_def listeners_of_def actor_out_def set_actor_item_def listen_to_actor_def
        split: prod.split option.split)
qed

end
