(* ===== verification/SqLite.thy ===== *)
theory SqLite
  imports PgFetch
begin

text \<open>
  The SQLite adapters, \<open>src/src/db/adapter-sqlite-base/sqlite-base-adapter.ts\<close> and
  \<open>src/src/db/adapter-sqlite-node/sqlite-node-adapter.ts\<close>: local stores of keys and values, the iteration
  over the rows of a query, and transactions. The database is a parameter, as are JSON texts.
\<close>

section \<open>Statements\<close>

definition quoted_with :: "char \<Rightarrow> string \<Rightarrow> string" where
  "quoted_with escape text = [escape] @ concat (map (\<lambda>c. if c = escape then [c, c] else [c]) text) @ [escape]"

text \<open>A value that is not a string is quoted by its JSON text; one without a JSON text, which makes
  \<open>asIdent\<close> throw, is not a value of a statement here.\<close>

definition text_of :: "json_env \<Rightarrow> jsv \<Rightarrow> string" where
  "text_of je text = (case text of JStr s \<Rightarrow> s | _ \<Rightarrow> (case json_text je text of Some t \<Rightarrow> t | None \<Rightarrow> []))"

definition as_ident :: "json_env \<Rightarrow> jsv \<Rightarrow> string" where
  "as_ident je text = quoted_with dquote (text_of je text)"

definition as_string_literal :: "json_env \<Rightarrow> jsv \<Rightarrow> string" where
  "as_string_literal je text = quoted_with quote (text_of je text)"

text \<open>\<open>getSqlQuery\<close>.\<close>

definition sqlite_dialect :: "json_env \<Rightarrow> sql_dialect" where
  "sqlite_dialect je =
    \<lparr>sd_placeholder = ''?'', sd_append_index = False, sd_identifier = as_ident je, sd_literal = as_string_literal je\<rparr>"

definition get_sql_query :: "json_env \<Rightarrow> sql_query \<Rightarrow> string \<times> jsv list" where
  "get_sql_query je sql = build_query (sqlite_dialect je) False 0 sql"

section \<open>Local stores\<close>

definition default_kv_store :: string where
  "default_kv_store = ''__coaty_default_kvstore''"

text \<open>\<open>store || DEFAULT_KV_STORE\<close>; an undefined store is the empty string here.\<close>

definition kv_table :: "string \<Rightarrow> string" where
  "kv_table store = (if store = [] then default_kv_store else store)"

definition new_line :: "nat \<Rightarrow> string" where
  "new_line indent = CHR 0x0A # replicate indent (CHR '' '')"

datatype store_op = CREATE | DROP

definition get_store_query :: "store_op \<Rightarrow> string \<Rightarrow> sql_query" where
  "get_store_query op1 store =
    (case op1 of
       CREATE \<Rightarrow> SQL ''CREATE TABLE IF NOT EXISTS ''
         [(Plain (JStr (kv_table store)), ident_annotation @ new_line 29 @ ''(key text primary key, value text)'')]
     | DROP \<Rightarrow> SQL ''DROP TABLE IF EXISTS '' [(Plain (JStr (kv_table store)), ident_annotation)])"

datatype kv_op = GET | GETV | SET | DELETE | CLEAR

definition get_kv_query :: "kv_op \<Rightarrow> string \<Rightarrow> jsv \<Rightarrow> jsv \<Rightarrow> sql_query" where
  "get_kv_query op1 store key value1 =
    (let tableName = Plain (JStr (kv_table store)) in
     case op1 of
       GET \<Rightarrow> SQL ''SELECT value from ''
         [(tableName, ident_annotation @ '' '' @ new_line 29 @ ''WHERE key = ''), (Plain key, '' limit 1'')]
     | GETV \<Rightarrow> SQL ''SELECT key, value from '' [(tableName, ident_annotation)]
     | SET \<Rightarrow> SQL ''INSERT OR REPLACE INTO ''
         [(tableName, ident_annotation @ ''(key, value)'' @ new_line 29 @ ''VALUES (''), (Plain key, '', ''), (Plain value1, '')'')]
     | DELETE \<Rightarrow> SQL ''DELETE FROM '' [(tableName, ident_annotation @ new_line 29 @ ''WHERE key = ''), (Plain key, [])]
     | CLEAR \<Rightarrow> SQL ''DELETE FROM '' [(tableName, ident_annotation)])"

text \<open>The database executes a statement with its parameters and returns rows. \<open>JSON.stringify\<close> has no text
  for \<open>undefined\<close>; \<open>JSON.parse\<close> may throw.\<close>

record 'db kv_env =
  kv_exec :: "string \<times> jsv list \<Rightarrow> 'db \<Rightarrow> (js_error + jsv list) \<times> 'db"
  kv_parse :: "jsv \<Rightarrow> js_error + jsv"
  kv_json :: json_env

definition stringify :: "json_env \<Rightarrow> jsv \<Rightarrow> jsv" where
  "stringify je v = (case json_text je v of Some t \<Rightarrow> JStr t | None \<Rightarrow> JUndef)"

definition kv_query :: "'db kv_env \<Rightarrow> sql_query \<Rightarrow> 'db \<Rightarrow> (js_error + jsv list) \<times> 'db" where
  "kv_query env sql db = kv_exec env (get_sql_query (kv_json env) sql) db"

definition result_of :: "(js_error + jsv list) \<times> 'db \<Rightarrow> (js_error + jsv) \<times> 'db" where
  "result_of r = (rbind (fst r) (\<lambda>rows. Inr (jobj [(''rows'', JArr rows)])), snd r)"

definition add_store :: "'db kv_env \<Rightarrow> string \<Rightarrow> 'db \<Rightarrow> (js_error + jsv) \<times> 'db" where
  "add_store env name db = result_of (kv_query env (get_store_query CREATE name) db)"

text \<open>The rejected promise for a missing name is dropped.\<close>

definition remove_store :: "'db kv_env \<Rightarrow> string \<Rightarrow> 'db \<Rightarrow> (js_error + jsv) \<times> 'db" where
  "remove_store env name db = result_of (kv_query env (get_store_query DROP name) db)"

definition get_value :: "'db kv_env \<Rightarrow> string \<Rightarrow> string \<Rightarrow> 'db \<Rightarrow> (js_error + jsv) \<times> 'db" where
  "get_value env key store db =
    (let (r, db') = kv_query env (get_kv_query GET store (JStr key) JUndef) db
     in (rbind r (\<lambda>rows. case rows of
           [] \<Rightarrow> Inr JUndef
         | row # rest \<Rightarrow> kv_parse env (get_prop row ''value'')), db'))"

text \<open>\<open>obj[row.key] = value\<close>; with the key \<open>__proto__\<close> it makes no property of \<open>obj\<close>, but would set its prototype.\<close>

definition row_key :: "jsv \<Rightarrow> string" where
  "row_key row = (case get_prop row ''key'' of JStr k \<Rightarrow> k | _ \<Rightarrow> ''null'')"

definition put_value :: "string \<Rightarrow> jsv \<Rightarrow> jsv \<Rightarrow> jsv" where
  "put_value key v obj = (if key = ''__proto__'' then obj else set_prop key v obj)"

fun values_object :: "'db kv_env \<Rightarrow> jsv list \<Rightarrow> jsv \<Rightarrow> js_error + jsv" where
  "values_object env [] obj = Inr obj"
| "values_object env (row # rows) obj =
    rbind (kv_parse env (get_prop row ''value'')) (\<lambda>v.
      values_object env rows (put_value (row_key row) v obj))"

definition get_values :: "'db kv_env \<Rightarrow> string \<Rightarrow> 'db \<Rightarrow> (js_error + jsv) \<times> 'db" where
  "get_values env store db =
    (let (r, db') = kv_query env (get_kv_query GETV store JUndef JUndef) db
     in (rbind r (\<lambda>rows. values_object env rows (jobj [])), db'))"

definition set_value :: "'db kv_env \<Rightarrow> string \<Rightarrow> jsv \<Rightarrow> string \<Rightarrow> 'db \<Rightarrow> (js_error + jsv) \<times> 'db" where
  "set_value env key value1 store db =
    result_of (kv_query env (get_kv_query SET store (JStr key) (stringify (kv_json env) value1)) db)"

definition delete_value :: "'db kv_env \<Rightarrow> string \<Rightarrow> string \<Rightarrow> 'db \<Rightarrow> (js_error + jsv) \<times> 'db" where
  "delete_value env key store db = result_of (kv_query env (get_kv_query DELETE store (JStr key) JUndef) db)"

definition clear_values :: "'db kv_env \<Rightarrow> string \<Rightarrow> 'db \<Rightarrow> (js_error + jsv) \<times> 'db" where
  "clear_values env store db = result_of (kv_query env (get_kv_query CLEAR store JUndef JUndef) db)"

section \<open>Iteration\<close>

text \<open>The actions of an iterator; an action may throw.\<close>

datatype row_consumer = EachRow "jsv \<Rightarrow> nat \<Rightarrow> js_error + bool" | BatchRows int "jsv list \<Rightarrow> js_error + bool"

record row_run =
  rw_index :: nat
  rw_batch :: "jsv list"
  rw_break :: bool
  rw_error :: "js_error option"
  rw_out :: "query_out list"

definition new_row_run :: row_run where
  "new_row_run = \<lparr>rw_index = 0, rw_batch = [], rw_break = False, rw_error = None, rw_out = []\<rparr>"

text \<open>The callback of \<open>db.each\<close> for a row or an error.\<close>

definition yield_row :: "row_consumer \<Rightarrow> jsv \<Rightarrow> row_run \<Rightarrow> row_run" where
  "yield_row c row r =
    (case c of
       EachRow act \<Rightarrow>
         (let r' = r\<lparr>rw_out := rw_out r @ [EachItem row (rw_index r)]\<rparr> in
          case act row (rw_index r) of
            Inl e \<Rightarrow> r'\<lparr>rw_error := Some e\<rparr>
          | Inr b \<Rightarrow> r'\<lparr>rw_index := Suc (rw_index r), rw_break := \<not> b\<rparr>)
     | BatchRows batchSize act \<Rightarrow>
         (let batch = rw_batch r @ [row] in
          if batchSize > 0 \<and> int (length batch) = batchSize then
            (let r' = r\<lparr>rw_out := rw_out r @ [Batch batch]\<rparr> in
             case act batch of
               Inl e \<Rightarrow> r'\<lparr>rw_batch := batch, rw_error := Some e\<rparr>
             | Inr b \<Rightarrow> r'\<lparr>rw_batch := [], rw_index := Suc (rw_index r), rw_break := \<not> b\<rparr>)
          else r\<lparr>rw_batch := batch, rw_index := Suc (rw_index r)\<rparr>))"

definition row_callback :: "row_consumer \<Rightarrow> js_error + jsv \<Rightarrow> row_run \<Rightarrow> row_run" where
  "row_callback c ev r =
    (if rw_error r \<noteq> None \<or> rw_break r then r
     else case ev of
       Inl e \<Rightarrow> r\<lparr>rw_error := Some e\<rparr>
     | Inr row \<Rightarrow> yield_row c row r)"

text \<open>The callback of \<open>db.each\<close> for the end. The first rejection of the promise counts.\<close>

definition settled :: "row_run \<Rightarrow> js_error + nat \<times> bool \<Rightarrow> js_error + nat \<times> bool" where
  "settled r result = (case rw_error r of Some e \<Rightarrow> Inl e | None \<Rightarrow> result)"

definition not_a_function :: js_error where
  "not_a_function = TypeError ''iterator.forBatchAction is not a function''"

definition complete_callback ::
  "row_consumer \<Rightarrow> js_error option \<Rightarrow> row_run \<Rightarrow> (js_error + nat \<times> bool) \<times> query_out list" where
  "complete_callback c err r =
    (case err of
       Some e \<Rightarrow> (settled r (Inl e), rw_out r)
     | None \<Rightarrow>
         (if rw_batch r \<noteq> [] \<or> rw_index r = 0 then
            (case c of
               EachRow act \<Rightarrow> (settled r (Inl not_a_function), rw_out r)
             | BatchRows batchSize act \<Rightarrow>
                 (settled r (case act (rw_batch r) of
                      Inl e \<Rightarrow> Inl e
                    | Inr b \<Rightarrow> Inr (rw_index r, if \<not> b then True else rw_break r)),
                  rw_out r @ [Batch (rw_batch r)]))
          else (settled r (Inr (rw_index r, rw_break r)), rw_out r)))"

definition iterate_rows ::
  "(js_error + jsv) list \<Rightarrow> js_error option \<Rightarrow> row_consumer \<Rightarrow> (js_error + nat \<times> bool) \<times> query_out list" where
  "iterate_rows rows err c = complete_callback c err (fold (row_callback c) rows new_row_run)"

section \<open>Transactions\<close>

datatype tx_call = Begin | Commit | Rollback

definition savepoint_error :: js_error where
  "savepoint_error = Error ''Nested transactions (savepoints) are not supported.''"

text \<open>\<open>run\<close> is whether the database accepts a command; the action's promise settles with \<open>action\<close>.\<close>

definition commit_lite :: "(tx_call \<Rightarrow> js_error option) \<Rightarrow> (js_error + jsv) \<times> tx_call list" where
  "commit_lite run = (case run Commit of Some e \<Rightarrow> (Inl e, [Commit]) | None \<Rightarrow> (Inr JUndef, [Commit]))"

definition rollback_lite :: "js_error \<Rightarrow> (js_error + jsv) \<times> tx_call list" where
  "rollback_lite error = (Inl error, [Rollback])"

definition transact :: "(tx_call \<Rightarrow> js_error option) \<Rightarrow> js_error + jsv \<Rightarrow> (js_error + jsv) \<times> tx_call list" where
  "transact run action = (case action of Inr v \<Rightarrow> commit_lite run | Inl e \<Rightarrow> rollback_lite e)"

definition lite_transaction ::
  "js_error option \<Rightarrow> bool \<Rightarrow> (tx_call \<Rightarrow> js_error option) \<Rightarrow> js_error + jsv \<Rightarrow> (js_error + jsv) \<times> tx_call list" where
  "lite_transaction opened inTransaction run action =
    (case opened of
       Some e \<Rightarrow> (Inl e, [])
     | None \<Rightarrow>
         (if inTransaction then (Inl savepoint_error, [])
          else
            (let (r, calls) = (case run Begin of Some e \<Rightarrow> rollback_lite e | None \<Rightarrow> transact run action)
             in (r, Begin # calls))))"

end
