(* ===== verification/SqLiteProps.thy ===== *)
theory SqLiteProps
  imports SqLite PgFetchProps SqlScanProps
begin

text \<open>
  The SQLite adapters: iterations deliver what the Postgres adapter delivers, transactions end with their
  action, and local stores are maps from keys to values.
\<close>

section \<open>Iteration\<close>

text \<open>An action that does not throw.\<close>

fun never_throws :: "consumer \<Rightarrow> row_consumer" where
  "never_throws (ForEach act) = EachRow (\<lambda>x i. Inr (act x i))"
| "never_throws (ForBatch n act) = BatchRows n (\<lambda>b. Inr (act b))"

definition same_run :: "row_run \<Rightarrow> query_run \<Rightarrow> bool" where
  "same_run r q = (rw_index r = qr_count q \<and> rw_batch r = qr_batch q \<and> rw_break r = qr_break q \<and>
     rw_error r = None \<and> rw_out r = qr_out q)"

lemma yield_row_same:
  "same_run r q \<Longrightarrow> \<not> qr_break q \<Longrightarrow> same_run (yield_row (never_throws c) row r) (yield_item c row q)"
  by (cases c) (auto simp: same_run_def yield_row_def yield_item_def Let_def)

lemma row_callbacks_stop: "rw_error r \<noteq> None \<or> rw_break r \<Longrightarrow> fold (row_callback c) rows r = r"
  by (induction rows arbitrary: r) (auto simp: row_callback_def)

lemma fold_rows_same:
  "same_run r q \<Longrightarrow> \<not> qr_break q \<Longrightarrow>
    same_run (fold (row_callback (never_throws c)) (map Inr rows) r) (fst (yield_rows c 0 rows q))"
proof (induction rows arbitrary: r q)
  case (Cons row rows)
  let ?r = "yield_row (never_throws c) row r" and ?q = "yield_item c row q"
  have cb: "row_callback (never_throws c) (Inr row) r = ?r" using Cons.prems by (simp add: row_callback_def same_run_def)
  have s: "same_run ?r ?q" by (rule yield_row_same [OF Cons.prems])
  show ?case
  proof (cases "qr_break ?q")
    case True
    then have "fold (row_callback (never_throws c)) (map Inr rows) ?r = ?r"
      using s by (intro row_callbacks_stop) (simp add: same_run_def)
    then show ?thesis using s True by (simp add: cb Let_def)
  next
    case False
    then show ?thesis using Cons.IH [OF s False] by (simp add: cb Let_def)
  qed
qed simp

lemma each_leaves_no_batch:
  "rw_batch r = [] \<Longrightarrow> rw_batch (fold (row_callback (EachRow act)) rows r) = []"
proof (induction rows arbitrary: r)
  case (Cons ev rows)
  have "rw_batch (row_callback (EachRow act) ev r) = []"
    using Cons.prems by (auto simp: row_callback_def yield_row_def Let_def split: sum.split)
  from Cons.IH [OF this] show ?case by simp
qed simp

lemma each_counts:
  "rows \<noteq> [] \<Longrightarrow> \<not> qr_break q \<Longrightarrow> qr_count (fst (yield_rows (ForEach act) 0 rows q)) \<noteq> 0"
  using yield_rows_each [of q act rows] by (cases rows) simp_all

text \<open>C33: An iteration over the rows of a query on SQLite that no database error interrupts delivers to an
  action that does not throw exactly what the Postgres adapter delivers for the same rows, with the same
  result, for both kinds of iteration and every size of batches; only if there are no rows an iteration
  one by one is rejected with a TypeError, where the Postgres adapter reports zero iterations. Actions
  that throw are treated otherwise, as \<open>failed_batch_delivered_twice\<close> shows.\<close>

theorem sqlite_iterates_like_postgres:
  "iterate_rows (map Inr rows) None (never_throws c) =
    (case c of
       ForEach act \<Rightarrow> (if rows = [] then (Inl not_a_function, []) else fetch_once (Inr rows) c)
     | ForBatch n act \<Rightarrow> fetch_once (Inr rows) c)"
proof -
  define r where "r = fold (row_callback (never_throws c)) (map Inr rows) new_row_run"
  define q where "q = fst (yield_rows c 0 rows new_run)"
  have s: "same_run r q"
    unfolding r_def q_def by (rule fold_rows_same) (simp_all add: same_run_def new_row_run_def new_run_def)
  show ?thesis
  proof (cases c)
    case (ForEach act)
    show ?thesis
    proof (cases "rows = []")
      case True
      then show ?thesis
        by (simp add: ForEach iterate_rows_def complete_callback_def new_row_run_def settled_def)
    next
      case False
      have "rw_batch r = []" using each_leaves_no_batch [of new_row_run] by (simp add: r_def ForEach new_row_run_def)
      moreover have "qr_count q \<noteq> 0" using each_counts [OF False, of new_run act] by (simp add: q_def ForEach new_run_def)
      ultimately have "complete_callback (never_throws c) None r = (Inr (qr_count q, qr_break q), qr_out q)"
        using s by (simp add: complete_callback_def settled_def same_run_def)
      then show ?thesis using False
        by (simp add: ForEach iterate_rows_def r_def fetch_once_def q_def last_batch_def Let_def)
    qed
  next
    case (ForBatch n act)
    have "complete_callback (never_throws c) None r =
        (let q' = last_batch c q in (Inr (qr_count q', qr_break q'), qr_out q'))"
      using s by (simp add: ForBatch complete_callback_def settled_def same_run_def last_batch_def Let_def)
    then show ?thesis by (simp add: ForBatch iterate_rows_def r_def fetch_once_def q_def)
  qed
qed

text \<open>The first error ends the iteration: no row after it reaches the action and the promise is rejected
  with it. A batch whose action threw is still the current one at the end and is delivered again.\<close>

lemma failed_run_rejects: "rw_error r = Some e \<Longrightarrow> fst (complete_callback c err r) = Inl e"
  by (auto simp: complete_callback_def settled_def split: option.split row_consumer.split)

lemma iteration_fails_with_first_error:
  assumes "rw_error (fold (row_callback c) rows new_row_run) = Some e"
  shows "fst (iterate_rows (rows @ later) err c) = Inl e"
    "fold (row_callback c) (rows @ later) new_row_run = fold (row_callback c) rows new_row_run"
proof -
  show f: "fold (row_callback c) (rows @ later) new_row_run = fold (row_callback c) rows new_row_run"
    using row_callbacks_stop [of "fold (row_callback c) rows new_row_run" c later] assms by simp
  show "fst (iterate_rows (rows @ later) err c) = Inl e"
    unfolding iterate_rows_def f by (rule failed_run_rejects [OF assms])
qed

lemma failed_batch_delivered_twice:
  assumes "batch \<noteq> []" "act batch = Inl e"
  shows "iterate_rows (map Inr batch) None (BatchRows (int (length batch)) act) = (Inl e, [Batch batch, Batch batch])"
proof -
  let ?c = "BatchRows (int (length batch)) act"
  have fill: "fold (row_callback ?c) (map Inr xs) r =
      r\<lparr>rw_batch := rw_batch r @ xs, rw_index := rw_index r + length xs\<rparr>"
    if "length (rw_batch r) + length xs < length batch" "rw_error r = None" "\<not> rw_break r" for xs r
    using that
  proof (induction xs arbitrary: r)
    case (Cons x xs)
    have "row_callback ?c (Inr x) r = r\<lparr>rw_batch := rw_batch r @ [x], rw_index := Suc (rw_index r)\<rparr>"
      using Cons.prems by (simp add: row_callback_def yield_row_def Let_def)
    then show ?case using Cons.IH [of "r\<lparr>rw_batch := rw_batch r @ [x], rw_index := Suc (rw_index r)\<rparr>"] Cons.prems by simp
  qed simp
  obtain xs x where b: "batch = xs @ [x]" using assms(1) by (cases batch rule: rev_cases) auto
  define r1 where "r1 = new_row_run\<lparr>rw_batch := xs, rw_index := length xs\<rparr>"
  have "fold (row_callback ?c) (map Inr xs) new_row_run = r1"
    using fill [of new_row_run xs] by (simp add: b r1_def new_row_run_def)
  then have "fold (row_callback ?c) (map Inr batch) new_row_run = row_callback ?c (Inr x) r1" by (simp add: b)
  also have "\<dots> = r1\<lparr>rw_out := [Batch batch], rw_batch := batch, rw_error := Some e\<rparr>"
    using assms(2) by (simp add: row_callback_def yield_row_def r1_def new_row_run_def b [symmetric] Let_def) (simp add: b)
  finally show ?thesis using assms
    by (simp add: iterate_rows_def complete_callback_def settled_def r1_def)
qed

section \<open>Transactions\<close>

text \<open>A transaction commits exactly if its action is fulfilled; it is fulfilled, without the action's
  result, exactly if the commit succeeds, and rejected with the action's error if there is one. A
  transaction inside a transaction is rejected and runs nothing.\<close>

lemma lite_transaction_settles:
  assumes "lite_transaction None inTransaction run action = (r, calls)"
    "began = (\<not> inTransaction \<and> run Begin = None)"
  shows "(Commit \<in> set calls \<longleftrightarrow> began \<and> \<not> isl action)" "began \<Longrightarrow> (Rollback \<in> set calls \<longleftrightarrow> isl action)"
    "r = Inr v \<longleftrightarrow> began \<and> \<not> isl action \<and> run Commit = None \<and> v = JUndef"
    "began \<Longrightarrow> action = Inl e \<Longrightarrow> r = Inl e" "inTransaction \<Longrightarrow> r = Inl savepoint_error \<and> calls = []"
  using assms
  by (auto simp: lite_transaction_def transact_def commit_lite_def rollback_lite_def Let_def split: if_splits option.splits sum.splits)

text \<open>If the transaction cannot begin, as when another one is open on the shared connection of the adapter,
  the connection is rolled back; if the commit fails, it is not.\<close>

lemma failed_begin_rolls_back:
  "run Begin = Some e \<Longrightarrow> lite_transaction None False run action = (Inl e, [Begin, Rollback])"
  by (simp add: lite_transaction_def rollback_lite_def)

lemma failed_commit_stays_open:
  "run Begin = None \<Longrightarrow> run Commit = Some e \<Longrightarrow> lite_transaction None False run (Inr v) = (Inl e, [Begin, Commit])"
  by (simp add: lite_transaction_def transact_def commit_lite_def)

section \<open>Local stores\<close>

text \<open>The statements as they reach the database, for a quoted table name.\<close>

fun kv_text :: "kv_op \<Rightarrow> string \<Rightarrow> string" where
  "kv_text GET table = ''SELECT value from '' @ table @ '' '' @ new_line 29 @ ''WHERE key = ? limit 1''"
| "kv_text GETV table = ''SELECT key, value from '' @ table"
| "kv_text SET table = ''INSERT OR REPLACE INTO '' @ table @ ''(key, value)'' @ new_line 29 @ ''VALUES (?, ?)''"
| "kv_text DELETE table = ''DELETE FROM '' @ table @ new_line 29 @ ''WHERE key = ?''"
| "kv_text CLEAR table = ''DELETE FROM '' @ table"

fun store_text :: "store_op \<Rightarrow> string \<Rightarrow> string" where
  "store_text CREATE table = ''CREATE TABLE IF NOT EXISTS '' @ table @ new_line 29 @ ''(key text primary key, value text)''"
| "store_text DROP table = ''DROP TABLE IF EXISTS '' @ table"

lemma store_statement:
  "get_sql_query je (get_store_query op1 name) = (store_text op1 (quoted_with dquote (kv_table name)), [])"
  by (cases op1) (simp_all add: get_sql_query_def get_store_query_def ident_annotation_def sqlite_dialect_def as_ident_def
      text_of_def starts_with_def lit_annotation_def)

lemma kv_statement:
  "get_sql_query je (get_kv_query op1 store key v) =
    (kv_text op1 (quoted_with dquote (kv_table store)),
     case op1 of GET \<Rightarrow> [key] | GETV \<Rightarrow> [] | SET \<Rightarrow> [key, v] | DELETE \<Rightarrow> [key] | CLEAR \<Rightarrow> [])"
  by (cases op1) (simp_all add: get_sql_query_def get_kv_query_def ident_annotation_def sqlite_dialect_def as_ident_def
      text_of_def starts_with_def lit_annotation_def)

text \<open>What SQLite does with them: \<open>tables db\<close> are the stores of a database, a map from keys to texts each.
  Table names are compared up to \<open>same\<close> (the case of letters).\<close>

type_synonym 'v stores = "string \<Rightarrow> (string \<rightharpoonup> 'v) option"
type_synonym 'db executor = "string \<times> jsv list \<Rightarrow> 'db \<Rightarrow> (js_error + jsv list) \<times> 'db"

definition gives :: "(js_error + jsv list) \<times> 'db \<Rightarrow> ('db \<Rightarrow> string stores) \<Rightarrow> (jsv list \<Rightarrow> bool) \<Rightarrow> string stores \<Rightarrow> bool" where
  "gives r tables P ts = (\<exists>rows db. r = (Inr rows, db) \<and> P rows \<and> tables db = ts)"

definition refused :: "(js_error + jsv list) \<times> 'db \<Rightarrow> ('db \<Rightarrow> string stores) \<Rightarrow> string stores \<Rightarrow> bool" where
  "refused r tables ts = (\<exists>e db. r = (Inl e, db) \<and> tables db = ts)"

definition value_rows :: "string option \<Rightarrow> jsv list" where
  "value_rows t = (case t of None \<Rightarrow> [] | Some s \<Rightarrow> [jobj [(''value'', JStr s)]])"

definition entry_row :: "string \<times> string \<Rightarrow> jsv" where
  "entry_row e = jobj [(''key'', JStr (fst e)), (''value'', JStr (snd e))]"

definition entry_rows :: "(string \<rightharpoonup> string) \<Rightarrow> jsv list \<Rightarrow> bool" where
  "entry_rows m rows = (\<exists>kvs. distinct (map fst kvs) \<and> map_of kvs = m \<and> rows = map entry_row kvs)"

text \<open>The names that SQLite lets a table have: those that do not start with \<open>sqlite_\<close>, in any case of letters,
  which it reserves, and have no NUL, which would end the statement.\<close>

definition ascii_lower :: "char \<Rightarrow> char" where
  "ascii_lower c = (let n = (of_char c :: nat) in if 65 \<le> n \<and> n \<le> 90 then char_of (n + 32) else c)"

definition storable :: "string \<Rightarrow> bool" where
  "storable name = (map ascii_lower (take 7 name) \<noteq> ''sqlite_'' \<and> CHR 0x00 \<notin> set name)"

definition creates_stores :: "'db executor \<Rightarrow> ('db \<Rightarrow> string stores) \<Rightarrow> (string \<Rightarrow> string) \<Rightarrow> bool" where
  "creates_stores exec tables same =
    (\<forall>db name. storable name \<longrightarrow> (let q = quoted_with dquote name; ts = tables db in
      gives (exec (store_text CREATE q, []) db) tables (\<lambda>rows. True)
        (ts(same name := Some (case ts (same name) of None \<Rightarrow> Map.empty | Some m \<Rightarrow> m))) \<and>
      gives (exec (store_text DROP q, []) db) tables (\<lambda>rows. True) (ts(same name := None))))"

definition serves_stores :: "'db executor \<Rightarrow> ('db \<Rightarrow> string stores) \<Rightarrow> (string \<Rightarrow> string) \<Rightarrow> bool" where
  "serves_stores exec tables same =
    (\<forall>db name m k t. let q = quoted_with dquote name; ts = tables db in
      storable name \<longrightarrow> ts (same name) = Some m \<longrightarrow>
      gives (exec (kv_text GET q, [JStr k]) db) tables (\<lambda>rows. rows = value_rows (m k)) ts \<and>
      gives (exec (kv_text GETV q, []) db) tables (entry_rows m) ts \<and>
      gives (exec (kv_text SET q, [JStr k, JStr t]) db) tables (\<lambda>rows. True) (ts(same name := Some (m(k \<mapsto> t)))) \<and>
      gives (exec (kv_text DELETE q, [JStr k]) db) tables (\<lambda>rows. True) (ts(same name := Some (m(k := None)))) \<and>
      gives (exec (kv_text CLEAR q, []) db) tables (\<lambda>rows. True) (ts(same name := Some Map.empty)))"

definition misses_stores :: "'db executor \<Rightarrow> ('db \<Rightarrow> string stores) \<Rightarrow> (string \<Rightarrow> string) \<Rightarrow> bool" where
  "misses_stores exec tables same =
    (\<forall>db name op1 ps. storable name \<longrightarrow> tables db (same name) = None \<longrightarrow>
      refused (exec (kv_text op1 (quoted_with dquote name), ps) db) tables (tables db))"

text \<open>The calls of the store, and what they are to do on a map of maps.\<close>

datatype kv_call = AddStore string | RemoveStore string | GetValue string string | GetValues string
  | SetValue string jsv string | DeleteValue string string | ClearValues string

definition kv_step :: "'db kv_env \<Rightarrow> kv_call \<Rightarrow> 'db \<Rightarrow> (js_error + jsv) \<times> 'db" where
  "kv_step env call =
    (case call of AddStore name \<Rightarrow> add_store env name | RemoveStore name \<Rightarrow> remove_store env name
     | GetValue key store \<Rightarrow> get_value env key store | GetValues store \<Rightarrow> get_values env store
     | SetValue key v store \<Rightarrow> set_value env key v store | DeleteValue key store \<Rightarrow> delete_value env key store
     | ClearValues store \<Rightarrow> clear_values env store)"

datatype kv_answer = Failed | Done | Found "jsv option" | FoundAll "string \<rightharpoonup> jsv"

definition on_store :: "string \<Rightarrow> jsv stores \<Rightarrow> ((string \<rightharpoonup> jsv) \<Rightarrow> kv_answer \<times> (string \<rightharpoonup> jsv)) \<Rightarrow> kv_answer \<times> jsv stores" where
  "on_store table st f = (case st table of None \<Rightarrow> (Failed, st) | Some m \<Rightarrow> (fst (f m), st(table := Some (snd (f m)))))"

definition kv_reference :: "(string \<Rightarrow> string) \<Rightarrow> kv_call \<Rightarrow> jsv stores \<Rightarrow> kv_answer \<times> jsv stores" where
  "kv_reference same call st =
    (case call of
       AddStore name \<Rightarrow> (let t = same (kv_table name) in
         (Done, st(t := Some (case st t of None \<Rightarrow> Map.empty | Some m \<Rightarrow> m))))
     | RemoveStore name \<Rightarrow> (Done, st(same (kv_table name) := None))
     | GetValue key store \<Rightarrow> on_store (same (kv_table store)) st (\<lambda>m. (Found (m key), m))
     | GetValues store \<Rightarrow> on_store (same (kv_table store)) st (\<lambda>m. (FoundAll m, m))
     | SetValue key v store \<Rightarrow> on_store (same (kv_table store)) st (\<lambda>m. (Done, m(key \<mapsto> v)))
     | DeleteValue key store \<Rightarrow> on_store (same (kv_table store)) st (\<lambda>m. (Done, m(key := None)))
     | ClearValues store \<Rightarrow> on_store (same (kv_table store)) st (\<lambda>m. (Done, Map.empty)))"

fun answers :: "js_error + jsv \<Rightarrow> kv_answer \<Rightarrow> bool" where
  "answers r Failed = isl r"
| "answers r Done = (\<not> isl r)"
| "answers r (Found v) = (r = Inr (case v of None \<Rightarrow> JUndef | Some x \<Rightarrow> x))"
| "answers r (FoundAll m) = (\<exists>ps. r = Inr (jobj ps) \<and> jwf ps \<and> map_of ps = m)"

text \<open>The texts of a table stand for JSON values; a value is stored by its JSON text if that can be read again.\<close>

definition stands_for :: "'db kv_env \<Rightarrow> (string \<rightharpoonup> string) \<Rightarrow> (string \<rightharpoonup> jsv) \<Rightarrow> bool" where
  "stands_for env m j =
    (m ''__proto__'' = None \<and>
     (\<forall>k. rel_option (\<lambda>t v. kv_parse env (JStr t) = Inr v) (m k) (j k)))"

definition stores_for :: "'db kv_env \<Rightarrow> string stores \<Rightarrow> jsv stores \<Rightarrow> bool" where
  "stores_for env ts st = (\<forall>t. rel_option (stands_for env) (ts t) (st t))"

definition store_of :: "kv_call \<Rightarrow> string" where
  "store_of call =
    (case call of AddStore name \<Rightarrow> name | RemoveStore name \<Rightarrow> name | GetValue key store \<Rightarrow> store
     | GetValues store \<Rightarrow> store | SetValue key v store \<Rightarrow> store | DeleteValue key store \<Rightarrow> store
     | ClearValues store \<Rightarrow> store)"

definition value_ok :: "'db kv_env \<Rightarrow> string \<Rightarrow> jsv \<Rightarrow> bool" where
  "value_ok env key v =
    (key \<noteq> ''__proto__'' \<and> (\<exists>t. json_text (kv_json env) v = Some t \<and> kv_parse env (JStr t) = Inr v))"

definition call_ok :: "'db kv_env \<Rightarrow> kv_call \<Rightarrow> bool" where
  "call_ok env call =
    (storable (kv_table (store_of call)) \<and>
     (case call of SetValue key v store \<Rightarrow> value_ok env key v | _ \<Rightarrow> True))"

lemma stores_for_update: "stores_for env ts st \<Longrightarrow> rel_option (stands_for env) m j \<Longrightarrow> stores_for env (ts(t := m)) (st(t := j))"
  by (simp add: stores_for_def)

lemma stands_for_simps:
  "stands_for env Map.empty Map.empty"
  "stands_for env m j \<Longrightarrow> stands_for env (m(k := None)) (j(k := None))"
  "stands_for env m j \<Longrightarrow> k \<noteq> ''__proto__'' \<Longrightarrow> kv_parse env (JStr t) = Inr v \<Longrightarrow> stands_for env (m(k \<mapsto> t)) (j(k \<mapsto> v))"
  by (simp_all add: stands_for_def)

lemma put_all_values:
  assumes "\<forall>(k, t) \<in> set kvs. k \<noteq> ''__proto__'' \<and> kv_parse env (JStr t) = Inr (v k)"
  shows "values_object env (map entry_row kvs) (jobj ps) = Inr (jobj (fold (\<lambda>(k, t). jset k (v k)) kvs ps))"
  using assms
proof (induction kvs arbitrary: ps)
  case (Cons e kvs)
  obtain k t where e: "e = (k, t)" by (metis surj_pair)
  show ?case using Cons.IH [of "jset k (v k) ps"] Cons.prems
    by (simp add: e entry_row_def put_value_def row_key_def)
qed simp

lemma fold_jset_fresh:
  "distinct (map fst kvs) \<Longrightarrow> set (map fst kvs) \<inter> dom (map_of ps) = {} \<Longrightarrow> jwf ps \<Longrightarrow>
    jwf (fold (\<lambda>(k, t). jset k (f k)) kvs ps) \<and>
    map_of (fold (\<lambda>(k, t). jset k (f k)) kvs ps) =
      (\<lambda>k. if k \<in> set (map fst kvs) then Some (f k) else map_of ps k)"
proof (induction kvs arbitrary: ps)
  case (Cons e kvs)
  obtain k t where e: "e = (k, t)" by (metis surj_pair)
  have d: "set (map fst kvs) \<inter> dom (map_of (jset k (f k) ps)) = {}" using Cons.prems(1,2) by (auto simp: e)
  have "k \<notin> fst ` set kvs" using Cons.prems(1) by (simp add: e)
  then show ?case using Cons.IH [OF _ d] Cons.prems(1,3) by (auto simp: e fun_eq_iff)
qed simp

lemma entry_rows_object:
  assumes "entry_rows m rows" "stands_for env m j"
  shows "\<exists>ps. values_object env rows (jobj []) = Inr (jobj ps) \<and> jwf ps \<and> map_of ps = j"
proof -
  obtain kvs where kvs: "distinct (map fst kvs)" "map_of kvs = m" "rows = map entry_row kvs"
    using assms(1) by (auto simp: entry_rows_def)
  define v where "v k = the (j k)" for k
  have each: "k \<noteq> ''__proto__'' \<and> kv_parse env (JStr t) = Inr (v k)" if "(k, t) \<in> set kvs" for k t
  proof -
    have "m k = Some t" using that kvs(1,2) by auto
    moreover have "rel_option (\<lambda>t v. kv_parse env (JStr t) = Inr v) (m k) (j k)" "m ''__proto__'' = None"
      using assms(2) by (simp_all add: stands_for_def)
    ultimately show ?thesis by (cases "j k") (auto simp: v_def)
  qed
  let ?ps = "fold (\<lambda>(k, t). jset k (v k)) kvs []"
  have ps: "jwf ?ps" "map_of ?ps = (\<lambda>k. if k \<in> set (map fst kvs) then Some (v k) else None)"
    using fold_jset_fresh [OF kvs(1), of "[]" v] by (simp_all add: fun_eq_iff)
  have "map_of ?ps k = j k" for k
  proof -
    have "rel_option (\<lambda>t v. kv_parse env (JStr t) = Inr v) (m k) (j k)" using assms(2) by (simp add: stands_for_def)
    moreover have "k \<in> set (map fst kvs) \<longleftrightarrow> m k \<noteq> None"
      using kvs(2) by (simp add: dom_map_of_conv_image_fst [symmetric] domIff)
    ultimately show ?thesis unfolding ps(2) by (cases "m k"; cases "j k") (simp_all add: v_def)
  qed
  then show ?thesis
    using put_all_values [of kvs env v "[]"] each ps(1) by (auto simp: kvs(3) fun_eq_iff)
qed

lemma gives_table:
  assumes "gives r tables P (ts(t := m))" "stores_for env ts st" "rel_option (stands_for env) m j"
  shows "\<exists>rows db. r = (Inr rows, db) \<and> P rows \<and> stores_for env (tables db) (st(t := j))"
  using assms stores_for_update [OF assms(2,3)] by (auto simp: gives_def)

text \<open>Each call answers and acts on the database as its reference on the map of maps.\<close>

definition refines_step :: "'db kv_env \<Rightarrow> ('db \<Rightarrow> string stores) \<Rightarrow> (js_error + jsv) \<times> 'db \<Rightarrow> kv_answer \<times> jsv stores \<Rightarrow> bool" where
  "refines_step env tables r ref = (answers (fst r) (fst ref) \<and> stores_for env (tables (snd r)) (snd ref))"

lemma result_refines:
  "\<exists>rows db'. r = (Inr rows, db') \<and> P rows \<and> stores_for env (tables db') st \<Longrightarrow> refines_step env tables (result_of r) (Done, st)"
  by (auto simp: refines_step_def result_of_def)

lemma missing_refines:
  assumes "misses_stores (kv_exec env) tables same" "stores_for env (tables db) st" "st (same (kv_table store)) = None"
    "storable (kv_table store)"
  shows "\<exists>e db'. kv_query env (get_kv_query op1 store key v) db = (Inl e, db') \<and> stores_for env (tables db') st"
proof -
  have "tables db (same (kv_table store)) = None"
    using assms(2,3) unfolding stores_for_def by (metis rel_option_None2)
  with assms(1,4) have "refused (kv_query env (get_kv_query op1 store key v) db) tables (tables db)"
    unfolding misses_stores_def kv_query_def kv_statement by blast
  then show ?thesis using assms(2) by (auto simp: refused_def)
qed

lemma add_store_refines:
  assumes "creates_stores (kv_exec env) tables same" "stores_for env (tables db) st" "storable (kv_table name)"
  shows "refines_step env tables (add_store env name db) (kv_reference same (AddStore name) st)"
    "refines_step env tables (remove_store env name db) (kv_reference same (RemoveStore name) st)"
proof -
  let ?t = "same (kv_table name)"
  have c: "gives (kv_query env (get_store_query CREATE name) db) tables (\<lambda>rows. True)
      ((tables db)(?t := Some (case tables db ?t of None \<Rightarrow> Map.empty | Some m \<Rightarrow> m)))"
    "gives (kv_query env (get_store_query DROP name) db) tables (\<lambda>rows. True) ((tables db)(?t := None))"
    using assms(1,3) unfolding creates_stores_def kv_query_def store_statement Let_def by blast+
  have "rel_option (stands_for env) (tables db ?t) (st ?t)" using assms(2) by (simp add: stores_for_def)
  then have "rel_option (stands_for env) (Some (case tables db ?t of None \<Rightarrow> Map.empty | Some m \<Rightarrow> m))
      (Some (case st ?t of None \<Rightarrow> Map.empty | Some m \<Rightarrow> m))"
    by (cases "tables db ?t"; cases "st ?t") (simp_all add: stands_for_simps)
  from result_refines [OF gives_table [OF c(1) assms(2) this]]
  show "refines_step env tables (add_store env name db) (kv_reference same (AddStore name) st)"
    by (simp add: add_store_def kv_reference_def Let_def)
  from result_refines [OF gives_table [OF c(2) assms(2), of None]]
  show "refines_step env tables (remove_store env name db) (kv_reference same (RemoveStore name) st)"
    by (simp add: remove_store_def kv_reference_def)
qed

definition sqlite_stores :: "'db kv_env \<Rightarrow> ('db \<Rightarrow> string stores) \<Rightarrow> (string \<Rightarrow> string) \<Rightarrow> bool" where
  "sqlite_stores env tables same =
    (creates_stores (kv_exec env) tables same \<and> serves_stores (kv_exec env) tables same \<and>
     misses_stores (kv_exec env) tables same)"

lemma missing_step:
  assumes "sqlite_stores env tables same" "stores_for env (tables db) st" "st (same (kv_table store)) = None"
    "storable (kv_table store)"
  shows "refines_step env tables (get_value env key store db) (Failed, st)"
    "refines_step env tables (get_values env store db) (Failed, st)"
    "refines_step env tables (set_value env key v store db) (Failed, st)"
    "refines_step env tables (delete_value env key store db) (Failed, st)"
    "refines_step env tables (clear_values env store db) (Failed, st)"
proof -
  have m: "\<exists>e db'. kv_query env (get_kv_query op1 store k x) db = (Inl e, db') \<and> stores_for env (tables db') st" for op1 k x
    using missing_refines [of env tables same db st store op1 k x] assms by (simp add: sqlite_stores_def)
  show "refines_step env tables (get_value env key store db) (Failed, st)"
    using m [of GET "JStr key" JUndef] by (auto simp: refines_step_def get_value_def)
  show "refines_step env tables (get_values env store db) (Failed, st)"
    using m [of GETV JUndef JUndef] by (auto simp: refines_step_def get_values_def)
  show "refines_step env tables (set_value env key v store db) (Failed, st)"
    using m [of SET "JStr key" "stringify (kv_json env) v"] by (auto simp: refines_step_def set_value_def result_of_def)
  show "refines_step env tables (delete_value env key store db) (Failed, st)"
    using m [of DELETE "JStr key" JUndef] by (auto simp: refines_step_def delete_value_def result_of_def)
  show "refines_step env tables (clear_values env store db) (Failed, st)"
    using m [of CLEAR JUndef JUndef] by (auto simp: refines_step_def clear_values_def result_of_def)
qed

lemma serves_stores_calls:
  assumes "serves_stores exec tables same" "tables db (same name) = Some m" "storable name"
  shows "gives (exec (kv_text GET (quoted_with dquote name), [JStr k]) db) tables (\<lambda>rows. rows = value_rows (m k)) (tables db)"
    "gives (exec (kv_text GETV (quoted_with dquote name), []) db) tables (entry_rows m) (tables db)"
    "gives (exec (kv_text SET (quoted_with dquote name), [JStr k, JStr x]) db) tables (\<lambda>rows. True)
      ((tables db)(same name := Some (m(k \<mapsto> x))))"
    "gives (exec (kv_text DELETE (quoted_with dquote name), [JStr k]) db) tables (\<lambda>rows. True)
      ((tables db)(same name := Some (m(k := None))))"
    "gives (exec (kv_text CLEAR (quoted_with dquote name), []) db) tables (\<lambda>rows. True) ((tables db)(same name := Some Map.empty))"
  using assms unfolding serves_stores_def Let_def by blast+

lemma present_step:
  assumes "sqlite_stores env tables same" "stores_for env (tables db) st" "st (same (kv_table store)) = Some j"
    "storable (kv_table store)"
  defines "t \<equiv> same (kv_table store)"
  shows "refines_step env tables (get_value env key store db) (Found (j key), st)"
    "refines_step env tables (get_values env store db) (FoundAll j, st)"
    "value_ok env key v \<Longrightarrow> refines_step env tables (set_value env key v store db) (Done, st(t := Some (j(key \<mapsto> v))))"
    "refines_step env tables (delete_value env key store db) (Done, st(t := Some (j(key := None))))"
    "refines_step env tables (clear_values env store db) (Done, st(t := Some Map.empty))"
proof -
  obtain m where m: "tables db t = Some m" "stands_for env m j"
  proof -
    have "rel_option (stands_for env) (tables db t) (Some j)" using assms(2,3) unfolding stores_for_def t_def by metis
    then show thesis by (cases "tables db t") (auto intro: that)
  qed
  have srv: "serves_stores (kv_exec env) tables same" using assms(1) by (simp add: sqlite_stores_def)
  have serves: "gives (kv_query env (get_kv_query GET store (JStr k) JUndef) db) tables (\<lambda>rows. rows = value_rows (m k)) (tables db)"
    "gives (kv_query env (get_kv_query GETV store JUndef JUndef) db) tables (entry_rows m) (tables db)"
    "gives (kv_query env (get_kv_query SET store (JStr k) (JStr x)) db) tables (\<lambda>rows. True) ((tables db)(t := Some (m(k \<mapsto> x))))"
    "gives (kv_query env (get_kv_query DELETE store (JStr k) JUndef) db) tables (\<lambda>rows. True) ((tables db)(t := Some (m(k := None))))"
    "gives (kv_query env (get_kv_query CLEAR store JUndef JUndef) db) tables (\<lambda>rows. True) ((tables db)(t := Some Map.empty))"
    for k x
    unfolding kv_query_def kv_statement kv_op.case
    using serves_stores_calls(1,4) [of "kv_exec env" tables same db "kv_table store" m k, OF srv m(1) [unfolded t_def] assms(4)]
      serves_stores_calls(2,5) [of "kv_exec env" tables same db "kv_table store" m, OF srv m(1) [unfolded t_def] assms(4)]
      serves_stores_calls(3) [of "kv_exec env" tables same db "kv_table store" m k x, OF srv m(1) [unfolded t_def] assms(4)]
    unfolding t_def by blast+
  have same_key: "rel_option (\<lambda>t v. kv_parse env (JStr t) = Inr v) (m key) (j key)" using m(2) by (simp add: stands_for_def)
  show "refines_step env tables (get_value env key store db) (Found (j key), st)"
    using serves(1) [of key] same_key assms(2)
    by (cases "m key"; cases "j key") (auto simp: refines_step_def get_value_def gives_def value_rows_def)
  show "refines_step env tables (get_values env store db) (FoundAll j, st)"
    using serves(2) entry_rows_object [OF _ m(2)] assms(2) by (fastforce simp: refines_step_def get_values_def gives_def)
  show "refines_step env tables (set_value env key v store db) (Done, st(t := Some (j(key \<mapsto> v))))"
    if ok: "value_ok env key v"
  proof -
    obtain x where x: "json_text (kv_json env) v = Some x" "kv_parse env (JStr x) = Inr v" "key \<noteq> ''__proto__''"
      using ok by (auto simp: value_ok_def)
    have "rel_option (stands_for env) (Some (m(key \<mapsto> x))) (Some (j(key \<mapsto> v)))" using m(2) x by (simp add: stands_for_simps)
    from result_refines [OF gives_table [OF serves(3) assms(2) this]] show ?thesis by (simp add: set_value_def stringify_def x(1))
  qed
  have "rel_option (stands_for env) (Some (m(key := None))) (Some (j(key := None)))" using m(2) by (simp add: stands_for_simps)
  from result_refines [OF gives_table [OF serves(4) assms(2) this]]
  show "refines_step env tables (delete_value env key store db) (Done, st(t := Some (j(key := None))))" by (simp add: delete_value_def)
  have "rel_option (stands_for env) (Some Map.empty) (Some Map.empty)" by (simp add: stands_for_simps)
  from result_refines [OF gives_table [OF serves(5) assms(2) this]]
  show "refines_step env tables (clear_values env store db) (Done, st(t := Some Map.empty))" by (simp add: clear_values_def)
qed

lemma kv_step_refines:
  assumes "sqlite_stores env tables same" "stores_for env (tables db) st" "call_ok env call"
  shows "refines_step env tables (kv_step env call db) (kv_reference same call st)"
proof -
  have c: "creates_stores (kv_exec env) tables same" using assms(1) by (simp add: sqlite_stores_def)
  have at_store: "refines_step env tables (kv_step env call db) (kv_reference same call st)"
    if "call = GetValue key store \<or> call = GetValues store \<or> call = SetValue key v store \<or> call = DeleteValue key store \<or>
      call = ClearValues store" for key v store
  proof (cases "st (same (kv_table store))")
    case None
    have "storable (kv_table store)" using that assms(3) by (auto simp: call_ok_def store_of_def)
    then show ?thesis using None that missing_step [OF assms(1,2) None]
      by (auto simp: kv_step_def kv_reference_def on_store_def)
  next
    case (Some j)
    then have "st(same (kv_table store) := Some j) = st" by auto
    moreover have "storable (kv_table store)" using that assms(3) by (auto simp: call_ok_def store_of_def)
    ultimately show ?thesis using that present_step [OF assms(1,2) Some] assms(3) Some
      by (auto simp: kv_step_def kv_reference_def on_store_def call_ok_def)
  qed
  show ?thesis
  proof (cases call)
    case (AddStore name)
    then show ?thesis using add_store_refines(1) [OF c assms(2), of name] assms(3) by (simp add: kv_step_def call_ok_def store_of_def)
  next
    case (RemoveStore name)
    then show ?thesis using add_store_refines(2) [OF c assms(2), of name] assms(3) by (simp add: kv_step_def call_ok_def store_of_def)
  qed (use at_store in blast)+
qed

fun kv_run :: "'db kv_env \<Rightarrow> kv_call list \<Rightarrow> 'db \<Rightarrow> (js_error + jsv) list \<times> 'db" where
  "kv_run env [] db = ([], db)"
| "kv_run env (call # calls) db =
    (let (r, db1) = kv_step env call db; (rs, db2) = kv_run env calls db1 in (r # rs, db2))"

fun kv_expected :: "(string \<Rightarrow> string) \<Rightarrow> kv_call list \<Rightarrow> jsv stores \<Rightarrow> kv_answer list \<times> jsv stores" where
  "kv_expected same [] st = ([], st)"
| "kv_expected same (call # calls) st =
    (let (a, st1) = kv_reference same call st; (as, st2) = kv_expected same calls st1 in (a # as, st2))"

text \<open>C32: If the database executes the statements of the adapter as SQLite does, a sequence of calls on local
  stores is answered as by a map from store names to maps from keys to JSON values: a value that was set
  is got, under its key and among all values, in its store and no other, until it is set again, deleted
  or cleared or its store is removed; calls on a store that does not exist are rejected and change
  nothing; no such name, however spelled, and no key or value can make a statement do anything else. The
  names are those SQLite does not reserve, the values are restored by parsing their JSON text, and the
  keys are others than \<open>__proto__\<close>, under which a value is not among all values.\<close>

theorem local_stores_are_maps:
  assumes "sqlite_stores env tables same" "stores_for env (tables db) st" "\<forall>call \<in> set calls. call_ok env call"
  shows "list_all2 answers (fst (kv_run env calls db)) (fst (kv_expected same calls st)) \<and>
    stores_for env (tables (snd (kv_run env calls db))) (snd (kv_expected same calls st))"
  using assms(2,3)
proof (induction calls arbitrary: db st)
  case (Cons call calls)
  obtain r db1 where r: "kv_step env call db = (r, db1)" by (metis surj_pair)
  obtain a st1 where a: "kv_reference same call st = (a, st1)" by (metis surj_pair)
  have "answers r a" "stores_for env (tables db1) st1"
    using kv_step_refines [OF assms(1) Cons.prems(1), of call] Cons.prems(2) by (simp_all add: refines_step_def r a)
  then show ?case using Cons.IH [of db1 st1] Cons.prems(2) by (simp add: r a case_prod_beta)
qed simp

text \<open>\<open>removeStore\<close> with an empty name removes the default store.\<close>

lemma remove_store_without_name: "remove_store env [] db = remove_store env default_kv_store db"
  by (simp add: remove_store_def get_store_query_def kv_table_def default_kv_store_def)

section \<open>A database\<close>

text \<open>A small database that reads these statements: the table name is unquoted, the rest of the statement
  tells the operation.\<close>

fun unquoted :: "string \<Rightarrow> string \<times> string" where
  "unquoted [] = ([], [])"
| "unquoted (c # cs) =
    (if c = dquote then
       (case cs of [] \<Rightarrow> ([], [])
        | d # ds \<Rightarrow> if d = dquote then (let (name, rest) = unquoted ds in (dquote # name, rest)) else ([], d # ds))
     else (let (name, rest) = unquoted cs in (c # name, rest)))"

lemma unquoted_quoted:
  assumes "rest = [] \<or> hd rest \<noteq> dquote"
  shows "unquoted (concat (map (\<lambda>c. if c = dquote then [c, c] else [c]) name) @ dquote # rest) = (name, rest)"
  using assms by (induction name) (auto split: list.split)

definition after :: "string \<Rightarrow> string \<Rightarrow> (string \<times> string) option" where
  "after prefix text = (if starts_with text (prefix @ [dquote]) then Some (unquoted (drop (Suc (length prefix)) text)) else None)"

lemma after_quoted:
  assumes "rest = [] \<or> hd rest \<noteq> dquote"
  shows "after prefix (prefix @ quoted_with dquote name @ rest) = Some (name, rest)"
proof -
  have "starts_with (prefix @ quoted_with dquote name @ rest) (prefix @ [dquote])"
    using starts_with_append [of "prefix @ [dquote]"] by (simp add: quoted_with_def)
  then show ?thesis using unquoted_quoted [OF assms] by (simp add: after_def quoted_with_def)
qed

type_synonym sample_db = "(string \<times> (string \<times> string) list) list"

definition sample_tables :: "sample_db \<Rightarrow> string stores" where
  "sample_tables db = map_option map_of \<circ> map_of db"

definition distinct_entries :: "(string \<times> string) list \<Rightarrow> (string \<times> string) list" where
  "distinct_entries kvs = map (\<lambda>k. (k, the (map_of kvs k))) (remdups (map fst kvs))"

lemma map_of_graph: "map_of (map (\<lambda>k. (k, f k)) ks) = (\<lambda>k. if k \<in> set ks then Some (f k) else None)"
  by (induction ks) (auto simp: fun_eq_iff)

lemma map_of_without: "map_of (filter (\<lambda>e. fst e \<noteq> k) m) = (map_of m)(k := None)"
  by (induction m) (auto simp: fun_eq_iff)

lemma distinct_entries_rows: "entry_rows (map_of kvs) (map entry_row (distinct_entries kvs))"
proof -
  have "map_of (distinct_entries kvs) k = map_of kvs k" for k
    using map_of_eq_None_iff [of kvs k] by (cases "map_of kvs k") (auto simp: distinct_entries_def map_of_graph)
  then have "map_of (distinct_entries kvs) = map_of kvs" by (rule ext)
  moreover have "map fst (distinct_entries kvs) = remdups (map fst kvs)" by (simp add: distinct_entries_def comp_def)
  ultimately show ?thesis unfolding entry_rows_def by (intro exI [of _ "distinct_entries kvs"]) simp
qed

definition first_text :: "jsv list \<Rightarrow> string" where
  "first_text ps = (case ps of [] \<Rightarrow> [] | p # rest \<Rightarrow> (case p of JStr k \<Rightarrow> k | _ \<Rightarrow> []))"

fun sample_kv :: "kv_op \<Rightarrow> jsv list \<Rightarrow> (string \<times> string) list \<Rightarrow> jsv list \<times> (string \<times> string) list" where
  "sample_kv GET ps kvs = (value_rows (map_of kvs (first_text ps)), kvs)"
| "sample_kv GETV ps kvs = (map entry_row (distinct_entries kvs), kvs)"
| "sample_kv SET ps kvs = ([], (first_text ps, first_text (tl ps)) # kvs)"
| "sample_kv DELETE ps kvs = ([], filter (\<lambda>e. fst e \<noteq> first_text ps) kvs)"
| "sample_kv CLEAR ps kvs = ([], [])"

definition sample_op :: "string \<Rightarrow> (kv_op \<times> string) option" where
  "sample_op text =
    (case after ''SELECT value from '' text of Some (t, rest) \<Rightarrow> Some (GET, t) | None \<Rightarrow>
    (case after ''SELECT key, value from '' text of Some (t, rest) \<Rightarrow> Some (GETV, t) | None \<Rightarrow>
    (case after ''INSERT OR REPLACE INTO '' text of Some (t, rest) \<Rightarrow> Some (SET, t) | None \<Rightarrow>
    (case after ''DELETE FROM '' text of Some (t, rest) \<Rightarrow> Some (if rest = [] then CLEAR else DELETE, t) | None \<Rightarrow> None))))"

definition sample_exec :: "sample_db executor" where
  "sample_exec st db =
    (case after ''CREATE TABLE IF NOT EXISTS '' (fst st) of
       Some (t, rest) \<Rightarrow> (Inr [], if map_of db t = None then (t, []) # db else db)
     | None \<Rightarrow>
         (case after ''DROP TABLE IF EXISTS '' (fst st) of
            Some (t, rest) \<Rightarrow> (Inr [], filter (\<lambda>e. fst e \<noteq> t) db)
          | None \<Rightarrow>
              (case sample_op (fst st) of
                 None \<Rightarrow> (Inl (Error ''syntax error''), db)
               | Some (op1, t) \<Rightarrow>
                   (case map_of db t of
                      None \<Rightarrow> (Inl (Error ''no such table''), db)
                    | Some kvs \<Rightarrow> (Inr (fst (sample_kv op1 (snd st) kvs)), (t, snd (sample_kv op1 (snd st) kvs)) # db)))))"

lemma after_other: "take (length prefix) text \<noteq> prefix \<Longrightarrow> after prefix text = None"
  by (auto simp: after_def starts_with_iff)

lemma sample_op_text: "sample_op (kv_text op1 (quoted_with dquote t)) = Some (op1, t)"
proof (cases op1)
  case GET
  then show ?thesis using after_quoted [of "'' '' @ new_line 29 @ ''WHERE key = ? limit 1''" "''SELECT value from ''" t]
    by (simp add: sample_op_def)
next
  case GETV
  then show ?thesis using after_quoted [of "[]" "''SELECT key, value from ''" t]
    by (simp add: sample_op_def after_other)
next
  case SET
  then show ?thesis using after_quoted [of "''(key, value)'' @ new_line 29 @ ''VALUES (?, ?)''" "''INSERT OR REPLACE INTO ''" t]
    by (simp add: sample_op_def after_other)
next
  case DELETE
  then show ?thesis using after_quoted [of "new_line 29 @ ''WHERE key = ?''" "''DELETE FROM ''" t]
    by (simp add: sample_op_def after_other new_line_def)
next
  case CLEAR
  then show ?thesis using after_quoted [of "[]" "''DELETE FROM ''" t]
    by (simp add: sample_op_def after_other)
qed

lemma sample_not_store: 
  "after ''CREATE TABLE IF NOT EXISTS '' (kv_text op1 q) = None" "after ''DROP TABLE IF EXISTS '' (kv_text op1 q) = None"
  by (cases op1; simp add: after_other)+

lemma sample_store_text:
  "after ''CREATE TABLE IF NOT EXISTS '' (store_text CREATE (quoted_with dquote t)) =
    Some (t, new_line 29 @ ''(key text primary key, value text)'')"
  "after ''CREATE TABLE IF NOT EXISTS '' (store_text DROP q) = None"
  "after ''DROP TABLE IF EXISTS '' (store_text DROP (quoted_with dquote t)) = Some (t, [])"
proof -
  show "after ''CREATE TABLE IF NOT EXISTS '' (store_text CREATE (quoted_with dquote t)) =
      Some (t, new_line 29 @ ''(key text primary key, value text)'')"
    unfolding store_text.simps by (rule after_quoted) (simp add: new_line_def)
  show "after ''CREATE TABLE IF NOT EXISTS '' (store_text DROP q) = None" by (simp add: after_other)
  show "after ''DROP TABLE IF EXISTS '' (store_text DROP (quoted_with dquote t)) = Some (t, [])"
    using after_quoted [of "[]" "''DROP TABLE IF EXISTS ''" t] by simp
qed

lemma sample_tables_simps:
  "sample_tables (filter (\<lambda>e. fst e \<noteq> t) db) = (sample_tables db)(t := None)"
  "sample_tables ((t, kvs) # db) = (sample_tables db)(t := Some (map_of kvs))"
  "sample_tables db t = None \<longleftrightarrow> map_of db t = None"
  by (auto simp: sample_tables_def fun_eq_iff map_of_without)

lemma sample_serves: "serves_stores sample_exec sample_tables id"
proof -
  have run: "sample_exec (kv_text op1 (quoted_with dquote name), ps) db =
      (Inr (fst (sample_kv op1 ps kvs)), (name, snd (sample_kv op1 ps kvs)) # db)" if "map_of db name = Some kvs" for op1 name ps db kvs
    by (simp add: sample_exec_def sample_not_store sample_op_text that)
  have present: "\<exists>kvs. map_of db name = Some kvs \<and> m = map_of kvs" if "sample_tables db name = Some m" for db name m
    using that by (auto simp: sample_tables_def)
  show ?thesis
    unfolding serves_stores_def Let_def id_apply
    by (intro allI impI conjI; drule present; elim exE conjE)
      (auto simp: gives_def run sample_tables_simps value_rows_def distinct_entries_rows map_of_without sample_tables_def first_text_def
        simp del: kv_text.simps)
qed

lemma sample_stores:
  assumes "kv_exec env = sample_exec"
  shows "sqlite_stores env sample_tables id"
proof -
  have "misses_stores sample_exec sample_tables id"
    by (auto simp: misses_stores_def refused_def sample_exec_def sample_not_store sample_op_text sample_tables_simps)
  moreover have "creates_stores sample_exec sample_tables id"
    by (auto simp: creates_stores_def gives_def sample_exec_def Let_def sample_store_text sample_tables_def map_of_without
        fun_eq_iff simp del: store_text.simps split: option.split)
  ultimately show ?thesis using sample_serves by (simp add: sqlite_stores_def assms)
qed

definition sample_kv_env :: "sample_db kv_env" where
  "sample_kv_env = \<lparr>kv_exec = sample_exec, kv_parse = (\<lambda>v. if v = JStr ''true'' then Inr (JBool True) else Inl (Error ''JSON'')),
     kv_json = \<lparr>je_num = (\<lambda>r. ''0''), je_date = (\<lambda>d. ''0'')\<rparr>\<rparr>"

theorem local_stores_are_maps_witness:
  "\<exists>r1 r2 r3 r4. fst (kv_run sample_kv_env
      [AddStore hostile_name, SetValue hostile_value (JBool True) hostile_name, GetValue hostile_value hostile_name,
       GetValue ''k'' ''other''] []) = [Inr r1, Inr r2, Inr (JBool True), Inl r4]"
proof -
  let ?calls = "[AddStore hostile_name, SetValue hostile_value (JBool True) hostile_name, GetValue hostile_value hostile_name,
       GetValue ''k'' ''other'']"
  have 1: "sqlite_stores sample_kv_env sample_tables id" by (rule sample_stores) (simp add: sample_kv_env_def)
  have 2: "stores_for sample_kv_env (sample_tables []) (\<lambda>t. None)" by (simp add: stores_for_def sample_tables_def)
  have 3: "\<forall>call \<in> set ?calls. call_ok sample_kv_env call"
    by (simp add: call_ok_def store_of_def value_ok_def sample_kv_env_def hostile_value_def hostile_name_def storable_def
        ascii_lower_def kv_table_def)
  have "list_all2 answers (fst (kv_run sample_kv_env ?calls [])) (fst (kv_expected id ?calls (\<lambda>t. None)))"
    using local_stores_are_maps [OF 1 2 3] by (rule conjunct1)
  moreover have "fst (kv_expected id ?calls (\<lambda>t. None)) = [Done, Done, Found (Some (JBool True)), Failed]"
    by (simp add: kv_reference_def on_store_def kv_table_def hostile_name_def Let_def)
  ultimately obtain r1 r2 r3 r4 where "fst (kv_run sample_kv_env ?calls []) = [r1, r2, r3, r4]"
    "\<not> isl r1" "\<not> isl r2" "r3 = Inr (JBool True)" "isl r4"
    by (auto simp: list_all2_Cons2)
  then show ?thesis by (cases r1; cases r2; cases r4) auto
qed

end
