(* ===== verification/DbContext.thy ===== *)
theory DbContext
  imports InMemoryDb
begin

text \<open>
  The database context, \<open>src/src/db/db-context.ts\<close>, over the in-memory adapter: the operations check their
  arguments before the adapter sees them. An operation returns what its promise settles with and the
  database. The operations on statements, extensions and transactions are passed on unchanged.
\<close>

section \<open>Checks\<close>

definition throw_if_not_object_type :: "jsv \<Rightarrow> js_error + unit" where
  "throw_if_not_object_type objects =
    (if is_array objects then
       (if \<not> is_object_array objects None then Inl (TypeError ''specified array contains non-Coaty objects'') else Inr ())
     else if \<not> is_object objects None then Inl (TypeError ''specified argument is not a Coaty object'')
     else Inr ())"

definition throw_if_not_uuids :: "jsv \<Rightarrow> js_error + unit" where
  "throw_if_not_uuids objectIds =
    (if is_array objectIds then
       (if \<not> is_string_array objectIds then Inl (TypeError ''specified array contains non-UUIDs'') else Inr ())
     else if \<not> is_str objectIds then Inl (TypeError ''specified argument is not a UUID'')
     else Inr ())"

definition throw_if_not_uuid :: "jsv \<Rightarrow> js_error + unit" where
  "throw_if_not_uuid objectId =
    (if \<not> is_str objectId then Inl (TypeError ''specified argument is not a UUID'') else Inr ())"

definition throw_if_object_filter_invalid :: "jsv \<Rightarrow> js_error + unit" where
  "throw_if_object_filter_invalid flt =
    (if \<not> is_plain_object flt then Inl (TypeError ''specified argument is not an object filter'') else Inr ())"

text \<open>\<open>filter && this._throwIfObjectFilterInvalid(filter)\<close>.\<close>

definition check_filter :: "jsv \<Rightarrow> js_error + unit" where
  "check_filter flt = (if truthy flt then throw_if_object_filter_invalid flt else Inr ())"

text \<open>A rejected check leaves the database as it is.\<close>

definition checked :: "js_error + unit \<Rightarrow> ('db \<Rightarrow> (js_error + 'a) \<times> 'db) \<Rightarrow> 'db \<Rightarrow> (js_error + 'a) \<times> 'db" where
  "checked check operation db = (case check of Inl e \<Rightarrow> (Inl e, db) | Inr u \<Rightarrow> operation db)"

text \<open>The adapter takes a single object or id for a list of one.\<close>

definition as_array :: "jsv \<Rightarrow> jsv list" where
  "as_array v = (case v of JArr xs \<Rightarrow> xs | _ \<Rightarrow> [v])"

definition text_values :: "jsv list \<Rightarrow> string list" where
  "text_values vs = map (\<lambda>v. case v of JStr s \<Rightarrow> s | _ \<Rightarrow> []) vs"

section \<open>Operations\<close>

definition ctx_insert_objects :: "string \<Rightarrow> jsv \<Rightarrow> bool \<Rightarrow> mem_db \<Rightarrow> (js_error + string list) \<times> mem_db" where
  "ctx_insert_objects collectionName objects shouldReplaceExisting =
    checked (throw_if_not_object_type objects)
      (insert_objects collectionName (as_array objects) shouldReplaceExisting)"

definition ctx_update_objects :: "string \<Rightarrow> jsv \<Rightarrow> mem_db \<Rightarrow> (js_error + string list) \<times> mem_db" where
  "ctx_update_objects collectionName objects =
    checked (throw_if_not_object_type objects) (update_objects collectionName (as_array objects))"

definition ctx_update_object_property ::
  "string \<Rightarrow> jsv \<Rightarrow> string \<Rightarrow> jsv \<Rightarrow> bool \<Rightarrow> mem_db \<Rightarrow> (js_error + unit) \<times> mem_db" where
  "ctx_update_object_property collectionName objectIds property v shouldCreateMissing =
    checked (throw_if_not_uuids objectIds)
      (update_object_property collectionName (text_values (as_array objectIds)) property v shouldCreateMissing)"

definition ctx_delete_objects_by_id :: "string \<Rightarrow> jsv \<Rightarrow> mem_db \<Rightarrow> (js_error + string list) \<times> mem_db" where
  "ctx_delete_objects_by_id collectionName objectIds =
    checked (throw_if_not_uuids objectIds) (delete_objects_by_id collectionName (text_values (as_array objectIds)))"

definition ctx_delete_objects :: "conv \<Rightarrow> string \<Rightarrow> jsv \<Rightarrow> mem_db \<Rightarrow> (js_error + nat) \<times> mem_db" where
  "ctx_delete_objects cv collectionName flt = checked (check_filter flt) (delete_objects cv collectionName flt)"

definition ctx_find_object_by_id :: "string \<Rightarrow> jsv \<Rightarrow> bool \<Rightarrow> mem_db \<Rightarrow> js_error + jsv" where
  "ctx_find_object_by_id collectionName oid isExternalId db =
    rbind (throw_if_not_uuid oid) (\<lambda>_. find_object_by_id collectionName (hd (text_values [oid])) isExternalId db)"

definition ctx_find_objects ::
  "conv \<Rightarrow> string \<Rightarrow> jsv \<Rightarrow> join_condition list \<Rightarrow> consumer \<Rightarrow> mem_db \<Rightarrow> (js_error + nat \<times> bool) \<times> query_out list" where
  "ctx_find_objects cv collectionName flt joinConditions c db =
    (case check_filter flt of
       Inl e \<Rightarrow> (Inl e, [])
     | Inr u \<Rightarrow> find_objects cv collectionName flt joinConditions c db)"

definition ctx_count_objects :: "conv \<Rightarrow> string \<Rightarrow> jsv \<Rightarrow> mem_db \<Rightarrow> js_error + nat" where
  "ctx_count_objects cv collectionName flt db = rbind (check_filter flt) (\<lambda>_. count_objects cv collectionName flt db)"

definition ctx_aggregate_objects ::
  "conv \<Rightarrow> (rat \<Rightarrow> jsnum) \<Rightarrow> string \<Rightarrow> jsv \<Rightarrow> aggregate_op \<Rightarrow> jsv \<Rightarrow> mem_db \<Rightarrow> js_error + jsv" where
  "ctx_aggregate_objects cv fl collectionName aggregateProps op1 flt db =
    rbind (check_filter flt) (\<lambda>_. aggregate_objects cv fl collectionName aggregateProps op1 flt db)"

section \<open>Join conditions\<close>

text \<open>\<open>getDbJoinConditionsFrom\<close>: the join conditions of a query that a mapping is given for, with the
  collection and the property of the mapping, unless the condition has such members itself.\<close>

record from_mapping =
  fm_local :: string
  fm_property :: string
  fm_collection :: string

definition get_db_join_conditions_from :: "jsv \<Rightarrow> from_mapping list \<Rightarrow> jsv" where
  "get_db_join_conditions_from joinConditions fromMappings =
    (if \<not> truthy joinConditions then JUndef
     else JArr (concat (map (\<lambda>jc.
       case find (\<lambda>m. strict_eq (JStr (fm_local m)) (get_prop jc ''localProperty'')) fromMappings of
         None \<Rightarrow> []
       | Some m \<Rightarrow>
           [fold (\<lambda>(k, v). set_prop k v) (own_props jc)
             (jobj [(''fromCollection'', JStr (fm_collection m)), (''fromProperty'', JStr (fm_property m))])])
       (as_array joinConditions))))"

end
