(* ===== verification/Historian.thy ===== *)
theory Historian
  imports DbContext EventData
begin

text \<open>
  The historian controller, \<open>src/src/db/historian-controller.ts\<close>, on a database context over the in-memory
  adapter: it makes snapshots of objects, keeps its own and observed ones in a collection, and finds
  them. What it advertises, answers and logs are outputs. Promises settle before the next operation.
\<close>

section \<open>The controller\<close>

record historian_options =
  ho_advertise_snapshots :: bool
  ho_persist_local :: bool
  ho_persist_observed :: bool
  ho_reply_to_queries :: bool
  ho_database :: "(string \<times> string) option"

datatype historian_out = SnapshotAdvertised jsv | Retrieved nat "jsv list" | LogError js_error

text \<open>\<open>hs_context\<close> is what the promise of the database context has settled with, once there is one;
  \<open>hs_connections\<close> are the keys of the runtime's database options.\<close>

record historian =
  hs_options :: historian_options
  hs_identity :: string
  hs_connections :: "string list"
  hs_context :: "(js_error + unit) option"
  hs_db :: mem_db
  hs_out :: "historian_out list"

definition historian_out :: "historian_out list \<Rightarrow> historian \<Rightarrow> historian" where
  "historian_out os h = h\<lparr>hs_out := hs_out h @ os\<rparr>"

definition unspecified_database :: js_error where
  "unspecified_database = Error ''Unspecified database options for HistorianController''"

definition hs_collection :: "historian \<Rightarrow> string" where
  "hs_collection h = (case ho_database (hs_options h) of Some (key, collection) \<Rightarrow> collection | None \<Rightarrow> [])"

text \<open>The constructor of the context throws for a key without options; the promise is kept, rejected or not.\<close>

definition get_db_context :: "historian \<Rightarrow> js_error + historian" where
  "get_db_context h =
    (case hs_context h of
       Some r \<Rightarrow> Inr h
     | None \<Rightarrow>
         (case ho_database (hs_options h) of
            Some (key, collection) \<Rightarrow>
              (if key \<noteq> [] \<and> collection \<noteq> [] then
                 (if key \<in> set (hs_connections h)
                  then Inr (h\<lparr>hs_context := Some (Inr ()), hs_db := add_collection collection (hs_db h)\<rparr>)
                  else Inl (TypeError ''Argument connectionInfo not defined''))
               else Inr (h\<lparr>hs_context := Some (Inl unspecified_database)\<rparr>))
          | None \<Rightarrow> Inr (h\<lparr>hs_context := Some (Inl unspecified_database)\<rparr>)))"

section \<open>Snapshots\<close>

text \<open>The arguments after the object: an optional timestamp and tags. Without a timestamp, the first tag
  comes last.\<close>

definition snapshot_timestamp :: "jsnum \<Rightarrow> jsv list \<Rightarrow> jsv" where
  "snapshot_timestamp now params = (case params of p # ps \<Rightarrow> (if is_num p then p else JNum now) | [] \<Rightarrow> JNum now)"

definition snapshot_tags :: "jsv list \<Rightarrow> jsv list" where
  "snapshot_tags params = (case params of p # ps \<Rightarrow> (if is_str p then ps @ [p] else ps) | [] \<Rightarrow> [])"

definition name_part :: "jsv \<Rightarrow> string \<Rightarrow> string" where
  "name_part obj k = (case get_prop obj k of JStr s \<Rightarrow> s | _ \<Rightarrow> ''undefined'')"

definition new_snapshot :: "string \<Rightarrow> jsnum \<Rightarrow> string \<Rightarrow> jsv \<Rightarrow> jsv list \<Rightarrow> js_error + jsv" where
  "new_snapshot newUuid now creatorId obj params =
    (if obj = JUndef \<or> obj = JNull then Inl (TypeError ''cannot read property objectId'')
     else rbind (core_clone obj False) (\<lambda>copy.
       Inr (jobj [(''objectId'', JStr newUuid), (''parentObjectId'', get_prop obj ''objectId''),
         (''objectType'', JStr (object_type_prefix @ ''Snapshot'')), (''coreType'', JStr ''Snapshot''),
         (''name'', JStr (name_part obj ''objectType'' @ '' '' @ name_part obj ''name'')),
         (''creatorId'', JStr creatorId), (''creationTimestamp'', snapshot_timestamp now params),
         (''object'', copy), (''tags'', JArr (snapshot_tags params))])))"

definition advertise_if_requested :: "jsv \<Rightarrow> historian \<Rightarrow> historian" where
  "advertise_if_requested s h =
    (if ho_advertise_snapshots (hs_options h) then historian_out [SnapshotAdvertised s] h else h)"

definition on_db :: "(mem_db \<Rightarrow> 'r \<times> mem_db) \<Rightarrow> historian \<Rightarrow> 'r \<times> historian" where
  "on_db f h = (let (r, db) = f (hs_db h) in (r, h\<lparr>hs_db := db\<rparr>))"

text \<open>The error handler of the context does not see a failed insertion.\<close>

definition process_snapshot :: "jsv \<Rightarrow> historian \<Rightarrow> (js_error + jsv) \<times> historian" where
  "process_snapshot snapshot h =
    (if ho_persist_local (hs_options h) then
       (case get_db_context h of
          Inl e \<Rightarrow> (Inl e, h)
        | Inr h1 \<Rightarrow>
            (case hs_context h1 of
               Some (Inl e) \<Rightarrow> (Inr snapshot, advertise_if_requested snapshot (historian_out [LogError e] h1))
             | _ \<Rightarrow>
                 (case on_db (ctx_insert_objects (hs_collection h1) snapshot True) h1 of
                    (Inl e, h2) \<Rightarrow> (Inl e, h2)
                  | (Inr ids, h2) \<Rightarrow> (Inr snapshot, advertise_if_requested snapshot h2))))
     else (Inr snapshot, advertise_if_requested snapshot h))"

definition generate_snapshot :: "string \<Rightarrow> jsnum \<Rightarrow> jsv \<Rightarrow> jsv list \<Rightarrow> historian \<Rightarrow> (js_error + jsv) \<times> historian" where
  "generate_snapshot newUuid now obj params h =
    (case new_snapshot newUuid now (hs_identity h) obj params of
       Inl e \<Rightarrow> (Inl e, h)
     | Inr snapshot \<Rightarrow> process_snapshot snapshot h)"

section \<open>Finding snapshots\<close>

definition snapshot_conditions :: "jsv \<Rightarrow> jsv \<Rightarrow> jsv \<Rightarrow> jsv list" where
  "snapshot_conditions parentObjectId startTimestamp endTimestamp =
    (if truthy parentObjectId then [JArr [JStr ''parentObjectId'', op_expr Equals [parentObjectId]]] else []) @
    (if truthy startTimestamp then [JArr [JStr ''creationTimestamp'', op_expr GreaterThanOrEqual [startTimestamp]]] else []) @
    (if truthy endTimestamp then [JArr [JStr ''creationTimestamp'', op_expr LessThanOrEqual [endTimestamp]]] else [])"

definition newest_first :: jsv where
  "newest_first = JArr [JArr [JStr ''creationTimestamp'', JStr ''Desc'']]"

definition snapshot_filter :: "jsv \<Rightarrow> jsv \<Rightarrow> jsv \<Rightarrow> jsv" where
  "snapshot_filter parentObjectId startTimestamp endTimestamp =
    jobj [(''conditions'', jobj [(''and'', JArr (snapshot_conditions parentObjectId startTimestamp endTimestamp))]),
      (''orderByProperties'', newest_first)]"

text \<open>The results of the one batch that \<open>forBatch\<close> delivers.\<close>

definition batch_of :: "(js_error + nat \<times> bool) \<times> query_out list \<Rightarrow> js_error + jsv list" where
  "batch_of r =
    rbind (fst r) (\<lambda>_. Inr (case snd r of [] \<Rightarrow> [] | outs \<Rightarrow> (case last outs of Batch b \<Rightarrow> b | EachItem x i \<Rightarrow> [])))"

definition find_batch :: "conv \<Rightarrow> jsv \<Rightarrow> historian \<Rightarrow> js_error + jsv list" where
  "find_batch cv flt h =
    (case hs_context h of
       Some (Inl e) \<Rightarrow> Inl e
     | _ \<Rightarrow> batch_of (ctx_find_objects cv (hs_collection h) flt [] (ForBatch 0 (\<lambda>b. True)) (hs_db h)))"

definition find_snapshots_by_filter :: "conv \<Rightarrow> jsv \<Rightarrow> historian \<Rightarrow> (js_error + jsv list) \<times> historian" where
  "find_snapshots_by_filter cv flt h =
    (case get_db_context h of
       Inl e \<Rightarrow> (Inl e, h)
     | Inr h1 \<Rightarrow> (find_batch cv flt h1, h1))"

definition find_snapshots_by_parent_id ::
  "conv \<Rightarrow> jsv \<Rightarrow> jsv \<Rightarrow> jsv \<Rightarrow> historian \<Rightarrow> (js_error + jsv list) \<times> historian" where
  "find_snapshots_by_parent_id cv parentObjectId startTimestamp endTimestamp =
    find_snapshots_by_filter cv (snapshot_filter parentObjectId startTimestamp endTimestamp)"

definition find_snapshots_by_time_frame :: "conv \<Rightarrow> jsv \<Rightarrow> jsv \<Rightarrow> historian \<Rightarrow> (js_error + jsv list) \<times> historian" where
  "find_snapshots_by_time_frame cv startTimestamp endTimestamp =
    find_snapshots_by_parent_id cv JUndef startTimestamp endTimestamp"

text \<open>The query that is published for the snapshots of an object.\<close>

definition query_snapshots_by_parent_id :: "jsv \<Rightarrow> query_data" where
  "query_snapshots_by_parent_id parentObjectId =
    \<lparr>qd_object_types = JUndef, qd_core_types = JArr [JStr ''Snapshot''],
     qd_filter = jobj [(''conditions'', JArr [JStr ''parentObjectId'', op_expr Equals [parentObjectId]]),
       (''orderByProperties'', newest_first)],
     qd_joins = JUndef\<rparr>"

section \<open>Observed events\<close>

text \<open>An Advertise event with core type Snapshot, and a Query event, which is numbered. An error in answering
  a query is swallowed; the constructor of the Retrieve event and its check against the query may throw.\<close>

datatype historian_event = SnapshotObserved jsv | QueryObserved nat query_data

definition persist_observed :: "jsv \<Rightarrow> historian \<Rightarrow> js_error + historian" where
  "persist_observed obj h =
    rbind (get_db_context h) (\<lambda>h1.
      case hs_context h1 of
        Some (Inl e) \<Rightarrow> Inr (historian_out [LogError e] h1)
      | _ \<Rightarrow>
          (case on_db (ctx_insert_objects (hs_collection h1) obj True) h1 of
             (Inl e, h2) \<Rightarrow> Inr (historian_out [LogError e] h2)
           | (Inr ids, h2) \<Rightarrow> Inr h2))"

definition answer_query :: "conv \<Rightarrow> nat \<Rightarrow> query_data \<Rightarrow> historian \<Rightarrow> js_error + historian" where
  "answer_query cv n q h =
    (if \<not> is_core_type_compatible (qd_core_types q) ''Snapshot'' then Inr h
     else rbind (get_db_context h) (\<lambda>h1.
       case find_batch cv (qd_filter q) h1 of
         Inl e \<Rightarrow> Inr h1
       | Inr results \<Rightarrow>
           (case rbind (new_retrieve_data (JArr results) JUndef) (\<lambda>d. ensure_valid_retrieve q results) of
              Inl e \<Rightarrow> Inr h1
            | Inr _ \<Rightarrow> Inr (historian_out [Retrieved n results] h1))))"

definition historian_observe :: "conv \<Rightarrow> historian_event \<Rightarrow> historian \<Rightarrow> js_error + historian" where
  "historian_observe cv ev h =
    (case ev of
       SnapshotObserved obj \<Rightarrow> (if ho_persist_observed (hs_options h) then persist_observed obj h else Inr h)
     | QueryObserved n q \<Rightarrow> (if ho_reply_to_queries (hs_options h) then answer_query cv n q h else Inr h))"

end
