(* ===== verification/HistorianProps.thy ===== *)
theory HistorianProps
  imports Historian InMemoryDbProps InMemoryDbState
begin

text \<open>
  The historian finds the snapshots it keeps: a snapshot that was made is found by its parent object and
  its time, among all that are in the collection, newest first. Operations of a database context that
  are given invalid arguments leave the database as it is.
\<close>

section \<open>Checked operations\<close>

lemma checked_Inl: "checked (Inl e) f db = (Inl e, db)"
  by (simp add: checked_def)

text \<open>Through a context insertions are atomic: either nothing is inserted, or every object.\<close>

lemma ctx_insert_atomic:
  assumes "jget db name = Some coll" "ctx_insert_objects name objects replace db = (r, db')"
  shows "case r of Inl e \<Rightarrow> db' = db
    | Inr ids \<Rightarrow> \<exists>coll'. db' = jset name coll' db \<and> (\<forall>i. jget coll' i = stored_after replace (as_array objects) coll i)"
proof (cases "throw_if_not_object_type objects")
  case (Inl e)
  then show ?thesis using assms(2) by (auto simp: ctx_insert_objects_def checked_Inl)
next
  case (Inr u)
  have "\<forall>obj \<in> set (as_array objects). is_object obj None"
  proof (cases "is_array objects")
    case True
    then obtain xs where "objects = JArr xs" by (cases objects) auto
    then show ?thesis using Inr
      by (auto simp: throw_if_not_object_type_def as_array_def is_object_array_def array_of_def list_all_iff split: if_splits)
  next
    case False
    then have "as_array objects = [objects]" by (cases objects) (auto simp: as_array_def)
    then show ?thesis using False Inr by (auto simp: throw_if_not_object_type_def split: if_splits)
  qed
  from insert_found_stored [OF assms(1) this, of replace]
  show ?thesis using assms(2) Inr by (auto simp: ctx_insert_objects_def checked_def)
qed

section \<open>Snapshots in a collection\<close>

definition snapshot_like :: "jsv \<Rightarrow> bool" where
  "snapshot_like o1 =
    (\<exists>p ps s n. o1 = JObj p ps \<and> map_of ps ''parentObjectId'' = Some (JStr s) \<and>
       map_of ps ''creationTimestamp'' = Some (JNum n) \<and> n \<noteq> NaN)"

definition parent_of :: "jsv \<Rightarrow> jsv" where
  "parent_of o1 = get_prop o1 ''parentObjectId''"

definition time_of :: "jsv \<Rightarrow> jsnum" where
  "time_of o1 = (case get_prop o1 ''creationTimestamp'' of JNum n \<Rightarrow> n | _ \<Rightarrow> NaN)"

lemma snapshot_like_props:
  assumes "snapshot_like o1"
  shows "\<exists>s. parent_of o1 = JStr s" "get_prop o1 ''creationTimestamp'' = JNum (time_of o1)" "time_of o1 \<noteq> NaN"
    "o1 \<noteq> JUndef" "o1 \<noteq> JNull" "typeof o1 = TObject"
  using assms by (auto simp: snapshot_like_def parent_of_def time_of_def)

lemma clone_member:
  assumes "map_of ps k = Some v" "js_clone v = v" "v \<noteq> JUndef"
  shows "map_of (filter (\<lambda>kv. snd kv \<noteq> JUndef) (map (\<lambda>(k, v). (k, js_clone v)) ps)) k = Some v"
  using assms(1) by (induction ps) (auto simp: assms(2,3) split: if_splits)

lemma snapshot_like_clone:
  assumes "snapshot_like o1"
  shows "snapshot_like (js_clone o1)" "parent_of (js_clone o1) = parent_of o1" "time_of (js_clone o1) = time_of o1"
proof -
  obtain p ps s n where o1: "o1 = JObj p ps" "map_of ps ''parentObjectId'' = Some (JStr s)"
    "map_of ps ''creationTimestamp'' = Some (JNum n)" "n \<noteq> NaN"
    using assms by (auto simp: snapshot_like_def)
  note c = clone_member [OF o1(2)] clone_member [OF o1(3)]
  show "snapshot_like (js_clone o1)" "parent_of (js_clone o1) = parent_of o1" "time_of (js_clone o1) = time_of o1"
    using c o1 by (simp_all add: snapshot_like_def parent_of_def time_of_def)
qed

text \<open>The snapshots that pass the conditions of the code.\<close>

definition code_wanted :: "jsv \<Rightarrow> jsv \<Rightarrow> jsv \<Rightarrow> jsv \<Rightarrow> bool" where
  "code_wanted parent start end1 o1 =
    ((truthy parent \<longrightarrow> parent_of o1 = parent) \<and>
     (\<forall>n. start = JNum n \<and> truthy start \<longrightarrow> num_le n (time_of o1)) \<and>
     (\<forall>n. end1 = JNum n \<and> truthy end1 \<longrightarrow> num_le (time_of o1) n))"

text \<open>The documented restriction: an undefined timestamp, or parent, does not restrict. The code reads a
  timestamp of zero the same way, as \<open>zero_timestamp_unrestricted\<close> shows.\<close>

definition wanted :: "jsv \<Rightarrow> jsv \<Rightarrow> jsv \<Rightarrow> jsv \<Rightarrow> bool" where
  "wanted parent start end1 o1 =
    ((parent = JUndef \<or> parent_of o1 = parent) \<and>
     (\<forall>n. start = JNum n \<longrightarrow> num_le n (time_of o1)) \<and>
     (\<forall>n. end1 = JNum n \<longrightarrow> num_le (time_of o1) n))"

definition time_bound :: "jsv \<Rightarrow> bool" where
  "time_bound v = (v = JUndef \<or> (\<exists>n. v = JNum n \<and> n \<noteq> Fin 0 \<and> n \<noteq> NaN))"

lemma code_wanted_documented:
  assumes "parent = JUndef \<or> truthy parent" "time_bound start" "time_bound end1"
  shows "code_wanted parent start end1 = wanted parent start end1"
  using assms by (auto simp: code_wanted_def wanted_def time_bound_def fun_eq_iff)

definition optional_number :: "jsv \<Rightarrow> bool" where
  "optional_number v = (v = JUndef \<or> (\<exists>n. v = JNum n))"

lemma every_r_append: "every_r p (xs @ ys) = rbind (every_r p xs) (\<lambda>b. if b then every_r p ys else Inr False)"
proof (induction xs)
  case (Cons x xs)
  then show ?case by (cases "p x") auto
qed simp

lemma property_value: "typeof o1 = TObject \<Longrightarrow> o1 \<noteq> JNull \<Longrightarrow> CHR ''.'' \<notin> set k \<Longrightarrow>
    get_filter_property_value (JStr k) o1 = get_prop o1 k"
  by (simp add: get_filter_property_value_def get_filter_properties_def split_on_no_sep prop_step_def)

lemma snapshot_condition:
  assumes "snapshot_like o1"
  shows "truthy pid \<Longrightarrow> matches_condition cv o1 (JArr [JStr ''parentObjectId'', op_expr Equals [pid]]) = Inr (parent_of o1 = pid)"
    "matches_condition cv o1 (JArr [JStr ''creationTimestamp'', op_expr GreaterThanOrEqual [JNum n]]) = Inr (num_le n (time_of o1))"
    "matches_condition cv o1 (JArr [JStr ''creationTimestamp'', op_expr LessThanOrEqual [JNum n]]) = Inr (num_le (time_of o1) n)"
proof -
  note p = snapshot_like_props [OF assms]
  obtain s where s: "get_prop o1 ''parentObjectId'' = JStr s" using p(1) by (auto simp: parent_of_def)
  show "matches_condition cv o1 (JArr [JStr ''parentObjectId'', op_expr Equals [pid]]) = Inr (parent_of o1 = pid)"
    by (simp add: matches_condition_def op_expr_def property_value p s parent_of_def match_op_def js_equals_prim_left strict_eq_prim)
  show "matches_condition cv o1 (JArr [JStr ''creationTimestamp'', op_expr GreaterThanOrEqual [JNum n]]) = Inr (num_le n (time_of o1))"
    "matches_condition cv o1 (JArr [JStr ''creationTimestamp'', op_expr LessThanOrEqual [JNum n]]) = Inr (num_le (time_of o1) n)"
    by (simp_all add: matches_condition_def op_expr_def property_value p match_op_def js_ge_def js_le_def to_prim_def prim_le_def)
qed

lemma snapshot_filter_matches:
  assumes "snapshot_like o1" "optional_number start" "optional_number end1"
  shows "matches_opt (get_filter_matcher cv (snapshot_filter parent start end1)) o1 = Inr (code_wanted parent start end1 o1)"
proof -
  note c = snapshot_condition [OF assms(1)]
  have 1: "every_r (matches_condition cv o1)
      (if truthy parent then [JArr [JStr ''parentObjectId'', op_expr Equals [parent]]] else []) =
      Inr (truthy parent \<longrightarrow> parent_of o1 = parent)"
    using c(1) by simp
  have 2: "every_r (matches_condition cv o1)
      (if truthy start then [JArr [JStr ''creationTimestamp'', op_expr GreaterThanOrEqual [start]]] else []) =
      Inr (\<forall>n. start = JNum n \<and> truthy start \<longrightarrow> num_le n (time_of o1))"
    using assms(2) c(2) by (auto simp: optional_number_def)
  have 3: "every_r (matches_condition cv o1)
      (if truthy end1 then [JArr [JStr ''creationTimestamp'', op_expr LessThanOrEqual [end1]]] else []) =
      Inr (\<forall>n. end1 = JNum n \<and> truthy end1 \<longrightarrow> num_le (time_of o1) n)"
    using assms(3) c(3) by (auto simp: optional_number_def)
  have "every_r (matches_condition cv o1) (snapshot_conditions parent start end1) = Inr (code_wanted parent start end1 o1)"
    unfolding snapshot_conditions_def every_r_append 1 2 3 code_wanted_def by auto
  moreover have "o1 \<noteq> JUndef" using snapshot_like_props(4) [OF assms(1)] .
  ultimately show ?thesis
    by (simp add: matches_opt_def get_filter_matcher_def snapshot_filter_def matches_filter_def call_array_def)
qed

section \<open>Order\<close>

definition by_time :: "jsv \<times> jstype" where
  "by_time = (JArr [JStr ''creationTimestamp'', JStr ''Desc''], TNumber)"

lemma snapshot_order_entries: "order_entries (snapshot_filter parent start end1) = map fst [by_time]"
  by (simp add: order_entries_def snapshot_filter_def newest_first_def by_time_def)

lemma entry_value_time: "snapshot_like o1 \<Longrightarrow> entry_value (fst by_time) o1 = JNum (time_of o1)"
  using snapshot_like_props [of o1] by (simp add: entry_value_def by_time_def order_props_def property_value)

lemma snapshot_orderable: "collator_ok cv \<Longrightarrow> snapshot_like o1 \<Longrightarrow> orderable cv [by_time] o1"
  using entry_value_time [of o1] snapshot_like_props(3) [of o1]
  by (simp add: orderable_def orderable_value_def by_time_def)

lemma newest_first_order:
  assumes "collator_ok cv" "snapshot_like a" "snapshot_like b" "order_sign cv [by_time] a b \<le> 0"
  shows "num_le (time_of b) (time_of a)"
proof -
  have v: "entry_value (JArr [JStr ''creationTimestamp'', JStr ''Desc'']) a = JNum (time_of a)"
    "entry_value (JArr [JStr ''creationTimestamp'', JStr ''Desc'']) b = JNum (time_of b)"
    using entry_value_time assms(2,3) by (simp_all add: by_time_def)
  have "order_sign cv [by_time] a b = (let s = sign_of (base_comparer cv (JNum (time_of b)) (JNum (time_of a)))
      in if s \<noteq> 0 then s else order_sign cv [] a b)"
    using order_sign_Cons [of cv "fst by_time" "snd by_time" "[]" a b] snapshot_orderable [OF assms(1)] assms(2,3) v
    by (simp add: by_time_def order_asc_def)
  moreover have "order_sign cv [] a b = 0" by (simp add: order_sign_def sign_of_def)
  ultimately have "sign_of (base_comparer cv (JNum (time_of b)) (JNum (time_of a))) \<le> 0" using assms(4) by (simp add: Let_def split: if_splits)
  moreover have "time_of a \<noteq> NaN" "time_of b \<noteq> NaN" using snapshot_like_props(3) assms(2,3) by blast+
  ultimately show ?thesis
    by (cases "time_of a"; cases "time_of b") (auto simp: base_comparer_def sign_of_def num_le_def split: if_splits)
qed

section \<open>Finding\<close>

lemma snapshots_found:
  assumes "hs_context h = Some (Inr ())" "jget (hs_db h) (hs_collection h) = Some coll"
    "\<forall>o1 \<in> set (jvals coll). snapshot_like o1" "length coll \<le> 9007199254740991" "collator_ok cv"
    "optional_number start" "optional_number end1"
  shows "\<exists>snaps. find_snapshots_by_parent_id cv parent start end1 h = (Inr snaps, h) \<and>
    mset snaps = mset (map js_clone (filter (code_wanted parent start end1) (jvals coll))) \<and>
    sorted_wrt (\<lambda>a b. num_le (time_of b) (time_of a)) snaps"
proof -
  let ?flt = "snapshot_filter parent start end1" and ?hit = "code_wanted parent start end1"
  have hits: "\<forall>o1 \<in> set (jvals coll). matches_opt (get_filter_matcher cv ?flt) o1 = Inr (?hit o1)"
    using snapshot_filter_matches [OF _ assms(6,7)] assms(3) by blast
  have ord: "\<forall>o1 \<in> set (filter ?hit (jvals coll)). orderable cv [by_time] o1"
    using snapshot_orderable [OF assms(5)] assms(3) by auto
  obtain objs where objs: "js_sort (compare_by cv (map fst [by_time])) [] (filter ?hit (jvals coll)) = Inr objs"
    "mset objs = mset (filter ?hit (jvals coll))" "in_order cv [by_time] objs"
    using js_sort_spec [OF ord, of "[]"] by auto
  have src: "query_source cv ?flt coll ?hit objs" unfolding query_source_def snapshot_order_entries using objs(1) by simp
  have set_objs: "set objs = set (filter ?hit (jvals coll))" using mset_eq_setD [OF objs(2)] .
  have "length objs \<le> length (jvals coll)" using mset_eq_length [OF objs(2)] by simp
  then have window: "take 9007199254740991 (drop 0 (filter ?hit objs)) = objs"
    using assms(4) set_objs by simp
  have limits: "num_or ?flt ''take'' max_safe_integer = Fin (of_nat 9007199254740991)" "num_or ?flt ''skip'' (Fin 0) = Fin (of_nat 0)"
    by (simp_all add: num_or_def snapshot_filter_def max_safe_integer_def proto_prop_def object_proto_names_def)
  have joins: "\<forall>o1 \<in> set (jvals coll). ?hit o1 \<longrightarrow> join_object_properties (hs_db h) [] (js_clone o1) = Inr (js_clone o1)" by simp
  have "chunks 0 (map js_clone objs) = [map js_clone objs]" by (simp add: chunks.simps)
  then have "find_objects cv (hs_collection h) ?flt [] (ForBatch 0 (\<lambda>b. True)) (hs_db h) =
      (Inr (length objs, False), [Batch (map js_clone objs)])"
    using find_objects_batched [OF assms(2) hits src joins limits refl, of 0 "\<lambda>b. True"] unfolding window by simp
  moreover have "check_filter ?flt = Inr ()"
    by (simp add: check_filter_def throw_if_object_filter_invalid_def snapshot_filter_def)
  ultimately have "find_snapshots_by_parent_id cv parent start end1 h = (Inr (map js_clone objs), h)"
    using assms(1) by (simp add: find_snapshots_by_parent_id_def find_snapshots_by_filter_def get_db_context_def find_batch_def
        batch_of_def ctx_find_objects_def)
  moreover have "mset (map js_clone objs) = mset (map js_clone (filter ?hit (jvals coll)))" by (simp only: mset_map objs(2))
  moreover have "sorted_wrt (\<lambda>a b. num_le (time_of b) (time_of a)) (map js_clone objs)"
  proof -
    have like: "\<forall>o1 \<in> set objs. snapshot_like o1" using set_objs assms(3) by auto
    have "sorted_wrt (\<lambda>a b. num_le (time_of (js_clone b)) (time_of (js_clone a))) objs"
      by (rule sorted_wrt_mono_rel [OF _ objs(3)])
        (use newest_first_order [OF assms(5)] like snapshot_like_clone(3) in simp)
    then show ?thesis by (simp add: sorted_wrt_map)
  qed
  ultimately show ?thesis by blast
qed

section \<open>Making snapshots\<close>

lemma valid_snapshot_like:
  assumes "is_object s None" "get_prop s ''coreType'' = JStr ''Snapshot''"
  shows "snapshot_like s"
proof -
  have "is_assignable s ''Snapshot''" using assms by (simp add: is_object_def split: if_splits)
  then have h: "is_snapshot_head s" by (simp add: is_assignable.simps [of s])
  obtain p ps where s: "s = JObj p ps" using assms(1) by (cases s) (auto simp: is_object_def)
  have "prop_nonempty s ''parentObjectId''" "prop_num s ''creationTimestamp''" "truthy (get_prop s ''creationTimestamp'')"
    using h by (simp_all add: is_snapshot_head_def)
  have own: "map_of ps k = Some (get_prop s k)" if "get_prop s k \<noteq> JUndef" "proto_prop k = JUndef" for k
    using that by (cases "map_of ps k") (simp_all add: s split: if_splits)
  obtain i where i: "get_prop s ''parentObjectId'' = JStr i"
    using h by (auto simp: is_snapshot_head_def nonempty_str_iff)
  obtain n where n: "get_prop s ''creationTimestamp'' = JNum n" "n \<noteq> NaN"
    using h by (cases "get_prop s ''creationTimestamp''") (auto simp: is_snapshot_head_def)
  have "map_of ps ''parentObjectId'' = Some (JStr i)" "map_of ps ''creationTimestamp'' = Some (JNum n)"
    using own [of "''parentObjectId''"] own [of "''creationTimestamp''"] i n
    by (simp_all del: get_prop.simps add: proto_prop_def object_proto_names_def)
  then show ?thesis using n(2) by (auto simp: snapshot_like_def s)
qed

lemma valid_snapshot_parent:
  assumes "is_object s None" "get_prop s ''coreType'' = JStr ''Snapshot''"
  shows "truthy (get_prop s ''parentObjectId'')"
proof -
  have "is_assignable s ''Snapshot''" using assms by (simp add: is_object_def split: if_splits)
  then have "is_snapshot_head s" by (simp add: is_assignable.simps [of s])
  then show ?thesis by (auto simp: is_snapshot_head_def nonempty_str_iff)
qed

definition all_snapshots :: "collection \<Rightarrow> bool" where
  "all_snapshots coll = (jwf coll \<and> (\<forall>o1 \<in> set (jvals coll). snapshot_like o1))"

lemma snapshot_kept:
  assumes "hs_context h = Some (Inr ())" "ho_persist_local (hs_options h)"
    "jget (hs_db h) (hs_collection h) = Some coll" "all_snapshots coll"
    "generate_snapshot newUuid now obj params h = (Inr s, h')"
  shows "parent_of s = get_prop obj ''objectId'' \<and> truthy (get_prop obj ''objectId'') \<and> snapshot_like s \<and> hs_context h' = Some (Inr ()) \<and> hs_collection h' = hs_collection h \<and>
    jget (hs_db h') (hs_collection h') = Some (jset newUuid (js_clone s) coll) \<and> all_snapshots (jset newUuid (js_clone s) coll)"
proof -
  obtain s0 where s0: "new_snapshot newUuid now (hs_identity h) obj params = Inr s0" "process_snapshot s0 h = (Inr s, h')"
    using assms(5) by (auto simp: generate_snapshot_def split: sum.splits)
  obtain r db' where r: "ctx_insert_objects (hs_collection h) s0 True (hs_db h) = (r, db')" by (metis surj_pair)
  have p: "s = s0" "h' = advertise_if_requested s0 (h\<lparr>hs_db := db'\<rparr>)" "\<not> isl r"
    using s0(2) assms(1,2) r by (auto simp: process_snapshot_def get_db_context_def on_db_def split: sum.splits)
  have h': "hs_context h' = Some (Inr ())" "hs_collection h' = hs_collection h" "hs_db h' = db'"
    using assms(1) by (simp_all add: p(2) advertise_if_requested_def historian_out_def hs_collection_def)
  obtain copy where s: "s = jobj [(''objectId'', JStr newUuid), (''parentObjectId'', get_prop obj ''objectId''),
         (''objectType'', JStr (object_type_prefix @ ''Snapshot'')), (''coreType'', JStr ''Snapshot''),
         (''name'', JStr (name_part obj ''objectType'' @ '' '' @ name_part obj ''name'')),
         (''creatorId'', JStr (hs_identity h)), (''creationTimestamp'', snapshot_timestamp now params),
         (''object'', copy), (''tags'', JArr (snapshot_tags params))]"
    using s0(1) p(1) by (auto simp: new_snapshot_def rbind_Inr_conv split: if_splits)
  have valid: "is_object s None"
    using r p(1,3) by (auto simp: ctx_insert_objects_def checked_def throw_if_not_object_type_def s split: if_splits sum.splits)
  then have like: "snapshot_like s" by (rule valid_snapshot_like) (simp add: s)
  have "insert_objects (hs_collection h) [s] True (hs_db h) =
      (Inr [newUuid], jset (hs_collection h) (jset newUuid (js_clone s) coll) (hs_db h))"
    using assms(3) valid by (simp add: insert_objects_def put_object_def core_clone_def object_id_def s)
  moreover have "ctx_insert_objects (hs_collection h) s True (hs_db h) = insert_objects (hs_collection h) [s] True (hs_db h)"
    using valid by (simp add: ctx_insert_objects_def checked_def throw_if_not_object_type_def as_array_def s)
  ultimately have "db' = jset (hs_collection h) (jset newUuid (js_clone s) coll) (hs_db h)" using r by (simp add: p(1))
  moreover have "all_snapshots (jset newUuid (js_clone s) coll)"
    using assms(4) snapshot_like_clone(1) [OF like] by (auto simp: all_snapshots_def set_jset)
  moreover have "parent_of s = get_prop obj ''objectId''" by (simp add: parent_of_def s)
  moreover have "truthy (get_prop obj ''objectId'')"
    using valid_snapshot_parent [OF valid] by (simp add: s)
  ultimately show ?thesis using h' like by simp
qed

text \<open>C24: If the historian persists its own snapshots in a collection of snapshots, a snapshot that it made
  of an object is in the collection under its id, the other snapshots are still there, and the snapshots
  found for that object in a time frame are exactly the collection's snapshots of the object with a
  timestamp in the frame, each as often as it is there, newest first; so the new one is among them if
  its timestamp is in the frame. An undefined bound of the frame does not restrict it; a bound is not
  zero, which the code takes for undefined.\<close>

theorem generated_snapshots_found:
  assumes "hs_context h = Some (Inr ())" "ho_persist_local (hs_options h)"
    "jget (hs_db h) (hs_collection h) = Some coll" "all_snapshots coll" "length coll < 9007199254740991"
    "generate_snapshot newUuid now obj params h = (Inr s, h')" "collator_ok cv"
    "time_bound start" "time_bound end1"
  defines "coll' \<equiv> jset newUuid (js_clone s) coll" and "hit \<equiv> wanted (get_prop obj ''objectId'') start end1"
  shows "jget (hs_db h') (hs_collection h') = Some coll' \<and>
    (\<exists>snaps. find_snapshots_by_parent_id cv (get_prop obj ''objectId'') start end1 h' = (Inr snaps, h') \<and>
      mset snaps = mset (map js_clone (filter hit (jvals coll'))) \<and>
      sorted_wrt (\<lambda>a b. num_le (time_of b) (time_of a)) snaps \<and>
      (hit s \<longrightarrow> js_clone (js_clone s) \<in> set snaps))"
proof -
  note k = snapshot_kept [OF assms(1,2,3,4,6), folded coll'_def]
  have ctx: "hs_context h' = Some (Inr ())" "jget (hs_db h') (hs_collection h') = Some coll'"
    "\<forall>o1 \<in> set (jvals coll'). snapshot_like o1" using k unfolding all_snapshots_def by metis+
  have "length (jset newUuid (js_clone s) coll) \<le> Suc (length coll)" by (induction coll) auto
  then have "length coll' \<le> 9007199254740991" using assms(5) by (simp add: coll'_def)
  moreover have "optional_number start" "optional_number end1"
    using assms(8,9) by (auto simp: time_bound_def optional_number_def)
  moreover have "code_wanted (get_prop obj ''objectId'') start end1 = hit"
    using k code_wanted_documented [OF _ assms(8,9)] by (simp add: hit_def)
  ultimately
  obtain snaps where snaps: "find_snapshots_by_parent_id cv (get_prop obj ''objectId'') start end1 h' = (Inr snaps, h')"
    "mset snaps = mset (map js_clone (filter hit (jvals coll')))" "sorted_wrt (\<lambda>a b. num_le (time_of b) (time_of a)) snaps"
    using snapshots_found [OF ctx _ assms(7), of start end1 "get_prop obj ''objectId''"] by auto
  have "js_clone (js_clone s) \<in> set snaps" if "hit s"
  proof -
    have "hit (js_clone s)" using that k by (simp add: hit_def wanted_def snapshot_like_clone)
    moreover have "js_clone s \<in> set (jvals coll')"
      using map_of_SomeD [of coll' newUuid "js_clone s"] by (force simp: coll'_def)
    ultimately show ?thesis unfolding mset_eq_setD [OF snaps(2)] by simp
  qed
  then show ?thesis using ctx(2) snaps by blast
qed

text \<open>A timestamp of zero does not restrict the snapshots found, although only an undefined one is documented
  not to: with an end of zero later snapshots are found, too.\<close>

theorem zero_timestamp_unrestricted:
  "find_snapshots_by_parent_id cv parent start (JNum (Fin 0)) h = find_snapshots_by_parent_id cv parent start JUndef h \<and>
   find_snapshots_by_parent_id cv parent (JNum (Fin 0)) end1 h = find_snapshots_by_parent_id cv parent JUndef end1 h \<and>
   (num_less (Fin 0) (time_of o1) \<longrightarrow> \<not> wanted parent start (JNum (Fin 0)) o1)"
  by (cases "time_of o1") (auto simp: find_snapshots_by_parent_id_def snapshot_filter_def
      snapshot_conditions_def wanted_def num_le_def)

section \<open>A concrete history\<close>

definition sample_historian :: historian where
  "sample_historian =
    \<lparr>hs_options = \<lparr>ho_advertise_snapshots = True, ho_persist_local = True, ho_persist_observed = False,
       ho_reply_to_queries = False, ho_database = Some (''db'', ''snapshots'')\<rparr>,
     hs_identity = ''me'', hs_connections = [''db''], hs_context = Some (Inr ()), hs_db = [(''snapshots'', [])], hs_out = []\<rparr>"

definition sample_identity_object :: jsv where
  "sample_identity_object = jobj [(''objectId'', JStr ''u1''), (''name'', JStr ''Agent''),
     (''objectType'', JStr ''coaty.Identity''), (''coreType'', JStr ''Identity'')]"

definition sample_snapshot :: jsv where
  "sample_snapshot = jobj [(''objectId'', JStr ''s1''), (''parentObjectId'', JStr ''u1''),
     (''objectType'', JStr ''coaty.Snapshot''), (''coreType'', JStr ''Snapshot''), (''name'', JStr ''coaty.Identity Agent''),
     (''creatorId'', JStr ''me''), (''creationTimestamp'', jint 5), (''object'', sample_identity_object),
     (''tags'', JArr [JStr ''tag''])]"

lemmas object_checks = is_object_None is_assignable.simps is_identity_def is_object_base_def core_type_is_def is_core_type_iff
  core_type_names_def prop_opt_def proto_prop_def object_proto_names_def is_snapshot_head_def is_string_array_def

lemma sample_identity_valid: "is_object sample_identity_object None" "is_assignable sample_identity_object ''Identity''"
  "is_plain_object sample_identity_object" "get_prop sample_identity_object ''coreType'' = JStr ''Identity''"
  by (simp_all add: sample_identity_object_def object_checks)

lemma sample_collator: "collator_ok sample_conv"
  by (auto simp: collator_ok_def sample_conv_def)

lemma sample_snapshot_valid: "is_object sample_snapshot None"
proof -
  have "is_assignable sample_snapshot ''Snapshot''"
    unfolding is_assignable.simps [of sample_snapshot]
    by (simp add: sample_snapshot_def sample_identity_valid Let_def is_snapshot_head_def is_object_base_def core_type_is_def is_core_type_iff
        core_type_names_def prop_opt_def proto_prop_def object_proto_names_def is_string_array_def)
  then show ?thesis by (simp add: is_object_def sample_snapshot_def)
qed

lemma sample_generated:
  "\<exists>h'. generate_snapshot ''s1'' (Fin 7) sample_identity_object [jint 5, JStr ''tag''] sample_historian = (Inr sample_snapshot, h')"
proof -
  have c: "core_clone sample_identity_object False = Inr sample_identity_object"
    using sample_identity_valid(1) by (simp add: core_clone_def) (simp add: sample_identity_object_def)
  have n: "new_snapshot ''s1'' (Fin 7) ''me'' sample_identity_object [JNum (Fin 5), JStr ''tag''] = Inr sample_snapshot"
    unfolding new_snapshot_def c rbind.simps
    by (simp add: sample_identity_object_def sample_snapshot_def name_part_def snapshot_timestamp_def snapshot_tags_def object_type_prefix_def)
  have i: "object_id sample_snapshot = Some ''s1''" "\<not> is_array sample_snapshot" "sample_snapshot \<noteq> JUndef" "sample_snapshot \<noteq> JNull"
    by (simp_all add: object_id_def sample_snapshot_def)
  have "as_array sample_snapshot = [sample_snapshot]" by (simp add: as_array_def sample_snapshot_def)
  then have "\<not> isl (fst (ctx_insert_objects ''snapshots'' sample_snapshot True [(''snapshots'', [])]))"
    using sample_snapshot_valid i
    by (simp add: ctx_insert_objects_def checked_def throw_if_not_object_type_def insert_objects_def put_object_def core_clone_def)
  then show ?thesis
    unfolding generate_snapshot_def
    by (auto simp: n sample_historian_def process_snapshot_def get_db_context_def on_db_def hs_collection_def
        split: sum.split prod.split)
qed

theorem generated_snapshots_found_witness:
  "\<exists>h' snaps. generate_snapshot ''s1'' (Fin 7) sample_identity_object [jint 5, JStr ''tag''] sample_historian = (Inr sample_snapshot, h') \<and>
    find_snapshots_by_parent_id sample_conv (JStr ''u1'') (jint 2) JUndef h' = (Inr snaps, h') \<and> length snaps = 1"
proof -
  obtain h' where g: "generate_snapshot ''s1'' (Fin 7) sample_identity_object [jint 5, JStr ''tag''] sample_historian = (Inr sample_snapshot, h')"
    using sample_generated ..
  have "\<exists>snaps. find_snapshots_by_parent_id sample_conv (get_prop sample_identity_object ''objectId'') (jint 2) JUndef h' = (Inr snaps, h') \<and>
      mset snaps = mset (map js_clone (filter (wanted (get_prop sample_identity_object ''objectId'') (jint 2) JUndef)
        (jvals (jset ''s1'' (js_clone sample_snapshot) []))))"
    using generated_snapshots_found [OF _ _ _ _ _ g, of "[]" sample_conv "jint 2" JUndef]
    by (auto simp: sample_historian_def hs_collection_def all_snapshots_def time_bound_def sample_collator)
  then obtain snaps where f: "find_snapshots_by_parent_id sample_conv (get_prop sample_identity_object ''objectId'') (jint 2) JUndef h' = (Inr snaps, h')"
    and m: "mset snaps = mset (map js_clone (filter (wanted (get_prop sample_identity_object ''objectId'') (jint 2) JUndef)
      (jvals (jset ''s1'' (js_clone sample_snapshot) []))))" by blast
  have i: "get_prop sample_identity_object ''objectId'' = JStr ''u1''" by (simp add: sample_identity_object_def)
  have "wanted (JStr ''u1'') (jint 2) JUndef (js_clone sample_snapshot)"
    by (simp add: wanted_def sample_snapshot_def parent_of_def time_of_def num_le_def sample_identity_object_def)
  then have "length snaps = 1" using mset_eq_length [OF m] by (simp add: i)
  then show ?thesis using g f unfolding i by blast
qed

text \<open>Without a timestamp the first tag becomes the last one; if the database context cannot be had, a
  snapshot that was to be persisted first is advertised all the same.\<close>

lemma first_tag_last: "snapshot_tags [JStr a, JStr b, JStr c] = [JStr b, JStr c, JStr a]"
  by (simp add: snapshot_tags_def)

lemma unpersisted_snapshot_advertised:
  assumes "ho_persist_local (hs_options h)" "ho_advertise_snapshots (hs_options h)" "hs_context h = Some (Inl e)"
  shows "process_snapshot s h = (Inr s, historian_out [LogError e, SnapshotAdvertised s] h)"
  using assms by (simp add: process_snapshot_def get_db_context_def advertise_if_requested_def historian_out_def)

end
