(* ===== verification/BasicIoRouter.thy ===== *)
theory BasicIoRouter
  imports IoRoutingProps
begin

text \<open>
  The basic IO router, \<open>src/src/io-routing/basic-io-router.ts\<close>: a rule-based router with one global rule
  that accepts every compatible pair of an IO source and an IO actor.
\<close>

definition basic_rule :: association_rule where
  "basic_rule =
    \<lparr>ar_name = ''Any association on compatible value types'', ar_value_type = Some [],
     ar_condition = Some (\<lambda>source sourceNode actor actorNode context1. Inr True)\<rparr>"

definition basic_router_init :: "(string \<Rightarrow> string) \<Rightarrow> string \<Rightarrow> jsv \<Rightarrow> js_error + io_router" where
  "basic_router_init create_route identityId ioContext =
    rbind (router_init identityId ioContext) (\<lambda>r.
      (case define_rules create_route [basic_rule] r of
         (Some e, r') \<Rightarrow> Inl e
       | (None, r') \<Rightarrow> Inr r'))"

section \<open>The rule stays\<close>

definition keeps_rules :: "router_event \<Rightarrow> bool" where
  "keeps_rules e = (case e of RulesDefined rules \<Rightarrow> False | Starting rules \<Rightarrow> rules = None | _ \<Rightarrow> True)"

definition basic_rules :: "io_router \<Rightarrow> bool" where
  "basic_rules r = (ro_rules r = [([], [basic_rule])])"

lemma act_current_rules:
  "act_current cr infos (pairs, new, r) = (pairs', new', r') \<Longrightarrow> ro_rules r' = ro_rules r"
  by (induction infos arbitrary: pairs new r) (auto split: option.splits prod.splits if_splits)

lemma fold_associate_rules:
  "ro_rules (fold (\<lambda>(src, actor, rate). router_associate cr src actor rate) infos r) = ro_rules r"
  by (induction infos arbitrary: r) auto

lemma evaluate_rules_rules: "ro_rules (snd (evaluate_rules cr r)) = ro_rules r"
proof (cases "get_compatible_associations r")
  case (Inr cas)
  obtain pairs new r1 where "act_current cr (ro_current r)
      (resolve_rates (match_rules (ro_rules r) (ro_context r) cas), [], r) = (pairs, new, r1)"
    by (metis prod_cases3)
  then show ?thesis
    using act_current_rules by (simp add: evaluate_rules_def Inr act_on_pairs_def Let_def fold_associate_rules)
qed (simp add: evaluate_rules_def)

lemma deregister_nodes_rules: "ro_rules (snd (snd (deregister_nodes readv ids deregs r))) = ro_rules r"
proof (induction ids arbitrary: deregs r)
  case (Cons j ids)
  show ?case
  proof (cases "jget (ro_nodes r) j")
    case (Some node)
    let ?r1 = "r\<lparr>ro_nodes := jdel j (ro_nodes r)\<rparr>"
    show ?thesis
    proof (cases "elements_of (get_prop node ''ioSources'')")
      case (Inr points)
      obtain err r2 where d: "drop_routes readv points ?r1 = (err, r2)" by (cases "drop_routes readv points ?r1")
      then obtain routes where "r2 = ?r1\<lparr>ro_routes := routes\<rparr>" using drop_routes_frame [of readv points ?r1] by auto
      then show ?thesis using Cons.IH [of _ r2] Some Inr d by (cases err) (simp_all add: Let_def)
    qed (simp add: Some)
  qed (simp add: Cons.IH)
qed simp

lemma io_nodes_deadvertised_rules: "ro_rules (snd (io_nodes_deadvertised cr ids readv r)) = ro_rules r"
proof -
  obtain err ds r1 where d: "deregister_nodes readv ids [] r = (err, ds, r1)" by (metis prod_cases3)
  then have "ro_rules r1 = ro_rules r" using deregister_nodes_rules [of readv ids "[]" r] by simp
  then show ?thesis
    by (cases err) (simp_all add: io_nodes_deadvertised_def d evaluate_rules_rules)
qed

lemma io_node_advertised_rules: "ro_rules (snd (io_node_advertised cr node r)) = ro_rules r"
proof -
  define readv where "readv = (if no_points (get_prop node ''ioSources'') \<and> no_points (get_prop node ''ioActors'')
    then None else Some node)"
  obtain err r1 where d: "io_nodes_deadvertised cr [point_id node] readv r = (err, r1)"
    by (cases "io_nodes_deadvertised cr [point_id node] readv r")
  then have "ro_rules r1 = ro_rules r" using io_nodes_deadvertised_rules [of cr "[point_id node]" readv r] by simp
  then show ?thesis
    using d unfolding readv_def by (cases err) (auto simp: io_node_advertised_def Let_def evaluate_rules_rules)
qed

lemma fold_disassociate_rules:
  "ro_rules (fold (\<lambda>(source, actor, rate). router_disassociate source actor) infos r) = ro_rules r"
  by (induction infos arbitrary: r) auto

lemma on_io_context_changed_rules: "ro_rules (snd (on_io_context_changed cr r)) = ro_rules r"
  by (simp add: on_io_context_changed_def evaluate_rules_rules)

lemma update_io_context_rules: "ro_rules (snd (update_io_context cr identityId obj r)) = ro_rules r"
proof -
  let ?r = "r\<lparr>ro_context := set_prop ''parentObjectId'' (JStr identityId) obj\<rparr>"
  obtain err r1 where d: "on_io_context_changed cr ?r = (err, r1)" by (cases "on_io_context_changed cr ?r")
  then have "ro_rules r1 = ro_rules r" using on_io_context_changed_rules [of cr ?r] by simp
  then show ?thesis by (cases err) (simp_all add: update_io_context_def Let_def d)
qed

lemma router_step_rules:
  "keeps_rules e \<Longrightarrow> ro_rules (snd (router_step cr identityId e r)) = ro_rules r"
  by (cases e)
    (simp_all add: keeps_rules_def io_node_advertised_rules io_nodes_deadvertised_rules update_io_context_rules
      on_starting_def on_io_context_changed_rules on_stopping_def on_stopped_def fold_disassociate_rules Let_def)

lemma router_run_rules:
  "list_all keeps_rules es \<Longrightarrow> ro_rules (router_run cr identityId es r) = ro_rules r"
  by (induction es arbitrary: r) (simp_all add: router_run_def router_step_rules del: router_step.simps)

lemma basic_router_init_ok:
  assumes "router_init identityId ctx = Inr r"
  shows "\<exists>r0. basic_router_init cr identityId ctx = Inr r0 \<and> router_inv r0 \<and> basic_rules r0"
proof -
  have inv: "nodes_ok r" "associations_ok r" using router_init_inv [OF assms] by (simp_all add: router_inv_def)
  then obtain r0 where d: "define_rules cr [basic_rule] r = (None, r0)" "router_inv r0"
    using define_rules_ok by blast
  then have "ro_rules r0 = [([], [basic_rule])]"
    using evaluate_rules_rules [of cr "r\<lparr>ro_rules := fold add_rule [basic_rule] []\<rparr>"]
    by (simp add: define_rules_def add_rule_def basic_rule_def)
  then show ?thesis using assms d by (simp add: basic_router_init_def basic_rules_def)
qed

lemma basic_router_init_inv:
  assumes "basic_router_init cr identityId ctx = Inr r0"
  shows "router_inv r0" "basic_rules r0"
proof -
  obtain r where "router_init identityId ctx = Inr r"
    using assms by (cases "router_init identityId ctx") (auto simp: basic_router_init_def)
  then have "\<exists>r1. basic_router_init cr identityId ctx = Inr r1 \<and> router_inv r1 \<and> basic_rules r1"
    by (rule basic_router_init_ok)
  then show "router_inv r0" "basic_rules r0" using assms by auto
qed

lemma basic_rules_match: "basic_rules r \<Longrightarrow> ca_matches (ro_rules r) ctx (src, sn, act, an)"
  by (simp add: basic_rules_def ca_matches_def rules_for_def rule_matches_def basic_rule_def)

text \<open>The compatible pair that the managed nodes offer under two ids.\<close>

definition compatible_pair :: "io_router \<Rightarrow> string \<Rightarrow> string \<Rightarrow> bool" where
  "compatible_pair r s a =
    (case (owner ''ioSources'' (jvals (ro_nodes r)) s, owner ''ioActors'' (jvals (ro_nodes r)) a) of
       (Some (src, sn), Some (act, an)) \<Rightarrow>
         value_type src = value_type act \<and>
         truthy (get_prop src ''useRawIoValues'') = truthy (get_prop act ''useRawIoValues'')
     | _ \<Rightarrow> False)"

lemma basic_prescribed: "basic_rules r \<Longrightarrow> (prescribed r s a \<noteq> None) = compatible_pair r s a"
  by (simp add: prescribed_def compatible_pair_def basic_rules_match are_value_types_compatible_def
      split: option.split prod.split)

text \<open>C11: the documented contract of the basic IO router: whatever complete nodes are advertised,
  readvertised and deadvertised, through starts, stops and changes of the context, as long as nobody
  replaces the basic rule by other rules, the associations established by the Associate events published
  so far are exactly the pairs of a source and an actor of the nodes now managed that have equal value
  types in equal data formats. A node is complete if it is valid with arrays of both sources and
  actors, or has none of either; for one without an array of sources the contract fails, as stated for the router.\<close>

theorem basic_router_associates_compatible:
  assumes "basic_router_init cr identityId ctx = Inr r0" "list_all complete_event es" "list_all keeps_rules es"
    "r = router_run cr identityId es r0"
  shows "(established (ro_out r) (s, a) \<noteq> None) = compatible_pair r s a"
proof -
  have inv: "router_inv r" using router_run_inv [OF basic_router_init_inv(1) [OF assms(1)] assms(2)] assms(4) by simp
  have "basic_rules r"
    using router_run_rules [OF assms(3)] basic_router_init_inv(2) [OF assms(1)] assms(4) by (simp add: basic_rules_def)
  moreover have "case prescribed r s a of None \<Rightarrow> rates r (s, a) = None
     | Some pair \<Rightarrow> (\<exists>v. rates r (s, a) = Some v \<and> greatest_rate (rate_candidates r s) v)"
    using inv unfolding router_inv_def settled_def by blast
  then have "(established (ro_out r) (s, a) \<noteq> None) = (prescribed r s a \<noteq> None)"
    by (auto simp: rates_def split: option.splits)
  ultimately show ?thesis using basic_prescribed by blast
qed

definition basic_events :: "router_event list" where
  "basic_events = [Starting None, IoNodeAdvertised room_node]"

theorem basic_router_associates_compatible_witness:
  "\<exists>r0. basic_router_init (\<lambda>s. ''route'') ''id'' room_context = Inr r0 \<and>
    established (ro_out (router_run (\<lambda>s. ''route'') ''id'' basic_events r0)) (''s'', ''a'') \<noteq> None"
proof -
  obtain r0 where r0: "basic_router_init (\<lambda>s. ''route'') ''id'' room_context = Inr r0"
    using basic_router_init_ok [OF room_init] by blast
  let ?r = "router_run (\<lambda>s. ''route'') ''id'' basic_events r0"
  have "define_rules (\<lambda>s. ''route'') [basic_rule] room_router = (None, room_router\<lparr>ro_rules := [([], [basic_rule])]\<rparr>)"
    by (simp add: router_eval basic_rule_def)
  then have "r0 = room_router\<lparr>ro_rules := [([], [basic_rule])]\<rparr>"
    using r0 room_init by (simp add: basic_router_init_def)
  then have "ro_nodes ?r = [(''n'', room_node)]"
    by (simp add: router_eval basic_events_def basic_rule_def)
  then have "compatible_pair ?r ''s'' ''a''"
    using room_props(4)
    by (simp add: compatible_pair_def owner_def offered_def points_of_def room_props room_ids are_value_types_compatible_def)
  moreover have "list_all complete_event basic_events" "list_all keeps_rules basic_events"
    by (simp_all add: basic_events_def complete_event_def room_complete keeps_rules_def)
  ultimately show ?thesis
    using basic_router_associates_compatible [OF r0 _ _ refl, of basic_events "''s''" "''a''"] r0 by blast
qed

end
