(* ===== verification/ObjectCache.thy ===== *)
theory ObjectCache
  imports CommManager
begin

text \<open>
  The object cache controller, \<open>src/src/controller/object-cache-controller.ts\<close>. Object ids are strings. A
  pending request is the number of its response observable, in the order of creation; a client that
  subscribes to it is a number. What is published and what subscribers receive is collected in \<open>oc_out\<close>.
  The filter predicate returns.
\<close>

section \<open>State\<close>

datatype cache_subscriber = TheCache | Client nat

datatype cache_reply = CachedObject jsv | PendingRequest nat

datatype cache_out =
    PublishDiscover discover_data
  | Replied string cache_reply
  | ResolvedObject nat jsv
  | ResolveFailed cache_subscriber js_error

record cache_request =
  cr_discover :: discover_data
  cr_subscribers :: "cache_subscriber list"
  cr_finished :: bool

record object_cache =
  oc_cache :: "(string, jsv) jmap"
  oc_pending :: "(string, nat) jmap"
  oc_core_type :: string
  oc_filter :: "(jsv \<Rightarrow> bool) option"
  oc_requests :: "cache_request list"
  oc_observed :: "string option" \<comment> \<open>the core type whose advertisements are observed\<close>
  oc_out :: "cache_out list"

definition new_object_cache :: object_cache where
  "new_object_cache =
    \<lparr>oc_cache = [], oc_pending = [], oc_core_type = ''CoatyObject'', oc_filter = None, oc_requests = [],
     oc_observed = None, oc_out = []\<rparr>"

definition set_core_type :: "string \<Rightarrow> object_cache \<Rightarrow> object_cache" where
  "set_core_type coreType s = s\<lparr>oc_core_type := (if coreType \<noteq> [] then coreType else ''CoatyObject'')\<rparr>"

definition set_object_filter :: "(jsv \<Rightarrow> bool) option \<Rightarrow> object_cache \<Rightarrow> object_cache" where
  "set_object_filter predicate s = s\<lparr>oc_filter := predicate\<rparr>"

definition emit_out :: "cache_out \<Rightarrow> object_cache \<Rightarrow> object_cache" where
  "emit_out x s = s\<lparr>oc_out := oc_out s @ [x]\<rparr>"

section \<open>Operations\<close>

definition cache_starting :: "object_cache \<Rightarrow> js_error + object_cache" where
  "cache_starting s =
    (if \<not> is_core_type (oc_core_type s) then Inl (TypeError ''not a CoreType'')
     else Inr (s\<lparr>oc_cache := [], oc_pending := [], oc_observed := Some (oc_core_type s)\<rparr>))"

text \<open>The predicate of \<open>first\<close>, for an object or no object.\<close>

definition accepts_object :: "object_cache \<Rightarrow> jsv \<Rightarrow> bool" where
  "accepts_object s obj =
    (truthy obj \<and> strict_eq (get_prop obj ''coreType'') (JStr (oc_core_type s)) \<and>
     (case oc_filter s of Some f \<Rightarrow> f obj | None \<Rightarrow> True))"

definition discover_object_id :: "string \<Rightarrow> js_error + discover_data" where
  "discover_object_id objectId = new_discover_data JUndef (JStr objectId) JUndef JUndef"

text \<open>The new observable is subscribed to by the cache at once, which publishes the Discover event.\<close>

definition discover_object :: "string \<Rightarrow> object_cache \<Rightarrow> js_error + nat \<times> object_cache" where
  "discover_object objectId s =
    rbind (discover_object_id objectId) (\<lambda>d.
      (let i = length (oc_requests s);
           r = \<lparr>cr_discover = d, cr_subscribers = [TheCache], cr_finished = False\<rparr>
       in Inr (i, emit_out (PublishDiscover d)
            (s\<lparr>oc_pending := jset objectId i (oc_pending s), oc_requests := oc_requests s @ [r]\<rparr>))))"

definition cached_object :: "string \<Rightarrow> object_cache \<Rightarrow> jsv option" where
  "cached_object objectId s =
    (case jget (oc_cache s) objectId of
       Some obj \<Rightarrow> (if truthy obj then Some obj else None)
     | None \<Rightarrow> None)"

definition resolve_object :: "string \<Rightarrow> bool \<Rightarrow> object_cache \<Rightarrow> js_error + cache_reply \<times> object_cache" where
  "resolve_object objectId shouldResolvePending s =
    (case cached_object objectId s of
       Some obj \<Rightarrow> Inr (CachedObject obj, s)
     | None \<Rightarrow>
         (case jget (oc_pending s) objectId of
            Some i \<Rightarrow>
              (if shouldResolvePending
               then rbind (discover_object objectId s) (\<lambda>(j, s'). Inr (PendingRequest j, s'))
               else Inr (PendingRequest i, s))
          | None \<Rightarrow> rbind (discover_object objectId s) (\<lambda>(j, s'). Inr (PendingRequest j, s'))))"

definition set_request :: "nat \<Rightarrow> cache_request \<Rightarrow> object_cache \<Rightarrow> object_cache" where
  "set_request i r s = s\<lparr>oc_requests := (oc_requests s)[i := r]\<rparr>"

definition resubscribe_error :: js_error where
  "resubscribe_error = Error ''resubscribing to a response event is not supported''"

text \<open>A client subscribes to what \<open>resolveObject\<close> returned.\<close>

definition subscribe_reply :: "cache_reply \<Rightarrow> nat \<Rightarrow> object_cache \<Rightarrow> object_cache" where
  "subscribe_reply reply client s =
    (case reply of
       CachedObject obj \<Rightarrow> emit_out (ResolvedObject client obj) s
     | PendingRequest i \<Rightarrow>
         (let r = oc_requests s ! i in
          if i \<ge> length (oc_requests s) then s
          else if cr_finished r then emit_out (ResolveFailed (Client client) resubscribe_error) s
          else set_request i (r\<lparr>cr_subscribers := cr_subscribers r @ [Client client]\<rparr>) s))"

definition object_id_of :: "jsv \<Rightarrow> string" where
  "object_id_of obj = (case get_prop obj ''objectId'' of JStr k \<Rightarrow> k | _ \<Rightarrow> [])"

definition subscriber_next :: "jsv \<Rightarrow> cache_subscriber \<Rightarrow> object_cache \<Rightarrow> object_cache" where
  "subscriber_next obj sub s =
    (case sub of
       TheCache \<Rightarrow>
         s\<lparr>oc_cache := jset (object_id_of obj) obj (oc_cache s), oc_pending := jdel (object_id_of obj) (oc_pending s)\<rparr>
     | Client n \<Rightarrow> emit_out (ResolvedObject n obj) s)"

text \<open>A subscriber that has got its object unsubscribes; the last one finishes the request.\<close>

definition remove_subscriber :: "nat \<Rightarrow> cache_subscriber \<Rightarrow> object_cache \<Rightarrow> object_cache" where
  "remove_subscriber i sub s =
    (let r = oc_requests s ! i; rest = remove1 sub (cr_subscribers r)
     in set_request i (r\<lparr>cr_subscribers := rest, cr_finished := rest = []\<rparr>) s)"

definition deliver_object :: "nat \<Rightarrow> jsv \<Rightarrow> cache_subscriber \<Rightarrow> object_cache \<Rightarrow> object_cache" where
  "deliver_object i obj sub s =
    (if accepts_object s obj then remove_subscriber i sub (subscriber_next obj sub s) else s)"

definition resolve_received :: "nat \<Rightarrow> resolve_data \<Rightarrow> object_cache \<Rightarrow> object_cache" where
  "resolve_received i d s =
    (let r = oc_requests s ! i in
     if i \<ge> length (oc_requests s) \<or> cr_finished r then s
     else case ensure_valid_resolve (cr_discover r) d of
       Inl e \<Rightarrow> s
     | Inr _ \<Rightarrow> fold (deliver_object i (rs_object d)) (rev (cr_subscribers r)) s)"

text \<open>Advertisements with the observed core type as filter.\<close>

definition cache_advertised :: "string \<Rightarrow> advertise_data \<Rightarrow> object_cache \<Rightarrow> object_cache" where
  "cache_advertised eventFilter d s =
    (let obj = ad_object d; k = object_id_of obj in
     if oc_observed s = Some eventFilter \<and> jhas (oc_cache s) k
     then s\<lparr>oc_cache := jset k obj (oc_cache s)\<rparr> else s)"

text \<open>The communication manager stops: it completes all subscribers; \<open>first\<close> fails if it has no object.\<close>

definition empty_error :: js_error where
  "empty_error = Error ''no elements in sequence''"

definition complete_cache_request :: "nat \<Rightarrow> object_cache \<Rightarrow> object_cache" where
  "complete_cache_request i s =
    (let r = oc_requests s ! i in
     fold (\<lambda>sub s'. remove_subscriber i sub (emit_out (ResolveFailed sub empty_error) s'))
       (rev (cr_subscribers r)) s)"

definition manager_stopped :: "object_cache \<Rightarrow> object_cache" where
  "manager_stopped s =
    fold complete_cache_request [0..<length (oc_requests s)] (s\<lparr>oc_observed := None\<rparr>)"

section \<open>Events\<close>

datatype cache_event =
    ManagerStarting
  | ManagerStopped
  | ResolveObject string bool
  | SubscribeReply cache_reply nat
  | ResolveReceived nat resolve_data
  | ObjectAdvertised string advertise_data
  | CoreTypeSet string
  | FilterSet "(jsv \<Rightarrow> bool) option"

definition cache_step :: "cache_event \<Rightarrow> object_cache \<Rightarrow> js_error + object_cache" where
  "cache_step ev s =
    (case ev of
       ManagerStarting \<Rightarrow> cache_starting s
     | ManagerStopped \<Rightarrow> Inr (manager_stopped s)
     | ResolveObject k again \<Rightarrow>
         rbind (resolve_object k again s) (\<lambda>(reply, s'). Inr (emit_out (Replied k reply) s'))
     | SubscribeReply reply n \<Rightarrow> Inr (subscribe_reply reply n s)
     | ResolveReceived i d \<Rightarrow> Inr (resolve_received i d s)
     | ObjectAdvertised f d \<Rightarrow> Inr (cache_advertised f d s)
     | CoreTypeSet t \<Rightarrow> Inr (set_core_type t s)
     | FilterSet f \<Rightarrow> Inr (set_object_filter f s))"

fun cache_run :: "cache_event list \<Rightarrow> object_cache \<Rightarrow> js_error + object_cache" where
  "cache_run [] s = Inr s"
| "cache_run (ev # evs) s = rbind (cache_step ev s) (cache_run evs)"

end
