(* ===== verification/ObjectCacheProps.thy ===== *)
theory ObjectCacheProps
  imports ObjectCache "HOL-Library.Multiset"
begin

text \<open>
  The object cache: an object is discovered at most once, is kept under its own id, and reaches the cache and
  every client that waits for it.
\<close>

section \<open>Delivering an object\<close>

definition delivered_to :: "jsv \<Rightarrow> cache_subscriber \<Rightarrow> cache_out list" where
  "delivered_to obj sub = (case sub of TheCache \<Rightarrow> [] | Client n \<Rightarrow> [ResolvedObject n obj])"

lemma remove_subscriber_fields [simp]:
  "oc_cache (remove_subscriber i sub s) = oc_cache s" "oc_pending (remove_subscriber i sub s) = oc_pending s"
  "oc_out (remove_subscriber i sub s) = oc_out s" "oc_core_type (remove_subscriber i sub s) = oc_core_type s"
  "oc_filter (remove_subscriber i sub s) = oc_filter s" "oc_observed (remove_subscriber i sub s) = oc_observed s"
  "length (oc_requests (remove_subscriber i sub s)) = length (oc_requests s)"
  by (simp_all add: remove_subscriber_def set_request_def Let_def)

lemma subscriber_next_fields [simp]:
  "oc_requests (subscriber_next obj sub s) = oc_requests s" "oc_core_type (subscriber_next obj sub s) = oc_core_type s"
  "oc_filter (subscriber_next obj sub s) = oc_filter s" "oc_observed (subscriber_next obj sub s) = oc_observed s"
  "oc_out (subscriber_next obj sub s) = oc_out s @ delivered_to obj sub"
  "oc_cache (subscriber_next obj TheCache s) = jset (object_id_of obj) obj (oc_cache s)"
  "oc_pending (subscriber_next obj TheCache s) = jdel (object_id_of obj) (oc_pending s)"
  "oc_cache (subscriber_next obj (Client n) s) = oc_cache s" "oc_pending (subscriber_next obj (Client n) s) = oc_pending s"
  by (simp_all add: subscriber_next_def emit_out_def delivered_to_def split: cache_subscriber.split)

lemma emit_out_fields [simp]:
  "oc_requests (emit_out x s) = oc_requests s" "oc_core_type (emit_out x s) = oc_core_type s"
  "oc_filter (emit_out x s) = oc_filter s" "oc_observed (emit_out x s) = oc_observed s"
  "oc_cache (emit_out x s) = oc_cache s" "oc_pending (emit_out x s) = oc_pending s"
  "oc_out (emit_out x s) = oc_out s @ [x]"
  by (simp_all add: emit_out_def)

lemma accepts_object_cong:
  "oc_core_type s' = oc_core_type s \<Longrightarrow> oc_filter s' = oc_filter s \<Longrightarrow> accepts_object s' obj = accepts_object s obj"
  by (simp add: accepts_object_def)

definition request_ok :: "cache_request \<Rightarrow> bool" where
  "request_ok r = ((cr_subscribers r = []) = cr_finished r)"

definition requests_ok :: "object_cache \<Rightarrow> bool" where
  "requests_ok s = list_all request_ok (oc_requests s)"

lemma requests_ok_set: "requests_ok s \<Longrightarrow> request_ok r \<Longrightarrow> requests_ok (set_request i r s)"
  unfolding requests_ok_def set_request_def list_all_iff
  using set_update_subset_insert [of "oc_requests s" i r] by auto

lemma requests_ok_remove: "requests_ok s \<Longrightarrow> requests_ok (remove_subscriber i sub s)"
  unfolding remove_subscriber_def Let_def by (rule requests_ok_set) (simp_all add: request_ok_def)

lemma request_remove:
  "i < length (oc_requests s) \<Longrightarrow> oc_requests (remove_subscriber i sub s) ! i =
    (oc_requests s ! i)\<lparr>cr_subscribers := remove1 sub (cr_subscribers (oc_requests s ! i)),
       cr_finished := remove1 sub (cr_subscribers (oc_requests s ! i)) = []\<rparr>"
  by (simp add: remove_subscriber_def set_request_def Let_def)

lemma deliver_object_accepted:
  "accepts_object s obj \<Longrightarrow> deliver_object i obj sub s = remove_subscriber i sub (subscriber_next obj sub s)"
  by (simp add: deliver_object_def)

lemma fold_deliver:
  assumes "accepts_object s obj" "i < length (oc_requests s)" "requests_ok s"
    "mset (cr_subscribers (oc_requests s ! i)) = mset subs"
  defines "s' \<equiv> fold (deliver_object i obj) subs s"
  shows "oc_out s' = oc_out s @ concat (map (delivered_to obj) subs) \<and> requests_ok s' \<and>
    length (oc_requests s') = length (oc_requests s) \<and> cr_subscribers (oc_requests s' ! i) = [] \<and>
    jget (oc_cache s') =
      (if TheCache \<in> set subs then (jget (oc_cache s))(object_id_of obj \<mapsto> obj) else jget (oc_cache s)) \<and>
    jget (oc_pending s') =
      (if TheCache \<in> set subs then (jget (oc_pending s))(object_id_of obj := None) else jget (oc_pending s))"
  using assms(1-4) unfolding s'_def
proof (induction subs arbitrary: s)
  case (Cons sub subs)
  let ?s = "remove_subscriber i sub (subscriber_next obj sub s)"
  have "accepts_object ?s obj" using Cons.prems(1) accepts_object_cong [of ?s s obj] by simp
  moreover have "requests_ok (subscriber_next obj sub s)" using Cons.prems(3) by (simp add: requests_ok_def)
  then have "requests_ok ?s" by (rule requests_ok_remove)
  moreover have "mset (cr_subscribers (oc_requests ?s ! i)) = mset subs"
    using Cons.prems(2,4) request_remove [of i "subscriber_next obj sub s" sub] by simp
  moreover have "i < length (oc_requests ?s)" using Cons.prems(2) by simp
  ultimately show ?case
    using Cons.IH [of ?s] deliver_object_accepted [OF Cons.prems(1), of i sub] by (cases sub) auto
qed simp

lemma resolve_received_accepted:
  assumes "requests_ok s" "i < length (oc_requests s)" "\<not> cr_finished (oc_requests s ! i)"
    "ensure_valid_resolve (cr_discover (oc_requests s ! i)) d = Inr ()" "accepts_object s (rs_object d)"
    "TheCache \<in> set (cr_subscribers (oc_requests s ! i))"
  defines "obj \<equiv> rs_object d"
  defines "s' \<equiv> resolve_received i d s"
  shows "oc_out s' = oc_out s @ concat (map (delivered_to obj) (rev (cr_subscribers (oc_requests s ! i))))"
    "requests_ok s'" "length (oc_requests s') = length (oc_requests s)" "cr_finished (oc_requests s' ! i)"
    "jget (oc_cache s') = (jget (oc_cache s))(object_id_of obj \<mapsto> obj)"
    "jget (oc_pending s') = (jget (oc_pending s))(object_id_of obj := None)"
proof -
  have eq: "s' = fold (deliver_object i obj) (rev (cr_subscribers (oc_requests s ! i))) s"
    using assms(2-4) by (simp add: s'_def resolve_received_def obj_def Let_def)
  have "mset (cr_subscribers (oc_requests s ! i)) = mset (rev (cr_subscribers (oc_requests s ! i)))" by simp
  note f = fold_deliver [OF assms(5,2,1) this, folded obj_def, folded eq]
  show "oc_out s' = oc_out s @ concat (map (delivered_to obj) (rev (cr_subscribers (oc_requests s ! i))))"
    "requests_ok s'" "length (oc_requests s') = length (oc_requests s)"
    "jget (oc_cache s') = (jget (oc_cache s))(object_id_of obj \<mapsto> obj)"
    "jget (oc_pending s') = (jget (oc_pending s))(object_id_of obj := None)"
    using f assms(6) by (simp_all only: set_rev if_True)
  then have "request_ok (oc_requests s' ! i)" using assms(2) by (simp add: requests_ok_def list_all_length)
  then show "cr_finished (oc_requests s' ! i)" using f by (simp add: request_ok_def)
qed

lemma fold_deliver_requests:
  "\<exists>r. oc_requests (fold (deliver_object i obj) subs s) = (oc_requests s)[i := r]"
proof (induction subs arbitrary: s)
  case Nil
  show ?case by (auto intro: exI [of _ "oc_requests s ! i"])
next
  case (Cons sub subs)
  have "\<exists>r. oc_requests (deliver_object i obj sub s) = (oc_requests s)[i := r]"
    by (auto simp: deliver_object_def remove_subscriber_def set_request_def Let_def intro: exI [of _ "oc_requests s ! i"])
  then obtain r where "oc_requests (deliver_object i obj sub s) = (oc_requests s)[i := r]" ..
  moreover obtain r' where "oc_requests (fold (deliver_object i obj) subs (deliver_object i obj sub s)) =
      (oc_requests (deliver_object i obj sub s))[i := r']"
    using Cons.IH by blast
  ultimately show ?case by auto
qed

lemma fold_deliver_rejected:
  "\<not> accepts_object s obj \<Longrightarrow> fold (deliver_object i obj) subs s = s"
  by (induction subs) (simp_all add: deliver_object_def)

section \<open>The invariant\<close>

text \<open>An unfinished request is subscribed to by the cache, which came first.\<close>

definition waits :: "cache_request \<Rightarrow> bool" where
  "waits r = (\<not> cr_finished r \<longrightarrow> TheCache \<in> set (cr_subscribers r))"

definition cache_inv :: "object_cache \<Rightarrow> bool" where
  "cache_inv s =
    (requests_ok s \<and> list_all waits (oc_requests s) \<and>
     (\<forall>k obj. jget (oc_cache s) k = Some obj \<longrightarrow> truthy obj \<and> object_id_of obj = k \<and> jget (oc_pending s) k = None) \<and>
     (\<forall>k i. jget (oc_pending s) k = Some i \<longrightarrow> i < length (oc_requests s)))"

lemma waits_update: "list_all waits rs \<Longrightarrow> waits r \<Longrightarrow> list_all waits (rs[i := r])"
  unfolding list_all_iff using set_update_subset_insert [of rs i r] by auto

lemma cache_inv_requests:
  assumes "cache_inv s" "oc_cache s' = oc_cache s" "oc_pending s' = oc_pending s" "requests_ok s'"
    "list_all waits (oc_requests s')" "length (oc_requests s') = length (oc_requests s)"
  shows "cache_inv s'"
  using assms by (simp add: cache_inv_def)

lemma cache_inv_cong:
  assumes "cache_inv s" "oc_cache s' = oc_cache s" "oc_pending s' = oc_pending s" "oc_requests s' = oc_requests s"
  shows "cache_inv s'"
  using assms by (simp add: cache_inv_def requests_ok_def)

lemma resolve_received_inv:
  assumes "cache_inv s"
  shows "cache_inv (resolve_received i d s) \<and>
    (\<forall>k. jget (oc_cache s) k \<noteq> None \<longrightarrow> jget (oc_cache (resolve_received i d s)) k \<noteq> None)"
proof (cases "i < length (oc_requests s) \<and> \<not> cr_finished (oc_requests s ! i) \<and>
    ensure_valid_resolve (cr_discover (oc_requests s ! i)) d = Inr ()")
  case True
  let ?r = "oc_requests s ! i" and ?s = "resolve_received i d s"
  have eq: "?s = fold (deliver_object i (rs_object d)) (rev (cr_subscribers ?r)) s"
    using True by (simp add: resolve_received_def Let_def)
  show ?thesis
  proof (cases "accepts_object s (rs_object d)")
    case False
    then show ?thesis using assms by (simp add: eq fold_deliver_rejected)
  next
    case acc: True
    have ok: "requests_ok s" and w: "list_all waits (oc_requests s)" using assms by (simp_all add: cache_inv_def)
    then have "TheCache \<in> set (cr_subscribers ?r)" using True by (simp add: waits_def list_all_length)
    note f = resolve_received_accepted [OF ok conjunct1 [OF True] conjunct1 [OF conjunct2 [OF True]]
        conjunct2 [OF conjunct2 [OF True]] acc this]
    obtain r where r: "oc_requests ?s = (oc_requests s)[i := r]"
      using fold_deliver_requests [of i "rs_object d" "rev (cr_subscribers ?r)" s] unfolding eq by blast
    then have "waits r" using f(4) True by (simp add: waits_def)
    then have w': "list_all waits (oc_requests ?s)" using w waits_update r by simp
    have "truthy (rs_object d)" using acc by (simp add: accepts_object_def)
    then show ?thesis using f(2,3,5,6) w' assms by (simp add: cache_inv_def)
  qed
next
  case False
  then have "resolve_received i d s = s" by (auto simp: resolve_received_def Let_def split: sum.split)
  then show ?thesis using assms by simp
qed

definition fail_subscriber :: "nat \<Rightarrow> cache_subscriber \<Rightarrow> object_cache \<Rightarrow> object_cache" where
  "fail_subscriber i sub s = remove_subscriber i sub (emit_out (ResolveFailed sub empty_error) s)"

lemma fold_fail:
  assumes "i < length (oc_requests s)" "requests_ok s" "mset (cr_subscribers (oc_requests s ! i)) = mset subs"
  defines "s' \<equiv> fold (fail_subscriber i) subs s"
  shows "oc_out s' = oc_out s @ map (\<lambda>sub. ResolveFailed sub empty_error) subs \<and> requests_ok s' \<and>
    (\<exists>r. oc_requests s' = (oc_requests s)[i := r] \<and> cr_subscribers r = []) \<and>
    oc_cache s' = oc_cache s \<and> oc_pending s' = oc_pending s"
  using assms(1-3) unfolding s'_def
proof (induction subs arbitrary: s)
  case Nil
  then show ?case by (auto intro!: exI [of _ "oc_requests s ! i"])
next
  case (Cons sub subs)
  let ?s = "fail_subscriber i sub s" and ?e = "emit_out (ResolveFailed sub empty_error) s"
  have "requests_ok ?e" using Cons.prems(2) by (simp add: requests_ok_def)
  then have "requests_ok ?s" unfolding fail_subscriber_def by (rule requests_ok_remove)
  moreover have "mset (cr_subscribers (oc_requests ?s ! i)) = mset subs"
    using Cons.prems(1,3) request_remove [of i ?e sub] by (simp add: fail_subscriber_def)
  moreover have "i < length (oc_requests ?s)" using Cons.prems(1) by (simp add: fail_subscriber_def)
  moreover obtain r where "oc_requests ?s = (oc_requests s)[i := r]"
    by (simp add: fail_subscriber_def remove_subscriber_def set_request_def Let_def)
  ultimately show ?case using Cons.IH [of ?s] by (auto simp: fail_subscriber_def)
qed

lemma complete_cache_request_inv:
  assumes "cache_inv s" "i < length (oc_requests s)"
  shows "cache_inv (complete_cache_request i s) \<and> length (oc_requests (complete_cache_request i s)) = length (oc_requests s) \<and>
    oc_cache (complete_cache_request i s) = oc_cache s \<and> oc_pending (complete_cache_request i s) = oc_pending s \<and>
    (\<exists>fs. oc_out (complete_cache_request i s) = oc_out s @ map (\<lambda>sub. ResolveFailed sub empty_error) fs)"
proof -
  let ?subs = "rev (cr_subscribers (oc_requests s ! i))"
  have ok: "requests_ok s" using assms(1) by (simp add: cache_inv_def)
  have eq: "complete_cache_request i s = fold (fail_subscriber i) ?subs s"
    by (simp add: complete_cache_request_def fail_subscriber_def [abs_def] Let_def)
  have f: "oc_out (complete_cache_request i s) = oc_out s @ map (\<lambda>sub. ResolveFailed sub empty_error) ?subs"
    "requests_ok (complete_cache_request i s)"
    "\<exists>r. oc_requests (complete_cache_request i s) = (oc_requests s)[i := r] \<and> cr_subscribers r = []"
    "oc_cache (complete_cache_request i s) = oc_cache s" "oc_pending (complete_cache_request i s) = oc_pending s"
    using fold_fail [OF assms(2) ok, of ?subs] unfolding eq by simp_all
  then obtain r where r: "oc_requests (complete_cache_request i s) = (oc_requests s)[i := r]" "cr_subscribers r = []" by blast
  then have "request_ok r" using f(2) assms(2) by (simp add: requests_ok_def list_all_length) (metis nth_list_update_eq)
  then have "waits r" using r(2) by (simp add: request_ok_def waits_def)
  then have "list_all waits (oc_requests (complete_cache_request i s))"
    using assms(1) r(1) waits_update by (simp add: cache_inv_def)
  then show ?thesis using f r(1) cache_inv_requests [OF assms(1) f(4,5,2)] by auto
qed

lemma manager_stopped_inv:
  assumes "cache_inv s"
  shows "cache_inv (manager_stopped s) \<and> oc_cache (manager_stopped s) = oc_cache s \<and>
    oc_pending (manager_stopped s) = oc_pending s \<and>
    (\<exists>fs. oc_out (manager_stopped s) = oc_out s @ map (\<lambda>sub. ResolveFailed sub empty_error) fs)"
proof -
  let ?s = "s\<lparr>oc_observed := None\<rparr>"
  have inv: "cache_inv ?s" by (rule cache_inv_cong [OF assms]) simp_all
  have "cache_inv (fold complete_cache_request js t) \<and> oc_cache (fold complete_cache_request js t) = oc_cache t \<and>
      oc_pending (fold complete_cache_request js t) = oc_pending t \<and>
      (\<exists>fs. oc_out (fold complete_cache_request js t) = oc_out t @ map (\<lambda>sub. ResolveFailed sub empty_error) fs)"
    if "cache_inv t" "\<forall>i \<in> set js. i < length (oc_requests t)" for js t
    using that
  proof (induction js arbitrary: t)
    case Nil
    then show ?case by (auto intro: exI [of _ "[]"])
  next
    case (Cons i js)
    have "i < length (oc_requests t)" using Cons.prems(2) by simp
    note c = complete_cache_request_inv [OF Cons.prems(1) this]
    then obtain fs where fs: "oc_out (complete_cache_request i t) = oc_out t @ map (\<lambda>sub. ResolveFailed sub empty_error) fs"
      by blast
    obtain gs where "oc_out (fold complete_cache_request js (complete_cache_request i t)) =
        oc_out (complete_cache_request i t) @ map (\<lambda>sub. ResolveFailed sub empty_error) gs"
      using Cons.IH [of "complete_cache_request i t"] c Cons.prems(2) by auto
    then have "oc_out (fold complete_cache_request js (complete_cache_request i t)) =
        oc_out t @ map (\<lambda>sub. ResolveFailed sub empty_error) (fs @ gs)"
      using fs by simp
    moreover have "\<forall>j \<in> set js. j < length (oc_requests (complete_cache_request i t))" using c Cons.prems(2) by simp
    note Cons.IH [OF conjunct1 [OF c] this]
    ultimately show ?case using c unfolding fold_simps(2) by metis
  qed
  from this [OF inv, of "[0..<length (oc_requests s)]"] show ?thesis by (simp add: manager_stopped_def)
qed

lemma cache_starting_inv:
  assumes "cache_starting s = Inr s'" "requests_ok s" "list_all waits (oc_requests s)"
  shows "cache_inv s'"
  using assms by (auto simp: cache_starting_def cache_inv_def requests_ok_def split: if_splits)

section \<open>Discovering\<close>

definition discovers_of :: "string \<Rightarrow> cache_out list \<Rightarrow> nat" where
  "discovers_of k os = length (filter (\<lambda>x. case x of PublishDiscover d \<Rightarrow> ds_object_id d = JStr k | _ \<Rightarrow> False) os)"

lemma discovers_of_append [simp]: "discovers_of k (os @ os') = discovers_of k os + discovers_of k os'"
  by (simp add: discovers_of_def)

lemma discovers_of_Nil [simp]: "discovers_of k [] = 0"
  by (simp add: discovers_of_def)

lemma discovers_of_one [simp]:
  "discovers_of k [PublishDiscover d] = (if ds_object_id d = JStr k then 1 else 0)"
  "discovers_of k [Replied k' reply] = 0" "discovers_of k [ResolvedObject n obj] = 0"
  "discovers_of k [ResolveFailed sub e] = 0" "discovers_of k (map (\<lambda>sub. ResolveFailed sub e) fs) = 0"
  "discovers_of k (concat (map (delivered_to obj) subs)) = 0"
  by (simp_all add: discovers_of_def filter_map comp_def)
    (induction subs; simp add: delivered_to_def filter_concat split: cache_subscriber.split)

text \<open>The ids that are cached or requested.\<close>

definition tracked :: "string \<Rightarrow> object_cache \<Rightarrow> bool" where
  "tracked k s = (jget (oc_cache s) k \<noteq> None \<or> jget (oc_pending s) k \<noteq> None)"

definition allowance :: "string \<Rightarrow> object_cache \<Rightarrow> nat" where
  "allowance k s = discovers_of k (oc_out s) + (if tracked k s then 0 else 1)"

definition valid_cache_event :: "cache_event \<Rightarrow> bool" where
  "valid_cache_event ev = (case ev of ObjectAdvertised f d \<Rightarrow> is_object (ad_object d) None | _ \<Rightarrow> True)"

text \<open>No restart of the manager, and no explicit rediscovery.\<close>

definition steady_event :: "cache_event \<Rightarrow> bool" where
  "steady_event ev =
    (case ev of
       ManagerStarting \<Rightarrow> False
     | ResolveObject k again \<Rightarrow> \<not> again
     | _ \<Rightarrow> True)"

definition cached_stay :: "object_cache \<Rightarrow> object_cache \<Rightarrow> bool" where
  "cached_stay s s' = (\<forall>k. jget (oc_cache s) k \<noteq> None \<longrightarrow> jget (oc_cache s') k \<noteq> None)"

lemma is_object_truthy: "is_object obj None \<Longrightarrow> truthy obj"
  by (auto simp: is_object_def is_plain_object_iff split: if_splits)

lemma discover_object_id_eq:
  "discover_object_id k = Inr \<lparr>ds_external_id = JUndef, ds_object_id = JStr k, ds_object_types = JUndef,
    ds_core_types = JUndef\<rparr>"
  by (simp add: discover_object_id_def new_discover_data_def is_valid_discover_data_def Let_def)

lemma discover_object_step:
  assumes "cache_inv s" "jget (oc_cache s) k = None" "discover_object k s = Inr (i, s')"
  shows "cache_inv s' \<and> oc_cache s' = oc_cache s \<and> oc_pending s' = jset k i (oc_pending s) \<and>
    discovers_of q (oc_out s') = discovers_of q (oc_out s) + (if q = k then 1 else 0)"
proof -
  have "\<forall>r \<in> set (oc_requests s'). request_ok r \<and> waits r"
    using assms by (auto simp: discover_object_def discover_object_id_eq Let_def cache_inv_def requests_ok_def
        list_all_iff request_ok_def waits_def)
  then show ?thesis
    using assms by (auto simp: discover_object_def discover_object_id_eq Let_def cache_inv_def requests_ok_def list_all_iff
        less_Suc_eq split: if_splits)
qed

lemma resolve_object_step:
  assumes "cache_inv s" "resolve_object k again s = Inr (reply, s')"
  shows "cache_inv s' \<and> oc_cache s' = oc_cache s \<and> (\<not> again \<longrightarrow> allowance q s' \<le> allowance q s)"
proof (cases "jget (oc_cache s) k")
  case (Some obj)
  then have "truthy obj" using assms(1) by (simp add: cache_inv_def)
  then show ?thesis using assms Some by (simp add: resolve_object_def cached_object_def)
next
  case None
  obtain i s1 where d: "discover_object k s = Inr (i, s1)"
    by (auto simp: discover_object_def discover_object_id_eq Let_def)
  note st = discover_object_step [OF assms(1) None d]
  show ?thesis
  proof (cases "jget (oc_pending s) k \<noteq> None \<and> \<not> again")
    case True
    then show ?thesis using assms None by (auto simp: resolve_object_def cached_object_def)
  next
    case False
    then have "s' = s1"
      using assms(2) None d by (cases "jget (oc_pending s) k") (simp_all add: resolve_object_def cached_object_def)
    moreover have "allowance q s1 \<le> allowance q s" if "\<not> again"
      using False that st None by (auto simp: allowance_def tracked_def)
    ultimately show ?thesis using st by blast
  qed
qed

lemma subscribe_reply_inv: "cache_inv s \<Longrightarrow> cache_inv (subscribe_reply reply n s)"
proof (cases reply)
  case (PendingRequest i)
  let ?r = "oc_requests s ! i"
  let ?r' = "?r\<lparr>cr_subscribers := cr_subscribers ?r @ [Client n]\<rparr>"
  assume inv: "cache_inv s"
  show ?thesis
  proof (cases "i < length (oc_requests s) \<and> \<not> cr_finished ?r")
    case True
    then have r: "waits ?r'" "request_ok ?r'"
      using inv by (auto simp: cache_inv_def requests_ok_def list_all_length waits_def request_ok_def)
    have "requests_ok (set_request i ?r' s)" using inv r(2) by (simp add: requests_ok_set cache_inv_def)
    moreover have "list_all waits (oc_requests (set_request i ?r' s))"
      using inv r(1) waits_update by (simp add: cache_inv_def set_request_def)
    ultimately have "cache_inv (set_request i ?r' s)"
      by (intro cache_inv_requests [OF inv]) (simp_all add: set_request_def)
    then show ?thesis using True PendingRequest by (simp add: subscribe_reply_def Let_def)
  next
    case False
    then show ?thesis
      using inv PendingRequest cache_inv_cong [OF inv, of "emit_out x s" for x]
      by (auto simp: subscribe_reply_def Let_def)
  qed
qed (simp add: subscribe_reply_def cache_inv_cong [of s "emit_out x s" for x])

lemma subscribe_reply_out:
  "oc_cache (subscribe_reply reply n s) = oc_cache s \<and> oc_pending (subscribe_reply reply n s) = oc_pending s \<and>
    discovers_of q (oc_out (subscribe_reply reply n s)) = discovers_of q (oc_out s)"
  by (cases reply) (simp_all add: subscribe_reply_def set_request_def Let_def)

lemma fold_deliver_discovers:
  "discovers_of q (oc_out (fold (deliver_object i obj) subs s)) = discovers_of q (oc_out s)"
proof (induction subs arbitrary: s)
  case (Cons sub subs)
  have "discovers_of q (oc_out (deliver_object i obj sub s)) = discovers_of q (oc_out s)"
    using discovers_of_one(6) [of q obj "[sub]"] by (simp add: deliver_object_def)
  then show ?case using Cons.IH [of "deliver_object i obj sub s"] by simp
qed simp

lemma deliver_tracked: "tracked q s \<Longrightarrow> tracked q (fold (deliver_object i obj) subs s)"
proof (induction subs arbitrary: s)
  case (Cons sub subs)
  have "tracked q (deliver_object i obj sub s)"
    using Cons.prems by (cases sub) (auto simp: deliver_object_def tracked_def)
  then show ?case using Cons.IH by simp
qed simp

lemma resolve_received_allowance: "allowance q (resolve_received i d s) \<le> allowance q s"
proof -
  have "resolve_received i d s = s \<or> resolve_received i d s =
      fold (deliver_object i (rs_object d)) (rev (cr_subscribers (oc_requests s ! i))) s"
    by (cases "ensure_valid_resolve (cr_discover (oc_requests s ! i)) d") (auto simp: resolve_received_def Let_def)
  then show ?thesis
    by (auto simp: allowance_def fold_deliver_discovers dest: deliver_tracked)
qed

lemma cache_advertised_step:
  assumes "cache_inv s" "is_object (ad_object d) None"
  shows "cache_inv (cache_advertised f d s) \<and> cached_stay s (cache_advertised f d s) \<and>
    allowance q (cache_advertised f d s) \<le> allowance q s"
  using assms is_object_truthy [OF assms(2)]
  by (auto simp: cache_advertised_def Let_def cached_stay_def allowance_def tracked_def cache_inv_def jhas_def
      requests_ok_def)

lemma cache_step_ok:
  assumes "cache_inv s" "valid_cache_event ev" "cache_step ev s = Inr s'"
  shows "cache_inv s' \<and> (steady_event ev \<longrightarrow> cached_stay s s' \<and> allowance q s' \<le> allowance q s)"
proof (cases ev)
  case ManagerStarting
  then show ?thesis
    using assms(1,3) cache_starting_inv [of s s'] by (simp add: cache_step_def steady_event_def cache_inv_def)
next
  case ManagerStopped
  then show ?thesis
    using assms manager_stopped_inv [OF assms(1)]
    by (auto simp: cache_step_def cached_stay_def allowance_def tracked_def)
next
  case (ResolveObject k again)
  then obtain reply s1 where r: "resolve_object k again s = Inr (reply, s1)" "s' = emit_out (Replied k reply) s1"
    using assms(3) ResolveObject by (cases "resolve_object k again s") (auto simp: cache_step_def)
  note st = resolve_object_step [OF assms(1) r(1), of q]
  then have "cache_inv s'" using r(2) cache_inv_cong [of s1 s'] by simp
  then show ?thesis
    using st r(2) ResolveObject by (auto simp: steady_event_def cached_stay_def allowance_def tracked_def)
next
  case (SubscribeReply reply n)
  then show ?thesis
    using assms subscribe_reply_inv [OF assms(1), of reply n] subscribe_reply_out [of reply n s q]
    by (auto simp: cache_step_def cached_stay_def allowance_def tracked_def)
next
  case (ResolveReceived i d)
  then show ?thesis
    using assms resolve_received_inv [OF assms(1), of i d] resolve_received_allowance [of q i d s]
    by (auto simp: cache_step_def cached_stay_def)
next
  case (ObjectAdvertised f d)
  then show ?thesis
    using assms cache_advertised_step [OF assms(1), of d f q] by (auto simp: cache_step_def valid_cache_event_def)
next
  case (CoreTypeSet t)
  then show ?thesis
    using assms cache_inv_cong [OF assms(1), of "set_core_type t s"]
    by (auto simp: cache_step_def set_core_type_def cached_stay_def allowance_def tracked_def)
next
  case (FilterSet f)
  then show ?thesis
    using assms cache_inv_cong [OF assms(1), of "set_object_filter f s"]
    by (auto simp: cache_step_def set_object_filter_def cached_stay_def allowance_def tracked_def)
qed

lemma cache_run_inv:
  "cache_inv s \<Longrightarrow> list_all valid_cache_event evs \<Longrightarrow> cache_run evs s = Inr s' \<Longrightarrow> cache_inv s'"
proof (induction evs arbitrary: s)
  case (Cons ev evs)
  then obtain s1 where s1: "cache_step ev s = Inr s1" "cache_run evs s1 = Inr s'"
    by (cases "cache_step ev s") auto
  then show ?case using Cons.IH [of s1] Cons.prems cache_step_ok [of s ev s1] by simp
qed simp

lemma cache_run_steady:
  "cache_inv s \<Longrightarrow> list_all valid_cache_event evs \<Longrightarrow> list_all steady_event evs \<Longrightarrow> cache_run evs s = Inr s' \<Longrightarrow>
    cached_stay s s' \<and> allowance q s' \<le> allowance q s"
proof (induction evs arbitrary: s)
  case Nil
  then show ?case by (simp add: cached_stay_def)
next
  case (Cons ev evs)
  then obtain s1 where s1: "cache_step ev s = Inr s1" "cache_run evs s1 = Inr s'"
    by (cases "cache_step ev s") auto
  have ev: "valid_cache_event ev" "list_all valid_cache_event evs" "steady_event ev" "list_all steady_event evs"
    using Cons.prems(2,3) by simp_all
  note a = cache_step_ok [OF Cons.prems(1) ev(1) s1(1), of q]
  have b: "cached_stay s1 s' \<and> allowance q s' \<le> allowance q s1"
    using Cons.IH [of s1] a ev s1(2) by blast
  have "cached_stay s s'" using a b ev(3) unfolding cached_stay_def by blast
  then show ?case using a b ev(3) by simp
qed

lemma new_object_cache_inv: "cache_inv new_object_cache"
  by (simp add: new_object_cache_def cache_inv_def requests_ok_def)

lemma cached_object_inv: "cache_inv s \<Longrightarrow> cached_object k s = jget (oc_cache s) k"
  by (auto simp: cached_object_def cache_inv_def split: option.split)

section \<open>Properties\<close>

text \<open>C15: the contract of an object cache: after any run of the controller, as long as the manager is not
  restarted and no client asks for a rediscovery, an object that is neither cached nor requested is
  discovered at most once and any other is not discovered again, a cached object stays cached, under
  its own id; and when an acceptable response to a pending request arrives, every client waiting for it gets
  the object, last subscribed first, the object is cached, and the request is finished.\<close>

theorem object_discovered_once:
  assumes "cache_run evs0 new_object_cache = Inr s0" "list_all valid_cache_event evs0"
    "cache_run evs s0 = Inr s" "list_all valid_cache_event evs" "list_all steady_event evs"
  shows "discovers_of k (oc_out s) \<le> discovers_of k (oc_out s0) +
      (if cached_object k s0 \<noteq> None \<or> jget (oc_pending s0) k \<noteq> None then 0 else 1) \<and>
    (cached_object k s0 \<noteq> None \<longrightarrow> cached_object k s \<noteq> None) \<and>
    (\<forall>obj. cached_object k s = Some obj \<longrightarrow> object_id_of obj = k) \<and>
    (\<forall>i d. i < length (oc_requests s) \<and> \<not> cr_finished (oc_requests s ! i) \<and>
       ensure_valid_resolve (cr_discover (oc_requests s ! i)) d = Inr () \<and> accepts_object s (rs_object d) \<longrightarrow>
       oc_out (resolve_received i d s) = oc_out s @
         concat (map (delivered_to (rs_object d)) (rev (cr_subscribers (oc_requests s ! i)))) \<and>
       cached_object (object_id_of (rs_object d)) (resolve_received i d s) = Some (rs_object d) \<and>
       cr_finished (oc_requests (resolve_received i d s) ! i))"
proof (intro conjI allI impI)
  have inv0: "cache_inv s0" by (rule cache_run_inv [OF new_object_cache_inv assms(2,1)])
  have inv: "cache_inv s" by (rule cache_run_inv [OF inv0 assms(4,3)])
  note st = cache_run_steady [OF inv0 assms(4,5,3), of k]
  then show "discovers_of k (oc_out s) \<le> discovers_of k (oc_out s0) +
      (if cached_object k s0 \<noteq> None \<or> jget (oc_pending s0) k \<noteq> None then 0 else 1)"
    by (simp add: allowance_def tracked_def cached_object_inv [OF inv0])
  show "cached_object k s0 \<noteq> None \<Longrightarrow> cached_object k s \<noteq> None"
    using st by (simp add: cached_stay_def cached_object_inv inv0 inv)
  show "cached_object k s = Some obj \<Longrightarrow> object_id_of obj = k" for obj
    using inv by (simp add: cached_object_inv cache_inv_def)
  fix i d
  assume a: "i < length (oc_requests s) \<and> \<not> cr_finished (oc_requests s ! i) \<and>
       ensure_valid_resolve (cr_discover (oc_requests s ! i)) d = Inr () \<and> accepts_object s (rs_object d)"
  then have c: "TheCache \<in> set (cr_subscribers (oc_requests s ! i))" "requests_ok s"
    using inv by (simp_all add: cache_inv_def waits_def list_all_length)
  note f = resolve_received_accepted [OF c(2) _ _ _ _ c(1), of d]
  show "oc_out (resolve_received i d s) = oc_out s @
         concat (map (delivered_to (rs_object d)) (rev (cr_subscribers (oc_requests s ! i))))"
    "cr_finished (oc_requests (resolve_received i d s) ! i)"
    using f a by blast+
  have "cache_inv (resolve_received i d s)" using resolve_received_inv [OF inv] by simp
  then show "cached_object (object_id_of (rs_object d)) (resolve_received i d s) = Some (rs_object d)"
    using f(5) a by (simp add: cached_object_inv)
qed

section \<open>A concrete cache\<close>

definition cached_task :: "string \<Rightarrow> jsv" where
  "cached_task nm = jobj [(''objectId'', JStr ''o''), (''coreType'', JStr ''Task''), (''name'', JStr nm)]"

definition task_found :: resolve_data where
  "task_found = \<lparr>rs_object = cached_task ''a'', rs_related = JUndef, rs_private = JUndef\<rparr>"

definition named_a :: "jsv \<Rightarrow> bool" where
  "named_a obj = strict_eq (get_prop obj ''name'') (JStr ''a'')"

definition cache_start :: "cache_event list" where
  "cache_start = [CoreTypeSet ''Task'', FilterSet (Some named_a), ManagerStarting]"

definition first_client :: "cache_event list" where
  "first_client = [ResolveObject ''o'' False, SubscribeReply (PendingRequest 0) 1, ResolveObject ''o'' False]"

definition started_cache :: object_cache where
  "started_cache = new_object_cache\<lparr>oc_core_type := ''Task'', oc_filter := Some named_a, oc_observed := Some ''Task''\<rparr>"

lemma cached_task_props [simp]:
  "get_prop (cached_task nm) ''objectId'' = JStr ''o''" "get_prop (cached_task nm) ''coreType'' = JStr ''Task''"
  "get_prop (cached_task nm) ''name'' = JStr nm" "truthy (cached_task nm)"
  by (simp_all add: cached_task_def)

lemma started_cache: "cache_run cache_start new_object_cache = Inr started_cache"
  by (simp add: cache_start_def started_cache_def cache_step_def set_core_type_def set_object_filter_def
      cache_starting_def new_object_cache_def is_core_type_iff core_type_names_def)

definition discover_o :: discover_data where
  "discover_o = \<lparr>ds_external_id = JUndef, ds_object_id = JStr ''o'', ds_object_types = JUndef, ds_core_types = JUndef\<rparr>"

definition waiting_cache :: object_cache where
  "waiting_cache = started_cache\<lparr>oc_pending := [(''o'', 0)],
     oc_requests := [\<lparr>cr_discover = discover_o, cr_subscribers = [TheCache, Client 1], cr_finished = False\<rparr>],
     oc_out := [PublishDiscover discover_o, Replied ''o'' (PendingRequest 0), Replied ''o'' (PendingRequest 0)]\<rparr>"

lemma waiting_cache: "cache_run first_client started_cache = Inr waiting_cache"
  by (simp add: first_client_def started_cache_def waiting_cache_def new_object_cache_def cache_step_def
      resolve_object_def cached_object_def discover_object_def discover_object_id_eq discover_o_def emit_out_def
      subscribe_reply_def set_request_def Let_def)

theorem object_discovered_once_witness:
  "discovers_of ''o'' (oc_out waiting_cache) = 1 \<and>
    oc_out (resolve_received 0 task_found waiting_cache) = oc_out waiting_cache @ [ResolvedObject 1 (cached_task ''a'')] \<and>
    cached_object ''o'' (resolve_received 0 task_found waiting_cache) = Some (cached_task ''a'')"
proof -
  have v: "list_all valid_cache_event cache_start" "list_all valid_cache_event first_client"
    "list_all steady_event first_client"
    by (simp_all add: cache_start_def first_client_def valid_cache_event_def steady_event_def)
  have ok: "ensure_valid_resolve (cr_discover (oc_requests waiting_cache ! 0)) task_found = Inr ()"
    "accepts_object waiting_cache (rs_object task_found)" "\<not> cr_finished (oc_requests waiting_cache ! 0)"
    "0 < length (oc_requests waiting_cache)"
    by (simp_all add: waiting_cache_def discover_o_def task_found_def ensure_valid_resolve_def Let_def accepts_object_def
        started_cache_def named_a_def)
  note p = object_discovered_once [OF started_cache v(1) waiting_cache v(2,3), of "''o''"]
  have "discovers_of ''o'' (oc_out waiting_cache) \<le> 1"
    using p by (simp add: started_cache_def new_object_cache_def cached_object_def)
  moreover have "discovers_of ''o'' (oc_out waiting_cache) \<ge> 1"
    by (simp add: waiting_cache_def discovers_of_def discover_o_def)
  moreover have "rs_object task_found = cached_task ''a''" by (simp add: task_found_def)
  moreover have "rev (cr_subscribers (oc_requests waiting_cache ! 0)) = [Client 1, TheCache]"
    by (simp add: waiting_cache_def)
  moreover have "object_id_of (cached_task ''a'') = ''o''" by (simp add: object_id_of_def)
  moreover have "oc_out (resolve_received 0 task_found waiting_cache) = oc_out waiting_cache @
      concat (map (delivered_to (rs_object task_found)) (rev (cr_subscribers (oc_requests waiting_cache ! 0)))) \<and>
    cached_object (object_id_of (rs_object task_found)) (resolve_received 0 task_found waiting_cache) =
      Some (rs_object task_found)"
    using p ok by blast
  ultimately show ?thesis by (simp only: delivered_to_def list.map concat.simps cache_subscriber.simps append_Nil append_Nil2)
    simp
qed

text \<open>A client that subscribes to the returned observable after the object has arrived gets an error,
  although the object is cached.\<close>

lemma late_client_fails:
  "cached_object ''o'' (resolve_received 0 task_found waiting_cache) = Some (cached_task ''a'') \<and>
    oc_out (subscribe_reply (PendingRequest 0) 2 (resolve_received 0 task_found waiting_cache)) =
      oc_out (resolve_received 0 task_found waiting_cache) @ [ResolveFailed (Client 2) resubscribe_error]"
  by (simp add: resolve_received_def waiting_cache_def discover_o_def task_found_def ensure_valid_resolve_def Let_def
      deliver_object_def accepts_object_def started_cache_def named_a_def remove_subscriber_def set_request_def
      subscriber_next_def emit_out_def cached_object_def object_id_of_def subscribe_reply_def new_object_cache_def)

text \<open>An advertised object replaces the cached one without a look at the filter.\<close>

lemma advertised_update_unfiltered:
  assumes "oc_observed s = Some ''Task''" "jhas (oc_cache s) ''o''" "oc_filter s = Some named_a"
  shows "\<not> accepts_object s (cached_task ''b'') \<and>
    cached_object ''o'' (cache_advertised ''Task'' \<lparr>ad_object = cached_task ''b'', ad_private = JUndef\<rparr> s) =
      Some (cached_task ''b'')"
  using assms by (simp add: accepts_object_def named_a_def cache_advertised_def object_id_of_def Let_def cached_object_def)

text \<open>Stopping with a pending request fails the cache's own subscription, which has no error handler.\<close>

lemma stopped_cache_fails:
  "oc_out (manager_stopped waiting_cache) =
    oc_out waiting_cache @ [ResolveFailed (Client 1) empty_error, ResolveFailed TheCache empty_error]"
  by (simp add: manager_stopped_def complete_cache_request_def waiting_cache_def remove_subscriber_def set_request_def
      emit_out_def Let_def)

end
