(* ===== verification/Configuration.thy ===== *)
theory Configuration
  imports Container Deep
begin

text \<open>
  The merging of configurations, \<open>mergeConfigurations\<close> of \<open>src/src/runtime/configuration.ts\<close>, and its contract.
\<close>

section \<open>Merging\<close>

definition shallow_copy :: "jsv \<Rightarrow> jsv" where
  "shallow_copy config = object_assign (jobj []) config"

definition copy_primary :: "(string \<times> jsv) list \<Rightarrow> jsv" where
  "copy_primary props = fold (\<lambda>(prop1, config) r. set_prop prop1 (shallow_copy config) r) props (jobj [])"

definition merge_sub :: "jsv \<Rightarrow> jsv \<Rightarrow> js_error + jsv" where
  "merge_sub primaryConfig config =
    rbind (own_props_r config) (\<lambda>props.
      Inr (fold (\<lambda>(p, v) pc. if get_prop pc p = JUndef then set_prop p v pc else pc) props primaryConfig))"

fun merge_secondary :: "(string \<times> jsv) list \<Rightarrow> jsv \<Rightarrow> js_error + jsv" where
  "merge_secondary [] r = Inr r"
| "merge_secondary ((prop1, config) # props) r =
    (let primaryConfig = get_prop r prop1 in
     if primaryConfig = JUndef then merge_secondary props (set_prop prop1 (shallow_copy config) r)
     else rbind (merge_sub primaryConfig config) (\<lambda>merged. merge_secondary props (set_prop prop1 merged r)))"

definition missing_communication :: js_error where
  "missing_communication = Error ''Missing 'communication' configuration options in merged configuration.''"

definition merge_configurations :: "jsv \<Rightarrow> jsv \<Rightarrow> js_error + jsv" where
  "merge_configurations primary secondary =
    rbind (own_props_r primary) (\<lambda>ps.
      rbind (own_props_r secondary) (\<lambda>ss.
        rbind (merge_secondary ss (copy_primary ps)) (\<lambda>r.
          if get_prop r ''communication'' = JUndef then Inl missing_communication else Inr r)))"

section \<open>The contract\<close>

text \<open>A configuration object or a sub-configuration object.\<close>

definition plain_props :: "jsv \<Rightarrow> bool" where
  "plain_props v = (case v of JObj ObjectProto ps \<Rightarrow> distinct (map fst ps) | _ \<Rightarrow> False)"

definition partial_configuration :: "jsv \<Rightarrow> bool" where
  "partial_configuration c =
    (plain_props c \<and> list_all (\<lambda>(k, v). proto_prop k = JUndef \<and> plain_props v) (own_props c))"

definition sub_value :: "jsv \<Rightarrow> string \<Rightarrow> string \<Rightarrow> jsv" where
  "sub_value c prop1 p = (if get_prop c prop1 = JUndef then JUndef else get_prop (get_prop c prop1) p)"

definition or_else :: "jsv \<Rightarrow> jsv \<Rightarrow> jsv" where
  "or_else v w = (if v = JUndef then w else v)"

lemma plain_props_obj: "plain_props v \<Longrightarrow> \<exists>ps. v = JObj ObjectProto ps \<and> distinct (map fst ps)"
  by (auto simp: plain_props_def split: jsv.splits jsproto.splits)

lemma own_props_r_obj [simp]: "own_props_r (JObj p ps) = Inr ps"
  by (simp add: own_props_r_def)

lemma fold_set_prop: "fold (\<lambda>(k, v). set_prop k v) kvs (JObj p ps) = JObj p (fold (\<lambda>(k, v). jset k v) kvs ps)"
  by (induction kvs arbitrary: ps) auto

lemma map_of_rev_keys: "distinct (map fst ps) \<Longrightarrow> map_of (rev ps) = map_of ps"
  by (subst map_of_inject_set) (simp_all add: rev_map [symmetric])

lemma shallow_copy_props:
  assumes "distinct (map fst ps)"
  shows "\<exists>qs. shallow_copy (JObj ObjectProto ps) = JObj ObjectProto qs \<and> jwf qs \<and> map_of qs = map_of ps"
proof -
  have "jwf (fold (\<lambda>(k, v). jset k v) kvs m)" if "jwf m" for kvs :: "(string \<times> jsv) list" and m
    using that by (induction kvs arbitrary: m) auto
  moreover have "map_of (rev ps) = map_of ps" using assms by (rule map_of_rev_keys)
  ultimately show ?thesis
    using jset_all_lookup [of "[]" ps]
    by (simp add: shallow_copy_def object_assign_def fold_set_prop [unfolded split_def] split_def)
qed

lemma get_prop_plain: "proto_prop k = JUndef \<Longrightarrow> get_prop (JObj ObjectProto ps) k = (case map_of ps k of Some v \<Rightarrow> v | None \<Rightarrow> JUndef)"
  by (simp split: option.split)

lemma merge_sub_spec:
  assumes "plain_props pc" "plain_props config"
  shows "\<exists>merged. merge_sub pc config = Inr merged \<and> plain_props merged \<and>
    (\<forall>p. proto_prop p = JUndef \<longrightarrow> get_prop merged p = or_else (get_prop pc p) (get_prop config p))"
proof -
  obtain qs where qs: "config = jobj qs" "distinct (map fst qs)" using plain_props_obj [OF assms(2)] by blast
  have "plain_props (fold (\<lambda>(p, v) pc. if get_prop pc p = JUndef then set_prop p v pc else pc) qs pc) \<and>
      (\<forall>p. proto_prop p = JUndef \<longrightarrow>
        get_prop (fold (\<lambda>(p, v) pc. if get_prop pc p = JUndef then set_prop p v pc else pc) qs pc) p =
          or_else (get_prop pc p) (get_prop (jobj qs) p))"
    using assms(1) qs(2)
  proof (induction qs arbitrary: pc)
    case Nil
    then show ?case by (auto simp: or_else_def)
  next
    case (Cons q qs)
    obtain k v where q: "q = (k, v)" by (cases q)
    obtain ps where ps: "pc = jobj ps" "distinct (map fst ps)" using plain_props_obj [OF Cons.prems(1)] by blast
    define pc' where "pc' = (if get_prop pc k = JUndef then set_prop k v pc else pc)"
    have pc': "plain_props pc'" using ps by (simp add: pc'_def plain_props_def)
    have "get_prop (jobj (q # qs)) p = (if p = k then v else get_prop (jobj qs) p)" for p by (simp add: q)
    moreover have "get_prop (jobj qs) k = JUndef" if "proto_prop k = JUndef"
      using Cons.prems(2) that by (simp add: q map_of_eq_None_iff [symmetric] split: option.split)
    moreover have "get_prop pc' p = (if p = k \<and> get_prop pc k = JUndef then v else get_prop pc p)" for p
      using ps by (simp add: pc'_def)
    ultimately show ?case
      using Cons.IH [OF pc'] Cons.prems(2) by (auto simp: q pc'_def [symmetric] or_else_def)
  qed
  then show ?thesis by (simp add: merge_sub_def qs(1))
qed

lemma merge_secondary_spec:
  assumes "plain_props r" "list_all (\<lambda>(k, v). plain_props v) (own_props r)" "distinct (map fst ss)"
    "list_all (\<lambda>(k, v). proto_prop k = JUndef \<and> plain_props v) ss"
  shows "\<exists>r'. merge_secondary ss r = Inr r' \<and>
    (\<forall>prop1 p. proto_prop prop1 = JUndef \<longrightarrow> proto_prop p = JUndef \<longrightarrow>
      sub_value r' prop1 p = or_else (sub_value r prop1 p) (sub_value (jobj ss) prop1 p) \<and>
      (get_prop r' prop1 = JUndef) = (get_prop r prop1 = JUndef \<and> get_prop (jobj ss) prop1 = JUndef))"
  using assms
proof (induction ss arbitrary: r)
  case Nil
  then show ?case by (auto simp: or_else_def sub_value_def)
next
  case (Cons e ss)
  obtain k config where e: "e = (k, config)" by (cases e)
  obtain rs where rs: "r = jobj rs" "distinct (map fst rs)" using plain_props_obj [OF Cons.prems(1)] by blast
  obtain qs where qs: "config = jobj qs" "distinct (map fst qs)"
    using Cons.prems(4) plain_props_obj [of config] by (auto simp: e)
  have k: "proto_prop k = JUndef" "get_prop (jobj ss) k = JUndef"
    using Cons.prems(3,4) by (auto simp: e map_of_eq_None_iff [THEN iffD2])
  define new where "new = (if get_prop r k = JUndef then Inr (shallow_copy config) else merge_sub (get_prop r k) config)"
  have "\<exists>v. new = Inr v \<and> plain_props v \<and> (\<forall>p. proto_prop p = JUndef \<longrightarrow>
      get_prop v p = or_else (sub_value r k p) (get_prop config p))"
  proof (cases "get_prop r k = JUndef")
    case True
    obtain cs where "shallow_copy config = jobj cs" "jwf cs" "map_of cs = map_of qs"
      using shallow_copy_props [OF qs(2)] qs(1) by blast
    then show ?thesis using True qs by (simp add: new_def plain_props_def or_else_def sub_value_def)
  next
    case False
    then obtain w where w: "map_of rs k = Some w"
      using rs(1) k(1) by (cases "map_of rs k") simp_all
    then have "(k, w) \<in> set rs" by (rule map_of_SomeD)
    then have "plain_props w" using Cons.prems(2) rs(1) by (auto simp: list_all_iff)
    then have "plain_props (get_prop r k)" using w rs(1) by simp
    moreover have "plain_props config" using Cons.prems(4) by (simp add: e)
    ultimately show ?thesis
      using merge_sub_spec [of "get_prop r k" config] False by (simp add: new_def sub_value_def)
  qed
  then obtain v where v: "new = Inr v" "plain_props v"
    "\<forall>p. proto_prop p = JUndef \<longrightarrow> get_prop v p = or_else (sub_value r k p) (get_prop config p)" by blast
  let ?r = "set_prop k v r"
  have step: "merge_secondary (e # ss) r = merge_secondary ss ?r"
    using v(1) by (simp add: e new_def Let_def split: if_splits)
  have "plain_props ?r" using rs by (simp add: plain_props_def)
  moreover have "list_all (\<lambda>(k, v). plain_props v) (own_props ?r)"
    using Cons.prems(2) rs v(2) by (auto simp: list_all_iff set_jset)
  moreover have "distinct (map fst ss)" "list_all (\<lambda>(k, v). proto_prop k = JUndef \<and> plain_props v) ss"
    using Cons.prems(3,4) by simp_all
  ultimately obtain r' where r': "merge_secondary ss ?r = Inr r'"
    "\<forall>prop1 p. proto_prop prop1 = JUndef \<longrightarrow> proto_prop p = JUndef \<longrightarrow>
      sub_value r' prop1 p = or_else (sub_value ?r prop1 p) (sub_value (jobj ss) prop1 p) \<and>
      (get_prop r' prop1 = JUndef) = (get_prop ?r prop1 = JUndef \<and> get_prop (jobj ss) prop1 = JUndef)"
    using Cons.IH [of ?r] by blast
  have r: "get_prop ?r prop1 = (if prop1 = k then v else get_prop r prop1)" for prop1 using rs by simp
  have es: "get_prop (jobj (e # ss)) prop1 = (if prop1 = k then config else get_prop (jobj ss) prop1)" for prop1
    by (simp add: e)
  have nu: "v \<noteq> JUndef" "config \<noteq> JUndef" using v(2) qs(1) by (auto simp: plain_props_def)
  have "sub_value r' prop1 p = or_else (sub_value r prop1 p) (sub_value (jobj (e # ss)) prop1 p) \<and>
      (get_prop r' prop1 = JUndef) = (get_prop r prop1 = JUndef \<and> get_prop (jobj (e # ss)) prop1 = JUndef)"
    if pp: "proto_prop prop1 = JUndef" "proto_prop p = JUndef" for prop1 p
  proof (cases "prop1 = k")
    case True
    have "sub_value ?r k p = or_else (sub_value r k p) (get_prop config p)"
      using v(3) pp(2) nu(1) r [of k] by (simp add: sub_value_def [of "set_prop k v r"] del: get_prop.simps)
    moreover have "sub_value (jobj (e # ss)) k p = get_prop config p" "sub_value (jobj ss) k p = JUndef"
      using nu(2) k(2) es [of k] by (simp_all add: sub_value_def del: get_prop.simps)
    moreover have "get_prop ?r k \<noteq> JUndef" "get_prop (jobj (e # ss)) k \<noteq> JUndef"
      using nu r [of k] es [of k] by (simp_all del: get_prop.simps)
    ultimately show ?thesis using r'(2) pp True by (simp add: or_else_def)
  next
    case False
    then have same: "get_prop ?r prop1 = get_prop r prop1" "get_prop (jobj (e # ss)) prop1 = get_prop (jobj ss) prop1"
      using r es by simp_all
    then have "sub_value ?r prop1 p = sub_value r prop1 p"
      "sub_value (jobj (e # ss)) prop1 p = sub_value (jobj ss) prop1 p"
      by (simp_all only: sub_value_def)
    then show ?thesis using r'(2) pp same by metis
  qed
  then show ?case using step r'(1) by (simp only: ex_simps) blast
qed

lemma copy_primary_spec:
  assumes "distinct (map fst ps)" "list_all (\<lambda>(k, v). proto_prop k = JUndef \<and> plain_props v) ps"
  shows "plain_props (copy_primary ps) \<and> list_all (\<lambda>(k, v). plain_props v) (own_props (copy_primary ps)) \<and>
    (\<forall>prop1 p. proto_prop prop1 = JUndef \<longrightarrow>
      sub_value (copy_primary ps) prop1 p = sub_value (jobj ps) prop1 p \<and>
      (get_prop (copy_primary ps) prop1 = JUndef) = (get_prop (jobj ps) prop1 = JUndef))"
proof -
  have copy: "plain_props (shallow_copy v) \<and> (\<forall>p. get_prop (shallow_copy v) p = get_prop v p)" if pv: "plain_props v" for v
  proof -
    obtain ws where ws: "v = jobj ws" "distinct (map fst ws)" using plain_props_obj [OF pv] by blast
    obtain qs where "shallow_copy (jobj ws) = jobj qs" "jwf qs" "map_of qs = map_of ws"
      using shallow_copy_props [OF ws(2)] by blast
    then show ?thesis using ws(1) by (simp add: plain_props_def)
  qed
  let ?kvs = "map (\<lambda>(k, v). (k, shallow_copy v)) ps"
  have fold: "fold (\<lambda>(k, v) r. set_prop k (shallow_copy v) r) xs (jobj m) =
      jobj (fold (\<lambda>(k, v). jset k v) (map (\<lambda>(k, v). (k, shallow_copy v)) xs) m)" for xs m
    by (induction xs arbitrary: m) auto
  have keys: "map fst ?kvs = map fst ps" by (simp add: split_def)
  obtain qs where qs: "copy_primary ps = jobj qs" "jwf qs" "map_of qs = map_of ?kvs"
  proof
    let ?qs = "fold (\<lambda>(k, v). jset k v) ?kvs []"
    show "copy_primary ps = jobj ?qs" by (simp add: copy_primary_def fold)
    have "jwf (fold (\<lambda>(k, v). jset k v) kvs m)" if "jwf m" for kvs :: "(string \<times> jsv) list" and m
      using that by (induction kvs arbitrary: m) auto
    then show "jwf ?qs" by simp
    have "map_of (rev ?kvs) = map_of ?kvs" by (rule map_of_rev_keys) (simp only: keys assms(1))
    then show "map_of ?qs = map_of ?kvs" using jset_all_lookup [of "[]" ?kvs] by simp
  qed
  have look: "map_of qs k = map_option shallow_copy (map_of ps k)" for k
    by (simp add: qs(3) map_of_map split_def) (induction ps; simp)
  have "list_all (\<lambda>(k, v). plain_props v) qs"
    using look copy assms(2) map_of_SomeD [of ps] map_of_is_SomeI [OF qs(2)]
    by (fastforce simp: list_all_iff)
  moreover have "sub_value (jobj qs) prop1 p = sub_value (jobj ps) prop1 p \<and>
      (get_prop (jobj qs) prop1 = JUndef) = (get_prop (jobj ps) prop1 = JUndef)" if "proto_prop prop1 = JUndef" for prop1 p
  proof (cases "map_of ps prop1")
    case None
    then show ?thesis using that look [of prop1] by (simp add: sub_value_def)
  next
    case (Some v)
    then have "plain_props v" using assms(2) map_of_SomeD [OF Some] by (auto simp: list_all_iff)
    moreover from this have "v \<noteq> JUndef" "shallow_copy v \<noteq> JUndef" using copy [of v] by (auto simp: plain_props_def)
    ultimately show ?thesis using Some look [of prop1] copy [of v] by (simp add: sub_value_def)
  qed
  ultimately show ?thesis using qs by (simp add: plain_props_def)
qed

text \<open>The documented contract of merging configurations: for partial configurations, whose properties are
  objects, the result exists exactly if one of them has communication options, it has a sub-configuration exactly
  if one of them has, and the value of each property of a sub-configuration is the one of the primary configuration
  unless this is undefined, and then the one of the secondary configuration.\<close>

theorem merged_configuration:
  assumes "partial_configuration primary" "partial_configuration secondary"
  shows "(\<exists>r. merge_configurations primary secondary = Inr r) =
      (get_prop primary ''communication'' \<noteq> JUndef \<or> get_prop secondary ''communication'' \<noteq> JUndef) \<and>
    (\<forall>r prop1 p. merge_configurations primary secondary = Inr r \<longrightarrow> proto_prop prop1 = JUndef \<longrightarrow>
      proto_prop p = JUndef \<longrightarrow>
      (get_prop r prop1 = JUndef) = (get_prop primary prop1 = JUndef \<and> get_prop secondary prop1 = JUndef) \<and>
      sub_value r prop1 p = or_else (sub_value primary prop1 p) (sub_value secondary prop1 p))"
proof -
  obtain ps where ps: "primary = jobj ps" "distinct (map fst ps)"
    "list_all (\<lambda>(k, v). proto_prop k = JUndef \<and> plain_props v) ps"
    using assms(1) plain_props_obj [of primary] by (auto simp: partial_configuration_def)
  obtain ss where ss: "secondary = jobj ss" "distinct (map fst ss)"
    "list_all (\<lambda>(k, v). proto_prop k = JUndef \<and> plain_props v) ss"
    using assms(2) plain_props_obj [of secondary] by (auto simp: partial_configuration_def)
  note c = copy_primary_spec [OF ps(2,3)]
  obtain r where r: "merge_secondary ss (copy_primary ps) = Inr r"
    "\<forall>prop1 p. proto_prop prop1 = JUndef \<longrightarrow> proto_prop p = JUndef \<longrightarrow>
      sub_value r prop1 p = or_else (sub_value (copy_primary ps) prop1 p) (sub_value secondary prop1 p) \<and>
      (get_prop r prop1 = JUndef) = (get_prop (copy_primary ps) prop1 = JUndef \<and> get_prop secondary prop1 = JUndef)"
    using merge_secondary_spec [OF conjunct1 [OF c] conjunct1 [OF conjunct2 [OF c]] ss(2,3)] ss(1) by blast
  have all: "(get_prop r prop1 = JUndef) = (get_prop primary prop1 = JUndef \<and> get_prop secondary prop1 = JUndef) \<and>
      sub_value r prop1 p = or_else (sub_value primary prop1 p) (sub_value secondary prop1 p)"
    if "proto_prop prop1 = JUndef" "proto_prop p = JUndef" for prop1 p
    using r(2) c that ps(1) by simp
  have "proto_prop ''communication'' = JUndef" by (simp add: proto_prop_def object_proto_names_def)
  then have com: "(get_prop r ''communication'' = JUndef) =
      (get_prop primary ''communication'' = JUndef \<and> get_prop secondary ''communication'' = JUndef)"
    using all by blast
  have m: "merge_configurations primary secondary =
      (if get_prop r ''communication'' = JUndef then Inl missing_communication else Inr r)"
    using ps(1) ss(1) r(1) by (simp add: merge_configurations_def)
  show ?thesis using all com unfolding m by auto
qed

definition broker_options :: "string \<Rightarrow> jsv" where
  "broker_options url = jobj [(''communication'', jobj [(''brokerUrl'', JStr url), (''namespace'', JStr ''n'')])]"

definition app_options :: jsv where
  "app_options = jobj [(''communication'', jobj [(''brokerUrl'', JStr ''mqtt://a''), (''namespace'', JUndef)])]"

theorem merged_configuration_witness:
  "\<exists>r. merge_configurations app_options (broker_options ''mqtt://b'') = Inr r \<and>
    sub_value r ''communication'' ''brokerUrl'' = JStr ''mqtt://a'' \<and>
    sub_value r ''communication'' ''namespace'' = JStr ''n''"
proof -
  have ok: "partial_configuration app_options" "partial_configuration (broker_options ''mqtt://b'')"
    by (simp_all add: partial_configuration_def plain_props_def app_options_def broker_options_def proto_prop_def
        object_proto_names_def)
  note m = merged_configuration [OF ok]
  have "get_prop app_options ''communication'' \<noteq> JUndef" by (simp add: app_options_def)
  then obtain r where r: "merge_configurations app_options (broker_options ''mqtt://b'') = Inr r" using m by blast
  have v: "sub_value r ''communication'' p =
      or_else (sub_value app_options ''communication'' p) (sub_value (broker_options ''mqtt://b'') ''communication'' p)"
    if "proto_prop p = JUndef" for p
    using m r that by (simp add: proto_prop_def object_proto_names_def)
  have "sub_value r ''communication'' ''brokerUrl'' = JStr ''mqtt://a''"
    by (subst v) (simp_all add: proto_prop_def object_proto_names_def sub_value_def app_options_def or_else_def)
  moreover have "sub_value r ''communication'' ''namespace'' = JStr ''n''"
    by (subst v) (simp_all add: proto_prop_def object_proto_names_def sub_value_def app_options_def or_else_def
        broker_options_def)
  ultimately show ?thesis using r by blast
qed

text \<open>An undefined sub-configuration in the secondary configuration makes the merge throw, if the primary one has
  it.\<close>

lemma undefined_secondary_throws:
  assumes "get_prop r k \<noteq> JUndef"
  shows "\<exists>e. merge_secondary ((k, JUndef) # ss) r = Inl e"
  using assms by (simp add: merge_sub_def own_props_r_def Let_def)

end
