(* ===== verification/SqLiteCordova.thy ===== *)
theory SqLiteCordova
  imports SqLiteProps
begin

text \<open>
  The SQLite adapter for Cordova, \<open>src/src/db/adapter-sqlite-cordova/sqlite-cordova-adapter.ts\<close>: its options,
  queries on a lazily opened database or on a transaction, and transactions. The storage plugin is a parameter:
  it opens and closes databases, executes statements, and tells how a transaction ended.
\<close>

section \<open>Options\<close>

definition cordova_options :: "jsv \<Rightarrow> jsv \<Rightarrow> jsv" where
  "cordova_options connectionString connOpts =
    (let options = jobj [(''name'', connectionString), (''location'', JStr ''default'')] in
     if truthy connOpts then
       (if truthy (get_prop connOpts ''iosDatabaseLocation'')
        then set_prop ''location'' JUndef
          (set_prop ''iosDatabaseLocation'' (get_prop connOpts ''iosDatabaseLocation'') options)
        else if truthy (get_prop connOpts ''location'')
        then set_prop ''location'' (get_prop connOpts ''location'') options
        else options)
     else options)"

section \<open>Queries\<close>

text \<open>\<open>co_open\<close> is whether the adapter has a database handle.\<close>

record 'db cordova =
  co_open :: bool
  co_db :: 'db

definition extract_rows :: "jsv list \<Rightarrow> jsv list" where
  "extract_rows items = map (\<lambda>i. items ! i) [0..<length items]"

definition execute_sql :: "'db kv_env \<Rightarrow> string \<times> jsv list \<Rightarrow> 'db cordova \<Rightarrow> (js_error + jsv list) \<times> 'db cordova"
  where
  "execute_sql env stmt s =
    (let (r, db') = kv_exec env stmt (co_db s) in (rbind r (\<lambda>items. Inr (extract_rows items)), s\<lparr>co_db := db'\<rparr>))"

text \<open>\<open>opened\<close> is the error of opening the database, if it fails. The handle is kept when the default store
  cannot be created.\<close>

definition get_database ::
  "js_error option \<Rightarrow> 'db kv_env \<Rightarrow> 'db cordova \<Rightarrow> (js_error + unit) \<times> 'db cordova" where
  "get_database opened env s =
    (if co_open s then (Inr (), s)
     else case opened of
       Some e \<Rightarrow> (Inl e, s)
     | None \<Rightarrow>
         (let (r, s') = execute_sql env (get_sql_query (kv_json env) (get_store_query CREATE [])) (s\<lparr>co_open := True\<rparr>)
          in (rbind r (\<lambda>_. Inr ()), s')))"

text \<open>A query of a transaction context is executed on its transaction.\<close>

definition cordova_exec ::
  "js_error option \<Rightarrow> bool \<Rightarrow> 'db kv_env \<Rightarrow> string \<times> jsv list \<Rightarrow> 'db cordova \<Rightarrow>
    (js_error + jsv list) \<times> 'db cordova" where
  "cordova_exec opened inTransaction env stmt s =
    (if inTransaction then execute_sql env stmt s
     else case get_database opened env s of
       (Inl e, s') \<Rightarrow> (Inl e, s')
     | (Inr _, s') \<Rightarrow> execute_sql env stmt s')"

text \<open>The operations of the base class, over the queries of this adapter.\<close>

definition cordova_env :: "js_error option \<Rightarrow> bool \<Rightarrow> 'db kv_env \<Rightarrow> 'db cordova kv_env" where
  "cordova_env opened inTransaction env =
    \<lparr>kv_exec = cordova_exec opened inTransaction env, kv_parse = kv_parse env, kv_json = kv_json env\<rparr>"

definition cordova_close :: "js_error option \<Rightarrow> 'db cordova \<Rightarrow> (js_error + unit) \<times> 'db cordova" where
  "cordova_close failure s =
    (if \<not> co_open s then (Inr (), s)
     else case failure of
       None \<Rightarrow> (Inr (), s\<lparr>co_open := False\<rparr>)
     | Some e \<Rightarrow> (Inl e, s))"

section \<open>Transactions\<close>

text \<open>The action throws, or returns a promise that settles. The plugin is told of a thrown error only; it
  answers with the error for which it has rolled back, or has committed.\<close>

definition cordova_transaction ::
  "js_error option \<Rightarrow> (js_error option \<Rightarrow> js_error option) \<Rightarrow> js_error + (js_error + jsv) \<Rightarrow> js_error + jsv" where
  "cordova_transaction opened plugin action =
    (case opened of
       Some e \<Rightarrow> Inl e
     | None \<Rightarrow>
         (case plugin (case action of Inl e \<Rightarrow> Some e | Inr promise \<Rightarrow> None) of
            Some e \<Rightarrow> Inl e
          | None \<Rightarrow> Inr JUndef))"

section \<open>Properties\<close>

lemma extract_rows_id: "extract_rows items = items"
  by (simp add: extract_rows_def map_nth)

lemma execute_sql_eq:
  "execute_sql env stmt s = (fst (kv_exec env stmt (co_db s)), s\<lparr>co_db := snd (kv_exec env stmt (co_db s))\<rparr>)"
  by (cases "fst (kv_exec env stmt (co_db s))")
    (auto simp: execute_sql_def extract_rows_id split: prod.split)

lemma cordova_exec_open:
  "co_open s \<or> inTransaction \<Longrightarrow> cordova_exec opened inTransaction env stmt s = execute_sql env stmt s"
  by (auto simp: cordova_exec_def get_database_def)

text \<open>Once the database is open, calls on local stores are answered as by the other SQLite adapter.\<close>

lemma cordova_step_open:
  assumes "co_open s \<or> inTransaction"
  shows "kv_step (cordova_env opened inTransaction env) call s =
    (fst (kv_step env call (co_db s)), s\<lparr>co_db := snd (kv_step env call (co_db s))\<rparr>)"
proof -
  have q: "kv_query (cordova_env opened inTransaction env) sql s =
      (fst (kv_query env sql (co_db s)), s\<lparr>co_db := snd (kv_query env sql (co_db s))\<rparr>)" for sql
    using assms by (simp add: kv_query_def cordova_env_def cordova_exec_open execute_sql_eq)
  have v: "values_object (cordova_env opened inTransaction env) rows obj = values_object env rows obj" for rows obj
    by (induction rows arbitrary: obj) (simp_all add: cordova_env_def)
  have p: "kv_json (cordova_env opened inTransaction env) = kv_json env"
    "kv_parse (cordova_env opened inTransaction env) = kv_parse env" by (simp_all add: cordova_env_def)
  show ?thesis
    by (cases call)
      (simp_all add: kv_step_def add_store_def remove_store_def get_value_def get_values_def set_value_def
        delete_value_def clear_values_def result_of_def q v p case_prod_beta)
qed

lemma cordova_run_open:
  "co_open s \<or> inTransaction \<Longrightarrow>
    kv_run (cordova_env opened inTransaction env) calls s =
      (fst (kv_run env calls (co_db s)), s\<lparr>co_db := snd (kv_run env calls (co_db s))\<rparr>)"
proof (induction calls arbitrary: s)
  case (Cons call calls)
  have "co_open (s\<lparr>co_db := db\<rparr>) \<or> inTransaction" for db using Cons.prems by simp
  from Cons.IH [OF this] show ?case
    by (simp add: cordova_step_open [OF Cons.prems] case_prod_beta)
qed simp

text \<open>A rejected action does not roll back its transaction: what the action's promise settles with makes no
  difference, where the adapter for Node.js rolls back and rejects.\<close>

lemma cordova_ignores_rejection:
  "cordova_transaction None (\<lambda>e. e) (Inr (Inl err)) = Inr JUndef"
  "lite_transaction None False (\<lambda>c. None) (Inl err) = (Inl err, [Begin, Rollback])"
  "cordova_transaction opened plugin (Inr promise) = cordova_transaction opened plugin (Inr promise')"
  by (simp_all add: cordova_transaction_def lite_transaction_def transact_def rollback_lite_def split: option.split)

end
