(* ===== verification/Logging.thy ===== *)
theory Logging
  imports CommManager
begin

text \<open>
  The logging of controllers, \<open>src/src/controller/controller.ts\<close>. The conversion of a value to a string in a
  template is a parameter, as are the uuid, the local date, and what the runtime tells of the host; the override
  of \<open>extendLogObject\<close> is a function on the log object.
\<close>

record log_context =
  lc_name :: string
  lc_agent_info :: jsv
  lc_pid :: "jsv option" \<comment> \<open>on a CommonJS platform\<close>
  lc_user_agent :: "jsv option" \<comment> \<open>on a web platform\<close>
  lc_text :: "jsv \<Rightarrow> string"
  lc_extend :: "jsv \<Rightarrow> jsv"

definition log_host :: "log_context \<Rightarrow> jsv" where
  "log_host c =
    jobj [(''agentInfo'', lc_agent_info c), (''pid'', case lc_pid c of Some p \<Rightarrow> p | None \<Rightarrow> JUndef),
      (''userAgent'', case lc_user_agent c of Some u \<Rightarrow> u | None \<Rightarrow> JUndef)]"

definition make_log :: "log_context \<Rightarrow> string \<Rightarrow> string \<Rightarrow> int \<Rightarrow> string \<Rightarrow> string list \<Rightarrow> jsv" where
  "make_log c newUuid date logLevel message tags =
    jobj [(''objectId'', JStr newUuid), (''objectType'', JStr (object_type_prefix @ ''Log'')),
      (''coreType'', JStr ''Log''), (''name'', JStr (lc_name c)), (''logLevel'', jint logLevel),
      (''logMessage'', JStr message), (''logDate'', JStr date), (''logTags'', JArr (map JStr tags)),
      (''logHost'', log_host c)]"

datatype log_call =
    LogDebug string "string list"
  | LogInfo string "string list"
  | LogWarning string "string list"
  | LogError jsv string "string list"
  | LogErrorWithStacktrace jsv string "string list"
  | LogFatal jsv string "string list"

definition has_stack :: "jsv \<Rightarrow> bool" where
  "has_stack err = (truthy err \<and> typeof err = TObject \<and> truthy (get_prop err ''stack''))"

definition fatal_suffix :: string where
  "fatal_suffix = CHR 0x0A # ''{{error.stack}}''"

definition log_parts :: "log_context \<Rightarrow> log_call \<Rightarrow> int \<times> string \<times> string list" where
  "log_parts c call =
    (case call of
       LogDebug message tags \<Rightarrow> (10, message, tags)
     | LogInfo message tags \<Rightarrow> (20, message, tags)
     | LogWarning message tags \<Rightarrow> (30, message, tags)
     | LogError err message tags \<Rightarrow> (40, message @ '': '' @ lc_text c err, tags)
     | LogErrorWithStacktrace err message tags \<Rightarrow>
         (40, message @ '': '' @ lc_text c (if has_stack err then get_prop err ''stack'' else err), tags)
     | LogFatal err message tags \<Rightarrow>
         (50, message @ '': '' @ lc_text c err @ (if has_stack err then fatal_suffix else []), tags))"

definition controller_log ::
  "(nat \<Rightarrow> string) \<Rightarrow> log_context \<Rightarrow> string \<Rightarrow> string \<Rightarrow> log_call \<Rightarrow> comm_manager \<Rightarrow> js_error + comm_manager" where
  "controller_log uuid c newUuid date call s =
    (case log_parts c call of (logLevel, message, tags) \<Rightarrow>
       rbind (new_advertise_data (lc_extend c (make_log c newUuid date logLevel message tags)) JUndef) (\<lambda>d.
         Inr (publish_advertise uuid d s)))"

section \<open>Properties\<close>

definition host_ok :: "log_context \<Rightarrow> bool" where
  "host_ok c =
    ((lc_agent_info c = JUndef \<or> is_agent_info (lc_agent_info c)) \<and>
     (\<forall>p. lc_pid c = Some p \<longrightarrow> p = JUndef \<or> is_num p) \<and> (\<forall>u. lc_user_agent c = Some u \<longrightarrow> u = JUndef \<or> is_str u))"

lemma log_host_ok: "host_ok c \<Longrightarrow> is_log_host (log_host c)"
  by (auto simp: host_ok_def is_log_host_def log_host_def prop_opt_def proto_prop_def object_proto_names_def
      split: option.split)

lemma log_parts_level: "fst (log_parts c call) \<in> {10, 20, 30, 40, 50}"
  by (cases call) (simp_all add: log_parts_def)

lemma make_log_valid:
  assumes "host_ok c" "logLevel \<in> {10, 20, 30, 40, 50}" "[] \<notin> set tags" "newUuid \<noteq> []"
  shows "is_object (make_log c newUuid date logLevel message tags) (Some ''Log'')"
proof -
  have "is_string_array (JArr (map JStr tags))" using assms(3) by (auto simp: is_string_array_def list_all_iff)
  moreover have "is_log_host (log_host c)" by (rule log_host_ok [OF assms(1)])
  moreover have "enum_member log_levels (jint logLevel)"
    using assms(2) by (auto simp: enum_member_def log_levels_def)
  ultimately show ?thesis
    using assms(4)
    by (simp add: is_object_Some is_assignable.simps is_log_def make_log_def is_object_base_def core_type_is_def
        is_core_type_iff core_type_names_def prop_opt_def proto_prop_def object_proto_names_def)
qed

lemma make_log_filters: "object_filters (make_log c newUuid date logLevel message tags) = [''Log'']"
  by (simp add: object_filters_def make_log_def prop_string_def get_object_type_for_def core_types_map_def
      core_type_names_def object_type_prefix_def Let_def)

text \<open>Every log call of a controller that does not change its log objects advertises one valid Log object, by its
  core type alone; a call with an empty tag throws instead.\<close>

lemma controller_log_publishes:
  assumes "host_ok c" "newUuid \<noteq> []" "lc_extend c = (\<lambda>x. x)" "log_parts c call = (logLevel, message, tags)"
    "obj = make_log c newUuid date logLevel message tags"
  shows "controller_log uuid c newUuid date call s =
    (if [] \<in> set tags then Inl (TypeError ''in AdvertiseEventData: arguments not valid'')
     else Inr (publish_like (AdvertiseEv \<lparr>ad_object = obj, ad_private = JUndef\<rparr>) (Some ''Log'') None s))"
proof (cases "[] \<in> set tags")
  case True
  then have "\<not> is_string_array (get_prop obj ''logTags'')"
    by (auto simp: assms(5) make_log_def is_string_array_def list_all_iff)
  moreover have "get_prop obj ''logTags'' \<noteq> JUndef" by (simp add: assms(5) make_log_def)
  ultimately have "\<not> is_log obj" by (simp add: is_log_def prop_opt_def)
  then have "\<not> is_assignable obj ''Log''" by (simp add: is_assignable.simps)
  then have "\<not> is_object obj None" by (simp add: is_object_None) (simp add: assms(5) make_log_def)
  then show ?thesis
    using True assms(3,4) by (simp add: controller_log_def new_advertise_data_def assms(5) [symmetric])
next
  case False
  have "logLevel \<in> {10, 20, 30, 40, 50}" using log_parts_level [of c call] assms(4) by simp
  then have "is_object obj (Some ''Log'')" using make_log_valid [OF assms(1) _ False assms(2)] by (simp add: assms(5))
  then have "is_object obj None" by (simp add: is_object_None is_object_Some) (simp add: assms(5) make_log_def)
  then have "new_advertise_data obj JUndef = Inr \<lparr>ad_object = obj, ad_private = JUndef\<rparr>"
    by (simp add: new_advertise_data_def is_valid_private_data_def)
  moreover have "object_filters obj = [''Log'']" by (simp add: assms(5) make_log_filters)
  ultimately show ?thesis
    using False assms(3,4)
    by (simp add: controller_log_def assms(5) [symmetric] publish_advertise_def publish_event_def)
qed

text \<open>The stack of a fatal error is never logged: the message depends on its presence only.\<close>

lemma fatal_stack_lost:
  assumes "has_stack err" "has_stack err'" "lc_text c err = lc_text c err'"
  shows "log_parts c (LogFatal err message tags) = log_parts c (LogFatal err' message tags)"
  using assms by (simp add: log_parts_def)

end
