(* ===== verification/AsyncSeries.thy ===== *)
theory AsyncSeries
  imports JsValue
begin

text \<open>
  Asynchronous operations in series, \<open>inSeries\<close> and \<open>reduce\<close> of \<open>src/src/util/async.ts\<close>. An asynchronous function
  is a function on a state, such as the trace of its effects, whose promise rejects or resolves; the
  promises are awaited one after the other. \<open>withTimeout\<close>, a race with a timer, is left out.
\<close>

type_synonym ('s, 'r) async_result = "(js_error + 'r) \<times> 's"

fun series_from ::
  "('a \<Rightarrow> nat \<Rightarrow> 's \<Rightarrow> ('s, jsv) async_result) \<Rightarrow> 'a list \<Rightarrow> nat \<Rightarrow> 's \<Rightarrow> ('s, int) async_result" where
  "series_from f [] index s = (Inr (int index - 1), s)"
| "series_from f (item # items) index s =
    (case f item index s of
       (Inl e, s') \<Rightarrow> (Inl e, s')
     | (Inr didNotBreak, s') \<Rightarrow>
         (if didNotBreak = JBool False then (Inr (int index), s') else series_from f items (Suc index) s'))"

definition in_series ::
  "('a \<Rightarrow> nat \<Rightarrow> 's \<Rightarrow> ('s, jsv) async_result) \<Rightarrow> 'a list \<Rightarrow> 's \<Rightarrow> ('s, int) async_result" where
  "in_series f items s = series_from f items 0 s"

fun reduce_from ::
  "('a \<Rightarrow> 'r \<Rightarrow> nat \<Rightarrow> 's \<Rightarrow> ('s, 'r) async_result) \<Rightarrow> 'a list \<Rightarrow> nat \<Rightarrow> 'r \<Rightarrow> 's \<Rightarrow> ('s, 'r) async_result" where
  "reduce_from f [] index r s = (Inr r, s)"
| "reduce_from f (item # items) index r s =
    (case f item r index s of
       (Inl e, s') \<Rightarrow> (Inl e, s')
     | (Inr v, s') \<Rightarrow> reduce_from f items (Suc index) v s')"

definition async_reduce ::
  "('a \<Rightarrow> 'r \<Rightarrow> nat \<Rightarrow> 's \<Rightarrow> ('s, 'r) async_result) \<Rightarrow> 'a list \<Rightarrow> 'r \<Rightarrow> 's \<Rightarrow> ('s, 'r) async_result" where
  "async_reduce f items initial s = reduce_from f items 0 initial s"

text \<open>The operation applied to an item, recorded in a trace.\<close>

definition recorded :: "('a \<Rightarrow> js_error + jsv) \<Rightarrow> 'a \<Rightarrow> nat \<Rightarrow> ('a \<times> nat) list \<Rightarrow> (('a \<times> nat) list, jsv) async_result" where
  "recorded f item index tr = (f item, tr @ [(item, index)])"

definition goes_on :: "('a \<Rightarrow> js_error + jsv) \<Rightarrow> 'a \<Rightarrow> bool" where
  "goes_on f item = (case f item of Inl e \<Rightarrow> False | Inr v \<Rightarrow> v \<noteq> JBool False)"

lemma series_from_stops:
  "series_from (recorded f) items index tr =
    (let before = takeWhile (goes_on f) items; n = length before
     in case drop n items of
          [] \<Rightarrow> (Inr (int (index + n) - 1), tr @ zip before [index..<index + n])
        | item # rest \<Rightarrow>
            (case f item of Inl e \<Rightarrow> Inl e | Inr v \<Rightarrow> Inr (int (index + n)),
             tr @ zip (before @ [item]) [index..<index + n + 1]))"
proof (induction items arbitrary: index tr)
  case (Cons item items)
  show ?case
  proof (cases "goes_on f item")
    case True
    then obtain v where v: "f item = Inr v" "v \<noteq> JBool False" by (auto simp: goes_on_def split: sum.splits)
    let ?n = "length (takeWhile (goes_on f) items)"
    have up: "[index..<Suc (index + ?n)] = index # [Suc index..<Suc (index + ?n)]"
      "[index..<Suc (Suc (index + ?n))] = index # [Suc index..<Suc (Suc (index + ?n))]"
      by (simp_all add: upt_conv_Cons del: upt_Suc)
    show ?thesis
      using Cons.IH [of "Suc index" "tr @ [(item, index)]"] v True
      by (cases "drop ?n items") (simp_all add: recorded_def Let_def up del: upt_Suc split: sum.split)
  next
    case False
    then show ?thesis
      by (cases "f item") (auto simp: recorded_def goes_on_def Let_def)
  qed
qed simp

text \<open>The operation is applied to the items from left to right, up to the first one for which it
  rejects or resolves to \<open>false\<close>, with their indices; the result is its error or the index of the last
  item it was applied to, \<open>-1\<close> for no items.\<close>

lemma in_series_stops:
  "in_series (recorded f) items [] =
    (let before = takeWhile (goes_on f) items; n = length before
     in case drop n items of
          [] \<Rightarrow> (Inr (int n - 1), zip before [0..<n])
        | item # rest \<Rightarrow> (case f item of Inl e \<Rightarrow> Inl e | Inr v \<Rightarrow> Inr (int n), zip (before @ [item]) [0..<n + 1]))"
  using series_from_stops [of f items 0 "[]"] by (simp only: in_series_def add_0 append_Nil)

text \<open>Without rejections the reduction is a left fold.\<close>

lemma async_reduce_fold:
  "async_reduce (\<lambda>item r index s. (Inr (f item r), s)) items initial s = (Inr (fold f items initial), s)"
proof -
  have "reduce_from (\<lambda>item r index s. (Inr (f item r), s)) items index r s = (Inr (fold f items r), s)" for index r
    by (induction items arbitrary: index r) auto
  then show ?thesis by (simp add: async_reduce_def)
qed

end
