(* ===== verification/Spec2Isabelle.thy ===== *)
theory Spec2Isabelle
  imports Prelude JsValue Dates Deep BinSearch EventTypes MqttTopic MqttBinding BindingQueue
    CoreTypes LikePattern ObjectFilter FilterSpec EventData Events CommIo CommIoProps
    CommManager CommManagerProps CommManagerInv InMemoryDb InMemoryDbProps InMemoryDbState IoRouting IoRoutingInv IoRoutingProps
    SqlText PgSql SqlTextProps PgFetch PgFetchProps SqlScan SqlScanProps
    ObjectLifecycle ObjectLifecycleProps Container ContainerProps SensorThings SensorThingsProps
    ThingObserver ThingObserverProps IoEndpoints IoEndpointsProps SqLite SqLiteProps DbContext Historian HistorianProps
    BasicIoRouter ObjectCache ObjectCacheProps Configuration SqLiteCordova Logging AsyncSeries
begin

text \<open>
  A verification library for the Coaty JavaScript framework, \<open>src/src\<close> of this repository: agents that
  exchange events over publish-subscribe messaging, with controllers, IO routing, sensor things and
  databases built on them.

  \<^bold>\<open>Parts of the program and their theories.\<close> A theory \<open>X\<close> holds the model, read from the source, in the order
  of the code; \<open>XProps\<close>, \<open>XInv\<close> and the like hold what is proved of it.

  \<^item> Foundations. \<open>Prelude\<close>: errors as a sum (\<open>js_error + 'a\<close>, \<open>rbind\<close>), the insertion-ordered \<open>Map\<close> of JavaScript
    (\<open>jmap\<close>), and lemmas shared by all. \<open>JsValue\<close>: JavaScript values, \<open>===\<close>, \<open>typeof\<close>, property access, assignment.
  \<^item> Utilities, \<open>util/\<close>. \<open>BinSearch\<close>: search and insertion in sorted arrays, on 32-bit indices. \<open>Dates\<close>: local ISO
    dates, durations, intervals, padding. \<open>Deep\<close>: \<open>equals\<close>, \<open>contains\<close>, \<open>includes\<close>, \<open>clone\<close>. \<open>AsyncSeries\<close>:
    promises in series.
  \<^item> Object model, \<open>model/\<close>. \<open>CoreTypes\<close>: the validators of core objects. \<open>LikePattern\<close>, \<open>ObjectFilter\<close>: filter
    operators and the matcher. \<open>FilterSpec\<close>: what a filter means, declaratively, and that the matcher decides it.
  \<^item> Communication, \<open>com/\<close>. \<open>EventTypes\<close>, \<open>EventData\<close>, \<open>Events\<close>: event types, event data with their validators and
    JSON forms, the round trip of events. \<open>MqttTopic\<close>: topics and their matching. \<open>MqttBinding\<close>, \<open>BindingQueue\<close>: the
    binding as a step relation over the calls of the manager and the events of the MQTT client, its
    subscriptions and its queue of deferred publications. \<open>CommIo\<close>: IO associations and IO states in the manager.
    \<open>CommManager\<close>: observation, publication, requests and responses, dispatching, start and stop, over the binding.
    \<open>CommManagerInv\<close>: manager, binding and broker together, with the reachable states.
  \<^item> Container and controllers, \<open>runtime/\<close>, \<open>controller/\<close>. \<open>Configuration\<close>: merging of configurations. \<open>Container\<close>:
    creation, registration and lifecycle calls of controllers over the manager. \<open>ObjectLifecycle\<close>, \<open>ObjectCache\<close>,
    \<open>Logging\<close>: the controllers of the framework.
  \<^item> IO routing, \<open>io-routing/\<close>. \<open>IoRouting\<close>: the rule-based router. \<open>BasicIoRouter\<close>: the router with one
    global rule. \<open>IoEndpoints\<close>: the controllers of IO sources and IO actors.
  \<^item> Sensor things, \<open>sensor-things/\<close>. \<open>SensorThings\<close>: validators, sources of sensors with their timers, the
    observation of observations. \<open>ThingObserver\<close>: the observation of things with all their sensors.
  \<^item> Databases, \<open>db/\<close>. \<open>InMemoryDb\<close>: the in-memory adapter. \<open>DbContext\<close>: the checks of the database context.
    \<open>Historian\<close>: the historian controller over them. \<open>SqlText\<close>, \<open>PgSql\<close>: quoting, the SQL builder, and the text of
    every statement of the Postgres adapter. \<open>SqlScan\<close>: a scanner of these texts. \<open>PgFetch\<close>: cursors, chunks, pooled
    clients and transactions. \<open>SqLite\<close>, \<open>SqLiteCordova\<close>: the SQLite adapters.

  \<^bold>\<open>How state and effects are modelled.\<close> A class is a record of its fields; a method is a function on it, a method
  that throws or rejects has a sum as its result, and keeps what it changed before. Effects on the outside (publications
  to the MQTT client, emissions to subscribers, calls of lifecycle methods, statements to a server) are appended to an
  output field, and what comes from the outside is a constructor of an event type, so that a run is a list
  of events or a derivation of a step relation, in any order. Observables are written out as the lists of their
  subscribers; those that outlive their item refer to it by its index in a heap. Objects are values: the models
  are of code that does not rely on sharing, or keep what is shared in the state.

  \<^bold>\<open>What the lemmas show.\<close> Communication: in every reachable state with a connected client the broker holds
  the subscription of every event in the manager's table of observed requests, and exactly those of the binding; JSON
  event data survives transport, up to the flag of an external route; requests and responses reach exactly the
  observers they are meant for; a deferred publication leaves the queue when it has succeeded, or with the whole queue
  when the client has ended or was never there; stopping completes every observer once. IO routing: for nodes with both
  arrays of points, routers establish exactly what their rules prescribe, with the greatest update rate, and the
  controllers of IO points know what the manager knows. Controllers: lifecycle calls come in the documented order;
  change infos let a subscriber track exactly what is registered or alive; sensor timers are those of registered
  sensors; objects are discovered once. Databases: queries whose take count is not zero deliver the documented result,
  singly, in batches, and in chunks; objects are kept under their ids and found again; statements scan into the
  tokens of their parts whatever the values are; clients are released, if rows are to be taken, and transactions
  settled; local stores are maps. Where the code does not do what it documents, a lemma states what it does.

  \<^bold>\<open>Locales.\<close> \<open>js_map\<close> (Prelude) is the interface of a map, interpreted on \<open>jmap\<close>. \<open>comparator\<close> (BinSearch) is the
  contract of a comparer, interpreted on the order of query results (InMemoryDbProps). \<open>io_points\<close> (IoEndpointsProps) is
  what the controllers of IO points share, interpreted on sources and on actors.

  \<^bold>\<open>Bounds and termination.\<close> Indices of the binary search are below \<open>2 ^ 31\<close>, the bound of the shift and complement
  it computes with. Strings are lists of the eight-bit characters of HOL, which stand for UTF-16 code units; units above
  255, such as the line terminators U+2028 and U+2029, are outside the model. A query of the in-memory database without a \<open>take\<close> option delivers at most \<open>2 ^ 53 - 1\<close>
  objects, the limit of the code, which bounds the collection of snapshots in \<open>HistorianProps\<close>. No
  model has fuel: loops are structural or have a measure, except the fetching of chunks, a \<open>partial_function\<close>,
  whose termination is proved for a server with finitely many rows.

  \<^bold>\<open>Parameters.\<close> Code that is not in this repository is an argument of the models: the uuid package, the text of
  numbers and dates and their time zone, the parser of JSON, the locale-aware collator and the
  conversions of \<open>Number\<close> and \<open>String\<close> (\<open>conv\<close>), the MQTT client and broker, Postgres and SQLite servers, the
  Cordova plugin, application callbacks and rule conditions. What is assumed of them is a named predicate, such
  as \<open>sqlite_stores\<close>, and each is shown to hold for a concrete function.

  \<^bold>\<open>Not modelled.\<close> Console output, process signals, configuration files and multicast DNS (\<open>runtime-node/\<close>); sensor
  drivers (\<open>sensor-things/io/\<close>), which call a hardware package; the Angular integration; build scripts and tests;
  \<open>DbLocalContext\<close> and the table of adapters, which only pass on to an adapter; the interfaces of the object model, which
  have no code; opening and deleting files of SQLite databases on Node.js; \<open>Async.withTimeout\<close>, a race with a timer;
  real time: timers fire as events. Getters and setters of application objects, and prototypes other than those of
  plain objects and arrays, are outside the values modelled.
\<close>

end
